(* ===== verification/Prelude.thy ===== *)
theory Prelude
  imports Main "HOL-Library.Word" "HOL-Library.Monad_Syntax"
begin

text \<open>
  The shared vocabulary of the development: the machine integers of a 64-bit Rust target, Rust's
  checked arithmetic, results that carry errors, panics and memory faults as values, and the
  generic facts on words and lists that the component theories use.

  Conventions. Unchecked arithmetic wraps and \<^verbatim>\<open>debug_assert!\<close> is compiled out (the release
  profile); \<^verbatim>\<open>assert!\<close>, \<^verbatim>\<open>unwrap\<close>, \<^verbatim>\<open>expect\<close> and out-of-range indexing panic. A panic is
  \<open>None\<close> where a function can only panic, and \<open>Inl (Panic _)\<close> where it can fail in other ways.
\<close>

section \<open>Collections of facts\<close>

named_theorems checked_simps \<open>characterisations of checked arithmetic over natural numbers\<close>
named_theorems res_simps \<open>evaluation of results\<close>

section \<open>Machine integers\<close>

type_synonym u8 = "8 word"
type_synonym u32 = "32 word"
type_synonym u64 = "64 word"
type_synonym usize = "64 word"

definition checked_add :: "'a::len word \<Rightarrow> 'a word \<Rightarrow> 'a word option" where
  "checked_add a b = (if unat a + unat b < 2 ^ LENGTH('a) then Some (a + b) else None)"

definition checked_sub :: "'a::len word \<Rightarrow> 'a word \<Rightarrow> 'a word option" where
  "checked_sub a b = (if unat b \<le> unat a then Some (a - b) else None)"

definition checked_mul :: "'a::len word \<Rightarrow> 'a word \<Rightarrow> 'a word option" where
  "checked_mul a b = (if unat a * unat b < 2 ^ LENGTH('a) then Some (a * b) else None)"

definition try_from :: "'a::len word \<Rightarrow> 'b::len word option" where
  "try_from a = (if unat a < 2 ^ LENGTH('b) then Some (ucast a) else None)"

lemma word_eq_iff_unat: "(a :: 'a::len word) = b \<longleftrightarrow> unat a = unat b"
  by (simp add: word_unat_eq_iff)

lemma unat_add_small:
  fixes a b :: "'a::len word"
  assumes "unat a + unat b < 2 ^ LENGTH('a)"
  shows "unat (a + b) = unat a + unat b"
  using assms by (simp add: unat_word_ariths)

lemma unat_mult_small:
  fixes a b :: "'a::len word"
  assumes "unat a * unat b < 2 ^ LENGTH('a)"
  shows "unat (a * b) = unat a * unat b"
  using assms by (simp add: unat_word_ariths)

lemma unat_of_nat_small: "n < 2 ^ LENGTH('a) \<Longrightarrow> unat (of_nat n :: 'a::len word) = n"
  by (simp add: unat_of_nat take_bit_nat_eq_self)

lemma unat_of_nat_u32: "n < 2 ^ 32 \<Longrightarrow> unat (of_nat n :: u32) = n"
  by (rule unat_of_nat_small) simp

lemma unat_of_nat_u64: "n < 2 ^ 64 \<Longrightarrow> unat (of_nat n :: u64) = n"
  by (rule unat_of_nat_small) simp

lemma unat_lt_u32: "unat (x :: u32) < 2 ^ 32"
  by (rule order_less_le_trans [OF unsigned_less]) simp

lemma unat_lt_u64: "unat (x :: u64) < 2 ^ 64"
  by (rule order_less_le_trans [OF unsigned_less]) simp

lemma unat_ucast_le:
  "unat (a :: 'a::len word) < 2 ^ LENGTH('b) \<Longrightarrow> unat (ucast a :: 'b::len word) = unat a"
  by (simp add: unsigned_ucast_eq take_bit_nat_eq_self)

lemma checked_add_iff [checked_simps]:
  "checked_add a b = Some c \<longleftrightarrow> unat c = unat a + unat b"
proof -
  have "unat c < 2 ^ LENGTH('a)" by (rule unsigned_less)
  then show ?thesis
    by (auto simp: checked_add_def word_eq_iff_unat unat_add_small simp del: unsigned_less)
qed

lemma checked_mul_iff [checked_simps]:
  "checked_mul a b = Some c \<longleftrightarrow> unat c = unat a * unat b"
proof -
  have "unat c < 2 ^ LENGTH('a)" by (rule unsigned_less)
  then show ?thesis
    by (auto simp: checked_mul_def word_eq_iff_unat unat_mult_small simp del: unsigned_less)
qed

lemma checked_sub_iff [checked_simps]:
  "checked_sub a b = Some c \<longleftrightarrow> unat b \<le> unat a \<and> unat c = unat a - unat b"
  by (auto simp: checked_sub_def word_eq_iff_unat unat_sub_if')

lemma try_from_iff [checked_simps]:
  fixes c :: "'b::len word"
  shows "try_from a = Some c \<longleftrightarrow> unat c = unat a"
proof -
  have "unat c < 2 ^ LENGTH('b)" by (rule unsigned_less)
  then show ?thesis
    by (auto simp: try_from_def word_eq_iff_unat unat_ucast_le simp del: unsigned_less)
qed

lemma checked_add_None: "checked_add a b = None \<longleftrightarrow> 2 ^ LENGTH('a) \<le> unat a + unat (b :: 'a::len word)"
  by (simp add: checked_add_def not_less)

lemma checked_mul_None: "checked_mul a b = None \<longleftrightarrow> 2 ^ LENGTH('a) \<le> unat a * unat (b :: 'a::len word)"
  by (simp add: checked_mul_def not_less)

text \<open>The shape \<^verbatim>\<open>base.checked_add(count.checked_mul(size).unwrap()).unwrap()\<close>.\<close>

lemma checked_mul_add_iff [checked_simps]:
  "(checked_mul n s \<bind> checked_add b) = Some c \<longleftrightarrow> unat c = unat b + unat n * unat s"
proof (cases "unat n * unat s < 2 ^ LENGTH('a)")
  case True
  then show ?thesis by (simp add: checked_mul_def checked_add_iff unat_mult_small)
next
  case False
  have "unat c < 2 ^ LENGTH('a)" by (rule unsigned_less)
  with False show ?thesis by (auto simp: checked_mul_def simp del: unsigned_less)
qed

section \<open>Results\<close>

datatype error = Panic string | Segfault | Err string

type_synonym 'a res = "error + 'a"

definition bind_res :: "'e + 'a \<Rightarrow> ('a \<Rightarrow> 'e + 'b) \<Rightarrow> 'e + 'b" where
  "bind_res r f = (case r of Inl e \<Rightarrow> Inl e | Inr x \<Rightarrow> f x)"

definition assert_res :: "bool \<Rightarrow> string \<Rightarrow> unit res" where
  "assert_res b msg = (if b then Inr () else Inl (Panic msg))"

definition unwrap_res :: "'a option \<Rightarrow> string \<Rightarrow> 'a res" where
  "unwrap_res x msg = (case x of None \<Rightarrow> Inl (Panic msg) | Some y \<Rightarrow> Inr y)"

text \<open>Rust's \<^verbatim>\<open>slice[i]\<close>, which panics out of range.\<close>

definition index_res :: "'a list \<Rightarrow> nat \<Rightarrow> 'a res" where
  "index_res xs i = (if i < length xs then Inr (xs ! i) else Inl (Panic ''index out of bounds''))"

lemma bind_res_simps [simp, res_simps]:
  "bind_res (Inl e) f = Inl e"
  "bind_res (Inr x) f = f x"
  by (simp_all add: bind_res_def)

lemma bind_res_Inr_iff:
  "bind_res r f = Inr y \<longleftrightarrow> (\<exists>x. r = Inr x \<and> f x = Inr y)"
  by (cases r) auto

lemma bind_res_cong [fundef_cong]:
  "r = r' \<Longrightarrow> (\<And>x. r' = Inr x \<Longrightarrow> f x = f' x) \<Longrightarrow> bind_res r f = bind_res r' f'"
  by (cases r') auto

lemma bind_res_Inr [elim!]:
  assumes "bind_res r f = Inr y"
  obtains x where "r = Inr x" "f x = Inr y"
  using assms by (auto simp: bind_res_Inr_iff)

lemma assert_res_iff [simp, res_simps]:
  "assert_res b msg = Inr u \<longleftrightarrow> b"
  "assert_res b msg = Inl e \<longleftrightarrow> \<not> b \<and> e = Panic msg"
  by (auto simp: assert_res_def)

lemma assert_res_True [simp]: "b \<Longrightarrow> assert_res b msg = Inr ()"
  by (simp add: assert_res_def)

lemma unwrap_res_iff [simp, res_simps]:
  "unwrap_res x msg = Inr y \<longleftrightarrow> x = Some y"
  by (auto simp: unwrap_res_def split: option.splits)

lemma index_res_iff [simp, res_simps]:
  "index_res xs i = Inr y \<longleftrightarrow> i < length xs \<and> y = xs ! i"
  by (auto simp: index_res_def)

section \<open>Lists\<close>

text \<open>\<open>get\<close> is Rust's \<^verbatim>\<open>slice.get(i)\<close>.\<close>

definition get :: "'a list \<Rightarrow> nat \<Rightarrow> 'a option" where
  "get xs i = (if i < length xs then Some (xs ! i) else None)"

lemma get_Some_iff [simp]: "get xs i = Some x \<longleftrightarrow> i < length xs \<and> x = xs ! i"
  by (auto simp: get_def)

lemma get_None_iff [simp]: "get xs i = None \<longleftrightarrow> length xs \<le> i"
  by (auto simp: get_def)

text \<open>\<open>overwrite xs start ys\<close> overwrites \<^verbatim>\<open>xs[start..start + ys.len()]\<close> with \<open>ys\<close>.\<close>

definition overwrite :: "'a list \<Rightarrow> nat \<Rightarrow> 'a list \<Rightarrow> 'a list" where
  "overwrite xs start ys = take start xs @ ys @ drop (start + length ys) xs"

lemma length_overwrite [simp]:
  "start + length ys \<le> length xs \<Longrightarrow> length (overwrite xs start ys) = length xs"
  by (simp add: overwrite_def)

lemma nth_overwrite:
  assumes "start + length ys \<le> length xs" "i < length xs"
  shows "overwrite xs start ys ! i =
    (if start \<le> i \<and> i < start + length ys then ys ! (i - start) else xs ! i)"
  using assms by (auto simp: overwrite_def nth_append min_def)

text \<open>\<^verbatim>\<open>&xs[n..]\<close> panics past the end; \<open>map_res\<close> stops at the first error.\<close>

definition slice_from :: "'a list \<Rightarrow> nat \<Rightarrow> 'a list res" where
  "slice_from xs n = (if n \<le> length xs then Inr (drop n xs) else Inl (Panic ''slice index''))"

fun map_res :: "('a \<Rightarrow> 'e + 'b) \<Rightarrow> 'a list \<Rightarrow> 'e + 'b list" where
  "map_res f [] = Inr []"
| "map_res f (x # xs) = bind_res (f x) (\<lambda>y. bind_res (map_res f xs) (\<lambda>ys. Inr (y # ys)))"

fun fold_res :: "('a \<Rightarrow> 's \<Rightarrow> 'e + 's) \<Rightarrow> 'a list \<Rightarrow> 's \<Rightarrow> 'e + 's" where
  "fold_res f [] s = Inr s"
| "fold_res f (x # xs) s = bind_res (f x s) (fold_res f xs)"

lemma map_res_Inr_iff:
  "map_res f xs = Inr ys \<longleftrightarrow> list_all2 (\<lambda>x y. f x = Inr y) xs ys"
proof (induction xs arbitrary: ys)
  case (Cons x xs)
  show ?case
    by (cases "f x"; cases "map_res f xs"; cases ys) (auto simp: bind_res_def simp flip: Cons.IH)
qed auto

lemma map_res_total: "(\<And>x. x \<in> set xs \<Longrightarrow> \<exists>y. f x = Inr y) \<Longrightarrow> \<exists>ys. map_res f xs = Inr ys"
  by (induction xs) (auto simp: bind_res_def split: sum.splits, fastforce+)

lemma fold_res_inv:
  assumes "P s" and "\<And>x s. x \<in> set xs \<Longrightarrow> P s \<Longrightarrow> \<exists>s'. f x s = Inr s' \<and> P s'"
  shows "\<exists>s'. fold_res f xs s = Inr s' \<and> P s'"
  using assms
proof (induction xs arbitrary: s)
  case Nil
  then show ?case by simp
next
  case (Cons x xs)
  obtain s1 where "f x s = Inr s1" "P s1" using Cons.prems(1) Cons.prems(2) [of x s] by auto
  then show ?case using Cons.IH [of s1] Cons.prems(2) by auto
qed

section \<open>Results with a state\<close>

text \<open>A step that changes the state and may fail on the way: the state is that at the failure.\<close>

definition bind_st :: "('e + 'a) \<times> 's \<Rightarrow> ('a \<Rightarrow> 's \<Rightarrow> ('e + 'b) \<times> 's) \<Rightarrow> ('e + 'b) \<times> 's" where
  "bind_st r f = (case r of (Inl e, s) \<Rightarrow> (Inl e, s) | (Inr x, s) \<Rightarrow> f x s)"

fun each_st :: "('a \<Rightarrow> 's \<Rightarrow> ('e + unit) \<times> 's) \<Rightarrow> 'a list \<Rightarrow> 's \<Rightarrow> ('e + unit) \<times> 's" where
  "each_st f [] s = (Inr (), s)"
| "each_st f (x # xs) s = bind_st (f x s) (\<lambda>_. each_st f xs)"

lemma bind_st_simps [simp, res_simps]:
  "bind_st (Inl e, s) f = (Inl e, s)"
  "bind_st (Inr x, s) f = f x s"
  by (simp_all add: bind_st_def)

lemma each_st_inv:
  assumes "P s" and "\<And>x s. x \<in> set xs \<Longrightarrow> P s \<Longrightarrow> \<exists>s'. f x s = (Inr (), s') \<and> P s'"
  shows "\<exists>s'. each_st f xs s = (Inr (), s') \<and> P s'"
  using assms
proof (induction xs arbitrary: s)
  case (Cons x xs)
  obtain s1 where "f x s = (Inr (), s1)" "P s1" using Cons.prems(1) Cons.prems(2) [of x s] by auto
  then show ?case using Cons.IH [of s1] Cons.prems(2) by auto
qed simp

text \<open>What every step keeps, a loop keeps, however it ends.\<close>

lemma each_st_keeps:
  assumes "P s" and "\<And>x s. x \<in> set xs \<Longrightarrow> P s \<Longrightarrow> P (snd (f x s))"
  shows "P (snd (each_st f xs s))"
  using assms
proof (induction xs arbitrary: s)
  case (Cons x xs)
  have "P (snd (f x s))" using Cons.prems by simp
  then show ?case using Cons.IH Cons.prems(2) by (cases "f x s"; cases "fst (f x s)") auto
qed simp

end
