(* ===== verification/Module_Env.thy ===== *)
theory Module_Env
  imports Prelude "HOL-Library.AList" "HOL-Library.Multiset"
begin

text \<open>
  The description of a decoded WebAssembly module (\<^verbatim>\<open>wasmtime-environ/src/module.rs\<close>), the
  tunables that choose how memories are implemented (\<^verbatim>\<open>tunables.rs\<close>, \<^verbatim>\<open>target_tunables.rs\<close>) and
  the environment that fills the description in while the module is decoded
  (\<^verbatim>\<open>module_environ.rs\<close>).

  Entity indices (\<^verbatim>\<open>FuncIndex\<close>, \<^verbatim>\<open>DefinedFuncIndex\<close>, \dots) are positions in \<^verbatim>\<open>PrimaryMap\<close>s and
  are natural numbers here; a \<^verbatim>\<open>PrimaryMap\<close> is a list. An \<^verbatim>\<open>IndexMap\<close> is an association list
  kept in insertion order.
\<close>

section \<open>Types of entities\<close>

text \<open>Cranelift's \<^verbatim>\<open>ir::Type\<close> is an opaque code here: it is only compared for equality.\<close>

type_synonym ir_type = u8

datatype argument_purpose = Normal | VMContext

record abi_param =
  value_type :: ir_type
  purpose :: argument_purpose

record ir_signature =
  sig_params :: "abi_param list"
  sig_returns :: "abi_param list"
  call_conv :: nat

record memory_desc =
  mem_minimum :: u32
  mem_maximum :: "u32 option"
  mem_shared :: bool

datatype table_element_type = Func | Val ir_type

record table_desc =
  tbl_ty :: table_element_type
  tbl_minimum :: u32
  tbl_maximum :: "u32 option"

datatype global_init =
    I32Const u32
  | I64Const u64
  | F32Const u32
  | F64Const u64
  | V128Const "u8 list"
  | GetGlobal nat
  | Import

record global_desc =
  glb_ty :: ir_type
  glb_mutability :: bool
  glb_initializer :: global_init

section \<open>Constants and tunables\<close>

definition WASM_PAGE_SIZE :: u32 where
  "WASM_PAGE_SIZE = 0x10000"

definition WASM_MAX_PAGES :: u32 where
  "WASM_MAX_PAGES = 0x10000"

record tunables =
  static_memory_bound :: u32
  static_memory_offset_guard_size :: u64
  dynamic_memory_offset_guard_size :: u64

definition default_tunables :: tunables where
  "default_tunables =
     \<lparr>static_memory_bound = 0x10000,
      static_memory_offset_guard_size = 0x80000000,
      dynamic_memory_offset_guard_size = 0x10000\<rparr>"

definition target_tunables :: "bool \<Rightarrow> tunables" where
  "target_tunables is_windows =
     (let result = default_tunables
      in if is_windows
         then result\<lparr>static_memory_bound := min (static_memory_bound result) 0x100,
                     static_memory_offset_guard_size :=
                       min (static_memory_offset_guard_size result) 0x10000\<rparr>
         else result)"

section \<open>Plans for memories and tables\<close>

datatype memory_style = Dynamic | Static u32

text \<open>\<^verbatim>\<open>MemoryStyle::for_memory\<close>; \<open>None\<close> is the panic of its assertion.\<close>

definition memory_style_for_memory :: "memory_desc \<Rightarrow> tunables \<Rightarrow> (memory_style \<times> u64) option" where
  "memory_style_for_memory memory t =
     (case mem_maximum memory of
        Some maximum \<Rightarrow>
          if maximum \<le> static_memory_bound t
          then (if static_memory_bound t \<ge> mem_minimum memory
                then Some (Static (static_memory_bound t), static_memory_offset_guard_size t)
                else None)
          else Some (Dynamic, dynamic_memory_offset_guard_size t)
      | None \<Rightarrow> Some (Dynamic, dynamic_memory_offset_guard_size t))"

record memory_plan =
  mp_memory :: memory_desc
  mp_style :: memory_style
  mp_offset_guard_size :: u64

definition memory_plan_for_memory :: "memory_desc \<Rightarrow> tunables \<Rightarrow> memory_plan option" where
  "memory_plan_for_memory memory t =
     do { (style, offset_guard_size) \<leftarrow> memory_style_for_memory memory t;
          Some \<lparr>mp_memory = memory, mp_style = style, mp_offset_guard_size = offset_guard_size\<rparr> }"

datatype table_style = CallerChecksSignature

definition table_style_for_table :: "table_desc \<Rightarrow> tunables \<Rightarrow> table_style" where
  "table_style_for_table _ _ = CallerChecksSignature"

record table_plan =
  tp_table :: table_desc
  tp_style :: table_style

definition table_plan_for_table :: "table_desc \<Rightarrow> tunables \<Rightarrow> table_plan" where
  "table_plan_for_table table t = \<lparr>tp_table = table, tp_style = table_style_for_table table t\<rparr>"

section \<open>The module\<close>

record table_elements =
  te_table_index :: nat
  te_base :: "nat option"
  te_offset :: usize
  te_elements :: "nat list"

datatype export_decl =
    ExportFunction nat
  | ExportTable nat
  | ExportMemory nat
  | ExportGlobal nat

type_synonym import_name = "string \<times> string"

record wasm_module =
  signatures :: "ir_signature list"
  imported_funcs :: "import_name list"
  imported_tables :: "import_name list"
  imported_memories :: "import_name list"
  imported_globals :: "import_name list"
  func_sigs :: "nat list"
  table_plans :: "table_plan list"
  memory_plans :: "memory_plan list"
  globals :: "global_desc list"
  exports :: "(string \<times> export_decl) list"
  start_func :: "nat option"
  table_elements :: "table_elements list"

definition module_new :: wasm_module where
  "module_new =
     \<lparr>signatures = [], imported_funcs = [], imported_tables = [], imported_memories = [],
      imported_globals = [], func_sigs = [], table_plans = [], memory_plans = [], globals = [],
      exports = [], start_func = None, table_elements = []\<rparr>"

subsection \<open>Index spaces\<close>

definition func_index :: "wasm_module \<Rightarrow> nat \<Rightarrow> nat" where
  "func_index m defined_func = length (imported_funcs m) + defined_func"

definition defined_func_index :: "wasm_module \<Rightarrow> nat \<Rightarrow> nat option" where
  "defined_func_index m func =
     (if func < length (imported_funcs m) then None
      else Some (func - length (imported_funcs m)))"

definition is_imported_function :: "wasm_module \<Rightarrow> nat \<Rightarrow> bool" where
  "is_imported_function m index \<longleftrightarrow> index < length (imported_funcs m)"

definition table_index :: "wasm_module \<Rightarrow> nat \<Rightarrow> nat" where
  "table_index m defined_table = length (imported_tables m) + defined_table"

definition defined_table_index :: "wasm_module \<Rightarrow> nat \<Rightarrow> nat option" where
  "defined_table_index m table =
     (if table < length (imported_tables m) then None
      else Some (table - length (imported_tables m)))"

definition is_imported_table :: "wasm_module \<Rightarrow> nat \<Rightarrow> bool" where
  "is_imported_table m index \<longleftrightarrow> index < length (imported_tables m)"

definition memory_index :: "wasm_module \<Rightarrow> nat \<Rightarrow> nat" where
  "memory_index m defined_memory = length (imported_memories m) + defined_memory"

definition defined_memory_index :: "wasm_module \<Rightarrow> nat \<Rightarrow> nat option" where
  "defined_memory_index m memory =
     (if memory < length (imported_memories m) then None
      else Some (memory - length (imported_memories m)))"

definition is_imported_memory :: "wasm_module \<Rightarrow> nat \<Rightarrow> bool" where
  "is_imported_memory m index \<longleftrightarrow> index < length (imported_memories m)"

definition global_index :: "wasm_module \<Rightarrow> nat \<Rightarrow> nat" where
  "global_index m defined_global = length (imported_globals m) + defined_global"

definition defined_global_index :: "wasm_module \<Rightarrow> nat \<Rightarrow> nat option" where
  "defined_global_index m global =
     (if global < length (imported_globals m) then None
      else Some (global - length (imported_globals m)))"

definition is_imported_global :: "wasm_module \<Rightarrow> nat \<Rightarrow> bool" where
  "is_imported_global m index \<longleftrightarrow> index < length (imported_globals m)"

subsection \<open>The input of the cache key\<close>

text \<open>
  \<^verbatim>\<open>Export\<close> derives \<^verbatim>\<open>Ord\<close>: variants compare in declaration order, then by index.
\<close>

fun export_rank :: "export_decl \<Rightarrow> nat \<times> nat" where
  "export_rank (ExportFunction i) = (0, i)"
| "export_rank (ExportTable i) = (1, i)"
| "export_rank (ExportMemory i) = (2, i)"
| "export_rank (ExportGlobal i) = (3, i)"

lemma export_rank_inject: "export_rank x = export_rank y \<longleftrightarrow> x = y"
  by (cases x; cases y) auto

instantiation export_decl :: linorder
begin

definition less_eq_export_decl :: "export_decl \<Rightarrow> export_decl \<Rightarrow> bool" where
  "less_eq_export_decl x y \<longleftrightarrow>
     fst (export_rank x) < fst (export_rank y) \<or>
     (fst (export_rank x) = fst (export_rank y) \<and> snd (export_rank x) \<le> snd (export_rank y))"

definition less_export_decl :: "export_decl \<Rightarrow> export_decl \<Rightarrow> bool" where
  "less_export_decl x y \<longleftrightarrow> x \<le> y \<and> \<not> y \<le> x"

instance
proof
  fix x y z :: export_decl
  show "x < y \<longleftrightarrow> x \<le> y \<and> \<not> y \<le> x" by (rule less_export_decl_def)
  show "x \<le> x" by (simp add: less_eq_export_decl_def)
  show "x \<le> y \<Longrightarrow> y \<le> z \<Longrightarrow> x \<le> z" by (auto simp: less_eq_export_decl_def)
  show "x \<le> y \<Longrightarrow> y \<le> x \<Longrightarrow> x = y"
    by (auto simp: less_eq_export_decl_def prod_eq_iff simp flip: export_rank_inject)
  show "x \<le> y \<or> y \<le> x" by (auto simp: less_eq_export_decl_def)
qed

end

record function_body_data =
  body_data :: "u8 list"
  module_offset :: usize

text \<open>What is fed to the hasher, in order. The hash function itself is a library's.\<close>

record cache_hash_input =
  h_signatures :: "ir_signature list"
  h_functions :: "nat list"
  h_table_plans :: "table_plan list"
  h_memory_plans :: "memory_plan list"
  h_globals :: "global_desc list"
  h_exports :: "export_decl list"
  h_bodies :: "function_body_data list"

definition hash_for_cache :: "wasm_module \<Rightarrow> function_body_data list \<Rightarrow> cache_hash_input" where
  "hash_for_cache m function_body_inputs =
     \<lparr>h_signatures = signatures m, h_functions = func_sigs m, h_table_plans = table_plans m,
      h_memory_plans = memory_plans m, h_globals = globals m,
      h_exports = sort (map snd (exports m)), h_bodies = function_body_inputs\<rparr>"

section \<open>The module environment\<close>

record data_initializer_location =
  dl_memory_index :: nat
  dl_base :: "nat option"
  dl_offset :: usize

record data_initializer =
  di_location :: data_initializer_location
  di_data :: "u8 list"

record module_translation =
  pointer_type :: ir_type
  mt_module :: wasm_module
  function_body_inputs :: "function_body_data list"
  data_initializers :: "data_initializer list"
  mt_tunables :: tunables

definition module_environment_new :: "ir_type \<Rightarrow> tunables \<Rightarrow> module_translation" where
  "module_environment_new ptr_ty t =
     \<lparr>pointer_type = ptr_ty, mt_module = module_new, function_body_inputs = [],
      data_initializers = [], mt_tunables = t\<rparr>"

definition translate_signature :: "ir_signature \<Rightarrow> ir_type \<Rightarrow> ir_signature" where
  "translate_signature sig ptr_ty =
     sig\<lparr>sig_params := \<lparr>value_type = ptr_ty, purpose = VMContext\<rparr> # sig_params sig\<rparr>"

abbreviation upd_module :: "(wasm_module \<Rightarrow> wasm_module) \<Rightarrow> module_translation \<Rightarrow> module_translation" where
  "upd_module f e \<equiv> e\<lparr>mt_module := f (mt_module e)\<rparr>"

definition declare_signature :: "ir_signature \<Rightarrow> module_translation \<Rightarrow> module_translation option" where
  "declare_signature sig e =
     (let sig = translate_signature sig (pointer_type e)
      in Some (upd_module (\<lambda>m. m\<lparr>signatures := signatures m @ [sig]\<rparr>) e))"

definition declare_func_import ::
  "nat \<Rightarrow> string \<Rightarrow> string \<Rightarrow> module_translation \<Rightarrow> module_translation option" where
  "declare_func_import sig_index mname field e =
     Some (upd_module (\<lambda>m. m\<lparr>func_sigs := func_sigs m @ [sig_index],
                             imported_funcs := imported_funcs m @ [(mname, field)]\<rparr>) e)"

definition declare_table_import ::
  "table_desc \<Rightarrow> string \<Rightarrow> string \<Rightarrow> module_translation \<Rightarrow> module_translation option" where
  "declare_table_import table mname field e =
     (let plan = table_plan_for_table table (mt_tunables e)
      in Some (upd_module (\<lambda>m. m\<lparr>table_plans := table_plans m @ [plan],
                                 imported_tables := imported_tables m @ [(mname, field)]\<rparr>) e))"

definition declare_memory_import ::
  "memory_desc \<Rightarrow> string \<Rightarrow> string \<Rightarrow> module_translation \<Rightarrow> module_translation option" where
  "declare_memory_import memory mname field e =
     do { plan \<leftarrow> memory_plan_for_memory memory (mt_tunables e);
          Some (upd_module (\<lambda>m. m\<lparr>memory_plans := memory_plans m @ [plan],
                                 imported_memories := imported_memories m @ [(mname, field)]\<rparr>) e) }"

definition declare_global_import ::
  "global_desc \<Rightarrow> string \<Rightarrow> string \<Rightarrow> module_translation \<Rightarrow> module_translation option" where
  "declare_global_import global mname field e =
     Some (upd_module (\<lambda>m. m\<lparr>globals := globals m @ [global],
                             imported_globals := imported_globals m @ [(mname, field)]\<rparr>) e)"

definition declare_func_type :: "nat \<Rightarrow> module_translation \<Rightarrow> module_translation option" where
  "declare_func_type sig_index e =
     Some (upd_module (\<lambda>m. m\<lparr>func_sigs := func_sigs m @ [sig_index]\<rparr>) e)"

definition declare_table :: "table_desc \<Rightarrow> module_translation \<Rightarrow> module_translation option" where
  "declare_table table e =
     (let plan = table_plan_for_table table (mt_tunables e)
      in Some (upd_module (\<lambda>m. m\<lparr>table_plans := table_plans m @ [plan]\<rparr>) e))"

definition declare_memory :: "memory_desc \<Rightarrow> module_translation \<Rightarrow> module_translation option" where
  "declare_memory memory e =
     do { plan \<leftarrow> memory_plan_for_memory memory (mt_tunables e);
          Some (upd_module (\<lambda>m. m\<lparr>memory_plans := memory_plans m @ [plan]\<rparr>) e) }"

definition declare_global :: "global_desc \<Rightarrow> module_translation \<Rightarrow> module_translation option" where
  "declare_global global e =
     Some (upd_module (\<lambda>m. m\<lparr>globals := globals m @ [global]\<rparr>) e)"

text \<open>
  \<^verbatim>\<open>IndexMap::insert\<close> keeps the position of a key that is present and appends a new one.
\<close>

definition declare_export :: "string \<Rightarrow> export_decl \<Rightarrow> module_translation \<Rightarrow> module_translation option" where
  "declare_export name decl e =
     Some (upd_module (\<lambda>m. m\<lparr>exports := AList.update name decl (exports m)\<rparr>) e)"

definition declare_func_export :: "nat \<Rightarrow> string \<Rightarrow> module_translation \<Rightarrow> module_translation option" where
  "declare_func_export i name = declare_export name (ExportFunction i)"

definition declare_table_export :: "nat \<Rightarrow> string \<Rightarrow> module_translation \<Rightarrow> module_translation option" where
  "declare_table_export i name = declare_export name (ExportTable i)"

definition declare_memory_export :: "nat \<Rightarrow> string \<Rightarrow> module_translation \<Rightarrow> module_translation option" where
  "declare_memory_export i name = declare_export name (ExportMemory i)"

definition declare_global_export :: "nat \<Rightarrow> string \<Rightarrow> module_translation \<Rightarrow> module_translation option" where
  "declare_global_export i name = declare_export name (ExportGlobal i)"

definition declare_start_func :: "nat \<Rightarrow> module_translation \<Rightarrow> module_translation option" where
  "declare_start_func i e = Some (upd_module (\<lambda>m. m\<lparr>start_func := Some i\<rparr>) e)"

definition declare_table_elements ::
  "nat \<Rightarrow> nat option \<Rightarrow> usize \<Rightarrow> nat list \<Rightarrow> module_translation \<Rightarrow> module_translation option" where
  "declare_table_elements tbl base offset elements e =
     Some (upd_module (\<lambda>m. m\<lparr>table_elements := table_elements m @
        [\<lparr>te_table_index = tbl, te_base = base, te_offset = offset, te_elements = elements\<rparr>]\<rparr>) e)"

definition define_function_body :: "u8 list \<Rightarrow> usize \<Rightarrow> module_translation \<Rightarrow> module_translation option" where
  "define_function_body body_bytes body_offset e =
     Some (e\<lparr>function_body_inputs := function_body_inputs e @
               [\<lparr>body_data = body_bytes, module_offset = body_offset\<rparr>]\<rparr>)"

definition declare_data_initialization ::
  "nat \<Rightarrow> nat option \<Rightarrow> usize \<Rightarrow> u8 list \<Rightarrow> module_translation \<Rightarrow> module_translation option" where
  "declare_data_initialization mem base offset data e =
     Some (e\<lparr>data_initializers := data_initializers e @
        [\<lparr>di_location = \<lparr>dl_memory_index = mem, dl_base = base, dl_offset = offset\<rparr>,
          di_data = data\<rparr>]\<rparr>)"

text \<open>
  \<^verbatim>\<open>translate\<close> hands the environment to the decoder, which calls one operation per declaration of
  the module. The decoder is a library's; the calls it makes are an argument.
\<close>

datatype decl =
    DSignature ir_signature
  | DFuncImport nat string string
  | DTableImport table_desc string string
  | DMemoryImport memory_desc string string
  | DGlobalImport global_desc string string
  | DFuncType nat
  | DTable table_desc
  | DMemory memory_desc
  | DGlobal global_desc
  | DFuncExport nat string
  | DTableExport nat string
  | DMemoryExport nat string
  | DGlobalExport nat string
  | DStartFunc nat
  | DTableElements nat "nat option" usize "nat list"
  | DFunctionBody "u8 list" usize
  | DDataInit nat "nat option" usize "u8 list"

fun run_decl :: "decl \<Rightarrow> module_translation \<Rightarrow> module_translation option" where
  "run_decl (DSignature s) = declare_signature s"
| "run_decl (DFuncImport i m f) = declare_func_import i m f"
| "run_decl (DTableImport t m f) = declare_table_import t m f"
| "run_decl (DMemoryImport t m f) = declare_memory_import t m f"
| "run_decl (DGlobalImport g m f) = declare_global_import g m f"
| "run_decl (DFuncType i) = declare_func_type i"
| "run_decl (DTable t) = declare_table t"
| "run_decl (DMemory t) = declare_memory t"
| "run_decl (DGlobal g) = declare_global g"
| "run_decl (DFuncExport i n) = declare_func_export i n"
| "run_decl (DTableExport i n) = declare_table_export i n"
| "run_decl (DMemoryExport i n) = declare_memory_export i n"
| "run_decl (DGlobalExport i n) = declare_global_export i n"
| "run_decl (DStartFunc i) = declare_start_func i"
| "run_decl (DTableElements t b off els) = declare_table_elements t b off els"
| "run_decl (DFunctionBody b off) = define_function_body b off"
| "run_decl (DDataInit mem b off d) = declare_data_initialization mem b off d"

fun run_decls :: "decl list \<Rightarrow> module_translation \<Rightarrow> module_translation option" where
  "run_decls [] e = Some e"
| "run_decls (d # ds) e = (case run_decl d e of None \<Rightarrow> None | Some e' \<Rightarrow> run_decls ds e')"

definition translate_module :: "ir_type \<Rightarrow> tunables \<Rightarrow> decl list \<Rightarrow> module_translation option" where
  "translate_module ptr_ty t ds = run_decls ds (module_environment_new ptr_ty t)"

section \<open>Index spaces as an interface\<close>

text \<open>
  Clients move between the index space of all entities of a kind and the space of the locally
  defined ones. The interface: \<open>count\<close> imported entities come first.
\<close>

locale index_space =
  fixes count :: "'m \<Rightarrow> nat"
    and to_full :: "'m \<Rightarrow> nat \<Rightarrow> nat"
    and to_defined :: "'m \<Rightarrow> nat \<Rightarrow> nat option"
    and is_imported :: "'m \<Rightarrow> nat \<Rightarrow> bool"
  assumes full: "to_full m d = count m + d"
    and defined: "to_defined m i = (if is_imported m i then None else Some (i - count m))"
    and imported: "is_imported m i \<longleftrightarrow> i < count m"
begin

lemma defined_of_full [simp]: "to_defined m (to_full m d) = Some d"
  by (simp add: full defined imported)

lemma defined_Some_iff: "to_defined m i = Some d \<longleftrightarrow> i = to_full m d"
  by (auto simp: full defined imported)

lemma defined_None_iff: "to_defined m i = None \<longleftrightarrow> is_imported m i"
  by (simp add: defined)

lemma full_not_imported [simp]: "\<not> is_imported m (to_full m d)"
  by (simp add: full imported)

lemma full_lt_iff: "count m \<le> n \<Longrightarrow> to_full m d < n \<longleftrightarrow> d < n - count m"
  by (auto simp: full)

lemma defined_lt: "to_defined m i = Some d \<Longrightarrow> i < n \<Longrightarrow> d < n - count m"
  by (auto simp: defined_Some_iff full)

lemma round_trip:
  "to_defined m (to_full m d) = Some d"
  "(to_defined m i = Some d) = (i = to_full m d)"
  "(to_defined m i = None) = is_imported m i"
  by (simp_all add: defined_Some_iff defined_None_iff)

end

interpretation func_space: index_space "\<lambda>m. length (imported_funcs m)"
  func_index defined_func_index is_imported_function
  by unfold_locales (auto simp: func_index_def defined_func_index_def is_imported_function_def)

interpretation table_space: index_space "\<lambda>m. length (imported_tables m)"
  table_index defined_table_index is_imported_table
  by unfold_locales (auto simp: table_index_def defined_table_index_def is_imported_table_def)

interpretation memory_space: index_space "\<lambda>m. length (imported_memories m)"
  memory_index defined_memory_index is_imported_memory
  by unfold_locales (auto simp: memory_index_def defined_memory_index_def is_imported_memory_def)

interpretation global_space: index_space "\<lambda>m. length (imported_globals m)"
  global_index defined_global_index is_imported_global
  by unfold_locales (auto simp: global_index_def defined_global_index_def is_imported_global_def)

section \<open>Memory plans\<close>

lemma memory_plan_cases:
  assumes "memory_plan_for_memory memory t = Some plan"
  shows "mp_memory plan = memory"
    and "mp_style plan = Static b \<Longrightarrow>
      b = static_memory_bound t \<and> mp_offset_guard_size plan = static_memory_offset_guard_size t \<and>
      mem_minimum memory \<le> b \<and> (\<exists>mx. mem_maximum memory = Some mx \<and> mx \<le> b)"
    and "mp_style plan = Dynamic \<Longrightarrow>
      mp_offset_guard_size plan = dynamic_memory_offset_guard_size t \<and>
      (\<forall>mx. mem_maximum memory = Some mx \<longrightarrow> static_memory_bound t < mx)"
  using assms
  by (auto simp: memory_plan_for_memory_def memory_style_for_memory_def bind_eq_Some_conv
      split: option.splits if_splits)

lemma memory_plan_static_iff:
  assumes "memory_plan_for_memory memory t = Some plan"
  shows "(\<exists>b. mp_style plan = Static b) \<longleftrightarrow>
    (\<exists>mx. mem_maximum memory = Some mx \<and> mx \<le> static_memory_bound t)"
  using assms
  by (auto simp: memory_plan_for_memory_def memory_style_for_memory_def bind_eq_Some_conv
      split: option.splits if_splits)

lemma memory_plan_exists:
  assumes "\<And>mx. mem_maximum memory = Some mx \<Longrightarrow> mem_minimum memory \<le> mx"
  shows "\<exists>plan. memory_plan_for_memory memory t = Some plan"
proof -
  have "mx \<le> static_memory_bound t \<Longrightarrow> mem_minimum memory \<le> static_memory_bound t"
    if "mem_maximum memory = Some mx" for mx
    using assms [OF that] by (rule order_trans)
  then show ?thesis
    by (auto simp: memory_plan_for_memory_def memory_style_for_memory_def split: option.splits)
qed

section \<open>Declarations and index spaces\<close>

text \<open>
  Each index space is built by the declarations of one kind. \<open>entry d\<close> is \<open>None\<close> when the
  declaration does not belong to the space, \<open>Some (Some name)\<close> for an import and \<open>Some None\<close>
  for a definition.
\<close>

type_synonym entry = "import_name option option"

definition entries :: "(decl \<Rightarrow> entry) \<Rightarrow> decl list \<Rightarrow> import_name option list" where
  "entries entry ds = List.map_filter entry ds"

definition imports_first :: "import_name option list \<Rightarrow> bool" where
  "imports_first xs \<longleftrightarrow> sorted_wrt (\<lambda>a b. b \<noteq> None \<longrightarrow> a \<noteq> None) xs"

definition import_names :: "import_name option list \<Rightarrow> import_name list" where
  "import_names xs = List.map_filter (\<lambda>x. x) xs"

lemma entries_append: "entries f (xs @ ys) = entries f xs @ entries f ys"
  by (simp add: entries_def map_filter_def)

lemma entries_simps [simp]:
  "entries f [] = []"
  "entries f (d # ds) = (case f d of None \<Rightarrow> [] | Some x \<Rightarrow> [x]) @ entries f ds"
  by (auto simp: entries_def map_filter_def split: option.splits)

lemma import_names_simps [simp]:
  "import_names [] = []"
  "import_names (x # xs) = (case x of None \<Rightarrow> [] | Some n \<Rightarrow> [n]) @ import_names xs"
  by (auto simp: import_names_def map_filter_def split: option.splits)

lemma import_names_append: "import_names (xs @ ys) = import_names xs @ import_names ys"
  by (simp add: import_names_def map_filter_def)

lemma import_names_no_import: "\<forall>x \<in> set xs. x = None \<Longrightarrow> import_names xs = []"
  by (induction xs) auto

lemma import_names_all: "import_names (map Some ns) = ns"
  by (induction ns) auto

lemma imports_first_split:
  assumes "imports_first xs"
  shows "\<exists>k. xs = map Some (import_names xs) @ replicate k None"
  using assms
proof (induction xs)
  case Nil
  then show ?case by simp
next
  case (Cons x xs)
  from Cons.prems have tail: "imports_first xs" by (simp add: imports_first_def)
  show ?case
  proof (cases x)
    case (Some n)
    with Cons.IH [OF tail] show ?thesis by auto
  next
    case None
    with Cons.prems have all: "\<forall>y \<in> set xs. y = None"
      unfolding imports_first_def sorted_wrt.simps by blast
    then have "xs = replicate (length xs) None"
      using replicate_eqI by metis
    then have "x # xs = map Some [] @ replicate (Suc (length xs)) None"
      using None by simp
    moreover have "import_names (x # xs) = []"
      using None all by (simp add: import_names_no_import)
    ultimately show ?thesis by metis
  qed
qed

lemma imports_first_nth:
  assumes "imports_first xs" and "i < length xs"
  shows "(i < length (import_names xs)) = (xs ! i \<noteq> None)"
    and "i < length (import_names xs) \<Longrightarrow> xs ! i = Some (import_names xs ! i)"
proof -
  let ?ns = "import_names xs"
  obtain k where xs: "xs = map Some ?ns @ replicate k None"
    using imports_first_split [OF assms(1)] by blast
  then have len: "length xs = length ?ns + k" by (metis length_append length_map length_replicate)
  have "xs ! i = (map Some ?ns @ replicate k None) ! i" using xs by simp
  then have at: "xs ! i = (if i < length ?ns then Some (?ns ! i) else None)"
    using assms(2) len by (auto simp: nth_append)
  then show "(i < length ?ns) = (xs ! i \<noteq> None)"
    and "i < length ?ns \<Longrightarrow> xs ! i = Some (?ns ! i)"
    by auto
qed

lemma imports_first_snoc_import:
  assumes "imports_first (xs @ [Some n])"
  shows "length (import_names xs) = length xs"
proof -
  have "\<forall>x \<in> set xs. x \<noteq> None"
    using assms by (auto simp: imports_first_def sorted_wrt_append)
  then show ?thesis by (induction xs) auto
qed

locale declared_space =
  fixes entry :: "decl \<Rightarrow> entry"
    and names :: "wasm_module \<Rightarrow> import_name list"
    and items :: "wasm_module \<Rightarrow> nat"
  assumes names_new: "names module_new = []"
    and items_new: "items module_new = 0"
    and names_step: "run_decl d e = Some e' \<Longrightarrow>
      names (mt_module e') = names (mt_module e) @ import_names (entries entry [d])"
    and items_step: "run_decl d e = Some e' \<Longrightarrow>
      items (mt_module e') = items (mt_module e) + length (entries entry [d])"
begin

lemma run_names:
  "run_decls ds e = Some e' \<Longrightarrow>
   names (mt_module e') = names (mt_module e) @ import_names (entries entry ds)"
proof (induction ds arbitrary: e)
  case Nil
  then show ?case by simp
next
  case (Cons d ds)
  then obtain e1 where step: "run_decl d e = Some e1" and rest: "run_decls ds e1 = Some e'"
    by (auto split: option.splits)
  show ?case
    using Cons.IH [OF rest] names_step [OF step] by (simp add: import_names_append)
qed

lemma run_items:
  "run_decls ds e = Some e' \<Longrightarrow>
   items (mt_module e') = items (mt_module e) + length (entries entry ds)"
proof (induction ds arbitrary: e)
  case Nil
  then show ?case by simp
next
  case (Cons d ds)
  then obtain e1 where step: "run_decl d e = Some e1" and rest: "run_decls ds e1 = Some e'"
    by (auto split: option.splits)
  show ?case
    using Cons.IH [OF rest] items_step [OF step] by simp
qed

lemma translate_names:
  "translate_module p t ds = Some e \<Longrightarrow> names (mt_module e) = import_names (entries entry ds)"
  unfolding translate_module_def
  by (drule run_names) (simp add: module_environment_new_def names_new)

lemma translate_items:
  "translate_module p t ds = Some e \<Longrightarrow> items (mt_module e) = length (entries entry ds)"
  unfolding translate_module_def
  by (drule run_items) (simp add: module_environment_new_def items_new)

text \<open>An index is below the number of imports exactly when an import declared it.\<close>

lemma classification:
  assumes "translate_module p t ds = Some e" and "imports_first (entries entry ds)"
    and "i < items (mt_module e)"
  shows "(i < length (names (mt_module e))) = (entries entry ds ! i \<noteq> None)"
    and "i < length (names (mt_module e)) \<Longrightarrow>
      entries entry ds ! i = Some (names (mt_module e) ! i)"
  using imports_first_nth [of "entries entry ds" i] assms
  by (simp_all add: translate_names translate_items)

text \<open>The debug assertion at an import: only imports have been declared so far.\<close>

lemma import_assertion:
  assumes "translate_module p t ds = Some e"
    and "entry d = Some (Some n)" and "imports_first (entries entry (ds @ [d]))"
  shows "items (mt_module e) = length (names (mt_module e))"
  using assms imports_first_snoc_import [of "entries entry ds" n]
  by (simp add: translate_names translate_items entries_append)

end

fun func_entry :: "decl \<Rightarrow> entry" where
  "func_entry (DFuncImport _ m f) = Some (Some (m, f))"
| "func_entry (DFuncType _) = Some None"
| "func_entry _ = None"

fun table_entry :: "decl \<Rightarrow> entry" where
  "table_entry (DTableImport _ m f) = Some (Some (m, f))"
| "table_entry (DTable _) = Some None"
| "table_entry _ = None"

fun memory_entry :: "decl \<Rightarrow> entry" where
  "memory_entry (DMemoryImport _ m f) = Some (Some (m, f))"
| "memory_entry (DMemory _) = Some None"
| "memory_entry _ = None"

fun global_entry :: "decl \<Rightarrow> entry" where
  "global_entry (DGlobalImport _ m f) = Some (Some (m, f))"
| "global_entry (DGlobal _) = Some None"
| "global_entry _ = None"

lemmas declare_defs =
  declare_signature_def declare_func_import_def declare_table_import_def declare_memory_import_def
  declare_global_import_def declare_func_type_def declare_table_def declare_memory_def
  declare_global_def declare_export_def declare_func_export_def declare_table_export_def
  declare_memory_export_def declare_global_export_def declare_start_func_def
  declare_table_elements_def define_function_body_def declare_data_initialization_def Let_def
  bind_eq_Some_conv

interpretation func_decls: declared_space func_entry imported_funcs "\<lambda>m. length (func_sigs m)"
proof
  fix d e e' assume "run_decl d e = Some e'"
  then show "imported_funcs (mt_module e') =
      imported_funcs (mt_module e) @ import_names (entries func_entry [d])"
    and "length (func_sigs (mt_module e')) =
      length (func_sigs (mt_module e)) + length (entries func_entry [d])"
    by (cases d; auto simp: declare_defs)+
qed (simp_all add: module_new_def)

interpretation table_decls: declared_space table_entry imported_tables "\<lambda>m. length (table_plans m)"
proof
  fix d e e' assume "run_decl d e = Some e'"
  then show "imported_tables (mt_module e') =
      imported_tables (mt_module e) @ import_names (entries table_entry [d])"
    and "length (table_plans (mt_module e')) =
      length (table_plans (mt_module e)) + length (entries table_entry [d])"
    by (cases d; auto simp: declare_defs)+
qed (simp_all add: module_new_def)

interpretation memory_decls: declared_space memory_entry imported_memories "\<lambda>m. length (memory_plans m)"
proof
  fix d e e' assume "run_decl d e = Some e'"
  then show "imported_memories (mt_module e') =
      imported_memories (mt_module e) @ import_names (entries memory_entry [d])"
    and "length (memory_plans (mt_module e')) =
      length (memory_plans (mt_module e)) + length (entries memory_entry [d])"
    by (cases d; auto simp: declare_defs)+
qed (simp_all add: module_new_def)

interpretation global_decls: declared_space global_entry imported_globals "\<lambda>m. length (globals m)"
proof
  fix d e e' assume "run_decl d e = Some e'"
  then show "imported_globals (mt_module e') =
      imported_globals (mt_module e) @ import_names (entries global_entry [d])"
    and "length (globals (mt_module e')) =
      length (globals (mt_module e)) + length (entries global_entry [d])"
    by (cases d; auto simp: declare_defs)+
qed (simp_all add: module_new_def)

section \<open>Properties\<close>

text \<open>The declarations of each index space, as lists of import names.\<close>

definition imports_first_decls :: "decl list \<Rightarrow> bool" where
  "imports_first_decls ds \<longleftrightarrow>
     imports_first (entries func_entry ds) \<and> imports_first (entries table_entry ds) \<and>
     imports_first (entries memory_entry ds) \<and> imports_first (entries global_entry ds)"

text \<open>\<open>classified n named imp defd full es\<close>: of the \<open>n\<close> indices of a space, those declared by an
  import have its name and no defined index, and the others are the defined indices in order.\<close>

definition classified ::
  "nat \<Rightarrow> import_name list \<Rightarrow> (nat \<Rightarrow> bool) \<Rightarrow> (nat \<Rightarrow> nat option) \<Rightarrow> (nat \<Rightarrow> nat) \<Rightarrow>
   import_name option list \<Rightarrow> bool" where
  "classified n names imp defd full es \<longleftrightarrow>
     n = length es \<and>
     (\<forall>i < n. case es ! i of
        Some name \<Rightarrow> imp i \<and> defd i = None \<and> i < length names \<and> names ! i = name
      | None \<Rightarrow> \<not> imp i \<and> (\<exists>d. defd i = Some d \<and> full d = i \<and> d < n - length names))"

context declared_space
begin

lemma space_classified:
  assumes "translate_module p t ds = Some e" and "imports_first (entries entry ds)"
    and "index_space (\<lambda>m. length (names m)) full defd imp"
  shows "classified (items (mt_module e)) (names (mt_module e)) (imp (mt_module e))
    (defd (mt_module e)) (full (mt_module e)) (entries entry ds)"
proof -
  have law: "defd m i = (if imp m i then None else Some (i - length (names m)))"
    "imp m i = (i < length (names m))" "full m d = length (names m) + d" for m i d
    using assms(3) by (simp_all add: index_space_def)
  have "case entries entry ds ! i of
      Some name \<Rightarrow> imp (mt_module e) i \<and> defd (mt_module e) i = None \<and>
        i < length (names (mt_module e)) \<and> names (mt_module e) ! i = name
    | None \<Rightarrow> \<not> imp (mt_module e) i \<and> (\<exists>d. defd (mt_module e) i = Some d \<and>
        full (mt_module e) d = i \<and> d < items (mt_module e) - length (names (mt_module e)))"
    if i: "i < items (mt_module e)" for i
  proof (cases "entries entry ds ! i")
    case None
    then have "\<not> i < length (names (mt_module e))" using classification(1) [OF assms(1,2) i] by simp
    then show ?thesis using None i by (simp add: law)
  next
    case (Some name)
    then have "i < length (names (mt_module e))" using classification(1) [OF assms(1,2) i] by simp
    then show ?thesis using Some classification(2) [OF assms(1,2) i] by (simp add: law)
  qed
  then show ?thesis unfolding classified_def using translate_items [OF assms(1)] by blast
qed

end

text \<open>C15. Translating a module whose declarations put imports before definitions builds four
  consistent index spaces: in each, an index is imported exactly when an import declared it, then
  with the declared names, and otherwise its defined index leads back to it and is in range.\<close>

theorem declared_indices_classified:
  assumes "translate_module p t ds = Some e" and "imports_first_decls ds"
  shows "let m = mt_module e in
    classified (length (func_sigs m)) (imported_funcs m) (is_imported_function m)
      (defined_func_index m) (func_index m) (entries func_entry ds) \<and>
    classified (length (table_plans m)) (imported_tables m) (is_imported_table m)
      (defined_table_index m) (table_index m) (entries table_entry ds) \<and>
    classified (length (memory_plans m)) (imported_memories m) (is_imported_memory m)
      (defined_memory_index m) (memory_index m) (entries memory_entry ds) \<and>
    classified (length (globals m)) (imported_globals m) (is_imported_global m)
      (defined_global_index m) (global_index m) (entries global_entry ds)"
proof -
  have "imports_first (entries func_entry ds)" "imports_first (entries table_entry ds)"
    "imports_first (entries memory_entry ds)" "imports_first (entries global_entry ds)"
    using assms(2) by (simp_all add: imports_first_decls_def)
  then show ?thesis
    using func_decls.space_classified [OF assms(1) _ func_space.index_space_axioms]
      table_decls.space_classified [OF assms(1) _ table_space.index_space_axioms]
      memory_decls.space_classified [OF assms(1) _ memory_space.index_space_axioms]
      global_decls.space_classified [OF assms(1) _ global_space.index_space_axioms]
    by (simp add: Let_def)
qed

definition example_decls :: "decl list" where
  "example_decls =
     [DSignature \<lparr>sig_params = [], sig_returns = [], call_conv = 0\<rparr>,
      DFuncImport 0 ''env'' ''log'',
      DMemoryImport \<lparr>mem_minimum = 1, mem_maximum = None, mem_shared = False\<rparr> ''env'' ''memory'',
      DFuncType 0, DFuncType 0,
      DTable \<lparr>tbl_ty = Func, tbl_minimum = 2, tbl_maximum = Some 2\<rparr>,
      DFuncExport 1 ''main'']"

lemma example_translates:
  "\<exists>e. translate_module 0 default_tunables example_decls = Some e" "imports_first_decls example_decls"
  by (simp_all add: translate_module_def example_decls_def declare_defs memory_plan_for_memory_def
      memory_style_for_memory_def imports_first_decls_def imports_first_def)

theorem declared_indices_classified_witness:
  "\<exists>e. translate_module 0 default_tunables example_decls = Some e \<and>
     classified (length (func_sigs (mt_module e))) (imported_funcs (mt_module e))
       (is_imported_function (mt_module e)) (defined_func_index (mt_module e))
       (func_index (mt_module e)) [Some (''env'', ''log''), None, None]"
proof -
  obtain e where e: "translate_module 0 default_tunables example_decls = Some e"
    using example_translates(1) by blast
  moreover have "entries func_entry example_decls = [Some (''env'', ''log''), None, None]"
    by (simp add: example_decls_def)
  ultimately show ?thesis
    using declared_indices_classified [OF e example_translates(2)] by (auto simp: Let_def)
qed

text \<open>The cache key does not depend on the names or on the order of the exports and imports, on
  the start function or on the element segments: two modules that agree on the rest and export the
  same entities the same number of times feed the same input to the hasher.\<close>

theorem cache_key_ignores_names_and_order:
  assumes "signatures m = signatures m'" and "func_sigs m = func_sigs m'"
    and "table_plans m = table_plans m'" and "memory_plans m = memory_plans m'"
    and "globals m = globals m'"
    and "mset (map snd (exports m)) = mset (map snd (exports m'))"
  shows "hash_for_cache m bodies = hash_for_cache m' bodies"
proof -
  have "sort (map snd (exports m)) = sort (map snd (exports m'))"
    using assms(6) by (intro properties_for_sort) simp_all
  then show ?thesis using assms(1-5) by (simp add: hash_for_cache_def)
qed

theorem cache_key_ignores_names_and_order_witness:
  "hash_for_cache (module_new\<lparr>exports := [(''a'', ExportFunction 0), (''b'', ExportMemory 0)]\<rparr>) [] =
   hash_for_cache (module_new\<lparr>exports := [(''y'', ExportMemory 0), (''x'', ExportFunction 0)],
                              start_func := Some 0\<rparr>) []"
  by (rule cache_key_ignores_names_and_order) simp_all

lemma run_decls_same_key:
  assumes "run_decls ds a = Some a'" and "b = a\<lparr>mt_module := (mt_module a)\<lparr>imported_memories := ms\<rparr>\<rparr>"
  shows "\<exists>ms'. run_decls ds b = Some (a'\<lparr>mt_module := (mt_module a')\<lparr>imported_memories := ms'\<rparr>\<rparr>)"
  using assms
proof (induction ds arbitrary: a b ms)
  case Nil
  then show ?case by auto
next
  case (Cons d ds)
  then obtain a1 where a1: "run_decl d a = Some a1" and rest: "run_decls ds a1 = Some a'"
    by (auto split: option.splits)
  let ?ms = "case d of DMemoryImport _ m f \<Rightarrow> ms @ [(m, f)] | _ \<Rightarrow> ms"
  have "run_decl d b = Some (a1\<lparr>mt_module := (mt_module a1)\<lparr>imported_memories := ?ms\<rparr>\<rparr>)"
    using a1 Cons.prems(2) by (cases "mt_module a"; cases d) (auto simp: declare_defs)
  then show ?case using Cons.IH [OF rest refl] by simp
qed

text \<open>C17. The cache key also ignores whether a memory is imported, which the generated code depends
  on: for every memory type and every further declarations, the module that imports the memory and
  the module that defines it feed the same input to the hasher, although in one the memory is
  imported and in the other it is not.\<close>

theorem cache_key_ignores_memory_import:
  assumes "translate_module p t (DMemoryImport memory mname field # ds) = Some e"
    and "\<forall>d \<in> set ds. memory_entry d = None"
  shows "\<exists>e'. translate_module p t (DMemory memory # ds) = Some e' \<and>
    hash_for_cache (mt_module e') (function_body_inputs e') =
    hash_for_cache (mt_module e) (function_body_inputs e) \<and>
    is_imported_memory (mt_module e) 0 \<and> \<not> is_imported_memory (mt_module e') 0"
proof -
  let ?env = "module_environment_new p t"
  obtain plan where plan: "memory_plan_for_memory memory t = Some plan"
    and run: "run_decls ds (upd_module (\<lambda>m. m\<lparr>memory_plans := [plan],
        imported_memories := [(mname, field)]\<rparr>) ?env) = Some e"
    using assms(1)
    by (auto simp: translate_module_def declare_memory_import_def module_environment_new_def
        module_new_def split: option.splits bind_splits)
  define e1 where "e1 = upd_module (\<lambda>m. m\<lparr>memory_plans := [plan]\<rparr>) ?env"
  have "e1 = (upd_module (\<lambda>m. m\<lparr>memory_plans := [plan], imported_memories := [(mname, field)]\<rparr>) ?env)
      \<lparr>mt_module := (mt_module (upd_module (\<lambda>m. m\<lparr>memory_plans := [plan],
        imported_memories := [(mname, field)]\<rparr>) ?env))\<lparr>imported_memories := []\<rparr>\<rparr>"
    by (simp add: e1_def module_environment_new_def module_new_def)
  then obtain ms where run': "run_decls ds e1 = Some (e\<lparr>mt_module := (mt_module e)\<lparr>imported_memories := ms\<rparr>\<rparr>)"
    using run_decls_same_key [OF run] by blast
  let ?e' = "e\<lparr>mt_module := (mt_module e)\<lparr>imported_memories := ms\<rparr>\<rparr>"
  have tr': "translate_module p t (DMemory memory # ds) = Some ?e'"
    using run' plan by (simp add: translate_module_def declare_memory_def e1_def
        module_environment_new_def module_new_def)
  have none: "import_names (entries memory_entry ds) = []"
    using assms(2) by (induction ds) auto
  have "imported_memories (mt_module e) = [(mname, field)]" and "ms = []"
    using memory_decls.translate_names [OF assms(1)] memory_decls.translate_names [OF tr'] none
    by simp_all
  then show ?thesis using tr' by (auto simp: hash_for_cache_def is_imported_memory_def)
qed

theorem cache_key_ignores_memory_import_witness:
  "\<exists>e e'. translate_module 0 default_tunables
       [DMemoryImport \<lparr>mem_minimum = 1, mem_maximum = None, mem_shared = False\<rparr> ''env'' ''m'',
        DMemoryExport 0 ''memory''] = Some e \<and>
     translate_module 0 default_tunables
       [DMemory \<lparr>mem_minimum = 1, mem_maximum = None, mem_shared = False\<rparr>,
        DMemoryExport 0 ''memory''] = Some e' \<and>
     hash_for_cache (mt_module e') (function_body_inputs e') =
     hash_for_cache (mt_module e) (function_body_inputs e)"
proof -
  let ?mem = "\<lparr>mem_minimum = 1, mem_maximum = None, mem_shared = False\<rparr>"
  obtain e where "translate_module 0 default_tunables
      [DMemoryImport ?mem ''env'' ''m'', DMemoryExport 0 ''memory''] = Some e"
    by (auto simp: translate_module_def declare_defs memory_plan_for_memory_def
        memory_style_for_memory_def)
  then show ?thesis using cache_key_ignores_memory_import by fastforce
qed

end
