(* ===== verification/VMOffsets.thy ===== *)
theory VMOffsets
  imports Module_Env
begin

text \<open>
  The layout of the \<^verbatim>\<open>VMContext\<close> region that compiled code reads and writes directly
  (\<^verbatim>\<open>wasmtime-environ/src/vmoffsets.rs\<close>). Every offset is computed in \<^verbatim>\<open>u32\<close> with checked
  arithmetic, so a computation that does not fit panics (\<open>None\<close>); the size and offset getters of
  the small structs are \<^verbatim>\<open>u8\<close> products that wrap, and \<^verbatim>\<open>align\<close> is unchecked.
\<close>

section \<open>Definitions\<close>

text \<open>\<^verbatim>\<open>cast_to_u32\<close> of a length; a length of \<open>2^32\<close> or more panics.\<close>

definition cast_to_u32 :: "nat \<Rightarrow> u32 option" where
  "cast_to_u32 sz = (if sz < 2 ^ 32 then Some (of_nat sz) else None)"

definition align :: "u32 \<Rightarrow> u32 \<Rightarrow> u32" where
  "align offset width = (offset + (width - 1)) div width * width"

record vmoffsets =
  pointer_size :: u8
  num_signature_ids :: u32
  num_imported_functions :: u32
  num_imported_tables :: u32
  num_imported_memories :: u32
  num_imported_globals :: u32
  num_defined_tables :: u32
  num_defined_memories :: u32
  num_defined_globals :: u32

definition vmoffsets_new :: "u8 \<Rightarrow> wasm_module \<Rightarrow> vmoffsets option" where
  "vmoffsets_new ptr_size m =
     do { sigs \<leftarrow> cast_to_u32 (length (signatures m));
          ifuncs \<leftarrow> cast_to_u32 (length (imported_funcs m));
          itables \<leftarrow> cast_to_u32 (length (imported_tables m));
          imems \<leftarrow> cast_to_u32 (length (imported_memories m));
          iglobs \<leftarrow> cast_to_u32 (length (imported_globals m));
          dtables \<leftarrow> cast_to_u32 (length (table_plans m));
          dmems \<leftarrow> cast_to_u32 (length (memory_plans m));
          dglobs \<leftarrow> cast_to_u32 (length (globals m));
          Some \<lparr>pointer_size = ptr_size, num_signature_ids = sigs,
                num_imported_functions = ifuncs, num_imported_tables = itables,
                num_imported_memories = imems, num_imported_globals = iglobs,
                num_defined_tables = dtables, num_defined_memories = dmems,
                num_defined_globals = dglobs\<rparr> }"

subsection \<open>Struct fields\<close>

definition vmfunction_import_body :: "vmoffsets \<Rightarrow> u8" where
  "vmfunction_import_body offs = 0 * pointer_size offs"

definition vmfunction_import_vmctx :: "vmoffsets \<Rightarrow> u8" where
  "vmfunction_import_vmctx offs = 1 * pointer_size offs"

definition size_of_vmfunction_import :: "vmoffsets \<Rightarrow> u8" where
  "size_of_vmfunction_import offs = 2 * pointer_size offs"

definition size_of_vmfunction_body_ptr :: "vmoffsets \<Rightarrow> u8" where
  "size_of_vmfunction_body_ptr offs = 1 * pointer_size offs"

definition vmtable_import_from :: "vmoffsets \<Rightarrow> u8" where
  "vmtable_import_from offs = 0 * pointer_size offs"

definition vmtable_import_vmctx :: "vmoffsets \<Rightarrow> u8" where
  "vmtable_import_vmctx offs = 1 * pointer_size offs"

definition size_of_vmtable_import :: "vmoffsets \<Rightarrow> u8" where
  "size_of_vmtable_import offs = 2 * pointer_size offs"

definition vmtable_definition_base :: "vmoffsets \<Rightarrow> u8" where
  "vmtable_definition_base offs = 0 * pointer_size offs"

definition vmtable_definition_current_elements :: "vmoffsets \<Rightarrow> u8" where
  "vmtable_definition_current_elements offs = 1 * pointer_size offs"

definition size_of_vmtable_definition_current_elements :: "vmoffsets \<Rightarrow> u8" where
  "size_of_vmtable_definition_current_elements _ = 4"

definition size_of_vmtable_definition :: "vmoffsets \<Rightarrow> u8" where
  "size_of_vmtable_definition offs = 2 * pointer_size offs"

definition vmmemory_import_from :: "vmoffsets \<Rightarrow> u8" where
  "vmmemory_import_from offs = 0 * pointer_size offs"

definition vmmemory_import_vmctx :: "vmoffsets \<Rightarrow> u8" where
  "vmmemory_import_vmctx offs = 1 * pointer_size offs"

definition size_of_vmmemory_import :: "vmoffsets \<Rightarrow> u8" where
  "size_of_vmmemory_import offs = 2 * pointer_size offs"

definition vmmemory_definition_base :: "vmoffsets \<Rightarrow> u8" where
  "vmmemory_definition_base offs = 0 * pointer_size offs"

definition vmmemory_definition_current_length :: "vmoffsets \<Rightarrow> u8" where
  "vmmemory_definition_current_length offs = 1 * pointer_size offs"

definition size_of_vmmemory_definition_current_length :: "vmoffsets \<Rightarrow> u8" where
  "size_of_vmmemory_definition_current_length _ = 4"

definition size_of_vmmemory_definition :: "vmoffsets \<Rightarrow> u8" where
  "size_of_vmmemory_definition offs = 2 * pointer_size offs"

definition vmglobal_import_from :: "vmoffsets \<Rightarrow> u8" where
  "vmglobal_import_from offs = 0 * pointer_size offs"

definition size_of_vmglobal_import :: "vmoffsets \<Rightarrow> u8" where
  "size_of_vmglobal_import offs = 1 * pointer_size offs"

definition size_of_vmglobal_definition :: "vmoffsets \<Rightarrow> u8" where
  "size_of_vmglobal_definition _ = 16"

definition size_of_vmshared_signature_index :: "vmoffsets \<Rightarrow> u8" where
  "size_of_vmshared_signature_index _ = 4"

definition vmcaller_checked_anyfunc_func_ptr :: "vmoffsets \<Rightarrow> u8" where
  "vmcaller_checked_anyfunc_func_ptr offs = 0 * pointer_size offs"

definition vmcaller_checked_anyfunc_type_index :: "vmoffsets \<Rightarrow> u8" where
  "vmcaller_checked_anyfunc_type_index offs = 1 * pointer_size offs"

definition vmcaller_checked_anyfunc_vmctx :: "vmoffsets \<Rightarrow> u8" where
  "vmcaller_checked_anyfunc_vmctx offs = 2 * pointer_size offs"

definition size_of_vmcaller_checked_anyfunc :: "vmoffsets \<Rightarrow> u8" where
  "size_of_vmcaller_checked_anyfunc offs = 3 * pointer_size offs"

lemmas struct_field_defs =
  vmfunction_import_body_def
  vmfunction_import_vmctx_def
  size_of_vmfunction_import_def
  size_of_vmfunction_body_ptr_def
  vmtable_import_from_def
  vmtable_import_vmctx_def
  size_of_vmtable_import_def
  vmtable_definition_base_def
  vmtable_definition_current_elements_def
  size_of_vmtable_definition_current_elements_def
  size_of_vmtable_definition_def
  vmmemory_import_from_def
  vmmemory_import_vmctx_def
  size_of_vmmemory_import_def
  vmmemory_definition_base_def
  vmmemory_definition_current_length_def
  size_of_vmmemory_definition_current_length_def
  size_of_vmmemory_definition_def
  vmglobal_import_from_def
  size_of_vmglobal_import_def
  size_of_vmglobal_definition_def
  size_of_vmshared_signature_index_def
  vmcaller_checked_anyfunc_func_ptr_def
  vmcaller_checked_anyfunc_type_index_def
  vmcaller_checked_anyfunc_vmctx_def
  size_of_vmcaller_checked_anyfunc_def

subsection \<open>Arrays of the context\<close>

definition builtin_functions_total_number :: u32 where
  "builtin_functions_total_number = 4"

definition vmctx_signature_ids_begin :: "vmoffsets \<Rightarrow> u32" where
  "vmctx_signature_ids_begin _ = 0"

definition vmctx_imported_functions_begin :: "vmoffsets \<Rightarrow> u32 option" where
  "vmctx_imported_functions_begin offs =
     checked_mul (num_signature_ids offs) (ucast (size_of_vmshared_signature_index offs)) \<bind> checked_add (vmctx_signature_ids_begin offs)"

definition vmctx_imported_tables_begin :: "vmoffsets \<Rightarrow> u32 option" where
  "vmctx_imported_tables_begin offs =
     do { base \<leftarrow> vmctx_imported_functions_begin offs;
          checked_mul (num_imported_functions offs) (ucast (size_of_vmfunction_import offs)) \<bind> checked_add base }"

definition vmctx_imported_memories_begin :: "vmoffsets \<Rightarrow> u32 option" where
  "vmctx_imported_memories_begin offs =
     do { base \<leftarrow> vmctx_imported_tables_begin offs;
          checked_mul (num_imported_tables offs) (ucast (size_of_vmtable_import offs)) \<bind> checked_add base }"

definition vmctx_imported_globals_begin :: "vmoffsets \<Rightarrow> u32 option" where
  "vmctx_imported_globals_begin offs =
     do { base \<leftarrow> vmctx_imported_memories_begin offs;
          checked_mul (num_imported_memories offs) (ucast (size_of_vmmemory_import offs)) \<bind> checked_add base }"

definition vmctx_tables_begin :: "vmoffsets \<Rightarrow> u32 option" where
  "vmctx_tables_begin offs =
     do { base \<leftarrow> vmctx_imported_globals_begin offs;
          checked_mul (num_imported_globals offs) (ucast (size_of_vmglobal_import offs)) \<bind> checked_add base }"

definition vmctx_memories_begin :: "vmoffsets \<Rightarrow> u32 option" where
  "vmctx_memories_begin offs =
     do { base \<leftarrow> vmctx_tables_begin offs;
          checked_mul (num_defined_tables offs) (ucast (size_of_vmtable_definition offs)) \<bind> checked_add base }"

definition vmctx_globals_begin :: "vmoffsets \<Rightarrow> u32 option" where
  "vmctx_globals_begin offs =
     do { base \<leftarrow> vmctx_memories_begin offs;
          offset \<leftarrow> checked_mul (num_defined_memories offs) (ucast (size_of_vmmemory_definition offs))
            \<bind> checked_add base;
          Some (align offset 16) }"

definition vmctx_builtin_functions_begin :: "vmoffsets \<Rightarrow> u32 option" where
  "vmctx_builtin_functions_begin offs =
     do { base \<leftarrow> vmctx_globals_begin offs;
          checked_mul (num_defined_globals offs) (ucast (size_of_vmglobal_definition offs)) \<bind> checked_add base }"

definition size_of_vmctx :: "vmoffsets \<Rightarrow> u32 option" where
  "size_of_vmctx offs =
     do { base \<leftarrow> vmctx_builtin_functions_begin offs;
          checked_mul builtin_functions_total_number (ucast (pointer_size offs)) \<bind> checked_add base }"

subsection \<open>Entries of the arrays\<close>

definition vmctx_vmshared_signature_id :: "vmoffsets \<Rightarrow> u32 \<Rightarrow> u32 option" where
  "vmctx_vmshared_signature_id offs index =
     (if index < num_signature_ids offs
      then checked_mul index (ucast (size_of_vmshared_signature_index offs)) \<bind> checked_add (vmctx_signature_ids_begin offs)
      else None)"

definition vmctx_vmfunction_import :: "vmoffsets \<Rightarrow> u32 \<Rightarrow> u32 option" where
  "vmctx_vmfunction_import offs index =
     (if index < num_imported_functions offs
      then do { base \<leftarrow> vmctx_imported_functions_begin offs;
                checked_mul index (ucast (size_of_vmfunction_import offs)) \<bind> checked_add base }
      else None)"

definition vmctx_vmtable_import :: "vmoffsets \<Rightarrow> u32 \<Rightarrow> u32 option" where
  "vmctx_vmtable_import offs index =
     (if index < num_imported_tables offs
      then do { base \<leftarrow> vmctx_imported_tables_begin offs;
                checked_mul index (ucast (size_of_vmtable_import offs)) \<bind> checked_add base }
      else None)"

definition vmctx_vmmemory_import :: "vmoffsets \<Rightarrow> u32 \<Rightarrow> u32 option" where
  "vmctx_vmmemory_import offs index =
     (if index < num_imported_memories offs
      then do { base \<leftarrow> vmctx_imported_memories_begin offs;
                checked_mul index (ucast (size_of_vmmemory_import offs)) \<bind> checked_add base }
      else None)"

definition vmctx_vmglobal_import :: "vmoffsets \<Rightarrow> u32 \<Rightarrow> u32 option" where
  "vmctx_vmglobal_import offs index =
     (if index < num_imported_globals offs
      then do { base \<leftarrow> vmctx_imported_globals_begin offs;
                checked_mul index (ucast (size_of_vmglobal_import offs)) \<bind> checked_add base }
      else None)"

definition vmctx_vmtable_definition :: "vmoffsets \<Rightarrow> u32 \<Rightarrow> u32 option" where
  "vmctx_vmtable_definition offs index =
     (if index < num_defined_tables offs
      then do { base \<leftarrow> vmctx_tables_begin offs;
                checked_mul index (ucast (size_of_vmtable_definition offs)) \<bind> checked_add base }
      else None)"

definition vmctx_vmmemory_definition :: "vmoffsets \<Rightarrow> u32 \<Rightarrow> u32 option" where
  "vmctx_vmmemory_definition offs index =
     (if index < num_defined_memories offs
      then do { base \<leftarrow> vmctx_memories_begin offs;
                checked_mul index (ucast (size_of_vmmemory_definition offs)) \<bind> checked_add base }
      else None)"

definition vmctx_vmglobal_definition :: "vmoffsets \<Rightarrow> u32 \<Rightarrow> u32 option" where
  "vmctx_vmglobal_definition offs index =
     (if index < num_defined_globals offs
      then do { base \<leftarrow> vmctx_globals_begin offs;
                checked_mul index (ucast (size_of_vmglobal_definition offs)) \<bind> checked_add base }
      else None)"

definition vmctx_vmfunction_import_body :: "vmoffsets \<Rightarrow> u32 \<Rightarrow> u32 option" where
  "vmctx_vmfunction_import_body offs index =
     vmctx_vmfunction_import offs index \<bind> (\<lambda>base. checked_add base (ucast (vmfunction_import_body offs)))"

definition vmctx_vmfunction_import_vmctx :: "vmoffsets \<Rightarrow> u32 \<Rightarrow> u32 option" where
  "vmctx_vmfunction_import_vmctx offs index =
     vmctx_vmfunction_import offs index \<bind> (\<lambda>base. checked_add base (ucast (vmfunction_import_vmctx offs)))"

definition vmctx_vmtable_import_from :: "vmoffsets \<Rightarrow> u32 \<Rightarrow> u32 option" where
  "vmctx_vmtable_import_from offs index =
     vmctx_vmtable_import offs index \<bind> (\<lambda>base. checked_add base (ucast (vmtable_import_from offs)))"

definition vmctx_vmtable_definition_base :: "vmoffsets \<Rightarrow> u32 \<Rightarrow> u32 option" where
  "vmctx_vmtable_definition_base offs index =
     vmctx_vmtable_definition offs index \<bind> (\<lambda>base. checked_add base (ucast (vmtable_definition_base offs)))"

definition vmctx_vmtable_definition_current_elements :: "vmoffsets \<Rightarrow> u32 \<Rightarrow> u32 option" where
  "vmctx_vmtable_definition_current_elements offs index =
     vmctx_vmtable_definition offs index \<bind> (\<lambda>base. checked_add base (ucast (vmtable_definition_current_elements offs)))"

definition vmctx_vmmemory_import_from :: "vmoffsets \<Rightarrow> u32 \<Rightarrow> u32 option" where
  "vmctx_vmmemory_import_from offs index =
     vmctx_vmmemory_import offs index \<bind> (\<lambda>base. checked_add base (ucast (vmmemory_import_from offs)))"

definition vmctx_vmmemory_import_vmctx :: "vmoffsets \<Rightarrow> u32 \<Rightarrow> u32 option" where
  "vmctx_vmmemory_import_vmctx offs index =
     vmctx_vmmemory_import offs index \<bind> (\<lambda>base. checked_add base (ucast (vmmemory_import_vmctx offs)))"

definition vmctx_vmmemory_definition_base :: "vmoffsets \<Rightarrow> u32 \<Rightarrow> u32 option" where
  "vmctx_vmmemory_definition_base offs index =
     vmctx_vmmemory_definition offs index \<bind> (\<lambda>base. checked_add base (ucast (vmmemory_definition_base offs)))"

definition vmctx_vmmemory_definition_current_length :: "vmoffsets \<Rightarrow> u32 \<Rightarrow> u32 option" where
  "vmctx_vmmemory_definition_current_length offs index =
     vmctx_vmmemory_definition offs index \<bind> (\<lambda>base. checked_add base (ucast (vmmemory_definition_current_length offs)))"

definition vmctx_vmglobal_import_from :: "vmoffsets \<Rightarrow> u32 \<Rightarrow> u32 option" where
  "vmctx_vmglobal_import_from offs index =
     vmctx_vmglobal_import offs index \<bind> (\<lambda>base. checked_add base (ucast (vmglobal_import_from offs)))"

text \<open>
  \<^verbatim>\<open>BuiltinFunctionIndex\<close> has four values and no other constructor; its \<^verbatim>\<open>index()\<close> is the argument.
\<close>

definition vmctx_builtin_function :: "vmoffsets \<Rightarrow> u32 \<Rightarrow> u32 option" where
  "vmctx_builtin_function offs index =
     do { base \<leftarrow> vmctx_builtin_functions_begin offs;
          checked_mul index (ucast (pointer_size offs)) \<bind> checked_add base }"

section \<open>The layout over natural numbers\<close>

text \<open>
  The abstract layout: where each array begins when no computation overflows.
\<close>

abbreviation psize :: "vmoffsets \<Rightarrow> nat" where
  "psize offs \<equiv> unat (pointer_size offs)"

definition lay_ifuncs :: "vmoffsets \<Rightarrow> nat" where
  "lay_ifuncs offs = 4 * unat (num_signature_ids offs)"

definition lay_itables :: "vmoffsets \<Rightarrow> nat" where
  "lay_itables offs = lay_ifuncs offs + unat (num_imported_functions offs) * (2 * psize offs)"

definition lay_imems :: "vmoffsets \<Rightarrow> nat" where
  "lay_imems offs = lay_itables offs + unat (num_imported_tables offs) * (2 * psize offs)"

definition lay_iglobs :: "vmoffsets \<Rightarrow> nat" where
  "lay_iglobs offs = lay_imems offs + unat (num_imported_memories offs) * (2 * psize offs)"

definition lay_tables :: "vmoffsets \<Rightarrow> nat" where
  "lay_tables offs = lay_iglobs offs + unat (num_imported_globals offs) * psize offs"

definition lay_mems :: "vmoffsets \<Rightarrow> nat" where
  "lay_mems offs = lay_tables offs + unat (num_defined_tables offs) * (2 * psize offs)"

definition lay_mems_end :: "vmoffsets \<Rightarrow> nat" where
  "lay_mems_end offs = lay_mems offs + unat (num_defined_memories offs) * (2 * psize offs)"

definition lay_globs :: "vmoffsets \<Rightarrow> nat" where
  "lay_globs offs = (lay_mems_end offs + 15) div 16 * 16"

definition lay_builtins :: "vmoffsets \<Rightarrow> nat" where
  "lay_builtins offs = lay_globs offs + unat (num_defined_globals offs) * 16"

definition lay_size :: "vmoffsets \<Rightarrow> nat" where
  "lay_size offs = lay_builtins offs + 4 * psize offs"

lemmas lay_defs =
  lay_ifuncs_def lay_itables_def lay_imems_def lay_iglobs_def lay_tables_def lay_mems_def
  lay_mems_end_def lay_globs_def lay_builtins_def lay_size_def

definition supported_pointer :: "vmoffsets \<Rightarrow> bool" where
  "supported_pointer offs \<longleftrightarrow> pointer_size offs = 4 \<or> pointer_size offs = 8"

definition layout_fits :: "vmoffsets \<Rightarrow> bool" where
  "layout_fits offs \<longleftrightarrow> supported_pointer offs \<and> lay_size offs < 2 ^ 32"

lemma psize_cases: "supported_pointer offs \<Longrightarrow> psize offs = 4 \<or> psize offs = 8"
  by (auto simp: supported_pointer_def)

lemma unat_struct_sizes:
  assumes "supported_pointer offs"
  shows "unat (ucast (size_of_vmfunction_import offs) :: u32) = 2 * psize offs"
    and "unat (ucast (size_of_vmtable_import offs) :: u32) = 2 * psize offs"
    and "unat (ucast (size_of_vmmemory_import offs) :: u32) = 2 * psize offs"
    and "unat (ucast (size_of_vmglobal_import offs) :: u32) = psize offs"
    and "unat (ucast (size_of_vmtable_definition offs) :: u32) = 2 * psize offs"
    and "unat (ucast (size_of_vmmemory_definition offs) :: u32) = 2 * psize offs"
    and "unat (ucast (size_of_vmglobal_definition offs) :: u32) = 16"
    and "unat (ucast (size_of_vmshared_signature_index offs) :: u32) = 4"
    and "unat (ucast (pointer_size offs) :: u32) = psize offs"
  using assms by (auto simp: supported_pointer_def struct_field_defs)

lemma align_up_bounds:
  fixes n :: nat
  shows "n \<le> (n + 15) div 16 * 16" and "(n + 15) div 16 * 16 \<le> n + 15"
    and "((n + 15) div 16 * 16) mod 16 = 0"
  by arith+

lemma lay_mono:
  "lay_ifuncs offs \<le> lay_itables offs"
  "lay_itables offs \<le> lay_imems offs"
  "lay_imems offs \<le> lay_iglobs offs"
  "lay_iglobs offs \<le> lay_tables offs"
  "lay_tables offs \<le> lay_mems offs"
  "lay_mems offs \<le> lay_mems_end offs"
  "lay_mems_end offs \<le> lay_globs offs"
  "lay_globs offs \<le> lay_builtins offs"
  "lay_builtins offs \<le> lay_size offs"
  by (simp_all add: lay_itables_def lay_imems_def lay_iglobs_def lay_tables_def lay_mems_def
      lay_mems_end_def lay_builtins_def lay_size_def lay_globs_def align_up_bounds)

lemma lay_bounds:
  assumes "layout_fits offs"
  shows "lay_ifuncs offs < 2 ^ 32" "lay_itables offs < 2 ^ 32" "lay_imems offs < 2 ^ 32"
    "lay_iglobs offs < 2 ^ 32" "lay_tables offs < 2 ^ 32" "lay_mems offs < 2 ^ 32"
    "lay_mems_end offs < 2 ^ 32" "lay_globs offs < 2 ^ 32" "lay_builtins offs < 2 ^ 32"
    "lay_size offs < 2 ^ 32"
  using assms lay_mono [of offs] unfolding layout_fits_def by linarith+

lemma unat_align16:
  assumes "unat x + 15 < 2 ^ 32"
  shows "unat (align x 16) = (unat x + 15) div 16 * 16"
proof -
  have add: "unat (x + (16 - 1)) = unat x + 15"
    using assms by (simp add: unat_add_small)
  have le: "(unat x + 15) div 16 * 16 < 2 ^ 32"
    using align_up_bounds(2) [of "unat x"] assms by linarith
  then show ?thesis
    using add by (simp add: align_def unat_word_ariths unat_div)
qed

lemma align_mult_16: "unat x + 15 < 2 ^ 32 \<Longrightarrow> unat (align x 16) mod 16 = 0"
  by (simp add: unat_align16)

text \<open>The arrays before the globals: where they fit, the code computes the abstract layout and nothing panics.\<close>

lemma begins_arrays:
  assumes sup: "supported_pointer offs" and fits: "lay_mems_end offs < 2 ^ 32"
  shows "vmctx_imported_functions_begin offs = Some (of_nat (lay_ifuncs offs))"
    and "vmctx_imported_tables_begin offs = Some (of_nat (lay_itables offs))"
    and "vmctx_imported_memories_begin offs = Some (of_nat (lay_imems offs))"
    and "vmctx_imported_globals_begin offs = Some (of_nat (lay_iglobs offs))"
    and "vmctx_tables_begin offs = Some (of_nat (lay_tables offs))"
    and "vmctx_memories_begin offs = Some (of_nat (lay_mems offs))"
    and "vmctx_globals_begin offs = Some (align (of_nat (lay_mems_end offs)) 16)"
proof -
  note sz = unat_struct_sizes [OF sup]
  have bd: "lay_ifuncs offs < 2 ^ 32" "lay_itables offs < 2 ^ 32" "lay_imems offs < 2 ^ 32"
    "lay_iglobs offs < 2 ^ 32" "lay_tables offs < 2 ^ 32" "lay_mems offs < 2 ^ 32" "lay_mems_end offs < 2 ^ 32"
    using fits lay_mono [of offs] by linarith+
  note un = bd [THEN unat_of_nat_u32]
  show 1: "vmctx_imported_functions_begin offs = Some (of_nat (lay_ifuncs offs))"
    unfolding vmctx_imported_functions_begin_def vmctx_signature_ids_begin_def
    by (simp add: checked_mul_add_iff un sz) (simp add: lay_ifuncs_def)
  show 2: "vmctx_imported_tables_begin offs = Some (of_nat (lay_itables offs))"
    by (simp add: vmctx_imported_tables_begin_def 1 checked_mul_add_iff un sz) (simp add: lay_itables_def)
  show 3: "vmctx_imported_memories_begin offs = Some (of_nat (lay_imems offs))"
    by (simp add: vmctx_imported_memories_begin_def 2 checked_mul_add_iff un sz) (simp add: lay_imems_def)
  show 4: "vmctx_imported_globals_begin offs = Some (of_nat (lay_iglobs offs))"
    by (simp add: vmctx_imported_globals_begin_def 3 checked_mul_add_iff un sz) (simp add: lay_iglobs_def)
  show 5: "vmctx_tables_begin offs = Some (of_nat (lay_tables offs))"
    by (simp add: vmctx_tables_begin_def 4 checked_mul_add_iff un sz) (simp add: lay_tables_def)
  show 6: "vmctx_memories_begin offs = Some (of_nat (lay_mems offs))"
    by (simp add: vmctx_memories_begin_def 5 checked_mul_add_iff un sz) (simp add: lay_mems_def)
  have "(checked_mul (num_defined_memories offs) (ucast (size_of_vmmemory_definition offs))
      \<bind> checked_add (of_nat (lay_mems offs))) = Some (of_nat (lay_mems_end offs) :: u32)"
    by (simp add: checked_mul_add_iff un sz) (simp add: lay_mems_end_def)
  then show "vmctx_globals_begin offs = Some (align (of_nat (lay_mems_end offs)) 16)"
    by (simp add: vmctx_globals_begin_def 6 del: bind_assoc)
qed

text \<open>Where everything fits, this is so of the whole context.\<close>

lemma begins_fit:
  assumes fits: "layout_fits offs"
  shows "vmctx_imported_functions_begin offs = Some (of_nat (lay_ifuncs offs))"
    and "vmctx_imported_tables_begin offs = Some (of_nat (lay_itables offs))"
    and "vmctx_imported_memories_begin offs = Some (of_nat (lay_imems offs))"
    and "vmctx_imported_globals_begin offs = Some (of_nat (lay_iglobs offs))"
    and "vmctx_tables_begin offs = Some (of_nat (lay_tables offs))"
    and "vmctx_memories_begin offs = Some (of_nat (lay_mems offs))"
    and "vmctx_globals_begin offs = Some (of_nat (lay_globs offs))"
    and "vmctx_builtin_functions_begin offs = Some (of_nat (lay_builtins offs))"
    and "size_of_vmctx offs = Some (of_nat (lay_size offs))"
proof -
  from fits have sup: "supported_pointer offs" by (simp add: layout_fits_def)
  note sz = unat_struct_sizes [OF sup]
  note bd = lay_bounds [OF fits]
  note un = bd [THEN unat_of_nat_u32]
  note arrays = begins_arrays [OF sup bd(7)]
  show "vmctx_imported_functions_begin offs = Some (of_nat (lay_ifuncs offs))"
    "vmctx_imported_tables_begin offs = Some (of_nat (lay_itables offs))"
    "vmctx_imported_memories_begin offs = Some (of_nat (lay_imems offs))"
    "vmctx_imported_globals_begin offs = Some (of_nat (lay_iglobs offs))"
    "vmctx_tables_begin offs = Some (of_nat (lay_tables offs))"
    "vmctx_memories_begin offs = Some (of_nat (lay_mems offs))"
    by (fact arrays)+
  have "lay_mems_end offs + 15 < 2 ^ 32"
    using bd(10) psize_cases [OF sup] lay_mono(7-9) [of offs] by (auto simp: lay_size_def lay_builtins_def lay_globs_def)
  then show 7: "vmctx_globals_begin offs = Some (of_nat (lay_globs offs))"
    unfolding arrays(7) by (simp add: word_eq_iff_unat unat_align16 un lay_globs_def [symmetric])
  show 8: "vmctx_builtin_functions_begin offs = Some (of_nat (lay_builtins offs))"
    by (simp add: vmctx_builtin_functions_begin_def 7 checked_mul_add_iff un sz)
      (simp add: lay_builtins_def)
  show "size_of_vmctx offs = Some (of_nat (lay_size offs))"
    by (simp add: size_of_vmctx_def 8 checked_mul_add_iff un sz
        builtin_functions_total_number_def) (simp add: lay_size_def)
qed

section \<open>Arrays as an interface\<close>

text \<open>
  Clients address the \<open>index\<close>-th entry of an array of the context. The contract: a bounds check
  on the index, and entries of \<open>stride\<close> bytes that tile the array from \<open>lo\<close> and end at or before
  \<open>hi\<close>, the beginning of the next array.
\<close>

locale vm_array =
  fixes entry :: "vmoffsets \<Rightarrow> u32 \<Rightarrow> u32 option"
    and stride count lo hi :: "vmoffsets \<Rightarrow> nat"
  assumes entry_fits: "layout_fits offs \<Longrightarrow> unat i < count offs \<Longrightarrow>
      entry offs i = Some (of_nat (lo offs + unat i * stride offs))"
    and entry_oob: "count offs \<le> unat i \<Longrightarrow> entry offs i = None"
    and tiles: "layout_fits offs \<Longrightarrow> lo offs + count offs * stride offs \<le> hi offs"
    and hi_fits: "layout_fits offs \<Longrightarrow> hi offs < 2 ^ 32"
begin

lemma entry_room:
  assumes "layout_fits offs" "unat i < count offs"
  shows "lo offs + unat i * stride offs + stride offs \<le> hi offs"
proof -
  have "unat i * stride offs + stride offs = Suc (unat i) * stride offs" by simp
  also have "\<dots> \<le> count offs * stride offs" using assms(2) by (intro mult_le_mono1) simp
  finally show ?thesis using tiles [OF assms(1)] by linarith
qed

lemma entry_Some_iff:
  assumes "layout_fits offs"
  shows "entry offs i = Some a \<longleftrightarrow>
    unat i < count offs \<and> unat a = lo offs + unat i * stride offs"
proof (cases "unat i < count offs")
  case True
  have "lo offs + unat i * stride offs < 2 ^ 32"
    using entry_room [OF assms True] hi_fits [OF assms] by linarith
  then show ?thesis
    using True entry_fits [OF assms True]
    by (auto simp: word_eq_iff_unat unat_of_nat_u32 simp del: of_nat_add of_nat_mult)
next
  case False
  then show ?thesis by (simp add: entry_oob)
qed

lemma entry_bounds:
  assumes "layout_fits offs" "entry offs i = Some a"
  shows "lo offs \<le> unat a" "unat a + stride offs \<le> hi offs"
  using entry_room [OF assms(1)] assms by (auto simp: entry_Some_iff)

lemma entry_disjoint:
  assumes "layout_fits offs" "entry offs i = Some a" "entry offs j = Some b" "unat i < unat j"
  shows "unat a + stride offs \<le> unat b"
proof -
  have "unat i * stride offs + stride offs = Suc (unat i) * stride offs" by simp
  also have "\<dots> \<le> unat j * stride offs" using assms(4) by (intro mult_le_mono1) simp
  finally show ?thesis using assms(1-3) by (simp add: entry_Some_iff)
qed

end

lemma array_entry:
  fixes base :: u32
  assumes "unat base + unat i * s < 2 ^ 32" and "unat (sz :: u32) = s"
  shows "(checked_mul i sz \<bind> checked_add base) = Some (of_nat (unat base + unat i * s))"
  using assms by (simp only: checked_mul_add_iff unat_of_nat_u32)

lemma index_below:
  fixes s :: nat
  assumes "lo + n * s \<le> hi" "hi < b" "i < n"
  shows "lo + i * s < b"
proof -
  have "i * s \<le> n * s" using assms(3) by (intro mult_le_mono1) simp
  then show ?thesis using assms by linarith
qed

lemmas begin_unat = lay_bounds [THEN unat_of_nat_u32]

interpretation sig_array: vm_array vmctx_vmshared_signature_id
  "\<lambda>_. 4" "\<lambda>offs. unat (num_signature_ids offs)" "\<lambda>_. 0" lay_ifuncs
proof
  fix offs and i :: u32
  assume fits: "layout_fits offs" and i: "unat i < unat (num_signature_ids offs)"
  then have "unat (0 :: u32) + unat i * 4 < 2 ^ 32"
    using lay_bounds(1) [OF fits] by (simp add: lay_ifuncs_def)
  with array_entry [of 0 i 4] i
  show "vmctx_vmshared_signature_id offs i = Some (of_nat (0 + unat i * 4))"
    using unat_struct_sizes(8) fits
    by (simp add: vmctx_vmshared_signature_id_def vmctx_signature_ids_begin_def
        word_less_nat_alt layout_fits_def)
next
  fix offs :: vmoffsets and i :: u32
  assume "unat (num_signature_ids offs) \<le> unat i"
  then show "vmctx_vmshared_signature_id offs i = None"
    by (simp add: vmctx_vmshared_signature_id_def word_less_nat_alt)
qed (simp add: lay_ifuncs_def, erule lay_bounds(1))

text \<open>The remaining arrays share one argument.\<close>

lemma array_fits:
  fixes first :: "vmoffsets \<Rightarrow> u32 option" and width :: "vmoffsets \<Rightarrow> u8"
  assumes entry: "entry = (\<lambda>offs index. if index < cnt offs
      then do { base \<leftarrow> first offs; checked_mul index (ucast (width offs)) \<bind> checked_add base }
      else (None :: u32 option))"
    and first: "\<And>offs. layout_fits offs \<Longrightarrow> first offs = Some (of_nat (lo offs))"
    and width: "\<And>offs. layout_fits offs \<Longrightarrow> unat (ucast (width offs) :: u32) = stride offs"
    and tiles: "\<And>offs. layout_fits offs \<Longrightarrow> lo offs + unat (cnt offs) * stride offs \<le> hi offs"
    and hi: "\<And>offs. layout_fits offs \<Longrightarrow> hi offs < 2 ^ 32"
  shows "vm_array entry stride (\<lambda>offs. unat (cnt offs)) lo hi"
proof
  fix offs and i :: u32
  assume fits: "layout_fits offs" and i: "unat i < unat (cnt offs)"
  have below: "lo offs + unat i * stride offs < 2 ^ 32"
    by (rule index_below [OF tiles [OF fits] hi [OF fits] i])
  then have "unat (of_nat (lo offs) :: u32) = lo offs" by (intro unat_of_nat_u32) simp
  with below have "(checked_mul i (ucast (width offs)) \<bind> checked_add (of_nat (lo offs))) =
      Some (of_nat (lo offs + unat i * stride offs) :: u32)"
    using array_entry [of "of_nat (lo offs)" i "stride offs" "ucast (width offs)"] width [OF fits]
    by metis
  then show "entry offs i = Some (of_nat (lo offs + unat i * stride offs))"
    using i by (simp add: entry first [OF fits] word_less_nat_alt)
next
  fix offs and i :: u32
  assume "unat (cnt offs) \<le> unat i"
  then show "entry offs i = None" by (simp add: entry word_less_nat_alt)
qed (use tiles hi in blast)+

lemmas sizes_fit = unat_struct_sizes [OF layout_fits_def [THEN iffD1, THEN conjunct1]]

interpretation ifunc_array: vm_array vmctx_vmfunction_import
  "\<lambda>offs. 2 * psize offs" "\<lambda>offs. unat (num_imported_functions offs)" lay_ifuncs lay_itables
  by (rule array_fits, intro ext, rule vmctx_vmfunction_import_def, erule begins_fit(1), erule sizes_fit(1),
      simp add: lay_itables_def, erule lay_bounds(2))

interpretation itable_array: vm_array vmctx_vmtable_import
  "\<lambda>offs. 2 * psize offs" "\<lambda>offs. unat (num_imported_tables offs)" lay_itables lay_imems
  by (rule array_fits, intro ext, rule vmctx_vmtable_import_def, erule begins_fit(2), erule sizes_fit(2),
      simp add: lay_imems_def, erule lay_bounds(3))

interpretation imem_array: vm_array vmctx_vmmemory_import
  "\<lambda>offs. 2 * psize offs" "\<lambda>offs. unat (num_imported_memories offs)" lay_imems lay_iglobs
  by (rule array_fits, intro ext, rule vmctx_vmmemory_import_def, erule begins_fit(3), erule sizes_fit(3),
      simp add: lay_iglobs_def, erule lay_bounds(4))

interpretation iglob_array: vm_array vmctx_vmglobal_import
  "\<lambda>offs. psize offs" "\<lambda>offs. unat (num_imported_globals offs)" lay_iglobs lay_tables
  by (rule array_fits, intro ext, rule vmctx_vmglobal_import_def, erule begins_fit(4), erule sizes_fit(4),
      simp add: lay_tables_def, erule lay_bounds(5))

interpretation table_array: vm_array vmctx_vmtable_definition
  "\<lambda>offs. 2 * psize offs" "\<lambda>offs. unat (num_defined_tables offs)" lay_tables lay_mems
  by (rule array_fits, intro ext, rule vmctx_vmtable_definition_def, erule begins_fit(5), erule sizes_fit(5),
      simp add: lay_mems_def, erule lay_bounds(6))

interpretation mem_array: vm_array vmctx_vmmemory_definition
  "\<lambda>offs. 2 * psize offs" "\<lambda>offs. unat (num_defined_memories offs)" lay_mems lay_mems_end
  by (rule array_fits, intro ext, rule vmctx_vmmemory_definition_def, erule begins_fit(6), erule sizes_fit(6),
      simp add: lay_mems_end_def, erule lay_bounds(7))

interpretation glob_array: vm_array vmctx_vmglobal_definition
  "\<lambda>_. 16" "\<lambda>offs. unat (num_defined_globals offs)" lay_globs lay_builtins
  by (rule array_fits, intro ext, rule vmctx_vmglobal_definition_def, erule begins_fit(7), erule sizes_fit(7),
      simp add: lay_builtins_def, erule lay_bounds(9))

section \<open>Slots of the context\<close>

text \<open>A slot is one array entry of the context, located by the code's own offset function.\<close>

datatype slot =
    SigId u32
  | FuncImport u32
  | TableImport u32
  | MemImport u32
  | GlobImport u32
  | TableDef u32
  | MemDef u32
  | GlobDef u32
  | Builtin u32

fun slot_offset :: "vmoffsets \<Rightarrow> slot \<Rightarrow> u32 option" where
  "slot_offset offs (SigId i) = vmctx_vmshared_signature_id offs i"
| "slot_offset offs (FuncImport i) = vmctx_vmfunction_import offs i"
| "slot_offset offs (TableImport i) = vmctx_vmtable_import offs i"
| "slot_offset offs (MemImport i) = vmctx_vmmemory_import offs i"
| "slot_offset offs (GlobImport i) = vmctx_vmglobal_import offs i"
| "slot_offset offs (TableDef i) = vmctx_vmtable_definition offs i"
| "slot_offset offs (MemDef i) = vmctx_vmmemory_definition offs i"
| "slot_offset offs (GlobDef i) = vmctx_vmglobal_definition offs i"
| "slot_offset offs (Builtin i) =
     (if i < builtin_functions_total_number then vmctx_builtin_function offs i else None)"

fun slot_size :: "vmoffsets \<Rightarrow> slot \<Rightarrow> nat" where
  "slot_size offs (SigId _) = unat (size_of_vmshared_signature_index offs)"
| "slot_size offs (FuncImport _) = unat (size_of_vmfunction_import offs)"
| "slot_size offs (TableImport _) = unat (size_of_vmtable_import offs)"
| "slot_size offs (MemImport _) = unat (size_of_vmmemory_import offs)"
| "slot_size offs (GlobImport _) = unat (size_of_vmglobal_import offs)"
| "slot_size offs (TableDef _) = unat (size_of_vmtable_definition offs)"
| "slot_size offs (MemDef _) = unat (size_of_vmmemory_definition offs)"
| "slot_size offs (GlobDef _) = unat (size_of_vmglobal_definition offs)"
| "slot_size offs (Builtin _) = unat (pointer_size offs)"

text \<open>The number of the array a slot belongs to, its index there, and the bounds of the array.\<close>

fun slot_kind :: "slot \<Rightarrow> nat" where
  "slot_kind (SigId _) = 0" | "slot_kind (FuncImport _) = 1" | "slot_kind (TableImport _) = 2"
| "slot_kind (MemImport _) = 3" | "slot_kind (GlobImport _) = 4" | "slot_kind (TableDef _) = 5"
| "slot_kind (MemDef _) = 6" | "slot_kind (GlobDef _) = 7" | "slot_kind (Builtin _) = 8"

fun slot_index :: "slot \<Rightarrow> u32" where
  "slot_index (SigId i) = i" | "slot_index (FuncImport i) = i" | "slot_index (TableImport i) = i"
| "slot_index (MemImport i) = i" | "slot_index (GlobImport i) = i" | "slot_index (TableDef i) = i"
| "slot_index (MemDef i) = i" | "slot_index (GlobDef i) = i" | "slot_index (Builtin i) = i"

definition boundaries :: "vmoffsets \<Rightarrow> nat list" where
  "boundaries offs =
     [0, lay_ifuncs offs, lay_itables offs, lay_imems offs, lay_iglobs offs, lay_tables offs,
      lay_mems offs, lay_globs offs, lay_builtins offs, lay_size offs]"

lemma slot_eq_iff: "s = s' \<longleftrightarrow> slot_kind s = slot_kind s' \<and> slot_index s = slot_index s'"
  by (cases s; cases s') auto

lemma slot_kind_le: "slot_kind s \<le> 8"
  by (cases s) auto

lemma unat_slot_sizes:
  assumes "supported_pointer offs"
  shows "unat (size_of_vmfunction_import offs) = 2 * psize offs"
    and "unat (size_of_vmtable_import offs) = 2 * psize offs"
    and "unat (size_of_vmmemory_import offs) = 2 * psize offs"
    and "unat (size_of_vmglobal_import offs) = psize offs"
    and "unat (size_of_vmtable_definition offs) = 2 * psize offs"
    and "unat (size_of_vmmemory_definition offs) = 2 * psize offs"
    and "unat (size_of_vmglobal_definition offs) = 16"
    and "unat (size_of_vmshared_signature_index offs) = 4"
  using assms by (auto simp: supported_pointer_def struct_field_defs)

lemmas slot_sizes_fit = unat_slot_sizes [OF layout_fits_def [THEN iffD1, THEN conjunct1]]

interpretation builtin_array: vm_array "\<lambda>offs i. slot_offset offs (Builtin i)"
  psize "\<lambda>_. 4" lay_builtins lay_size
proof -
  have four: "(\<lambda>_::vmoffsets. 4) = (\<lambda>offs. unat ((\<lambda>_. builtin_functions_total_number) offs))"
    by (simp add: builtin_functions_total_number_def)
  show "vm_array (\<lambda>offs i. slot_offset offs (Builtin i)) psize (\<lambda>_. 4) lay_builtins lay_size"
    unfolding four
    by (rule array_fits [where first = vmctx_builtin_functions_begin and width = pointer_size])
      (simp add: fun_eq_iff vmctx_builtin_function_def, erule begins_fit, erule sizes_fit,
        simp add: lay_size_def builtin_functions_total_number_def, erule lay_bounds)
qed

lemmas array_bounds =
  sig_array.entry_bounds ifunc_array.entry_bounds itable_array.entry_bounds
  imem_array.entry_bounds iglob_array.entry_bounds table_array.entry_bounds
  mem_array.entry_bounds glob_array.entry_bounds builtin_array.entry_bounds

lemmas array_iffs =
  sig_array.entry_Some_iff ifunc_array.entry_Some_iff itable_array.entry_Some_iff
  imem_array.entry_Some_iff iglob_array.entry_Some_iff table_array.entry_Some_iff
  mem_array.entry_Some_iff glob_array.entry_Some_iff builtin_array.entry_Some_iff

lemmas array_total =
  sig_array.entry_fits ifunc_array.entry_fits itable_array.entry_fits
  imem_array.entry_fits iglob_array.entry_fits table_array.entry_fits
  mem_array.entry_fits glob_array.entry_fits builtin_array.entry_fits

lemmas array_disjoint =
  sig_array.entry_disjoint ifunc_array.entry_disjoint itable_array.entry_disjoint
  imem_array.entry_disjoint iglob_array.entry_disjoint table_array.entry_disjoint
  mem_array.entry_disjoint glob_array.entry_disjoint builtin_array.entry_disjoint

lemma slot_bounds:
  assumes fits: "layout_fits offs" and at: "slot_offset offs s = Some a"
  shows "boundaries offs ! slot_kind s \<le> unat a"
    and "unat a + slot_size offs s \<le> boundaries offs ! Suc (slot_kind s)"
proof -
  note sz = slot_sizes_fit [OF fits]
  have mems: "n \<le> lay_mems_end offs \<Longrightarrow> n \<le> lay_globs offs" for n
    using lay_mono(7) [of offs] by (rule order_trans [rotated])
  show "boundaries offs ! slot_kind s \<le> unat a"
    using at array_bounds(1,3,5,7,9,11,13,15,17) [OF fits]
    by (cases s) (auto simp: boundaries_def)
  show "unat a + slot_size offs s \<le> boundaries offs ! Suc (slot_kind s)"
    using at array_bounds(2,4,6,8,10,12,14,16,18) [OF fits]
    by (cases s) (auto simp: boundaries_def sz intro: mems)
qed

lemma boundaries_mono:
  assumes "i \<le> j" "j \<le> 9"
  shows "boundaries offs ! i \<le> boundaries offs ! j"
proof -
  have "sorted (boundaries offs)"
    using lay_mono [of offs] by (simp add: boundaries_def)
  then show ?thesis using assms by (auto intro!: sorted_nth_mono simp: boundaries_def)
qed

lemma slot_before:
  assumes fits: "layout_fits offs" and a: "slot_offset offs s = Some a"
    and b: "slot_offset offs s' = Some b"
    and lt: "slot_kind s < slot_kind s' \<or>
      (slot_kind s = slot_kind s' \<and> unat (slot_index s) < unat (slot_index s'))"
  shows "unat a + slot_size offs s \<le> unat b"
  using lt
proof
  assume "slot_kind s < slot_kind s'"
  then have "boundaries offs ! Suc (slot_kind s) \<le> boundaries offs ! slot_kind s'"
    using slot_kind_le [of s'] by (intro boundaries_mono) auto
  then show ?thesis using slot_bounds [OF fits a] slot_bounds [OF fits b] by linarith
next
  assume "slot_kind s = slot_kind s' \<and> unat (slot_index s) < unat (slot_index s')"
  then show ?thesis
    using a b array_disjoint [OF fits]
    by (cases s; cases s') (auto simp: slot_sizes_fit [OF fits])
qed

section \<open>Exactness of the checked arithmetic\<close>

lemma begin_Some_unat:
  assumes sup: "supported_pointer offs"
  shows "vmctx_imported_functions_begin offs = Some v \<Longrightarrow> unat v = lay_ifuncs offs"
    and "vmctx_imported_tables_begin offs = Some v \<Longrightarrow> unat v = lay_itables offs"
    and "vmctx_imported_memories_begin offs = Some v \<Longrightarrow> unat v = lay_imems offs"
    and "vmctx_imported_globals_begin offs = Some v \<Longrightarrow> unat v = lay_iglobs offs"
    and "vmctx_tables_begin offs = Some v \<Longrightarrow> unat v = lay_tables offs"
    and "vmctx_memories_begin offs = Some v \<Longrightarrow> unat v = lay_mems offs"
proof -
  note [simp] = unat_struct_sizes [OF sup] checked_mul_add_iff
  show 1: "unat v = lay_ifuncs offs" if "vmctx_imported_functions_begin offs = Some v" for v
    using that
    by (simp add: vmctx_imported_functions_begin_def vmctx_signature_ids_begin_def lay_ifuncs_def)
  show 2: "unat v = lay_itables offs" if "vmctx_imported_tables_begin offs = Some v" for v
    using that 1
    by (auto simp: vmctx_imported_tables_begin_def lay_itables_def bind_eq_Some_conv [of "_ offs"])
  show 3: "unat v = lay_imems offs" if "vmctx_imported_memories_begin offs = Some v" for v
    using that 2
    by (auto simp: vmctx_imported_memories_begin_def lay_imems_def bind_eq_Some_conv [of "_ offs"])
  show 4: "unat v = lay_iglobs offs" if "vmctx_imported_globals_begin offs = Some v" for v
    using that 3
    by (auto simp: vmctx_imported_globals_begin_def lay_iglobs_def bind_eq_Some_conv [of "_ offs"])
  show 5: "unat v = lay_tables offs" if "vmctx_tables_begin offs = Some v" for v
    using that 4
    by (auto simp: vmctx_tables_begin_def lay_tables_def bind_eq_Some_conv [of "_ offs"])
  show "unat v = lay_mems offs" if "vmctx_memories_begin offs = Some v" for v
    using that 5
    by (auto simp: vmctx_memories_begin_def lay_mems_def bind_eq_Some_conv [of "_ offs"])
qed

lemma globals_begin_cases:
  assumes sup: "supported_pointer offs" and "vmctx_globals_begin offs = Some v"
  shows "lay_mems_end offs < 2 ^ 32" and "v = align (of_nat (lay_mems_end offs)) 16"
proof -
  from assms(2) obtain base off where base: "vmctx_memories_begin offs = Some base"
    and off: "(checked_mul (num_defined_memories offs) (ucast (size_of_vmmemory_definition offs))
        \<bind> checked_add base) = Some off"
    and v: "v = align off 16"
    unfolding vmctx_globals_begin_def by (auto simp: bind_eq_Some_conv)
  from off have un: "unat off = lay_mems_end offs"
    by (simp add: checked_mul_add_iff unat_struct_sizes [OF sup] begin_Some_unat(6) [OF sup base]
        lay_mems_end_def)
  then show "lay_mems_end offs < 2 ^ 32" using unat_lt_u32 [of off] by simp
  have "off = of_nat (lay_mems_end offs)" using un by (metis of_nat_unat ucast_id)
  with v show "v = align (of_nat (lay_mems_end offs)) 16" by simp
qed

text \<open>Where the globals begin. The rounding is the one unchecked addition of the layout: in the last fifteen bytes below \<open>2^32\<close>
  it wraps to zero.\<close>

definition globals_start :: "vmoffsets \<Rightarrow> nat" where
  "globals_start offs = (if lay_mems_end offs + 15 < 2 ^ 32 then lay_globs offs else 0)"

lemma unat_globals_start:
  assumes "lay_mems_end offs < 2 ^ 32"
  shows "unat (align (of_nat (lay_mems_end offs)) 16) = globals_start offs"
proof (cases "lay_mems_end offs + 15 < 2 ^ 32")
  case True
  then show ?thesis using assms by (simp add: unat_align16 unat_of_nat_u32 lay_globs_def globals_start_def)
next
  case False
  have "(of_nat (lay_mems_end offs) :: u32) + (16 - 1) = of_nat (lay_mems_end offs + 15)" by simp
  then have "unat ((of_nat (lay_mems_end offs) :: u32) + (16 - 1)) = (lay_mems_end offs + 15) mod 2 ^ 32"
    by (simp add: unat_of_nat take_bit_eq_mod del: of_nat_add)
  then have "unat ((of_nat (lay_mems_end offs) :: u32) + (16 - 1)) < 16" using False assms by (auto simp: mod_if)
  then have "((of_nat (lay_mems_end offs) :: u32) + (16 - 1)) div 16 = 0" by (simp add: word_eq_iff_unat unat_div)
  then show ?thesis using False by (simp add: align_def globals_start_def)
qed

lemma size_Some_iff:
  assumes sup: "supported_pointer offs" and "lay_mems_end offs < 2 ^ 32"
  shows "size_of_vmctx offs = Some sz \<longleftrightarrow> unat sz = globals_start offs + unat (num_defined_globals offs) * 16 + 4 * psize offs"
    (is "_ \<longleftrightarrow> unat sz = ?b + _")
proof
  note [simp] = unat_struct_sizes [OF sup] checked_mul_add_iff
  note g = begins_arrays(7) [OF assms] and ug = unat_globals_start [OF assms(2)]
  {
    assume "size_of_vmctx offs = Some sz"
    then obtain b where "vmctx_builtin_functions_begin offs = Some b" "unat sz = unat b + 4 * psize offs"
      by (auto simp: size_of_vmctx_def builtin_functions_total_number_def bind_eq_Some_conv [of "_ offs"])
    then show "unat sz = ?b + 4 * psize offs" by (simp add: vmctx_builtin_functions_begin_def g ug)
  next
    assume un: "unat sz = ?b + 4 * psize offs"
    then have "?b < 2 ^ 32" using unat_lt_u32 [of sz] by linarith
    then have "vmctx_builtin_functions_begin offs = Some (of_nat ?b)"
      by (simp add: vmctx_builtin_functions_begin_def g ug unat_of_nat_u32 del: of_nat_add of_nat_mult)
    then show "size_of_vmctx offs = Some sz" using un \<open>?b < 2 ^ 32\<close>
      by (simp add: size_of_vmctx_def builtin_functions_total_number_def unat_of_nat_u32 del: of_nat_add of_nat_mult)
  }
qed

lemma size_overflow:
  assumes "supported_pointer offs" and "2 ^ 32 \<le> lay_mems_end offs"
  shows "size_of_vmctx offs = None"
proof -
  have "vmctx_globals_begin offs = None"
    using globals_begin_cases(1) [OF assms(1)] assms(2) by (metis linorder_not_less not_None_eq)
  then show ?thesis by (simp add: size_of_vmctx_def vmctx_builtin_functions_begin_def)
qed

section \<open>Properties\<close>

lemma slot_ranges_disjoint:
  assumes "layout_fits offs" and "s \<noteq> s'"
    and "slot_offset offs s = Some a" and "slot_offset offs s' = Some b"
  shows "unat a + slot_size offs s \<le> unat b \<or> unat b + slot_size offs s' \<le> unat a"
proof -
  have "slot_kind s < slot_kind s' \<or> slot_kind s' < slot_kind s \<or>
    (slot_kind s = slot_kind s' \<and> (unat (slot_index s) < unat (slot_index s') \<or>
      unat (slot_index s') < unat (slot_index s)))"
    using assms(2) by (auto simp: slot_eq_iff word_eq_iff_unat)
  then show ?thesis
    using slot_before [OF assms(1) assms(3,4)] slot_before [OF assms(1) assms(4,3)] by auto
qed

lemma slot_in_context:
  assumes "layout_fits offs" and "slot_offset offs s = Some a"
  shows "unat a + slot_size offs s \<le> lay_size offs"
proof -
  have "unat a + slot_size offs s \<le> boundaries offs ! Suc (slot_kind s)"
    by (rule slot_bounds(2) [OF assms])
  also have "\<dots> \<le> boundaries offs ! 9"
    using slot_kind_le [of s] by (intro boundaries_mono) auto
  also have "\<dots> = lay_size offs" by (simp add: boundaries_def)
  finally show ?thesis .
qed

text \<open>The context of a module with three signatures, an imported function, a table, a memory and
  two globals on a 64-bit target; it serves the witnesses below.\<close>

definition example_offsets :: vmoffsets where
  "example_offsets =
     \<lparr>pointer_size = 8, num_signature_ids = 3, num_imported_functions = 1,
      num_imported_tables = 0, num_imported_memories = 0, num_imported_globals = 0,
      num_defined_tables = 1, num_defined_memories = 1, num_defined_globals = 2\<rparr>"

lemmas context_eval =
  vmctx_signature_ids_begin_def vmctx_imported_functions_begin_def vmctx_imported_tables_begin_def
  vmctx_imported_memories_begin_def vmctx_imported_globals_begin_def vmctx_tables_begin_def
  vmctx_memories_begin_def vmctx_globals_begin_def vmctx_builtin_functions_begin_def
  size_of_vmctx_def vmctx_vmfunction_import_def vmctx_vmglobal_definition_def
  builtin_functions_total_number_def checked_add_def checked_mul_def align_def struct_field_defs

lemma example_layout:
  "layout_fits example_offsets"
  "vmctx_vmfunction_import example_offsets 0 = Some 12"
  "vmctx_vmglobal_definition example_offsets 1 = Some 80"
  "size_of_vmctx example_offsets = Some 128"
  by (simp_all add: example_offsets_def layout_fits_def supported_pointer_def lay_defs context_eval)

text \<open>C2. No two entries of the context overlap: whenever the context fits in 32 bits, the byte
  ranges that the code computes for two different slots are disjoint.\<close>

theorem slots_disjoint:
  assumes "layout_fits offs" and "s \<noteq> s'"
    and "slot_offset offs s = Some a" and "slot_offset offs s' = Some b"
  shows "unat a + slot_size offs s \<le> unat b \<or> unat b + slot_size offs s' \<le> unat a"
  by (rule slot_ranges_disjoint [OF assms])

theorem slots_disjoint_witness:
  "unat (12 :: u32) + slot_size example_offsets (FuncImport 0) \<le> unat (80 :: u32) \<or>
   unat (80 :: u32) + slot_size example_offsets (GlobDef 1) \<le> unat (12 :: u32)"
  by (rule slots_disjoint [OF example_layout(1)]) (simp_all add: example_layout)

text \<open>Every entry lies inside the allocation: when the context fits, \<^verbatim>\<open>size_of_vmctx\<close> does not
  panic, and the byte range of every slot ends at or before the size it returns.\<close>

theorem slots_inside:
  assumes "layout_fits offs" and "slot_offset offs s = Some a"
  shows "\<exists>sz. size_of_vmctx offs = Some sz \<and> unat a + slot_size offs s \<le> unat sz"
  using slot_in_context [OF assms] begins_fit(9) [OF assms(1)] lay_bounds(10) [OF assms(1)]
  by (simp add: unat_of_nat_u32)

theorem slots_inside_witness:
  "\<exists>sz. size_of_vmctx example_offsets = Some sz \<and>
     unat (80 :: u32) + slot_size example_offsets (GlobDef 1) \<le> unat sz"
  by (rule slots_inside [OF example_layout(1)]) (simp add: example_layout)

text \<open>C16. What \<^verbatim>\<open>size_of_vmctx\<close> returns, on a target with 4- or 8-byte pointers. It panics when the arrays before the globals do
  not fit in a \<^verbatim>\<open>u32\<close>. Otherwise it returns the sum of all array sizes, with the beginning of the globals rounded up
  to 16 bytes, or panics when that sum does not fit; except that in the last fifteen bytes below \<open>2^32\<close> the rounding wraps
  around, and the size counts the globals and the builtin functions alone.\<close>

theorem size_of_vmctx_exact:
  assumes "supported_pointer offs"
  shows "size_of_vmctx offs =
    (if 2 ^ 32 \<le> lay_mems_end offs then None
     else if lay_mems_end offs + 15 < 2 ^ 32
     then (if lay_size offs < 2 ^ 32 then Some (of_nat (lay_size offs)) else None)
     else (let n = unat (num_defined_globals offs) * 16 + 4 * psize offs in if n < 2 ^ 32 then Some (of_nat n) else None))"
proof (cases "2 ^ 32 \<le> lay_mems_end offs")
  case False
  let ?n = "globals_start offs + unat (num_defined_globals offs) * 16 + 4 * psize offs"
  have iff: "size_of_vmctx offs = Some sz \<longleftrightarrow> unat sz = ?n" for sz using size_Some_iff [OF assms] False by simp
  have "size_of_vmctx offs = (if ?n < 2 ^ 32 then Some (of_nat ?n) else None)"
  proof (cases "?n < 2 ^ 32")
    case True
    then show ?thesis using iff [of "of_nat ?n"] unat_of_nat_u32 [OF True] by simp
  next
    case False
    then have "size_of_vmctx offs \<noteq> Some sz" for sz using iff [of sz] unat_lt_u32 [of sz] by linarith
    then show ?thesis using False by (cases "size_of_vmctx offs") auto
  qed
  then show ?thesis using False by (simp add: globals_start_def lay_size_def lay_builtins_def Let_def)
qed (simp add: size_overflow [OF assms])

theorem size_of_vmctx_exact_witness:
  "size_of_vmctx example_offsets = Some (of_nat (lay_size example_offsets)) \<and>
   size_of_vmctx (example_offsets\<lparr>num_signature_ids := 0x40000000\<rparr>) = None \<and>
   size_of_vmctx \<lparr>pointer_size = 8, num_signature_ids = 0x3fffffff, num_imported_functions = 0,
      num_imported_tables = 0, num_imported_memories = 0, num_imported_globals = 0,
      num_defined_tables = 0, num_defined_memories = 0, num_defined_globals = 2\<rparr> = Some 64"
  using size_of_vmctx_exact [of example_offsets]
    size_of_vmctx_exact [of "example_offsets\<lparr>num_signature_ids := 0x40000000\<rparr>"]
    size_of_vmctx_exact [of "\<lparr>pointer_size = 8, num_signature_ids = 0x3fffffff, num_imported_functions = 0,
      num_imported_tables = 0, num_imported_memories = 0, num_imported_globals = 0,
      num_defined_tables = 0, num_defined_memories = 0, num_defined_globals = 2\<rparr>"]
  by (simp add: example_offsets_def supported_pointer_def lay_defs)

text \<open>Alignment of the context. Globals are always at multiples of 16. The pointers of the
  imported functions are at multiples of the pointer size on a 64-bit target exactly when the
  module has an even number of signatures, because the 4-byte signature identifiers come first and
  nothing pads them.\<close>

theorem context_alignment:
  assumes "layout_fits offs"
  shows "(vmctx_vmglobal_definition offs i = Some a \<longrightarrow> 16 dvd unat a) \<and>
    (pointer_size offs = 8 \<and> vmctx_vmfunction_import offs j = Some b \<longrightarrow>
      (8 dvd unat b \<longleftrightarrow> even (unat (num_signature_ids offs))))"
proof (intro conjI impI)
  assume "vmctx_vmglobal_definition offs i = Some a"
  then show "16 dvd unat a"
    using glob_array.entry_Some_iff [OF assms] by (auto simp: lay_globs_def)
next
  assume "pointer_size offs = 8 \<and> vmctx_vmfunction_import offs j = Some b"
  then have "unat b = 4 * unat (num_signature_ids offs) + unat j * 16"
    using ifunc_array.entry_Some_iff [OF assms] by (simp add: lay_ifuncs_def)
  then show "8 dvd unat b \<longleftrightarrow> even (unat (num_signature_ids offs))" by presburger
qed

theorem context_alignment_witness:
  "16 dvd unat (80 :: u32) \<and> \<not> 8 dvd unat (12 :: u32)"
  using context_alignment [OF example_layout(1), of 1 80 0 12] example_layout
  by (simp add: example_offsets_def)

text \<open>The rounding of the globals is the one unchecked addition of the layout: a module with
  \<open>2^30 - 1\<close> signatures makes \<^verbatim>\<open>align\<close> wrap, so the globals begin at offset 0, inside the
  signature identifiers, and \<^verbatim>\<open>size_of_vmctx\<close> returns 32 instead of panicking.\<close>

theorem align_wraps_silently:
  "let offs = \<lparr>pointer_size = 8, num_signature_ids = 0x3fffffff, num_imported_functions = 0,
      num_imported_tables = 0, num_imported_memories = 0, num_imported_globals = 0,
      num_defined_tables = 0, num_defined_memories = 0, num_defined_globals = 0\<rparr>
   in vmctx_memories_begin offs = Some 0xfffffffc \<and> vmctx_globals_begin offs = Some 0 \<and>
      size_of_vmctx offs = Some 32"
  by (simp add: context_eval)

end
