(* ===== verification/Growable.thy ===== *)
theory Growable
  imports Prelude
begin

text \<open>
  The contract that linear memories and tables share: an object with a size and an optional limit
  that a \<^verbatim>\<open>grow\<close> operation extends or leaves alone. \<open>'e\<close> is the environment of one call (the
  answers of the operating system), \<open>'s\<close> the object. Its client is a sequence of growths, as a
  WebAssembly program issues them.
\<close>

type_synonym ('e, 's) grow_op = "'e \<Rightarrow> 's \<Rightarrow> u32 \<Rightarrow> (u32 option \<times> 's) res"

fun run_grows :: "('e, 's) grow_op \<Rightarrow> 's \<Rightarrow> ('e \<times> u32) list \<Rightarrow> (u32 option list \<times> 's) res" where
  "run_grows grow s [] = Inr ([], s)"
| "run_grows grow s ((e, delta) # calls) =
     bind_res (grow e s delta) (\<lambda>(r, s1).
     bind_res (run_grows grow s1 calls) (\<lambda>(rs, s2). Inr (r # rs, s2)))"

text \<open>The growth that a list of answers reports.\<close>

fun granted :: "('e \<times> u32) list \<Rightarrow> u32 option list \<Rightarrow> nat" where
  "granted ((_, delta) # calls) (Some _ # rs) = unat delta + granted calls rs"
| "granted (_ # calls) (None # rs) = granted calls rs"
| "granted _ _ = 0"

locale growable =
  fixes inv :: "'s \<Rightarrow> bool"
    and ok :: "'e \<Rightarrow> 's \<Rightarrow> bool"
    and size_of :: "'s \<Rightarrow> nat"
    and limit :: "'s \<Rightarrow> nat option"
    and cap :: nat
    and grow :: "('e, 's) grow_op"
  assumes grow_total: "inv s \<Longrightarrow> ok e s \<Longrightarrow> \<exists>r s'. grow e s d = Inr (r, s')"
    and grow_inv: "inv s \<Longrightarrow> ok e s \<Longrightarrow> grow e s d = Inr (r, s') \<Longrightarrow> inv s'"
    and grow_ok: "inv s \<Longrightarrow> ok e s \<Longrightarrow> ok e' s \<Longrightarrow> grow e s d = Inr (r, s') \<Longrightarrow> ok e' s'"
    and grow_none: "inv s \<Longrightarrow> ok e s \<Longrightarrow> grow e s d = Inr (None, s') \<Longrightarrow> s' = s"
    and grow_some: "inv s \<Longrightarrow> ok e s \<Longrightarrow> grow e s d = Inr (Some k, s') \<Longrightarrow>
      size_of s' = size_of s + unat d \<and> limit s' = limit s"
    and bounded: "inv s \<Longrightarrow> size_of s \<le> cap"
    and limited: "inv s \<Longrightarrow> limit s = Some mx \<Longrightarrow> size_of s \<le> mx"
begin

lemma run_grows_spec:
  assumes "inv s" and "\<forall>(e, d) \<in> set calls. ok e s"
  shows "\<exists>rs s'. run_grows grow s calls = Inr (rs, s') \<and> inv s' \<and> limit s' = limit s \<and>
    length rs = length calls \<and> size_of s' = size_of s + granted calls rs"
  using assms
proof (induction calls arbitrary: s)
  case Nil
  then show ?case by simp
next
  case (Cons call calls)
  obtain e d where call: "call = (e, d)" by (cases call)
  with Cons.prems have inv: "inv s" and ok: "ok e s" by auto
  obtain r s1 where step: "grow e s d = Inr (r, s1)" using grow_total [OF inv ok] by blast
  have inv1: "inv s1" by (rule grow_inv [OF inv ok step])
  have ok1: "\<forall>(e', d') \<in> set calls. ok e' s1"
    using Cons.prems(2) grow_ok [OF inv ok _ step] by auto
  obtain rs s' where rest: "run_grows grow s1 calls = Inr (rs, s')" "inv s'" "limit s' = limit s1"
      "length rs = length calls" "size_of s' = size_of s1 + granted calls rs"
    using Cons.IH [OF inv1 ok1] by blast
  show ?case
  proof (cases r)
    case None
    then have "s1 = s" using grow_none [OF inv ok] step by simp
    with None call step rest show ?thesis by simp
  next
    case (Some k)
    then have "size_of s1 = size_of s + unat d \<and> limit s1 = limit s"
      using grow_some [OF inv ok] step by simp
    with Some call step rest show ?thesis by simp
  qed
qed

lemma run_grows_bounded:
  assumes "inv s" and "\<forall>(e, d) \<in> set calls. ok e s"
  shows "\<exists>rs s'. run_grows grow s calls = Inr (rs, s') \<and>
    size_of s' = size_of s + granted calls rs \<and> size_of s' \<le> cap \<and>
    (\<forall>mx. limit s = Some mx \<longrightarrow> size_of s' \<le> mx)"
  using run_grows_spec [OF assms] bounded limited by metis

end

end
