(* ===== verification/Runtime_Memory.thy ===== *)
theory Runtime_Memory
  imports Module_Env Growable
begin

unbundle bit_operations_syntax

text \<open>
  Page mappings (\<^verbatim>\<open>wasmtime-runtime/src/mmap.rs\<close>) and WebAssembly linear memories
  (\<^verbatim>\<open>wasmtime-runtime/src/memory.rs\<close>).

  A mapping carries, besides its address and length, what the operating system keeps for it: the
  ranges that have been made accessible and the bytes. The answers of the operating system to the
  calls of one operation (\<^verbatim>\<open>mmap\<close>, \<^verbatim>\<open>mprotect\<close>, the page size) are the record \<open>os\<close>. Touching a
  byte that is not accessible is the error \<open>Segfault\<close>. The model is of the non-Windows variants.
\<close>

section \<open>Mappings\<close>

record os =
  os_page_size :: usize
  os_mmap :: "usize option"
  os_protect :: bool

record mmap =
  mm_ptr :: usize
  mm_len :: usize
  mm_accessible :: "(nat \<times> nat) list"
  mm_bytes :: "nat \<Rightarrow> u8"

definition round_up_to_page_size :: "usize \<Rightarrow> usize \<Rightarrow> usize" where
  "round_up_to_page_size sz page_size = (sz + (page_size - 1)) AND NOT (page_size - 1)"

text \<open>An empty \<^verbatim>\<open>Vec<u8>\<close> has the dangling pointer 1.\<close>

definition mmap_new :: mmap where
  "mmap_new = \<lparr>mm_ptr = 1, mm_len = 0, mm_accessible = [], mm_bytes = (\<lambda>_. 0)\<rparr>"

definition accessible :: "mmap \<Rightarrow> nat \<Rightarrow> bool" where
  "accessible m i \<longleftrightarrow> list_ex (\<lambda>(start, len). start \<le> i \<and> i < start + len) (mm_accessible m)"

definition make_accessible :: "os \<Rightarrow> mmap \<Rightarrow> usize \<Rightarrow> usize \<Rightarrow> mmap res" where
  "make_accessible os m start len =
     (let page_size = os_page_size os in
      bind_res (assert_res (start AND (page_size - 1) = 0) ''start is not page-aligned'') (\<lambda>_.
      bind_res (assert_res (len AND (page_size - 1) = 0) ''len is not page-aligned'') (\<lambda>_.
      bind_res (assert_res (len < mm_len m) ''len < self.len'') (\<lambda>_.
      bind_res (assert_res (start < mm_len m - len) ''start < self.len - len'') (\<lambda>_.
        if os_protect os
        then Inr (m\<lparr>mm_accessible := (unat start, unat len) # mm_accessible m\<rparr>)
        else Inl (Err ''protect failed''))))))"

definition accessible_reserved :: "os \<Rightarrow> usize \<Rightarrow> usize \<Rightarrow> mmap res" where
  "accessible_reserved os accessible_size mapping_size =
     (let page_size = os_page_size os in
      bind_res (assert_res (accessible_size \<le> mapping_size) ''accessible_size <= mapping_size'') (\<lambda>_.
      bind_res (assert_res (mapping_size AND (page_size - 1) = 0) ''mapping_size'') (\<lambda>_.
      bind_res (assert_res (accessible_size AND (page_size - 1) = 0) ''accessible_size'') (\<lambda>_.
        if mapping_size = 0 then Inr mmap_new
        else if accessible_size = mapping_size then
          (case os_mmap os of
             None \<Rightarrow> Inl (Err ''mmap failed'')
           | Some ptr \<Rightarrow> Inr \<lparr>mm_ptr = ptr, mm_len = mapping_size,
                             mm_accessible = [(0, unat mapping_size)], mm_bytes = (\<lambda>_. 0)\<rparr>)
        else
          (case os_mmap os of
             None \<Rightarrow> Inl (Err ''mmap failed'')
           | Some ptr \<Rightarrow>
               (let result = \<lparr>mm_ptr = ptr, mm_len = mapping_size, mm_accessible = [],
                              mm_bytes = (\<lambda>_. 0)\<rparr>
                in if accessible_size \<noteq> 0 then make_accessible os result 0 accessible_size
                   else Inr result))))))"

definition with_at_least :: "os \<Rightarrow> usize \<Rightarrow> mmap res" where
  "with_at_least os sz =
     (let rounded_size = round_up_to_page_size sz (os_page_size os)
      in accessible_reserved os rounded_size rounded_size)"

section \<open>Linear memories\<close>

record linear_memory =
  lm_mmap :: mmap
  lm_current :: u32
  lm_maximum :: "u32 option"
  lm_offset_guard_size :: usize
  lm_needs_signal_handlers :: bool

definition linear_memory_new :: "os \<Rightarrow> memory_plan \<Rightarrow> linear_memory res" where
  "linear_memory_new os plan =
     bind_res (assert_res (mem_minimum (mp_memory plan) \<le> WASM_MAX_PAGES) ''minimum'') (\<lambda>_.
     bind_res (assert_res (case mem_maximum (mp_memory plan) of
         None \<Rightarrow> True | Some mx \<Rightarrow> mx \<le> WASM_MAX_PAGES) ''maximum'') (\<lambda>_.
     let offset_guard_bytes = mp_offset_guard_size plan;
         needs_signal_handlers = (offset_guard_bytes > 0 \<or>
           (case mp_style plan of Dynamic \<Rightarrow> False | Static _ \<Rightarrow> True)) in
     bind_res (case mp_style plan of
         Dynamic \<Rightarrow> Inr (mem_minimum (mp_memory plan))
       | Static bound \<Rightarrow>
           bind_res (assert_res (bound \<ge> mem_minimum (mp_memory plan)) ''bound >= minimum'')
             (\<lambda>_. Inr bound)) (\<lambda>pages.
     let minimum_pages = ucast pages in
     bind_res (unwrap_res (checked_mul minimum_pages (ucast WASM_PAGE_SIZE)) ''overflow'') (\<lambda>minimum_bytes.
     bind_res (unwrap_res (checked_add minimum_bytes offset_guard_bytes) ''overflow'') (\<lambda>request_bytes.
     let mapped_pages = ucast (mem_minimum (mp_memory plan));
         mapped_bytes = mapped_pages * ucast WASM_PAGE_SIZE in
     bind_res (accessible_reserved os mapped_bytes request_bytes) (\<lambda>mmap.
       Inr \<lparr>lm_mmap = mmap, lm_current = mem_minimum (mp_memory plan),
            lm_maximum = mem_maximum (mp_memory plan), lm_offset_guard_size = offset_guard_bytes,
            lm_needs_signal_handlers = needs_signal_handlers\<rparr>))))))"

definition linear_memory_size :: "linear_memory \<Rightarrow> u32" where
  "linear_memory_size mem = lm_current mem"

text \<open>
  \<^verbatim>\<open>new.as_mut_slice()[..len].copy_from_slice(&old.as_slice()[..len])\<close>: slicing past the end
  panics, and the copy touches every byte of both slices.
\<close>

definition copy_prefix :: "mmap \<Rightarrow> mmap \<Rightarrow> usize \<Rightarrow> mmap res" where
  "copy_prefix new_mmap old_mmap len =
     bind_res (assert_res (len \<le> mm_len new_mmap) ''slice index'') (\<lambda>_.
     bind_res (assert_res (len \<le> mm_len old_mmap) ''slice index'') (\<lambda>_.
     if \<forall>i < unat len. accessible new_mmap i \<and> accessible old_mmap i
     then Inr (new_mmap\<lparr>mm_bytes := (\<lambda>i. if i < unat len then mm_bytes old_mmap i
                                         else mm_bytes new_mmap i)\<rparr>)
     else Inl Segfault))"

text \<open>\<^verbatim>\<open>.ok()?\<close>: an error value becomes the result \<^verbatim>\<open>None\<close>; a panic or a fault stays one.\<close>

definition ok_or_none :: "'a res \<Rightarrow> 's \<Rightarrow> ('a \<Rightarrow> ('r option \<times> 's) res) \<Rightarrow> ('r option \<times> 's) res" where
  "ok_or_none r s f = (case r of Inl (Err _) \<Rightarrow> Inr (None, s) | Inl e \<Rightarrow> Inl e | Inr x \<Rightarrow> f x)"

definition linear_memory_grow :: "os \<Rightarrow> linear_memory \<Rightarrow> u32 \<Rightarrow> (u32 option \<times> linear_memory) res" where
  "linear_memory_grow os mem delta =
     (if delta = 0 then Inr (Some (lm_current mem), mem)
      else case checked_add (lm_current mem) delta of
        None \<Rightarrow> Inr (None, mem)
      | Some new_pages \<Rightarrow>
        (let prev_pages = lm_current mem in
         if (case lm_maximum mem of Some maximum \<Rightarrow> new_pages > maximum | None \<Rightarrow> False)
         then Inr (None, mem)
         else if new_pages \<ge> WASM_MAX_PAGES then Inr (None, mem)
         else
           (let delta_bytes = ucast delta * ucast WASM_PAGE_SIZE;
                prev_bytes = ucast prev_pages * ucast WASM_PAGE_SIZE;
                new_bytes = ucast new_pages * ucast WASM_PAGE_SIZE;
                done = (\<lambda>mmap. Inr (Some prev_pages, mem\<lparr>lm_mmap := mmap, lm_current := new_pages\<rparr>))
            in if new_bytes > mm_len (lm_mmap mem) - lm_offset_guard_size mem then
                 (let guard_bytes = lm_offset_guard_size mem in
                  case checked_add new_bytes guard_bytes of
                    None \<Rightarrow> Inr (None, mem)
                  | Some request_bytes \<Rightarrow>
                      ok_or_none (accessible_reserved os new_bytes request_bytes) mem (\<lambda>new_mmap.
                        let copy_len = mm_len (lm_mmap mem) - lm_offset_guard_size mem in
                        bind_res (copy_prefix new_mmap (lm_mmap mem) copy_len) done))
               else if delta_bytes > 0 then
                 ok_or_none (make_accessible os (lm_mmap mem) prev_bytes delta_bytes) mem done
               else done (lm_mmap mem))))"

record vm_memory_definition =
  vmm_base :: usize
  vmm_current_length :: usize

definition vmmemory :: "linear_memory \<Rightarrow> vm_memory_definition" where
  "vmmemory mem =
     \<lparr>vmm_base = mm_ptr (lm_mmap mem),
      vmm_current_length = ucast (lm_current mem) * ucast WASM_PAGE_SIZE\<rparr>"

section \<open>Arithmetic of pages\<close>

abbreviation PAGE :: nat where
  "PAGE \<equiv> 65536"

lemma unat_ucast_u32_usize [simp]: "unat (ucast (p :: u32) :: usize) = unat p"
  using unat_lt_u32 [of p] by (intro unat_ucast_le) simp

lemma unat_WASM [simp]:
  "unat WASM_PAGE_SIZE = PAGE" "unat WASM_MAX_PAGES = PAGE"
  by (simp_all add: WASM_PAGE_SIZE_def WASM_MAX_PAGES_def)

lemma unat_pages [simp]:
  "unat (ucast (p :: u32) * ucast WASM_PAGE_SIZE :: usize) = unat p * PAGE"
  using unat_lt_u32 [of p] by (subst unat_mult_small) auto

definition page_ok :: "os \<Rightarrow> bool" where
  "page_ok os \<longleftrightarrow> (\<exists>k \<in> {0..16}. os_page_size os = 2 ^ k)"

definition page_aligned :: "os \<Rightarrow> usize \<Rightarrow> bool" where
  "page_aligned os x \<longleftrightarrow> x AND (os_page_size os - 1) = 0"

lemma and_mask_zero_iff:
  "(x :: usize) AND (2 ^ k - 1) = 0 \<longleftrightarrow> 2 ^ k dvd unat x"
proof -
  have "x AND (2 ^ k - 1) = take_bit k x"
    by (simp add: take_bit_eq_mask mask_eq_exp_minus_1)
  moreover have "take_bit k x = 0 \<longleftrightarrow> take_bit k (unat x) = 0"
    by (metis unat_0_iff unsigned_take_bit_eq)
  ultimately show ?thesis by (simp add: take_bit_eq_mod dvd_eq_mod_eq_0)
qed

lemma page_aligned_dvd:
  assumes "page_ok os"
  obtains k where "k \<le> 16" "os_page_size os = 2 ^ k" "\<And>x. page_aligned os x \<longleftrightarrow> 2 ^ k dvd unat x"
  using assms by (auto simp: page_ok_def page_aligned_def and_mask_zero_iff)

lemma page_aligned_pages:
  assumes "page_ok os" "unat x = n * PAGE"
  shows "page_aligned os x"
proof -
  obtain k where k: "k \<le> 16" and al: "\<And>x. page_aligned os x \<longleftrightarrow> 2 ^ k dvd unat x"
    using page_aligned_dvd [OF assms(1)] by metis
  have "(2 :: nat) ^ k dvd 2 ^ 16" using k by (rule le_imp_power_dvd)
  then show ?thesis by (simp add: al assms(2))
qed

lemma page_aligned_add:
  assumes "page_ok os" "page_aligned os x" "page_aligned os y" "unat z = unat x + unat y"
  shows "page_aligned os z"
proof -
  obtain k where "\<And>x. page_aligned os x \<longleftrightarrow> 2 ^ k dvd unat x"
    using page_aligned_dvd [OF assms(1)] by metis
  then show ?thesis using assms(2-4) by simp
qed

section \<open>What mappings promise\<close>

lemma accessible_Cons:
  "accessible (m\<lparr>mm_accessible := (a, n) # mm_accessible m\<rparr>) i \<longleftrightarrow>
   (a \<le> i \<and> i < a + n) \<or> accessible m i"
  by (simp add: accessible_def)

lemma make_accessible_ok:
  assumes "page_aligned os start" "page_aligned os len" "unat start + unat len < unat (mm_len m)"
  shows "make_accessible os m start len =
    (if os_protect os then Inr (m\<lparr>mm_accessible := (unat start, unat len) # mm_accessible m\<rparr>)
     else Inl (Err ''protect failed''))"
proof -
  have "len < mm_len m" "start < mm_len m - len"
    using assms(3) by (simp_all add: word_less_nat_alt unat_sub_if')
  then show ?thesis
    using assms(1,2) by (simp add: make_accessible_def page_aligned_def)
qed

lemma make_accessible_panics:
  assumes "page_aligned os start" "page_aligned os len" "unat start + unat len = unat (mm_len m)"
    and "0 < unat start"
  shows "make_accessible os m start len = Inl (Panic ''start < self.len - len'')"
proof -
  have "len < mm_len m" "\<not> start < mm_len m - len"
    using assms(3,4) by (simp_all add: word_less_nat_alt unat_sub_if')
  then show ?thesis
    using assms(1,2) by (simp add: make_accessible_def page_aligned_def assert_res_def)
qed

lemma accessible_reserved_ok:
  assumes "page_aligned os acc" "page_aligned os mapping" "unat acc \<le> unat mapping"
  shows "(\<exists>msg. accessible_reserved os acc mapping = Inl (Err msg) \<and>
        (os_mmap os = None \<or> \<not> os_protect os)) \<or>
    (\<exists>m. accessible_reserved os acc mapping = Inr m \<and> mm_len m = mapping \<and>
        (\<forall>i < unat acc. accessible m i) \<and> mm_bytes m = (\<lambda>_. 0))"
proof (cases "acc = mapping \<or> mapping = 0 \<or> acc = 0")
  case True
  then show ?thesis
    using assms
    by (auto simp: accessible_reserved_def page_aligned_def word_le_nat_alt mmap_new_def
        accessible_def Let_def split: option.splits)
next
  case False
  then have lt: "unat (0 :: usize) + unat acc < unat mapping"
    using assms(3) by (metis add_0 le_neq_implies_less unat_0 word_eq_iff_unat)
  let ?m = "\<lambda>ptr. \<lparr>mm_ptr = ptr, mm_len = mapping, mm_accessible = [], mm_bytes = (\<lambda>_. 0)\<rparr>"
  have "make_accessible os (?m ptr) 0 acc =
      (if os_protect os then Inr ((?m ptr)\<lparr>mm_accessible := (0, unat acc) # []\<rparr>)
       else Inl (Err ''protect failed''))" for ptr
    using make_accessible_ok [of os 0 acc "?m ptr"] assms(1) lt by (simp add: page_aligned_def)
  then show ?thesis
    using False assms
    by (auto simp: accessible_reserved_def page_aligned_def word_le_nat_alt Let_def accessible_def
        split: option.splits)
qed

section \<open>The invariant of a linear memory\<close>

text \<open>
  \<open>room\<close> is the number of bytes in front of the guard. Either the mapping is exactly as large as the
  memory (a dynamic memory, which moves whenever it grows), or the declared maximum fits in it (a
  static memory, which never moves). All pages of the memory are accessible and everything behind
  them is zero.
\<close>

definition room :: "linear_memory \<Rightarrow> nat" where
  "room mem = unat (mm_len (lm_mmap mem)) - unat (lm_offset_guard_size mem)"

definition lm_bytes :: "linear_memory \<Rightarrow> nat" where
  "lm_bytes mem = unat (lm_current mem) * PAGE"

definition lm_inv :: "linear_memory \<Rightarrow> bool" where
  "lm_inv mem \<longleftrightarrow>
     lm_offset_guard_size mem \<le> mm_len (lm_mmap mem) \<and>
     unat (lm_current mem) \<le> PAGE \<and>
     (\<forall>mx. lm_maximum mem = Some mx \<longrightarrow> lm_current mem \<le> mx) \<and>
     lm_bytes mem \<le> room mem \<and>
     (\<forall>i < lm_bytes mem. accessible (lm_mmap mem) i) \<and>
     (\<forall>i \<ge> lm_bytes mem. mm_bytes (lm_mmap mem) i = 0) \<and>
     (room mem = lm_bytes mem \<or>
      (\<exists>mx. lm_maximum mem = Some mx \<and> unat mx * PAGE \<le> room mem))"

definition guard_ok :: "os \<Rightarrow> linear_memory \<Rightarrow> bool" where
  "guard_ok os mem \<longleftrightarrow>
     page_ok os \<and> page_aligned os (lm_offset_guard_size mem) \<and> lm_offset_guard_size mem > 0"

lemma unat_room:
  assumes "lm_inv mem"
  shows "unat (mm_len (lm_mmap mem) - lm_offset_guard_size mem) = room mem"
  using assms by (simp add: lm_inv_def room_def word_le_nat_alt unat_sub_if')

text \<open>The limits that a growth has to respect, as the code checks them.\<close>

definition within_limits :: "linear_memory \<Rightarrow> u32 \<Rightarrow> bool" where
  "within_limits mem delta \<longleftrightarrow>
     unat (lm_current mem) + unat delta < PAGE \<and>
     (\<forall>mx. lm_maximum mem = Some mx \<longrightarrow> unat (lm_current mem) + unat delta \<le> unat mx)"

lemma grow_zero [simp]: "linear_memory_grow os mem 0 = Inr (Some (lm_current mem), mem)"
  by (simp add: linear_memory_grow_def)

lemma grow_refused:
  assumes "delta \<noteq> 0" "\<not> within_limits mem delta"
  shows "linear_memory_grow os mem delta = Inr (None, mem)"
proof (cases "checked_add (lm_current mem) delta")
  case None
  then show ?thesis using assms(1) by (simp add: linear_memory_grow_def)
next
  case (Some new_pages)
  then have "unat new_pages = unat (lm_current mem) + unat delta" by (simp add: checked_add_iff)
  with assms(2) have "(case lm_maximum mem of Some mx \<Rightarrow> new_pages > mx | None \<Rightarrow> False) \<or>
      new_pages \<ge> WASM_MAX_PAGES"
    by (auto simp: within_limits_def word_less_nat_alt word_le_nat_alt split: option.splits)
  then show ?thesis using assms(1) Some by (auto simp: linear_memory_grow_def Let_def)
qed

text \<open>A growth within the limits either moves the memory or opens more of its mapping.\<close>

lemma grow_accepted:
  assumes inv: "lm_inv mem" and delta: "delta \<noteq> 0" and lim: "within_limits mem delta"
    and new: "unat new_pages = unat (lm_current mem) + unat delta"
  shows "linear_memory_grow os mem delta =
    (if room mem < unat new_pages * PAGE then
       case checked_add (ucast new_pages * ucast WASM_PAGE_SIZE) (lm_offset_guard_size mem) of
         None \<Rightarrow> Inr (None, mem)
       | Some request_bytes \<Rightarrow>
           ok_or_none (accessible_reserved os (ucast new_pages * ucast WASM_PAGE_SIZE) request_bytes)
             mem (\<lambda>new_mmap. bind_res
               (copy_prefix new_mmap (lm_mmap mem) (mm_len (lm_mmap mem) - lm_offset_guard_size mem))
               (\<lambda>mmap. Inr (Some (lm_current mem),
                             mem\<lparr>lm_mmap := mmap, lm_current := new_pages\<rparr>)))
     else
       ok_or_none (make_accessible os (lm_mmap mem) (ucast (lm_current mem) * ucast WASM_PAGE_SIZE)
           (ucast delta * ucast WASM_PAGE_SIZE)) mem
         (\<lambda>mmap. Inr (Some (lm_current mem), mem\<lparr>lm_mmap := mmap, lm_current := new_pages\<rparr>)))"
proof -
  have "checked_add (lm_current mem) delta = Some new_pages"
    using new by (simp add: checked_add_iff)
  moreover have "\<not> (case lm_maximum mem of Some mx \<Rightarrow> new_pages > mx | None \<Rightarrow> False)"
    and "\<not> new_pages \<ge> WASM_MAX_PAGES"
    using lim new
    by (auto simp: within_limits_def word_less_nat_alt word_le_nat_alt split: option.splits)
  moreover have "(ucast new_pages * ucast WASM_PAGE_SIZE
      > mm_len (lm_mmap mem) - lm_offset_guard_size mem) = (room mem < unat new_pages * PAGE)"
    using unat_room [OF inv] by (simp add: word_less_nat_alt)
  moreover have "ucast delta * ucast WASM_PAGE_SIZE > (0 :: usize)"
    using delta by (simp add: word_less_nat_alt unat_gt_0)
  ultimately show ?thesis
    using delta by (simp add: linear_memory_grow_def Let_def split: option.split)
qed

text \<open>The two ways to grow keep the invariant.\<close>

lemma lm_inv_moved:
  assumes inv: "lm_inv mem" and lim: "within_limits mem delta"
    and new: "unat new_pages = unat (lm_current mem) + unat delta"
    and moved: "room mem = lm_bytes mem"
    and len: "unat (mm_len m) = unat new_pages * PAGE + unat (lm_offset_guard_size mem)"
    and acc: "\<forall>i < unat new_pages * PAGE. accessible m i"
    and bytes: "mm_bytes m = (\<lambda>i. if i < lm_bytes mem then mm_bytes (lm_mmap mem) i else 0)"
  shows "lm_inv (mem\<lparr>lm_mmap := m, lm_current := new_pages\<rparr>)"
  using assms
  by (auto simp: lm_inv_def room_def lm_bytes_def within_limits_def word_le_nat_alt)

lemma lm_inv_opened:
  assumes inv: "lm_inv mem" and lim: "within_limits mem delta"
    and new: "unat new_pages = unat (lm_current mem) + unat delta"
    and fits: "unat new_pages * PAGE \<le> room mem"
    and static: "lm_maximum mem = Some mx" "unat mx * PAGE \<le> room mem"
  shows "lm_inv (mem\<lparr>lm_mmap := (lm_mmap mem)\<lparr>mm_accessible :=
      (unat (lm_current mem) * PAGE, unat delta * PAGE) # mm_accessible (lm_mmap mem)\<rparr>,
      lm_current := new_pages\<rparr>)"
proof -
  have "accessible (lm_mmap mem) i \<or>
      (unat (lm_current mem) * PAGE \<le> i \<and> i < unat (lm_current mem) * PAGE + unat delta * PAGE)"
    if "i < unat new_pages * PAGE" for i
    using inv that new by (auto simp: lm_inv_def lm_bytes_def distrib_right)
  then show ?thesis
    using assms
    by (auto simp: lm_inv_def room_def lm_bytes_def within_limits_def word_le_nat_alt accessible_Cons)
qed

text \<open>What a successful growth by \<open>delta\<close> pages gives.\<close>

definition grown :: "linear_memory \<Rightarrow> u32 \<Rightarrow> linear_memory \<Rightarrow> bool" where
  "grown mem delta mem' \<longleftrightarrow>
     unat (lm_current mem') = unat (lm_current mem) + unat delta \<and>
     lm_maximum mem' = lm_maximum mem \<and>
     lm_offset_guard_size mem' = lm_offset_guard_size mem \<and>
     (\<forall>i < lm_bytes mem. mm_bytes (lm_mmap mem') i = mm_bytes (lm_mmap mem) i) \<and>
     (\<forall>i \<ge> lm_bytes mem. mm_bytes (lm_mmap mem') i = 0)"

text \<open>The reasons outside the code why a growth to \<open>n\<close> pages may fail.\<close>

definition os_refuses :: "os \<Rightarrow> linear_memory \<Rightarrow> nat \<Rightarrow> bool" where
  "os_refuses os mem n \<longleftrightarrow>
     os_mmap os = None \<or> \<not> os_protect os \<or> 2 ^ 64 \<le> n * PAGE + unat (lm_offset_guard_size mem)"

lemma grow_moves:
  fixes new_pages :: u32
  assumes inv: "lm_inv mem" and g: "page_ok os" "page_aligned os (lm_offset_guard_size mem)"
    and delta: "delta \<noteq> 0" and lim: "within_limits mem delta"
    and new: "unat new_pages = unat (lm_current mem) + unat delta"
    and big: "room mem < unat new_pages * PAGE"
  shows "(linear_memory_grow os mem delta = Inr (None, mem) \<and> os_refuses os mem (unat new_pages)) \<or>
    (\<exists>mem'. linear_memory_grow os mem delta = Inr (Some (lm_current mem), mem') \<and>
       lm_inv mem' \<and> grown mem delta mem')"
proof -
  let ?nb = "ucast new_pages * ucast WASM_PAGE_SIZE :: usize"
  let ?copy = "mm_len (lm_mmap mem) - lm_offset_guard_size mem"
  have moved: "room mem = lm_bytes mem"
    using inv big lim new by (fastforce simp: lm_inv_def within_limits_def)
  have copy_len: "unat ?copy = lm_bytes mem" using unat_room [OF inv] moved by simp
  note eq = grow_accepted [OF inv delta lim new, of os, unfolded if_P [OF big]]
  show ?thesis
  proof (cases "checked_add ?nb (lm_offset_guard_size mem)")
    case None
    moreover from None have "os_refuses os mem (unat new_pages)"
      by (simp add: checked_add_None os_refuses_def)
    ultimately show ?thesis by (simp add: eq)
  next
    case (Some request)
    then have req: "unat request = unat new_pages * PAGE + unat (lm_offset_guard_size mem)"
      by (simp add: checked_add_iff)
    have al: "page_aligned os ?nb" by (rule page_aligned_pages [OF g(1) unat_pages])
    moreover have "page_aligned os request"
      by (rule page_aligned_add [OF g(1) al g(2)]) (simp add: req)
    ultimately consider msg where "accessible_reserved os ?nb request = Inl (Err msg)"
        "os_mmap os = None \<or> \<not> os_protect os"
      | m where "accessible_reserved os ?nb request = Inr m" "mm_len m = request"
        "\<forall>i < unat new_pages * PAGE. accessible m i" "mm_bytes m = (\<lambda>_. 0)"
      using accessible_reserved_ok [of os ?nb request] req by auto
    then show ?thesis
    proof cases
      case 1
      then show ?thesis by (auto simp: eq Some ok_or_none_def os_refuses_def)
    next
      case (2 m)
      let ?m = "m\<lparr>mm_bytes := (\<lambda>i. if i < unat ?copy then mm_bytes (lm_mmap mem) i
          else mm_bytes m i)\<rparr>"
      have le: "lm_bytes mem \<le> unat new_pages * PAGE"
        using new by (simp add: lm_bytes_def)
      have "copy_prefix m (lm_mmap mem) ?copy = Inr ?m"
        using inv 2 le copy_len req
        by (auto simp: copy_prefix_def word_le_nat_alt lm_inv_def room_def)
      then have "linear_memory_grow os mem delta =
          Inr (Some (lm_current mem), mem\<lparr>lm_mmap := ?m, lm_current := new_pages\<rparr>)"
        by (simp add: eq Some ok_or_none_def 2(1))
      moreover have "lm_inv (mem\<lparr>lm_mmap := ?m, lm_current := new_pages\<rparr>)"
        using 2 copy_len req
        by (intro lm_inv_moved [OF inv lim new moved]) (auto simp: accessible_def)
      ultimately show ?thesis
        using new copy_len 2(4) by (auto simp: grown_def)
    qed
  qed
qed

lemma grow_opens:
  fixes new_pages :: u32
  assumes inv: "lm_inv mem" and g: "page_ok os"
    and delta: "delta \<noteq> 0" and lim: "within_limits mem delta"
    and new: "unat new_pages = unat (lm_current mem) + unat delta"
    and small: "unat new_pages * PAGE \<le> room mem"
    and guard: "unat new_pages * PAGE < unat (mm_len (lm_mmap mem))"
  shows "(linear_memory_grow os mem delta = Inr (None, mem) \<and> os_refuses os mem (unat new_pages)) \<or>
    (\<exists>mem'. linear_memory_grow os mem delta = Inr (Some (lm_current mem), mem') \<and>
       lm_inv mem' \<and> grown mem delta mem')"
proof -
  let ?prev = "ucast (lm_current mem) * ucast WASM_PAGE_SIZE :: usize"
  let ?delta = "ucast delta * ucast WASM_PAGE_SIZE :: usize"
  let ?m = "(lm_mmap mem)\<lparr>mm_accessible := (unat (lm_current mem) * PAGE, unat delta * PAGE) #
      mm_accessible (lm_mmap mem)\<rparr>"
  have "make_accessible os (lm_mmap mem) ?prev ?delta =
      (if os_protect os then Inr ?m else Inl (Err ''protect failed''))"
    using make_accessible_ok [OF page_aligned_pages [OF g unat_pages]
        page_aligned_pages [OF g unat_pages], of "lm_current mem" delta "lm_mmap mem"] guard new
    by (simp add: distrib_right)
  then have eq: "linear_memory_grow os mem delta =
      (if os_protect os
       then Inr (Some (lm_current mem), mem\<lparr>lm_mmap := ?m, lm_current := new_pages\<rparr>)
       else Inr (None, mem))"
    using small by (simp add: grow_accepted [OF inv delta lim new] ok_or_none_def)
  have "0 < unat delta" using delta by (simp add: unat_gt_0)
  then have "room mem \<noteq> lm_bytes mem" using small new by (simp add: lm_bytes_def)
  then obtain mx where "lm_maximum mem = Some mx" "unat mx * PAGE \<le> room mem"
    using inv by (auto simp: lm_inv_def)
  then have "lm_inv (mem\<lparr>lm_mmap := ?m, lm_current := new_pages\<rparr>)"
    by (rule lm_inv_opened [OF inv lim new small])
  then show ?thesis
    using inv new by (auto simp: eq grown_def lm_inv_def os_refuses_def)
qed

lemma grow_cases:
  assumes inv: "lm_inv mem" and g: "guard_ok os mem"
  shows "(linear_memory_grow os mem delta = Inr (None, mem) \<and>
      (\<not> within_limits mem delta \<or> os_refuses os mem (unat (lm_current mem) + unat delta))) \<or>
    (\<exists>mem'. linear_memory_grow os mem delta = Inr (Some (lm_current mem), mem') \<and>
       lm_inv mem' \<and> grown mem delta mem')"
proof (cases "delta = 0 \<or> \<not> within_limits mem delta")
  case True
  then show ?thesis
    using inv grow_refused [of delta mem os] by (cases "delta = 0") (auto simp: grown_def lm_inv_def)
next
  case False
  then have delta: "delta \<noteq> 0" and lim: "within_limits mem delta" by auto
  have new: "unat (lm_current mem + delta) = unat (lm_current mem) + unat delta"
    using lim by (intro unat_add_small) (simp add: within_limits_def)
  show ?thesis
  proof (cases "room mem < unat (lm_current mem + delta) * PAGE")
    case True
    then show ?thesis
      using g grow_moves [OF inv _ _ delta lim new, of os] new by (auto simp: guard_ok_def)
  next
    case False
    moreover have "room mem < unat (mm_len (lm_mmap mem))"
      using inv g by (auto simp: room_def guard_ok_def lm_inv_def word_le_nat_alt word_less_nat_alt)
    ultimately show ?thesis
      using g grow_opens [OF inv _ delta lim new, of os] new by (auto simp: guard_ok_def)
  qed
qed

section \<open>A new memory\<close>

text \<open>A memory drawn up by \<^verbatim>\<open>MemoryPlan::for_memory\<close> starts in the invariant.\<close>

lemma unat_ucast_bound [simp]: "unat (ucast (b :: u32) :: usize) * PAGE < 2 ^ 64"
  using unat_lt_u32 [of b] by simp

lemma linear_memory_new_inv:
  assumes plan: "memory_plan_for_memory memory t = Some plan"
    and new: "linear_memory_new os plan = Inr mem"
    and pg: "page_ok os" "page_aligned os (mp_offset_guard_size plan)"
    and valid: "\<And>mx. mem_maximum memory = Some mx \<Longrightarrow> mem_minimum memory \<le> mx"
  shows "lm_inv mem" and "lm_offset_guard_size mem = mp_offset_guard_size plan"
    and "lm_current mem = mem_minimum memory" and "lm_maximum mem = mem_maximum memory"
proof -
  have desc: "mp_memory plan = memory" by (rule memory_plan_cases(1) [OF plan])
  define pages where "pages = (case mp_style plan of Dynamic \<Rightarrow> mem_minimum memory | Static b \<Rightarrow> b)"
  from new obtain mbytes request m where
      mbytes: "checked_mul (ucast pages) (ucast WASM_PAGE_SIZE) = Some (mbytes :: usize)"
    and request: "checked_add mbytes (mp_offset_guard_size plan) = Some request"
    and res: "accessible_reserved os (ucast (mem_minimum memory) * ucast WASM_PAGE_SIZE) request = Inr m"
    and mem: "mem = \<lparr>lm_mmap = m, lm_current = mem_minimum memory, lm_maximum = mem_maximum memory,
        lm_offset_guard_size = mp_offset_guard_size plan,
        lm_needs_signal_handlers = lm_needs_signal_handlers mem\<rparr>"
    and small: "mem_minimum memory \<le> WASM_MAX_PAGES"
    unfolding linear_memory_new_def Let_def desc pages_def
    by (auto simp: bind_res_Inr_iff split: memory_style.splits)
  have ge: "unat (mem_minimum memory) \<le> unat pages"
    using memory_plan_cases(2) [OF plan] by (auto simp: pages_def word_le_nat_alt split: memory_style.split)
  have req: "unat request = unat pages * PAGE + unat (mp_offset_guard_size plan)"
    using mbytes request by (simp add: checked_mul_iff checked_add_iff)
  have al: "page_aligned os request"
    by (rule page_aligned_add [OF pg(1) page_aligned_pages [OF pg(1), of mbytes "unat pages"] pg(2)])
      (use mbytes request in \<open>simp_all add: checked_mul_iff checked_add_iff\<close>)
  have "unat (mem_minimum memory) * PAGE \<le> unat request" using ge req by simp
  with accessible_reserved_ok [OF page_aligned_pages [OF pg(1) unat_pages] al, of "mem_minimum memory"] res
  have m: "mm_len m = request" "\<forall>i < unat (mem_minimum memory) * PAGE. accessible m i"
      "mm_bytes m = (\<lambda>_. 0)"
    by auto
  have shape: "pages = mem_minimum memory \<or>
      (\<exists>mx. mem_maximum memory = Some mx \<and> unat mx \<le> unat pages)"
    using memory_plan_cases(2) [OF plan] by (auto simp: pages_def word_le_nat_alt split: memory_style.split)
  have "room mem = unat pages * PAGE" by (subst mem) (simp add: room_def m(1) req)
  moreover have "lm_bytes mem = unat (mem_minimum memory) * PAGE" by (subst mem) (simp add: lm_bytes_def)
  moreover have "lm_mmap mem = m" "lm_current mem = mem_minimum memory"
      "lm_maximum mem = mem_maximum memory" "lm_offset_guard_size mem = mp_offset_guard_size plan"
    using mem by (metis linear_memory.select_convs)+
  ultimately show "lm_inv mem" and "lm_offset_guard_size mem = mp_offset_guard_size plan"
      and "lm_current mem = mem_minimum memory" and "lm_maximum mem = mem_maximum memory"
    using small ge shape m req valid
    by (auto simp: lm_inv_def word_le_nat_alt)
qed

interpretation memory_growth: growable lm_inv guard_ok "\<lambda>mem. unat (lm_current mem)"
  "\<lambda>mem. map_option unat (lm_maximum mem)" PAGE linear_memory_grow
proof
  fix mem :: linear_memory and os os' :: os and d r mem'
  assume inv: "lm_inv mem" and g: "guard_ok os mem"
  show "\<exists>r mem'. linear_memory_grow os mem d = Inr (r, mem')"
    using grow_cases [OF inv g, of d] by blast
  {
    assume step: "linear_memory_grow os mem d = Inr (r, mem')"
    show "lm_inv mem'" using grow_cases [OF inv g, of d] step inv by auto
    have "lm_offset_guard_size mem' = lm_offset_guard_size mem"
      using grow_cases [OF inv g, of d] step by (auto simp: grown_def)
    then show "guard_ok os' mem'" if "guard_ok os' mem" using that by (simp add: guard_ok_def)
  }
  show "mem' = mem" if "linear_memory_grow os mem d = Inr (None, mem')"
    using grow_cases [OF inv g, of d] that by auto
  show "unat (lm_current mem') = unat (lm_current mem) + unat d \<and>
      map_option unat (lm_maximum mem') = map_option unat (lm_maximum mem)"
    if "linear_memory_grow os mem d = Inr (Some k, mem')" for k
    using grow_cases [OF inv g, of d] that by (auto simp: grown_def)
next
  fix mem :: linear_memory assume "lm_inv mem"
  then show "unat (lm_current mem) \<le> PAGE"
    and "\<And>mx. map_option unat (lm_maximum mem) = Some mx \<Longrightarrow> unat (lm_current mem) \<le> mx"
    by (auto simp: lm_inv_def word_le_nat_alt)
qed

text \<open>Creating a planned memory does not panic: it succeeds unless the operating system refuses.\<close>

lemma linear_memory_new_total:
  assumes plan: "memory_plan_for_memory memory t = Some plan"
    and pg: "page_ok os" "page_aligned os (mp_offset_guard_size plan)"
    and small: "mem_minimum memory \<le> WASM_MAX_PAGES"
      "\<And>mx. mem_maximum memory = Some mx \<Longrightarrow> mx \<le> WASM_MAX_PAGES"
    and guard: "unat (mp_offset_guard_size plan) < 2 ^ 63"
  shows "(\<exists>msg. linear_memory_new os plan = Inl (Err msg)) \<or> (\<exists>mem. linear_memory_new os plan = Inr mem)"
proof -
  have desc: "mp_memory plan = memory" by (rule memory_plan_cases(1) [OF plan])
  define pages where "pages = (case mp_style plan of Dynamic \<Rightarrow> mem_minimum memory | Static b \<Rightarrow> b)"
  let ?mb = "ucast pages * ucast WASM_PAGE_SIZE :: usize"
  let ?req = "?mb + mp_offset_guard_size plan"
  have mb: "checked_mul (ucast pages) (ucast WASM_PAGE_SIZE) = Some ?mb"
    by (simp add: checked_mul_iff)
  have "unat ?mb + unat (mp_offset_guard_size plan) < 2 ^ 64"
    using guard unat_lt_u32 [of pages] by simp
  then have un: "unat ?req = unat ?mb + unat (mp_offset_guard_size plan)"
    by (intro unat_add_small) simp
  have req: "checked_add ?mb (mp_offset_guard_size plan) = Some ?req"
    by (simp only: checked_add_iff un)
  have ge: "unat (mem_minimum memory) \<le> unat pages"
    using memory_plan_cases(2) [OF plan] by (auto simp: pages_def word_le_nat_alt split: memory_style.split)
  have al: "page_aligned os ?req"
    by (rule page_aligned_add [OF pg(1) page_aligned_pages [OF pg(1) unat_pages] pg(2) un])
  have "unat (ucast (mem_minimum memory) * ucast WASM_PAGE_SIZE :: usize) \<le> unat ?mb"
    using ge by (simp only: unat_pages mult_le_mono1)
  then have le: "unat (ucast (mem_minimum memory) * ucast WASM_PAGE_SIZE :: usize) \<le> unat ?req"
    unfolding un by (rule trans_le_add1)
  have "(\<exists>msg. accessible_reserved os (ucast (mem_minimum memory) * ucast WASM_PAGE_SIZE) ?req = Inl (Err msg)) \<or>
      (\<exists>m. accessible_reserved os (ucast (mem_minimum memory) * ucast WASM_PAGE_SIZE) ?req = Inr m)"
    using accessible_reserved_ok [OF page_aligned_pages [OF pg(1) unat_pages] al le] by blast
  moreover have "(case mp_style plan of Dynamic \<Rightarrow> Inr (mem_minimum memory)
      | Static bound \<Rightarrow> bind_res (assert_res (bound \<ge> mem_minimum memory) msg) (\<lambda>_. Inr bound)) = Inr pages" for msg
    using memory_plan_cases(2) [OF plan] by (auto simp: pages_def split: memory_style.split)
  moreover have "(case mem_maximum memory of None \<Rightarrow> True | Some mx \<Rightarrow> mx \<le> WASM_MAX_PAGES)"
    using small(2) by (auto split: option.split)
  ultimately show ?thesis
    using small(1) mb req unfolding linear_memory_new_def desc Let_def
    by (auto simp: unwrap_res_def)
qed

section \<open>Properties\<close>

text \<open>A valid memory type: what the validator accepts.\<close>

definition valid_memory :: "memory_desc \<Rightarrow> bool" where
  "valid_memory memory \<longleftrightarrow>
     mem_minimum memory \<le> WASM_MAX_PAGES \<and>
     (case mem_maximum memory of None \<Rightarrow> True
      | Some mx \<Rightarrow> mem_minimum memory \<le> mx \<and> mx \<le> WASM_MAX_PAGES)"

lemma planned_memory_new:
  assumes "valid_memory memory" and "page_ok os"
  shows "\<exists>plan. memory_plan_for_memory memory (target_tunables windows) = Some plan \<and>
    ((\<exists>msg. linear_memory_new os plan = Inl (Err msg)) \<or>
     (\<exists>mem. linear_memory_new os plan = Inr mem \<and> lm_inv mem \<and> guard_ok os mem \<and>
        lm_current mem = mem_minimum memory \<and> lm_maximum mem = mem_maximum memory))"
proof -
  have valid: "mem_minimum memory \<le> mx" "mx \<le> WASM_MAX_PAGES" if "mem_maximum memory = Some mx" for mx
    using assms(1) that by (simp_all add: valid_memory_def)
  obtain plan where plan: "memory_plan_for_memory memory (target_tunables windows) = Some plan"
    using memory_plan_exists [OF valid(1)] by blast
  have "mp_offset_guard_size plan = 0x80000000 \<or> mp_offset_guard_size plan = 0x10000"
    using memory_plan_cases(2,3) [OF plan]
    by (cases "mp_style plan")
      (auto simp: target_tunables_def default_tunables_def Let_def min_def split: if_splits)
  then have guard: "\<exists>n. unat (mp_offset_guard_size plan) = n * PAGE"
      "unat (mp_offset_guard_size plan) < 2 ^ 63" "mp_offset_guard_size plan > 0"
    by (auto simp: word_less_nat_alt intro: exI [of _ 32768] exI [of _ 1])
  then have al: "page_aligned os (mp_offset_guard_size plan)"
    using page_aligned_pages [OF assms(2)] by blast
  have "mem_minimum memory \<le> WASM_MAX_PAGES" using assms(1) by (simp add: valid_memory_def)
  then have "(\<exists>msg. linear_memory_new os plan = Inl (Err msg)) \<or> (\<exists>mem. linear_memory_new os plan = Inr mem)"
    using linear_memory_new_total [OF plan assms(2) al _ valid(2) guard(2)] by blast
  then show ?thesis
    using linear_memory_new_inv [OF plan _ assms(2) al valid(1)] plan assms(2) al guard(3)
    by (auto simp: guard_ok_def)
qed

definition example_os :: os where
  "example_os = \<lparr>os_page_size = 4096, os_mmap = Some 0x10000, os_protect = True\<rparr>"

definition example_memory :: linear_memory where
  "example_memory =
     \<lparr>lm_mmap = \<lparr>mm_ptr = 0x10000, mm_len = 0x20000, mm_accessible = [(0, 0x10000)],
                 mm_bytes = (\<lambda>_. 0)\<rparr>,
      lm_current = 1, lm_maximum = None, lm_offset_guard_size = 0x10000,
      lm_needs_signal_handlers = True\<rparr>"

lemma example_page_ok: "page_ok example_os"
  unfolding page_ok_def example_os_def by (rule bexI [of _ 12]) simp_all

lemma example_memory_ok: "lm_inv example_memory" "guard_ok example_os example_memory"
  using example_page_ok
  by (simp_all add: lm_inv_def guard_ok_def example_memory_def example_os_def page_aligned_def
      room_def lm_bytes_def accessible_def)

text \<open>C1. \<^verbatim>\<open>LinearMemory::grow\<close> is correct on every branch. On a memory in its invariant with a
  guard, it never panics or touches an inaccessible page. Either it refuses and changes nothing,
  because a limit or the operating system forbids the growth, or it returns the previous size and
  the memory has exactly \<open>delta\<close> more pages, all its old bytes, zeroes in the new pages, and its
  invariant: all its pages accessible.\<close>

theorem memory_grow_correct:
  assumes "lm_inv mem" and "guard_ok os mem"
  shows "(linear_memory_grow os mem delta = Inr (None, mem) \<and>
      (\<not> within_limits mem delta \<or> os_refuses os mem (unat (lm_current mem) + unat delta))) \<or>
    (\<exists>mem'. linear_memory_grow os mem delta = Inr (Some (lm_current mem), mem') \<and>
       lm_inv mem' \<and> grown mem delta mem')"
  by (rule grow_cases [OF assms])

theorem memory_grow_correct_witness:
  "\<exists>mem'. linear_memory_grow example_os example_memory 2 = Inr (Some 1, mem') \<and> lm_inv mem' \<and>
     grown example_memory 2 mem'"
proof -
  have "within_limits example_memory 2" and "lm_current example_memory = 1"
    and "\<not> os_refuses example_os example_memory (unat (lm_current example_memory) + unat (2 :: u32))"
    by (simp_all add: within_limits_def os_refuses_def example_memory_def example_os_def)
  then show ?thesis using memory_grow_correct [OF example_memory_ok, of 2] by metis
qed

text \<open>C8. A memory that \<^verbatim>\<open>MemoryPlan::for_memory\<close> plans with the tunables of a target can always be
  created: for every valid memory type the plan exists, and \<^verbatim>\<open>LinearMemory::new\<close> returns an error
  of the operating system or a memory in its invariant, with a guard, of the declared minimum size.\<close>

theorem planned_memory_starts_safe:
  assumes "valid_memory memory" and "page_ok os"
  shows "\<exists>plan. memory_plan_for_memory memory (target_tunables windows) = Some plan \<and>
    ((\<exists>msg. linear_memory_new os plan = Inl (Err msg)) \<or>
     (\<exists>mem. linear_memory_new os plan = Inr mem \<and> lm_inv mem \<and> guard_ok os mem \<and>
        lm_current mem = mem_minimum memory \<and> lm_maximum mem = mem_maximum memory))"
  by (rule planned_memory_new [OF assms])

theorem planned_memory_starts_safe_witness:
  "\<exists>plan. memory_plan_for_memory \<lparr>mem_minimum = 1, mem_maximum = Some 4, mem_shared = False\<rparr>
      (target_tunables True) = Some plan \<and>
    ((\<exists>msg. linear_memory_new example_os plan = Inl (Err msg)) \<or>
     (\<exists>mem. linear_memory_new example_os plan = Inr mem \<and> lm_inv mem \<and> guard_ok example_os mem \<and>
        lm_current mem = 1 \<and> lm_maximum mem = Some 4))"
  using planned_memory_starts_safe [of "\<lparr>mem_minimum = 1, mem_maximum = Some 4, mem_shared = False\<rparr>"
      example_os True] example_page_ok
  by (simp add: valid_memory_def WASM_MAX_PAGES_def)

text \<open>C9. Along any sequence of growths, with any answers of the operating system, a memory never
  panics or faults, its size is its first size plus the growths that were granted, and it stays
  within 65536 pages and within its declared maximum.\<close>

theorem memory_grows_bounded:
  assumes "lm_inv mem" and "\<forall>(os, delta) \<in> set calls. guard_ok os mem"
  shows "\<exists>rs mem'. run_grows linear_memory_grow mem calls = Inr (rs, mem') \<and>
    unat (lm_current mem') = unat (lm_current mem) + granted calls rs \<and>
    unat (lm_current mem') \<le> PAGE \<and>
    (\<forall>mx. map_option unat (lm_maximum mem) = Some mx \<longrightarrow> unat (lm_current mem') \<le> mx)"
  by (rule memory_growth.run_grows_bounded [OF assms])

theorem memory_grows_bounded_witness:
  "\<exists>rs mem'. run_grows linear_memory_grow example_memory [(example_os, 2), (example_os, 5)] = Inr (rs, mem') \<and>
    unat (lm_current mem') = unat (lm_current example_memory) + granted [(example_os, 2), (example_os, 5)] rs \<and>
    unat (lm_current mem') \<le> PAGE"
  using memory_grows_bounded [OF example_memory_ok(1), of "[(example_os, 2), (example_os, 5)]"]
    example_memory_ok(2)
  by auto

text \<open>\<^verbatim>\<open>WASM_MAX_PAGES\<close> is not reachable by growing: a growth to exactly 65536 pages, which
  \<^verbatim>\<open>LinearMemory::new\<close> accepts as an initial size and the declared maximum may allow, is refused.\<close>

theorem memory_never_grows_to_max_pages:
  assumes "delta \<noteq> 0" and "unat (lm_current mem) + unat delta = unat WASM_MAX_PAGES"
  shows "linear_memory_grow os mem delta = Inr (None, mem)"
  using assms by (intro grow_refused) (simp_all add: within_limits_def)

theorem memory_never_grows_to_max_pages_witness:
  "linear_memory_grow example_os (example_memory\<lparr>lm_maximum := Some 65536\<rparr>) 65535 =
   Inr (None, example_memory\<lparr>lm_maximum := Some 65536\<rparr>)"
  by (rule memory_never_grows_to_max_pages) (simp_all add: example_memory_def WASM_MAX_PAGES_def)

text \<open>A static memory without a guard cannot use its whole reservation: with a bound of two pages
  and no guard, growing a one-page memory to its declared maximum of two pages panics in
  \<^verbatim>\<open>make_accessible\<close>, whose assertion excludes a range that ends where the reservation ends.\<close>

theorem unguarded_static_grow_panics:
  "let memory = \<lparr>mem_minimum = 1, mem_maximum = Some 2, mem_shared = False\<rparr>;
       t = \<lparr>static_memory_bound = 2, static_memory_offset_guard_size = 0,
            dynamic_memory_offset_guard_size = 0\<rparr>
   in \<exists>plan mem. memory_plan_for_memory memory t = Some plan \<and>
        linear_memory_new example_os plan = Inr mem \<and>
        linear_memory_grow example_os mem 1 = Inl (Panic ''start < self.len - len'')"
  by (simp add: memory_plan_for_memory_def memory_style_for_memory_def linear_memory_new_def
      linear_memory_grow_def accessible_reserved_def make_accessible_def example_os_def
      checked_mul_def checked_add_def WASM_MAX_PAGES_def WASM_PAGE_SIZE_def unwrap_res_def
      assert_res_def ok_or_none_def Let_def)

end
