(* ===== verification/Runtime_Table.thy ===== *)
theory Runtime_Table
  imports Module_Env Growable
begin

text \<open>
  Tables at run time (\<^verbatim>\<open>wasmtime-runtime/src/table.rs\<close>): a vector of caller-checked function
  references with an optional maximum. The vector's buffer lives where the allocator puts it; what
  the buffer's address is after one call is an argument, \<open>None\<close> when the allocator has no memory
  left, which aborts the process.
\<close>

section \<open>Definitions\<close>

type_synonym address = usize

text \<open>\<^verbatim>\<open>VMSharedSignatureIndex::default\<close> is reserved: no registered signature has it.\<close>

definition default_signature_index :: u32 where
  "default_signature_index = - 1"

record anyfunc =
  af_func_ptr :: address
  af_type_index :: u32
  af_vmctx :: address

definition anyfunc_default :: anyfunc where
  "anyfunc_default = \<lparr>af_func_ptr = 0, af_type_index = default_signature_index, af_vmctx = 0\<rparr>"

record table =
  tb_base :: address
  tb_vec :: "anyfunc list"
  tb_maximum :: "u32 option"

type_synonym alloc = "address option"

definition table_new :: "alloc \<Rightarrow> table_plan \<Rightarrow> table res" where
  "table_new alloc plan =
     (case tbl_ty (tp_table plan) of
        Val _ \<Rightarrow> Inl (Panic ''tables of types other than anyfunc'')
      | Func \<Rightarrow>
          (case tp_style plan of CallerChecksSignature \<Rightarrow>
             bind_res (unwrap_res alloc ''allocation'') (\<lambda>base.
             Inr \<lparr>tb_base = base,
                  tb_vec = replicate (unat (tbl_minimum (tp_table plan))) anyfunc_default,
                  tb_maximum = tbl_maximum (tp_table plan)\<rparr>)))"

definition table_size :: "table \<Rightarrow> u32 res" where
  "table_size t =
     (if length (tb_vec t) < 2 ^ 32 then Inr (of_nat (length (tb_vec t)))
      else Inl (Panic ''try_into''))"

text \<open>\<^verbatim>\<open>Vec::resize\<close> truncates or pads.\<close>

definition resize :: "'a list \<Rightarrow> nat \<Rightarrow> 'a \<Rightarrow> 'a list" where
  "resize xs n x = take n xs @ replicate (n - length xs) x"

definition table_grow :: "alloc \<Rightarrow> table \<Rightarrow> u32 \<Rightarrow> (u32 option \<times> table) res" where
  "table_grow alloc t delta =
     bind_res (table_size t) (\<lambda>sz.
       case checked_add sz delta of
         None \<Rightarrow> Inr (None, t)
       | Some len \<Rightarrow>
           (if (case tb_maximum t of Some mx \<Rightarrow> len > mx | None \<Rightarrow> False) then Inr (None, t)
            else
              bind_res (unwrap_res alloc ''allocation'') (\<lambda>base.
              Inr (Some len, t\<lparr>tb_base := base, tb_vec := resize (tb_vec t) (unat len) anyfunc_default\<rparr>))))"

definition table_get :: "table \<Rightarrow> u32 \<Rightarrow> anyfunc option" where
  "table_get t index = get (tb_vec t) (unat index)"

text \<open>A write through the reference that \<^verbatim>\<open>get_mut\<close> returns; \<open>None\<close> when there is none.\<close>

definition table_set :: "table \<Rightarrow> u32 \<Rightarrow> anyfunc \<Rightarrow> table option" where
  "table_set t index val =
     (if unat index < length (tb_vec t) then Some (t\<lparr>tb_vec := (tb_vec t)[unat index := val]\<rparr>)
      else None)"

record vm_table_definition =
  vmt_base :: address
  vmt_current_elements :: u32

definition vmtable :: "table \<Rightarrow> vm_table_definition res" where
  "vmtable t =
     bind_res (table_size t) (\<lambda>n. Inr \<lparr>vmt_base = tb_base t, vmt_current_elements = n\<rparr>)"

section \<open>Invariant and lemmas\<close>

definition table_inv :: "table \<Rightarrow> bool" where
  "table_inv t \<longleftrightarrow>
     length (tb_vec t) < 2 ^ 32 \<and>
     (case tb_maximum t of None \<Rightarrow> True | Some mx \<Rightarrow> length (tb_vec t) \<le> unat mx)"

lemma table_inv_size:
  assumes "table_inv t"
  shows "table_size t = Inr (of_nat (length (tb_vec t)))"
    and "unat (of_nat (length (tb_vec t)) :: u32) = length (tb_vec t)"
  using assms by (simp_all add: table_inv_def table_size_def unat_of_nat_u32)

lemma length_resize [simp]: "length (resize xs n x) = n"
  by (simp add: resize_def min_def)

lemma nth_resize: "i < n \<Longrightarrow> resize xs n x ! i = (if i < length xs then xs ! i else x)"
  by (auto simp: resize_def nth_append)

text \<open>The growth the table allows, and what it does.\<close>

definition table_may_grow :: "table \<Rightarrow> u32 \<Rightarrow> bool" where
  "table_may_grow t delta \<longleftrightarrow>
     length (tb_vec t) + unat delta < 2 ^ 32 \<and>
     (case tb_maximum t of None \<Rightarrow> True | Some mx \<Rightarrow> length (tb_vec t) + unat delta \<le> unat mx)"

definition table_grown :: "table \<Rightarrow> u32 \<Rightarrow> table \<Rightarrow> bool" where
  "table_grown t delta t' \<longleftrightarrow>
     length (tb_vec t') = length (tb_vec t) + unat delta \<and>
     (\<forall>i < length (tb_vec t'). tb_vec t' ! i =
        (if i < length (tb_vec t) then tb_vec t ! i else anyfunc_default)) \<and>
     tb_maximum t' = tb_maximum t"

lemma table_grow_cases:
  assumes inv: "table_inv t" and base: "alloc = Some base"
  shows "(\<not> table_may_grow t delta \<and> table_grow alloc t delta = Inr (None, t)) \<or>
    (\<exists>t'. table_may_grow t delta \<and>
       table_grow alloc t delta = Inr (Some (of_nat (length (tb_vec t) + unat delta)), t') \<and>
       table_inv t' \<and> table_grown t delta t' \<and> tb_base t' = base)"
proof -
  let ?n = "of_nat (length (tb_vec t)) :: u32"
  note sz = table_inv_size [OF inv]
  show ?thesis
  proof (cases "length (tb_vec t) + unat delta < 2 ^ 32")
    case False
    then have "checked_add ?n delta = None" by (simp add: checked_add_def sz(2) del: of_nat_add)
    with False show ?thesis by (simp add: table_grow_def sz(1) table_may_grow_def)
  next
    case True
    then have add: "checked_add ?n delta = Some (?n + delta)" by (simp add: checked_add_def sz(2))
    have len: "unat (?n + delta) = length (tb_vec t) + unat delta"
      using True sz(2) by (subst unat_add_small) simp_all
    have eq: "?n + delta = of_nat (length (tb_vec t) + unat delta)" by simp
    define t' where "t' = t\<lparr>tb_base := base, tb_vec := resize (tb_vec t) (unat (?n + delta)) anyfunc_default\<rparr>"
    have grown: "table_grown t delta t'"
      by (simp add: table_grown_def t'_def nth_resize len)
    show ?thesis
    proof (cases "table_may_grow t delta")
      case may: True
      then have "\<not> (case tb_maximum t of Some mx \<Rightarrow> ?n + delta > mx | None \<Rightarrow> False)"
        by (auto simp: table_may_grow_def word_less_nat_alt len split: option.splits)
      then have "table_grow alloc t delta = Inr (Some (?n + delta), t')"
        by (simp add: table_grow_def sz(1) add base t'_def unwrap_res_def)
      moreover have "table_inv t'"
        using may True by (auto simp: table_inv_def table_may_grow_def t'_def len split: option.splits)
      ultimately show ?thesis using may grown unfolding eq by (auto simp: t'_def)
    next
      case False
      with True have "(case tb_maximum t of Some mx \<Rightarrow> ?n + delta > mx | None \<Rightarrow> False)"
        by (auto simp: table_may_grow_def word_less_nat_alt len split: option.splits)
      with False show ?thesis by (auto simp: table_grow_def sz(1) add split: option.splits)
    qed
  qed
qed

interpretation table_growth: growable table_inv "\<lambda>alloc _. alloc \<noteq> None" "\<lambda>t. length (tb_vec t)"
  "\<lambda>t. map_option unat (tb_maximum t)" "2 ^ 32 - 1" table_grow
proof
  fix t :: table and alloc alloc' :: alloc and d r t'
  assume inv: "table_inv t" and "alloc \<noteq> None"
  then obtain base where base: "alloc = Some base" by auto
  note cases = table_grow_cases [OF inv base, of d]
  show "\<exists>r t'. table_grow alloc t d = Inr (r, t')" using cases by blast
  show "table_inv t'" if "table_grow alloc t d = Inr (r, t')" using cases inv that by auto
  show "alloc' \<noteq> None" if "alloc' \<noteq> None" by (rule that)
  show "t' = t" if "table_grow alloc t d = Inr (None, t')" using cases that by auto
  show "length (tb_vec t') = length (tb_vec t) + unat d \<and>
      map_option unat (tb_maximum t') = map_option unat (tb_maximum t)"
    if "table_grow alloc t d = Inr (Some k, t')" for k
    using cases that by (auto simp: table_grown_def)
next
  fix t assume "table_inv t"
  then show "length (tb_vec t) \<le> 2 ^ 32 - 1"
    and "\<And>mx. map_option unat (tb_maximum t) = Some mx \<Longrightarrow> length (tb_vec t) \<le> mx"
    by (auto simp: table_inv_def)
qed

lemma table_set_get:
  assumes "table_set t i v = Some t'"
  shows "table_get t' j = (if i = j then Some v else table_get t j)"
  using assms by (auto simp: table_set_def table_get_def get_def word_eq_iff_unat split: if_splits)

lemma table_set_inv: "table_inv t \<Longrightarrow> table_set t i v = Some t' \<Longrightarrow> table_inv t'"
  by (auto simp: table_inv_def table_set_def split: if_splits option.splits)

lemma table_new_inv:
  assumes "table_new alloc plan = Inr t"
    and "\<And>mx. tbl_maximum (tp_table plan) = Some mx \<Longrightarrow> tbl_minimum (tp_table plan) \<le> mx"
  shows "table_inv t"
  using assms unat_lt_u32
  by (auto simp: table_new_def table_inv_def unwrap_res_def word_le_nat_alt
      split: table_element_type.splits table_style.splits option.splits)

section \<open>Properties\<close>

text \<open>C22. \<^verbatim>\<open>Table::grow\<close> is correct on every branch. When the table may not grow it refuses and
  changes nothing. Otherwise it returns the new length, every element in range before is kept,
  every new one is the null reference whose signature no function has, and the definition exposed
  to compiled code has the new buffer and the new length.\<close>

theorem table_grow_correct:
  assumes "table_inv t" and "alloc = Some base"
  shows "if table_may_grow t delta
    then \<exists>t'. table_grow alloc t delta = Inr (Some (of_nat (length (tb_vec t) + unat delta)), t') \<and>
      table_inv t' \<and>
      vmtable t' = Inr \<lparr>vmt_base = base, vmt_current_elements = of_nat (length (tb_vec t) + unat delta)\<rparr> \<and>
      (\<forall>i. table_get t' i =
         (if unat i < length (tb_vec t) then table_get t i
          else if unat i < length (tb_vec t) + unat delta then Some anyfunc_default else None))
    else table_grow alloc t delta = Inr (None, t)"
proof (cases "table_may_grow t delta")
  case True
  then obtain t' where t': "table_grow alloc t delta = Inr (Some (of_nat (length (tb_vec t) + unat delta)), t')"
    "table_inv t'" "table_grown t delta t'" "tb_base t' = base"
    using table_grow_cases [OF assms, of delta] by blast
  then have "vmtable t' = Inr \<lparr>vmt_base = base, vmt_current_elements = of_nat (length (tb_vec t) + unat delta)\<rparr>"
    using table_inv_size(1) [OF t'(2)] by (simp add: vmtable_def table_grown_def)
  moreover have "table_get t' i = (if unat i < length (tb_vec t) then table_get t i
      else if unat i < length (tb_vec t) + unat delta then Some anyfunc_default else None)" for i
    using t'(3) by (auto simp: table_grown_def table_get_def get_def)
  ultimately show ?thesis using True t' by auto
next
  case False
  then show ?thesis using table_grow_cases [OF assms, of delta] by simp
qed

definition example_table :: table where
  "example_table =
     \<lparr>tb_base = 0x1000, tb_vec = [\<lparr>af_func_ptr = 7, af_type_index = 3, af_vmctx = 9\<rparr>],
      tb_maximum = Some 4\<rparr>"

theorem table_grow_correct_witness:
  "\<exists>t'. table_grow (Some 0x2000) example_table 3 = Inr (Some 4, t') \<and>
     table_get t' 0 = Some \<lparr>af_func_ptr = 7, af_type_index = 3, af_vmctx = 9\<rparr> \<and>
     table_get t' 3 = Some anyfunc_default \<and> table_get t' 4 = None"
proof -
  have "table_inv example_table" "table_may_grow example_table 3"
    by (simp_all add: table_inv_def example_table_def table_may_grow_def)
  then obtain t' where t': "table_grow (Some 0x2000) example_table 3 =
      Inr (Some (of_nat (length (tb_vec example_table) + unat (3 :: u32))), t')"
    "\<forall>i. table_get t' i =
       (if unat i < length (tb_vec example_table) then table_get example_table i
        else if unat i < length (tb_vec example_table) + unat (3 :: u32) then Some anyfunc_default else None)"
    using table_grow_correct [of example_table "Some 0x2000" "0x2000" 3] by auto
  have "table_get t' 0 = table_get example_table 0" "table_get t' 3 = Some anyfunc_default"
    "table_get t' 4 = None"
    by (simp_all add: t'(2) example_table_def)
  then show ?thesis using t'(1) by (simp add: example_table_def table_get_def get_def)
qed

text \<open>Along any sequence of growths a table never panics, its length is its first length plus
  the granted growths, and it stays below \<open>2^32\<close> elements and within its maximum.\<close>

theorem tables_grow_bounded:
  assumes "table_inv t" and "\<forall>(alloc, delta) \<in> set calls. alloc \<noteq> None"
  shows "\<exists>rs t'. run_grows table_grow t calls = Inr (rs, t') \<and>
    length (tb_vec t') = length (tb_vec t) + granted calls rs \<and>
    length (tb_vec t') \<le> 2 ^ 32 - 1 \<and>
    (\<forall>mx. map_option unat (tb_maximum t) = Some mx \<longrightarrow> length (tb_vec t') \<le> mx)"
  by (rule table_growth.run_grows_bounded [OF assms])

theorem tables_grow_bounded_witness:
  "\<exists>rs t'. run_grows table_grow example_table [(Some 0x2000, 2), (Some 0x3000, 5)] = Inr (rs, t') \<and>
    length (tb_vec t') \<le> 4"
  using tables_grow_bounded [of example_table "[(Some 0x2000, 2), (Some 0x3000, 5)]"]
  by (auto simp: table_inv_def example_table_def)

end
