(* ===== verification/VMContext.thy ===== *)
theory VMContext
  imports VMOffsets Runtime_Memory Runtime_Table
begin

text \<open>
  The VM contexts in memory (\<^verbatim>\<open>wasmtime-runtime/src/vmcontext.rs\<close> and the accessors at the top of
  \<^verbatim>\<open>instance.rs\<close>). A context is a region of raw memory into which the runtime writes structs at the
  offsets of \<^verbatim>\<open>VMOffsets\<close> and which compiled code reads. The memory is modelled byte by byte: each
  address holds the \<open>k\<close>-th byte of some struct, so that overlapping writes destroy what they
  overlap. Reading a struct that is not there intact is undefined behaviour, here \<open>Segfault\<close>.
  The target is 64-bit.
\<close>

section \<open>Structs of the context\<close>

record vm_function_import =
  fi_body :: address
  fi_vmctx :: address

record vm_table_import =
  ti_from :: address
  ti_vmctx :: address

record vm_memory_import =
  mi_from :: address
  mi_vmctx :: address

record vm_global_import =
  gi_from :: address

text \<open>\<^verbatim>\<open>VMGlobalDefinition\<close>: sixteen bytes of storage, seen through casts to integers.\<close>

type_synonym vm_global_definition = "u8 list"

definition global_definition_new :: vm_global_definition where
  "global_definition_new = replicate 16 0"

definition to_le :: "nat \<Rightarrow> 'a::len word \<Rightarrow> u8 list" where
  "to_le n w = map (\<lambda>i. ucast (drop_bit (8 * i) w)) [0..<n]"

primrec from_le :: "u8 list \<Rightarrow> 'a::len word" where
  "from_le [] = 0"
| "from_le (b # bs) = or (push_bit 8 (from_le bs)) (ucast b)"

definition as_u32 :: "vm_global_definition \<Rightarrow> u32" where
  "as_u32 g = from_le (take 4 g)"

definition as_u64 :: "vm_global_definition \<Rightarrow> u64" where
  "as_u64 g = from_le (take 8 g)"

text \<open>Writes through \<^verbatim>\<open>as_i32_mut\<close>, \<^verbatim>\<open>as_i64_mut\<close>, \<^verbatim>\<open>as_f32_bits_mut\<close>, \<^verbatim>\<open>as_f64_bits_mut\<close> and
  \<^verbatim>\<open>as_u128_bits_mut\<close>: they leave the other bytes alone.\<close>

definition write_i32 :: "vm_global_definition \<Rightarrow> u32 \<Rightarrow> vm_global_definition" where
  "write_i32 g x = overwrite g 0 (to_le 4 x)"

definition write_i64 :: "vm_global_definition \<Rightarrow> u64 \<Rightarrow> vm_global_definition" where
  "write_i64 g x = overwrite g 0 (to_le 8 x)"

definition write_f32_bits :: "vm_global_definition \<Rightarrow> u32 \<Rightarrow> vm_global_definition" where
  "write_f32_bits g x = overwrite g 0 (to_le 4 x)"

definition write_f64_bits :: "vm_global_definition \<Rightarrow> u64 \<Rightarrow> vm_global_definition" where
  "write_f64_bits g x = overwrite g 0 (to_le 8 x)"

definition write_u128_bits :: "vm_global_definition \<Rightarrow> u8 list \<Rightarrow> vm_global_definition" where
  "write_u128_bits g bytes = overwrite g 0 bytes"

section \<open>Raw memory\<close>

datatype cell =
    CSig u32
  | CFuncImport vm_function_import
  | CTableImport vm_table_import
  | CMemoryImport vm_memory_import
  | CGlobalImport vm_global_import
  | CTable vm_table_definition
  | CMemory vm_memory_definition
  | CGlobal vm_global_definition
  | CBuiltin address

text \<open>\<^verbatim>\<open>mem::size_of\<close> of the \<^verbatim>\<open>repr(C)\<close> structs.\<close>

fun cell_size :: "cell \<Rightarrow> nat" where
  "cell_size (CSig _) = 4"
| "cell_size (CFuncImport _) = 16"
| "cell_size (CTableImport _) = 16"
| "cell_size (CMemoryImport _) = 16"
| "cell_size (CGlobalImport _) = 8"
| "cell_size (CTable _) = 16"
| "cell_size (CMemory _) = 16"
| "cell_size (CGlobal _) = 16"
| "cell_size (CBuiltin _) = 8"

type_synonym heap = "address \<rightharpoonup> cell \<times> nat"

definition write_cell :: "address \<Rightarrow> cell \<Rightarrow> heap \<Rightarrow> heap" where
  "write_cell a c h = (\<lambda>x. if unat (x - a) < cell_size c then Some (c, unat (x - a)) else h x)"

definition read_cell :: "address \<Rightarrow> heap \<Rightarrow> cell option" where
  "read_cell a h =
     (case h a of
        Some (c, k) \<Rightarrow>
          if k = 0 \<and> (\<forall>i < cell_size c. h (a + of_nat i) = Some (c, i)) then Some c else None
      | None \<Rightarrow> None)"

text \<open>\<^verbatim>\<open>ptr::copy\<close> of an array of structs.\<close>

fun write_cells :: "address \<Rightarrow> cell list \<Rightarrow> heap \<Rightarrow> heap" where
  "write_cells a [] h = h"
| "write_cells a (c # cs) h = write_cells (a + of_nat (cell_size c)) cs (write_cell a c h)"

text \<open>Dereferencing a pointer at its type.\<close>

definition deref_sig :: "heap \<Rightarrow> address \<Rightarrow> u32 res" where
  "deref_sig h p = (case read_cell p h of Some (CSig x) \<Rightarrow> Inr x | _ \<Rightarrow> Inl Segfault)"

definition deref_function_import :: "heap \<Rightarrow> address \<Rightarrow> vm_function_import res" where
  "deref_function_import h p = (case read_cell p h of Some (CFuncImport x) \<Rightarrow> Inr x | _ \<Rightarrow> Inl Segfault)"

definition deref_table_import :: "heap \<Rightarrow> address \<Rightarrow> vm_table_import res" where
  "deref_table_import h p = (case read_cell p h of Some (CTableImport x) \<Rightarrow> Inr x | _ \<Rightarrow> Inl Segfault)"

definition deref_memory_import :: "heap \<Rightarrow> address \<Rightarrow> vm_memory_import res" where
  "deref_memory_import h p = (case read_cell p h of Some (CMemoryImport x) \<Rightarrow> Inr x | _ \<Rightarrow> Inl Segfault)"

definition deref_global_import :: "heap \<Rightarrow> address \<Rightarrow> vm_global_import res" where
  "deref_global_import h p = (case read_cell p h of Some (CGlobalImport x) \<Rightarrow> Inr x | _ \<Rightarrow> Inl Segfault)"

definition deref_memory :: "heap \<Rightarrow> address \<Rightarrow> vm_memory_definition res" where
  "deref_memory h p = (case read_cell p h of Some (CMemory x) \<Rightarrow> Inr x | _ \<Rightarrow> Inl Segfault)"

definition deref_global :: "heap \<Rightarrow> address \<Rightarrow> vm_global_definition res" where
  "deref_global h p = (case read_cell p h of Some (CGlobal x) \<Rightarrow> Inr x | _ \<Rightarrow> Inl Segfault)"

lemmas deref_defs = deref_sig_def deref_function_import_def deref_table_import_def
  deref_memory_import_def deref_global_import_def deref_memory_def deref_global_def

section \<open>Accessors\<close>

text \<open>\<^verbatim>\<open>(vmctx as *const u8).add(usize::try_from(offset).unwrap())\<close>; an offset whose computation
  overflows panics.\<close>

definition vm_add :: "address \<Rightarrow> u32 option \<Rightarrow> address res" where
  "vm_add vmctx offset =
     (case offset of None \<Rightarrow> Inl (Panic ''offset'') | Some x \<Rightarrow> Inr (vmctx + ucast x))"

definition signature_id :: "heap \<Rightarrow> address \<Rightarrow> vmoffsets \<Rightarrow> nat \<Rightarrow> u32 res" where
  "signature_id h vmctx offs index =
     bind_res (vm_add vmctx (vmctx_vmshared_signature_id offs (of_nat index))) (deref_sig h)"

definition imported_function :: "heap \<Rightarrow> address \<Rightarrow> vmoffsets \<Rightarrow> nat \<Rightarrow> vm_function_import res" where
  "imported_function h vmctx offs index =
     bind_res (vm_add vmctx (vmctx_vmfunction_import offs (of_nat index))) (deref_function_import h)"

definition imported_table :: "heap \<Rightarrow> address \<Rightarrow> vmoffsets \<Rightarrow> nat \<Rightarrow> vm_table_import res" where
  "imported_table h vmctx offs index =
     bind_res (vm_add vmctx (vmctx_vmtable_import offs (of_nat index))) (deref_table_import h)"

definition imported_memory :: "heap \<Rightarrow> address \<Rightarrow> vmoffsets \<Rightarrow> nat \<Rightarrow> vm_memory_import res" where
  "imported_memory h vmctx offs index =
     bind_res (vm_add vmctx (vmctx_vmmemory_import offs (of_nat index))) (deref_memory_import h)"

definition imported_global :: "heap \<Rightarrow> address \<Rightarrow> vmoffsets \<Rightarrow> nat \<Rightarrow> vm_global_import res" where
  "imported_global h vmctx offs index =
     bind_res (vm_add vmctx (vmctx_vmglobal_import offs (of_nat index))) (deref_global_import h)"

text \<open>The \<^verbatim>\<open>_mut\<close> accessors return a pointer that the callers write through or hand out.\<close>

definition table_mut :: "address \<Rightarrow> vmoffsets \<Rightarrow> nat \<Rightarrow> address res" where
  "table_mut vmctx offs index = vm_add vmctx (vmctx_vmtable_definition offs (of_nat index))"

definition memory_mut :: "address \<Rightarrow> vmoffsets \<Rightarrow> nat \<Rightarrow> address res" where
  "memory_mut vmctx offs index = vm_add vmctx (vmctx_vmmemory_definition offs (of_nat index))"

definition vm_memory :: "heap \<Rightarrow> address \<Rightarrow> vmoffsets \<Rightarrow> nat \<Rightarrow> vm_memory_definition res" where
  "vm_memory h vmctx offs index = bind_res (memory_mut vmctx offs index) (deref_memory h)"

definition global_mut :: "address \<Rightarrow> vmoffsets \<Rightarrow> nat \<Rightarrow> address res" where
  "global_mut vmctx offs index = vm_add vmctx (vmctx_vmglobal_definition offs (of_nat index))"

section \<open>Raw memory as an interface\<close>

text \<open>Byte ranges that share no byte.\<close>

definition apart :: "address \<Rightarrow> nat \<Rightarrow> address \<Rightarrow> nat \<Rightarrow> bool" where
  "apart a n b m \<longleftrightarrow> (\<forall>x. \<not> (unat (x - a) < n \<and> unat (x - b) < m))"

lemma apart_sym: "apart a n b m \<Longrightarrow> apart b m a n"
  by (auto simp: apart_def)

lemma cell_size_bounds: "0 < cell_size c" "cell_size c \<le> 16"
  by (cases c; simp)+

lemma read_write_same [simp]: "read_cell a (write_cell a c h) = Some c"
proof -
  have "unat (of_nat i :: address) = i" if "i < cell_size c" for i
    using that cell_size_bounds(2) [of c] by (intro unat_of_nat_u64) simp
  then show ?thesis using cell_size_bounds(1) [of c] by (simp add: read_cell_def write_cell_def)
qed

lemma read_write_apart:
  assumes "read_cell b h = Some c'" and "apart a (cell_size c) b (cell_size c')"
  shows "read_cell b (write_cell a c h) = Some c'"
proof -
  have at: "h b = Some (c', 0)" "\<forall>i < cell_size c'. h (b + of_nat i) = Some (c', i)"
    using assms(1) by (auto simp: read_cell_def split: option.splits if_splits)
  have out: "\<not> unat (b + of_nat i - a) < cell_size c" if "i < cell_size c'" for i
  proof -
    have "unat (b + of_nat i - b) < cell_size c'"
      using that cell_size_bounds(2) [of c'] by (simp add: unat_of_nat_u64)
    then show ?thesis using assms(2) by (auto simp: apart_def)
  qed
  have "write_cell a c h (b + of_nat i) = Some (c', i)" if "i < cell_size c'" for i
    using out [OF that] at(2) that by (simp add: write_cell_def)
  moreover have "write_cell a c h b = Some (c', 0)"
    using out [of 0] at(1) cell_size_bounds(1) [of c'] by (simp add: write_cell_def)
  ultimately show ?thesis by (simp add: read_cell_def)
qed

text \<open>Offsets inside one context.\<close>

lemma unat_sub_range:
  fixes y z :: address
  assumes "unat (y - z) < n" and "unat z + n \<le> 2 ^ 64"
  shows "unat z \<le> unat y" "unat y < unat z + n"
proof -
  have "unat z + unat (y - z) < 2 ^ 64" using assms by simp
  then have "unat (z + (y - z)) = unat z + unat (y - z)" by (intro unat_add_small) simp
  then have "unat y = unat z + unat (y - z)" by simp
  then show "unat z \<le> unat y" "unat y < unat z + n" using assms(1) by simp_all
qed

lemma unat_ucast_u32_u64 [simp]: "unat (ucast (x :: u32) :: address) = unat x"
  using unat_lt_u32 [of x] by (simp add: unat_ucast_le)

lemma apart_offsets:
  fixes x y :: u32
  assumes "unat x + n \<le> unat y \<or> unat y + m \<le> unat x" and "n \<le> 2 ^ 32" "m \<le> 2 ^ 32"
  shows "apart (base + ucast x) n (base + ucast y) m"
  unfolding apart_def
proof (intro allI notI, elim conjE)
  fix z assume "unat (z - (base + ucast x)) < n" and "unat (z - (base + ucast y)) < m"
  then have z: "unat (z - base - ucast x) < n" "unat (z - base - ucast y) < m"
    by (simp_all add: algebra_simps)
  have "unat (ucast x :: address) + n \<le> 2 ^ 64" "unat (ucast y :: address) + m \<le> 2 ^ 64"
    using unat_lt_u32 [of x] unat_lt_u32 [of y] assms(2,3) by simp_all
  then show False using unat_sub_range [OF z(1)] unat_sub_range [OF z(2)] assms(1) by simp
qed

lemma apart_regions:
  fixes x y :: u32
  assumes "apart a n b m" and "unat x + k \<le> n" "unat y + l \<le> m" "n < 2 ^ 32" "m < 2 ^ 32"
  shows "apart (a + ucast x) k (b + ucast y) l"
  unfolding apart_def
proof (intro allI notI, elim conjE)
  fix z assume "unat (z - (a + ucast x)) < k" and "unat (z - (b + ucast y)) < l"
  then have z: "unat (z - a - ucast x) < k" "unat (z - b - ucast y) < l"
    by (simp_all add: algebra_simps)
  have "unat (ucast x :: address) + k \<le> 2 ^ 64" "unat (ucast y :: address) + l \<le> 2 ^ 64"
    using assms(2-5) by simp_all
  then have "unat (z - a) < n" "unat (z - b) < m"
    using unat_sub_range(2) [OF z(1)] unat_sub_range(2) [OF z(2)] assms(2,3) by simp_all
  then show False using assms(1) by (auto simp: apart_def)
qed

section \<open>Slots of a context in memory\<close>

text \<open>The struct that belongs in a slot.\<close>

fun cell_fits :: "slot \<Rightarrow> cell \<Rightarrow> bool" where
  "cell_fits (SigId _) (CSig _) = True"
| "cell_fits (FuncImport _) (CFuncImport _) = True"
| "cell_fits (TableImport _) (CTableImport _) = True"
| "cell_fits (MemImport _) (CMemoryImport _) = True"
| "cell_fits (GlobImport _) (CGlobalImport _) = True"
| "cell_fits (TableDef _) (CTable _) = True"
| "cell_fits (MemDef _) (CMemory _) = True"
| "cell_fits (GlobDef _) (CGlobal _) = True"
| "cell_fits (Builtin _) (CBuiltin _) = True"
| "cell_fits _ _ = False"

definition context_ok :: "vmoffsets \<Rightarrow> bool" where
  "context_ok offs \<longleftrightarrow> layout_fits offs \<and> pointer_size offs = 8"

text \<open>The sizes that \<^verbatim>\<open>VMOffsets\<close> computes are the sizes of the structs.\<close>

lemma cell_size_slot:
  assumes "context_ok offs" "cell_fits s c"
  shows "cell_size c = slot_size offs s"
proof -
  have "supported_pointer offs" "psize offs = 8"
    using assms(1) by (simp_all add: context_ok_def layout_fits_def)
  then show ?thesis
    using assms(2) unat_slot_sizes [of offs] by (cases s; cases c) simp_all
qed

definition cell_at :: "heap \<Rightarrow> address \<Rightarrow> vmoffsets \<Rightarrow> slot \<Rightarrow> cell option" where
  "cell_at h base offs s =
     (case slot_offset offs s of Some x \<Rightarrow> read_cell (base + ucast x) h | None \<Rightarrow> None)"

lemma cell_at_write_same:
  "slot_offset offs s = Some x \<Longrightarrow> cell_at (write_cell (base + ucast x) c h) base offs s = Some c"
  by (simp add: cell_at_def)

lemma cell_at_write_other:
  assumes ok: "context_ok offs" and fits: "cell_fits s c" "cell_fits s' c'"
    and at: "slot_offset offs s = Some x" and ne: "s \<noteq> s'" and old: "cell_at h base offs s' = Some c'"
  shows "cell_at (write_cell (base + ucast x) c h) base offs s' = Some c'"
proof -
  from old obtain y where y: "slot_offset offs s' = Some y" "read_cell (base + ucast y) h = Some c'"
    by (auto simp: cell_at_def split: option.splits)
  have "layout_fits offs" using ok by (simp add: context_ok_def)
  from slot_ranges_disjoint [OF this ne at y(1)]
  have "apart (base + ucast x) (cell_size c) (base + ucast y) (cell_size c')"
    using cell_size_slot [OF ok fits(1)] cell_size_slot [OF ok fits(2)]
      cell_size_bounds(2) [of c] cell_size_bounds(2) [of c']
    by (intro apart_offsets) simp_all
  then show ?thesis using y read_write_apart by (simp add: cell_at_def)
qed

lemma cell_at_write_foreign:
  assumes ok: "context_ok offs" "context_ok offs'" and fits: "cell_fits s c" "cell_fits s' c'"
    and at: "slot_offset offs s = Some x" and old: "cell_at h base' offs' s' = Some c'"
    and far: "apart base (lay_size offs) base' (lay_size offs')"
  shows "cell_at (write_cell (base + ucast x) c h) base' offs' s' = Some c'"
proof -
  from old obtain y where y: "slot_offset offs' s' = Some y" "read_cell (base' + ucast y) h = Some c'"
    by (auto simp: cell_at_def split: option.splits)
  have fit: "layout_fits offs" "layout_fits offs'" using ok by (simp_all add: context_ok_def)
  then have "lay_size offs < 2 ^ 32" "lay_size offs' < 2 ^ 32" by (simp_all add: layout_fits_def)
  then have "apart (base + ucast x) (cell_size c) (base' + ucast y) (cell_size c')"
    using apart_regions [OF far] slot_in_context [OF fit(1) at] slot_in_context [OF fit(2) y(1)]
      cell_size_slot [OF ok(1) fits(1)] cell_size_slot [OF ok(2) fits(2)] by simp
  then show ?thesis using y read_write_apart by (simp add: cell_at_def)
qed

text \<open>Where the slots of one array are.\<close>

fun slot_count :: "vmoffsets \<Rightarrow> slot \<Rightarrow> nat" where
  "slot_count offs (SigId _) = unat (num_signature_ids offs)"
| "slot_count offs (FuncImport _) = unat (num_imported_functions offs)"
| "slot_count offs (TableImport _) = unat (num_imported_tables offs)"
| "slot_count offs (MemImport _) = unat (num_imported_memories offs)"
| "slot_count offs (GlobImport _) = unat (num_imported_globals offs)"
| "slot_count offs (TableDef _) = unat (num_defined_tables offs)"
| "slot_count offs (MemDef _) = unat (num_defined_memories offs)"
| "slot_count offs (GlobDef _) = unat (num_defined_globals offs)"
| "slot_count offs (Builtin _) = 4"

lemma slot_offset_iff:
  assumes "layout_fits offs"
  shows "slot_offset offs s = Some x \<longleftrightarrow>
    unat (slot_index s) < slot_count offs s \<and>
    unat x = boundaries offs ! slot_kind s + unat (slot_index s) * slot_size offs s"
  using slot_sizes_fit [OF assms] array_iffs [OF assms]
  by (cases s) (simp_all add: boundaries_def)

lemma slot_offset_exists:
  assumes "layout_fits offs" and "unat (slot_index s) < slot_count offs s"
  obtains x where "slot_offset offs s = Some x"
    "unat x = boundaries offs ! slot_kind s + unat (slot_index s) * slot_size offs s"
proof (cases "slot_offset offs s")
  case None
  have False using assms array_total [OF assms(1)] None by (cases s) auto
  then show ?thesis ..
next
  case (Some x)
  then show ?thesis using slot_offset_iff [OF assms(1)] that by blast
qed

section \<open>Arrays of structs\<close>

text \<open>Writing an array of structs at the beginning of an array of the context fills its slots.\<close>

lemma read_write_cells_apart:
  assumes "read_cell b h = Some c'"
    and "\<And>i. i < length cs \<Longrightarrow> cell_size (cs ! i) = n \<and> apart (a + of_nat (i * n)) n b (cell_size c')"
  shows "read_cell b (write_cells a cs h) = Some c'"
  using assms
proof (induction cs arbitrary: a h)
  case Nil
  then show ?case by simp
next
  case (Cons c cs)
  have c: "cell_size c = n" and far: "apart a n b (cell_size c')" using Cons.prems(2) [of 0] by simp_all
  have "read_cell b (write_cell a c h) = Some c'"
    using Cons.prems(1) far by (intro read_write_apart) (simp_all add: c)
  moreover have "cell_size (cs ! i) = n \<and> apart (a + of_nat n + of_nat (i * n)) n b (cell_size c')"
    if "i < length cs" for i
    using Cons.prems(2) [of "Suc i"] that by (simp add: algebra_simps)
  ultimately show ?case using Cons.IH [of "write_cell a c h" "a + of_nat n"] by (simp add: c)
qed

lemma read_write_cells:
  assumes "\<And>c. c \<in> set cs \<Longrightarrow> cell_size c = n" and "i < length cs" and "length cs * n < 2 ^ 64"
  shows "read_cell (a + of_nat (i * n)) (write_cells a cs h) = Some (cs ! i)"
  using assms
proof (induction cs arbitrary: a h i)
  case Nil
  then show ?case by simp
next
  case (Cons c cs)
  have c: "cell_size c = n" using Cons.prems(1) by simp
  show ?case
  proof (cases i)
    case 0
    have "apart (a + of_nat n + of_nat (j * n)) n a (cell_size c)" if j: "j < length cs" for j
      unfolding apart_def
    proof (intro allI notI, elim conjE)
      fix x assume "unat (x - (a + of_nat n + of_nat (j * n))) < n" and low: "unat (x - a) < cell_size c"
      then have "unat (x - a - of_nat (Suc j * n)) < n" by (simp add: algebra_simps)
      moreover have room: "Suc j * n + n \<le> length (c # cs) * n"
        using j by (metis Suc_leI add_mult_distrib2 length_Cons mult.commute mult_Suc mult_le_mono1 not_less_eq add.commute)
      then have fit: "Suc j * n + n \<le> 2 ^ 64" using Cons.prems(3) by linarith
      then have "unat (of_nat (Suc j * n) :: address) = Suc j * n"
        using cell_size_bounds(1) [of c] c by (intro unat_of_nat_u64) linarith
      ultimately have "Suc j * n \<le> unat (x - a)"
        using unat_sub_range(1) [of "x - a" "of_nat (Suc j * n)" n] fit by simp
      then show False using low c by simp
    qed
    then have "read_cell a (write_cells (a + of_nat n) cs (write_cell a c h)) = Some c"
      using Cons.prems(1) by (intro read_write_cells_apart [where n = n]) simp_all
    then show ?thesis using 0 by (simp add: c)
  next
    case (Suc j)
    have "read_cell (a + of_nat n + of_nat (j * n)) (write_cells (a + of_nat n) cs (write_cell a c h)) =
        Some (cs ! j)"
      using Cons.prems Suc by (intro Cons.IH) auto
    then show ?thesis using Suc by (simp add: c algebra_simps)
  qed
qed

lemma slot_count_lt: "slot_count offs s < 2 ^ 32"
  by (cases s) (simp_all add: unat_lt_u32 [simplified])

lemma same_kind:
  assumes "slot_kind s = slot_kind s'"
  shows "slot_count offs s = slot_count offs s'" and "slot_size offs s = slot_size offs s'"
    and "cell_fits s c = cell_fits s' c"
  using assms by (cases s; cases s'; cases c; simp)+

text \<open>\<open>mk\<close> names the slots of one array.\<close>

definition array_mk :: "(u32 \<Rightarrow> slot) \<Rightarrow> bool" where
  "array_mk mk \<longleftrightarrow> (\<forall>i. slot_index (mk i) = i \<and> slot_kind (mk i) = slot_kind (mk 0))"

lemma array_address:
  fixes base :: address
  assumes ok: "context_ok offs" and mk: "array_mk mk" and i: "i < slot_count offs (mk 0)"
    and v: "unat v = boundaries offs ! slot_kind (mk 0)"
  obtains x where "slot_offset offs (mk (of_nat i)) = Some x"
    "base + ucast v + of_nat (i * slot_size offs (mk 0)) = base + ucast x"
proof -
  have fits: "layout_fits offs" using ok by (simp add: context_ok_def)
  have un: "unat (of_nat i :: u32) = i"
    using i slot_count_lt [of offs "mk 0"] by (intro unat_of_nat_u32) simp
  have k: "slot_index (mk j) = j" "slot_kind (mk j) = slot_kind (mk 0)" for j
    using mk by (simp_all add: array_mk_def)
  note same = same_kind [OF k(2)]
  obtain x where x: "slot_offset offs (mk (of_nat i)) = Some x"
      "unat x = boundaries offs ! slot_kind (mk 0) + i * slot_size offs (mk 0)"
    using slot_offset_exists [OF fits, of "mk (of_nat i)"] k un i same by metis
  have "ucast x = (of_nat (unat x) :: address)" by (metis unat_ucast_u32_u64 of_nat_unat ucast_id)
  also have "\<dots> = of_nat (unat v) + of_nat (i * slot_size offs (mk 0))" by (simp add: x(2) v)
  also have "of_nat (unat v) = (ucast v :: address)" by (metis unat_ucast_u32_u64 of_nat_unat ucast_id)
  finally have eq: "ucast x = ucast v + (of_nat (i * slot_size offs (mk 0)) :: address)" .
  have "base + ucast v + of_nat (i * slot_size offs (mk 0)) = base + ucast x"
    by (simp only: add.assoc eq)
  with x(1) show ?thesis by (rule that)
qed

text \<open>An array of structs written at the beginning of its array fills the slots it covers and
  leaves the slots of other arrays and of other contexts alone.\<close>

lemma write_array_same:
  assumes ok: "context_ok offs" and mk: "array_mk mk" and len: "length cs \<le> slot_count offs (mk 0)"
    and v: "unat v = boundaries offs ! slot_kind (mk 0)" and fits: "\<forall>c \<in> set cs. cell_fits (mk 0) c"
    and i: "i < length cs"
  shows "cell_at (write_cells (base + ucast v) cs h) base offs (mk (of_nat i)) = Some (cs ! i)"
proof -
  let ?n = "slot_size offs (mk 0)"
  have sz: "cell_size c = ?n" if "c \<in> set cs" for c using that fits cell_size_slot [OF ok] by blast
  have "i < slot_count offs (mk 0)" using i len by simp
  then obtain x where x: "slot_offset offs (mk (of_nat i)) = Some x"
    "base + ucast v + of_nat (i * ?n) = base + ucast x"
    using array_address [OF ok mk _ v] by metis
  have "?n \<le> 16" using sz [of "cs ! i"] cell_size_bounds(2) [of "cs ! i"] i by simp
  then have "length cs * ?n \<le> slot_count offs (mk 0) * 16" using len by (rule mult_le_mono [rotated])
  then have "length cs * ?n < 2 ^ 64" using slot_count_lt [of offs "mk 0"] by simp
  then have "read_cell (base + ucast x) (write_cells (base + ucast v) cs h) = Some (cs ! i)"
    using read_write_cells [OF sz i] x(2) by metis
  then show ?thesis using x(1) by (simp add: cell_at_def)
qed

lemma write_array_frame:
  assumes ok: "context_ok offs" and mk: "array_mk mk" and len: "length cs \<le> slot_count offs (mk 0)"
    and v: "unat v = boundaries offs ! slot_kind (mk 0)" and fits: "\<forall>c \<in> set cs. cell_fits (mk 0) c"
    and old: "read_cell b h = Some c'"
    and far: "\<And>s x. slot_kind s = slot_kind (mk 0) \<Longrightarrow> slot_offset offs s = Some x \<Longrightarrow>
      apart (base + ucast x) (slot_size offs s) b (cell_size c')"
  shows "read_cell b (write_cells (base + ucast v) cs h) = Some c'"
proof (rule read_write_cells_apart [where n = "slot_size offs (mk 0)", OF old], intro conjI)
  fix i assume i: "i < length cs"
  then show "cell_size (cs ! i) = slot_size offs (mk 0)" using fits cell_size_slot [OF ok] by simp
  have "i < slot_count offs (mk 0)" using i len by simp
  then obtain x where x: "slot_offset offs (mk (of_nat i)) = Some x"
    "base + ucast v + of_nat (i * slot_size offs (mk 0)) = base + ucast x"
    using array_address [OF ok mk _ v] by metis
  have k: "slot_kind (mk (of_nat i)) = slot_kind (mk 0)" using mk by (simp add: array_mk_def)
  show "apart (base + ucast v + of_nat (i * slot_size offs (mk 0))) (slot_size offs (mk 0)) b (cell_size c')"
    using far [OF k x(1)] unfolding same_kind(2) [OF k] x(2) .
qed

lemma write_array_other:
  assumes "context_ok offs" "array_mk mk" "length cs \<le> slot_count offs (mk 0)"
    "unat v = boundaries offs ! slot_kind (mk 0)" "\<forall>c \<in> set cs. cell_fits (mk 0) c"
    and old: "cell_at h base offs s' = Some c'" and fits: "cell_fits s' c'"
    and ne: "slot_kind s' \<noteq> slot_kind (mk 0)"
  shows "cell_at (write_cells (base + ucast v) cs h) base offs s' = Some c'"
proof -
  from old obtain y where y: "slot_offset offs s' = Some y" "read_cell (base + ucast y) h = Some c'"
    by (auto simp: cell_at_def split: option.splits)
  have lf: "layout_fits offs" using assms(1) by (simp add: context_ok_def)
  have "read_cell (base + ucast y) (write_cells (base + ucast v) cs h) = Some c'"
  proof (rule write_array_frame [OF assms(1-5) y(2)])
    fix s x assume k: "slot_kind s = slot_kind (mk 0)" and x: "slot_offset offs s = Some x"
    have "slot_size offs s < 2 ^ 32" "slot_size offs s' < 2 ^ 32"
      using slot_in_context [OF lf x] slot_in_context [OF lf y(1)] lf by (simp_all add: layout_fits_def)
    moreover have "s \<noteq> s'" using k ne by auto
    ultimately show "apart (base + ucast x) (slot_size offs s) (base + ucast y) (cell_size c')"
      using slot_ranges_disjoint [OF lf _ x y(1)] cell_size_slot [OF assms(1) fits]
      by (intro apart_offsets) simp_all
  qed
  then show ?thesis using y(1) by (simp add: cell_at_def)
qed

lemma write_array_foreign:
  assumes "context_ok offs" "array_mk mk" "length cs \<le> slot_count offs (mk 0)"
    "unat v = boundaries offs ! slot_kind (mk 0)" "\<forall>c \<in> set cs. cell_fits (mk 0) c"
    and old: "cell_at h base' offs' s' = Some c'" and fits: "cell_fits s' c'"
    and ok: "context_ok offs'" and far: "apart base (lay_size offs) base' (lay_size offs')"
  shows "cell_at (write_cells (base + ucast v) cs h) base' offs' s' = Some c'"
proof -
  from old obtain y where y: "slot_offset offs' s' = Some y" "read_cell (base' + ucast y) h = Some c'"
    by (auto simp: cell_at_def split: option.splits)
  have lf: "layout_fits offs" "layout_fits offs'" using assms(1) ok by (simp_all add: context_ok_def)
  have "read_cell (base' + ucast y) (write_cells (base + ucast v) cs h) = Some c'"
  proof (rule write_array_frame [OF assms(1-5) y(2)])
    fix s x assume x: "slot_offset offs s = Some x"
    show "apart (base + ucast x) (slot_size offs s) (base' + ucast y) (cell_size c')"
      using apart_regions [OF far slot_in_context [OF lf(1) x]] slot_in_context [OF lf(2) y(1)]
        cell_size_slot [OF ok fits] lf by (simp add: layout_fits_def)
  qed
  then show ?thesis using y(1) by (simp add: cell_at_def)
qed

section \<open>Bytes of globals\<close>

lemma bit_from_le:
  "bit (from_le bs :: 'a::len word) n \<longleftrightarrow>
   n < LENGTH('a) \<and> n div 8 < length bs \<and> bit (bs ! (n div 8)) (n mod 8)"
proof (induction bs arbitrary: n)
  case Nil
  then show ?case by simp
next
  case (Cons b bs)
  show ?case
  proof (cases "n < 8")
    case True
    then show ?thesis by (auto simp: bit_or_iff bit_push_bit_iff bit_ucast_iff)
  next
    case False
    then have "n div 8 = Suc ((n - 8) div 8)" "n mod 8 = (n - 8) mod 8"
      by (simp_all add: le_div_geq le_mod_geq)
    moreover have "\<not> bit b n" using False bit_imp_le_length [of b n] by auto
    ultimately show ?thesis
      using False by (auto simp: bit_or_iff bit_push_bit_iff bit_ucast_iff Cons.IH)
  qed
qed

lemma from_to_le:
  assumes "LENGTH('a) \<le> 8 * n"
  shows "from_le (to_le n w) = (w :: 'a::len word)"
proof (rule bit_word_eqI)
  fix k assume k: "k < LENGTH('a)"
  then have "k div 8 < n" using assms by (simp add: less_mult_imp_div_less)
  then show "bit (from_le (to_le n w) :: 'a word) k = bit w k"
    using k by (simp add: bit_from_le to_le_def bit_ucast_iff bit_drop_bit_eq)
qed

lemma length_to_le [simp]: "length (to_le n w) = n"
  by (simp add: to_le_def)

lemma write_lengths [simp]:
  "length g = 16 \<Longrightarrow> length (write_i32 g x) = 16"
  "length g = 16 \<Longrightarrow> length (write_i64 g y) = 16"
  "length g = 16 \<Longrightarrow> length (write_f32_bits g x) = 16"
  "length g = 16 \<Longrightarrow> length (write_f64_bits g y) = 16"
  "length g = 16 \<Longrightarrow> length bytes = 16 \<Longrightarrow> length (write_u128_bits g bytes) = 16"
  by (simp_all add: write_i32_def write_i64_def write_f32_bits_def write_f64_bits_def
      write_u128_bits_def)

lemma write_read:
  "as_u32 (write_i32 g x) = x"
  "as_u32 (write_f32_bits g x) = x"
  "as_u64 (write_i64 g y) = y"
  "as_u64 (write_f64_bits g y) = y"
  by (simp_all add: as_u32_def as_u64_def write_i32_def write_i64_def write_f32_bits_def
      write_f64_bits_def overwrite_def from_to_le)

end
