(* ===== verification/Registries.thy ===== *)
theory Registries
  imports Runtime_Table
begin

text \<open>
  The two process-wide registries of the runtime: \<^verbatim>\<open>SignatureRegistry\<close>
  (\<^verbatim>\<open>wasmtime-runtime/src/sig_registry.rs\<close>), which gives every function signature one index that
  call sites compare, and \<^verbatim>\<open>TrapRegistry\<close> (\<^verbatim>\<open>trap_registry.rs\<close>), which describes the traps of
  the code that is loaded, behind a lock that a panic poisons.
\<close>

section \<open>Signatures\<close>

text \<open>The hash map: entries with distinct keys, whose order is never observed.\<close>

record signature_registry =
  signature_hash :: "(ir_signature \<times> u32) list"

definition signature_registry_new :: signature_registry where
  "signature_registry_new = \<lparr>signature_hash = []\<rparr>"

definition register :: "ir_signature \<Rightarrow> signature_registry \<Rightarrow> (u32 \<times> signature_registry) res" where
  "register sig reg =
     (let len = length (signature_hash reg) in
      case map_of (signature_hash reg) sig of
        Some i \<Rightarrow> Inr (i, reg)
      | None \<Rightarrow>
          (if len < 2 ^ 32
           then (let sig_id = of_nat len
                 in Inr (sig_id, reg\<lparr>signature_hash := (sig, sig_id) # signature_hash reg\<rparr>))
           else Inl (Panic ''try_from'')))"

text \<open>Registering the keys of a list one after the other.\<close>

fun intern_all :: "('k \<Rightarrow> 'r \<Rightarrow> (u32 \<times> 'r) res) \<Rightarrow> 'k list \<Rightarrow> 'r \<Rightarrow> (u32 list \<times> 'r) res" where
  "intern_all intern [] r = Inr ([], r)"
| "intern_all intern (k # ks) r =
     bind_res (intern k r) (\<lambda>(i, r1).
     bind_res (intern_all intern ks r1) (\<lambda>(is, r2). Inr (i # is, r2)))"

text \<open>\<^verbatim>\<open>module.signatures.values().map(|sig| signature_registry.register(sig)).collect()\<close>:
  the vector of shared signature indices that the instance of a module is created with.\<close>

definition register_all :: "ir_signature list \<Rightarrow> signature_registry \<Rightarrow> (u32 list \<times> signature_registry) res" where
  "register_all = intern_all register"

text \<open>
  The interface a client sees: \<open>find r k\<close> is the index \<open>k\<close> has. A registration gives an index to
  its key, never changes one, and gives no index to two keys.
\<close>

locale interner =
  fixes inv :: "'r \<Rightarrow> bool"
    and find :: "'r \<Rightarrow> 'k \<Rightarrow> u32 option"
    and room :: "'r \<Rightarrow> nat"
    and intern :: "'k \<Rightarrow> 'r \<Rightarrow> (u32 \<times> 'r) res"
  assumes total: "inv r \<Longrightarrow> 0 < room r \<Longrightarrow> \<exists>i r'. intern k r = Inr (i, r')"
    and keeps: "inv r \<Longrightarrow> intern k r = Inr (i, r') \<Longrightarrow> inv r' \<and> room r \<le> Suc (room r')"
    and finds: "inv r \<Longrightarrow> intern k r = Inr (i, r') \<Longrightarrow>
      find r' = (find r)(k \<mapsto> i) \<and> (find r k = None \<or> find r k = Some i)"
    and injective: "inv r \<Longrightarrow> find r k = Some i \<Longrightarrow> find r k' = Some i \<Longrightarrow> k = k'"
begin

lemma finds_mono:
  assumes "inv r" "intern k r = Inr (i, r')"
  shows "find r \<subseteq>\<^sub>m find r'"
  using finds [OF assms] by (auto simp: map_le_def)

lemma intern_all_spec:
  assumes "inv r" and "length ks \<le> room r"
  shows "\<exists>is r'. intern_all intern ks r = Inr (is, r') \<and> inv r' \<and> room r \<le> length ks + room r' \<and>
    find r \<subseteq>\<^sub>m find r' \<and> length is = length ks \<and>
    (\<forall>j < length ks. find r' (ks ! j) = Some (is ! j))"
  using assms
proof (induction ks arbitrary: r)
  case Nil
  then show ?case by simp
next
  case (Cons k ks)
  then have room: "0 < room r" by simp
  obtain i r1 where step: "intern k r = Inr (i, r1)" using total [OF Cons.prems(1) room] by blast
  from keeps [OF Cons.prems(1) step] have r1: "inv r1" "room r \<le> Suc (room r1)" by auto
  have "length ks \<le> room r1" using Cons.prems(2) r1(2) by simp
  then obtain is' r2 where rest: "intern_all intern ks r1 = Inr (is', r2)" "inv r2"
      "room r1 \<le> length ks + room r2" "find r1 \<subseteq>\<^sub>m find r2" "length is' = length ks"
      "\<forall>j < length ks. find r2 (ks ! j) = Some (is' ! j)"
    using Cons.IH [OF r1(1)] by blast
  have le: "find r \<subseteq>\<^sub>m find r2"
    by (rule map_le_trans [OF finds_mono [OF Cons.prems(1) step] rest(4)])
  have "find r1 k = Some i" using finds [OF Cons.prems(1) step] by simp
  then have "find r2 k = Some i" using rest(4) by (auto simp: map_le_def dom_def)
  then have "\<forall>j < length (k # ks). find r2 ((k # ks) ! j) = Some ((i # is') ! j)"
    using rest(6) by (auto simp: less_Suc_eq_0_disj)
  then show ?case using step rest r1 le by auto
qed

text \<open>The contract of a call site: indices handed out at any time agree exactly when the keys do.\<close>

lemma indices_agree:
  assumes "inv r" and "intern_all intern ks r = Inr (is, r1)" and "intern_all intern ks' r1 = Inr (is', r2)"
    and "length ks + length ks' \<le> room r" and "j < length ks" and "j' < length ks'"
  shows "is ! j = is' ! j' \<longleftrightarrow> ks ! j = ks' ! j'"
proof -
  have "length ks \<le> room r" using assms(4) by simp
  then have one: "inv r1" "room r \<le> length ks + room r1" "find r1 (ks ! j) = Some (is ! j)"
    using intern_all_spec [OF assms(1)] assms(2,5) by fastforce+
  then have "length ks' \<le> room r1" using assms(4) by simp
  then have two: "inv r2" "find r1 \<subseteq>\<^sub>m find r2" "find r2 (ks' ! j') = Some (is' ! j')"
    using intern_all_spec [OF one(1)] assms(3,6) by fastforce+
  have "find r2 (ks ! j) = Some (is ! j)"
    using one(3) two(2) by (metis domI map_le_def)
  then show ?thesis using two(1,3) injective by (metis option.inject)
qed

end

text \<open>The invariant: distinct keys, and the indices are the numbers below the length.\<close>

definition registry_inv :: "signature_registry \<Rightarrow> bool" where
  "registry_inv reg \<longleftrightarrow>
     distinct (map fst (signature_hash reg)) \<and>
     map (unat \<circ> snd) (signature_hash reg) = rev [0..<length (signature_hash reg)]"

abbreviation registry_room :: "signature_registry \<Rightarrow> nat" where
  "registry_room reg \<equiv> 2 ^ 32 - length (signature_hash reg)"

lemma registry_inv_snd:
  assumes "registry_inv reg"
  shows "distinct (map snd (signature_hash reg))"
    and "(s, i) \<in> set (signature_hash reg) \<Longrightarrow> unat i < length (signature_hash reg)"
proof -
  have eq: "map unat (map snd (signature_hash reg)) = rev [0..<length (signature_hash reg)]"
    using assms by (simp add: registry_inv_def)
  then have "distinct (map unat (map snd (signature_hash reg)))" by simp
  then show "distinct (map snd (signature_hash reg))" by (simp only: distinct_map)
  have "unat ` snd ` set (signature_hash reg) = {0..<length (signature_hash reg)}"
    using arg_cong [OF eq, of set] by (simp add: image_image)
  then show "(s, i) \<in> set (signature_hash reg) \<Longrightarrow> unat i < length (signature_hash reg)"
    by force
qed

lemma registry_index_bound:
  "registry_inv reg \<Longrightarrow> map_of (signature_hash reg) s = Some i \<Longrightarrow> unat i < length (signature_hash reg)"
  using registry_inv_snd(2) map_of_SomeD by metis

lemma unat_default_signature_index: "unat default_signature_index = 2 ^ 32 - 1"
  by (simp add: default_signature_index_def unsigned_minus_1_eq_mask mask_eq_exp_minus_1)

lemma map_of_snd_inject:
  assumes "distinct (map snd xs)" "map_of xs a = Some i" "map_of xs b = Some i"
  shows "a = b"
  using map_of_SomeD [OF assms(2)] map_of_SomeD [OF assms(3)] assms(1)
  by (fastforce simp: distinct_map inj_on_def)

lemma register_keeps:
  assumes inv: "registry_inv reg" and step: "register sig reg = Inr (i, reg')"
  shows "registry_inv reg' \<and> registry_room reg \<le> Suc (registry_room reg')"
proof (cases "map_of (signature_hash reg) sig")
  case (Some j)
  then show ?thesis using step inv by (simp add: register_def Let_def)
next
  case None
  then have len: "length (signature_hash reg) < 2 ^ 32"
    and reg': "reg' = reg\<lparr>signature_hash := (sig, of_nat (length (signature_hash reg))) # signature_hash reg\<rparr>"
    using step by (auto simp: register_def Let_def split: if_splits)
  have "unat (of_nat (length (signature_hash reg)) :: u32) = length (signature_hash reg)"
    using len by (intro unat_of_nat_u32) simp
  then show ?thesis
    using inv None len by (auto simp: registry_inv_def reg' map_of_eq_None_iff)
qed

interpretation signatures: interner registry_inv "\<lambda>reg. map_of (signature_hash reg)"
  registry_room register
proof
  fix reg sig i reg' k k'
  assume inv: "registry_inv reg"
  show "\<exists>i reg'. register sig reg = Inr (i, reg')" if "0 < registry_room reg"
    using that by (auto simp: register_def Let_def split: option.split)
  show "registry_inv reg' \<and> registry_room reg \<le> Suc (registry_room reg')"
    if "register sig reg = Inr (i, reg')"
    by (rule register_keeps [OF inv that])
  show "map_of (signature_hash reg') = (map_of (signature_hash reg))(sig \<mapsto> i) \<and>
      (map_of (signature_hash reg) sig = None \<or> map_of (signature_hash reg) sig = Some i)"
    if "register sig reg = Inr (i, reg')"
    using that by (auto simp: register_def Let_def split: option.splits if_splits)
  show "k = k'" if "map_of (signature_hash reg) k = Some i" "map_of (signature_hash reg) k' = Some i"
    by (rule map_of_snd_inject [OF registry_inv_snd(1) [OF inv] that])
qed

lemma registry_inv_new: "registry_inv signature_registry_new"
  by (simp add: registry_inv_def signature_registry_new_def)

section \<open>Traps\<close>

type_synonym source_loc = u32
type_synonym trap_code = u8

record trap_description =
  td_source_loc :: source_loc
  td_trap_code :: trap_code

record trap_registry =
  traps :: "usize \<rightharpoonup> trap_description"

text \<open>Operations return the guard or the panic, and the registry as they leave it.\<close>

definition register_trap ::
  "usize \<Rightarrow> source_loc \<Rightarrow> trap_code \<Rightarrow> trap_registry \<Rightarrow> usize res \<times> trap_registry" where
  "register_trap address loc code reg =
     (let entry = \<lparr>td_source_loc = loc, td_trap_code = code\<rparr>;
          previous_trap = traps reg address;
          reg' = reg\<lparr>traps := (traps reg)(address \<mapsto> entry)\<rparr>
      in (bind_res (assert_res (previous_trap = None) ''previous_trap.is_none()'') (\<lambda>_. Inr address), reg'))"

definition deregister_trap :: "usize \<Rightarrow> trap_registry \<Rightarrow> unit res \<times> trap_registry" where
  "deregister_trap address reg =
     (assert_res (traps reg address \<noteq> None) ''remove(&address).is_some()'',
      reg\<lparr>traps := (traps reg)(address := None)\<rparr>)"

definition get_trap :: "usize \<Rightarrow> trap_registry \<Rightarrow> trap_description option" where
  "get_trap address reg = traps reg address"

text \<open>The global: a read-write lock, which a panic during a write poisons.\<close>

record registry_lock =
  poisoned :: bool
  registry :: trap_registry

definition registry_default :: registry_lock where
  "registry_default = \<lparr>poisoned = False, registry = \<lparr>traps = Map.empty\<rparr>\<rparr>"

definition get_mut_trap_registry ::
  "(trap_registry \<Rightarrow> 'a res \<times> trap_registry) \<Rightarrow> registry_lock \<Rightarrow> 'a res \<times> registry_lock" where
  "get_mut_trap_registry body l =
     (if poisoned l then (Inl (Panic ''trap registry lock got poisoned''), l)
      else (case body (registry l) of (r, reg') \<Rightarrow>
        (r, \<lparr>poisoned = (case r of Inl _ \<Rightarrow> True | Inr _ \<Rightarrow> False), registry = reg'\<rparr>)))"

definition get_trap_registry :: "(trap_registry \<Rightarrow> 'a) \<Rightarrow> registry_lock \<Rightarrow> 'a res" where
  "get_trap_registry body l =
     (if poisoned l then Inl (Panic ''trap registry lock got poisoned'') else Inr (body (registry l)))"

text \<open>\<^verbatim>\<open>Drop for TrapRegistrationGuard\<close>.\<close>

definition drop_guard :: "usize \<Rightarrow> registry_lock \<Rightarrow> unit res \<times> registry_lock" where
  "drop_guard address = get_mut_trap_registry (deregister_trap address)"

text \<open>
  The life of the registry: code registers traps at addresses that no live guard has, and drops
  guards it holds. \<open>live\<close> is what the holders of guards have registered.
\<close>

inductive trap_run :: "registry_lock \<Rightarrow> (usize \<rightharpoonup> trap_description) \<Rightarrow> bool" where
  start: "trap_run registry_default Map.empty"
| add: "trap_run l live \<Longrightarrow> live a = None \<Longrightarrow>
    trap_run (snd (get_mut_trap_registry (register_trap a loc code) l))
      (live(a \<mapsto> \<lparr>td_source_loc = loc, td_trap_code = code\<rparr>))"
| drop: "trap_run l live \<Longrightarrow> live a \<noteq> None \<Longrightarrow>
    trap_run (snd (drop_guard a l)) (live(a := None))"

lemmas trap_defs = register_trap_def deregister_trap_def get_mut_trap_registry_def drop_guard_def
  get_trap_registry_def get_trap_def assert_res_def Let_def

lemma trap_run_inv: "trap_run l live \<Longrightarrow> \<not> poisoned l \<and> traps (registry l) = live"
  by (induction rule: trap_run.induct) (auto simp: trap_defs registry_default_def)

section \<open>Properties\<close>

text \<open>C21. The signature check of an indirect call compares indices instead of signatures, and that
  is enough: of the indices two modules got from the shared registry, two are equal exactly when
  the signatures are. No index is the reserved one of a null table element, as long as fewer than
  \<open>2^32 - 1\<close> signatures are registered.\<close>

theorem signature_indices_sound:
  assumes "registry_inv reg"
    and "length (signature_hash reg) + length sigs + length sigs' < 2 ^ 32 - 1"
  shows "\<exists>is reg1 is' reg2. register_all sigs reg = Inr (is, reg1) \<and>
    register_all sigs' reg1 = Inr (is', reg2) \<and> registry_inv reg2 \<and>
    (\<forall>j < length sigs. is ! j \<noteq> default_signature_index) \<and>
    (\<forall>j < length sigs. \<forall>k < length sigs'. (is ! j = is' ! k) = (sigs ! j = sigs' ! k))"
proof -
  have room: "length sigs + length sigs' \<le> registry_room reg" using assms(2) by simp
  then have "length sigs \<le> registry_room reg" by simp
  then obtain "is" reg1 where one: "register_all sigs reg = Inr (is, reg1)" "registry_inv reg1"
      "registry_room reg \<le> length sigs + registry_room reg1"
      "\<forall>j < length sigs. map_of (signature_hash reg1) (sigs ! j) = Some (is ! j)"
    unfolding register_all_def using signatures.intern_all_spec [OF assms(1)] by blast
  have "length sigs' \<le> registry_room reg1" using room one(3) by simp
  then obtain is' reg2 where two: "register_all sigs' reg1 = Inr (is', reg2)" "registry_inv reg2"
    unfolding register_all_def using signatures.intern_all_spec [OF one(2)] by blast
  have "is ! j \<noteq> default_signature_index" if "j < length sigs" for j
    using registry_index_bound [OF one(2), of "sigs ! j" "is ! j"] one(3,4) that assms(2)
      unat_default_signature_index by auto
  moreover have "(is ! j = is' ! k) = (sigs ! j = sigs' ! k)" if "j < length sigs" "k < length sigs'" for j k
    using signatures.indices_agree [OF assms(1) _ _ room that] one(1) two(1)
    unfolding register_all_def by blast
  ultimately show ?thesis using one(1) two by blast
qed

definition example_sig :: "nat \<Rightarrow> ir_signature" where
  "example_sig n = \<lparr>sig_params = [], sig_returns = [], call_conv = n\<rparr>"

theorem signature_indices_sound_witness:
  "\<exists>is reg1 is' reg2. register_all [example_sig 0, example_sig 1] signature_registry_new = Inr (is, reg1) \<and>
     register_all [example_sig 1] reg1 = Inr (is', reg2) \<and> is ! 1 = is' ! 0 \<and> is ! 0 \<noteq> is' ! 0"
  using signature_indices_sound [OF registry_inv_new, of "[example_sig 0, example_sig 1]" "[example_sig 1]"]
  by (fastforce simp: signature_registry_new_def example_sig_def)

text \<open>The trap registry describes exactly the traps whose guards are alive: along any run in which
  traps are registered at addresses without a live guard and guards are dropped by their holders,
  the lock is never poisoned, a lookup returns what the live guard registered, and registering at
  a free address and dropping a live guard succeed.\<close>

theorem trap_registry_faithful:
  assumes "trap_run l live"
  shows "get_trap_registry (get_trap a) l = Inr (live a) \<and>
    (live a = None \<longrightarrow> fst (get_mut_trap_registry (register_trap a loc code) l) = Inr a) \<and>
    (live a \<noteq> None \<longrightarrow> fst (drop_guard a l) = Inr ())"
  using trap_run_inv [OF assms] by (auto simp: trap_defs)

theorem trap_registry_faithful_witness:
  "get_trap_registry (get_trap 16)
     (snd (get_mut_trap_registry (register_trap 16 1 2) registry_default)) =
   Inr (Some \<lparr>td_source_loc = 1, td_trap_code = 2\<rparr>)"
  using trap_registry_faithful [OF trap_run.add [OF trap_run.start, of 16 1 2], of 16] by simp

text \<open>A second registration at an address with a live guard panics, overwrites the description
  and poisons the lock: from then on every lookup, registration and drop of a guard panics.\<close>

theorem double_registration_poisons:
  assumes "trap_run l live" and "live a \<noteq> None"
    and "get_mut_trap_registry (register_trap a loc code) l = (r, l')"
  shows "r = Inl (Panic ''previous_trap.is_none()'') \<and>
    get_trap_registry (get_trap b) l' = Inl (Panic ''trap registry lock got poisoned'') \<and>
    drop_guard b l' = (Inl (Panic ''trap registry lock got poisoned''), l') \<and>
    get_mut_trap_registry (register_trap b loc' code') l' =
      (Inl (Panic ''trap registry lock got poisoned''), l')"
  using trap_run_inv [OF assms(1)] assms(2,3) by (auto simp: trap_defs)

theorem double_registration_poisons_witness:
  "let l = snd (get_mut_trap_registry (register_trap 16 1 2) registry_default);
       l' = snd (get_mut_trap_registry (register_trap 16 3 4) l)
   in drop_guard 16 l' = (Inl (Panic ''trap registry lock got poisoned''), l')"
proof -
  let ?l = "snd (get_mut_trap_registry (register_trap 16 1 2) registry_default)"
  obtain r l' where "get_mut_trap_registry (register_trap 16 3 4) ?l = (r, l')" by fastforce
  then show ?thesis
    using double_registration_poisons [OF trap_run.add [OF trap_run.start, of 16 1 2], of 16 3 4 r l' 16]
    by (simp add: Let_def)
qed

end
