(* ===== verification/Instance.thy ===== *)
theory Instance
  imports VMContext Registries
begin

text \<open>
  Instances (\<^verbatim>\<open>wasmtime-runtime/src/instance.rs\<close>, with \<^verbatim>\<open>imports.rs\<close>, \<^verbatim>\<open>export.rs\<close> and the
  library calls of \<^verbatim>\<open>libcalls.rs\<close>): creation, initialization, growth of memories and tables that
  other instances import, exports and reference counts.

  The store holds the raw memory of all contexts, the instances by the address of their context
  (\<^verbatim>\<open>VMContext::instance\<close> goes from one to the other by a constant offset) and the global exports
  that the instances share. \<^verbatim>\<open>host_state\<close> and the debugger registration are not modelled: nothing
  here reads them. Compiled code is a parameter of the operation that calls it.
\<close>

section \<open>Data\<close>

datatype export_value =
    EFunction address address ir_signature
  | ETable address address table_plan
  | EMemory address address memory_plan
  | EGlobal address address global_desc

record resolved_imports =
  imp_dependencies :: "address list"
  imp_functions :: "vm_function_import list"
  imp_tables :: "vm_table_import list"
  imp_memories :: "vm_memory_import list"
  imp_globals :: "vm_global_import list"

definition imports_none :: resolved_imports where
  "imports_none =
     \<lparr>imp_dependencies = [], imp_functions = [], imp_tables = [], imp_memories = [], imp_globals = []\<rparr>"

record wasm_instance =
  in_refcount :: usize
  in_dependencies :: "address list"
  in_module :: wasm_module
  in_offsets :: vmoffsets
  in_memories :: "linear_memory list"
  in_tables :: "table list"
  in_finished_functions :: "address list"

record store =
  st_heap :: heap
  st_instances :: "address \<rightharpoonup> wasm_instance"
  st_global_exports :: "string \<rightharpoonup> export_value option"

datatype instantiation_error =
    Resource string
  | Link string
  | StartTrap string
  | Abort error

text \<open>\<^verbatim>\<open>map_err\<close> on the errors a callee returns; its panics go through.\<close>

definition map_err :: "(string \<Rightarrow> instantiation_error) \<Rightarrow> 'a res \<Rightarrow> instantiation_error + 'a" where
  "map_err f r = (case r of Inl (Err m) \<Rightarrow> Inl (f m) | Inl e \<Rightarrow> Inl (Abort e) | Inr x \<Rightarrow> Inr x)"

abbreviation aborts :: "'a res \<Rightarrow> instantiation_error + 'a" where
  "aborts r \<equiv> (case r of Inl e \<Rightarrow> Inl (Abort e) | Inr x \<Rightarrow> Inr x)"

definition instance_of :: "store \<Rightarrow> address \<Rightarrow> wasm_instance res" where
  "instance_of st vmctx =
     (case st_instances st vmctx of None \<Rightarrow> Inl Segfault | Some inst \<Rightarrow> Inr inst)"

section \<open>Exports\<close>

definition lookup_by_declaration ::
  "heap \<Rightarrow> wasm_module \<Rightarrow> address \<Rightarrow> vmoffsets \<Rightarrow> address list \<Rightarrow> export_decl \<Rightarrow> export_value res" where
  "lookup_by_declaration h m vmctx offs finished_functions export =
     (case export of
        ExportFunction index \<Rightarrow>
          bind_res (index_res (func_sigs m) index) (\<lambda>sig.
          bind_res (index_res (signatures m) sig) (\<lambda>signature.
          bind_res
            (case defined_func_index m index of
               Some def_index \<Rightarrow>
                 bind_res (index_res finished_functions def_index) (\<lambda>body. Inr (body, vmctx))
             | None \<Rightarrow>
                 bind_res (imported_function h vmctx offs index) (\<lambda>imp. Inr (fi_body imp, fi_vmctx imp)))
            (\<lambda>(addr, ctx). Inr (EFunction addr ctx signature))))
      | ExportTable index \<Rightarrow>
          bind_res
            (case defined_table_index m index of
               Some def_index \<Rightarrow> bind_res (table_mut vmctx offs def_index) (\<lambda>p. Inr (p, vmctx))
             | None \<Rightarrow>
                 bind_res (imported_table h vmctx offs index) (\<lambda>imp. Inr (ti_from imp, ti_vmctx imp)))
            (\<lambda>(definition, ctx).
          bind_res (index_res (table_plans m) index) (\<lambda>plan. Inr (ETable definition ctx plan)))
      | ExportMemory index \<Rightarrow>
          bind_res
            (case defined_memory_index m index of
               Some def_index \<Rightarrow> bind_res (memory_mut vmctx offs def_index) (\<lambda>p. Inr (p, vmctx))
             | None \<Rightarrow>
                 bind_res (imported_memory h vmctx offs index) (\<lambda>imp. Inr (mi_from imp, mi_vmctx imp)))
            (\<lambda>(definition, ctx).
          bind_res (index_res (memory_plans m) index) (\<lambda>plan. Inr (EMemory definition ctx plan)))
      | ExportGlobal index \<Rightarrow>
          bind_res
            (case defined_global_index m index of
               Some def_index \<Rightarrow> global_mut vmctx offs def_index
             | None \<Rightarrow> bind_res (imported_global h vmctx offs index) (\<lambda>imp. Inr (gi_from imp)))
            (\<lambda>definition.
          bind_res (index_res (globals m) index) (\<lambda>g. Inr (EGlobal definition vmctx g))))"

definition lookup :: "store \<Rightarrow> address \<Rightarrow> string \<Rightarrow> export_value option res" where
  "lookup st vmctx field =
     bind_res (instance_of st vmctx) (\<lambda>inst.
       case map_of (exports (in_module inst)) field of
         None \<Rightarrow> Inr None
       | Some export \<Rightarrow>
           bind_res (lookup_by_declaration (st_heap st) (in_module inst) vmctx (in_offsets inst)
                       (in_finished_functions inst) export) (\<lambda>v. Inr (Some v)))"

definition lookup_global_export :: "store \<Rightarrow> string \<Rightarrow> export_value option" where
  "lookup_global_export st field =
     (case st_global_exports st field of Some (Some export) \<Rightarrow> Some export | _ \<Rightarrow> None)"

section \<open>Pointers back to indices\<close>

text \<open>Pointer subtraction and division are on \<^verbatim>\<open>usize\<close>; an entity index keeps 32 bits.\<close>

definition inst_table_index :: "wasm_instance \<Rightarrow> address \<Rightarrow> address \<Rightarrow> nat res" where
  "inst_table_index inst vmctx table =
     bind_res (vm_add vmctx (vmctx_tables_begin (in_offsets inst))) (\<lambda>first.
       let index = unat (ucast ((table - first) div 16) :: u32) in
       bind_res (assert_res (index < length (in_tables inst)) ''index.index() < self.tables.len()'') (\<lambda>_.
       Inr index))"

definition inst_memory_index :: "wasm_instance \<Rightarrow> address \<Rightarrow> address \<Rightarrow> nat res" where
  "inst_memory_index inst vmctx memory =
     bind_res (vm_add vmctx (vmctx_memories_begin (in_offsets inst))) (\<lambda>first.
       let index = unat (ucast ((memory - first) div 16) :: u32) in
       bind_res (assert_res (index < length (in_memories inst)) ''index.index() < self.memories.len()'') (\<lambda>_.
       Inr index))"

section \<open>Growth\<close>

definition needs_signal_handlers :: "wasm_instance \<Rightarrow> bool" where
  "needs_signal_handlers inst \<longleftrightarrow> (\<exists>mem \<in> set (in_memories inst). lm_needs_signal_handlers mem)"

definition memory_grow :: "os \<Rightarrow> store \<Rightarrow> address \<Rightarrow> nat \<Rightarrow> u32 \<Rightarrow> (u32 option \<times> store) res" where
  "memory_grow os st vmctx index delta =
     bind_res (instance_of st vmctx) (\<lambda>inst.
     bind_res (unwrap_res (get (in_memories inst) index) ''no memory for index'') (\<lambda>mem.
     bind_res (linear_memory_grow os mem delta) (\<lambda>(result, mem').
     bind_res (memory_mut vmctx (in_offsets inst) index) (\<lambda>p.
     Inr (result,
          st\<lparr>st_instances := (st_instances st)(vmctx \<mapsto>
               inst\<lparr>in_memories := (in_memories inst)[index := mem']\<rparr>),
             st_heap := write_cell p (CMemory (vmmemory mem')) (st_heap st)\<rparr>)))))"

definition imported_memory_grow :: "os \<Rightarrow> store \<Rightarrow> address \<Rightarrow> nat \<Rightarrow> u32 \<Rightarrow> (u32 option \<times> store) res" where
  "imported_memory_grow os st vmctx index delta =
     bind_res (instance_of st vmctx) (\<lambda>inst.
     bind_res (imported_memory (st_heap st) vmctx (in_offsets inst) index) (\<lambda>imp.
     bind_res (instance_of st (mi_vmctx imp)) (\<lambda>foreign.
     bind_res (inst_memory_index foreign (mi_vmctx imp) (mi_from imp)) (\<lambda>foreign_index.
     memory_grow os st (mi_vmctx imp) foreign_index delta))))"

definition memory_size :: "store \<Rightarrow> address \<Rightarrow> nat \<Rightarrow> u32 res" where
  "memory_size st vmctx index =
     bind_res (instance_of st vmctx) (\<lambda>inst.
     bind_res (unwrap_res (get (in_memories inst) index) ''no memory for index'') (\<lambda>mem.
     Inr (linear_memory_size mem)))"

definition imported_memory_size :: "store \<Rightarrow> address \<Rightarrow> nat \<Rightarrow> u32 res" where
  "imported_memory_size st vmctx index =
     bind_res (instance_of st vmctx) (\<lambda>inst.
     bind_res (imported_memory (st_heap st) vmctx (in_offsets inst) index) (\<lambda>imp.
     bind_res (instance_of st (mi_vmctx imp)) (\<lambda>foreign.
     bind_res (inst_memory_index foreign (mi_vmctx imp) (mi_from imp)) (\<lambda>foreign_index.
     memory_size st (mi_vmctx imp) foreign_index))))"

definition inst_table_grow :: "alloc \<Rightarrow> store \<Rightarrow> address \<Rightarrow> nat \<Rightarrow> u32 \<Rightarrow> (u32 option \<times> store) res" where
  "inst_table_grow alloc st vmctx index delta =
     bind_res (instance_of st vmctx) (\<lambda>inst.
     bind_res (unwrap_res (get (in_tables inst) index) ''no table for index'') (\<lambda>tbl.
     bind_res (table_grow alloc tbl delta) (\<lambda>(result, tbl').
     bind_res (table_mut vmctx (in_offsets inst) index) (\<lambda>p.
     bind_res (vmtable tbl') (\<lambda>def.
     Inr (result,
          st\<lparr>st_instances := (st_instances st)(vmctx \<mapsto>
               inst\<lparr>in_tables := (in_tables inst)[index := tbl']\<rparr>),
             st_heap := write_cell p (CTable def) (st_heap st)\<rparr>))))))"

definition inst_table_get :: "store \<Rightarrow> address \<Rightarrow> nat \<Rightarrow> u32 \<Rightarrow> anyfunc option res" where
  "inst_table_get st vmctx tbl_index index =
     bind_res (instance_of st vmctx) (\<lambda>inst.
     bind_res (unwrap_res (get (in_tables inst) tbl_index) ''no table for index'') (\<lambda>tbl.
     Inr (table_get tbl index)))"

text \<open>A write through \<^verbatim>\<open>table_get_mut\<close>; the answer is whether there was a reference.\<close>

definition inst_table_set :: "store \<Rightarrow> address \<Rightarrow> nat \<Rightarrow> u32 \<Rightarrow> anyfunc \<Rightarrow> (bool \<times> store) res" where
  "inst_table_set st vmctx tbl_index index val =
     bind_res (instance_of st vmctx) (\<lambda>inst.
     bind_res (unwrap_res (get (in_tables inst) tbl_index) ''no table for index'') (\<lambda>tbl.
     case table_set tbl index val of
       None \<Rightarrow> Inr (False, st)
     | Some tbl' \<Rightarrow>
         Inr (True, st\<lparr>st_instances := (st_instances st)(vmctx \<mapsto>
                        inst\<lparr>in_tables := (in_tables inst)[tbl_index := tbl']\<rparr>)\<rparr>)))"

text \<open>The library calls that compiled code makes: a refusal is \<^verbatim>\<open>u32::max_value()\<close>.\<close>

definition wasmtime_memory32_grow :: "os \<Rightarrow> store \<Rightarrow> address \<Rightarrow> u32 \<Rightarrow> u32 \<Rightarrow> (u32 \<times> store) res" where
  "wasmtime_memory32_grow os st vmctx delta index =
     bind_res (memory_grow os st vmctx (unat index) delta) (\<lambda>(r, st').
     Inr (case r of Some n \<Rightarrow> n | None \<Rightarrow> - 1, st'))"

definition wasmtime_imported_memory32_grow :: "os \<Rightarrow> store \<Rightarrow> address \<Rightarrow> u32 \<Rightarrow> u32 \<Rightarrow> (u32 \<times> store) res" where
  "wasmtime_imported_memory32_grow os st vmctx delta index =
     bind_res (imported_memory_grow os st vmctx (unat index) delta) (\<lambda>(r, st').
     Inr (case r of Some n \<Rightarrow> n | None \<Rightarrow> - 1, st'))"

definition wasmtime_memory32_size :: "store \<Rightarrow> address \<Rightarrow> u32 \<Rightarrow> u32 res" where
  "wasmtime_memory32_size st vmctx index = memory_size st vmctx (unat index)"

definition wasmtime_imported_memory32_size :: "store \<Rightarrow> address \<Rightarrow> u32 \<Rightarrow> u32 res" where
  "wasmtime_imported_memory32_size st vmctx index = imported_memory_size st vmctx (unat index)"

section \<open>Invariant of the store\<close>

lemma vmoffsets_new_counts:
  assumes "vmoffsets_new sz m = Some offs"
  shows "pointer_size offs = sz"
    and "unat (num_signature_ids offs) = length (signatures m)"
    and "unat (num_imported_functions offs) = length (imported_funcs m)"
    and "unat (num_imported_tables offs) = length (imported_tables m)"
    and "unat (num_imported_memories offs) = length (imported_memories m)"
    and "unat (num_imported_globals offs) = length (imported_globals m)"
    and "unat (num_defined_tables offs) = length (table_plans m)"
    and "unat (num_defined_memories offs) = length (memory_plans m)"
    and "unat (num_defined_globals offs) = length (globals m)"
  using assms
  by (auto simp: vmoffsets_new_def cast_to_u32_def bind_eq_Some_conv unat_of_nat_u32 split: if_splits)

definition points_to_table :: "store \<Rightarrow> address \<Rightarrow> address \<Rightarrow> bool" where
  "points_to_table st b p \<longleftrightarrow>
     (\<exists>inst d. st_instances st b = Some inst \<and> d < length (in_tables inst) \<and>
        table_mut b (in_offsets inst) d = Inr p)"

definition points_to_memory :: "store \<Rightarrow> address \<Rightarrow> address \<Rightarrow> bool" where
  "points_to_memory st b p \<longleftrightarrow>
     (\<exists>inst d. st_instances st b = Some inst \<and> d < length (in_memories inst) \<and>
        memory_mut b (in_offsets inst) d = Inr p)"

abbreviation defined_globals :: "wasm_instance \<Rightarrow> nat" where
  "defined_globals inst \<equiv> length (globals (in_module inst)) - length (imported_globals (in_module inst))"

definition points_to_global :: "store \<Rightarrow> address \<Rightarrow> bool" where
  "points_to_global st p \<longleftrightarrow>
     (\<exists>b inst d. st_instances st b = Some inst \<and> d < defined_globals inst \<and>
        global_mut b (in_offsets inst) d = Inr p)"

text \<open>The slots of an instance's context that are in use, and what they must hold: imports point
  into contexts of the store, and the definitions are those of the instance's own objects.\<close>

fun used :: "wasm_instance \<Rightarrow> slot \<Rightarrow> nat" where
  "used inst (SigId _) = length (signatures (in_module inst))"
| "used inst (FuncImport _) = length (imported_funcs (in_module inst))"
| "used inst (TableImport _) = length (imported_tables (in_module inst))"
| "used inst (MemImport _) = length (imported_memories (in_module inst))"
| "used inst (GlobImport _) = length (imported_globals (in_module inst))"
| "used inst (TableDef _) = length (in_tables inst)"
| "used inst (MemDef _) = length (in_memories inst)"
| "used inst (GlobDef _) = defined_globals inst"
| "used inst (Builtin _) = 4"

fun slot_good :: "store \<Rightarrow> wasm_instance \<Rightarrow> slot \<Rightarrow> cell \<Rightarrow> bool" where
  "slot_good st inst (SigId _) (CSig _) = True"
| "slot_good st inst (FuncImport _) (CFuncImport _) = True"
| "slot_good st inst (TableImport _) (CTableImport imp) = points_to_table st (ti_vmctx imp) (ti_from imp)"
| "slot_good st inst (MemImport _) (CMemoryImport imp) = points_to_memory st (mi_vmctx imp) (mi_from imp)"
| "slot_good st inst (GlobImport _) (CGlobalImport imp) = points_to_global st (gi_from imp)"
| "slot_good st inst (TableDef i) (CTable def) = (vmtable (in_tables inst ! unat i) = Inr def)"
| "slot_good st inst (MemDef i) (CMemory def) = (def = vmmemory (in_memories inst ! unat i))"
| "slot_good st inst (GlobDef _) (CGlobal g) = (length g = 16)"
| "slot_good st inst (Builtin _) (CBuiltin _) = True"
| "slot_good st inst _ _ = False"

definition inst_shape :: "wasm_instance \<Rightarrow> bool" where
  "inst_shape inst \<longleftrightarrow>
     (let m = in_module inst in
      vmoffsets_new 8 m = Some (in_offsets inst) \<and> context_ok (in_offsets inst) \<and>
      length (in_tables inst) + length (imported_tables m) = length (table_plans m) \<and>
      length (in_memories inst) + length (imported_memories m) = length (memory_plans m) \<and>
      length (imported_globals m) \<le> length (globals m) \<and>
      length (in_finished_functions inst) + length (imported_funcs m) = length (func_sigs m) \<and>
      (\<forall>mem \<in> set (in_memories inst). lm_inv mem) \<and> (\<forall>t \<in> set (in_tables inst). table_inv t))"

definition context_good :: "store \<Rightarrow> address \<Rightarrow> wasm_instance \<Rightarrow> bool" where
  "context_good st a inst \<longleftrightarrow>
     (\<forall>s. unat (slot_index s) < used inst s \<longrightarrow>
        (\<exists>c. cell_at (st_heap st) a (in_offsets inst) s = Some c \<and> slot_good st inst s c))"

definition store_inv :: "store \<Rightarrow> bool" where
  "store_inv st \<longleftrightarrow>
     (\<forall>a inst. st_instances st a = Some inst \<longrightarrow> inst_shape inst \<and> context_good st a inst) \<and>
     (\<forall>a b inst inst'. st_instances st a = Some inst \<and> st_instances st b = Some inst' \<and> a \<noteq> b \<longrightarrow>
        apart a (lay_size (in_offsets inst)) b (lay_size (in_offsets inst')))"

lemma slot_good_fits: "slot_good st inst s c \<Longrightarrow> cell_fits s c"
  by (cases s; cases c) simp_all

lemma inst_shapeD:
  assumes "inst_shape inst"
  shows "context_ok (in_offsets inst)" "layout_fits (in_offsets inst)"
    and "vmoffsets_new 8 (in_module inst) = Some (in_offsets inst)"
  using assms by (auto simp: inst_shape_def Let_def context_ok_def)

lemma used_le_count: "inst_shape inst \<Longrightarrow> used inst s \<le> slot_count (in_offsets inst) s"
  using vmoffsets_new_counts [of 8 "in_module inst" "in_offsets inst"]
  by (cases s) (auto simp: inst_shape_def Let_def)

lemma slot_address:
  assumes "inst_shape inst" and "unat (slot_index s) < used inst s"
  obtains x where "slot_offset (in_offsets inst) s = Some x"
    "unat x = boundaries (in_offsets inst) ! slot_kind s + unat (slot_index s) * slot_size (in_offsets inst) s"
proof -
  have "unat (slot_index s) < slot_count (in_offsets inst) s"
    using assms used_le_count [OF assms(1), of s] by linarith
  then show ?thesis using slot_offset_exists [OF inst_shapeD(2) [OF assms(1)]] that by blast
qed

text \<open>Every index of an instance is below \<open>2^32\<close>.\<close>

lemma unat_index:
  assumes "inst_shape inst" and "i < used inst s"
  shows "unat (of_nat i :: u32) = i"
proof -
  have "slot_count offs s < 2 ^ 32" for offs
    by (cases s) (simp_all add: unat_lt_u32 [simplified])
  then have "i < 2 ^ 32" using assms used_le_count [OF assms(1), of s] by (meson less_le_trans order_less_trans)
  then show ?thesis by (intro unat_of_nat_u32) simp
qed

lemma own_slot:
  assumes "store_inv st" and "st_instances st a = Some inst"
  shows "inst_shape inst" and "context_good st a inst"
  using assms by (auto simp: store_inv_def)

lemma good_cell:
  assumes "store_inv st" and "st_instances st a = Some inst" and "unat (slot_index s) < used inst s"
  obtains c where "cell_at (st_heap st) a (in_offsets inst) s = Some c" "slot_good st inst s c"
  using own_slot(2) [OF assms(1,2)] assms(3) unfolding context_good_def by blast

text \<open>A write to one slot leaves every other slot in use of every context alone.\<close>

lemma cell_at_frame:
  assumes inv: "store_inv st" and a: "st_instances st a = Some inst" and b: "st_instances st b = Some inst'"
    and at: "slot_offset (in_offsets inst) s = Some x" and fits: "cell_fits s c" "cell_fits s' c'"
    and old: "cell_at (st_heap st) b (in_offsets inst') s' = Some c'" and ne: "(a, s) \<noteq> (b, s')"
  shows "cell_at (write_cell (a + ucast x) c (st_heap st)) b (in_offsets inst') s' = Some c'"
proof (cases "a = b")
  case True
  then show ?thesis
    using inv a b at fits old ne inst_shapeD(1)
    by (auto simp: store_inv_def intro!: cell_at_write_other)
next
  case False
  then have "apart a (lay_size (in_offsets inst)) b (lay_size (in_offsets inst'))"
    using inv a b by (simp add: store_inv_def)
  then show ?thesis
    using inv a b inst_shapeD(1)
    by (intro cell_at_write_foreign [OF _ _ fits at old]) (auto simp: store_inv_def)
qed

text \<open>Pointers into a context stay valid when an instance is replaced by one of the same layout.\<close>

definition same_layout :: "wasm_instance \<Rightarrow> wasm_instance \<Rightarrow> bool" where
  "same_layout inst inst2 \<longleftrightarrow>
     in_module inst2 = in_module inst \<and> in_offsets inst2 = in_offsets inst \<and>
     length (in_tables inst2) = length (in_tables inst) \<and>
     length (in_memories inst2) = length (in_memories inst)"

lemma same_layout_used: "same_layout inst inst2 \<Longrightarrow> used inst2 s = used inst s"
  by (cases s) (auto simp: same_layout_def)

lemma points_to_update:
  assumes "st_instances st a = Some inst" and "same_layout inst inst2"
    and "st_instances st2 = (st_instances st)(a \<mapsto> inst2)"
  shows "points_to_table st b p \<Longrightarrow> points_to_table st2 b p"
    and "points_to_memory st b p \<Longrightarrow> points_to_memory st2 b p"
    and "points_to_global st p \<Longrightarrow> points_to_global st2 p"
proof -
  have at: "\<exists>i'. st_instances st2 b = Some i' \<and> same_layout i i'" if "st_instances st b = Some i" for b i
    using that assms by (auto simp: same_layout_def)
  show "points_to_table st b p \<Longrightarrow> points_to_table st2 b p"
    and "points_to_memory st b p \<Longrightarrow> points_to_memory st2 b p"
    and "points_to_global st p \<Longrightarrow> points_to_global st2 p"
    unfolding points_to_table_def points_to_memory_def points_to_global_def
    by (elim exE conjE, drule at, force simp: same_layout_def)+
qed

lemma slot_good_update:
  assumes "st_instances st a = Some inst" and "same_layout inst inst2"
    and "st_instances st2 = (st_instances st)(a \<mapsto> inst2)" and "slot_good st i s c"
  shows "slot_good st2 i s c"
  using assms(4) points_to_update [OF assms(1-3)] by (cases s; cases c) simp_all

lemma store_inv_update:
  assumes inv: "store_inv st" and a: "st_instances st a = Some inst"
    and shape: "inst_shape inst2" and same: "same_layout inst inst2"
    and at: "slot_offset (in_offsets inst) s = Some x" and good: "slot_good st inst2 s c"
    and others: "\<And>s' c'. s' \<noteq> s \<Longrightarrow> slot_good st inst s' c' \<Longrightarrow> slot_good st inst2 s' c'"
    and st2: "st2 = st\<lparr>st_instances := (st_instances st)(a \<mapsto> inst2),
      st_heap := write_cell (a + ucast x) c (st_heap st)\<rparr>"
  shows "store_inv st2"
proof -
  have insts: "st_instances st2 = (st_instances st)(a \<mapsto> inst2)" by (simp add: st2)
  have offs: "in_offsets inst2 = in_offsets inst" using same by (simp add: same_layout_def)
  note keep = slot_good_update [OF a same insts]
  note fits = slot_good_fits [OF good]
  have ctx: "context_good st2 b inst'" if b: "st_instances st2 b = Some inst'" for b inst'
    unfolding context_good_def
  proof (intro allI impI)
    fix s' assume lt: "unat (slot_index s') < used inst' s'"
    define old where "old = (if b = a then inst else inst')"
    have old: "st_instances st b = Some old" "in_offsets inst' = in_offsets old"
      using b a offs by (auto simp: old_def insts split: if_splits)
    have "used inst' s' = used old s'"
      using b same_layout_used [OF same] by (auto simp: old_def insts split: if_splits)
    then obtain c' where c': "cell_at (st_heap st) b (in_offsets old) s' = Some c'" "slot_good st old s' c'"
      using good_cell [OF inv old(1), of s'] lt by metis
    show "\<exists>c'. cell_at (st_heap st2) b (in_offsets inst') s' = Some c' \<and> slot_good st2 inst' s' c'"
    proof (cases "(a, s) = (b, s')")
      case True
      then have "inst' = inst2" using b by (simp add: insts)
      then show ?thesis
        using True keep [OF good] cell_at_write_same [OF at] offs by (auto simp: st2)
    next
      case False
      then have "cell_at (st_heap st2) b (in_offsets inst') s' = Some c'"
        using cell_at_frame [OF inv a old(1) at fits slot_good_fits [OF c'(2)] c'(1)] old(2)
        by (simp add: st2)
      moreover have "slot_good st inst' s' c'"
        using c'(2) others False b by (auto simp: old_def insts split: if_splits)
      ultimately show ?thesis using keep by blast
    qed
  qed
  have "inst_shape inst'" if "st_instances st2 b = Some inst'" for b inst'
    using that inv shape by (auto simp: insts store_inv_def split: if_splits)
  moreover have "apart b (lay_size (in_offsets i)) b' (lay_size (in_offsets i'))"
    if "st_instances st2 b = Some i" "st_instances st2 b' = Some i'" "b \<noteq> b'" for b b' i i'
  proof -
    have "\<exists>j. st_instances st b = Some j \<and> in_offsets j = in_offsets i" if "st_instances st2 b = Some i" for b i
      using that a offs by (auto simp: insts split: if_splits)
    then show ?thesis using that inv unfolding store_inv_def by metis
  qed
  ultimately show ?thesis using ctx by (simp add: store_inv_def)
qed

section \<open>Growing through the store\<close>

lemma vm_add_slot:
  assumes "inst_shape inst" and "i < used inst (k (of_nat i))" and "\<And>j. slot_index (k j) = j"
  obtains x where "slot_offset (in_offsets inst) (k (of_nat i)) = Some x"
    "vm_add a (slot_offset (in_offsets inst) (k (of_nat i))) = Inr (a + ucast x)"
proof -
  have "unat (slot_index (k (of_nat i))) < used inst (k (of_nat i))"
    using assms(2,3) unat_index [OF assms(1,2)] by simp
  then show ?thesis using slot_address [OF assms(1)] that by (fastforce simp: vm_add_def)
qed

text \<open>Writing one slot leaves every other slot of every context as it is.\<close>

lemma write_slot_frame:
  assumes inv: "store_inv st" and a: "st_instances st a = Some inst" and at: "slot_offset (in_offsets inst) s = Some x"
    and fits: "cell_fits s c" and b: "st_instances st b = Some i" "unat (slot_index s') < used i s'" "(b, s') \<noteq> (a, s)"
  shows "cell_at (write_cell (a + ucast x) c (st_heap st)) b (in_offsets i) s' = cell_at (st_heap st) b (in_offsets i) s'"
proof -
  obtain c' where c': "cell_at (st_heap st) b (in_offsets i) s' = Some c'" "slot_good st i s' c'"
    by (rule good_cell [OF inv b(1,2)])
  then show ?thesis using cell_at_frame [OF inv a b(1) at fits slot_good_fits [OF c'(2)] c'(1)] b(3) by auto
qed

lemma memory_grow_keeps:
  assumes inv: "store_inv st" and a: "st_instances st a = Some inst"
    and i: "index < length (in_memories inst)" and g: "guard_ok os (in_memories inst ! index)"
  obtains r mem' st' where "linear_memory_grow os (in_memories inst ! index) delta = Inr (r, mem')"
    "memory_grow os st a index delta = Inr (r, st')" "store_inv st'" "lm_inv mem'"
    "st_instances st' = (st_instances st)(a \<mapsto> inst\<lparr>in_memories := (in_memories inst)[index := mem']\<rparr>)"
    "vm_memory (st_heap st') a (in_offsets inst) index = Inr (vmmemory mem')"
    "st_global_exports st' = st_global_exports st"
    "\<And>b i s. st_instances st b = Some i \<Longrightarrow> unat (slot_index s) < used i s \<Longrightarrow> (b, s) \<noteq> (a, MemDef (of_nat index)) \<Longrightarrow>
       cell_at (st_heap st') b (in_offsets i) s = cell_at (st_heap st) b (in_offsets i) s"
proof -
  let ?mem = "in_memories inst ! index"
  note shape = own_slot(1) [OF inv a]
  have lm: "lm_inv ?mem" using shape i by (simp add: inst_shape_def Let_def)
  obtain r mem' where step: "linear_memory_grow os ?mem delta = Inr (r, mem')"
    using memory_growth.grow_total [OF lm g] by blast
  have lm': "lm_inv mem'" by (rule memory_growth.grow_inv [OF lm g step])
  have "index < used inst (MemDef (of_nat index))" using i by simp
  then obtain x where x: "slot_offset (in_offsets inst) (MemDef (of_nat index)) = Some x"
    "memory_mut a (in_offsets inst) index = Inr (a + ucast x)"
    using vm_add_slot [OF shape, of index MemDef a] by (auto simp: memory_mut_def)
  have un: "unat (of_nat index :: u32) = index"
    using unat_index [OF shape, of index "MemDef 0"] i by simp
  define inst2 where "inst2 = inst\<lparr>in_memories := (in_memories inst)[index := mem']\<rparr>"
  define st' where "st' = st\<lparr>st_instances := (st_instances st)(a \<mapsto> inst2),
      st_heap := write_cell (a + ucast x) (CMemory (vmmemory mem')) (st_heap st)\<rparr>"
  have "memory_grow os st a index delta = Inr (r, st')"
    using a i step x by (simp add: memory_grow_def instance_of_def get_def unwrap_res_def st'_def inst2_def)
  moreover have "store_inv st'"
  proof (rule store_inv_update [OF inv a _ _ x(1)])
    show "inst_shape inst2"
      using shape lm' by (auto simp: inst_shape_def Let_def inst2_def dest: set_update_subset_insert [THEN subsetD])
    show "same_layout inst inst2" by (simp add: same_layout_def inst2_def)
    show "slot_good st inst2 (MemDef (of_nat index)) (CMemory (vmmemory mem'))"
      using un i by (simp add: inst2_def)
    show "slot_good st inst2 s' c'" if "s' \<noteq> MemDef (of_nat index)" "slot_good st inst s' c'" for s' c'
    proof (cases s')
      case (MemDef j)
      then have "unat j \<noteq> index" using that(1) by auto
      then show ?thesis using that(2) MemDef by (cases c') (simp_all add: inst2_def)
    qed (use that(2) in \<open>cases c'; simp add: inst2_def\<close>)+
  qed (simp add: st'_def)
  moreover have "vm_memory (st_heap st') a (in_offsets inst) index = Inr (vmmemory mem')"
    using x(2) by (simp add: vm_memory_def deref_memory_def st'_def)
  moreover have "cell_at (st_heap st') b (in_offsets i) s = cell_at (st_heap st) b (in_offsets i) s"
    if "st_instances st b = Some i" "unat (slot_index s) < used i s" "(b, s) \<noteq> (a, MemDef (of_nat index))" for b i s
    using write_slot_frame [OF inv a x(1) _ that] by (simp add: st'_def)
  moreover have "st_instances st' = (st_instances st)(a \<mapsto> inst\<lparr>in_memories := (in_memories inst)[index := mem']\<rparr>)"
    "st_global_exports st' = st_global_exports st"
    by (simp_all add: st'_def inst2_def)
  ultimately show ?thesis using that step lm' by blast
qed

lemma table_grow_keeps:
  assumes inv: "store_inv st" and a: "st_instances st a = Some inst"
    and i: "index < length (in_tables inst)" and al: "alloc \<noteq> None"
  obtains r tbl' st' where "table_grow alloc (in_tables inst ! index) delta = Inr (r, tbl')"
    "inst_table_grow alloc st a index delta = Inr (r, st')" "store_inv st'" "table_inv tbl'"
    "st_instances st' = (st_instances st)(a \<mapsto> inst\<lparr>in_tables := (in_tables inst)[index := tbl']\<rparr>)"
proof -
  let ?tbl = "in_tables inst ! index"
  note shape = own_slot(1) [OF inv a]
  have tb: "table_inv ?tbl" using shape i by (simp add: inst_shape_def Let_def)
  obtain r tbl' where step: "table_grow alloc ?tbl delta = Inr (r, tbl')"
    using table_growth.grow_total [OF tb al] by blast
  have tb': "table_inv tbl'" by (rule table_growth.grow_inv [OF tb al step])
  obtain def where def: "vmtable tbl' = Inr def"
    using table_inv_size(1) [OF tb'] by (simp add: vmtable_def)
  have "index < used inst (TableDef (of_nat index))" using i by simp
  then obtain x where x: "slot_offset (in_offsets inst) (TableDef (of_nat index)) = Some x"
    "table_mut a (in_offsets inst) index = Inr (a + ucast x)"
    using vm_add_slot [OF shape, of index TableDef a] by (auto simp: table_mut_def)
  have un: "unat (of_nat index :: u32) = index"
    using unat_index [OF shape, of index "TableDef 0"] i by simp
  define inst2 where "inst2 = inst\<lparr>in_tables := (in_tables inst)[index := tbl']\<rparr>"
  define st' where "st' = st\<lparr>st_instances := (st_instances st)(a \<mapsto> inst2),
      st_heap := write_cell (a + ucast x) (CTable def) (st_heap st)\<rparr>"
  have "inst_table_grow alloc st a index delta = Inr (r, st')"
    using a i step x def
    by (simp add: inst_table_grow_def instance_of_def get_def unwrap_res_def st'_def inst2_def)
  moreover have "store_inv st'"
  proof (rule store_inv_update [OF inv a _ _ x(1)])
    show "inst_shape inst2"
      using shape tb' by (auto simp: inst_shape_def Let_def inst2_def dest: set_update_subset_insert [THEN subsetD])
    show "same_layout inst inst2" by (simp add: same_layout_def inst2_def)
    show "slot_good st inst2 (TableDef (of_nat index)) (CTable def)"
      using un i def by (simp add: inst2_def)
    show "slot_good st inst2 s' c'" if "s' \<noteq> TableDef (of_nat index)" "slot_good st inst s' c'" for s' c'
    proof (cases s')
      case (TableDef j)
      then have "unat j \<noteq> index" using that(1) by auto
      then show ?thesis using that(2) TableDef by (cases c') (simp_all add: inst2_def)
    qed (use that(2) in \<open>cases c'; simp add: inst2_def\<close>)+
  qed (simp add: st'_def)
  ultimately show ?thesis using that step tb' by (auto simp: st'_def inst2_def)
qed

text \<open>From an entry's address back to its index.\<close>

lemma entry_index:
  fixes x v :: u32
  assumes "unat x = lo + i * 16" and "unat v = lo" and "i < 2 ^ 32"
  shows "unat (ucast ((a + ucast x - (a + ucast v)) div (16 :: address)) :: u32) = i"
proof -
  let ?x = "ucast x :: address" and ?v = "ucast v :: address"
  have "a + ?x - (a + ?v) = ?x - ?v" by simp
  moreover have "unat (?x - ?v) = i * 16" using assms(1,2) by (simp add: unat_sub_if')
  ultimately have "unat ((a + ?x - (a + ?v)) div 16) = i" by (simp add: unat_div)
  then show ?thesis using assms(3) unat_ucast_le [of "(a + ?x - (a + ?v)) div 16", where 'b = 32] by simp
qed

lemma memory_index_of_pointer:
  assumes shape: "inst_shape inst" and i: "i < length (in_memories inst)"
    and p: "memory_mut a (in_offsets inst) i = Inr p"
  shows "inst_memory_index inst a p = Inr i"
proof -
  let ?offs = "in_offsets inst"
  note fits = inst_shapeD(2) [OF shape]
  obtain x where x: "slot_offset ?offs (MemDef (of_nat i)) = Some x" "p = a + ucast x"
    using p by (auto simp: memory_mut_def vm_add_def split: option.splits)
  have un: "unat (of_nat i :: u32) = i" using unat_index [OF shape, of i "MemDef 0"] i by simp
  have "psize ?offs = 8" using inst_shapeD(1) [OF shape] by (simp add: context_ok_def)
  then have ux: "unat x = lay_mems ?offs + i * 16"
    using x(1) mem_array.entry_Some_iff [OF fits] un by simp
  have v: "vmctx_memories_begin ?offs = Some (of_nat (lay_mems ?offs))" by (rule begins_fit(6) [OF fits])
  have "unat (of_nat (lay_mems ?offs) :: u32) = lay_mems ?offs" by (rule begin_unat(6) [OF fits])
  moreover have "i < 2 ^ 32" using un unat_lt_u32 [of "of_nat i"] by simp
  ultimately show ?thesis
    using entry_index [OF ux] i by (simp add: inst_memory_index_def v vm_add_def x(2) assert_res_def)
qed

lemma table_index_of_pointer:
  assumes shape: "inst_shape inst" and i: "i < length (in_tables inst)"
    and p: "table_mut a (in_offsets inst) i = Inr p"
  shows "inst_table_index inst a p = Inr i"
proof -
  let ?offs = "in_offsets inst"
  note fits = inst_shapeD(2) [OF shape]
  obtain x where x: "slot_offset ?offs (TableDef (of_nat i)) = Some x" "p = a + ucast x"
    using p by (auto simp: table_mut_def vm_add_def split: option.splits)
  have un: "unat (of_nat i :: u32) = i" using unat_index [OF shape, of i "TableDef 0"] i by simp
  have "psize ?offs = 8" using inst_shapeD(1) [OF shape] by (simp add: context_ok_def)
  then have ux: "unat x = lay_tables ?offs + i * 16"
    using x(1) table_array.entry_Some_iff [OF fits] un by simp
  have v: "vmctx_tables_begin ?offs = Some (of_nat (lay_tables ?offs))" by (rule begins_fit(5) [OF fits])
  have "unat (of_nat (lay_tables ?offs) :: u32) = lay_tables ?offs" by (rule begin_unat(5) [OF fits])
  moreover have "i < 2 ^ 32" using un unat_lt_u32 [of "of_nat i"] by simp
  ultimately show ?thesis
    using entry_index [OF ux] i by (simp add: inst_table_index_def v vm_add_def x(2) assert_res_def)
qed

text \<open>The owner of an imported memory.\<close>

lemma imported_memory_owner:
  assumes inv: "store_inv st" and a: "st_instances st a = Some inst"
    and i: "index < length (imported_memories (in_module inst))"
  obtains imp owner d where "imported_memory (st_heap st) a (in_offsets inst) index = Inr imp"
    "st_instances st (mi_vmctx imp) = Some owner" "d < length (in_memories owner)"
    "memory_mut (mi_vmctx imp) (in_offsets owner) d = Inr (mi_from imp)"
    "inst_memory_index owner (mi_vmctx imp) (mi_from imp) = Inr d"
proof -
  note shape = own_slot(1) [OF inv a]
  let ?s = "MemImport (of_nat index)"
  have used: "index < used inst ?s" using i by simp
  then have "unat (slot_index ?s) < used inst ?s" using unat_index [OF shape used] by simp
  then obtain c where c: "cell_at (st_heap st) a (in_offsets inst) ?s = Some c" "slot_good st inst ?s c"
    by (rule good_cell [OF inv a])
  then obtain imp where imp: "c = CMemoryImport imp" "points_to_memory st (mi_vmctx imp) (mi_from imp)"
    by (cases c) auto
  then obtain owner d where o: "st_instances st (mi_vmctx imp) = Some owner" "d < length (in_memories owner)"
      "memory_mut (mi_vmctx imp) (in_offsets owner) d = Inr (mi_from imp)"
    by (auto simp: points_to_memory_def)
  have "imported_memory (st_heap st) a (in_offsets inst) index = Inr imp"
    using c(1) imp(1) by (auto simp: imported_memory_def cell_at_def vm_add_def deref_memory_import_def
        split: option.splits)
  then show ?thesis
    using that o memory_index_of_pointer [OF own_slot(1) [OF inv o(1)] o(2,3)] by blast
qed

end
