(* ===== verification/Instantiation.thy ===== *)
theory Instantiation
  imports Instance
begin

text \<open>
  Creating and initializing an instance (\<^verbatim>\<open>InstanceHandle::new\<close> and the functions at the end of
  \<^verbatim>\<open>wasmtime-runtime/src/instance.rs\<close>).

  What the outside world answers is an argument: the allocator for each table, the operating system
  for each memory and for the context, the addresses of the built-in functions, and compiled code.
\<close>

section \<open>Definitions\<close>

record instance_env =
  ie_table_alloc :: "nat \<Rightarrow> alloc"
  ie_memory_os :: "nat \<Rightarrow> os"
  ie_context_os :: os
  ie_size_of_instance :: usize
  ie_vmctx_offset :: usize
  ie_builtins :: "address list"

definition create_tables :: "instance_env \<Rightarrow> wasm_module \<Rightarrow> table list res" where
  "create_tables env m =
     bind_res (slice_from (table_plans m) (length (imported_tables m))) (\<lambda>plans.
     map_res (\<lambda>(i, plan). table_new (ie_table_alloc env i) plan) (enumerate 0 plans))"

definition create_memories :: "instance_env \<Rightarrow> wasm_module \<Rightarrow> instantiation_error + linear_memory list" where
  "create_memories env m =
     bind_res (aborts (slice_from (memory_plans m) (length (imported_memories m)))) (\<lambda>plans.
     map_res (\<lambda>(i, plan). map_err Resource (linear_memory_new (ie_memory_os env i) plan)) (enumerate 0 plans))"

definition create_globals :: "wasm_module \<Rightarrow> vm_global_definition list res" where
  "create_globals m =
     bind_res (slice_from (globals m) (length (imported_globals m))) (\<lambda>gs.
     Inr (map (\<lambda>_. global_definition_new) gs))"

text \<open>The copies into the context, in order: an array begins at the offset \<^verbatim>\<open>VMOffsets\<close> gives.\<close>

fun copy_arrays :: "address \<Rightarrow> (u32 option \<times> cell list) list \<Rightarrow> heap \<Rightarrow> heap res" where
  "copy_arrays vmctx [] h = Inr h"
| "copy_arrays vmctx ((begin_at, cells) # rest) h =
     bind_res (vm_add vmctx begin_at) (\<lambda>p. copy_arrays vmctx rest (write_cells p cells h))"

definition context_arrays ::
  "instance_env \<Rightarrow> vmoffsets \<Rightarrow> u32 list \<Rightarrow> resolved_imports \<Rightarrow> vm_table_definition list \<Rightarrow>
   vm_memory_definition list \<Rightarrow> vm_global_definition list \<Rightarrow> (u32 option \<times> cell list) list" where
  "context_arrays env offs sigs imps tables memories globs =
     [(Some (vmctx_signature_ids_begin offs), map CSig sigs),
      (vmctx_imported_functions_begin offs, map CFuncImport (imp_functions imps)),
      (vmctx_imported_tables_begin offs, map CTableImport (imp_tables imps)),
      (vmctx_imported_memories_begin offs, map CMemoryImport (imp_memories imps)),
      (vmctx_imported_globals_begin offs, map CGlobalImport (imp_globals imps)),
      (vmctx_tables_begin offs, map CTable tables),
      (vmctx_memories_begin offs, map CMemory memories),
      (vmctx_globals_begin offs, map CGlobal globs),
      (vmctx_builtin_functions_begin offs, map CBuiltin (ie_builtins env))]"

definition instance_allocate ::
  "instance_env \<Rightarrow> wasm_module \<Rightarrow> address list \<Rightarrow> resolved_imports \<Rightarrow> u32 list \<Rightarrow> store \<Rightarrow>
   instantiation_error + address \<times> store" where
  "instance_allocate env m finished_functions imps vmshared_signatures st =
     bind_res (aborts (create_tables env m)) (\<lambda>tables.
     bind_res (create_memories env m) (\<lambda>memories.
     bind_res (aborts (map_res vmtable tables)) (\<lambda>vmctx_tables.
     let vmctx_memories = map vmmemory memories in
     bind_res (aborts (create_globals m)) (\<lambda>vmctx_globals.
     bind_res (aborts (unwrap_res (vmoffsets_new 8 m) ''cast_to_u32'')) (\<lambda>offsets.
     bind_res (aborts (unwrap_res (size_of_vmctx offsets) ''checked_add'')) (\<lambda>size_of.
     bind_res (aborts (unwrap_res (checked_add (ie_size_of_instance env) (ucast size_of)) ''checked_add'')) (\<lambda>amount.
     bind_res (map_err Resource (with_at_least (ie_context_os env) amount)) (\<lambda>instance_mmap.
     let vmctx = mm_ptr instance_mmap + ie_vmctx_offset env;
         inst = \<lparr>in_refcount = 1, in_dependencies = imp_dependencies imps, in_module = m,
                 in_offsets = offsets, in_memories = memories, in_tables = tables,
                 in_finished_functions = finished_functions\<rparr>
     in bind_res (aborts (copy_arrays vmctx
            (context_arrays env offsets vmshared_signatures imps vmctx_tables vmctx_memories vmctx_globals)
            (st_heap st))) (\<lambda>h.
        Inr (vmctx, st\<lparr>st_heap := h, st_instances := (st_instances st)(vmctx \<mapsto> inst)\<rparr>))))))))))"

subsection \<open>Segments\<close>

text \<open>The beginning of a segment: its offset, plus the value of its base global. The unsafe read
  goes through the global's address.\<close>

definition init_start :: "store \<Rightarrow> address \<Rightarrow> nat option \<Rightarrow> usize \<Rightarrow> usize res" where
  "init_start st vmctx base offset =
     (case base of
        None \<Rightarrow> Inr offset
      | Some g \<Rightarrow>
          bind_res (instance_of st vmctx) (\<lambda>inst.
          bind_res
            (case defined_global_index (in_module inst) g of
               Some def_index \<Rightarrow> global_mut vmctx (in_offsets inst) def_index
             | None \<Rightarrow> bind_res (imported_global (st_heap st) vmctx (in_offsets inst) g) (\<lambda>imp. Inr (gi_from imp)))
            (\<lambda>p.
          bind_res (deref_global (st_heap st) p) (\<lambda>val.
          Inr (offset + ucast (as_u32 val))))))"

definition get_memory_init_start :: "store \<Rightarrow> address \<Rightarrow> data_initializer \<Rightarrow> usize res" where
  "get_memory_init_start st vmctx init =
     init_start st vmctx (dl_base (di_location init)) (dl_offset (di_location init))"

definition get_table_init_start :: "store \<Rightarrow> address \<Rightarrow> table_elements \<Rightarrow> usize res" where
  "get_table_init_start st vmctx init = init_start st vmctx (te_base init) (te_offset init)"

text \<open>The slice a segment goes to: the instance that owns the table or memory and its index there,
  and for a memory the base and length read from the context.\<close>

definition get_table_slice :: "store \<Rightarrow> address \<Rightarrow> table_elements \<Rightarrow> (address \<times> nat \<times> anyfunc list) res" where
  "get_table_slice st vmctx init =
     bind_res (instance_of st vmctx) (\<lambda>inst.
       case defined_table_index (in_module inst) (te_table_index init) of
         Some d \<Rightarrow> bind_res (index_res (in_tables inst) d) (\<lambda>t. Inr (vmctx, d, tb_vec t))
       | None \<Rightarrow>
           bind_res (imported_table (st_heap st) vmctx (in_offsets inst) (te_table_index init)) (\<lambda>imp.
           bind_res (instance_of st (ti_vmctx imp)) (\<lambda>foreign.
           bind_res (inst_table_index foreign (ti_vmctx imp) (ti_from imp)) (\<lambda>d.
           bind_res (index_res (in_tables foreign) d) (\<lambda>t. Inr (ti_vmctx imp, d, tb_vec t))))))"

definition get_memory_slice :: "store \<Rightarrow> address \<Rightarrow> data_initializer \<Rightarrow> (address \<times> nat \<times> vm_memory_definition) res" where
  "get_memory_slice st vmctx init =
     bind_res (instance_of st vmctx) (\<lambda>inst.
       case defined_memory_index (in_module inst) (dl_memory_index (di_location init)) of
         Some d \<Rightarrow> bind_res (vm_memory (st_heap st) vmctx (in_offsets inst) d) (\<lambda>def. Inr (vmctx, d, def))
       | None \<Rightarrow>
           bind_res (imported_memory (st_heap st) vmctx (in_offsets inst) (dl_memory_index (di_location init))) (\<lambda>imp.
           bind_res (instance_of st (mi_vmctx imp)) (\<lambda>foreign.
           bind_res (inst_memory_index foreign (mi_vmctx imp) (mi_from imp)) (\<lambda>d.
           bind_res (vm_memory (st_heap st) (mi_vmctx imp) (in_offsets foreign) d) (\<lambda>def.
           Inr (mi_vmctx imp, d, def))))))"

text \<open>\<^verbatim>\<open>slice.get_mut(start..start + len)\<close> is \<^verbatim>\<open>Some\<close>.\<close>

definition range_ok :: "usize \<Rightarrow> nat \<Rightarrow> nat \<Rightarrow> bool" where
  "range_ok start len n \<longleftrightarrow>
     (let stop = start + of_nat len in start \<le> stop \<and> unat stop \<le> n)"

definition check_table_init :: "store \<Rightarrow> address \<Rightarrow> table_elements \<Rightarrow> instantiation_error + unit" where
  "check_table_init st vmctx init =
     bind_res (aborts (get_table_init_start st vmctx init)) (\<lambda>start.
     bind_res (aborts (get_table_slice st vmctx init)) (\<lambda>(owner, d, slice).
     if range_ok start (length (te_elements init)) (length slice) then Inr ()
     else Inl (Link ''elements segment does not fit'')))"

definition check_table_init_bounds :: "store \<Rightarrow> address \<Rightarrow> instantiation_error + unit" where
  "check_table_init_bounds st vmctx =
     bind_res (aborts (instance_of st vmctx)) (\<lambda>inst.
     fold_res (\<lambda>init _. check_table_init st vmctx init) (table_elements (in_module inst)) ())"

definition check_memory_init :: "store \<Rightarrow> address \<Rightarrow> data_initializer \<Rightarrow> instantiation_error + unit" where
  "check_memory_init st vmctx init =
     bind_res (aborts (get_memory_init_start st vmctx init)) (\<lambda>start.
     bind_res (aborts (get_memory_slice st vmctx init)) (\<lambda>(owner, d, def).
     if range_ok start (length (di_data init)) (unat (vmm_current_length def)) then Inr ()
     else Inl (Link ''data segment does not fit'')))"

definition check_memory_init_bounds :: "store \<Rightarrow> address \<Rightarrow> data_initializer list \<Rightarrow> instantiation_error + unit" where
  "check_memory_init_bounds st vmctx inits =
     fold_res (\<lambda>init _. check_memory_init st vmctx init) inits ()"

subsection \<open>Initialization\<close>

text \<open>The table element of a function.\<close>

definition element_of :: "store \<Rightarrow> address \<Rightarrow> nat \<Rightarrow> anyfunc res" where
  "element_of st vmctx func_idx =
     bind_res (instance_of st vmctx) (\<lambda>inst.
     bind_res (index_res (func_sigs (in_module inst)) func_idx) (\<lambda>callee_sig.
     bind_res
       (case defined_func_index (in_module inst) func_idx of
          Some index \<Rightarrow>
            bind_res (index_res (in_finished_functions inst) index) (\<lambda>body. Inr (body, vmctx))
        | None \<Rightarrow>
            bind_res (imported_function (st_heap st) vmctx (in_offsets inst) func_idx)
              (\<lambda>imp. Inr (fi_body imp, fi_vmctx imp)))
       (\<lambda>(callee_ptr, callee_vmctx).
     bind_res (signature_id (st_heap st) vmctx (in_offsets inst) callee_sig) (\<lambda>type_index.
     Inr \<lparr>af_func_ptr = callee_ptr, af_type_index = type_index, af_vmctx = callee_vmctx\<rparr>))))"

definition update_instance :: "address \<Rightarrow> (wasm_instance \<Rightarrow> wasm_instance) \<Rightarrow> store \<Rightarrow> store" where
  "update_instance a f st = st\<lparr>st_instances := (st_instances st)(a := map_option f (st_instances st a))\<rparr>"

definition write_element :: "address \<Rightarrow> nat \<Rightarrow> nat \<Rightarrow> anyfunc \<Rightarrow> store \<Rightarrow> store" where
  "write_element owner d j e =
     update_instance owner (\<lambda>inst. inst\<lparr>in_tables := (in_tables inst)[d := (in_tables inst ! d)
        \<lparr>tb_vec := (tb_vec (in_tables inst ! d))[j := e]\<rparr>]\<rparr>)"

text \<open>The initializers return the store as they leave it, also when they panic on the way.\<close>

definition initialize_table :: "address \<Rightarrow> table_elements \<Rightarrow> store \<Rightarrow> unit res \<times> store" where
  "initialize_table vmctx init st =
     bind_st (get_table_init_start st vmctx init, st) (\<lambda>start st.
     bind_st (get_table_slice st vmctx init, st) (\<lambda>(owner, d, slice) st.
     bind_st (assert_res (range_ok start (length (te_elements init)) (length slice)) ''slice index'', st) (\<lambda>_.
     each_st (\<lambda>(i, func_idx) st. bind_st (element_of st vmctx func_idx, st) (\<lambda>e st.
         (Inr (), write_element owner d (unat start + i) e st)))
       (enumerate 0 (te_elements init)))))"

definition initialize_tables :: "address \<Rightarrow> store \<Rightarrow> unit res \<times> store" where
  "initialize_tables vmctx st =
     bind_st (instance_of st vmctx, st) (\<lambda>inst. each_st (initialize_table vmctx) (table_elements (in_module inst)))"

text \<open>A step that only writes when it succeeds.\<close>

definition step_st :: "'e + 's \<Rightarrow> 's \<Rightarrow> ('e + unit) \<times> 's" where
  "step_st r s = (case r of Inl e \<Rightarrow> (Inl e, s) | Inr s' \<Rightarrow> (Inr (), s'))"

lemma step_st_simps [simp]: "step_st (Inl e) s = (Inl e, s)" "step_st (Inr s') s = (Inr (), s')"
  by (simp_all add: step_st_def)

text \<open>The copy writes raw bytes at the base that the context holds; it is undefined behaviour
  unless that is the memory's mapping and its bytes are accessible.\<close>

definition copy_to_memory :: "address \<Rightarrow> nat \<Rightarrow> vm_memory_definition \<Rightarrow> nat \<Rightarrow> u8 list \<Rightarrow> store \<Rightarrow> store res" where
  "copy_to_memory owner d def start data st =
     bind_res (instance_of st owner) (\<lambda>inst.
     if d < length (in_memories inst) \<and> vmm_base def = mm_ptr (lm_mmap (in_memories inst ! d)) \<and>
        (\<forall>i < length data. accessible (lm_mmap (in_memories inst ! d)) (start + i))
     then Inr (update_instance owner (\<lambda>inst.
       let mem = in_memories inst ! d; mmap = lm_mmap mem in
       inst\<lparr>in_memories := (in_memories inst)[d := mem\<lparr>lm_mmap := mmap\<lparr>mm_bytes := (\<lambda>i.
           if start \<le> i \<and> i < start + length data then data ! (i - start) else mm_bytes mmap i)\<rparr>\<rparr>]\<rparr>) st)
     else Inl Segfault)"

definition initialize_memory :: "address \<Rightarrow> data_initializer \<Rightarrow> store \<Rightarrow> store res" where
  "initialize_memory vmctx init st =
     bind_res (get_memory_init_start st vmctx init) (\<lambda>start.
     bind_res (get_memory_slice st vmctx init) (\<lambda>(owner, d, def).
     bind_res (assert_res (range_ok start (length (di_data init)) (unat (vmm_current_length def))) ''slice index'') (\<lambda>_.
     copy_to_memory owner d def (unat start) (di_data init) st)))"

definition initialize_memories :: "address \<Rightarrow> data_initializer list \<Rightarrow> store \<Rightarrow> unit res \<times> store" where
  "initialize_memories vmctx inits st = each_st (\<lambda>init st. step_st (initialize_memory vmctx init st) st) inits st"

definition initialize_global :: "address \<Rightarrow> nat \<times> global_desc \<Rightarrow> store \<Rightarrow> store res" where
  "initialize_global vmctx ig st =
     (case ig of (index, g) \<Rightarrow>
     bind_res (instance_of st vmctx) (\<lambda>inst.
     bind_res (unwrap_res (defined_global_index (in_module inst) index) ''unwrap'') (\<lambda>def_index.
     bind_res (global_mut vmctx (in_offsets inst) def_index) (\<lambda>to.
     bind_res (deref_global (st_heap st) to) (\<lambda>old.
     let put = (\<lambda>val. Inr (st\<lparr>st_heap := write_cell to (CGlobal val) (st_heap st)\<rparr>)) in
     case glb_initializer g of
       I32Const x \<Rightarrow> put (write_i32 old x)
     | I64Const x \<Rightarrow> put (write_i64 old x)
     | F32Const x \<Rightarrow> put (write_f32_bits old x)
     | F64Const x \<Rightarrow> put (write_f64_bits old x)
     | V128Const x \<Rightarrow> put (write_u128_bits old x)
     | GetGlobal x \<Rightarrow>
         bind_res
           (case defined_global_index (in_module inst) x of
              Some def_x \<Rightarrow> global_mut vmctx (in_offsets inst) def_x
            | None \<Rightarrow> bind_res (imported_global (st_heap st) vmctx (in_offsets inst) x) (\<lambda>imp. Inr (gi_from imp)))
           (\<lambda>from. bind_res (deref_global (st_heap st) from) put)
     | Import \<Rightarrow> Inl (Panic ''locally-defined global initialized as import''))))))"

definition initialize_globals :: "address \<Rightarrow> store \<Rightarrow> unit res \<times> store" where
  "initialize_globals vmctx st =
     bind_st (instance_of st vmctx, st) (\<lambda>inst.
     let m = in_module inst; num_imports = length (imported_globals m) in
     each_st (\<lambda>ig st. step_st (initialize_global vmctx ig st) st) (drop num_imports (enumerate 0 (globals m))))"

subsection \<open>Exports, start function, creation\<close>

text \<open>A second export of a name makes the name ambiguous; only the first is looked up.\<close>

definition collect_export :: "address \<Rightarrow> string \<times> export_decl \<Rightarrow> store \<Rightarrow> store res" where
  "collect_export vmctx fd st =
     (case fd of (field, decl) \<Rightarrow>
      case st_global_exports st field of
        Some _ \<Rightarrow> Inr (st\<lparr>st_global_exports := (st_global_exports st)(field \<mapsto> None)\<rparr>)
      | None \<Rightarrow>
          bind_res (instance_of st vmctx) (\<lambda>inst.
          bind_res (lookup_by_declaration (st_heap st) (in_module inst) vmctx (in_offsets inst)
                      (in_finished_functions inst) decl) (\<lambda>v.
          Inr (st\<lparr>st_global_exports := (st_global_exports st)(field \<mapsto> Some v)\<rparr>))))"

text \<open>Compiled code: it gets the callee's context and address and returns a trap or nothing.\<close>

type_synonym call = "address \<Rightarrow> address \<Rightarrow> store \<Rightarrow> (string + unit) \<times> store"

definition callee :: "store \<Rightarrow> address \<Rightarrow> nat \<Rightarrow> (address \<times> address) res" where
  "callee st vmctx index =
     bind_res (instance_of st vmctx) (\<lambda>inst.
       case defined_func_index (in_module inst) index of
         Some d \<Rightarrow>
           bind_res (unwrap_res (get (in_finished_functions inst) d) ''function index is out of bounds'')
             (\<lambda>body. Inr (body, vmctx))
       | None \<Rightarrow>
           bind_res (assert_res (index < length (imported_funcs (in_module inst)))
             ''index.index() < self.module.imported_funcs.len()'') (\<lambda>_.
           bind_res (imported_function (st_heap st) vmctx (in_offsets inst) index)
             (\<lambda>imp. Inr (fi_body imp, fi_vmctx imp))))"

definition invoke_function :: "call \<Rightarrow> address \<Rightarrow> nat \<Rightarrow> store \<Rightarrow> (instantiation_error + unit) \<times> store" where
  "invoke_function wasmtime_call vmctx index st =
     (case callee st vmctx index of
        Inl e \<Rightarrow> (Inl (Abort e), st)
      | Inr (callee_address, callee_vmctx) \<Rightarrow>
          (case wasmtime_call callee_vmctx callee_address st of
             (Inl msg, st') \<Rightarrow> (Inl (StartTrap msg), st')
           | (Inr _, st') \<Rightarrow> (Inr (), st')))"

text \<open>The function an export named \<^verbatim>\<open>_start\<close> or \<^verbatim>\<open>main\<close> makes the start function, if it has no
  parameter but the context, and no result.\<close>

definition start_export :: "wasm_module \<Rightarrow> export_decl \<Rightarrow> nat option res" where
  "start_export m export =
     (case export of
        ExportFunction index \<Rightarrow>
          bind_res (index_res (func_sigs m) index) (\<lambda>s.
          bind_res (index_res (signatures m) s) (\<lambda>sig.
          Inr (if length (sig_params sig) = 1 \<and> sig_returns sig = [] then Some index else None)))
      | _ \<Rightarrow> Inr None)"

definition start_choice :: "wasm_module \<Rightarrow> nat option res" where
  "start_choice m =
     (case start_func m of
        Some start_index \<Rightarrow> Inr (Some start_index)
      | None \<Rightarrow>
          (case map_of (exports m) ''_start'' of
             Some export \<Rightarrow> start_export m export
           | None \<Rightarrow>
               (case map_of (exports m) ''main'' of
                  Some export \<Rightarrow> start_export m export
                | None \<Rightarrow> Inr None)))"

definition invoke_start_function :: "call \<Rightarrow> address \<Rightarrow> store \<Rightarrow> (instantiation_error + unit) \<times> store" where
  "invoke_start_function wasmtime_call vmctx st =
     (case bind_res (instance_of st vmctx) (\<lambda>inst. start_choice (in_module inst)) of
        Inl e \<Rightarrow> (Inl (Abort e), st)
      | Inr None \<Rightarrow> (Inr (), st)
      | Inr (Some index) \<Rightarrow> invoke_function wasmtime_call vmctx index st)"

text \<open>The checks and then the initializers, on an allocated instance.\<close>

definition aborts_st :: "'a res \<times> store \<Rightarrow> (instantiation_error + 'a) \<times> store" where
  "aborts_st r = (aborts (fst r), snd r)"

definition instance_initialize ::
  "address \<Rightarrow> data_initializer list \<Rightarrow> store \<Rightarrow> (instantiation_error + unit) \<times> store" where
  "instance_initialize vmctx data_inits st =
     bind_st (check_table_init_bounds st vmctx, st) (\<lambda>_ st.
     bind_st (check_memory_init_bounds st vmctx data_inits, st) (\<lambda>_ st.
     bind_st (aborts_st (initialize_tables vmctx st)) (\<lambda>_ st.
     bind_st (aborts_st (initialize_memories vmctx data_inits st)) (\<lambda>_ st.
     aborts_st (initialize_globals vmctx st)))))"

definition collect_exports :: "address \<Rightarrow> store \<Rightarrow> unit res \<times> store" where
  "collect_exports vmctx st =
     bind_st (instance_of st vmctx, st) (\<lambda>inst.
     each_st (\<lambda>fd st. step_st (collect_export vmctx fd st) st) (exports (in_module inst)))"

text \<open>\<^verbatim>\<open>InstanceHandle::new\<close>. An instance that fails after its allocation stays allocated, and what its
  initializers wrote stays written: no handle to it exists, so nothing frees it.\<close>

definition instance_new ::
  "call \<Rightarrow> instance_env \<Rightarrow> wasm_module \<Rightarrow> address list \<Rightarrow> resolved_imports \<Rightarrow> data_initializer list \<Rightarrow>
   u32 list \<Rightarrow> store \<Rightarrow> (instantiation_error + address) \<times> store" where
  "instance_new wasmtime_call env m finished_functions imps data_inits vmshared_signatures st =
     (case instance_allocate env m finished_functions imps vmshared_signatures st of
        Inl e \<Rightarrow> (Inl e, st)
      | Inr (vmctx, st) \<Rightarrow>
          bind_st (instance_initialize vmctx data_inits st) (\<lambda>_ st.
          bind_st (aborts_st (collect_exports vmctx st)) (\<lambda>_ st.
          bind_st (invoke_start_function wasmtime_call vmctx st) (\<lambda>_ st.
          (Inr vmctx, st)))))"

section \<open>Filling a context\<close>

definition array_spec :: "vmoffsets \<Rightarrow> (u32 \<Rightarrow> slot) \<times> cell list \<Rightarrow> bool" where
  "array_spec offs a \<longleftrightarrow>
     array_mk (fst a) \<and> length (snd a) \<le> slot_count offs (fst a 0) \<and>
     (\<forall>c \<in> set (snd a). cell_fits (fst a 0) c)"

definition array_begin :: "vmoffsets \<Rightarrow> (u32 \<Rightarrow> slot) \<times> cell list \<Rightarrow> u32 option \<times> cell list" where
  "array_begin offs a = (Some (of_nat (boundaries offs ! slot_kind (fst a 0))), snd a)"

lemma boundary_unat:
  assumes "layout_fits offs"
  shows "unat (of_nat (boundaries offs ! slot_kind s) :: u32) = boundaries offs ! slot_kind s"
proof -
  have "boundaries offs ! slot_kind s \<le> boundaries offs ! 9"
    using slot_kind_le [of s] by (intro boundaries_mono) auto
  also have "\<dots> < 2 ^ 32" using assms by (simp add: boundaries_def layout_fits_def)
  finally show ?thesis by (intro unat_of_nat_u32) simp
qed

lemma copy_arrays_spec:
  assumes ok: "context_ok offs" and "\<forall>a \<in> set specs. array_spec offs a"
    and "distinct (map (\<lambda>a. slot_kind (fst a 0)) specs)"
  shows "\<exists>h'. copy_arrays base (map (array_begin offs) specs) h = Inr h' \<and>
    (\<forall>(mk, cs) \<in> set specs. \<forall>i < length cs. cell_at h' base offs (mk (of_nat i)) = Some (cs ! i)) \<and>
    (\<forall>s' c'. slot_kind s' \<notin> (\<lambda>a. slot_kind (fst a 0)) ` set specs \<and> cell_fits s' c' \<and>
       cell_at h base offs s' = Some c' \<longrightarrow> cell_at h' base offs s' = Some c') \<and>
    (\<forall>b offs' s' c'. context_ok offs' \<and> apart base (lay_size offs) b (lay_size offs') \<and> cell_fits s' c' \<and>
       cell_at h b offs' s' = Some c' \<longrightarrow> cell_at h' b offs' s' = Some c')"
  using assms(2,3)
proof (induction specs arbitrary: h)
  case Nil
  then show ?case by simp
next
  case (Cons a specs)
  obtain mk cs where a: "a = (mk, cs)" by (cases a)
  let ?v = "of_nat (boundaries offs ! slot_kind (mk 0)) :: u32"
  let ?h = "write_cells (base + ucast ?v) cs h"
  have lf: "layout_fits offs" using ok by (simp add: context_ok_def)
  have sp: "array_mk mk" "length cs \<le> slot_count offs (mk 0)" "\<forall>c \<in> set cs. cell_fits (mk 0) c"
    using Cons.prems(1) by (simp_all add: a array_spec_def)
  note w = ok sp(1,2) boundary_unat [OF lf] sp(3)
  obtain h' where IH: "copy_arrays base (map (array_begin offs) specs) ?h = Inr h'"
    "\<forall>(mk, cs) \<in> set specs. \<forall>i < length cs. cell_at h' base offs (mk (of_nat i)) = Some (cs ! i)"
    "\<And>s' c'. slot_kind s' \<notin> (\<lambda>a. slot_kind (fst a 0)) ` set specs \<Longrightarrow> cell_fits s' c' \<Longrightarrow>
       cell_at ?h base offs s' = Some c' \<Longrightarrow> cell_at h' base offs s' = Some c'"
    "\<And>b offs' s' c'. context_ok offs' \<Longrightarrow> apart base (lay_size offs) b (lay_size offs') \<Longrightarrow> cell_fits s' c' \<Longrightarrow>
       cell_at ?h b offs' s' = Some c' \<Longrightarrow> cell_at h' b offs' s' = Some c'"
    using Cons.IH [of ?h] Cons.prems by auto
  have own: "cell_at h' base offs (mk (of_nat i)) = Some (cs ! i)" if i: "i < length cs" for i
  proof (rule IH(3))
    have k: "slot_kind (mk (of_nat i)) = slot_kind (mk 0)" using sp(1) by (simp add: array_mk_def)
    then show "slot_kind (mk (of_nat i)) \<notin> (\<lambda>a. slot_kind (fst a 0)) ` set specs"
      using Cons.prems(2) by (simp add: a image_iff)
    show "cell_fits (mk (of_nat i)) (cs ! i)" using sp(3) i same_kind(3) [OF k] by simp
    show "cell_at ?h base offs (mk (of_nat i)) = Some (cs ! i)" by (rule write_array_same [OF w i])
  qed
  have "copy_arrays base (map (array_begin offs) (a # specs)) h = Inr h'"
    using IH(1) by (simp add: a array_begin_def vm_add_def)
  moreover have "\<forall>(mk, cs) \<in> set (a # specs). \<forall>i < length cs. cell_at h' base offs (mk (of_nat i)) = Some (cs ! i)"
    using own IH(2) by (simp add: a)
  moreover have "cell_at h' base offs s' = Some c'"
    if "slot_kind s' \<notin> (\<lambda>a. slot_kind (fst a 0)) ` set (a # specs)" "cell_fits s' c'"
      "cell_at h base offs s' = Some c'" for s' c'
    using that IH(3) [OF _ that(2)] write_array_other [OF w that(3,2)] by (simp add: a)
  moreover have "cell_at h' b offs' s' = Some c'"
    if "context_ok offs'" "apart base (lay_size offs) b (lay_size offs')" "cell_fits s' c'"
      "cell_at h b offs' s' = Some c'" for b offs' s' c'
    by (rule IH(4) [OF that(1-3) write_array_foreign [OF w that(4,3,1,2)]])
  ultimately show ?case by blast
qed

lemma map_aborts_Inr [simp]: "aborts r = Inr x \<longleftrightarrow> r = Inr x"
  by (cases r) auto

lemma slot_kinds_array: "array_mk SigId" "array_mk FuncImport" "array_mk TableImport" "array_mk MemImport"
  "array_mk GlobImport" "array_mk TableDef" "array_mk MemDef" "array_mk GlobDef" "array_mk Builtin"
  by (simp_all add: array_mk_def)

text \<open>The arrays that creation copies, by the slots they fill.\<close>

definition context_specs ::
  "instance_env \<Rightarrow> u32 list \<Rightarrow> resolved_imports \<Rightarrow> vm_table_definition list \<Rightarrow>
   vm_memory_definition list \<Rightarrow> vm_global_definition list \<Rightarrow> ((u32 \<Rightarrow> slot) \<times> cell list) list" where
  "context_specs env sigs imps tables memories globs =
     [(SigId, map CSig sigs), (FuncImport, map CFuncImport (imp_functions imps)),
      (TableImport, map CTableImport (imp_tables imps)), (MemImport, map CMemoryImport (imp_memories imps)),
      (GlobImport, map CGlobalImport (imp_globals imps)), (TableDef, map CTable tables),
      (MemDef, map CMemory memories), (GlobDef, map CGlobal globs), (Builtin, map CBuiltin (ie_builtins env))]"

lemma context_arrays_begin:
  assumes "layout_fits offs"
  shows "context_arrays env offs sigs imps tables memories globs =
    map (array_begin offs) (context_specs env sigs imps tables memories globs)"
  using begins_fit [OF assms]
  by (simp add: context_arrays_def context_specs_def array_begin_def boundaries_def vmctx_signature_ids_begin_def)

section \<open>Allocation\<close>

text \<open>What validation and the linker guarantee of the arguments of \<^verbatim>\<open>InstanceHandle::new\<close>.\<close>

definition imports_ok :: "store \<Rightarrow> wasm_module \<Rightarrow> resolved_imports \<Rightarrow> bool" where
  "imports_ok st m imps \<longleftrightarrow>
     length (imp_functions imps) = length (imported_funcs m) \<and>
     length (imp_tables imps) = length (imported_tables m) \<and>
     length (imp_memories imps) = length (imported_memories m) \<and>
     length (imp_globals imps) = length (imported_globals m) \<and>
     (\<forall>imp \<in> set (imp_tables imps). points_to_table st (ti_vmctx imp) (ti_from imp)) \<and>
     (\<forall>imp \<in> set (imp_memories imps). points_to_memory st (mi_vmctx imp) (mi_from imp)) \<and>
     (\<forall>imp \<in> set (imp_globals imps). points_to_global st (gi_from imp))"

definition plans_ok :: "wasm_module \<Rightarrow> bool" where
  "plans_ok m \<longleftrightarrow>
     (\<forall>plan \<in> set (memory_plans m). \<exists>memory windows. valid_memory memory \<and>
        memory_plan_for_memory memory (target_tunables windows) = Some plan) \<and>
     (\<forall>plan \<in> set (table_plans m). \<forall>mx. tbl_maximum (tp_table plan) = Some mx \<longrightarrow>
        tbl_minimum (tp_table plan) \<le> mx) \<and>
     length (imported_globals m) \<le> length (globals m)"

definition args_ok ::
  "instance_env \<Rightarrow> wasm_module \<Rightarrow> address list \<Rightarrow> resolved_imports \<Rightarrow> u32 list \<Rightarrow> store \<Rightarrow> bool" where
  "args_ok env m finished_functions imps sigs st \<longleftrightarrow>
     plans_ok m \<and> imports_ok st m imps \<and> length sigs = length (signatures m) \<and>
     length finished_functions + length (imported_funcs m) = length (func_sigs m) \<and>
     length (ie_builtins env) = 4 \<and> (\<forall>i. page_ok (ie_memory_os env i)) \<and>
     (\<forall>offs. vmoffsets_new 8 m = Some offs \<longrightarrow> layout_fits offs)"

text \<open>What the operating system guarantees of a new mapping: it overlaps no context in use.\<close>

definition fresh_context :: "store \<Rightarrow> address \<Rightarrow> vmoffsets \<Rightarrow> bool" where
  "fresh_context st a offs \<longleftrightarrow>
     st_instances st a = None \<and>
     (\<forall>b inst. st_instances st b = Some inst \<longrightarrow>
        apart a (lay_size offs) b (lay_size (in_offsets inst)))"

lemma create_tables_ok:
  assumes "create_tables env m = Inr tables" and "plans_ok m"
  shows "length tables + length (imported_tables m) = length (table_plans m)"
    and "\<forall>t \<in> set tables. table_inv t"
proof -
  let ?plans = "drop (length (imported_tables m)) (table_plans m)"
  have le: "length (imported_tables m) \<le> length (table_plans m)"
    and all: "list_all2 (\<lambda>ip t. table_new (ie_table_alloc env (fst ip)) (snd ip) = Inr t) (enumerate 0 ?plans) tables"
    using assms(1) by (auto simp: create_tables_def slice_from_def map_res_Inr_iff split_beta split: if_splits)
  show "length tables + length (imported_tables m) = length (table_plans m)"
    using list_all2_lengthD [OF all] le by simp
  show "\<forall>t \<in> set tables. table_inv t"
  proof
    fix t assume "t \<in> set tables"
    then obtain j where j: "j < length tables" "t = tables ! j" by (auto simp: in_set_conv_nth)
    then have lt: "j < length ?plans" using list_all2_lengthD [OF all] by simp
    then have "table_new (ie_table_alloc env j) (?plans ! j) = Inr t"
      using list_all2_nthD2 [OF all j(1)] j(2) by (simp add: nth_enumerate_eq)
    moreover have "?plans ! j \<in> set (table_plans m)" using lt nth_mem in_set_dropD by metis
    ultimately show "table_inv t" using table_new_inv assms(2) unfolding plans_ok_def by blast
  qed
qed

lemma map_err_Inr [simp]: "map_err f r = Inr x \<longleftrightarrow> r = Inr x"
  by (auto simp: map_err_def split: sum.splits error.splits)

lemma create_memories_ok:
  assumes "create_memories env m = Inr memories" and "plans_ok m"
    and pg: "\<forall>i. page_ok (ie_memory_os env i)"
  shows "length memories + length (imported_memories m) = length (memory_plans m)"
    and "\<forall>mem \<in> set memories. lm_inv mem"
proof -
  let ?plans = "drop (length (imported_memories m)) (memory_plans m)"
  have le: "length (imported_memories m) \<le> length (memory_plans m)"
    and all: "list_all2 (\<lambda>ip t. linear_memory_new (ie_memory_os env (fst ip)) (snd ip) = Inr t) (enumerate 0 ?plans) memories"
    using assms(1) by (auto simp: create_memories_def slice_from_def map_res_Inr_iff split_beta split: if_splits)
  show "length memories + length (imported_memories m) = length (memory_plans m)"
    using list_all2_lengthD [OF all] le by simp
  show "\<forall>mem \<in> set memories. lm_inv mem"
  proof
    fix t assume "t \<in> set memories"
    then obtain j where j: "j < length memories" "t = memories ! j" by (auto simp: in_set_conv_nth)
    then have lt: "j < length ?plans" using list_all2_lengthD [OF all] by simp
    then have new: "linear_memory_new (ie_memory_os env j) (?plans ! j) = Inr t"
      using list_all2_nthD2 [OF all j(1)] j(2) by (simp add: nth_enumerate_eq)
    have "?plans ! j \<in> set (memory_plans m)" using lt nth_mem in_set_dropD by metis
    then obtain memory windows where mem: "valid_memory memory"
        "memory_plan_for_memory memory (target_tunables windows) = Some (?plans ! j)"
      using assms(2) unfolding plans_ok_def by blast
    then show "lm_inv t" using planned_memory_new [OF mem(1), of "ie_memory_os env j" windows] pg new by auto
  qed
qed

lemma create_globals_ok:
  "create_globals m = Inr gs \<Longrightarrow>
   length gs = length (globals m) - length (imported_globals m) \<and> (\<forall>g \<in> set gs. length g = 16)"
  by (auto simp: create_globals_def slice_from_def global_definition_new_def split: if_splits)

lemma slot_good_new_instance:
  assumes "st_instances st a = None" and "st_instances st2 = (st_instances st)(a \<mapsto> inst2)"
    and "slot_good st i s c"
  shows "slot_good st2 i s c"
proof -
  have ext: "st_instances st2 b = Some j" if "st_instances st b = Some j" for b j
    using that assms(1,2) by auto
  show ?thesis
    using assms(3)
    by (cases s; cases c)
      (auto simp: points_to_table_def points_to_memory_def points_to_global_def dest!: ext)
qed

lemma allocateD:
  assumes "instance_allocate env m finished_functions imps sigs st = Inr (a, st1)"
  obtains tables memories defs globs offs h inst where
    "create_tables env m = Inr tables" "create_memories env m = Inr memories"
    "map_res vmtable tables = Inr defs" "create_globals m = Inr globs" "vmoffsets_new 8 m = Some offs"
    "copy_arrays a (context_arrays env offs sigs imps defs (map vmmemory memories) globs) (st_heap st) = Inr h"
    "inst = \<lparr>in_refcount = 1, in_dependencies = imp_dependencies imps, in_module = m, in_offsets = offs,
       in_memories = memories, in_tables = tables, in_finished_functions = finished_functions\<rparr>"
    "st1 = st\<lparr>st_heap := h, st_instances := (st_instances st)(a \<mapsto> inst)\<rparr>"
  using assms unfolding instance_allocate_def
  by (auto simp: Let_def bind_res_Inr_iff unwrap_res_def split: option.splits)

text \<open>The imports of a context are those that it was given.\<close>

definition import_specs :: "resolved_imports \<Rightarrow> ((u32 \<Rightarrow> slot) \<times> cell list) list" where
  "import_specs imps =
     [(FuncImport, map CFuncImport (imp_functions imps)), (TableImport, map CTableImport (imp_tables imps)),
      (MemImport, map CMemoryImport (imp_memories imps)), (GlobImport, map CGlobalImport (imp_globals imps))]"

lemma import_specs_subset: "set (import_specs imps) \<subseteq> set (context_specs env sigs imps defs mems globs)"
  by (auto simp: context_specs_def import_specs_def)

lemma allocate_keeps:
  assumes alloc: "instance_allocate env m finished_functions imps sigs st = Inr (a, st1)"
    and inv: "store_inv st" and args: "args_ok env m finished_functions imps sigs st"
    and fresh: "\<And>offs. vmoffsets_new 8 m = Some offs \<Longrightarrow> fresh_context st a offs"
  shows "store_inv st1 \<and> (\<exists>inst. st_instances st1 = (st_instances st)(a \<mapsto> inst) \<and>
    in_module inst = m \<and> in_finished_functions inst = finished_functions \<and>
    create_memories env m = Inr (in_memories inst) \<and> vmoffsets_new 8 m = Some (in_offsets inst) \<and>
    in_refcount inst = 1 \<and> in_dependencies inst = imp_dependencies imps \<and>
    (\<forall>(mk, cs) \<in> set (import_specs imps). \<forall>i < length cs. cell_at (st_heap st1) a (in_offsets inst) (mk (of_nat i)) = Some (cs ! i))) \<and>
    st_global_exports st1 = st_global_exports st \<and>
    (\<forall>b i s. st_instances st b = Some i \<and> unat (slot_index s) < used i s \<longrightarrow>
       cell_at (st_heap st1) b (in_offsets i) s = cell_at (st_heap st) b (in_offsets i) s)"
proof -
  obtain tables memories defs globs offs h inst where
    tb: "create_tables env m = Inr tables" and mm: "create_memories env m = Inr memories"
    and df: "map_res vmtable tables = Inr defs" and gl: "create_globals m = Inr globs"
    and of: "vmoffsets_new 8 m = Some offs"
    and cp: "copy_arrays a (context_arrays env offs sigs imps defs (map vmmemory memories) globs) (st_heap st) = Inr h"
    and inst: "inst = \<lparr>in_refcount = 1, in_dependencies = imp_dependencies imps, in_module = m, in_offsets = offs,
       in_memories = memories, in_tables = tables, in_finished_functions = finished_functions\<rparr>"
    and st1: "st1 = st\<lparr>st_heap := h, st_instances := (st_instances st)(a \<mapsto> inst)\<rparr>"
    by (rule allocateD [OF alloc])
  have plans: "plans_ok m" and imps: "imports_ok st m imps" and lens: "length sigs = length (signatures m)"
    "length finished_functions + length (imported_funcs m) = length (func_sigs m)" "length (ie_builtins env) = 4"
    and pg: "\<forall>i. page_ok (ie_memory_os env i)" and lf: "layout_fits offs"
    using args of by (simp_all add: args_ok_def)
  have ok: "context_ok offs" using lf vmoffsets_new_counts(1) [OF of] by (simp add: context_ok_def)
  note fr = fresh [OF of, unfolded fresh_context_def]
  have shape: "inst_shape inst"
    using create_tables_ok [OF tb plans] create_memories_ok [OF mm plans pg] lens of ok plans
    by (simp add: inst_shape_def inst Let_def plans_ok_def)
  note counts = vmoffsets_new_counts [OF of]
  have dl: "length defs = length tables" and dn: "\<And>i. i < length tables \<Longrightarrow> vmtable (tables ! i) = Inr (defs ! i)"
    using df by (auto simp: map_res_Inr_iff list_all2_conv_all_nth)
  let ?specs = "context_specs env sigs imps defs (map vmmemory memories) globs"
  have "\<forall>sp \<in> set ?specs. array_spec offs sp"
    using counts lens imps create_tables_ok(1) [OF tb plans] create_memories_ok(1) [OF mm plans pg]
      create_globals_ok [OF gl] dl
    by (simp add: context_specs_def array_spec_def slot_kinds_array imports_ok_def)
  moreover have "distinct (map (\<lambda>sp. slot_kind (fst sp 0)) ?specs)" by (simp add: context_specs_def)
  ultimately obtain h' where cp': "copy_arrays a (map (array_begin offs) ?specs) (st_heap st) = Inr h'"
    "\<forall>(mk, cs) \<in> set ?specs. \<forall>i < length cs. cell_at h' a offs (mk (of_nat i)) = Some (cs ! i)"
    "\<And>b offs' s' c'. context_ok offs' \<Longrightarrow> apart a (lay_size offs) b (lay_size offs') \<Longrightarrow> cell_fits s' c' \<Longrightarrow>
       cell_at (st_heap st) b offs' s' = Some c' \<Longrightarrow> cell_at h' b offs' s' = Some c'"
    using copy_arrays_spec [OF ok, of ?specs a "st_heap st"] by blast
  have h: "h' = h" using cp cp'(1) by (simp add: context_arrays_begin [OF lf])
  have insts: "st_instances st1 = (st_instances st)(a \<mapsto> inst)" by (simp add: st1)
  note keep = slot_good_new_instance [OF fr [THEN conjunct1] insts]
  have filled: "cell_at (st_heap st1) a offs (mk j) = Some (cs ! unat j)"
    if "(mk, cs) \<in> set ?specs" "unat j < length cs" for mk cs and j :: u32
    using cp'(2) that by (fastforce simp: st1 h)
  have new: "context_good st1 a inst"
    unfolding context_good_def
  proof (intro allI impI)
    fix s assume "unat (slot_index s) < used inst s"
    then obtain c where c: "cell_at (st_heap st1) a offs s = Some c" "slot_good st inst s c"
      using filled [of SigId "map CSig sigs"] filled [of FuncImport] filled [of TableImport]
        filled [of MemImport] filled [of GlobImport] filled [of TableDef] filled [of MemDef]
        filled [of GlobDef] filled [of Builtin] imps lens create_globals_ok [OF gl] dl dn
      by (cases s) (fastforce simp: context_specs_def inst imports_ok_def)+
    then show "\<exists>c. cell_at (st_heap st1) a (in_offsets inst) s = Some c \<and> slot_good st1 inst s c"
      using keep [OF c(2)] by (auto simp: inst)
  qed
  have same: "cell_at (st_heap st1) b (in_offsets i) s = cell_at (st_heap st) b (in_offsets i) s"
    if b: "st_instances st b = Some i" and lt: "unat (slot_index s) < used i s" for b i s
  proof -
    obtain c where c: "cell_at (st_heap st) b (in_offsets i) s = Some c" "slot_good st i s c"
      by (rule good_cell [OF inv b lt])
    have "apart a (lay_size offs) b (lay_size (in_offsets i))" using fr b by blast
    then show ?thesis
      using cp'(3) [OF inst_shapeD(1) [OF own_slot(1) [OF inv b]] _ slot_good_fits [OF c(2)] c(1)] c(1)
      by (simp add: st1 h)
  qed
  have old: "context_good st1 b inst'" if b: "st_instances st b = Some inst'" for b inst'
    unfolding context_good_def using good_cell [OF inv b] same [OF b] keep by metis
  have "store_inv st1"
    unfolding store_inv_def
  proof (intro conjI allI impI)
    fix b i assume "st_instances st1 b = Some i"
    then show "inst_shape i" "context_good st1 b i"
      using shape new old own_slot(1) [OF inv] by (auto simp: insts split: if_splits)
  next
    fix b b' i i'
    assume "st_instances st1 b = Some i \<and> st_instances st1 b' = Some i' \<and> b \<noteq> b'"
    then show "apart b (lay_size (in_offsets i)) b' (lay_size (in_offsets i'))"
      using fr inv by (auto simp: insts inst store_inv_def split: if_splits intro: apart_sym)
  qed
  moreover have "\<forall>(mk, cs) \<in> set (import_specs imps). \<forall>i < length cs. cell_at (st_heap st1) a offs (mk (of_nat i)) = Some (cs ! i)"
    using cp'(2) import_specs_subset [of imps env sigs defs "map vmmemory memories" globs] by (fastforce simp: st1 h)
  ultimately show ?thesis
    using insts mm of same by (intro conjI exI [of _ inst]) (simp_all add: st1 inst)
qed

section \<open>Reading the context of a good store\<close>

lemma read_slot:
  assumes inv: "store_inv st" and a: "st_instances st a = Some inst"
    and i: "i < used inst (mk (of_nat i))" and mk: "array_mk mk"
  obtains x c where "slot_offset (in_offsets inst) (mk (of_nat i)) = Some x"
    "read_cell (a + ucast x) (st_heap st) = Some c" "slot_good st inst (mk (of_nat i)) c"
    "unat (of_nat i :: u32) = i"
proof -
  note shape = own_slot(1) [OF inv a]
  have un: "unat (of_nat i :: u32) = i" by (rule unat_index [OF shape i])
  then have "unat (slot_index (mk (of_nat i))) < used inst (mk (of_nat i))"
    using mk i by (simp add: array_mk_def)
  then obtain c where "cell_at (st_heap st) a (in_offsets inst) (mk (of_nat i)) = Some c"
    "slot_good st inst (mk (of_nat i)) c"
    by (rule good_cell [OF inv a])
  then show ?thesis using that un by (auto simp: cell_at_def split: option.splits)
qed

lemma read_signature:
  assumes "store_inv st" "st_instances st a = Some inst" "i < length (signatures (in_module inst))"
  shows "\<exists>x. signature_id (st_heap st) a (in_offsets inst) i = Inr x"
proof -
  have "i < used inst (SigId (of_nat i))" using assms(3) by simp
  then obtain x c where "slot_offset (in_offsets inst) (SigId (of_nat i)) = Some x"
    "read_cell (a + ucast x) (st_heap st) = Some c" "slot_good st inst (SigId (of_nat i)) c"
    "unat (of_nat i :: u32) = i"
    by (rule read_slot [OF assms(1,2) _ slot_kinds_array(1)])
  then show ?thesis by (cases c) (auto simp: signature_id_def vm_add_def deref_sig_def)
qed

lemma read_function_import:
  assumes "store_inv st" "st_instances st a = Some inst" "i < length (imported_funcs (in_module inst))"
  shows "\<exists>x. imported_function (st_heap st) a (in_offsets inst) i = Inr x"
proof -
  have "i < used inst (FuncImport (of_nat i))" using assms(3) by simp
  then obtain x c where "slot_offset (in_offsets inst) (FuncImport (of_nat i)) = Some x"
    "read_cell (a + ucast x) (st_heap st) = Some c" "slot_good st inst (FuncImport (of_nat i)) c"
    "unat (of_nat i :: u32) = i"
    by (rule read_slot [OF assms(1,2) _ slot_kinds_array(2)])
  then show ?thesis by (cases c) (auto simp: imported_function_def vm_add_def deref_function_import_def)
qed

text \<open>The global that an index names: where it is and that it is there.\<close>

definition global_pointer :: "store \<Rightarrow> address \<Rightarrow> wasm_instance \<Rightarrow> nat \<Rightarrow> address res" where
  "global_pointer st a inst g =
     (case defined_global_index (in_module inst) g of
        Some d \<Rightarrow> global_mut a (in_offsets inst) d
      | None \<Rightarrow> bind_res (imported_global (st_heap st) a (in_offsets inst) g) (\<lambda>imp. Inr (gi_from imp)))"

lemma defined_global_pointer:
  assumes "store_inv st" "st_instances st b = Some inst" "d < defined_globals inst"
  obtains x val where "slot_offset (in_offsets inst) (GlobDef (of_nat d)) = Some x"
    "global_mut b (in_offsets inst) d = Inr (b + ucast x)"
    "deref_global (st_heap st) (b + ucast x) = Inr val" "length val = 16"
proof -
  have "d < used inst (GlobDef (of_nat d))" using assms(3) by simp
  then obtain x c where x: "slot_offset (in_offsets inst) (GlobDef (of_nat d)) = Some x"
    "read_cell (b + ucast x) (st_heap st) = Some c" "slot_good st inst (GlobDef (of_nat d)) c"
    "unat (of_nat d :: u32) = d"
    by (rule read_slot [OF assms(1,2) _ slot_kinds_array(8)])
  then show ?thesis using that by (cases c) (auto simp: global_mut_def vm_add_def deref_global_def)
qed

lemma global_pointer_points:
  assumes inv: "store_inv st" and a: "st_instances st a = Some inst"
    and g: "g < length (globals (in_module inst))"
  shows "\<exists>p. global_pointer st a inst g = Inr p \<and> points_to_global st p"
proof (cases "defined_global_index (in_module inst) g")
  case (Some d)
  then have d: "d < defined_globals inst" using g global_space.defined_lt by metis
  obtain x val where "slot_offset (in_offsets inst) (GlobDef (of_nat d)) = Some x"
    "global_mut a (in_offsets inst) d = Inr (a + ucast x)"
    "deref_global (st_heap st) (a + ucast x) = Inr val" "length val = 16"
    by (rule defined_global_pointer [OF inv a d])
  then show ?thesis using Some a d by (auto simp: global_pointer_def points_to_global_def)
next
  case None
  then have "g < used inst (GlobImport (of_nat g))"
    by (simp add: global_space.defined_None_iff is_imported_global_def)
  then obtain x c where "slot_offset (in_offsets inst) (GlobImport (of_nat g)) = Some x"
    "read_cell (a + ucast x) (st_heap st) = Some c" "slot_good st inst (GlobImport (of_nat g)) c"
    "unat (of_nat g :: u32) = g"
    by (rule read_slot [OF inv a _ slot_kinds_array(5)])
  then show ?thesis
    using None by (cases c) (auto simp: global_pointer_def imported_global_def vm_add_def deref_global_import_def)
qed

lemma global_pointer_ok:
  assumes inv: "store_inv st" and a: "st_instances st a = Some inst"
    and g: "g < length (globals (in_module inst))"
  obtains p val where "global_pointer st a inst g = Inr p" "deref_global (st_heap st) p = Inr val"
    "length val = 16"
proof -
  obtain p b owner d where p: "global_pointer st a inst g = Inr p" and o: "st_instances st b = Some owner"
    "d < defined_globals owner" "global_mut b (in_offsets owner) d = Inr p"
    using global_pointer_points [OF assms] by (auto simp: points_to_global_def)
  obtain x val where "slot_offset (in_offsets owner) (GlobDef (of_nat d)) = Some x"
    "global_mut b (in_offsets owner) d = Inr (b + ucast x)"
    "deref_global (st_heap st) (b + ucast x) = Inr val" "length val = 16"
    by (rule defined_global_pointer [OF inv o(1,2)])
  then show ?thesis using that p o(3) by simp
qed

lemma init_start_ok:
  assumes "store_inv st" "st_instances st a = Some inst"
    and "\<And>g. base = Some g \<Longrightarrow> g < length (globals (in_module inst))"
  shows "\<exists>start. init_start st a base off = Inr start"
proof (cases base)
  case (Some g)
  then obtain p val where "global_pointer st a inst g = Inr p" "deref_global (st_heap st) p = Inr val"
    using global_pointer_ok [OF assms(1,2)] assms(3) by metis
  then show ?thesis
    using Some assms(2) by (simp add: init_start_def instance_of_def flip: global_pointer_def)
qed (simp add: init_start_def)

lemma table_slice_ok:
  assumes inv: "store_inv st" and a: "st_instances st a = Some inst"
    and t: "te_table_index init < length (table_plans (in_module inst))"
  obtains owner d i where "get_table_slice st a init = Inr (owner, d, tb_vec (in_tables i ! d))"
    "st_instances st owner = Some i" "d < length (in_tables i)"
proof (cases "defined_table_index (in_module inst) (te_table_index init)")
  case (Some d)
  have "length (in_tables inst) + length (imported_tables (in_module inst)) = length (table_plans (in_module inst))"
    using own_slot(1) [OF inv a] by (simp add: inst_shape_def Let_def)
  then have "d < length (in_tables inst)" using table_space.defined_lt [OF Some t] by simp
  then show ?thesis
    using that Some a by (simp add: get_table_slice_def instance_of_def index_res_def)
next
  case None
  let ?t = "te_table_index init"
  have "?t < used inst (TableImport (of_nat ?t))"
    using None by (simp add: table_space.defined_None_iff is_imported_table_def)
  then obtain x c where x: "slot_offset (in_offsets inst) (TableImport (of_nat ?t)) = Some x"
    "read_cell (a + ucast x) (st_heap st) = Some c" "slot_good st inst (TableImport (of_nat ?t)) c"
    "unat (of_nat ?t :: u32) = ?t"
    by (rule read_slot [OF inv a _ slot_kinds_array(3)])
  then obtain imp where imp: "imported_table (st_heap st) a (in_offsets inst) ?t = Inr imp"
    "points_to_table st (ti_vmctx imp) (ti_from imp)"
    by (cases c) (auto simp: imported_table_def vm_add_def deref_table_import_def)
  then obtain owner d where o: "st_instances st (ti_vmctx imp) = Some owner" "d < length (in_tables owner)"
    "table_mut (ti_vmctx imp) (in_offsets owner) d = Inr (ti_from imp)"
    by (auto simp: points_to_table_def)
  have "inst_table_index owner (ti_vmctx imp) (ti_from imp) = Inr d"
    by (rule table_index_of_pointer [OF own_slot(1) [OF inv o(1)] o(2,3)])
  then show ?thesis
    using that [OF _ o(1,2)] None a imp(1) o by (simp add: get_table_slice_def instance_of_def index_res_def)
qed

lemma own_memory_definition:
  assumes "store_inv st" "st_instances st a = Some inst" "d < length (in_memories inst)"
  shows "vm_memory (st_heap st) a (in_offsets inst) d = Inr (vmmemory (in_memories inst ! d))"
proof -
  have "d < used inst (MemDef (of_nat d))" using assms(3) by simp
  then obtain x c where "slot_offset (in_offsets inst) (MemDef (of_nat d)) = Some x"
    "read_cell (a + ucast x) (st_heap st) = Some c" "slot_good st inst (MemDef (of_nat d)) c"
    "unat (of_nat d :: u32) = d"
    by (rule read_slot [OF assms(1,2) _ slot_kinds_array(7)])
  then show ?thesis by (cases c) (auto simp: vm_memory_def memory_mut_def vm_add_def deref_memory_def)
qed

lemma memory_slice_ok:
  assumes inv: "store_inv st" and a: "st_instances st a = Some inst"
    and t: "dl_memory_index (di_location init) < length (memory_plans (in_module inst))"
  obtains owner d i where "get_memory_slice st a init = Inr (owner, d, vmmemory (in_memories i ! d))"
    "st_instances st owner = Some i" "d < length (in_memories i)"
proof (cases "defined_memory_index (in_module inst) (dl_memory_index (di_location init))")
  case (Some d)
  have "length (in_memories inst) + length (imported_memories (in_module inst)) = length (memory_plans (in_module inst))"
    using own_slot(1) [OF inv a] by (simp add: inst_shape_def Let_def)
  then have "d < length (in_memories inst)" using memory_space.defined_lt [OF Some t] by simp
  then show ?thesis
    using that Some a own_memory_definition [OF inv a] by (simp add: get_memory_slice_def instance_of_def)
next
  case None
  then have "dl_memory_index (di_location init) < length (imported_memories (in_module inst))"
    by (simp add: memory_space.defined_None_iff is_imported_memory_def)
  then obtain imp owner d where o: "imported_memory (st_heap st) a (in_offsets inst) (dl_memory_index (di_location init)) = Inr imp"
    "st_instances st (mi_vmctx imp) = Some owner" "d < length (in_memories owner)"
    "inst_memory_index owner (mi_vmctx imp) (mi_from imp) = Inr d"
    using imported_memory_owner [OF inv a] by metis
  then show ?thesis
    using that [OF _ o(2,3)] None a own_memory_definition [OF inv o(2,3)]
    by (simp add: get_memory_slice_def instance_of_def)
qed

lemma element_of_ok:
  assumes inv: "store_inv st" and a: "st_instances st a = Some inst"
    and f: "f < length (func_sigs (in_module inst))"
    and sigs: "\<forall>s \<in> set (func_sigs (in_module inst)). s < length (signatures (in_module inst))"
  shows "\<exists>e. element_of st a f = Inr e"
proof -
  have "func_sigs (in_module inst) ! f < length (signatures (in_module inst))" using sigs f by simp
  then obtain ty where ty: "signature_id (st_heap st) a (in_offsets inst) (func_sigs (in_module inst) ! f) = Inr ty"
    using read_signature [OF inv a] by blast
  show ?thesis
  proof (cases "defined_func_index (in_module inst) f")
    case (Some d)
    have "length (in_finished_functions inst) + length (imported_funcs (in_module inst)) = length (func_sigs (in_module inst))"
      using own_slot(1) [OF inv a] by (simp add: inst_shape_def Let_def)
    then have "d < length (in_finished_functions inst)" using func_space.defined_lt [OF Some f] by simp
    then show ?thesis using Some f a ty by (simp add: element_of_def instance_of_def index_res_def)
  next
    case None
    then have "f < length (imported_funcs (in_module inst))"
      by (simp add: func_space.defined_None_iff is_imported_function_def)
    then show ?thesis
      using None f a ty read_function_import [OF inv a] by (fastforce simp: element_of_def instance_of_def index_res_def)
  qed
qed

end
