(* ===== verification/Initialization.thy ===== *)
theory Initialization
  imports Instantiation
begin

text \<open>
  Why initialization of an instance is safe: writing segments changes the contents of tables and
  memories and nothing that the bounds checks looked at, so that after the checks no initializer
  panics or faults.
\<close>

section \<open>Stores that differ in contents only\<close>

definition bytes_rel :: "linear_memory \<Rightarrow> linear_memory \<Rightarrow> bool" where
  "bytes_rel mem mem' \<longleftrightarrow>
     (\<exists>f. mem' = mem\<lparr>lm_mmap := (lm_mmap mem)\<lparr>mm_bytes := f\<rparr>\<rparr> \<and>
          (\<forall>i \<ge> lm_bytes mem. f i = mm_bytes (lm_mmap mem) i))"

definition vec_rel :: "table \<Rightarrow> table \<Rightarrow> bool" where
  "vec_rel t t' \<longleftrightarrow> (\<exists>v. t' = t\<lparr>tb_vec := v\<rparr> \<and> length v = length (tb_vec t))"

definition inst_rel :: "wasm_instance \<Rightarrow> wasm_instance \<Rightarrow> bool" where
  "inst_rel i i' \<longleftrightarrow>
     (\<exists>ms ts. i' = i\<lparr>in_memories := ms, in_tables := ts\<rparr> \<and>
        list_all2 bytes_rel (in_memories i) ms \<and> list_all2 vec_rel (in_tables i) ts)"

definition contents_rel :: "store \<Rightarrow> store \<Rightarrow> bool" where
  "contents_rel st st' \<longleftrightarrow>
     st_heap st' = st_heap st \<and> st_global_exports st' = st_global_exports st \<and>
     (\<forall>b. rel_option inst_rel (st_instances st b) (st_instances st' b))"

lemma bytes_relI:
  "(\<And>i. lm_bytes mem \<le> i \<Longrightarrow> f i = mm_bytes (lm_mmap mem) i) \<Longrightarrow>
   bytes_rel mem (mem\<lparr>lm_mmap := (lm_mmap mem)\<lparr>mm_bytes := f\<rparr>\<rparr>)"
  by (auto simp: bytes_rel_def)

lemma bytes_rel_refl [simp]: "bytes_rel m m"
  using bytes_relI [of m "mm_bytes (lm_mmap m)"] by simp

lemma vec_rel_refl [simp]: "vec_rel t t"
  unfolding vec_rel_def by (rule exI [of _ "tb_vec t"]) simp

lemma bytes_rel_trans: "bytes_rel a b \<Longrightarrow> bytes_rel b c \<Longrightarrow> bytes_rel a c"
  by (auto simp: bytes_rel_def lm_bytes_def)

lemma vec_rel_trans: "vec_rel a b \<Longrightarrow> vec_rel b c \<Longrightarrow> vec_rel a c"
  by (auto simp: vec_rel_def)

lemma inst_rel_refl [simp]: "inst_rel i i"
  unfolding inst_rel_def
  by (intro exI [of _ "in_memories i"] exI [of _ "in_tables i"]) (simp add: list_all2_same)

lemma inst_rel_trans:
  assumes "inst_rel a b" "inst_rel b c"
  shows "inst_rel a c"
proof -
  obtain ms ts ms' ts' where c: "c = a\<lparr>in_memories := ms', in_tables := ts'\<rparr>"
    and m: "list_all2 bytes_rel (in_memories a) ms" "list_all2 bytes_rel ms ms'"
    and t: "list_all2 vec_rel (in_tables a) ts" "list_all2 vec_rel ts ts'"
    using assms by (auto simp: inst_rel_def)
  have "list_all2 bytes_rel (in_memories a) ms'" by (rule list_all2_trans [OF bytes_rel_trans m])
  moreover have "list_all2 vec_rel (in_tables a) ts'" by (rule list_all2_trans [OF vec_rel_trans t])
  ultimately show ?thesis unfolding inst_rel_def using c by (intro exI [of _ ms'] exI [of _ ts'] conjI)
qed

lemma contents_rel_refl [simp]: "contents_rel st st"
  by (simp add: contents_rel_def option.rel_refl)

lemma contents_rel_trans:
  assumes "contents_rel a b" "contents_rel b c"
  shows "contents_rel a c"
proof -
  have "rel_option inst_rel (st_instances a x) (st_instances c x)" for x
  proof -
    have "rel_option inst_rel (st_instances a x) (st_instances b x)"
      "rel_option inst_rel (st_instances b x) (st_instances c x)"
      using assms by (simp_all add: contents_rel_def)
    then show ?thesis
      by (cases "st_instances a x"; cases "st_instances b x"; cases "st_instances c x")
        (auto intro: inst_rel_trans)
  qed
  then show ?thesis using assms by (simp add: contents_rel_def)
qed

text \<open>What the relation keeps.\<close>

lemma bytes_rel_keeps:
  assumes "bytes_rel mem mem'"
  shows "vmmemory mem' = vmmemory mem" and "lm_inv mem \<Longrightarrow> lm_inv mem'"
  using assms by (auto simp: bytes_rel_def vmmemory_def lm_inv_def lm_bytes_def room_def accessible_def)

lemma vec_rel_keeps:
  assumes "vec_rel t t'"
  shows "vmtable t' = vmtable t" and "table_inv t \<Longrightarrow> table_inv t'"
  using assms by (auto simp: vec_rel_def vmtable_def table_size_def table_inv_def split: option.splits)

lemma inst_rel_keeps:
  assumes "inst_rel i i'"
  shows "in_module i' = in_module i" "in_offsets i' = in_offsets i"
    "in_finished_functions i' = in_finished_functions i"
    "length (in_memories i') = length (in_memories i)" "length (in_tables i') = length (in_tables i)"
    "\<And>d. d < length (in_memories i) \<Longrightarrow> bytes_rel (in_memories i ! d) (in_memories i' ! d)"
    "\<And>d. d < length (in_tables i) \<Longrightarrow> vec_rel (in_tables i ! d) (in_tables i' ! d)"
  using assms by (auto simp: inst_rel_def list_all2_lengthD list_all2_nthD)

lemma inst_rel_shape: "inst_rel i i' \<Longrightarrow> inst_shape i \<Longrightarrow> inst_shape i'"
proof -
  assume rel: "inst_rel i i'" and shape: "inst_shape i"
  note k = inst_rel_keeps [OF rel]
  have "lm_inv (in_memories i' ! d)" if "d < length (in_memories i)" for d
    using bytes_rel_keeps(2) [OF k(6) [OF that]] shape that by (simp add: inst_shape_def Let_def)
  moreover have "table_inv (in_tables i' ! d)" if "d < length (in_tables i)" for d
    using vec_rel_keeps(2) [OF k(7) [OF that]] shape that by (simp add: inst_shape_def Let_def)
  ultimately show "inst_shape i'"
    using shape k(1-5) by (auto simp: inst_shape_def Let_def in_set_conv_nth)
qed

lemma contents_relD:
  assumes "contents_rel st st'"
  shows "st_heap st' = st_heap st"
    and "st_instances st b = Some i \<Longrightarrow> \<exists>i'. st_instances st' b = Some i' \<and> inst_rel i i'"
    and "st_instances st' b = Some i' \<Longrightarrow> \<exists>i. st_instances st b = Some i \<and> inst_rel i i'"
    and "st_instances st b = None \<Longrightarrow> st_instances st' b = None"
proof -
  have rel: "rel_option inst_rel (st_instances st b) (st_instances st' b)"
    using assms by (simp add: contents_rel_def)
  show "st_heap st' = st_heap st" using assms by (simp add: contents_rel_def)
  show "st_instances st b = Some i \<Longrightarrow> \<exists>i'. st_instances st' b = Some i' \<and> inst_rel i i'"
    and "st_instances st' b = Some i' \<Longrightarrow> \<exists>i. st_instances st b = Some i \<and> inst_rel i i'"
    and "st_instances st b = None \<Longrightarrow> st_instances st' b = None"
    using rel by (cases "st_instances st b"; cases "st_instances st' b"; simp)+
qed

lemma contents_cases:
  assumes "contents_rel st st'"
  obtains (none) "st_instances st a = None" "st_instances st' a = None"
  | (some) i i' where "st_instances st a = Some i" "st_instances st' a = Some i'" "inst_rel i i'"
proof (cases "st_instances st a")
  case None
  then show ?thesis by (rule none [OF _ contents_relD(4) [OF assms None]])
next
  case (Some i)
  obtain i' where "st_instances st' a = Some i'" "inst_rel i i'"
    using contents_relD(2) [OF assms Some] by (elim exE conjE)
  with Some show ?thesis by (rule some)
qed

lemma points_to_contents:
  assumes "contents_rel st st'"
  shows "points_to_table st b p \<Longrightarrow> points_to_table st' b p"
    and "points_to_memory st b p \<Longrightarrow> points_to_memory st' b p"
    and "points_to_global st p \<Longrightarrow> points_to_global st' p"
proof -
  have at: "\<exists>i'. st_instances st' b = Some i' \<and> in_offsets i' = in_offsets i \<and> in_module i' = in_module i \<and>
      length (in_tables i') = length (in_tables i) \<and> length (in_memories i') = length (in_memories i)"
    if "st_instances st b = Some i" for b i
    using contents_relD(2) [OF assms that] by (auto simp: inst_rel_keeps)
  show "points_to_table st b p \<Longrightarrow> points_to_table st' b p"
    and "points_to_memory st b p \<Longrightarrow> points_to_memory st' b p"
    and "points_to_global st p \<Longrightarrow> points_to_global st' p"
    unfolding points_to_table_def points_to_memory_def points_to_global_def
    by (elim exE conjE, drule at, force)+
qed

lemma slot_good_contents:
  assumes "contents_rel st st'" and rel: "inst_rel i i'" and lt: "unat (slot_index s) < used i s"
    and good: "slot_good st i s c"
  shows "slot_good st' i' s c"
proof -
  note k = inst_rel_keeps [OF rel]
  have "vmmemory (in_memories i' ! d) = vmmemory (in_memories i ! d)" if "d < length (in_memories i)" for d
    by (rule bytes_rel_keeps(1) [OF k(6) [OF that]])
  moreover have "vmtable (in_tables i' ! d) = vmtable (in_tables i ! d)" if "d < length (in_tables i)" for d
    by (rule vec_rel_keeps(1) [OF k(7) [OF that]])
  ultimately show ?thesis
    using lt good points_to_contents [OF assms(1)] by (cases s; cases c) simp_all
qed

lemma contents_rel_inv:
  assumes rel: "contents_rel st st'" and inv: "store_inv st"
  shows "store_inv st'"
  unfolding store_inv_def
proof (intro conjI allI impI)
  fix b i' assume "st_instances st' b = Some i'"
  then obtain i where i: "st_instances st b = Some i" "inst_rel i i'" using contents_relD(3) [OF rel] by blast
  note k = inst_rel_keeps [OF i(2)]
  show "inst_shape i'" by (rule inst_rel_shape [OF i(2) own_slot(1) [OF inv i(1)]])
  have "used i' s = used i s" for s using k(1,4,5) by (cases s) simp_all
  then show "context_good st' b i'"
    unfolding context_good_def
    using good_cell [OF inv i(1)] slot_good_contents [OF rel i(2)] contents_relD(1) [OF rel] k(2) by metis
next
  fix a b i' j'
  assume "st_instances st' a = Some i' \<and> st_instances st' b = Some j' \<and> a \<noteq> b"
  then obtain i j where "st_instances st a = Some i" "inst_rel i i'" "st_instances st b = Some j" "inst_rel j j'" "a \<noteq> b"
    using contents_relD(3) [OF rel] by metis
  then show "apart a (lay_size (in_offsets i')) b (lay_size (in_offsets j'))"
    using inv inst_rel_keeps(2) unfolding store_inv_def by metis
qed

text \<open>What the bounds checks and initializers read does not change.\<close>

lemma reads_same:
  assumes rel: "contents_rel st st'"
  shows "init_start st' a base off = init_start st a base off"
    and "element_of st' a f = element_of st a f"
proof -
  show "init_start st' a base off = init_start st a base off"
    using contents_relD(1) [OF rel]
    by (cases rule: contents_cases [OF rel, of a])
      (simp_all add: init_start_def instance_of_def inst_rel_keeps split: option.split)
  show "element_of st' a f = element_of st a f"
    using contents_relD(1) [OF rel]
    by (cases rule: contents_cases [OF rel, of a])
      (simp_all add: element_of_def instance_of_def inst_rel_keeps split: option.split)
qed

lemma memory_slice_same:
  assumes rel: "contents_rel st st'" and inv: "store_inv st" and a: "st_instances st a = Some inst"
    and t: "dl_memory_index (di_location init) < length (memory_plans (in_module inst))"
  shows "get_memory_slice st' a init = get_memory_slice st a init"
proof -
  obtain inst' where a': "st_instances st' a = Some inst'" "inst_rel inst inst'"
    using contents_relD(2) [OF rel a] by blast
  note k = inst_rel_keeps [OF a'(2)]
  obtain owner d i where sl: "get_memory_slice st a init = Inr (owner, d, vmmemory (in_memories i ! d))"
    "st_instances st owner = Some i" "d < length (in_memories i)"
    by (rule memory_slice_ok [OF inv a t])
  show ?thesis
  proof (cases "defined_memory_index (in_module inst) (dl_memory_index (di_location init))")
    case (Some e)
    then show ?thesis
      using a a' k contents_relD(1) [OF rel] by (simp add: get_memory_slice_def instance_of_def)
  next
    case None
    then obtain imp j where imp: "imported_memory (st_heap st) a (in_offsets inst) (dl_memory_index (di_location init)) = Inr imp"
      and j: "st_instances st (mi_vmctx imp) = Some j"
      using sl(1) a by (auto simp: get_memory_slice_def instance_of_def bind_res_Inr_iff split: option.splits)
    obtain j' where j': "st_instances st' (mi_vmctx imp) = Some j'" "inst_rel j j'"
      using contents_relD(2) [OF rel j] by blast
    show ?thesis
      using None a a' k contents_relD(1) [OF rel] imp j j' inst_rel_keeps [OF j'(2)]
      by (simp add: get_memory_slice_def instance_of_def inst_memory_index_def)
  qed
qed

lemma table_slice_same:
  assumes rel: "contents_rel st st'" and inv: "store_inv st" and a: "st_instances st a = Some inst"
    and t: "te_table_index init < length (table_plans (in_module inst))"
    and sl: "get_table_slice st a init = Inr (owner, d, vec)"
  shows "\<exists>vec'. get_table_slice st' a init = Inr (owner, d, vec') \<and> length vec' = length vec"
proof -
  obtain inst' where a': "st_instances st' a = Some inst'" "inst_rel inst inst'"
    using contents_relD(2) [OF rel a] by blast
  note k = inst_rel_keeps [OF a'(2)]
  have len: "length (tb_vec (in_tables j' ! e)) = length (tb_vec (in_tables j ! e))"
    if "inst_rel j j'" "e < length (in_tables j)" for j j' e
    using inst_rel_keeps(7) [OF that] by (auto simp: vec_rel_def)
  show ?thesis
  proof (cases "defined_table_index (in_module inst) (te_table_index init)")
    case (Some e)
    then have "owner = a" "d = e" "e < length (in_tables inst)" "vec = tb_vec (in_tables inst ! e)"
      using sl a by (auto simp: get_table_slice_def instance_of_def index_res_def split: if_splits)
    then show ?thesis
      using Some a' k len [OF a'(2)] by (simp add: get_table_slice_def instance_of_def index_res_def)
  next
    case None
    then obtain imp j where imp: "imported_table (st_heap st) a (in_offsets inst) (te_table_index init) = Inr imp"
      and j: "st_instances st (ti_vmctx imp) = Some j" "inst_table_index j (ti_vmctx imp) (ti_from imp) = Inr d"
      and o: "owner = ti_vmctx imp" "d < length (in_tables j)" "vec = tb_vec (in_tables j ! d)"
      using sl a
      by (auto simp: get_table_slice_def instance_of_def bind_res_Inr_iff index_res_def split: option.splits if_splits)
    obtain j' where j': "st_instances st' (ti_vmctx imp) = Some j'" "inst_rel j j'"
      using contents_relD(2) [OF rel j(1)] by blast
    have "inst_table_index j' (ti_vmctx imp) (ti_from imp) = Inr d"
      using j(2) inst_rel_keeps [OF j'(2)] by (simp add: inst_table_index_def)
    then show ?thesis
      using None a' k contents_relD(1) [OF rel] imp j' o len [OF j'(2) o(2)] inst_rel_keeps(5) [OF j'(2)]
      by (simp add: get_table_slice_def instance_of_def index_res_def)
  qed
qed

section \<open>Writing segments\<close>

lemma list_all2_update:
  assumes "\<And>x. P x x" and "P (xs ! d) y"
  shows "list_all2 P xs (xs[d := y])"
  unfolding list_all2_conv_all_nth
proof (intro conjI allI impI)
  fix i assume "i < length xs"
  then show "P (xs ! i) (xs[d := y] ! i)" using assms by (cases "i = d") simp_all
qed simp

lemma update_instance_contents:
  assumes "st_instances st owner = Some i" and "inst_rel i (f i)"
  shows "contents_rel st (update_instance owner f st)"
  using assms by (auto simp: contents_rel_def update_instance_def option.rel_refl)

lemma write_element_contents:
  assumes "st_instances st owner = Some i"
  shows "contents_rel st (write_element owner d j e st)"
  unfolding write_element_def
proof (rule update_instance_contents [OF assms])
  let ?t = "(in_tables i ! d)\<lparr>tb_vec := (tb_vec (in_tables i ! d))[j := e]\<rparr>"
  have "vec_rel (in_tables i ! d) ?t" by (auto simp: vec_rel_def)
  then have "list_all2 vec_rel (in_tables i) ((in_tables i)[d := ?t])"
    by (rule list_all2_update [OF vec_rel_refl])
  then show "inst_rel i (i\<lparr>in_tables := (in_tables i)[d := ?t]\<rparr>)"
    unfolding inst_rel_def
    by (intro exI [of _ "in_memories i"] exI [of _ "(in_tables i)[d := ?t]"]) (simp add: list_all2_same)
qed

text \<open>What validation guarantees of the segments and the initializers of globals.\<close>

definition base_ok :: "wasm_module \<Rightarrow> nat option \<Rightarrow> bool" where
  "base_ok m base \<longleftrightarrow> (case base of None \<Rightarrow> True | Some g \<Rightarrow> g < length (globals m))"

definition global_init_ok :: "wasm_module \<Rightarrow> global_init \<Rightarrow> bool" where
  "global_init_ok m init =
     (case init of Import \<Rightarrow> False | GetGlobal x \<Rightarrow> x < length (globals m)
      | V128Const bytes \<Rightarrow> length bytes = 16 | _ \<Rightarrow> True)"

definition segments_ok :: "wasm_module \<Rightarrow> data_initializer list \<Rightarrow> bool" where
  "segments_ok m inits \<longleftrightarrow>
     (\<forall>s \<in> set (func_sigs m). s < length (signatures m)) \<and>
     (\<forall>init \<in> set (table_elements m). te_table_index init < length (table_plans m) \<and>
        base_ok m (te_base init) \<and> (\<forall>f \<in> set (te_elements init). f < length (func_sigs m))) \<and>
     (\<forall>init \<in> set inits. dl_memory_index (di_location init) < length (memory_plans m) \<and>
        base_ok m (dl_base (di_location init))) \<and>
     (\<forall>g \<in> set (drop (length (imported_globals m)) (globals m)). global_init_ok m (glb_initializer g))"

lemma base_okD: "base_ok m base \<Longrightarrow> base = Some g \<Longrightarrow> g < length (globals m)"
  by (simp add: base_ok_def)

lemma initialize_table_ok:
  assumes inv: "store_inv st" and a: "st_instances st a = Some inst"
    and seg: "segments_ok (in_module inst) inits" and init: "init \<in> set (table_elements (in_module inst))"
    and chk: "check_table_init st a init = Inr ()" and rel: "contents_rel st st'"
  shows "\<exists>st''. initialize_table a init st' = (Inr (), st'') \<and> contents_rel st st''"
proof -
  from seg init have t: "te_table_index init < length (table_plans (in_module inst))"
    and fs: "\<forall>f \<in> set (te_elements init). f < length (func_sigs (in_module inst))"
    and sg: "\<forall>s \<in> set (func_sigs (in_module inst)). s < length (signatures (in_module inst))"
    by (auto simp: segments_ok_def)
  obtain owner d i where sl: "get_table_slice st a init = Inr (owner, d, tb_vec (in_tables i ! d))"
    "st_instances st owner = Some i" "d < length (in_tables i)"
    by (rule table_slice_ok [OF inv a t])
  then obtain start where start: "get_table_init_start st a init = Inr start"
    and range: "range_ok start (length (te_elements init)) (length (tb_vec (in_tables i ! d)))"
    using chk by (auto simp: check_table_init_def bind_res_Inr_iff split: if_splits)
  obtain vec' where sl': "get_table_slice st' a init = Inr (owner, d, vec')"
    "length vec' = length (tb_vec (in_tables i ! d))"
    using table_slice_same [OF rel inv a t sl(1)] by blast
  have start': "get_table_init_start st' a init = Inr start"
    using start reads_same(1) [OF rel] by (simp add: get_table_init_start_def)
  let ?f = "\<lambda>(i, func_idx) st. bind_st (element_of st a func_idx, st) (\<lambda>e st.
         (Inr (), write_element owner d (unat start + i) e st))"
  have "\<exists>s'. each_st ?f (enumerate 0 (te_elements init)) st' = (Inr (), s') \<and> contents_rel st s'"
  proof (rule each_st_inv [where P = "contents_rel st", OF rel])
    fix x s assume x: "x \<in> set (enumerate 0 (te_elements init))" and s: "contents_rel st s"
    obtain k f where kf: "x = (k, f)" by (cases x)
    with x have "f \<in> set (te_elements init)" by (auto simp: in_set_enumerate_eq)
    then obtain e where "element_of st a f = Inr e" using element_of_ok [OF inv a _ sg] fs by blast
    then have e: "element_of s a f = Inr e" using reads_same(2) [OF s] by simp
    obtain j where "st_instances s owner = Some j" using contents_relD(2) [OF s sl(2)] by blast
    from contents_rel_trans [OF s write_element_contents [OF this]]
    show "\<exists>s'. ?f x s = (Inr (), s') \<and> contents_rel st s'" by (simp add: kf e)
  qed
  then show ?thesis using start' sl' range by (simp add: initialize_table_def assert_res_def)
qed

lemma range_okD:
  assumes "range_ok start len n" and "len < 2 ^ 64"
  shows "unat start + len \<le> n"
proof -
  have le: "start \<le> start + of_nat len" "unat (start + of_nat len) \<le> n"
    using assms(1) by (simp_all add: range_ok_def Let_def)
  have "unat (start + of_nat len - start) = unat (start + of_nat len) - unat start"
    by (rule unat_sub [OF le(1)])
  then have "len = unat (start + of_nat len) - unat start" using assms(2) by (simp add: unat_of_nat_u64)
  then show ?thesis using le by (simp add: word_le_nat_alt)
qed

lemma vmmemory_length:
  assumes "lm_inv mem"
  shows "unat (vmm_current_length (vmmemory mem)) = lm_bytes mem"
  using assms by (simp add: vmmemory_def lm_inv_def lm_bytes_def unat_pages)

lemma initialize_memory_ok:
  assumes inv: "store_inv st" and a: "st_instances st a = Some inst"
    and seg: "segments_ok (in_module inst) inits" and init: "init \<in> set inits"
    and small: "length (di_data init) < 2 ^ 64"
    and chk: "check_memory_init st a init = Inr ()" and rel: "contents_rel st st'"
  shows "\<exists>st''. initialize_memory a init st' = Inr st'' \<and> contents_rel st st''"
proof -
  from seg init have t: "dl_memory_index (di_location init) < length (memory_plans (in_module inst))"
    by (auto simp: segments_ok_def)
  obtain owner d i where sl: "get_memory_slice st a init = Inr (owner, d, vmmemory (in_memories i ! d))"
    "st_instances st owner = Some i" "d < length (in_memories i)"
    by (rule memory_slice_ok [OF inv a t])
  let ?mem = "in_memories i ! d" and ?n = "length (di_data init)"
  have lm: "lm_inv ?mem" using own_slot(1) [OF inv sl(2)] sl(3) by (simp add: inst_shape_def Let_def)
  from sl(1) obtain start where start: "get_memory_init_start st a init = Inr start"
    and range: "range_ok start ?n (unat (vmm_current_length (vmmemory ?mem)))"
    using chk by (auto simp: check_memory_init_def bind_res_Inr_iff split: if_splits)
  have inside: "unat start + ?n \<le> lm_bytes ?mem"
    using range_okD [OF range small] vmmemory_length [OF lm] by simp
  have start': "get_memory_init_start st' a init = Inr start"
    using start reads_same(1) [OF rel] by (simp add: get_memory_init_start_def)
  have sl': "get_memory_slice st' a init = Inr (owner, d, vmmemory ?mem)"
    using memory_slice_same [OF rel inv a t] sl(1) by simp
  obtain i' where i': "st_instances st' owner = Some i'" "inst_rel i i'"
    using contents_relD(2) [OF rel sl(2)] by blast
  note k = inst_rel_keeps [OF i'(2)]
  let ?mem' = "in_memories i' ! d"
  have lm': "lm_inv ?mem'" and vm: "vmmemory ?mem' = vmmemory ?mem" and by': "lm_bytes ?mem' = lm_bytes ?mem"
    using bytes_rel_keeps [OF k(6) [OF sl(3)]] lm k(6) [OF sl(3)] by (auto simp: bytes_rel_def lm_bytes_def)
  have base: "vmm_base (vmmemory ?mem) = mm_ptr (lm_mmap ?mem')" using vm by (auto simp: vmmemory_def)
  have acc: "\<forall>j < ?n. accessible (lm_mmap ?mem') (unat start + j)"
    using lm' inside by' by (auto simp: lm_inv_def)
  define f where "f = (\<lambda>inst :: wasm_instance. let mem = in_memories inst ! d; mmap = lm_mmap mem in
       inst\<lparr>in_memories := (in_memories inst)[d := mem\<lparr>lm_mmap := mmap\<lparr>mm_bytes := (\<lambda>i.
         if unat start \<le> i \<and> i < unat start + ?n then di_data init ! (i - unat start) else mm_bytes mmap i)\<rparr>\<rparr>]\<rparr>)"
  have "bytes_rel ?mem' (?mem'\<lparr>lm_mmap := (lm_mmap ?mem')\<lparr>mm_bytes := (\<lambda>i.
         if unat start \<le> i \<and> i < unat start + ?n then di_data init ! (i - unat start)
         else mm_bytes (lm_mmap ?mem') i)\<rparr>\<rparr>)" (is "bytes_rel _ ?new")
    using inside by' by (intro bytes_relI) auto
  then have "list_all2 bytes_rel (in_memories i') ((in_memories i')[d := ?new])"
    by (rule list_all2_update [OF bytes_rel_refl])
  then have "inst_rel i' (f i')"
    unfolding inst_rel_def f_def Let_def
    by (intro exI [of _ "(in_memories i')[d := ?new]"] exI [of _ "in_tables i'"]) (simp add: list_all2_same)
  from contents_rel_trans [OF rel update_instance_contents [where f = f, OF i'(1) this]]
  have "contents_rel st (update_instance owner f st')" .
  moreover have "initialize_memory a init st' = Inr (update_instance owner f st')"
    using start' sl' range i' base acc sl(3) k(4)
    by (simp add: initialize_memory_def copy_to_memory_def assert_res_def instance_of_def f_def)
  ultimately show ?thesis by blast
qed

text \<open>Globals: one slot is written, with sixteen bytes.\<close>

lemma write_global_inv:
  assumes inv: "store_inv st" and a: "st_instances st a = Some inst"
    and x: "slot_offset (in_offsets inst) (GlobDef d) = Some x" and val: "length val = 16"
  shows "store_inv (st\<lparr>st_heap := write_cell (a + ucast x) (CGlobal val) (st_heap st)\<rparr>)"
proof (rule store_inv_update [OF inv a own_slot(1) [OF inv a] _ x])
  show "same_layout inst inst" by (simp add: same_layout_def)
  show "slot_good st inst (GlobDef d) (CGlobal val)" using val by simp
  have "(st_instances st)(a \<mapsto> inst) = st_instances st" using a by auto
  then show "st\<lparr>st_heap := write_cell (a + ucast x) (CGlobal val) (st_heap st)\<rparr> =
    st\<lparr>st_instances := (st_instances st)(a \<mapsto> inst), st_heap := write_cell (a + ucast x) (CGlobal val) (st_heap st)\<rparr>"
    by simp
qed

lemma initialize_global_ok:
  assumes inv: "store_inv st" and a: "st_instances st a = Some inst"
    and i: "length (imported_globals (in_module inst)) \<le> i" "i < length (globals (in_module inst))"
    and g: "global_init_ok (in_module inst) (glb_initializer g)"
  shows "\<exists>st'. initialize_global a (i, g) st = Inr st' \<and> store_inv st' \<and>
    st_instances st' = st_instances st \<and> st_global_exports st' = st_global_exports st"
proof -
  let ?d = "i - length (imported_globals (in_module inst))"
  have d: "defined_global_index (in_module inst) i = Some ?d" using i by (simp add: defined_global_index_def)
  have "?d < defined_globals inst" using i by simp
  then obtain x old where x: "slot_offset (in_offsets inst) (GlobDef (of_nat ?d)) = Some x"
    "global_mut a (in_offsets inst) ?d = Inr (a + ucast x)"
    "deref_global (st_heap st) (a + ucast x) = Inr old" "length old = 16"
    by (rule defined_global_pointer [OF inv a])
  note keep = write_global_inv [OF inv a x(1)]
  show ?thesis
  proof (cases "glb_initializer g")
    case (GetGlobal y)
    then have "y < length (globals (in_module inst))" using g by (simp add: global_init_ok_def)
    then obtain p val where "global_pointer st a inst y = Inr p" "deref_global (st_heap st) p = Inr val" "length val = 16"
      by (rule global_pointer_ok [OF inv a])
    then show ?thesis
      using GetGlobal a d x keep
      by (simp add: initialize_global_def instance_of_def unwrap_res_def Let_def flip: global_pointer_def)
  qed (use g a d x keep in \<open>simp_all add: initialize_global_def instance_of_def unwrap_res_def Let_def global_init_ok_def\<close>)
qed

lemma initialize_globals_ok:
  assumes inv: "store_inv st" and a: "st_instances st a = Some inst"
    and seg: "segments_ok (in_module inst) inits"
  shows "\<exists>st'. initialize_globals a st = (Inr (), st') \<and> store_inv st' \<and>
    st_instances st' = st_instances st \<and> st_global_exports st' = st_global_exports st"
proof -
  let ?m = "in_module inst"
  let ?xs = "drop (length (imported_globals ?m)) (enumerate 0 (globals ?m))"
  have "\<exists>s'. each_st (\<lambda>ig s. step_st (initialize_global a ig s) s) ?xs st = (Inr (), s') \<and> (store_inv s' \<and>
    st_instances s' = st_instances st \<and> st_global_exports s' = st_global_exports st)"
  proof (rule each_st_inv [where P = "\<lambda>s. store_inv s \<and> st_instances s = st_instances st \<and> st_global_exports s = st_global_exports st"])
    show "store_inv st \<and> st_instances st = st_instances st \<and> st_global_exports st = st_global_exports st" using inv by simp
    fix ig s assume "ig \<in> set ?xs" and s: "store_inv s \<and> st_instances s = st_instances st \<and> st_global_exports s = st_global_exports st"
    then obtain k where k: "k < length ?xs" "ig = ?xs ! k" by (auto simp: in_set_conv_nth)
    let ?i = "length (imported_globals ?m) + k"
    have ig: "ig = (?i, globals ?m ! ?i)" and lt: "?i < length (globals ?m)"
      using k by (simp_all add: nth_enumerate_eq)
    have "globals ?m ! ?i \<in> set (drop (length (imported_globals ?m)) (globals ?m))"
      using lt by (auto simp: in_set_conv_nth intro!: exI [of _ k])
    then have "global_init_ok ?m (glb_initializer (globals ?m ! ?i))" using seg by (simp add: segments_ok_def)
    then show "\<exists>s'. step_st (initialize_global a ig s) s = (Inr (), s') \<and> store_inv s' \<and>
        st_instances s' = st_instances st \<and> st_global_exports s' = st_global_exports st"
      using initialize_global_ok [of s a inst ?i] s a lt by (fastforce simp: ig)
  qed
  then show ?thesis using a by (simp add: initialize_globals_def instance_of_def Let_def)
qed

section \<open>The whole initialization\<close>

lemma fold_res_checks:
  "fold_res (\<lambda>x _. c x) xs () = Inr () \<longleftrightarrow> (\<forall>x \<in> set xs. c x = Inr ())"
  "fold_res (\<lambda>x _. c x) xs () = Inl e \<Longrightarrow> \<exists>x \<in> set xs. c x = Inl e"
proof -
  show "fold_res (\<lambda>x _. c x) xs () = Inr () \<longleftrightarrow> (\<forall>x \<in> set xs. c x = Inr ())"
    by (induction xs) (auto simp: bind_res_Inr_iff)
  show "fold_res (\<lambda>x _. c x) xs () = Inl e \<Longrightarrow> \<exists>x \<in> set xs. c x = Inl e"
  proof (induction xs)
    case (Cons x xs)
    then show ?case by (cases "c x") auto
  qed simp
qed

text \<open>Where a segment begins and the object it is written to, and that its last element is inside.\<close>

definition elements_fit :: "store \<Rightarrow> address \<Rightarrow> table_elements \<Rightarrow> bool" where
  "elements_fit st a init \<longleftrightarrow> (\<exists>start owner d slice. get_table_init_start st a init = Inr start \<and>
     get_table_slice st a init = Inr (owner, d, slice) \<and> unat start + length (te_elements init) \<le> length slice)"

definition data_fits :: "store \<Rightarrow> address \<Rightarrow> data_initializer \<Rightarrow> bool" where
  "data_fits st a init \<longleftrightarrow> (\<exists>start owner d def. get_memory_init_start st a init = Inr start \<and>
     get_memory_slice st a init = Inr (owner, d, def) \<and> unat start + length (di_data init) \<le> unat (vmm_current_length def))"

lemma range_ok_iff:
  assumes "len < 2 ^ 64" and "n < 2 ^ 64"
  shows "range_ok start len n \<longleftrightarrow> unat start + len \<le> n"
proof
  assume fit: "unat start + len \<le> n"
  then have "unat (start + of_nat len) = unat start + len"
    using assms by (subst unat_add_small) (simp_all add: unat_of_nat_u64)
  then show "range_ok start len n" using fit by (simp add: range_ok_def Let_def word_le_nat_alt)
qed (rule range_okD [OF _ assms(1)])

lemma checks_answer:
  assumes inv: "store_inv st" and a: "st_instances st a = Some inst"
    and seg: "segments_ok (in_module inst) inits"
  shows "init \<in> set (table_elements (in_module inst)) \<Longrightarrow> length (te_elements init) < 2 ^ 64 \<Longrightarrow>
      check_table_init st a init = (if elements_fit st a init then Inr () else Inl (Link ''elements segment does not fit''))"
    and "di \<in> set inits \<Longrightarrow> length (di_data di) < 2 ^ 64 \<Longrightarrow>
      check_memory_init st a di = (if data_fits st a di then Inr () else Inl (Link ''data segment does not fit''))"
proof -
  show "check_table_init st a init = (if elements_fit st a init then Inr () else Inl (Link ''elements segment does not fit''))"
    if init: "init \<in> set (table_elements (in_module inst))" and small: "length (te_elements init) < 2 ^ 64"
  proof -
    from seg init have t: "te_table_index init < length (table_plans (in_module inst))"
      and b: "base_ok (in_module inst) (te_base init)"
      by (auto simp: segments_ok_def)
    obtain start where start: "get_table_init_start st a init = Inr start"
      using init_start_ok [OF inv a base_okD [OF b]] unfolding get_table_init_start_def by blast
    obtain owner d i where sl: "get_table_slice st a init = Inr (owner, d, tb_vec (in_tables i ! d))"
      "st_instances st owner = Some i" "d < length (in_tables i)"
      by (rule table_slice_ok [OF inv a t])
    have "table_inv (in_tables i ! d)" using own_slot(1) [OF inv sl(2)] sl(3) by (simp add: inst_shape_def Let_def)
    then have "length (tb_vec (in_tables i ! d)) < 2 ^ 64" by (simp add: table_inv_def)
    then show ?thesis using start sl(1) range_ok_iff [OF small] by (simp add: check_table_init_def elements_fit_def)
  qed
  show "check_memory_init st a di = (if data_fits st a di then Inr () else Inl (Link ''data segment does not fit''))"
    if di: "di \<in> set inits" and small: "length (di_data di) < 2 ^ 64"
  proof -
    from seg di have t: "dl_memory_index (di_location di) < length (memory_plans (in_module inst))"
      and b: "base_ok (in_module inst) (dl_base (di_location di))"
      by (auto simp: segments_ok_def)
    obtain start where start: "get_memory_init_start st a di = Inr start"
      using init_start_ok [OF inv a base_okD [OF b]] unfolding get_memory_init_start_def by blast
    obtain owner d i where "get_memory_slice st a di = Inr (owner, d, vmmemory (in_memories i ! d))"
      "st_instances st owner = Some i" "d < length (in_memories i)"
      by (rule memory_slice_ok [OF inv a t])
    then show ?thesis
      using start range_ok_iff [OF small unat_lt_u64] by (simp add: check_memory_init_def data_fits_def)
  qed
qed

text \<open>The loops of the checks: the first segment that does not fit is reported.\<close>

lemma checks_loop:
  assumes "\<forall>x \<in> set xs. c x = (if fit x then Inr () else Inl e)"
  shows "fold_res (\<lambda>x _. c x) xs () = (if \<forall>x \<in> set xs. fit x then Inr () else Inl e)"
  using assms by (induction xs) auto

definition initialized :: "address \<Rightarrow> data_initializer list \<Rightarrow> store \<Rightarrow> store \<Rightarrow> bool" where
  "initialized a inits st st' \<longleftrightarrow> (\<exists>s1 s2. initialize_tables a st = (Inr (), s1) \<and>
     initialize_memories a inits s1 = (Inr (), s2) \<and> initialize_globals a s2 = (Inr (), st'))"

lemma initializers_run:
  assumes inv: "store_inv st" and a: "st_instances st a = Some inst"
    and seg: "segments_ok (in_module inst) inits" and small: "\<forall>di \<in> set inits. length (di_data di) < 2 ^ 64"
    and tables: "\<forall>init \<in> set (table_elements (in_module inst)). check_table_init st a init = Inr ()"
    and memories: "\<forall>di \<in> set inits. check_memory_init st a di = Inr ()"
  shows "\<exists>st'. initialized a inits st st' \<and> store_inv st' \<and>
    (\<forall>b. rel_option inst_rel (st_instances st b) (st_instances st' b)) \<and> st_global_exports st' = st_global_exports st"
proof -
  have "\<exists>s. each_st (initialize_table a) (table_elements (in_module inst)) st = (Inr (), s) \<and> contents_rel st s"
    using tables initialize_table_ok [OF inv a seg] by (intro each_st_inv [where P = "contents_rel st"]) simp_all
  then obtain s1 where s1: "initialize_tables a st = (Inr (), s1)" "contents_rel st s1"
    using a by (auto simp: initialize_tables_def instance_of_def)
  have "\<exists>s. each_st (\<lambda>init s. step_st (initialize_memory a init s) s) inits s1 = (Inr (), s) \<and> contents_rel st s"
  proof (rule each_st_inv [where P = "contents_rel st", OF s1(2)])
    fix di s assume di: "di \<in> set inits" "contents_rel st s"
    have "length (di_data di) < 2 ^ 64" "check_memory_init st a di = Inr ()" using di(1) small memories by auto
    from initialize_memory_ok [OF inv a seg di(1) this di(2)]
    show "\<exists>s'. step_st (initialize_memory a di s) s = (Inr (), s') \<and> contents_rel st s'" by auto
  qed
  then obtain s2 where s2: "initialize_memories a inits s1 = (Inr (), s2)" "contents_rel st s2"
    by (auto simp: initialize_memories_def)
  obtain i2 where i2: "st_instances s2 a = Some i2" "inst_rel inst i2" using contents_relD(2) [OF s2(2) a] by blast
  have "segments_ok (in_module i2) inits" using seg inst_rel_keeps(1) [OF i2(2)] by simp
  then obtain s3 where "initialize_globals a s2 = (Inr (), s3)" "store_inv s3" "st_instances s3 = st_instances s2"
    "st_global_exports s3 = st_global_exports s2"
    using initialize_globals_ok [OF contents_rel_inv [OF s2(2) inv] i2(1)] by blast
  then show ?thesis using s1 s2 unfolding initialized_def contents_rel_def by auto
qed

lemma initialize_answer:
  assumes inv: "store_inv st" and a: "st_instances st a = Some inst"
    and seg: "segments_ok (in_module inst) inits" and small: "\<forall>di \<in> set inits. length (di_data di) < 2 ^ 64"
      "\<forall>init \<in> set (table_elements (in_module inst)). length (te_elements init) < 2 ^ 64"
  shows "if \<not> (\<forall>init \<in> set (table_elements (in_module inst)). elements_fit st a init)
      then instance_initialize a inits st = (Inl (Link ''elements segment does not fit''), st)
      else if \<not> (\<forall>di \<in> set inits. data_fits st a di)
      then instance_initialize a inits st = (Inl (Link ''data segment does not fit''), st)
      else \<exists>st'. instance_initialize a inits st = (Inr (), st') \<and> initialized a inits st st' \<and> store_inv st' \<and>
        (\<forall>b. rel_option inst_rel (st_instances st b) (st_instances st' b)) \<and> st_global_exports st' = st_global_exports st"
proof -
  have ct: "check_table_init_bounds st a = (if \<forall>init \<in> set (table_elements (in_module inst)). elements_fit st a init then Inr ()
      else Inl (Link ''elements segment does not fit''))"
    using a checks_loop [of "table_elements (in_module inst)" "check_table_init st a"] checks_answer(1) [OF inv a seg] small(2)
    by (simp add: check_table_init_bounds_def instance_of_def)
  have cm: "check_memory_init_bounds st a inits = (if \<forall>di \<in> set inits. data_fits st a di then Inr ()
      else Inl (Link ''data segment does not fit''))"
    using checks_loop [of inits "check_memory_init st a"] checks_answer(2) [OF inv a seg] small(1)
    by (simp add: check_memory_init_bounds_def)
  show ?thesis
  proof (cases "(\<forall>init \<in> set (table_elements (in_module inst)). elements_fit st a init) \<and> (\<forall>di \<in> set inits. data_fits st a di)")
    case True
    then have "\<forall>init \<in> set (table_elements (in_module inst)). check_table_init st a init = Inr ()"
      "\<forall>di \<in> set inits. check_memory_init st a di = Inr ()"
      using checks_answer [OF inv a seg] small by simp_all
    then obtain st' where "initialized a inits st st'" "store_inv st'"
      "\<forall>b. rel_option inst_rel (st_instances st b) (st_instances st' b)" "st_global_exports st' = st_global_exports st"
      using initializers_run [OF inv a seg small(1)] by blast
    then show ?thesis using True ct cm by (auto simp: instance_initialize_def initialized_def aborts_st_def)
  qed (use ct cm in \<open>auto simp: instance_initialize_def\<close>)
qed

section \<open>Exports and the start function\<close>

fun export_in_range :: "wasm_module \<Rightarrow> export_decl \<Rightarrow> bool" where
  "export_in_range m (ExportFunction i) = (i < length (func_sigs m))"
| "export_in_range m (ExportTable i) = (i < length (table_plans m))"
| "export_in_range m (ExportMemory i) = (i < length (memory_plans m))"
| "export_in_range m (ExportGlobal i) = (i < length (globals m))"

definition exports_ok :: "wasm_module \<Rightarrow> bool" where
  "exports_ok m \<longleftrightarrow>
     (\<forall>decl \<in> snd ` set (exports m). export_in_range m decl) \<and>
     (\<forall>i. start_func m = Some i \<longrightarrow> i < length (func_sigs m)) \<and>
     (\<forall>s \<in> set (func_sigs m). s < length (signatures m))"

lemma own_table_pointer:
  assumes "store_inv st" "st_instances st a = Some inst" "d < length (in_tables inst)"
  shows "\<exists>p. table_mut a (in_offsets inst) d = Inr p"
proof -
  have "d < used inst (TableDef (of_nat d))" using assms(3) by simp
  then obtain x where "slot_offset (in_offsets inst) (TableDef (of_nat d)) = Some x"
    using vm_add_slot [OF own_slot(1) [OF assms(1,2)], of d TableDef a] by auto
  then show ?thesis by (simp add: table_mut_def vm_add_def)
qed

lemma own_memory_pointer:
  assumes "store_inv st" "st_instances st a = Some inst" "d < length (in_memories inst)"
  shows "\<exists>p. memory_mut a (in_offsets inst) d = Inr p"
  using own_memory_definition [OF assms] by (auto simp: vm_memory_def bind_res_Inr_iff)

lemma read_table_import:
  assumes inv: "store_inv st" and a: "st_instances st a = Some inst"
    and i: "i < length (imported_tables (in_module inst))"
  shows "\<exists>imp. imported_table (st_heap st) a (in_offsets inst) i = Inr imp \<and>
    points_to_table st (ti_vmctx imp) (ti_from imp)"
proof -
  have "i < used inst (TableImport (of_nat i))" using i by simp
  then obtain x c where "slot_offset (in_offsets inst) (TableImport (of_nat i)) = Some x"
    "read_cell (a + ucast x) (st_heap st) = Some c" "slot_good st inst (TableImport (of_nat i)) c"
    "unat (of_nat i :: u32) = i"
    by (rule read_slot [OF inv a _ slot_kinds_array(3)])
  then show ?thesis by (cases c) (auto simp: imported_table_def vm_add_def deref_table_import_def)
qed

text \<open>What an export of a good store is: the addresses it hands out are those of objects of the
  store, so that the importer that gets them is good again.\<close>

fun export_good :: "store \<Rightarrow> export_value \<Rightarrow> bool" where
  "export_good st (EFunction _ _ _) = True"
| "export_good st (ETable p b _) = points_to_table st b p"
| "export_good st (EMemory p b _) = points_to_memory st b p"
| "export_good st (EGlobal p _ _) = points_to_global st p"

lemma lookup_good:
  assumes inv: "store_inv st" and a: "st_instances st a = Some inst"
    and rng: "export_in_range (in_module inst) decl"
    and sg: "\<forall>s \<in> set (func_sigs (in_module inst)). s < length (signatures (in_module inst))"
  shows "\<exists>v. lookup_by_declaration (st_heap st) (in_module inst) a (in_offsets inst)
    (in_finished_functions inst) decl = Inr v \<and> export_good st v"
proof -
  let ?m = "in_module inst"
  have lens: "length (in_tables inst) + length (imported_tables ?m) = length (table_plans ?m)"
    "length (in_memories inst) + length (imported_memories ?m) = length (memory_plans ?m)"
    "length (in_finished_functions inst) + length (imported_funcs ?m) = length (func_sigs ?m)"
    using own_slot(1) [OF inv a] by (simp_all add: inst_shape_def Let_def)
  show ?thesis
  proof (cases decl)
    case (ExportFunction i)
    have "func_sigs ?m ! i < length (signatures ?m)" using rng sg ExportFunction by simp
    moreover have "\<exists>r. (case defined_func_index ?m i of
        Some d \<Rightarrow> bind_res (index_res (in_finished_functions inst) d) (\<lambda>body. Inr (body, a))
      | None \<Rightarrow> bind_res (imported_function (st_heap st) a (in_offsets inst) i) (\<lambda>imp. Inr (fi_body imp, fi_vmctx imp))) = Inr r"
    proof (cases "defined_func_index ?m i")
      case None
      then have "i < length (imported_funcs ?m)" by (simp add: func_space.defined_None_iff is_imported_function_def)
      then show ?thesis using read_function_import [OF inv a] None by fastforce
    next
      case (Some d)
      then have "d < length (in_finished_functions inst)"
        using func_space.defined_lt [OF Some, of "length (func_sigs ?m)"] rng ExportFunction lens(3) by simp
      then show ?thesis using Some by (simp add: index_res_def)
    qed
    ultimately show ?thesis
      using rng ExportFunction by (auto simp: lookup_by_declaration_def index_res_def)
  next
    case (ExportTable i)
    then have i: "i < length (table_plans ?m)" using rng by simp
    show ?thesis
    proof (cases "defined_table_index ?m i")
      case None
      then have "i < length (imported_tables ?m)" by (simp add: table_space.defined_None_iff is_imported_table_def)
      then show ?thesis
        using read_table_import [OF inv a] None ExportTable i
        by (fastforce simp: lookup_by_declaration_def index_res_def)
    next
      case (Some d)
      then have d: "d < length (in_tables inst)" using table_space.defined_lt [OF Some i] lens(1) by simp
      then show ?thesis
        using own_table_pointer [OF inv a d] Some ExportTable i a
        by (auto simp: lookup_by_declaration_def index_res_def points_to_table_def)
    qed
  next
    case (ExportMemory i)
    then have i: "i < length (memory_plans ?m)" using rng by simp
    show ?thesis
    proof (cases "defined_memory_index ?m i")
      case None
      then have "i < length (imported_memories ?m)" by (simp add: memory_space.defined_None_iff is_imported_memory_def)
      then obtain imp owner d where "imported_memory (st_heap st) a (in_offsets inst) i = Inr imp"
        "st_instances st (mi_vmctx imp) = Some owner" "d < length (in_memories owner)"
        "memory_mut (mi_vmctx imp) (in_offsets owner) d = Inr (mi_from imp)"
        using imported_memory_owner [OF inv a] by metis
      then show ?thesis
        using None ExportMemory i by (auto simp: lookup_by_declaration_def index_res_def points_to_memory_def)
    next
      case (Some d)
      then have d: "d < length (in_memories inst)" using memory_space.defined_lt [OF Some i] lens(2) by simp
      then show ?thesis
        using own_memory_pointer [OF inv a d] Some ExportMemory i a
        by (auto simp: lookup_by_declaration_def index_res_def points_to_memory_def)
    qed
  next
    case (ExportGlobal i)
    then have i: "i < length (globals ?m)" using rng by simp
    obtain p where "global_pointer st a inst i = Inr p" "points_to_global st p"
      using global_pointer_points [OF inv a i] by blast
    then show ?thesis
      using ExportGlobal i by (simp add: lookup_by_declaration_def index_res_def flip: global_pointer_def)
  qed
qed

lemma collect_exports_ok:
  assumes inv: "store_inv st" and a: "st_instances st a = Some inst" and ex: "exports_ok (in_module inst)"
  shows "\<exists>st'. collect_exports a st = (Inr (), st') \<and> st_heap st' = st_heap st \<and> st_instances st' = st_instances st"
proof -
  have "\<exists>s'. each_st (\<lambda>fd s. step_st (collect_export a fd s) s) (exports (in_module inst)) st = (Inr (), s') \<and>
      (st_heap s' = st_heap st \<and> st_instances s' = st_instances st)"
  proof (rule each_st_inv [where P = "\<lambda>s. st_heap s = st_heap st \<and> st_instances s = st_instances st"])
    fix fd and s :: store assume fd: "fd \<in> set (exports (in_module inst))"
      and s: "st_heap s = st_heap st \<and> st_instances s = st_instances st"
    obtain field decl where [simp]: "fd = (field, decl)" by (cases fd)
    from fd have "decl \<in> snd ` set (exports (in_module inst))" by (auto intro: rev_image_eqI)
    with ex have "export_in_range (in_module inst) decl" unfolding exports_ok_def by blast
    moreover have "\<forall>s \<in> set (func_sigs (in_module inst)). s < length (signatures (in_module inst))"
      using ex by (simp add: exports_ok_def)
    ultimately obtain v where "lookup_by_declaration (st_heap st) (in_module inst) a (in_offsets inst)
        (in_finished_functions inst) decl = Inr v"
      using lookup_good [OF inv a] by metis
    then show "\<exists>s'. step_st (collect_export a fd s) s = (Inr (), s') \<and> st_heap s' = st_heap st \<and> st_instances s' = st_instances st"
      using s a by (auto simp: collect_export_def instance_of_def split: option.split)
  qed simp
  then show ?thesis using a by (simp add: collect_exports_def instance_of_def)
qed

lemma store_inv_cong:
  assumes "st_heap s' = st_heap s" "st_instances s' = st_instances s" "store_inv s"
  shows "store_inv s'"
proof -
  have "slot_good s' i sl c = slot_good s i sl c" for i sl c
    using assms(2) by (cases sl; cases c) (simp_all add: points_to_table_def points_to_memory_def points_to_global_def)
  then show ?thesis using assms by (simp add: store_inv_def context_good_def)
qed

lemma start_export_ok:
  assumes "exports_ok m" "(name, decl) \<in> set (exports m)"
  shows "\<exists>r. start_export m decl = Inr r \<and> (\<forall>i. r = Some i \<longrightarrow> i < length (func_sigs m))"
proof -
  have "export_in_range m decl" using assms by (force simp: exports_ok_def)
  moreover have "\<forall>s \<in> set (func_sigs m). s < length (signatures m)" using assms(1) by (simp add: exports_ok_def)
  ultimately show ?thesis by (cases decl) (auto simp: start_export_def index_res_def)
qed

lemma start_choice_ok:
  assumes "exports_ok m"
  shows "\<exists>r. start_choice m = Inr r \<and> (\<forall>i. r = Some i \<longrightarrow> i < length (func_sigs m))"
  using assms start_export_ok [OF assms]
  by (auto simp: start_choice_def exports_ok_def split: option.split dest!: map_of_SomeD)

lemma callee_ok:
  assumes inv: "store_inv st" and a: "st_instances st a = Some inst"
    and i: "i < length (func_sigs (in_module inst))"
  shows "\<exists>r. callee st a i = Inr r"
proof (cases "defined_func_index (in_module inst) i")
  case None
  then have "i < length (imported_funcs (in_module inst))"
    by (simp add: func_space.defined_None_iff is_imported_function_def)
  then show ?thesis
    using read_function_import [OF inv a] None a by (fastforce simp: callee_def instance_of_def assert_res_def)
next
  case (Some d)
  have "length (in_finished_functions inst) + length (imported_funcs (in_module inst)) = length (func_sigs (in_module inst))"
    using own_slot(1) [OF inv a] by (simp add: inst_shape_def Let_def)
  then have "d < length (in_finished_functions inst)" using func_space.defined_lt [OF Some i] by simp
  then show ?thesis using Some a by (simp add: callee_def instance_of_def unwrap_res_def get_def)
qed

text \<open>The start function, if there is one, is called once, on the store that it is given.\<close>

definition started :: "call \<Rightarrow> address \<Rightarrow> nat option \<Rightarrow> store \<Rightarrow> (instantiation_error + address) \<times> store \<Rightarrow> bool" where
  "started call a choice st result \<longleftrightarrow>
     (case choice of
        None \<Rightarrow> result = (Inr a, st)
      | Some index \<Rightarrow> \<exists>body ctx. callee st a index = Inr (body, ctx) \<and>
          result = (case call ctx body st of (Inl msg, st') \<Rightarrow> (Inl (StartTrap msg), st') | (Inr _, st') \<Rightarrow> (Inr a, st')))"

lemma invoke_start_ok:
  assumes inv: "store_inv st" and a: "st_instances st a = Some inst" and ex: "exports_ok (in_module inst)"
  shows "\<exists>choice. start_choice (in_module inst) = Inr choice \<and>
    started call a choice st (bind_st (invoke_start_function call a st) (\<lambda>_ st. (Inr a, st)))"
proof -
  obtain c where c: "start_choice (in_module inst) = Inr c" "\<forall>i. c = Some i \<longrightarrow> i < length (func_sigs (in_module inst))"
    using start_choice_ok [OF ex] by blast
  show ?thesis
  proof (cases c)
    case None
    then show ?thesis using c a by (simp add: invoke_start_function_def instance_of_def started_def)
  next
    case (Some i)
    then obtain addr ctx where "callee st a i = Inr (addr, ctx)" using callee_ok [OF inv a] c(2) by fastforce
    then show ?thesis
      using Some c a
      by (cases "call ctx addr st")
        (auto simp: invoke_start_function_def instance_of_def invoke_function_def started_def split: sum.split)
  qed
qed

section \<open>Properties\<close>

definition empty_store :: store where
  "empty_store = \<lparr>st_heap = Map.empty, st_instances = Map.empty, st_global_exports = Map.empty\<rparr>"

lemma empty_store_inv: "store_inv empty_store"
  by (simp add: store_inv_def empty_store_def)

text \<open>An instance with one memory of one page, exported, and a data segment.\<close>

definition example_module :: wasm_module where
  "example_module = module_new\<lparr>
     memory_plans := [\<lparr>mp_memory = \<lparr>mem_minimum = 1, mem_maximum = None, mem_shared = False\<rparr>,
                       mp_style = Dynamic, mp_offset_guard_size = 0x10000\<rparr>],
     table_plans := [\<lparr>tp_table = \<lparr>tbl_ty = Func, tbl_minimum = 1, tbl_maximum = None\<rparr>,
                      tp_style = CallerChecksSignature\<rparr>],
     exports := [(''memory'', ExportMemory 0)]\<rparr>"

definition example_env :: instance_env where
  "example_env = \<lparr>ie_table_alloc = (\<lambda>_. Some 0x3000), ie_memory_os = (\<lambda>_. example_os),
     ie_context_os = example_os\<lparr>os_mmap := Some 0x100000\<rparr>, ie_size_of_instance = 256,
     ie_vmctx_offset = 256, ie_builtins = [1, 2, 3, 4]\<rparr>"

definition example_vmoffsets :: vmoffsets where
  "example_vmoffsets = \<lparr>pointer_size = 8, num_signature_ids = 0, num_imported_functions = 0,
     num_imported_tables = 0, num_imported_memories = 0, num_imported_globals = 0,
     num_defined_tables = 1, num_defined_memories = 1, num_defined_globals = 0\<rparr>"

lemma example_vmoffsets: "vmoffsets_new 8 example_module = Some example_vmoffsets"
  by (simp add: vmoffsets_new_def example_module_def module_new_def cast_to_u32_def example_vmoffsets_def)

lemma example_fits: "layout_fits example_vmoffsets" "lay_size example_vmoffsets = 64"
  by (simp_all add: layout_fits_def supported_pointer_def example_vmoffsets_def lay_defs)

lemma copy_arrays_total: "\<exists>h'. copy_arrays base (map (array_begin offs) specs) h = Inr h'"
  by (induction specs arbitrary: h) (auto simp: array_begin_def vm_add_def)

lemma example_allocates:
  "\<exists>st1. instance_allocate example_env example_module [] imports_none [] empty_store = Inr (0x100100, st1)"
proof -
  have begins: "size_of_vmctx example_vmoffsets = Some 64"
    using begins_fit(9) [OF example_fits(1)] example_fits(2) by simp
  have mem: "\<exists>mem. linear_memory_new example_os (hd (memory_plans example_module)) = Inr mem"
    by (simp add: example_module_def linear_memory_new_def accessible_reserved_def make_accessible_def
        example_os_def checked_mul_def checked_add_def WASM_MAX_PAGES_def WASM_PAGE_SIZE_def
        unwrap_res_def assert_res_def Let_def)
  have mm: "with_at_least (example_os\<lparr>os_mmap := Some 0x100000\<rparr>) 320 =
      Inr \<lparr>mm_ptr = 0x100000, mm_len = 4096, mm_accessible = [(0, 4096)], mm_bytes = (\<lambda>_. 0)\<rparr>"
    by (simp add: with_at_least_def round_up_to_page_size_def accessible_reserved_def example_os_def assert_res_def Let_def)
  from mem obtain m where m: "linear_memory_new example_os (hd (memory_plans example_module)) = Inr m" ..
  have "\<exists>h. copy_arrays 0x100100 (context_arrays example_env example_vmoffsets [] imports_none
      [\<lparr>vmt_base = 0x3000, vmt_current_elements = 1\<rparr>] [vmmemory m] []) Map.empty = Inr h"
    unfolding context_arrays_begin [OF example_fits(1)] by (rule copy_arrays_total)
  then show ?thesis
    using m mm begins example_vmoffsets
    by (auto simp: instance_allocate_def create_tables_def create_memories_def create_globals_def slice_from_def
        example_module_def module_new_def example_env_def table_new_def unwrap_res_def map_err_def vmtable_def
        table_size_def checked_add_def imports_none_def empty_store_def Let_def)
qed

lemma example_args:
  "args_ok example_env example_module [] imports_none [] empty_store"
  "fresh_context empty_store a example_vmoffsets"
proof -
  have "\<exists>memory windows. valid_memory memory \<and> memory_plan_for_memory memory (target_tunables windows) =
      Some (hd (memory_plans example_module))"
    by (rule exI [of _ "\<lparr>mem_minimum = 1, mem_maximum = None, mem_shared = False\<rparr>"], rule exI [of _ False])
      (simp add: example_module_def valid_memory_def WASM_MAX_PAGES_def memory_plan_for_memory_def
        memory_style_for_memory_def target_tunables_def default_tunables_def)
  moreover have "layout_fits offs" if "vmoffsets_new 8 example_module = Some offs" for offs
    using that example_vmoffsets example_fits by simp
  ultimately show "args_ok example_env example_module [] imports_none [] empty_store"
    using example_page_ok
    by (simp add: args_ok_def plans_ok_def imports_ok_def example_module_def module_new_def imports_none_def
        example_env_def)
  show "fresh_context empty_store a example_vmoffsets" by (simp add: fresh_context_def empty_store_def)
qed

text \<open>The store with the example's instance.\<close>

lemma example_store:
  obtains st inst where "instance_allocate example_env example_module [] imports_none [] empty_store = Inr (0x100100, st)"
    "store_inv st" "st_instances st = [0x100100 \<mapsto> inst]" "in_module inst = example_module"
    "length (in_memories inst) = 1" "guard_ok example_os (in_memories inst ! 0)"
    "length (in_tables inst) = 1" "in_offsets inst = example_vmoffsets"
proof -
  obtain st where st: "instance_allocate example_env example_module [] imports_none [] empty_store = Inr (0x100100, st)"
    using example_allocates by blast
  have "fresh_context empty_store 0x100100 offs" if "vmoffsets_new 8 example_module = Some offs" for offs
    using that example_vmoffsets example_args(2) by simp
  from allocate_keeps [OF st empty_store_inv example_args(1) this]
  obtain inst where inst: "store_inv st" "st_instances st = [0x100100 \<mapsto> inst]" "in_module inst = example_module"
    "create_memories example_env example_module = Inr (in_memories inst)" "in_offsets inst = example_vmoffsets"
    using example_vmoffsets by (auto simp: empty_store_def)
  have shape: "inst_shape inst" using own_slot(1) [OF inst(1)] inst(2) by simp
  have len: "length (in_memories inst) = 1" "length (in_tables inst) = 1"
    using shape inst(3) by (simp_all add: inst_shape_def Let_def example_module_def module_new_def)
  have "lm_offset_guard_size (in_memories inst ! 0) = 0x10000"
    using inst(4)
    by (auto simp: create_memories_def slice_from_def example_module_def module_new_def example_env_def map_err_def
        linear_memory_new_def Let_def bind_res_Inr_iff split: sum.splits error.splits
        dest!: sym [of "[_]"])
  then have "guard_ok example_os (in_memories inst ! 0)"
    using example_page_ok by (simp add: guard_ok_def page_aligned_def example_os_def)
  then show ?thesis using that st inst len by blast
qed

text \<open>C19. Growing a memory of an instance through \<^verbatim>\<open>Instance::memory_grow\<close> keeps the store in its
  invariant: it does not panic or fault, it grows exactly that memory as \<^verbatim>\<open>LinearMemory::grow\<close> does,
  the \<^verbatim>\<open>VMMemoryDefinition\<close> that compiled code reads is the one of the grown memory, and every other slot of every
  context holds what it held before.\<close>

theorem instance_memory_grow_safe:
  assumes "store_inv st" and "st_instances st a = Some inst"
    and "index < length (in_memories inst)" and "guard_ok os (in_memories inst ! index)"
  shows "\<exists>r mem' st'. linear_memory_grow os (in_memories inst ! index) delta = Inr (r, mem') \<and>
    memory_grow os st a index delta = Inr (r, st') \<and> store_inv st' \<and>
    st_instances st' = (st_instances st)(a \<mapsto> inst\<lparr>in_memories := (in_memories inst)[index := mem']\<rparr>) \<and>
    vm_memory (st_heap st') a (in_offsets inst) index = Inr (vmmemory mem') \<and>
    (\<forall>b i s. st_instances st b = Some i \<and> unat (slot_index s) < used i s \<and> (b, s) \<noteq> (a, MemDef (of_nat index)) \<longrightarrow>
       cell_at (st_heap st') b (in_offsets i) s = cell_at (st_heap st) b (in_offsets i) s)"
  by (rule memory_grow_keeps [OF assms, of delta]) blast

theorem instance_memory_grow_safe_witness:
  "\<exists>st inst r mem' st'. store_inv st \<and> st_instances st 0x100100 = Some inst \<and>
     linear_memory_grow example_os (in_memories inst ! 0) 2 = Inr (r, mem') \<and>
     memory_grow example_os st 0x100100 0 2 = Inr (r, st') \<and> store_inv st' \<and>
     vm_memory (st_heap st') 0x100100 (in_offsets inst) 0 = Inr (vmmemory mem')"
proof -
  obtain st inst where st: "instance_allocate example_env example_module [] imports_none [] empty_store = Inr (0x100100, st)"
    "store_inv st" "st_instances st = [0x100100 \<mapsto> inst]" "in_module inst = example_module"
    "length (in_memories inst) = 1" "guard_ok example_os (in_memories inst ! 0)"
    "length (in_tables inst) = 1" "in_offsets inst = example_vmoffsets"
    by (rule example_store)
  have at: "st_instances st 0x100100 = Some inst" using st(3) by simp
  then show ?thesis
    using instance_memory_grow_safe [OF st(2) at, of 0 example_os 2] st by (metis zero_less_one)
qed

text \<open>C20. An importer grows the owner's memory. For every imported memory of an instance there are an
  owner and an index there such that \<^verbatim>\<open>memory.grow\<close> and \<^verbatim>\<open>memory.size\<close> on the import are those
  operations on the owner's memory, whatever the size, and the import's pointer is the address of
  the definition that the owner keeps current.\<close>

theorem imported_memory_is_owners:
  assumes "store_inv st" and "st_instances st a = Some inst"
    and "index < length (imported_memories (in_module inst))"
  shows "\<exists>imp owner d. imported_memory (st_heap st) a (in_offsets inst) index = Inr imp \<and>
    st_instances st (mi_vmctx imp) = Some owner \<and> d < length (in_memories owner) \<and>
    deref_memory (st_heap st) (mi_from imp) = Inr (vmmemory (in_memories owner ! d)) \<and>
    imported_memory_size st a index = Inr (lm_current (in_memories owner ! d)) \<and>
    (\<forall>os delta. imported_memory_grow os st a index delta = memory_grow os st (mi_vmctx imp) d delta)"
proof -
  obtain imp owner d where o: "imported_memory (st_heap st) a (in_offsets inst) index = Inr imp"
    "st_instances st (mi_vmctx imp) = Some owner" "d < length (in_memories owner)"
    "memory_mut (mi_vmctx imp) (in_offsets owner) d = Inr (mi_from imp)"
    "inst_memory_index owner (mi_vmctx imp) (mi_from imp) = Inr d"
    by (rule imported_memory_owner [OF assms])
  note shape = own_slot(1) [OF assms(1) o(2)]
  have un: "unat (of_nat d :: u32) = d" using unat_index [OF shape, of d "MemDef 0"] o(3) by simp
  then have "unat (slot_index (MemDef (of_nat d))) < used owner (MemDef (of_nat d))" using o(3) by simp
  then obtain c where "cell_at (st_heap st) (mi_vmctx imp) (in_offsets owner) (MemDef (of_nat d)) = Some c"
    "slot_good st owner (MemDef (of_nat d)) c"
    by (rule good_cell [OF assms(1) o(2)])
  then have "deref_memory (st_heap st) (mi_from imp) = Inr (vmmemory (in_memories owner ! d))"
    using o(4) un by (cases c) (auto simp: cell_at_def memory_mut_def vm_add_def deref_memory_def split: option.splits)
  then show ?thesis
    using o assms(2)
    by (intro exI [of _ imp] exI [of _ owner] exI [of _ d])
      (simp add: imported_memory_size_def imported_memory_grow_def memory_size_def instance_of_def
        unwrap_res_def linear_memory_size_def get_def)
qed

text \<open>A second instance that imports the memory of the first.\<close>

definition importing_module :: wasm_module where
  "importing_module = module_new\<lparr>
     memory_plans := [\<lparr>mp_memory = \<lparr>mem_minimum = 1, mem_maximum = None, mem_shared = False\<rparr>,
                       mp_style = Dynamic, mp_offset_guard_size = 0x10000\<rparr>],
     imported_memories := [(''env'', ''memory'')]\<rparr>"

definition importing_env :: instance_env where
  "importing_env = example_env\<lparr>ie_context_os := example_os\<lparr>os_mmap := Some 0x200000\<rparr>\<rparr>"

definition importing_offsets :: vmoffsets where
  "importing_offsets = \<lparr>pointer_size = 8, num_signature_ids = 0, num_imported_functions = 0,
     num_imported_tables = 0, num_imported_memories = 1, num_imported_globals = 0,
     num_defined_tables = 0, num_defined_memories = 1, num_defined_globals = 0\<rparr>"

lemma importing_offsets: "vmoffsets_new 8 importing_module = Some importing_offsets"
  by (simp add: vmoffsets_new_def importing_module_def module_new_def cast_to_u32_def importing_offsets_def)

lemma importing_fits: "layout_fits importing_offsets" "lay_size importing_offsets = 64"
  by (simp_all add: layout_fits_def supported_pointer_def importing_offsets_def lay_defs)

lemma importing_store:
  obtains st inst where "store_inv st" "st_instances st 0x200100 = Some inst" "in_module inst = importing_module"
proof -
  obtain st inst where st: "instance_allocate example_env example_module [] imports_none [] empty_store = Inr (0x100100, st)"
    "store_inv st" "st_instances st = [0x100100 \<mapsto> inst]" "in_module inst = example_module"
    "length (in_memories inst) = 1" "guard_ok example_os (in_memories inst ! 0)"
    "length (in_tables inst) = 1" "in_offsets inst = example_vmoffsets"
    by (rule example_store)
  have at: "st_instances st 0x100100 = Some inst" using st(3) by simp
  obtain p where p: "memory_mut 0x100100 (in_offsets inst) 0 = Inr p"
    using own_memory_pointer [OF st(2) at, of 0] st(5) by auto
  let ?imps = "imports_none\<lparr>imp_memories := [\<lparr>mi_from = p, mi_vmctx = 0x100100\<rparr>]\<rparr>"
  have points: "points_to_memory st 0x100100 p"
    using at p st(5) unfolding points_to_memory_def by (intro exI [of _ inst] exI [of _ 0]) simp
  have plan: "\<exists>memory windows. valid_memory memory \<and> memory_plan_for_memory memory (target_tunables windows) =
      Some (hd (memory_plans importing_module))"
    by (rule exI [of _ "\<lparr>mem_minimum = 1, mem_maximum = None, mem_shared = False\<rparr>"], rule exI [of _ False])
      (simp add: importing_module_def valid_memory_def WASM_MAX_PAGES_def memory_plan_for_memory_def
        memory_style_for_memory_def target_tunables_def default_tunables_def)
  have args: "args_ok importing_env importing_module [] ?imps [] st"
    using plan points importing_offsets importing_fits example_page_ok
    by (simp add: args_ok_def plans_ok_def imports_ok_def importing_module_def module_new_def imports_none_def
        importing_env_def example_env_def)
  have "apart (0 + ucast (0x200100 :: u32)) 64 (0 + ucast (0x100100 :: u32)) 64"
    by (rule apart_offsets) simp_all
  then have fresh: "fresh_context st 0x200100 offs" if "vmoffsets_new 8 importing_module = Some offs" for offs
    using that importing_offsets importing_fits(2) example_fits(2) st(3,8) by (simp add: fresh_context_def)
  have begins: "size_of_vmctx importing_offsets = Some 64"
    using begins_fit(9) [OF importing_fits(1)] importing_fits(2) by simp
  have mm: "with_at_least (example_os\<lparr>os_mmap := Some 0x200000\<rparr>) 320 =
      Inr \<lparr>mm_ptr = 0x200000, mm_len = 4096, mm_accessible = [(0, 4096)], mm_bytes = (\<lambda>_. 0)\<rparr>"
    by (simp add: with_at_least_def round_up_to_page_size_def accessible_reserved_def example_os_def assert_res_def Let_def)
  have "\<exists>h. copy_arrays 0x200100 (context_arrays importing_env importing_offsets [] ?imps [] [] []) (st_heap st) = Inr h"
    unfolding context_arrays_begin [OF importing_fits(1)] by (rule copy_arrays_total)
  then obtain st2 where st2: "instance_allocate importing_env importing_module [] ?imps [] st = Inr (0x200100, st2)"
    using mm begins importing_offsets
    by (auto simp: instance_allocate_def create_tables_def create_memories_def create_globals_def slice_from_def
        importing_module_def module_new_def example_env_def importing_env_def unwrap_res_def map_err_def
        checked_add_def imports_none_def Let_def)
  from allocate_keeps [OF st2 st(2) args fresh] that show ?thesis by auto
qed

theorem imported_memory_is_owners_witness:
  "\<exists>st (imp :: vm_memory_import) owner. store_inv st \<and> st_instances st (mi_vmctx imp) = Some owner \<and>
     (\<exists>d. d < length (in_memories owner) \<and>
        deref_memory (st_heap st) (mi_from imp) = Inr (vmmemory (in_memories owner ! d)) \<and>
        imported_memory_grow example_os st 0x200100 0 1 = memory_grow example_os st (mi_vmctx imp) d 1)"
proof -
  obtain st inst where st: "store_inv st" "st_instances st 0x200100 = Some inst" "in_module inst = importing_module"
    by (rule importing_store)
  have "0 < length (imported_memories (in_module inst))" by (simp add: st(3) importing_module_def)
  then show ?thesis using imported_memory_is_owners [OF st(1,2)] st(1) by metis
qed

text \<open>Growing a table of an instance keeps the store in its invariant: the table grows as
  \<^verbatim>\<open>Table::grow\<close> does and the definition in the context, which moves with the vector's buffer,
  stays current.\<close>

theorem instance_table_grow_safe:
  assumes "store_inv st" and "st_instances st a = Some inst"
    and "index < length (in_tables inst)" and "alloc \<noteq> None"
  shows "\<exists>r tbl' st'. table_grow alloc (in_tables inst ! index) delta = Inr (r, tbl') \<and>
    inst_table_grow alloc st a index delta = Inr (r, st') \<and> store_inv st' \<and>
    st_instances st' = (st_instances st)(a \<mapsto> inst\<lparr>in_tables := (in_tables inst)[index := tbl']\<rparr>)"
  using table_grow_keeps [OF assms, of delta] by metis

theorem instance_table_grow_safe_witness:
  "\<exists>st inst r tbl' st'. store_inv st \<and> st_instances st 0x100100 = Some inst \<and>
     table_grow (Some 0x5000) (in_tables inst ! 0) 3 = Inr (r, tbl') \<and>
     inst_table_grow (Some 0x5000) st 0x100100 0 3 = Inr (r, st') \<and> store_inv st'"
proof -
  obtain st inst where st: "instance_allocate example_env example_module [] imports_none [] empty_store = Inr (0x100100, st)"
    "store_inv st" "st_instances st = [0x100100 \<mapsto> inst]" "in_module inst = example_module"
    "length (in_memories inst) = 1" "guard_ok example_os (in_memories inst ! 0)"
    "length (in_tables inst) = 1" "in_offsets inst = example_vmoffsets"
    by (rule example_store)
  have at: "st_instances st 0x100100 = Some inst" using st(3) by simp
  then show ?thesis
    using instance_table_grow_safe [OF st(2) at, of 0 "Some 0x5000" 3] st by (metis option.distinct(1) zero_less_one)
qed

text \<open>C18. Instantiation with validated arguments, once the instance is allocated. Allocation leaves every other instance and every slot of
  their contexts as they were. If an element segment does not fit its table, \<^verbatim>\<open>InstanceHandle::new\<close> reports that, and otherwise if a
  data segment does not fit its memory, in both cases before any initializer has written anything. Else the initializers of tables,
  memories and globals run in this order without a panic or a fault, the exports are collected, and the start function, if the
  module has one, is called once on the store that results: the outcome is the instance, or the trap of the start function.\<close>

theorem instantiation_outcome:
  assumes alloc: "instance_allocate env m finished_functions imps sigs st = Inr (a, st1)"
    and inv: "store_inv st" and args: "args_ok env m finished_functions imps sigs st"
    and fresh: "\<forall>offs. vmoffsets_new 8 m = Some offs \<longrightarrow> fresh_context st a offs"
    and seg: "segments_ok m inits" and ex: "exports_ok m"
    and small: "\<forall>di \<in> set inits. length (di_data di) < 2 ^ 64" "\<forall>init \<in> set (table_elements m). length (te_elements init) < 2 ^ 64"
  shows "(\<forall>b. b \<noteq> a \<longrightarrow> st_instances st1 b = st_instances st b) \<and> st_global_exports st1 = st_global_exports st \<and>
    (\<forall>b i s. st_instances st b = Some i \<and> unat (slot_index s) < used i s \<longrightarrow>
       cell_at (st_heap st1) b (in_offsets i) s = cell_at (st_heap st) b (in_offsets i) s) \<and>
    (let result = instance_new call env m finished_functions imps inits sigs st in
     if \<exists>init \<in> set (table_elements m). \<not> elements_fit st1 a init
     then result = (Inl (Link ''elements segment does not fit''), st1)
     else if \<exists>di \<in> set inits. \<not> data_fits st1 a di
     then result = (Inl (Link ''data segment does not fit''), st1)
     else \<exists>st2 st3 choice. initialized a inits st1 st2 \<and> collect_exports a st2 = (Inr (), st3) \<and> store_inv st3 \<and>
       start_choice m = Inr choice \<and> started call a choice st3 result)"
proof -
  obtain inst where st1: "store_inv st1" "st_instances st1 = (st_instances st)(a \<mapsto> inst)" "in_module inst = m"
    "st_global_exports st1 = st_global_exports st"
    "\<forall>b i s. st_instances st b = Some i \<and> unat (slot_index s) < used i s \<longrightarrow>
       cell_at (st_heap st1) b (in_offsets i) s = cell_at (st_heap st) b (in_offsets i) s"
    using allocate_keeps [OF alloc inv args] fresh by blast
  have at: "st_instances st1 a = Some inst" using st1(2) by simp
  have "segments_ok (in_module inst) inits" using seg st1(3) by simp
  note answer = initialize_answer [OF st1(1) at this small(1), unfolded st1(3), OF small(2)]
  let ?fit = "(\<forall>init \<in> set (table_elements m). elements_fit st1 a init) \<and> (\<forall>di \<in> set inits. data_fits st1 a di)"
  have "\<exists>st2 st3 choice. initialized a inits st1 st2 \<and> collect_exports a st2 = (Inr (), st3) \<and> store_inv st3 \<and>
      start_choice m = Inr choice \<and> started call a choice st3 (instance_new call env m finished_functions imps inits sigs st)"
    if ?fit
  proof -
    from answer that obtain st2 where st2: "instance_initialize a inits st1 = (Inr (), st2)" "initialized a inits st1 st2"
      "store_inv st2" "rel_option inst_rel (st_instances st1 a) (st_instances st2 a)" by auto
    obtain i2 where i2: "st_instances st2 a = Some i2" "inst_rel inst i2"
      using st2(4) at by (auto simp: option_rel_Some1)
    have m2: "in_module i2 = m" using st1(3) inst_rel_keeps(1) [OF i2(2)] by simp
    then have ex2: "exports_ok (in_module i2)" using ex by simp
    obtain st3 where st3: "collect_exports a st2 = (Inr (), st3)" "st_heap st3 = st_heap st2" "st_instances st3 = st_instances st2"
      using collect_exports_ok [OF st2(3) i2(1) ex2] by blast
    have inv3: "store_inv st3" by (rule store_inv_cong [OF st3(2,3) st2(3)])
    have "st_instances st3 a = Some i2" using i2(1) st3(3) by simp
    from invoke_start_ok [OF inv3 this ex2, of call] st2(1,2) st3(1) inv3 alloc show ?thesis
      by (auto simp: instance_new_def aborts_st_def m2)
  qed
  moreover have "instance_initialize a inits st1 = (Inl e, st1) \<Longrightarrow>
      instance_new call env m finished_functions imps inits sigs st = (Inl e, st1)" for e
    using alloc by (simp add: instance_new_def)
  ultimately show ?thesis using st1 answer unfolding Let_def by (auto split: if_splits)
qed

definition example_data :: "usize \<Rightarrow> data_initializer list" where
  "example_data offset = [\<lparr>di_location = \<lparr>dl_memory_index = 0, dl_base = None, dl_offset = offset\<rparr>, di_data = [1, 2]\<rparr>]"

lemma example_data_fits:
  assumes "instance_allocate example_env example_module [] imports_none [] empty_store = Inr (0x100100, st)"
  shows "(\<forall>di \<in> set (example_data offset). data_fits st 0x100100 di) \<longleftrightarrow> unat offset + 2 \<le> 0x10000"
proof -
  have "fresh_context empty_store 0x100100 offs" if "vmoffsets_new 8 example_module = Some offs" for offs
    using that example_vmoffsets example_args(2) by simp
  from allocate_keeps [OF assms empty_store_inv example_args(1) this]
  obtain inst where st: "store_inv st" "st_instances st = (st_instances empty_store)(0x100100 \<mapsto> inst)" "in_module inst = example_module"
    "create_memories example_env example_module = Inr (in_memories inst)" by blast
  then have at: "st_instances st 0x100100 = Some inst" by simp
  have cur: "length (in_memories inst) = 1 \<and> lm_current (in_memories inst ! 0) = 1"
    using st(4) [symmetric] by (auto simp: create_memories_def slice_from_def example_module_def module_new_def example_env_def
        linear_memory_new_def accessible_reserved_def make_accessible_def example_os_def checked_mul_def checked_add_def
        WASM_MAX_PAGES_def WASM_PAGE_SIZE_def unwrap_res_def assert_res_def map_err_def Let_def enumerate_eq_zip)
  have "defined_memory_index example_module 0 = Some 0"
    by (simp add: defined_memory_index_def example_module_def module_new_def)
  moreover have "vm_memory (st_heap st) 0x100100 (in_offsets inst) 0 = Inr (vmmemory (in_memories inst ! 0))"
    using own_memory_definition [OF st(1) at, of 0] cur by simp
  ultimately have "get_memory_slice st 0x100100 (hd (example_data offset)) = Inr (0x100100, 0, vmmemory (in_memories inst ! 0))"
    using at st(3) by (simp add: get_memory_slice_def instance_of_def example_data_def)
  moreover have "get_memory_init_start st 0x100100 (hd (example_data offset)) = Inr offset"
    using at by (simp add: get_memory_init_start_def init_start_def example_data_def)
  ultimately show ?thesis
    using cur by (simp add: example_data_def data_fits_def vmmemory_def WASM_PAGE_SIZE_def)
qed

text \<open>The last two bytes of the only page are initialized; one byte further the segment does not fit.\<close>

theorem instantiation_outcome_witness:
  "\<exists>st st'. instance_allocate example_env example_module [] imports_none [] empty_store = Inr (0x100100, st) \<and>
     instance_new (\<lambda>_ _ st. (Inr (), st)) example_env example_module [] imports_none (example_data 0xFFFF) [] empty_store =
       (Inl (Link ''data segment does not fit''), st) \<and>
     instance_new (\<lambda>_ _ st. (Inr (), st)) example_env example_module [] imports_none (example_data 0xFFFE) [] empty_store =
       (Inr 0x100100, st') \<and> store_inv st'"
proof -
  obtain st where st: "instance_allocate example_env example_module [] imports_none [] empty_store = Inr (0x100100, st)"
    using example_allocates by blast
  have fresh: "\<forall>offs. vmoffsets_new 8 example_module = Some offs \<longrightarrow> fresh_context empty_store 0x100100 offs"
    using example_vmoffsets example_args(2) by simp
  have ok: "segments_ok example_module (example_data offset)" "exports_ok example_module"
    "\<forall>di \<in> set (example_data offset). length (di_data di) < 2 ^ 64"
    "\<forall>init \<in> set (table_elements example_module). length (te_elements init) < 2 ^ 64" for offset
    by (simp_all add: segments_ok_def exports_ok_def example_module_def module_new_def example_data_def base_ok_def)
  have "start_choice example_module = Inr None" "table_elements example_module = []"
    by (simp_all add: start_choice_def example_module_def module_new_def)
  moreover have "\<forall>di \<in> set (example_data 0xFFFE). data_fits st 0x100100 di" "\<exists>di \<in> set (example_data 0xFFFF). \<not> data_fits st 0x100100 di"
    using example_data_fits [OF st, of "0xFFFE"] example_data_fits [OF st, of "0xFFFF"] by simp_all
  ultimately show ?thesis
    using instantiation_outcome [OF st empty_store_inv example_args(1) fresh ok(1) [of "0xFFFE"] ok(2) ok(3) [of "0xFFFE"] ok(4), of "\<lambda>_ _ st. (Inr (), st)"]
      instantiation_outcome [OF st empty_store_inv example_args(1) fresh ok(1) [of "0xFFFF"] ok(2) ok(3) [of "0xFFFF"] ok(4), of "\<lambda>_ _ st. (Inr (), st)"] st
    by (auto simp: started_def Let_def)
qed

end
