(* ===== verification/Handles.thy ===== *)
theory Handles
  imports Initialization "HOL-Library.Multiset"
begin

text \<open>
  Reference counting of instances: \<^verbatim>\<open>InstanceHandle::from_vmctx\<close>, \<^verbatim>\<open>Clone\<close> and \<^verbatim>\<open>Drop\<close>
  (\<^verbatim>\<open>wasmtime-runtime/src/instance.rs\<close>). A handle is the address of its instance's context. An
  instance owns the handles of the instances it imports from, so dropping the last handle of an
  instance drops those in turn.
\<close>

section \<open>Definitions\<close>

definition set_refcount :: "address \<Rightarrow> wasm_instance \<Rightarrow> usize \<Rightarrow> store \<Rightarrow> store" where
  "set_refcount a inst n st =
     st\<lparr>st_instances := (st_instances st)(a \<mapsto> inst\<lparr>in_refcount := n\<rparr>)\<rparr>"

definition handle_from_vmctx :: "address \<Rightarrow> store \<Rightarrow> store res" where
  "handle_from_vmctx vmctx st =
     bind_res (instance_of st vmctx) (\<lambda>inst.
     Inr (set_refcount vmctx inst (in_refcount inst + 1) st))"

definition handle_clone :: "address \<Rightarrow> store \<Rightarrow> store res" where
  "handle_clone self st =
     bind_res (instance_of st self) (\<lambda>inst.
     Inr (set_refcount self inst (in_refcount inst + 1) st))"

text \<open>
  \<^verbatim>\<open>drop\<close> runs recursively: \<^verbatim>\<open>drop_in_place\<close> drops the fields of the instance, among them its
  dependencies, and then the mapping that held the instance is dropped. The tasks are the stack of
  these calls. A handle whose count is already zero wraps around, as the subtraction does.
\<close>

datatype drop_task = DropHandle address | DropMmap address

definition unmap_context :: "address \<Rightarrow> wasm_instance \<Rightarrow> store \<Rightarrow> store" where
  "unmap_context a inst st =
     st\<lparr>st_instances := (st_instances st)(a := None),
        st_heap := (\<lambda>x. case size_of_vmctx (in_offsets inst) of
                           Some n \<Rightarrow> if unat (x - a) < unat n then None else st_heap st x
                         | None \<Rightarrow> st_heap st x)\<rparr>"

definition drop_step :: "drop_task \<Rightarrow> store \<Rightarrow> (drop_task list \<times> store) res" where
  "drop_step task st =
     (case task of
        DropHandle a \<Rightarrow>
          bind_res (instance_of st a) (\<lambda>inst.
          let refcount = in_refcount inst - 1 in
          if refcount = 0
          then Inr (map DropHandle (in_dependencies inst) @ [DropMmap a],
                    set_refcount a (inst\<lparr>in_dependencies := []\<rparr>) refcount st)
          else Inr ([], set_refcount a inst refcount st))
      | DropMmap a \<Rightarrow>
          bind_res (instance_of st a) (\<lambda>inst. Inr ([], unmap_context a inst st)))"

partial_function (option) drop_tasks :: "drop_task list \<Rightarrow> store \<Rightarrow> store res option" where
  "drop_tasks tasks st =
     (case tasks of
        [] \<Rightarrow> Some (Inr st)
      | t # ts \<Rightarrow>
          (case drop_step t st of
             Inl e \<Rightarrow> Some (Inl e)
           | Inr (new, st') \<Rightarrow> drop_tasks (new @ ts) st'))"

definition handle_drop :: "address \<Rightarrow> store \<Rightarrow> store res option" where
  "handle_drop self st = drop_tasks [DropHandle self] st"

section \<open>The counting invariant\<close>

text \<open>The instances that hold a handle of \<open>a\<close> among their dependencies.\<close>

definition referrers :: "store \<Rightarrow> address \<Rightarrow> address set" where
  "referrers st a = {b. \<exists>inst. st_instances st b = Some inst \<and> a \<in> set (in_dependencies inst)}"

definition depends :: "store \<Rightarrow> (address \<times> address) set" where
  "depends st = {(b, a). b \<in> referrers st a}"

text \<open>\<open>handles\<close> are the handles held outside of the store.\<close>

definition rc_inv :: "store \<Rightarrow> address multiset \<Rightarrow> bool" where
  "rc_inv st handles \<longleftrightarrow>
     finite (dom (st_instances st)) \<and> acyclic (depends st) \<and>
     set_mset handles \<subseteq> dom (st_instances st) \<and>
     (\<forall>a inst. st_instances st a = Some inst \<longrightarrow>
        unat (in_refcount inst) = count handles a + card (referrers st a) \<and>
        distinct (in_dependencies inst) \<and> set (in_dependencies inst) \<subseteq> dom (st_instances st))"

text \<open>The handles in a stack of calls, and the instances on it that are being dropped.\<close>

fun task_handles :: "drop_task list \<Rightarrow> address multiset" where
  "task_handles [] = {#}"
| "task_handles (DropHandle a # ts) = add_mset a (task_handles ts)"
| "task_handles (DropMmap a # ts) = task_handles ts"

definition dying :: "drop_task list \<Rightarrow> address set" where
  "dying ts = {a. DropMmap a \<in> set ts}"

definition tasks_inv :: "drop_task list \<Rightarrow> address multiset \<Rightarrow> store \<Rightarrow> bool" where
  "tasks_inv ts handles st \<longleftrightarrow>
     rc_inv st (handles + task_handles ts) \<and> distinct [t \<leftarrow> ts. t \<in> range DropMmap] \<and>
     dying ts \<subseteq> dom (st_instances st) \<and>
     (\<forall>a inst. st_instances st a = Some inst \<longrightarrow>
        (in_refcount inst = 0 \<longleftrightarrow> a \<in> dying ts) \<and> (a \<in> dying ts \<longrightarrow> in_dependencies inst = []))"


lemma set_refcount_instances [simp]:
  "st_instances (set_refcount a inst n st) = (st_instances st)(a \<mapsto> inst\<lparr>in_refcount := n\<rparr>)"
  "st_heap (set_refcount a inst n st) = st_heap st"
  by (simp_all add: set_refcount_def)

lemma unmap_context_instances [simp]:
  "st_instances (unmap_context a inst st) = (st_instances st)(a := None)"
  by (simp add: unmap_context_def)

lemma referrers_set_refcount:
  "st_instances st a = Some inst \<Longrightarrow> referrers (set_refcount a inst n st) = referrers st"
  by (auto simp: referrers_def fun_eq_iff)

lemma referrers_clear:
  assumes "st_instances st a = Some inst"
  shows "referrers (set_refcount a (inst\<lparr>in_dependencies := []\<rparr>) n st) x = referrers st x - {a}"
  using assms by (auto simp: referrers_def)

lemma referrers_unmap:
  assumes "st_instances st a = Some inst" "in_dependencies inst = []"
  shows "referrers (unmap_context a inst' st) = referrers st"
  using assms by (auto simp: referrers_def fun_eq_iff)

lemma finite_referrers: "finite (dom (st_instances st)) \<Longrightarrow> finite (referrers st a)"
  by (rule finite_subset [of _ "dom (st_instances st)"]) (auto simp: referrers_def)

lemma rc_invD:
  assumes "rc_inv st handles" "st_instances st a = Some inst"
  shows "unat (in_refcount inst) = count handles a + card (referrers st a)"
    "distinct (in_dependencies inst)" "set (in_dependencies inst) \<subseteq> dom (st_instances st)"
  using assms by (auto simp: rc_inv_def)

lemma rc_invI:
  assumes "finite (dom (st_instances st))" "acyclic (depends st)"
    and "set_mset handles \<subseteq> dom (st_instances st)"
    and "\<And>a inst. st_instances st a = Some inst \<Longrightarrow>
      unat (in_refcount inst) = count handles a + card (referrers st a)"
    and "\<And>a inst. st_instances st a = Some inst \<Longrightarrow>
      distinct (in_dependencies inst) \<and> set (in_dependencies inst) \<subseteq> dom (st_instances st)"
  shows "rc_inv st handles"
  using assms by (simp add: rc_inv_def)

lemma rc_inv_parts:
  assumes "rc_inv st handles"
  shows "finite (dom (st_instances st))" "acyclic (depends st)"
    "set_mset handles \<subseteq> dom (st_instances st)"
  using assms by (simp_all add: rc_inv_def)

lemma unat_pred: "(n :: usize) \<noteq> 0 \<Longrightarrow> unat (n - 1) = unat n - 1"
  by (simp add: unat_gt_0 unat_minus_one)

lemma dom_set_refcount:
  "st_instances st a = Some inst \<Longrightarrow>
     dom (st_instances (set_refcount a inst' n st)) = dom (st_instances st)"
  by auto

lemma rc_inv_release:
  assumes inv: "rc_inv st (add_mset a handles)" and a: "st_instances st a = Some inst"
  shows "in_refcount inst \<noteq> 0" "rc_inv (set_refcount a inst (in_refcount inst - 1) st) handles"
proof -
  let ?st' = "set_refcount a inst (in_refcount inst - 1) st"
  have n: "unat (in_refcount inst) = Suc (count handles a + card (referrers st a))"
    using rc_invD(1) [OF inv a] by simp
  then show nz: "in_refcount inst \<noteq> 0" by (metis nat.distinct(1) unsigned_0)
  note ref = referrers_set_refcount [OF a] and dm = dom_set_refcount [OF a]
  have old: "\<exists>i0. st_instances st x = Some i0 \<and> in_dependencies i = in_dependencies i0 \<and>
      unat (in_refcount i) = count handles x + card (referrers st x)"
    if "st_instances ?st' x = Some i" for x i
    using that n unat_pred [OF nz] rc_invD(1) [OF inv] a by (auto split: if_splits)
  show "rc_inv ?st' handles"
  proof (rule rc_invI)
    show "finite (dom (st_instances ?st'))" "acyclic (depends ?st')"
      "set_mset handles \<subseteq> dom (st_instances ?st')"
      using rc_inv_parts [OF inv] by (simp_all only: dm depends_def ref) simp_all
  next
    fix x i assume x: "st_instances ?st' x = Some i"
    show "unat (in_refcount i) = count handles x + card (referrers ?st' x)"
      using old [OF x] by (auto simp only: ref)
    show "distinct (in_dependencies i) \<and> set (in_dependencies i) \<subseteq> dom (st_instances ?st')"
      unfolding dm using old [OF x] rc_invD(2,3) [OF inv] by metis
  qed
qed

lemma rc_inv_free:
  assumes inv: "rc_inv st handles" and a: "st_instances st a = Some inst"
    and z: "in_refcount inst = 0"
  shows "rc_inv (set_refcount a (inst\<lparr>in_dependencies := []\<rparr>) 0 st)
    (handles + mset (in_dependencies inst))" (is "rc_inv ?st' _")
proof -
  have fin: "finite (referrers st x)" for x
    using inv by (auto simp: rc_inv_def intro: finite_referrers)
  have ref: "referrers ?st' x = referrers st x - {a}" for x by (rule referrers_clear [OF a])
  have mem: "a \<in> referrers st x \<longleftrightarrow> x \<in> set (in_dependencies inst)" for x
    using a by (auto simp: referrers_def)
  have cnt: "count (mset (in_dependencies inst)) x = (if a \<in> referrers st x then 1 else 0)" for x
    using rc_invD(2) [OF inv a] by (simp add: mem distinct_count_atmost_1)
  have card: "card (referrers st x) =
      count (mset (in_dependencies inst)) x + card (referrers st x - {a})" for x
    using card_Suc_Diff1 [OF fin [of x], of a] by (cases "a \<in> referrers st x") (simp_all add: cnt)
  have acyc: "acyclic (depends ?st')"
    by (rule acyclic_subset [of "depends st"]) (use inv in \<open>auto simp: rc_inv_def depends_def ref\<close>)
  note dm = dom_set_refcount [OF a]
  have old: "\<exists>i0. st_instances st x = Some i0 \<and> in_refcount i = in_refcount i0 \<and>
      (in_dependencies i = [] \<or> in_dependencies i = in_dependencies i0)"
    if "st_instances ?st' x = Some i" for x i
    using that a z by (auto split: if_splits)
  show ?thesis
  proof (rule rc_invI)
    show "finite (dom (st_instances ?st'))" using rc_inv_parts(1) [OF inv] by (simp only: dm)
    show "set_mset (handles + mset (in_dependencies inst)) \<subseteq> dom (st_instances ?st')"
      using rc_inv_parts(3) [OF inv] rc_invD(3) [OF inv a] by (auto simp only: dm set_mset_union set_mset_mset)
  next
    fix x i assume x: "st_instances ?st' x = Some i"
    show "unat (in_refcount i) =
        count (handles + mset (in_dependencies inst)) x + card (referrers ?st' x)"
      using old [OF x] rc_invD(1) [OF inv] card [of x] by (auto simp: ref)
    show "distinct (in_dependencies i) \<and> set (in_dependencies i) \<subseteq> dom (st_instances ?st')"
      unfolding dm using old [OF x] rc_invD(2,3) [OF inv]
      by (metis distinct.simps(1) empty_set empty_subsetI)
  qed (rule acyc)
qed

lemma rc_inv_unmap:
  assumes inv: "rc_inv st handles" and a: "st_instances st a = Some inst"
    and z: "in_refcount inst = 0" and d: "in_dependencies inst = []"
  shows "rc_inv (unmap_context a inst st) handles"
proof -
  have "count handles a = 0" "card (referrers st a) = 0" using rc_invD(1) [OF inv a] z by auto
  moreover have "finite (referrers st a)" using inv by (auto simp: rc_inv_def intro: finite_referrers)
  ultimately have na: "a \<notin># handles" "referrers st a = {}" by (auto simp: count_eq_zero_iff)
  then have nd: "a \<notin> set (in_dependencies i)" if "st_instances st b = Some i" for b i
    using that by (auto simp: referrers_def)
  note ref = referrers_unmap [OF a d, of inst]
  show ?thesis
  proof (rule rc_invI)
    show "finite (dom (st_instances (unmap_context a inst st)))"
      using rc_inv_parts(1) [OF inv] by (auto intro: finite_subset [rotated])
    show "acyclic (depends (unmap_context a inst st))"
      using rc_inv_parts(2) [OF inv] by (simp only: depends_def ref)
    show "set_mset handles \<subseteq> dom (st_instances (unmap_context a inst st))"
      using rc_inv_parts(3) [OF inv] na(1) by auto
  next
    fix x i assume "st_instances (unmap_context a inst st) x = Some i"
    then have x: "st_instances st x = Some i" by (auto split: if_splits)
    show "unat (in_refcount i) = count handles x + card (referrers (unmap_context a inst st) x)"
      using rc_invD(1) [OF inv x] by (simp only: ref)
    show "distinct (in_dependencies i) \<and>
        set (in_dependencies i) \<subseteq> dom (st_instances (unmap_context a inst st))"
      using rc_invD(2,3) [OF inv x] nd [OF x] by auto
  qed
qed

section \<open>Dropping\<close>

text \<open>What a drop may change: counts, and instances that nothing holds any more.\<close>

definition drop_rel :: "store \<Rightarrow> store \<Rightarrow> bool" where
  "drop_rel st st' \<longleftrightarrow>
     (\<forall>a i'. st_instances st' a = Some i' \<longrightarrow>
        (\<exists>i. st_instances st a = Some i \<and> in_offsets i' = in_offsets i \<and>
           (in_refcount i' \<noteq> 0 \<longrightarrow> in_refcount i \<noteq> 0 \<and> i' = i\<lparr>in_refcount := in_refcount i'\<rparr>))) \<and>
     (\<forall>x. st_heap st' x = st_heap st x \<or>
        (\<exists>a i n. st_instances st a = Some i \<and> st_instances st' a = None \<and>
           size_of_vmctx (in_offsets i) = Some n \<and> unat (x - a) < unat n))"

lemma drop_rel_refl: "drop_rel st st"
  by (simp add: drop_rel_def)

lemma drop_relD:
  assumes "drop_rel st st'" "st_instances st' a = Some i'"
  obtains i where "st_instances st a = Some i" "in_offsets i' = in_offsets i"
    "in_refcount i' \<noteq> 0 \<Longrightarrow> in_refcount i \<noteq> 0 \<and> i' = i\<lparr>in_refcount := in_refcount i'\<rparr>"
  using assms unfolding drop_rel_def by meson

lemma drop_rel_trans:
  assumes r: "drop_rel st st1" and r': "drop_rel st1 st2"
  shows "drop_rel st st2"
proof -
  have "\<exists>i. st_instances st a = Some i \<and> in_offsets i2 = in_offsets i \<and>
      (in_refcount i2 \<noteq> 0 \<longrightarrow> in_refcount i \<noteq> 0 \<and> i2 = i\<lparr>in_refcount := in_refcount i2\<rparr>)"
    if i2: "st_instances st2 a = Some i2" for a i2
  proof -
    obtain i1 where i1: "st_instances st1 a = Some i1" "in_offsets i2 = in_offsets i1"
      "in_refcount i2 \<noteq> 0 \<Longrightarrow> in_refcount i1 \<noteq> 0 \<and> i2 = i1\<lparr>in_refcount := in_refcount i2\<rparr>"
      using drop_relD [OF r' i2] by blast
    obtain i where i: "st_instances st a = Some i" "in_offsets i1 = in_offsets i"
      "in_refcount i1 \<noteq> 0 \<Longrightarrow> in_refcount i \<noteq> 0 \<and> i1 = i\<lparr>in_refcount := in_refcount i1\<rparr>"
      using drop_relD [OF r i1(1)] by blast
    have "i2 = i\<lparr>in_refcount := in_refcount i2\<rparr>" if "in_refcount i2 \<noteq> 0"
    proof -
      have "i2 = i1\<lparr>in_refcount := in_refcount i2\<rparr>" "i1 = i\<lparr>in_refcount := in_refcount i1\<rparr>"
        using i1(3) i(3) that by blast+
      then show ?thesis by (metis wasm_instance.update_convs(1) wasm_instance.surjective)
    qed
    with i i1 show ?thesis by auto
  qed
  moreover have "st_heap st2 x = st_heap st x \<or>
      (\<exists>a i n. st_instances st a = Some i \<and> st_instances st2 a = None \<and>
         size_of_vmctx (in_offsets i) = Some n \<and> unat (x - a) < unat n)" for x
  proof (cases "st_heap st2 x = st_heap st1 x")
    case True
    have "st_instances st1 a = None \<Longrightarrow> st_instances st2 a = None" for a
      using r' by (metis drop_relD option.distinct(1) not_None_eq)
    with True r show ?thesis unfolding drop_rel_def by metis
  next
    case False
    then obtain a i1 n where "st_instances st1 a = Some i1" "st_instances st2 a = None"
      "size_of_vmctx (in_offsets i1) = Some n" "unat (x - a) < unat n"
      using r' unfolding drop_rel_def by metis
    then show ?thesis using drop_relD [OF r] by metis
  qed
  ultimately show ?thesis unfolding drop_rel_def by blast
qed

fun drop_cost :: "wasm_instance option \<Rightarrow> nat" where
  "drop_cost None = 0"
| "drop_cost (Some i) = (if in_refcount i = 0 then 0 else length (in_dependencies i) + 2)"

definition drop_measure :: "drop_task list \<Rightarrow> store \<Rightarrow> nat" where
  "drop_measure ts st = length ts + (\<Sum>a\<in>dom (st_instances st). drop_cost (st_instances st a))"

lemma task_handles_append [simp]: "task_handles (ts @ us) = task_handles ts + task_handles us"
  by (induction ts rule: task_handles.induct) auto

lemma task_handles_map [simp]: "task_handles (map DropHandle as) = mset as"
  by (induction as) auto

lemma dying_simps [simp]:
  "dying (DropHandle a # ts) = dying ts" "dying (DropMmap a # ts) = insert a (dying ts)"
  "dying [] = {}" "dying (ts @ us) = dying ts \<union> dying us" "dying (map DropHandle as) = {}"
  by (auto simp: dying_def)

lemma filter_mmaps [simp]: "[t \<leftarrow> map DropHandle as. t \<in> range DropMmap] = []"
  by (induction as) auto

lemma filter_mmaps_mem: "DropMmap a \<in> set [t \<leftarrow> ts. t \<in> range DropMmap] \<longleftrightarrow> a \<in> dying ts"
  by (auto simp: dying_def)

text \<open>A change of one instance changes the sum of the costs by the cost of that instance.\<close>

lemma drop_measure_update:
  assumes "finite (dom (st_instances st))" "st_instances st a = Some i"
    and "st_instances st' = (st_instances st)(a := x)"
  shows "drop_measure ts' st' + length ts + drop_cost (Some i) =
    drop_measure ts st + length ts' + drop_cost x"
proof -
  have sum: "(\<Sum>b\<in>dom m. drop_cost (m b)) = drop_cost (m a) + (\<Sum>b\<in>dom m - {a}. drop_cost (m b))"
    if "finite (dom m)" for m :: "address \<rightharpoonup> wasm_instance"
  proof (cases "a \<in> dom m")
    case True
    then show ?thesis using that by (simp add: sum.remove)
  next
    case False
    then have "m a = None" "dom m - {a} = dom m" by auto
    then show ?thesis by simp
  qed
  have fin': "finite (dom (st_instances st'))" using assms by auto
  have "dom (st_instances st') - {a} = dom (st_instances st) - {a}" using assms(3) by auto
  moreover have "(\<Sum>b\<in>dom (st_instances st) - {a}. drop_cost (st_instances st' b)) =
      (\<Sum>b\<in>dom (st_instances st) - {a}. drop_cost (st_instances st b))"
    by (rule sum.cong) (simp_all add: assms(3))
  ultimately show ?thesis
    using sum [OF assms(1)] sum [OF fin'] assms(2,3) by (simp add: drop_measure_def)
qed

definition step_good :: "drop_task list \<Rightarrow> address multiset \<Rightarrow> store \<Rightarrow> drop_task list \<Rightarrow> store \<Rightarrow> bool" where
  "step_good ts handles st ts' st' \<longleftrightarrow>
     tasks_inv ts' handles st' \<and> drop_rel st st' \<and> drop_measure ts' st' < drop_measure ts st"

lemma tasks_invD:
  assumes "tasks_inv ts handles st"
  shows "rc_inv st (handles + task_handles ts)" "distinct [t \<leftarrow> ts. t \<in> range DropMmap]"
    "dying ts \<subseteq> dom (st_instances st)"
    "\<And>a i. st_instances st a = Some i \<Longrightarrow> in_refcount i = 0 \<longleftrightarrow> a \<in> dying ts"
    "\<And>a i. st_instances st a = Some i \<Longrightarrow> a \<in> dying ts \<Longrightarrow> in_dependencies i = []"
  using assms by (simp_all add: tasks_inv_def)

lemma step_release:
  assumes inv: "tasks_inv (DropHandle a # ts) handles st" and a: "st_instances st a = Some i"
    and nz: "in_refcount i - 1 \<noteq> 0"
  shows "step_good (DropHandle a # ts) handles st ts (set_refcount a i (in_refcount i - 1) st)"
proof -
  let ?st' = "set_refcount a i (in_refcount i - 1) st"
  note I = tasks_invD [OF inv]
  have rc: "rc_inv st (add_mset a (handles + task_handles ts))" using I(1) by simp
  have "a \<notin> dying ts" using rc_inv_release(1) [OF rc a] I(4) [OF a] by simp
  then have "tasks_inv ts handles ?st'"
    using I rc_inv_release(2) [OF rc a] nz by (auto simp: tasks_inv_def split: if_splits)
  moreover have "drop_rel st ?st'"
    using a rc_inv_release(1) [OF rc a] by (auto simp: drop_rel_def)
  moreover have "drop_measure ts ?st' < drop_measure (DropHandle a # ts) st"
    using drop_measure_update [OF rc_inv_parts(1) [OF rc] a set_refcount_instances(1), of ts i "in_refcount i - 1" "DropHandle a # ts"]
      rc_inv_release(1) [OF rc a] nz by simp
  ultimately show ?thesis by (simp add: step_good_def)
qed

lemma step_free:
  assumes inv: "tasks_inv (DropHandle a # ts) handles st" and a: "st_instances st a = Some i"
    and z: "in_refcount i - 1 = 0"
  shows "step_good (DropHandle a # ts) handles st
    ((map DropHandle (in_dependencies i) @ [DropMmap a]) @ ts)
    (set_refcount a (i\<lparr>in_dependencies := []\<rparr>) 0 st)" (is "step_good _ _ _ ?ts' ?st'")
proof -
  note I = tasks_invD [OF inv]
  have rc: "rc_inv st (add_mset a (handles + task_handles ts))" using I(1) by simp
  let ?st1 = "set_refcount a i 0 st"
  have rc1: "rc_inv ?st1 (handles + task_handles ts)" using rc_inv_release(2) [OF rc a] z by simp
  have nd: "a \<notin> dying ts" using rc_inv_release(1) [OF rc a] I(4) [OF a] by simp
  have "?st' = set_refcount a (i\<lparr>in_refcount := 0\<rparr>\<lparr>in_dependencies := []\<rparr>) 0 ?st1"
    by (simp add: set_refcount_def)
  then have "rc_inv ?st' (handles + task_handles ts + mset (in_dependencies i))"
    using rc_inv_free [OF rc1, of a "i\<lparr>in_refcount := 0\<rparr>"] by simp
  then have "tasks_inv ?ts' handles ?st'"
    using I nd filter_mmaps_mem [of a ts] by (auto simp: tasks_inv_def ac_simps split: if_splits)
  moreover have "drop_rel st ?st'" using a by (auto simp: drop_rel_def)
  moreover have "drop_measure ?ts' ?st' < drop_measure (DropHandle a # ts) st"
    using drop_measure_update [OF rc_inv_parts(1) [OF rc] a set_refcount_instances(1), of ?ts' "i\<lparr>in_dependencies := []\<rparr>" 0 "DropHandle a # ts"]
      rc_inv_release(1) [OF rc a] by simp
  ultimately show ?thesis by (simp add: step_good_def)
qed

lemma step_unmap:
  assumes inv: "tasks_inv (DropMmap a # ts) handles st" and a: "st_instances st a = Some i"
  shows "step_good (DropMmap a # ts) handles st ts (unmap_context a i st)"
proof -
  let ?st' = "unmap_context a i st"
  note I = tasks_invD [OF inv]
  have z: "in_refcount i = 0" "in_dependencies i = []" using I(4,5) [OF a] by simp_all
  have nd: "a \<notin> dying ts" using I(2) filter_mmaps_mem [of a ts] by simp
  have rc: "rc_inv st (handles + task_handles ts)" using I(1) by simp
  have "tasks_inv ts handles ?st'"
    using I nd rc_inv_unmap [OF rc a z] by (auto simp: tasks_inv_def split: if_splits)
  moreover have "drop_rel st ?st'"
    using a by (auto simp: drop_rel_def unmap_context_def split: option.splits)
  moreover have "drop_measure ts ?st' < drop_measure (DropMmap a # ts) st"
    using drop_measure_update [OF rc_inv_parts(1) [OF rc] a unmap_context_instances, of ts i "DropMmap a # ts"] z by simp
  ultimately show ?thesis by (simp add: step_good_def)
qed

lemma drop_step_ok:
  assumes inv: "tasks_inv (t # ts) handles st"
  obtains new st' where "drop_step t st = Inr (new, st')" "step_good (t # ts) handles st (new @ ts) st'"
proof (cases t)
  case (DropHandle a)
  have "a \<in># handles + task_handles (t # ts)" using DropHandle by simp
  then obtain i where a: "st_instances st a = Some i"
    using rc_inv_parts(3) [OF tasks_invD(1) [OF inv]] by (metis domD subsetD)
  show ?thesis
    using a that step_release [OF inv [unfolded DropHandle] a] step_free [OF inv [unfolded DropHandle] a]
    by (cases "in_refcount i - 1 = 0") (simp_all add: drop_step_def DropHandle instance_of_def Let_def)
next
  case (DropMmap a)
  then obtain i where a: "st_instances st a = Some i" using tasks_invD(3) [OF inv] by auto
  show ?thesis
    using a that step_unmap [OF inv [unfolded DropMmap] a]
    by (simp add: drop_step_def DropMmap instance_of_def)
qed

lemma drop_tasks_ok:
  assumes "tasks_inv ts handles st"
  shows "\<exists>st'. drop_tasks ts st = Some (Inr st') \<and> tasks_inv [] handles st' \<and> drop_rel st st'"
  using assms
proof (induction "drop_measure ts st" arbitrary: ts st rule: less_induct)
  case less
  show ?case
  proof (cases ts)
    case Nil
    then show ?thesis using less.prems by (simp add: drop_tasks.simps drop_rel_refl)
  next
    case (Cons t us)
    obtain new st1 where s: "drop_step t st = Inr (new, st1)"
      and g: "step_good (t # us) handles st (new @ us) st1"
      using drop_step_ok [OF less.prems [unfolded Cons]] .
    then have lt: "drop_measure (new @ us) st1 < drop_measure ts st"
      and inv: "tasks_inv (new @ us) handles st1" and r: "drop_rel st st1"
      by (simp_all add: step_good_def Cons)
    obtain st' where "drop_tasks (new @ us) st1 = Some (Inr st')" "tasks_inv [] handles st'"
      "drop_rel st1 st'"
      using less.hyps [OF lt inv] by blast
    with r s show ?thesis
      by (auto simp: Cons drop_tasks.simps [of "t # us"] intro: drop_rel_trans)
  qed
qed

section \<open>Reachability\<close>

definition reachable :: "store \<Rightarrow> address set \<Rightarrow> address set" where
  "reachable st roots = (depends st)\<^sup>* `` roots"

definition live :: "store \<Rightarrow> bool" where
  "live st \<longleftrightarrow> (\<forall>a i. st_instances st a = Some i \<longrightarrow> in_refcount i \<noteq> 0)"

lemma reachable_subset:
  assumes "rc_inv st handles"
  shows "reachable st (set_mset handles) \<subseteq> dom (st_instances st)"
proof -
  have "b \<in> dom (st_instances st)" if "(a, b) \<in> (depends st)\<^sup>*" "a \<in> dom (st_instances st)" for a b
    using that
  proof (induction rule: rtrancl_induct)
    case (step b c)
    then obtain i where "st_instances st b = Some i" "c \<in> set (in_dependencies i)"
      by (auto simp: depends_def referrers_def)
    then show ?case using rc_invD(3) [OF assms] by blast
  qed
  then show ?thesis using rc_inv_parts(3) [OF assms] unfolding reachable_def by blast
qed

text \<open>Without cycles, what is counted is held by some handle in the end.\<close>

lemma live_reachable:
  assumes inv: "rc_inv st handles" and live: "live st"
  shows "dom (st_instances st) = reachable st (set_mset handles)"
proof (rule antisym [OF _ reachable_subset [OF inv]])
  have "depends st \<subseteq> dom (st_instances st) \<times> dom (st_instances st)"
    using rc_invD(3) [OF inv] unfolding depends_def referrers_def by blast
  then have "finite (depends st)" using rc_inv_parts(1) [OF inv] by (meson finite_SigmaI finite_subset)
  then have "wf (depends st)" using rc_inv_parts(2) [OF inv] by (rule finite_acyclic_wf)
  then have "a \<in> dom (st_instances st) \<longrightarrow> a \<in> reachable st (set_mset handles)" for a
  proof (induction a rule: wf_induct_rule)
    case (less a)
    show ?case
    proof
      assume "a \<in> dom (st_instances st)"
      then obtain i where a: "st_instances st a = Some i" by blast
      then have "unat (in_refcount i) \<noteq> 0" using live by (simp add: live_def unat_eq_0)
      then have "count handles a \<noteq> 0 \<or> referrers st a \<noteq> {}"
        using rc_invD(1) [OF inv a] by auto
      then consider "a \<in># handles" | b where "b \<in> referrers st a" by fastforce
      then show "a \<in> reachable st (set_mset handles)"
      proof cases
        case (2 b)
        then have "(b, a) \<in> depends st" "b \<in> dom (st_instances st)"
          by (auto simp: depends_def referrers_def)
        moreover from this have "b \<in> reachable st (set_mset handles)" using less.IH by blast
        ultimately show ?thesis unfolding reachable_def by (auto intro: rtrancl_into_rtrancl)
      qed (auto simp: reachable_def)
    qed
  qed
  then show "dom (st_instances st) \<subseteq> reachable st (set_mset handles)" by blast
qed

lemma survivors_same:
  assumes r: "drop_rel st st'" and live: "live st'" and a: "st_instances st' a = Some i'"
  shows "\<exists>i. st_instances st a = Some i \<and> i' = i\<lparr>in_refcount := in_refcount i'\<rparr>"
  using drop_relD [OF r a] live a unfolding live_def by metis

lemma survivors_reachable:
  assumes inv: "rc_inv st' handles" and live: "live st'" and r: "drop_rel st st'"
  shows "dom (st_instances st') = reachable st (set_mset handles)"
proof (rule antisym)
  have deps: "\<exists>i. st_instances st a = Some i \<and> in_dependencies i' = in_dependencies i"
    if "st_instances st' a = Some i'" for a i'
    using survivors_same [OF r live that] by (metis wasm_instance.select_convs(2) wasm_instance.surjective wasm_instance.update_convs(1))
  then have "depends st' \<subseteq> depends st" by (fastforce simp: depends_def referrers_def)
  then show "dom (st_instances st') \<subseteq> reachable st (set_mset handles)"
    unfolding live_reachable [OF inv live] reachable_def using rtrancl_mono by blast
  have "b \<in> dom (st_instances st')" if "(a, b) \<in> (depends st)\<^sup>*" "a \<in> dom (st_instances st')" for a b
    using that
  proof (induction rule: rtrancl_induct)
    case (step b c)
    then obtain i' i where i': "st_instances st' b = Some i'"
      and i: "st_instances st b = Some i" "in_dependencies i' = in_dependencies i"
      using deps by blast
    then have "c \<in> set (in_dependencies i')" using step.hyps(2) by (auto simp: depends_def referrers_def)
    then show ?case using rc_invD(3) [OF inv i'] by blast
  qed
  then show "reachable st (set_mset handles) \<subseteq> dom (st_instances st')"
    using rc_inv_parts(3) [OF inv] unfolding reachable_def by blast
qed

lemma handle_drop_ok:
  assumes "rc_inv st (add_mset a handles)" "live st"
  obtains st' where "handle_drop a st = Some (Inr st')" "rc_inv st' handles" "live st'" "drop_rel st st'"
proof -
  have "tasks_inv [DropHandle a] handles st" using assms by (simp add: tasks_inv_def live_def)
  from drop_tasks_ok [OF this] that show ?thesis
    by (auto simp: handle_drop_def tasks_inv_def live_def)
qed

section \<open>No dangling pointers\<close>

text \<open>An instance keeps alive what its imports point to: the owner of an imported function, table or memory is
  a dependency, and the owner of an imported global, which may have been handed on by the instance
  that exported it, is a dependency of a dependency.\<close>

definition owns_global :: "store \<Rightarrow> address \<Rightarrow> address \<Rightarrow> bool" where
  "owns_global st b p \<longleftrightarrow>
     (\<exists>inst d. st_instances st b = Some inst \<and> d < defined_globals inst \<and>
        global_mut b (in_offsets inst) d = Inr p)"

fun cell_held :: "store \<Rightarrow> address \<Rightarrow> address list \<Rightarrow> cell \<Rightarrow> bool" where
  "cell_held st a deps (CFuncImport imp) \<longleftrightarrow> fi_vmctx imp \<in> set deps"
| "cell_held st a deps (CTableImport imp) \<longleftrightarrow> ti_vmctx imp \<in> set deps"
| "cell_held st a deps (CMemoryImport imp) \<longleftrightarrow> mi_vmctx imp \<in> set deps"
| "cell_held st a deps (CGlobalImport imp) \<longleftrightarrow>
     (\<exists>b. (a, b) \<in> (depends st)\<^sup>+ \<and> owns_global st b (gi_from imp))"
| "cell_held st a deps _ \<longleftrightarrow> True"

definition owners_held :: "store \<Rightarrow> bool" where
  "owners_held st \<longleftrightarrow>
     (\<forall>a i s c. st_instances st a = Some i \<and> unat (slot_index s) < used i s \<and>
        cell_at (st_heap st) a (in_offsets i) s = Some c \<longrightarrow> cell_held st a (in_dependencies i) c)"

text \<open>A struct of a context only depends on the bytes of the context.\<close>

lemma cell_at_local:
  assumes ok: "context_ok offs" and fits: "cell_fits s c" and at: "cell_at h base offs s = Some c"
    and same: "\<And>x. unat (x - base) < lay_size offs \<Longrightarrow> h' x = h x"
  shows "cell_at h' base offs s = Some c"
proof -
  obtain y where y: "slot_offset offs s = Some y" "read_cell (base + ucast y) h = Some c"
    using at by (auto simp: cell_at_def split: option.splits)
  have fit: "layout_fits offs" using ok by (simp add: context_ok_def)
  have room: "unat y + cell_size c \<le> lay_size offs"
    using slot_in_context [OF fit y(1)] cell_size_slot [OF ok fits] by simp
  have old: "h (base + ucast y) = Some (c, 0)"
    "\<And>i. i < cell_size c \<Longrightarrow> h (base + ucast y + of_nat i) = Some (c, i)"
    using y(2) by (auto simp: read_cell_def split: option.splits prod.splits if_splits)
  have "h' (base + ucast y + of_nat i) = Some (c, i)" if i: "i < cell_size c" for i
  proof -
    have un: "unat (of_nat i :: address) = i"
      using i cell_size_bounds(2) [of c] by (intro unat_of_nat_u64) simp
    have "unat (ucast y + of_nat i :: address) = unat y + i"
      using un unat_lt_u32 [of y] i cell_size_bounds(2) [of c]
      by (subst unat_add_small) simp_all
    then have "unat (base + ucast y + of_nat i - base) < lay_size offs"
      using room i by (simp add: algebra_simps)
    then show ?thesis using same old(2) [OF i] by metis
  qed
  from this this [of 0] have "read_cell (base + ucast y) h' = Some c"
    using cell_size_bounds(1) [of c] by (simp add: read_cell_def)
  then show ?thesis using y(1) by (simp add: cell_at_def)
qed

lemma inst_shape_refcount [simp]: "inst_shape (i\<lparr>in_refcount := n\<rparr>) = inst_shape i"
  by (simp add: inst_shape_def)

lemma used_refcount [simp]: "used (i\<lparr>in_refcount := n\<rparr>) s = used i s"
  by (cases s) simp_all

lemma slot_good_refcount [simp]: "slot_good st (i\<lparr>in_refcount := n\<rparr>) s c = slot_good st i s c"
  by (cases s; cases c) simp_all

lemma survivor_cell:
  assumes inv: "store_inv st" and r: "drop_rel st st'"
    and b: "st_instances st b = Some i" and b': "st_instances st' b \<noteq> None"
    and at: "cell_at (st_heap st) b (in_offsets i) s = Some c" and fits: "cell_fits s c"
  shows "cell_at (st_heap st') b (in_offsets i) s = Some c"
proof (rule cell_at_local [OF _ fits at])
  show "context_ok (in_offsets i)" using inst_shapeD(1) [OF own_slot(1) [OF inv b]] .
  fix x assume x: "unat (x - b) < lay_size (in_offsets i)"
  show "st_heap st' x = st_heap st x"
  proof (rule ccontr)
    assume "st_heap st' x \<noteq> st_heap st x"
    then obtain a j n where a: "st_instances st a = Some j" "st_instances st' a = None"
      "size_of_vmctx (in_offsets j) = Some n" "unat (x - a) < unat n"
      using r unfolding drop_rel_def by metis
    have fit: "layout_fits (in_offsets j)" using inst_shapeD(2) [OF own_slot(1) [OF inv a(1)]] .
    then have "unat n = lay_size (in_offsets j)"
      using begins_fit(9) [OF fit] a(3) by (simp add: layout_fits_def unat_of_nat_u32)
    moreover have "a \<noteq> b" using a(2) b' by auto
    then have "apart a (lay_size (in_offsets j)) b (lay_size (in_offsets i))"
      using inv a(1) b unfolding store_inv_def by blast
    ultimately show False using a(4) x by (auto simp: apart_def)
  qed
qed

lemma points_to_survives:
  assumes r: "drop_rel st st'" and live: "live st'" and b: "st_instances st' b \<noteq> None"
  shows "points_to_table st b p \<Longrightarrow> points_to_table st' b p"
    and "points_to_memory st b p \<Longrightarrow> points_to_memory st' b p"
    and "owns_global st b p \<Longrightarrow> owns_global st' b p"
proof -
  obtain i' where i': "st_instances st' b = Some i'" using b by auto
  obtain i where i: "st_instances st b = Some i" "i' = i\<lparr>in_refcount := in_refcount i'\<rparr>"
    using survivors_same [OF r live i'] by blast
  have k: "in_offsets i' = in_offsets i" "in_module i' = in_module i"
    "in_tables i' = in_tables i" "in_memories i' = in_memories i"
    by (subst i(2), simp)+
  show "points_to_table st b p \<Longrightarrow> points_to_table st' b p"
    and "points_to_memory st b p \<Longrightarrow> points_to_memory st' b p"
    and "owns_global st b p \<Longrightarrow> owns_global st' b p"
    using i(1) i' k by (auto simp: points_to_table_def points_to_memory_def owns_global_def)
qed

text \<open>Survivors keep their dependencies, so a path of dependencies stays a path.\<close>

lemma survivor_path:
  assumes inv: "rc_inv st' handles" and r: "drop_rel st st'" and live: "live st'"
    and path: "(a, b) \<in> (depends st)\<^sup>+" and a: "st_instances st' a \<noteq> None"
  shows "(a, b) \<in> (depends st')\<^sup>+ \<and> st_instances st' b \<noteq> None"
proof -
  have step: "(x, y) \<in> depends st' \<and> st_instances st' y \<noteq> None"
    if xy: "(x, y) \<in> depends st" and x: "st_instances st' x \<noteq> None" for x y
  proof -
    obtain i' where i': "st_instances st' x = Some i'" using x by auto
    obtain i where i: "st_instances st x = Some i" "i' = i\<lparr>in_refcount := in_refcount i'\<rparr>"
      using survivors_same [OF r live i'] by blast
    have "in_dependencies i' = in_dependencies i" by (subst i(2)) simp
    then have "y \<in> set (in_dependencies i')" using xy i(1) by (auto simp: depends_def referrers_def)
    then show ?thesis
      using i' rc_invD(3) [OF inv i'] by (auto simp: depends_def referrers_def)
  qed
  from path show ?thesis
  proof (induction rule: trancl_induct)
    case (base y)
    then show ?case using step a by blast
  next
    case (step y z)
    then show ?case using \<open>\<And>x y. _ \<Longrightarrow> _ \<Longrightarrow> (x, y) \<in> depends st' \<and> _\<close> by (meson trancl.simps)
  qed
qed

lemma survivor_slot:
  assumes inv: "store_inv st" and held: "owners_held st"
    and rc: "rc_inv st' handles" and r: "drop_rel st st'" and live: "live st'"
    and i': "st_instances st' a = Some i'" and lt: "unat (slot_index s) < used i' s"
  shows "\<exists>c. cell_at (st_heap st') a (in_offsets i') s = Some c \<and> slot_good st' i' s c \<and>
    cell_held st' a (in_dependencies i') c"
proof -
  obtain i n where i: "st_instances st a = Some i" "i' = i\<lparr>in_refcount := n\<rparr>"
    using survivors_same [OF r live i'] by blast
  have lt': "unat (slot_index s) < used i s" using lt i(2) by simp
  obtain c where c: "cell_at (st_heap st) a (in_offsets i) s = Some c" "slot_good st i s c"
    using good_cell [OF inv i(1) lt'] .
  have h: "cell_held st a (in_dependencies i) c"
    using held i(1) lt' c(1) unfolding owners_held_def by blast
  have at: "cell_at (st_heap st') a (in_offsets i') s = Some c"
    using survivor_cell [OF inv r i(1) _ c(1) slot_good_fits [OF c(2)]] i' i(2) by simp
  have dep: "st_instances st' b \<noteq> None" if "b \<in> set (in_dependencies i)" for b
    using rc_invD(3) [OF rc i'] that i(2) by auto
  have glob: "\<exists>b. (a, b) \<in> (depends st')\<^sup>+ \<and> owns_global st' b p"
    if "(a, b) \<in> (depends st)\<^sup>+" "owns_global st b p" for b p
    using survivor_path [OF rc r live that(1)] points_to_survives(3) [OF r live _ that(2)] i' by blast
  note keep = points_to_survives [OF r live dep]
  have "slot_good st' i' s c" "cell_held st' a (in_dependencies i') c"
    using c(2) h keep(1,2) glob i(2)
    by (cases s; cases c; fastforce simp: points_to_global_def owns_global_def)+
  with at show ?thesis by blast
qed

lemma drop_keeps_store:
  assumes inv: "store_inv st" and held: "owners_held st"
    and rc: "rc_inv st' handles" and r: "drop_rel st st'" and live: "live st'"
  shows "store_inv st' \<and> owners_held st'"
proof
  note slot = survivor_slot [OF inv held rc r live]
  have shape: "inst_shape i'" "\<exists>i. st_instances st a = Some i \<and> in_offsets i' = in_offsets i"
    if "st_instances st' a = Some i'" for a i'
    using survivors_same [OF r live that] own_slot(1) [OF inv] drop_relD [OF r that]
    by (metis inst_shape_refcount, metis)
  show "store_inv st'"
    unfolding store_inv_def context_good_def
  proof (intro conjI allI impI)
    fix a b i j assume "st_instances st' a = Some i \<and> st_instances st' b = Some j \<and> a \<noteq> b"
    then show "apart a (lay_size (in_offsets i)) b (lay_size (in_offsets j))"
      using shape(2) inv unfolding store_inv_def by metis
  qed (use slot shape(1) in blast)+
  show "owners_held st'" unfolding owners_held_def using slot by fastforce
qed

text \<open>The context that an imported function is called with is that of an instance.\<close>

definition functions_live :: "store \<Rightarrow> bool" where
  "functions_live st \<longleftrightarrow>
     (\<forall>a i j. st_instances st a = Some i \<and> j < length (imported_funcs (in_module i)) \<longrightarrow>
        (\<exists>imp. imported_function (st_heap st) a (in_offsets i) j = Inr imp \<and> fi_vmctx imp \<in> dom (st_instances st)))"

lemma held_functions_live:
  assumes inv: "store_inv st" and held: "owners_held st" and rc: "rc_inv st handles"
  shows "functions_live st"
  unfolding functions_live_def
proof (intro allI impI, elim conjE)
  fix a i j assume a: "st_instances st a = Some i" and j: "j < length (imported_funcs (in_module i))"
  then have "j < used i (FuncImport (of_nat j))" by simp
  then obtain x c where x: "slot_offset (in_offsets i) (FuncImport (of_nat j)) = Some x"
    "read_cell (a + ucast x) (st_heap st) = Some c" "slot_good st i (FuncImport (of_nat j)) c" "unat (of_nat j :: u32) = j"
    by (rule read_slot [OF inv a _ slot_kinds_array(2)])
  then obtain imp where imp: "c = CFuncImport imp" by (cases c) simp_all
  have "cell_at (st_heap st) a (in_offsets i) (FuncImport (of_nat j)) = Some c" using x(1,2) by (simp add: cell_at_def)
  moreover have "unat (slot_index (FuncImport (of_nat j))) < used i (FuncImport (of_nat j))" using j x(4) by simp
  ultimately have "cell_held st a (in_dependencies i) c" using held a unfolding owners_held_def by blast
  then have "fi_vmctx imp \<in> dom (st_instances st)" using rc_invD(3) [OF rc a] by (auto simp: imp)
  moreover have "imported_function (st_heap st) a (in_offsets i) j = Inr imp"
    using x(1,2) by (simp add: imported_function_def vm_add_def deref_function_import_def imp)
  ultimately show "\<exists>imp. imported_function (st_heap st) a (in_offsets i) j = Inr imp \<and> fi_vmctx imp \<in> dom (st_instances st)"
    by blast
qed

text \<open>A new instance whose dependencies are the owners of what it imports, as the linker makes them, holds them.\<close>

definition imports_held :: "store \<Rightarrow> resolved_imports \<Rightarrow> bool" where
  "imports_held st imps \<longleftrightarrow>
     fi_vmctx ` set (imp_functions imps) \<union> ti_vmctx ` set (imp_tables imps) \<union> mi_vmctx ` set (imp_memories imps) \<subseteq>
       set (imp_dependencies imps) \<and>
     (\<forall>imp \<in> set (imp_globals imps). \<exists>b \<in> set (imp_dependencies imps). \<exists>b'. (b, b') \<in> (depends st)\<^sup>* \<and> owns_global st b' (gi_from imp))"

text \<open>The imports in a new context are the ones that were passed.\<close>

lemma import_cell_passed:
  assumes good: "slot_good st inst s c" and lt: "unat (slot_index s) < used inst s" and c: "cell_at h a (in_offsets inst) s = Some c"
    and cells: "\<forall>(mk, cs) \<in> set (import_specs imps). \<forall>i < length cs. cell_at h a (in_offsets inst) (mk (of_nat i)) = Some (cs ! i)"
    and ok: "imports_ok st0 (in_module inst) imps"
  shows "case c of
      CFuncImport imp \<Rightarrow> imp \<in> set (imp_functions imps) | CTableImport imp \<Rightarrow> imp \<in> set (imp_tables imps)
    | CMemoryImport imp \<Rightarrow> imp \<in> set (imp_memories imps) | CGlobalImport imp \<Rightarrow> imp \<in> set (imp_globals imps) | _ \<Rightarrow> True"
proof -
  have cell: "c = cs ! unat j" if "(mk, cs) \<in> set (import_specs imps)" "s = mk j" "unat j < length cs" for mk cs and j :: u32
    using cells that c by fastforce
  show ?thesis
  proof (cases s)
    case (FuncImport j)
    then show ?thesis
      using cell [of FuncImport "map CFuncImport (imp_functions imps)" j] lt ok by (simp add: import_specs_def imports_ok_def)
  next
    case (TableImport j)
    then show ?thesis
      using cell [of TableImport "map CTableImport (imp_tables imps)" j] lt ok by (simp add: import_specs_def imports_ok_def)
  next
    case (MemImport j)
    then show ?thesis
      using cell [of MemImport "map CMemoryImport (imp_memories imps)" j] lt ok by (simp add: import_specs_def imports_ok_def)
  next
    case (GlobImport j)
    then show ?thesis
      using cell [of GlobImport "map CGlobalImport (imp_globals imps)" j] lt ok by (simp add: import_specs_def imports_ok_def)
  qed (use good in \<open>cases c; simp\<close>)+
qed

lemma allocate_owners_held:
  assumes alloc: "instance_allocate env m finished_functions imps sigs st = Inr (a, st1)"
    and inv: "store_inv st" and args: "args_ok env m finished_functions imps sigs st"
    and fresh: "\<And>offs. vmoffsets_new 8 m = Some offs \<Longrightarrow> fresh_context st a offs"
    and held: "owners_held st" and imps: "imports_held st imps"
  shows "owners_held st1"
  unfolding owners_held_def
proof (intro allI impI, elim conjE)
  fix b i s c assume b: "st_instances st1 b = Some i" and lt: "unat (slot_index s) < used i s"
    and c: "cell_at (st_heap st1) b (in_offsets i) s = Some c"
  from allocate_keeps [OF alloc inv args fresh] obtain inst where st1: "store_inv st1"
    "st_instances st1 = (st_instances st)(a \<mapsto> inst)" "in_module inst = m" "vmoffsets_new 8 m = Some (in_offsets inst)"
    "in_dependencies inst = imp_dependencies imps"
    "\<forall>(mk, cs) \<in> set (import_specs imps). \<forall>i < length cs. cell_at (st_heap st1) a (in_offsets inst) (mk (of_nat i)) = Some (cs ! i)"
    "\<forall>b i s. st_instances st b = Some i \<and> unat (slot_index s) < used i s \<longrightarrow>
       cell_at (st_heap st1) b (in_offsets i) s = cell_at (st_heap st) b (in_offsets i) s" by blast
  have new: "st_instances st a = None" using fresh [OF st1(4)] by (simp add: fresh_context_def)
  have dep: "depends st \<subseteq> depends st1" using new by (auto simp: depends_def referrers_def st1(2))
  have owns: "owns_global st1 x p" if "owns_global st x p" for x p
    using that new unfolding owns_global_def st1(2) by auto
  show "cell_held st1 b (in_dependencies i) c"
  proof (cases "b = a")
    case False
    then have old: "st_instances st b = Some i" using b by (simp add: st1(2))
    then have "cell_held st b (in_dependencies i) c" using held lt c st1(7) unfolding owners_held_def by metis
    then show ?thesis using owns trancl_mono [OF _ dep] by (cases c) (simp_all, blast)
  next
    case True
    then have i: "i = inst" using b by (simp add: st1(2))
    have good: "slot_good st1 i s c" using good_cell [OF st1(1) b lt] c by fastforce
    have edge: "(a, x) \<in> depends st1" if "x \<in> set (imp_dependencies imps)" for x
      using that by (simp add: depends_def referrers_def st1(2,5))
    have glob: "\<exists>x. (a, x) \<in> (depends st1)\<^sup>+ \<and> owns_global st1 x (gi_from imp)" if imp: "imp \<in> set (imp_globals imps)" for imp
    proof -
      obtain x y where xy: "x \<in> set (imp_dependencies imps)" "(x, y) \<in> (depends st)\<^sup>*" "owns_global st y (gi_from imp)"
        using imps imp unfolding imports_held_def by blast
      have "(a, y) \<in> (depends st1)\<^sup>+" using edge [OF xy(1)] rtrancl_mono [OF dep] xy(2) by (meson rtrancl_into_trancl2 subsetD)
      then show ?thesis using owns [OF xy(3)] by blast
    qed
    have "imports_ok st (in_module inst) imps" using args st1(3) by (simp add: args_ok_def)
    from import_cell_passed [OF good [unfolded i] lt [unfolded i] c [unfolded i True] st1(6) this] show ?thesis
      using imps glob True st1(5) by (cases c) (auto simp: imports_held_def i)
  qed
qed

section \<open>Properties\<close>

text \<open>Two instances of which the second imports from the first, and a handle on each.\<close>

definition counted_instance :: "usize \<Rightarrow> address list \<Rightarrow> wasm_instance" where
  "counted_instance n deps =
     \<lparr>in_refcount = n, in_dependencies = deps, in_module = module_new, in_offsets = example_vmoffsets,
      in_memories = [], in_tables = [], in_finished_functions = []\<rparr>"

definition counted_store :: store where
  "counted_store = empty_store\<lparr>st_instances :=
     [0x100 \<mapsto> counted_instance 2 [], 0x200 \<mapsto> counted_instance 1 [0x100]]\<rparr>"

lemma counted_instances:
  "st_instances counted_store a =
     (if a = 0x200 then Some (counted_instance 1 [0x100])
      else if a = 0x100 then Some (counted_instance 2 []) else None)"
  by (simp add: counted_store_def)

lemma counted_dom: "dom (st_instances counted_store) = {0x200, 0x100}"
  by (simp add: counted_store_def)

lemma counted_referrers: "referrers counted_store a = (if a = 0x100 then {0x200} else {})"
  by (auto simp: referrers_def counted_instances counted_instance_def split: if_splits)

lemma counted_depends: "depends counted_store = {(0x200, 0x100)}"
  by (auto simp: depends_def counted_referrers split: if_splits)

lemma counted_store_ok: "rc_inv counted_store {#0x200, 0x100#}" "live counted_store"
proof -
  have "acyclic (depends counted_store)"
    unfolding counted_depends by (rule acyclicI_order [of _ id]) simp
  then show "rc_inv counted_store {#0x200, 0x100#}"
    by (rule rc_invI [rotated])
      (auto simp: counted_dom counted_referrers counted_instances counted_instance_def split: if_splits)
  show "live counted_store"
    by (simp add: live_def counted_instances counted_instance_def)
qed

text \<open>C23. Dropping a handle ends, without fault, and frees exactly the instances that no remaining
  handle reaches through dependencies: the counts stay exact, and every instance that stays is
  unchanged but for its count. The counts are exact when each is the number of handles held outside
  plus the number of instances that depend on it, and dependencies have no cycles.\<close>

theorem handle_drop_frees_exactly_unreachable:
  assumes "rc_inv st (add_mset a handles)" "live st"
  shows "\<exists>st'. handle_drop a st = Some (Inr st') \<and> rc_inv st' handles \<and> live st' \<and>
    dom (st_instances st') = reachable st (set_mset handles) \<and>
    (\<forall>b i'. st_instances st' b = Some i' \<longrightarrow>
      (\<exists>i. st_instances st b = Some i \<and> i' = i\<lparr>in_refcount := in_refcount i'\<rparr>))"
proof -
  obtain st' where "handle_drop a st = Some (Inr st')" "rc_inv st' handles" "live st'" "drop_rel st st'"
    using handle_drop_ok [OF assms] .
  then show ?thesis using survivors_reachable survivors_same by blast
qed

theorem handle_drop_frees_exactly_unreachable_witness:
  "\<exists>st'. handle_drop 0x200 counted_store = Some (Inr st') \<and> rc_inv st' {#0x100#} \<and>
     0x100 \<in> dom (st_instances st') \<and> 0x200 \<notin> dom (st_instances st')"
proof -
  have "y = 0x100" if "(0x100, y) \<in> {(0x200 :: address, 0x100 :: address)}\<^sup>*" for y
    using that by (rule converse_rtranclE) simp_all
  then have reach: "reachable counted_store {0x100} = {0x100}"
    unfolding reachable_def counted_depends by blast
  obtain st' where "handle_drop 0x200 counted_store = Some (Inr st')" "rc_inv st' {#0x100#}"
    "dom (st_instances st') = reachable counted_store (set_mset {#0x100#})"
    using handle_drop_frees_exactly_unreachable [OF counted_store_ok] by (elim exE conjE)
  then show ?thesis using reach by simp
qed

text \<open>C24. Dropping a handle leaves no dangling import: when every instance holds the owners of what it imports, directly or
  through its dependencies, then after a drop the tables, memories and globals that the contexts left import are those of instances
  that are left, and the contexts that their imported functions are called with belong to instances that are left.\<close>

theorem handle_drop_leaves_no_dangling_import:
  assumes "rc_inv st (add_mset a handles)" "live st" "store_inv st" "owners_held st"
  shows "\<exists>st'. handle_drop a st = Some (Inr st') \<and> store_inv st' \<and> owners_held st' \<and> functions_live st'"
proof -
  obtain st' where st': "handle_drop a st = Some (Inr st')" "rc_inv st' handles" "live st'" "drop_rel st st'"
    using handle_drop_ok [OF assms(1,2)] .
  then have "store_inv st'" "owners_held st'" using drop_keeps_store [OF assms(3,4)] by blast+
  then show ?thesis using st'(1) held_functions_live [OF _ _ st'(2)] by blast
qed

text \<open>A second instance that imports a function and the memory of the first, and a handle on each.\<close>

lemma set_refcount_inv:
  assumes inv: "store_inv st" and a: "st_instances st a = Some i"
  shows "store_inv (set_refcount a i n st)"
proof -
  let ?st = "set_refcount a i n st"
  have old: "\<exists>j m. st_instances st b = Some j \<and> k = j\<lparr>in_refcount := m\<rparr>" if "st_instances ?st b = Some k" for b k
    using that a by (auto simp: set_refcount_def split: if_splits intro: exI [of _ "in_refcount k"])
  have ex: "(\<exists>k d. st_instances ?st b = Some k \<and> Q k d) = (\<exists>k d. st_instances st b = Some k \<and> Q k d)"
    if "\<And>k m. Q (k\<lparr>in_refcount := m\<rparr>) = Q k" for Q :: "wasm_instance \<Rightarrow> nat \<Rightarrow> bool" and b
    using that a by (cases "b = a"; cases "st_instances st b") (simp_all add: set_refcount_def)
  have points: "points_to_table ?st b p = points_to_table st b p" "points_to_memory ?st b p = points_to_memory st b p"
    "points_to_global ?st p = points_to_global st p" for b p
    unfolding points_to_table_def points_to_memory_def points_to_global_def by (subst ex; simp)+
  have good: "slot_good ?st j s c = slot_good st j s c" for j s c
    by (cases s; cases c) (simp_all add: points)
  have heap: "st_heap ?st = st_heap st" by (simp add: set_refcount_def)
  show ?thesis
    unfolding store_inv_def
  proof (intro conjI allI impI)
    fix b k assume "st_instances ?st b = Some k"
    then obtain j m where j: "st_instances st b = Some j" "k = j\<lparr>in_refcount := m\<rparr>" using old by blast
    then show "inst_shape k" "context_good ?st b k"
      using own_slot [OF inv j(1)] by (simp_all add: context_good_def good heap)
  next
    fix b b' k k' assume "st_instances ?st b = Some k \<and> st_instances ?st b' = Some k' \<and> b \<noteq> b'"
    then obtain j m j' m' where "st_instances st b = Some j" "k = j\<lparr>in_refcount := m\<rparr>" "st_instances st b' = Some j'"
      "k' = j'\<lparr>in_refcount := m'\<rparr>" "b \<noteq> b'" using old by metis
    then show "apart b (lay_size (in_offsets k)) b' (lay_size (in_offsets k'))" using inv by (simp add: store_inv_def)
  qed
qed

lemma set_refcount_held:
  assumes held: "owners_held st" and a: "st_instances st a = Some i"
  shows "owners_held (set_refcount a i n st)"
proof -
  let ?st = "set_refcount a i n st"
  have insts: "st_instances ?st = (st_instances st)(a \<mapsto> i\<lparr>in_refcount := n\<rparr>)" and heap: "st_heap ?st = st_heap st"
    by (simp_all add: set_refcount_def)
  have "depends ?st = depends st" using a by (auto simp: depends_def referrers_def insts split: if_splits)
  moreover have "owns_global ?st b p = owns_global st b p" for b p using a by (auto simp: owns_global_def insts)
  ultimately have "cell_held ?st b deps c" if "cell_held st b deps c" for b deps c using that by (cases c) simp_all
  then show ?thesis using held a unfolding owners_held_def insts heap by (auto split: if_splits)
qed

definition sharing_module :: wasm_module where
  "sharing_module = importing_module\<lparr>signatures := [\<lparr>sig_params = [], sig_returns = [], call_conv = 0\<rparr>],
     imported_funcs := [(''env'', ''f'')], func_sigs := [0]\<rparr>"

definition sharing_offsets :: vmoffsets where
  "sharing_offsets = importing_offsets\<lparr>num_signature_ids := 1, num_imported_functions := 1\<rparr>"

lemma sharing_offsets: "vmoffsets_new 8 sharing_module = Some sharing_offsets"
  by (simp add: vmoffsets_new_def sharing_module_def importing_module_def module_new_def cast_to_u32_def sharing_offsets_def
      importing_offsets_def)

lemma sharing_fits: "layout_fits sharing_offsets" "lay_size sharing_offsets = 96"
  by (simp_all add: layout_fits_def supported_pointer_def sharing_offsets_def importing_offsets_def lay_defs)

definition sharing_imports :: "address \<Rightarrow> resolved_imports" where
  "sharing_imports p = imports_none\<lparr>imp_dependencies := [0x100100], imp_functions := [\<lparr>fi_body = 0x7000, fi_vmctx = 0x100100\<rparr>],
     imp_memories := [\<lparr>mi_from = p, mi_vmctx = 0x100100\<rparr>]\<rparr>"

lemma sharing_allocates:
  assumes "store_inv st" and "st_instances st = [0x100100 \<mapsto> inst]" and "in_offsets inst = example_vmoffsets"
    and "points_to_memory st 0x100100 p"
  shows "\<exists>st2. instance_allocate importing_env sharing_module [] (sharing_imports p) [7] st = Inr (0x200100, st2)"
    and "args_ok importing_env sharing_module [] (sharing_imports p) [7] st"
    and "vmoffsets_new 8 sharing_module = Some offs \<Longrightarrow> fresh_context st 0x200100 offs"
proof -
  have plan: "\<exists>memory windows. valid_memory memory \<and> memory_plan_for_memory memory (target_tunables windows) =
      Some (hd (memory_plans sharing_module))"
    by (rule exI [of _ "\<lparr>mem_minimum = 1, mem_maximum = None, mem_shared = False\<rparr>"], rule exI [of _ False])
      (simp add: sharing_module_def importing_module_def valid_memory_def WASM_MAX_PAGES_def memory_plan_for_memory_def
        memory_style_for_memory_def target_tunables_def default_tunables_def)
  then show "args_ok importing_env sharing_module [] (sharing_imports p) [7] st"
    using assms(4) sharing_offsets sharing_fits example_page_ok
    by (simp add: args_ok_def plans_ok_def imports_ok_def sharing_module_def importing_module_def module_new_def imports_none_def
        sharing_imports_def importing_env_def example_env_def)
  have "apart (0 + ucast (0x200100 :: u32)) 96 (0 + ucast (0x100100 :: u32)) 64"
    by (rule apart_offsets) simp_all
  then show "vmoffsets_new 8 sharing_module = Some offs \<Longrightarrow> fresh_context st 0x200100 offs"
    using sharing_offsets sharing_fits(2) example_fits(2) assms(2,3) by (simp add: fresh_context_def)
  have begins: "size_of_vmctx sharing_offsets = Some 96"
    using begins_fit(9) [OF sharing_fits(1)] sharing_fits(2) by simp
  have mm: "with_at_least (example_os\<lparr>os_mmap := Some 0x200000\<rparr>) 352 =
      Inr \<lparr>mm_ptr = 0x200000, mm_len = 4096, mm_accessible = [(0, 4096)], mm_bytes = (\<lambda>_. 0)\<rparr>"
    by (simp add: with_at_least_def round_up_to_page_size_def accessible_reserved_def example_os_def assert_res_def Let_def)
  have "\<exists>h. copy_arrays 0x200100 (context_arrays importing_env sharing_offsets [7] (sharing_imports p) [] [] []) (st_heap st) = Inr h"
    unfolding context_arrays_begin [OF sharing_fits(1)] by (rule copy_arrays_total)
  then show "\<exists>st2. instance_allocate importing_env sharing_module [] (sharing_imports p) [7] st = Inr (0x200100, st2)"
    using mm begins sharing_offsets
    by (auto simp: instance_allocate_def create_tables_def create_memories_def create_globals_def slice_from_def
        sharing_module_def importing_module_def module_new_def example_env_def importing_env_def unwrap_res_def map_err_def
        checked_add_def imports_none_def sharing_imports_def Let_def)
qed

lemma sharing_store:
  obtains st where "rc_inv st {#0x100100, 0x200100#}" "live st" "store_inv st" "owners_held st"
    "\<exists>inst. st_instances st 0x200100 = Some inst \<and> in_module inst = sharing_module"
proof -
  obtain st inst where st: "instance_allocate example_env example_module [] imports_none [] empty_store = Inr (0x100100, st)"
    "store_inv st" "st_instances st = [0x100100 \<mapsto> inst]" "in_module inst = example_module"
    "length (in_memories inst) = 1" "guard_ok example_os (in_memories inst ! 0)"
    "length (in_tables inst) = 1" "in_offsets inst = example_vmoffsets"
    by (rule example_store)
  have at: "st_instances st 0x100100 = Some inst" using st(3) by simp
  have "fresh_context empty_store 0x100100 offs" for offs by (simp add: fresh_context_def empty_store_def)
  from allocate_keeps [OF st(1) empty_store_inv example_args(1) this] st(3)
  have inst: "in_refcount inst = 1" "in_dependencies inst = []" by (auto simp: imports_none_def empty_store_def fun_eq_iff split: if_splits)
  have "owners_held empty_store" by (simp add: owners_held_def empty_store_def)
  then have held: "owners_held st"
    by (rule allocate_owners_held [OF st(1) empty_store_inv example_args(1) \<open>fresh_context empty_store 0x100100 _\<close>])
      (simp add: imports_held_def imports_none_def)
  define st0 where "st0 = set_refcount 0x100100 inst 2 st"
  have inv0: "store_inv st0" unfolding st0_def by (rule set_refcount_inv [OF st(2) at])
  have i0: "st_instances st0 = [0x100100 \<mapsto> inst\<lparr>in_refcount := 2\<rparr>]" by (simp add: st0_def set_refcount_def st(3))
  have "in_memories (inst\<lparr>in_refcount := 2\<rparr>) = in_memories inst" by simp
  obtain p where p: "memory_mut 0x100100 (in_offsets inst) 0 = Inr p"
    using own_memory_pointer [OF st(2) at, of 0] st(5) by auto
  have points: "points_to_memory st0 0x100100 p"
    using i0 p st(5) unfolding points_to_memory_def by (intro exI [of _ "inst\<lparr>in_refcount := 2\<rparr>"] exI [of _ 0]) simp
  have "in_offsets (inst\<lparr>in_refcount := 2\<rparr>) = example_vmoffsets" using st(8) by simp
  note sh = sharing_allocates [OF inv0 i0 this points]
  obtain st2 where st2: "instance_allocate importing_env sharing_module [] (sharing_imports p) [7] st0 = Inr (0x200100, st2)"
    using sh(1) by blast
  have held0: "owners_held st0" unfolding st0_def by (rule set_refcount_held [OF held at])
  have "owners_held st2"
    by (rule allocate_owners_held [OF st2 inv0 sh(2,3) held0]) (simp_all add: imports_held_def sharing_imports_def imports_none_def)
  moreover obtain inst2 where i2: "store_inv st2" "st_instances st2 = (st_instances st0)(0x200100 \<mapsto> inst2)"
    "in_module inst2 = sharing_module" "in_refcount inst2 = 1" "in_dependencies inst2 = [0x100100]"
    using allocate_keeps [OF st2 inv0 sh(2,3)] by (auto simp: sharing_imports_def imports_none_def)
  have ref: "referrers st2 x = (if x = 0x100100 then {0x200100} else {})" for x
    using i2(5) inst(2) by (auto simp: referrers_def i2(2) i0 split: if_splits)
  then have dep: "depends st2 = {(0x200100, 0x100100)}" by (auto simp: depends_def split: if_splits)
  have "acyclic (depends st2)" unfolding dep by (rule acyclicI_order [of _ id]) simp
  then have "rc_inv st2 {#0x100100, 0x200100#}"
    by (rule rc_invI [rotated]) (use inst i2 in \<open>auto simp: i2(2) i0 ref split: if_splits\<close>)
  moreover have "live st2" using i2(4) by (auto simp: live_def i2(2) i0 split: if_splits)
  ultimately show thesis using that i2 by auto
qed

theorem handle_drop_leaves_no_dangling_import_witness:
  "\<exists>st st'. handle_drop 0x100100 st = Some (Inr st') \<and> store_inv st' \<and> functions_live st' \<and>
     (\<exists>inst. st_instances st 0x200100 = Some inst \<and> imported_funcs (in_module inst) = [(''env'', ''f'')])"
proof -
  obtain st where st: "rc_inv st {#0x100100, 0x200100#}" "live st" "store_inv st" "owners_held st"
    "\<exists>inst. st_instances st 0x200100 = Some inst \<and> in_module inst = sharing_module"
    by (rule sharing_store)
  have "imported_funcs sharing_module = [(''env'', ''f'')]" by (simp add: sharing_module_def)
  then show ?thesis using handle_drop_leaves_no_dangling_import [OF st(1-4)] st(5) by metis
qed

end
