(* ===== verification/Linker.thy ===== *)
theory Linker
  imports Handles
begin

text \<open>
  Linking (\<^verbatim>\<open>wasmtime-jit/src/link.rs\<close>): imports are resolved by name, checked against what the
  module declares, and turned into the pointers that \<^verbatim>\<open>InstanceHandle::new\<close> copies into the context;
  then the compiled code is relocated. Each resolved import takes a handle of the instance it comes
  from into the set of dependencies.

  The resolver is a parameter (\<^verbatim>\<open>Resolver::resolve\<close>), and so are the addresses of the runtime's own
  functions and the text of a signature. The target is 64-bit.
\<close>

section \<open>Compatibility of exports and imports\<close>

type_synonym resolver = "string \<Rightarrow> string \<Rightarrow> export_value option"

definition is_global_compatible :: "global_desc \<Rightarrow> global_desc \<Rightarrow> bool res" where
  "is_global_compatible exported imported =
     bind_res
       (case glb_initializer imported of
          Import \<Rightarrow> Inr ()
        | _ \<Rightarrow> Inl (Panic ''imported Global should have an Imported initializer'')) (\<lambda>_.
     Inr (glb_ty exported = glb_ty imported \<and> glb_mutability imported = glb_mutability exported))"

definition is_table_element_type_compatible :: "table_element_type \<Rightarrow> table_element_type \<Rightarrow> bool" where
  "is_table_element_type_compatible exported_type imported_type =
     (case exported_type of
        Func \<Rightarrow> (case imported_type of Func \<Rightarrow> True | _ \<Rightarrow> False)
      | Val exported_val_ty \<Rightarrow>
          (case imported_type of Val imported_val_ty \<Rightarrow> exported_val_ty = imported_val_ty | _ \<Rightarrow> False))"

text \<open>The clause on maxima that tables and memories share.\<close>

definition maximum_compatible :: "u32 option \<Rightarrow> u32 option \<Rightarrow> bool" where
  "maximum_compatible exported_maximum imported_maximum \<longleftrightarrow>
     imported_maximum = None \<or>
     (exported_maximum \<noteq> None \<and> the imported_maximum \<ge> the exported_maximum)"

definition is_table_compatible :: "table_plan \<Rightarrow> table_plan \<Rightarrow> bool" where
  "is_table_compatible exported imported \<longleftrightarrow>
     is_table_element_type_compatible (tbl_ty (tp_table exported)) (tbl_ty (tp_table imported)) \<and>
     tbl_minimum (tp_table imported) \<le> tbl_minimum (tp_table exported) \<and>
     maximum_compatible (tbl_maximum (tp_table exported)) (tbl_maximum (tp_table imported))"

definition is_memory_compatible :: "memory_plan \<Rightarrow> memory_plan \<Rightarrow> bool" where
  "is_memory_compatible exported imported \<longleftrightarrow>
     mem_minimum (mp_memory imported) \<le> mem_minimum (mp_memory exported) \<and>
     maximum_compatible (mem_maximum (mp_memory exported)) (mem_maximum (mp_memory imported)) \<and>
     mem_shared (mp_memory exported) = mem_shared (mp_memory imported)"

section \<open>One import\<close>

text \<open>Each gives the instance to depend on and the import to push, or the error of the branch.\<close>

definition path_of :: "import_name \<Rightarrow> string" where
  "path_of name = fst name @ ''/'' @ snd name"

definition link_error :: "import_name \<Rightarrow> string \<Rightarrow> 'a res" where
  "link_error name msg = Inl (Err (path_of name @ '': '' @ msg))"

definition link_function ::
  "(ir_signature \<Rightarrow> string) \<Rightarrow> resolver \<Rightarrow> wasm_module \<Rightarrow> nat \<Rightarrow> import_name \<Rightarrow> (address \<times> vm_function_import) res" where
  "link_function show_sig resolve m index name =
     (case resolve (fst name) (snd name) of
        Some (EFunction addr vmctx signature) \<Rightarrow>
          bind_res (index_res (func_sigs m) index) (\<lambda>sig.
          bind_res (index_res (signatures m) sig) (\<lambda>import_signature.
          if signature \<noteq> import_signature
          then link_error name
                 (''incompatible import type: exported function with signature '' @ show_sig signature @
                  '' incompatible with function import with signature '' @ show_sig import_signature)
          else Inr (vmctx, \<lparr>fi_body = addr, fi_vmctx = vmctx\<rparr>)))
      | Some _ \<Rightarrow> link_error name ''incompatible import type: export incompatible with function import''
      | None \<Rightarrow> link_error name ''unknown import function: function not provided'')"

definition link_table ::
  "resolver \<Rightarrow> wasm_module \<Rightarrow> nat \<Rightarrow> import_name \<Rightarrow> (address \<times> vm_table_import) res" where
  "link_table resolve m index name =
     (case resolve (fst name) (snd name) of
        Some (ETable defn vmctx table) \<Rightarrow>
          bind_res (index_res (table_plans m) index) (\<lambda>import_table.
          if \<not> is_table_compatible table import_table
          then link_error name ''incompatible import type: exported table incompatible with table import''
          else Inr (vmctx, \<lparr>ti_from = defn, ti_vmctx = vmctx\<rparr>))
      | Some _ \<Rightarrow> link_error name ''incompatible import type: export incompatible with table import''
      | None \<Rightarrow> Inl (Err (''unknown import: no provided import table for '' @ path_of name)))"

text \<open>The two assertions that the exported memory has the protection the importing code relies on.\<close>

definition memory_sanity_check :: "memory_plan \<Rightarrow> memory_plan \<Rightarrow> unit res" where
  "memory_sanity_check memory import_memory =
     bind_res
       (case (mp_style memory, mp_style import_memory) of
          (Static bound, Static import_bound) \<Rightarrow> assert_res (bound \<ge> import_bound) ''bound >= *import_bound''
        | _ \<Rightarrow> Inr ()) (\<lambda>_.
     assert_res (mp_offset_guard_size memory \<ge> mp_offset_guard_size import_memory)
       ''memory.offset_guard_size >= import_memory.offset_guard_size'')"

definition link_memory ::
  "resolver \<Rightarrow> wasm_module \<Rightarrow> nat \<Rightarrow> import_name \<Rightarrow> (address \<times> vm_memory_import) res" where
  "link_memory resolve m index name =
     (case resolve (fst name) (snd name) of
        Some (EMemory defn vmctx memory) \<Rightarrow>
          bind_res (index_res (memory_plans m) index) (\<lambda>import_memory.
          if \<not> is_memory_compatible memory import_memory
          then link_error name ''incompatible import type: exported memory incompatible with memory import''
          else bind_res (memory_sanity_check memory import_memory) (\<lambda>_.
               Inr (vmctx, \<lparr>mi_from = defn, mi_vmctx = vmctx\<rparr>)))
      | Some _ \<Rightarrow> link_error name ''incompatible import type: export incompatible with memory import''
      | None \<Rightarrow> Inl (Err (''unknown import: no provided import memory for '' @ path_of name)))"

definition link_global ::
  "resolver \<Rightarrow> wasm_module \<Rightarrow> nat \<Rightarrow> import_name \<Rightarrow> (address \<times> vm_global_import) res" where
  "link_global resolve m index name =
     (case resolve (fst name) (snd name) of
        Some (EGlobal defn vmctx global) \<Rightarrow>
          bind_res (index_res (globals m) index) (\<lambda>imported_global.
          bind_res (is_global_compatible global imported_global) (\<lambda>compatible.
          if \<not> compatible
          then link_error name ''incompatible import type: exported global incompatible with global import''
          else Inr (vmctx, \<lparr>gi_from = defn\<rparr>)))
      | Some _ \<Rightarrow> link_error name ''incompatible import type: exported global incompatible with global import''
      | None \<Rightarrow> Inl (Err (''unknown import: no provided import global for '' @ path_of name)))"

section \<open>Relocation\<close>

datatype libcall =
    CeilF32 | FloorF32 | TruncF32 | NearestF32 | CeilF64 | FloorF64 | TruncF64 | NearestF64
  | Probestack | OtherLibCall nat

datatype relocation_target =
    UserFunc nat
  | LibCall libcall
  | Memory32Grow
  | ImportedMemory32Grow
  | Memory32Size
  | ImportedMemory32Size
  | JumpTable nat nat

datatype reloc = Abs4 | Abs8 | X86PCRel4 | X86PCRelRodata4 | X86CallPCRel4 | OtherReloc nat

record relocation =
  rel_reloc :: reloc
  rel_target :: relocation_target
  rel_offset :: u32
  rel_addend :: u64

record runtime_symbols =
  sym_memory32_grow :: address
  sym_memory32_size :: address
  sym_imported_memory32_grow :: address
  sym_imported_memory32_size :: address
  sym_libcall :: "libcall \<Rightarrow> address"

record compiled_code =
  allocated_functions :: "address list"
  jt_offsets :: "u32 list list"
  relocations :: "relocation list list"

definition libcall_address :: "runtime_symbols \<Rightarrow> libcall \<Rightarrow> address res" where
  "libcall_address syms lc =
     (case lc of
        OtherLibCall _ \<Rightarrow> Inl (Panic ''unexpected libcall'')
      | _ \<Rightarrow> Inr (sym_libcall syms lc))"

definition target_func_address ::
  "runtime_symbols \<Rightarrow> wasm_module \<Rightarrow> compiled_code \<Rightarrow> relocation_target \<Rightarrow> address res" where
  "target_func_address syms m code target =
     (case target of
        UserFunc index \<Rightarrow>
          (case defined_func_index m index of
             Some f \<Rightarrow> index_res (allocated_functions code) f
           | None \<Rightarrow> Inl (Panic ''direct call to import''))
      | Memory32Grow \<Rightarrow> Inr (sym_memory32_grow syms)
      | Memory32Size \<Rightarrow> Inr (sym_memory32_size syms)
      | ImportedMemory32Grow \<Rightarrow> Inr (sym_imported_memory32_grow syms)
      | ImportedMemory32Size \<Rightarrow> Inr (sym_imported_memory32_size syms)
      | LibCall lc \<Rightarrow> libcall_address syms lc
      | JumpTable func jt \<Rightarrow>
          (case defined_func_index m func of
             Some f \<Rightarrow>
               bind_res (unwrap_res (get (jt_offsets code) f \<bind> (\<lambda>ofs. get ofs jt)) ''func jump table'') (\<lambda>offset.
               bind_res (index_res (allocated_functions code) f) (\<lambda>fatptr.
               Inr (fatptr + ucast offset)))
           | None \<Rightarrow> Inl (Panic ''func index of jump table'')))"

text \<open>The memory that holds the code, byte by byte.\<close>

type_synonym code_bytes = "address \<Rightarrow> u8"

definition write_unaligned :: "address \<Rightarrow> u64 \<Rightarrow> code_bytes \<Rightarrow> code_bytes" where
  "write_unaligned a v mem =
     (\<lambda>x. if unat (x - a) < 8 then to_le 8 v ! unat (x - a) else mem x)"

definition relocate_one ::
  "runtime_symbols \<Rightarrow> wasm_module \<Rightarrow> compiled_code \<Rightarrow> nat \<Rightarrow> relocation \<Rightarrow> code_bytes \<Rightarrow> code_bytes res" where
  "relocate_one syms m code i r mem =
     bind_res (target_func_address syms m code (rel_target r)) (\<lambda>target.
     bind_res (index_res (allocated_functions code) i) (\<lambda>body.
     case rel_reloc r of
       Abs8 \<Rightarrow>
         let reloc_address = body + ucast (rel_offset r); reloc_addend = rel_addend r in
         bind_res (unwrap_res (checked_add target reloc_addend) ''checked_add'') (\<lambda>reloc_abs.
         Inr (write_unaligned reloc_address reloc_abs mem))
     | X86PCRelRodata4 \<Rightarrow> Inr mem
     | _ \<Rightarrow> Inl (Panic ''unsupported reloc kind'')))"

definition relocate ::
  "runtime_symbols \<Rightarrow> wasm_module \<Rightarrow> compiled_code \<Rightarrow> code_bytes \<Rightarrow> code_bytes res" where
  "relocate syms m code =
     fold_res (\<lambda>(i, function_relocs). fold_res (relocate_one syms m code i) function_relocs)
       (enumerate 0 (relocations code))"

section \<open>The whole module\<close>

text \<open>Linking runs on the set of dependencies found so far and the store whose reference counts it
  changes. \<open>None\<close> stands for a drop that does not end; the error of a run keeps the state, because
  returning or unwinding drops the set of dependencies.\<close>

type_synonym link_state = "address list \<times> store"

definition link_lift :: "'a res \<Rightarrow> link_state \<Rightarrow> ((error + 'a) \<times> link_state) option" where
  "link_lift r s = Some (r, s)"

definition link_bind ::
  "(link_state \<Rightarrow> ((error + 'a) \<times> link_state) option) \<Rightarrow>
   ('a \<Rightarrow> link_state \<Rightarrow> ((error + 'b) \<times> link_state) option) \<Rightarrow>
   link_state \<Rightarrow> ((error + 'b) \<times> link_state) option" where
  "link_bind f g s =
     (case f s of
        None \<Rightarrow> None
      | Some (Inl e, s') \<Rightarrow> Some (Inl e, s')
      | Some (Inr x, s') \<Rightarrow> g x s')"

text \<open>\<^verbatim>\<open>dependencies.insert(InstanceHandle::from_vmctx(vmctx))\<close>: a handle that is already in the set is
  dropped again.\<close>

definition insert_dependency :: "address \<Rightarrow> link_state \<Rightarrow> ((error + unit) \<times> link_state) option" where
  "insert_dependency vmctx s =
     (case handle_from_vmctx vmctx (snd s) of
        Inl e \<Rightarrow> Some (Inl e, s)
      | Inr st \<Rightarrow>
          if vmctx \<in> set (fst s)
          then (case handle_drop vmctx st of
                  None \<Rightarrow> None
                | Some (Inl e) \<Rightarrow> Some (Inl e, fst s, st)
                | Some (Inr st') \<Rightarrow> Some (Inr (), fst s, st'))
          else Some (Inr (), fst s @ [vmctx], st))"

fun link_each ::
  "(nat \<Rightarrow> import_name \<Rightarrow> (address \<times> 'i) res) \<Rightarrow> nat \<Rightarrow> import_name list \<Rightarrow>
   link_state \<Rightarrow> ((error + 'i list) \<times> link_state) option" where
  "link_each link index [] = link_lift (Inr [])"
| "link_each link index (name # names) =
     link_bind (link_lift (link index name)) (\<lambda>(vmctx, imp).
     link_bind (insert_dependency vmctx) (\<lambda>_.
     link_bind (link_each link (Suc index) names) (\<lambda>imps.
     link_lift (Inr (imp # imps)))))"

definition link_body ::
  "runtime_symbols \<Rightarrow> (ir_signature \<Rightarrow> string) \<Rightarrow> wasm_module \<Rightarrow> compiled_code \<Rightarrow> resolver \<Rightarrow> code_bytes \<Rightarrow>
   link_state \<Rightarrow> ((error + resolved_imports \<times> code_bytes) \<times> link_state) option" where
  "link_body syms show_sig m code resolve mem =
     link_bind (link_each (link_function show_sig resolve m) 0 (imported_funcs m)) (\<lambda>function_imports.
     link_bind (link_each (link_table resolve m) 0 (imported_tables m)) (\<lambda>table_imports.
     link_bind (link_each (link_memory resolve m) 0 (imported_memories m)) (\<lambda>memory_imports.
     link_bind (link_each (link_global resolve m) 0 (imported_globals m)) (\<lambda>global_imports.
     link_bind (link_lift (relocate syms m code mem)) (\<lambda>mem'.
     link_lift (Inr (\<lparr>imp_dependencies = [], imp_functions = function_imports, imp_tables = table_imports,
                      imp_memories = memory_imports, imp_globals = global_imports\<rparr>, mem')))))))"

definition link_module ::
  "runtime_symbols \<Rightarrow> (ir_signature \<Rightarrow> string) \<Rightarrow> wasm_module \<Rightarrow> compiled_code \<Rightarrow> resolver \<Rightarrow> code_bytes \<Rightarrow>
   store \<Rightarrow> ((error + resolved_imports \<times> code_bytes) \<times> store) option" where
  "link_module syms show_sig m code resolve mem st =
     (case link_body syms show_sig m code resolve mem ([], st) of
        None \<Rightarrow> None
      | Some (Inr (imps, mem'), dependencies, st') \<Rightarrow>
          Some (Inr (imps\<lparr>imp_dependencies := dependencies\<rparr>, mem'), st')
      | Some (Inl e, dependencies, st') \<Rightarrow>
          (case drop_tasks (map DropHandle dependencies) st' of
             None \<Rightarrow> None
           | Some (Inl e') \<Rightarrow> Some (Inl e', st')
           | Some (Inr st'') \<Rightarrow> Some (Inl e, st'')))"

section \<open>Counting the dependencies\<close>

text \<open>The store in which each of \<open>deps\<close> has one more handle.\<close>

definition bump :: "address list \<Rightarrow> store \<Rightarrow> store" where
  "bump deps st = st\<lparr>st_instances := (\<lambda>a. map_option
     (\<lambda>i. i\<lparr>in_refcount := in_refcount i + of_bool (a \<in> set deps)\<rparr>) (st_instances st a))\<rparr>"

text \<open>No count is zero and none is at the largest value.\<close>

definition countable :: "store \<Rightarrow> bool" where
  "countable st \<longleftrightarrow> (\<forall>a i. st_instances st a = Some i \<longrightarrow> in_refcount i \<noteq> 0 \<and> in_refcount i + 1 \<noteq> 0)"

lemma bump_instances [simp]:
  "st_instances (bump deps st) a = map_option
     (\<lambda>i. i\<lparr>in_refcount := in_refcount i + of_bool (a \<in> set deps)\<rparr>) (st_instances st a)"
  "st_heap (bump deps st) = st_heap st" "st_global_exports (bump deps st) = st_global_exports st"
  by (simp_all add: bump_def)

lemma bumpE:
  assumes "st_instances (bump deps st) a = Some i"
  obtains j where "st_instances st a = Some j"
    "i = j\<lparr>in_refcount := in_refcount j + of_bool (a \<in> set deps)\<rparr>"
  using assms by (auto simp del: of_bool_eq_iff)

lemma store_eqI:
  "st_heap s = st_heap (t :: store) \<Longrightarrow> (\<And>a. st_instances s a = st_instances t a) \<Longrightarrow>
     st_global_exports s = st_global_exports t \<Longrightarrow> s = t"
  by (rule store.equality) auto

lemma set_refcount_exports [simp]: "st_global_exports (set_refcount a i n st) = st_global_exports st"
  by (simp add: set_refcount_def)

lemma bump_Nil [simp]: "bump [] st = st"
  by (rule store_eqI) (simp_all add: option.map_ident_strong)

lemma bump_new:
  assumes "st_instances st a = Some i" "a \<notin> set deps"
  shows "set_refcount a i (in_refcount i + 1) (bump deps st) = bump (deps @ [a]) st"
  using assms by (intro store_eqI) auto

lemma bump_release:
  assumes "st_instances st a = Some i" "a \<notin> set deps"
  shows "set_refcount a (i\<lparr>in_refcount := n\<rparr>) (in_refcount i) (bump (a # deps) st) = bump deps st"
  using assms by (intro store_eqI) (auto intro!: option.map_cong0)

lemma insert_dependency_bump:
  assumes a: "st_instances st a = Some i" and c: "countable st"
  shows "insert_dependency a (deps, bump deps st) =
    (let deps' = (if a \<in> set deps then deps else deps @ [a]) in Some (Inr (), deps', bump deps' st))"
proof (cases "a \<in> set deps")
  case True
  let ?i = "i\<lparr>in_refcount := in_refcount i + 1\<rparr>"
  let ?st = "set_refcount a ?i (in_refcount i + 1 + 1) (bump deps st)"
  have from_vmctx: "handle_from_vmctx a (bump deps st) = Inr ?st"
    using a True by (simp add: handle_from_vmctx_def instance_of_def)
  have "in_refcount i + 1 \<noteq> 0" using a c by (simp add: countable_def)
  then have "handle_drop a ?st = Some (Inr (bump deps st))"
    using a True
    by (auto simp: handle_drop_def drop_tasks.simps drop_step_def instance_of_def Let_def ac_simps
        intro!: store_eqI)
  then show ?thesis using True from_vmctx by (simp add: insert_dependency_def)
next
  case False
  then have "handle_from_vmctx a (bump deps st) = Inr (bump (deps @ [a]) st)"
    using a bump_new [OF a False] by (simp add: handle_from_vmctx_def instance_of_def)
  then show ?thesis using False by (simp add: insert_dependency_def Let_def)
qed

lemma drop_dependencies:
  assumes "countable st" "distinct deps" "set deps \<subseteq> dom (st_instances st)"
  shows "drop_tasks (map DropHandle deps) (bump deps st) = Some (Inr st)"
  using assms(2,3)
proof (induction deps)
  case Nil
  then show ?case by (simp add: drop_tasks.simps)
next
  case (Cons a deps)
  then obtain i where i: "st_instances st a = Some i" by auto
  have nz: "in_refcount i \<noteq> 0" using i assms(1) by (simp add: countable_def)
  have "drop_step (DropHandle a) (bump (a # deps) st) = Inr ([], bump deps st)"
    using i nz bump_release [OF i, of deps "in_refcount i + 1"] Cons.prems(1)
    by (simp add: drop_step_def instance_of_def Let_def)
  then show ?case using Cons by (simp add: drop_tasks.simps [of "_ # _"])
qed

text \<open>What the counts have nothing to do with.\<close>

lemma bump_points_to:
  "points_to_table (bump deps st) b p = points_to_table st b p"
  "points_to_memory (bump deps st) b p = points_to_memory st b p"
  "points_to_global (bump deps st) p = points_to_global st p"
  unfolding points_to_table_def points_to_memory_def points_to_global_def bump_instances
  by (fastforce split: option.split)+

lemma bump_slot_good [simp]: "slot_good (bump deps st) i s c = slot_good st i s c"
  by (cases s; cases c) (simp_all add: bump_points_to)

lemma bump_store_inv:
  assumes "store_inv st"
  shows "store_inv (bump deps st)"
proof -
  have good: "inst_shape i \<and> context_good (bump deps st) a i"
    if at: "st_instances (bump deps st) a = Some i" for a i
  proof -
    obtain j n where j: "st_instances st a = Some j" "i = j\<lparr>in_refcount := n\<rparr>"
      using bumpE [OF at] by blast
    then show ?thesis
      using own_slot [OF assms j(1)] by (simp add: context_good_def)
  qed
  have offs: "\<exists>j. st_instances st a = Some j \<and> in_offsets j = in_offsets i"
    if "st_instances (bump deps st) a = Some i" for a i
    using that by auto
  have far: "apart a (lay_size (in_offsets i)) b (lay_size (in_offsets j))"
    if "st_instances st a = Some i" "st_instances st b = Some j" "a \<noteq> b" for a b i j
    using that assms unfolding store_inv_def by blast
  have "apart a (lay_size (in_offsets i)) b (lay_size (in_offsets j))"
    if "st_instances (bump deps st) a = Some i" "st_instances (bump deps st) b = Some j" "a \<noteq> b" for a b i j
    using offs [OF that(1)] offs [OF that(2)] far that(3) by metis
  with good show ?thesis unfolding store_inv_def by blast
qed

lemma bump_rc_inv:
  assumes inv: "rc_inv st handles" and c: "countable st"
    and d: "distinct deps" "set deps \<subseteq> dom (st_instances st)"
  shows "rc_inv (bump deps st) (handles + mset deps)"
proof -
  have ref: "referrers (bump deps st) = referrers st" by (auto simp: referrers_def fun_eq_iff)
  have dm: "dom (st_instances (bump deps st)) = dom (st_instances st)" by (auto simp: dom_def)
  have cnt: "count (mset deps) a = (if a \<in> set deps then 1 else 0)" for a
    using d(1) by (simp add: distinct_count_atmost_1)
  have old: "\<exists>j. st_instances st a = Some j \<and> in_dependencies i = in_dependencies j \<and>
      unat (in_refcount i) = unat (in_refcount j) + count (mset deps) a"
    if at: "st_instances (bump deps st) a = Some i" for a i
  proof -
    obtain j where j: "st_instances st a = Some j"
      "i = j\<lparr>in_refcount := in_refcount j + of_bool (a \<in> set deps)\<rparr>"
      using bumpE [OF at] by blast
    have "in_refcount j + 1 \<noteq> 0" using c j(1) by (simp add: countable_def)
    then have "unat (in_refcount j + 1) = Suc (unat (in_refcount j))" by (simp add: unatSuc ac_simps)
    then show ?thesis using j by (auto simp: cnt)
  qed
  show ?thesis
  proof (rule rc_invI)
    show "set_mset (handles + mset deps) \<subseteq> dom (st_instances (bump deps st))"
      unfolding dm using rc_inv_parts(3) [OF inv] d(2) by simp
    show "finite (dom (st_instances (bump deps st)))" "acyclic (depends (bump deps st))"
      using rc_inv_parts(1,2) [OF inv] by (simp_all only: dm depends_def ref)
  next
    fix a i assume a: "st_instances (bump deps st) a = Some i"
    show "unat (in_refcount i) = count (handles + mset deps) a + card (referrers (bump deps st) a)"
      using old [OF a] rc_invD(1) [OF inv] by (auto simp: ref)
    show "distinct (in_dependencies i) \<and> set (in_dependencies i) \<subseteq> dom (st_instances (bump deps st))"
      unfolding dm using old [OF a] rc_invD(2,3) [OF inv] by metis
  qed
qed

section \<open>Resolution without the counts\<close>

definition resolved_all ::
  "(nat \<Rightarrow> import_name \<Rightarrow> (address \<times> 'i) res) \<Rightarrow> nat \<Rightarrow> import_name list \<Rightarrow> (address \<times> 'i) list res" where
  "resolved_all link index names = map_res (\<lambda>(i, name). link i name) (enumerate index names)"

lemma resolved_all_simps [simp]:
  "resolved_all link index [] = Inr []"
  "resolved_all link index (name # names) =
     bind_res (link index name) (\<lambda>p. bind_res (resolved_all link (Suc index) names) (\<lambda>ps. Inr (p # ps)))"
  by (simp_all add: resolved_all_def)

text \<open>A state of linking: every dependency found has one more handle.\<close>

definition run_ok :: "store \<Rightarrow> address list \<Rightarrow> address list \<Rightarrow> bool" where
  "run_ok st deps deps' \<longleftrightarrow> distinct deps' \<and> set deps \<subseteq> set deps' \<and> set deps' \<subseteq> dom (st_instances st)"

lemma link_each_run:
  assumes c: "countable st"
    and src: "\<And>i name v imp. link i name = Inr (v, imp) \<Longrightarrow> v \<in> dom (st_instances st)"
    and "distinct deps" "set deps \<subseteq> dom (st_instances st)"
  shows "\<exists>deps'. run_ok st deps deps' \<and>
    link_each link index names (deps, bump deps st) =
      Some (map_sum id (map snd) (resolved_all link index names), deps', bump deps' st) \<and>
    (\<forall>ps. resolved_all link index names = Inr ps \<longrightarrow> fst ` set ps \<subseteq> set deps')"
  using assms(3,4)
proof (induction names arbitrary: index deps)
  case Nil
  then show ?case by (auto simp: run_ok_def link_lift_def)
next
  case (Cons name names)
  show ?case
  proof (cases "link index name")
    case (Inl e)
    then show ?thesis using Cons.prems by (auto simp: run_ok_def link_bind_def link_lift_def)
  next
    case (Inr p)
    obtain v imp where p: "p = (v, imp)" by force
    have v: "v \<in> dom (st_instances st)" using src Inr p by blast
    define deps1 where "deps1 = (if v \<in> set deps then deps else deps @ [v])"
    have ins: "insert_dependency v (deps, bump deps st) = Some (Inr (), deps1, bump deps1 st)"
      using v insert_dependency_bump [OF _ c] by (auto simp: deps1_def Let_def)
    have d1: "distinct deps1" "set deps1 \<subseteq> dom (st_instances st)" "insert v (set deps) = set deps1"
      using Cons.prems v by (auto simp: deps1_def)
    obtain deps2 where d2: "run_ok st deps1 deps2"
      "link_each link (Suc index) names (deps1, bump deps1 st) =
        Some (map_sum id (map snd) (resolved_all link (Suc index) names), deps2, bump deps2 st)"
      "\<And>ps. resolved_all link (Suc index) names = Inr ps \<Longrightarrow> fst ` set ps \<subseteq> set deps2"
      using Cons.IH [OF d1(1,2)] by blast
    show ?thesis
      using d1(3) d2 ins Inr p
      by (intro exI [of _ deps2], cases "resolved_all link (Suc index) names")
        (auto simp: run_ok_def link_bind_def link_lift_def)
  qed
qed

text \<open>The same for the four kinds of imports in a row.\<close>

definition linked_imports ::
  "(ir_signature \<Rightarrow> string) \<Rightarrow> resolver \<Rightarrow> wasm_module \<Rightarrow>
   ((address \<times> vm_function_import) list \<times> (address \<times> vm_table_import) list \<times>
    (address \<times> vm_memory_import) list \<times> (address \<times> vm_global_import) list) res" where
  "linked_imports show_sig resolve m =
     bind_res (resolved_all (link_function show_sig resolve m) 0 (imported_funcs m)) (\<lambda>fs.
     bind_res (resolved_all (link_table resolve m) 0 (imported_tables m)) (\<lambda>ts.
     bind_res (resolved_all (link_memory resolve m) 0 (imported_memories m)) (\<lambda>ms.
     bind_res (resolved_all (link_global resolve m) 0 (imported_globals m)) (\<lambda>gs.
     Inr (fs, ts, ms, gs)))))"

fun export_vmctx :: "export_value \<Rightarrow> address" where
  "export_vmctx (EFunction _ v _) = v"
| "export_vmctx (ETable _ v _) = v"
| "export_vmctx (EMemory _ v _) = v"
| "export_vmctx (EGlobal _ v _) = v"

text \<open>An import comes from the export its name resolves to.\<close>

lemma link_function_from:
  "link_function show_sig resolve m i name = Inr (v, imp) \<Longrightarrow>
     \<exists>p sig. resolve (fst name) (snd name) = Some (EFunction p v sig) \<and> imp = \<lparr>fi_body = p, fi_vmctx = v\<rparr>"
  by (auto simp: link_function_def link_error_def split: option.splits export_value.splits if_splits)

lemma link_table_from:
  "link_table resolve m i name = Inr (v, imp) \<Longrightarrow>
     \<exists>p t. resolve (fst name) (snd name) = Some (ETable p v t) \<and> imp = \<lparr>ti_from = p, ti_vmctx = v\<rparr>"
  by (auto simp: link_table_def link_error_def split: option.splits export_value.splits if_splits)

lemma link_memory_from:
  "link_memory resolve m i name = Inr (v, imp) \<Longrightarrow>
     \<exists>p t. resolve (fst name) (snd name) = Some (EMemory p v t) \<and> imp = \<lparr>mi_from = p, mi_vmctx = v\<rparr>"
  by (auto simp: link_memory_def link_error_def split: option.splits export_value.splits if_splits)

lemma link_global_from:
  "link_global resolve m i name = Inr (v, imp) \<Longrightarrow>
     \<exists>p g. resolve (fst name) (snd name) = Some (EGlobal p v g) \<and> imp = \<lparr>gi_from = p\<rparr>"
  by (auto simp: link_global_def link_error_def split: option.splits export_value.splits if_splits)

lemmas link_from = link_function_from link_table_from link_memory_from link_global_from

definition exports_live :: "store \<Rightarrow> resolver \<Rightarrow> bool" where
  "exports_live st resolve \<longleftrightarrow>
     (\<forall>mname field v. resolve mname field = Some v \<longrightarrow>
        export_good st v \<and> export_vmctx v \<in> dom (st_instances st))"

lemma link_sources:
  assumes "exports_live st resolve"
  shows "link_function show_sig resolve m i name = Inr (v, fi) \<Longrightarrow> v \<in> dom (st_instances st)"
    and "link_table resolve m i name = Inr (v, ti) \<Longrightarrow> v \<in> dom (st_instances st)"
    and "link_memory resolve m i name = Inr (v, mi) \<Longrightarrow> v \<in> dom (st_instances st)"
    and "link_global resolve m i name = Inr (v, gi) \<Longrightarrow> v \<in> dom (st_instances st)"
proof -
  have v: "export_vmctx e \<in> dom (st_instances st)" if "resolve x y = Some e" for x y e
    using assms that by (simp add: exports_live_def)
  show "link_function show_sig resolve m i name = Inr (v, fi) \<Longrightarrow> v \<in> dom (st_instances st)"
    and "link_table resolve m i name = Inr (v, ti) \<Longrightarrow> v \<in> dom (st_instances st)"
    and "link_memory resolve m i name = Inr (v, mi) \<Longrightarrow> v \<in> dom (st_instances st)"
    and "link_global resolve m i name = Inr (v, gi) \<Longrightarrow> v \<in> dom (st_instances st)"
    by (force dest: link_function_from v, force dest: link_table_from v,
        force dest: link_memory_from v, force dest: link_global_from v)
qed

lemma link_stage:
  assumes c: "countable st" and deps: "run_ok st [] deps"
    and src: "\<forall>i name v imp. link i name = Inr (v, imp) \<longrightarrow> v \<in> dom (st_instances st)"
    and err: "\<And>e deps'. resolved_all link 0 names = Inl e \<Longrightarrow> run_ok st [] deps' \<Longrightarrow>
      P (Some (Inl e, deps', bump deps' st))"
    and ok: "\<And>ps deps'. resolved_all link 0 names = Inr ps \<Longrightarrow> run_ok st [] deps' \<Longrightarrow>
      set deps \<union> fst ` set ps \<subseteq> set deps' \<Longrightarrow> P (g (map snd ps) (deps', bump deps' st))"
  shows "P (link_bind (link_each link 0 names) g (deps, bump deps st))"
proof -
  have "distinct deps" "set deps \<subseteq> dom (st_instances st)" using deps by (auto simp: run_ok_def)
  then obtain deps' where d: "run_ok st deps deps'"
    "link_each link 0 names (deps, bump deps st) =
      Some (map_sum id (map snd) (resolved_all link 0 names), deps', bump deps' st)"
    "\<And>ps. resolved_all link 0 names = Inr ps \<Longrightarrow> fst ` set ps \<subseteq> set deps'"
    using link_each_run [OF c, of link deps 0 names] src by blast
  have "run_ok st [] deps'" "set deps \<subseteq> set deps'" using d(1) by (auto simp: run_ok_def)
  with d err ok show ?thesis
    by (cases "resolved_all link 0 names") (simp_all add: link_bind_def)
qed

text \<open>What linking gives, in terms of the resolution alone.\<close>

fun body_outcome where
  "body_outcome st mem' (Inl e) out \<longleftrightarrow> (\<exists>deps. run_ok st [] deps \<and> out = Some (Inl e, deps, bump deps st))"
| "body_outcome st mem' (Inr (fs, ts, ms, gs)) out \<longleftrightarrow>
     (\<exists>deps. run_ok st [] deps \<and>
        out = Some (Inr (\<lparr>imp_dependencies = [], imp_functions = map snd fs, imp_tables = map snd ts,
                          imp_memories = map snd ms, imp_globals = map snd gs\<rparr>, mem'), deps, bump deps st) \<and>
        fst ` set fs \<union> fst ` set ts \<union> fst ` set ms \<union> fst ` set gs \<subseteq> set deps)"

lemma link_body_run:
  assumes c: "countable st" and ex: "exports_live st resolve"
    and reloc: "relocate syms m code mem = Inr mem'"
  shows "body_outcome st mem' (linked_imports show_sig resolve m)
    (link_body syms show_sig m code resolve mem ([], st))"
proof -
  note src = link_sources [OF ex]
  have "body_outcome st mem' (linked_imports show_sig resolve m)
    (link_body syms show_sig m code resolve mem ([], bump [] st))"
    unfolding link_body_def
  proof (rule link_stage [OF c], goal_cases start fsrc ferr f)
    case start show ?case by (simp add: run_ok_def)
  next
    case fsrc show ?case using src(1) by blast
  next
    case (ferr e d) then show ?case by (auto simp: linked_imports_def)
  next
    case (f fs d1)
    note fs = f
    show ?case
    proof (rule link_stage [OF c f(2)], goal_cases tsrc terr t)
      case tsrc show ?case using src(2) by blast
    next
      case (terr e d) then show ?case using fs by (auto simp: linked_imports_def)
    next
      case (t ts d2)
      note ts = t
      show ?case
      proof (rule link_stage [OF c t(2)], goal_cases msrc merr m)
        case msrc show ?case using src(3) by blast
      next
        case (merr e d) then show ?case using fs ts by (auto simp: linked_imports_def)
      next
        case (m ms d3)
        note ms = m
        show ?case
        proof (rule link_stage [OF c m(2)], goal_cases gsrc gerr g)
          case gsrc show ?case using src(4) by blast
        next
          case (gerr e d) then show ?case using fs ts ms by (auto simp: linked_imports_def)
        next
          case (g gs d4)
          have sub: "set d1 \<subseteq> set d2" "set d2 \<subseteq> set d3" "set d3 \<subseteq> set d4"
            "fst ` set fs \<subseteq> set d1" "fst ` set ts \<subseteq> set d2" "fst ` set ms \<subseteq> set d3" "fst ` set gs \<subseteq> set d4"
            using fs(3) ts(3) ms(3) g(3) by simp_all
          then have "fst ` set fs \<union> fst ` set ts \<union> fst ` set ms \<union> fst ` set gs \<subseteq> set d4"
            by (meson Un_least subset_trans)
          then show ?case
            using g fs ts ms reloc by (simp add: linked_imports_def link_bind_def link_lift_def)
        qed
      qed
    qed
  qed
  then show ?thesis by simp
qed

section \<open>What relocation writes\<close>

definition reloc_list :: "compiled_code \<Rightarrow> (nat \<times> relocation) list" where
  "reloc_list code = concat (map (\<lambda>(i, rs). map (Pair i) rs) (enumerate 0 (relocations code)))"

definition reloc_address :: "compiled_code \<Rightarrow> nat \<times> relocation \<Rightarrow> address" where
  "reloc_address code ir = allocated_functions code ! fst ir + ucast (rel_offset (snd ir))"

definition read_u64 :: "code_bytes \<Rightarrow> address \<Rightarrow> u64" where
  "read_u64 mem a = from_le (map (\<lambda>k. mem (a + of_nat k)) [0..<8])"

lemma fold_res_append: "fold_res f (xs @ ys) s = bind_res (fold_res f xs s) (fold_res f ys)"
  by (induction xs arbitrary: s) (auto simp: bind_res_def split: sum.splits)

lemma relocate_flat:
  "relocate syms m code = fold_res (\<lambda>(i, r). relocate_one syms m code i r) (reloc_list code)"
proof -
  have one: "fold_res (\<lambda>(i, r). relocate_one syms m code i r) (map (Pair i) rs) mem =
      fold_res (relocate_one syms m code i) rs mem" for i rs mem
    by (induction rs arbitrary: mem) (auto simp: bind_res_def split: sum.splits)
  have "fold_res (\<lambda>(i, rs). fold_res (relocate_one syms m code i) rs) irs mem =
      fold_res (\<lambda>(i, r). relocate_one syms m code i r) (concat (map (\<lambda>(i, rs). map (Pair i) rs) irs)) mem"
    for irs mem
    by (induction irs arbitrary: mem) (auto simp: fold_res_append one bind_res_def split: sum.splits)
  then show ?thesis by (auto simp: relocate_def reloc_list_def fun_eq_iff)
qed

lemma read_write_unaligned: "read_u64 (write_unaligned a v mem) a = v"
proof -
  have "map (\<lambda>k. write_unaligned a v mem (a + of_nat k)) [0..<8] = to_le 8 v"
  proof (rule nth_equalityI)
    fix k assume "k < length (map (\<lambda>k. write_unaligned a v mem (a + of_nat k)) [0..<8])"
    then have k: "k < 8" by simp
    then have "unat (of_nat k :: address) = k" by (intro unat_of_nat_u64) simp
    with k show "map (\<lambda>k. write_unaligned a v mem (a + of_nat k)) [0..<8] ! k = to_le 8 v ! k"
      by (simp add: write_unaligned_def)
  qed simp
  then show ?thesis by (simp add: read_u64_def from_to_le)
qed

lemma read_write_unaligned_apart:
  assumes "apart a 8 b 8"
  shows "read_u64 (write_unaligned a v mem) b = read_u64 mem b"
proof -
  have "write_unaligned a v mem (b + of_nat k) = mem (b + of_nat k)" if "k < 8" for k
  proof -
    have "unat (of_nat k :: address) = k" using that by (intro unat_of_nat_u64) simp
    then have "unat (b + of_nat k - b) < 8" using that by simp
    then have "\<not> unat (b + of_nat k - a) < 8" using assms unfolding apart_def by blast
    then show ?thesis by (simp add: write_unaligned_def)
  qed
  then show ?thesis unfolding read_u64_def by (intro arg_cong [of _ _ from_le]) simp
qed

lemma relocate_one_Inr:
  assumes "relocate_one syms m code i r mem = Inr mem'"
  shows "(rel_reloc r = X86PCRelRodata4 \<and> mem' = mem) \<or>
    (rel_reloc r = Abs8 \<and> (\<exists>target v. target_func_address syms m code (rel_target r) = Inr target \<and>
       unat v = unat target + unat (rel_addend r) \<and>
       mem' = write_unaligned (reloc_address code (i, r)) v mem))"
  using assms
  by (auto simp: relocate_one_def Let_def reloc_address_def checked_simps split: reloc.splits) blast+

definition written :: "runtime_symbols \<Rightarrow> wasm_module \<Rightarrow> compiled_code \<Rightarrow> code_bytes \<Rightarrow> nat \<times> relocation \<Rightarrow> bool" where
  "written syms m code mem ir \<longleftrightarrow>
     (\<exists>target. target_func_address syms m code (rel_target (snd ir)) = Inr target \<and>
        unat (read_u64 mem (reloc_address code ir)) = unat target + unat (rel_addend (snd ir)))"

abbreviation is_abs8 :: "nat \<times> relocation \<Rightarrow> bool" where
  "is_abs8 ir \<equiv> rel_reloc (snd ir) = Abs8"

lemma relocations_written:
  assumes "fold_res (\<lambda>(i, r). relocate_one syms m code i r) irs mem = Inr mem'"
    and "sorted_wrt (\<lambda>x y. is_abs8 x \<and> is_abs8 y \<longrightarrow> apart (reloc_address code x) 8 (reloc_address code y) 8) irs"
  shows "(\<forall>ir \<in> set irs. is_abs8 ir \<longrightarrow> written syms m code mem' ir) \<and>
    (\<forall>x. (\<forall>ir \<in> set irs. is_abs8 ir \<longrightarrow> \<not> unat (x - reloc_address code ir) < 8) \<longrightarrow> mem' x = mem x) \<and>
    (\<forall>b. (\<forall>ir \<in> set irs. is_abs8 ir \<longrightarrow> apart (reloc_address code ir) 8 b 8) \<longrightarrow> read_u64 mem' b = read_u64 mem b)"
  using assms
proof (induction irs arbitrary: mem)
  case Nil
  then show ?case by simp
next
  case (Cons ir irs)
  obtain i r where ir: "ir = (i, r)" by force
  obtain mem1 where m1: "relocate_one syms m code i r mem = Inr mem1"
    "fold_res (\<lambda>(i, r). relocate_one syms m code i r) irs mem1 = Inr mem'"
    using Cons.prems(1) ir by auto
  have IH: "\<forall>ir \<in> set irs. is_abs8 ir \<longrightarrow> written syms m code mem' ir"
    "\<And>x. (\<forall>ir \<in> set irs. is_abs8 ir \<longrightarrow> \<not> unat (x - reloc_address code ir) < 8) \<Longrightarrow> mem' x = mem1 x"
    "\<And>b. (\<forall>ir \<in> set irs. is_abs8 ir \<longrightarrow> apart (reloc_address code ir) 8 b 8) \<Longrightarrow> read_u64 mem' b = read_u64 mem1 b"
    using Cons.IH [OF m1(2)] Cons.prems(2) by simp_all
  show ?case
  proof (cases "rel_reloc r = Abs8")
    case False
    then have "mem1 = mem" using relocate_one_Inr [OF m1(1)] by auto
    then show ?thesis using IH False ir by auto
  next
    case True
    then obtain target v where w: "target_func_address syms m code (rel_target r) = Inr target"
      "unat v = unat target + unat (rel_addend r)" "mem1 = write_unaligned (reloc_address code ir) v mem"
      using relocate_one_Inr [OF m1(1)] ir by auto
    have "\<forall>ir' \<in> set irs. is_abs8 ir' \<longrightarrow> apart (reloc_address code ir') 8 (reloc_address code ir) 8"
      using Cons.prems(2) True ir by (auto intro: apart_sym)
    then have "read_u64 mem' (reloc_address code ir) = v"
      using IH(3) w(3) read_write_unaligned by metis
    then have "written syms m code mem' ir" using w(1,2) by (simp add: written_def ir)
    moreover have "mem' x = mem x" if "\<forall>ir' \<in> set (ir # irs). is_abs8 ir' \<longrightarrow> \<not> unat (x - reloc_address code ir') < 8" for x
      using that IH(2) [of x] True ir w(3) by (simp add: write_unaligned_def)
    moreover have "read_u64 mem' b = read_u64 mem b"
      if "\<forall>ir' \<in> set (ir # irs). is_abs8 ir' \<longrightarrow> apart (reloc_address code ir') 8 b 8" for b
      using that IH(3) [of b] True ir w(3) read_write_unaligned_apart by simp
    ultimately show ?thesis using IH(1) by auto
  qed
qed

section \<open>When linking succeeds\<close>

text \<open>The matching of imports that the WebAssembly specification asks for, over what the module
  declares: limits match when the export has at least the minimum and at most the maximum.\<close>

fun limits_match :: "u32 \<times> u32 option \<Rightarrow> u32 \<times> u32 option \<Rightarrow> bool" where
  "limits_match (n1, m1) (n2, None) \<longleftrightarrow> unat n2 \<le> unat n1"
| "limits_match (n1, None) (n2, Some m2) \<longleftrightarrow> False"
| "limits_match (n1, Some m1) (n2, Some m2) \<longleftrightarrow> unat n2 \<le> unat n1 \<and> unat m1 \<le> unat m2"

definition function_matches :: "wasm_module \<Rightarrow> nat \<Rightarrow> export_value option \<Rightarrow> bool" where
  "function_matches m i export \<longleftrightarrow>
     (\<exists>p v. export = Some (EFunction p v (signatures m ! (func_sigs m ! i))))"

definition table_matches :: "wasm_module \<Rightarrow> nat \<Rightarrow> export_value option \<Rightarrow> bool" where
  "table_matches m i export \<longleftrightarrow>
     (\<exists>p v t. export = Some (ETable p v t) \<and>
        (let e = tp_table t; d = tp_table (table_plans m ! i) in
         tbl_ty e = tbl_ty d \<and>
         limits_match (tbl_minimum e, tbl_maximum e) (tbl_minimum d, tbl_maximum d)))"

definition memory_matches :: "wasm_module \<Rightarrow> nat \<Rightarrow> export_value option \<Rightarrow> bool" where
  "memory_matches m i export \<longleftrightarrow>
     (\<exists>p v t. export = Some (EMemory p v t) \<and>
        (let e = mp_memory t; d = mp_memory (memory_plans m ! i) in
         mem_shared e = mem_shared d \<and>
         limits_match (mem_minimum e, mem_maximum e) (mem_minimum d, mem_maximum d)))"

definition global_matches :: "wasm_module \<Rightarrow> nat \<Rightarrow> export_value option \<Rightarrow> bool" where
  "global_matches m i export \<longleftrightarrow>
     (\<exists>p v g. export = Some (EGlobal p v g) \<and>
        glb_ty g = glb_ty (globals m ! i) \<and> glb_mutability g = glb_mutability (globals m ! i))"

definition all_match ::
  "(nat \<Rightarrow> export_value option \<Rightarrow> bool) \<Rightarrow> resolver \<Rightarrow> import_name list \<Rightarrow> bool" where
  "all_match matches resolve names \<longleftrightarrow>
     (\<forall>i < length names. matches i (resolve (fst (names ! i)) (snd (names ! i))))"

definition imports_match :: "resolver \<Rightarrow> wasm_module \<Rightarrow> bool" where
  "imports_match resolve m \<longleftrightarrow>
     all_match (function_matches m) resolve (imported_funcs m) \<and>
     all_match (table_matches m) resolve (imported_tables m) \<and>
     all_match (memory_matches m) resolve (imported_memories m) \<and>
     all_match (global_matches m) resolve (imported_globals m)"

lemma limits_match_iff:
  "limits_match (n1, m1) (n2, m2) \<longleftrightarrow> n2 \<le> n1 \<and> maximum_compatible m1 m2"
  by (cases m1; cases m2) (auto simp: maximum_compatible_def word_le_nat_alt)

lemma table_element_compatible_iff:
  "is_table_element_type_compatible a b \<longleftrightarrow> a = b"
  by (auto simp: is_table_element_type_compatible_def split: table_element_type.splits)

text \<open>Plans that the same host makes: a memory that is compatible with an import has the guard
  that the importing code relies on.\<close>

definition host_plan :: "bool \<Rightarrow> memory_plan \<Rightarrow> bool" where
  "host_plan windows plan \<longleftrightarrow> memory_plan_for_memory (mp_memory plan) (target_tunables windows) = Some plan"

lemma host_plan_cases:
  assumes "host_plan windows plan"
  shows "(case mem_maximum (mp_memory plan) of Some mx \<Rightarrow> mx \<le> static_memory_bound (target_tunables windows) | None \<Rightarrow> False) \<and>
      mp_style plan = Static (static_memory_bound (target_tunables windows)) \<and>
      mp_offset_guard_size plan = static_memory_offset_guard_size (target_tunables windows) \<or>
    \<not> (case mem_maximum (mp_memory plan) of Some mx \<Rightarrow> mx \<le> static_memory_bound (target_tunables windows) | None \<Rightarrow> False) \<and>
      mp_style plan = Dynamic \<and>
      mp_offset_guard_size plan = dynamic_memory_offset_guard_size (target_tunables windows)"
  using assms
  by (cases plan)
    (auto simp: host_plan_def memory_plan_for_memory_def memory_style_for_memory_def bind_eq_Some_conv
      split: option.splits if_splits)

lemma guard_order: "dynamic_memory_offset_guard_size (target_tunables windows) \<le> static_memory_offset_guard_size (target_tunables windows)"
  by (simp add: target_tunables_def default_tunables_def Let_def min_def)

lemma sanity_check_ok:
  assumes "host_plan windows exported" "host_plan windows imported" "is_memory_compatible exported imported"
  shows "memory_sanity_check exported imported = Inr ()"
  using host_plan_cases [OF assms(1)] host_plan_cases [OF assms(2)] assms(3) guard_order [of windows]
  by (auto simp: memory_sanity_check_def is_memory_compatible_def maximum_compatible_def split: option.splits)

text \<open>The answers for one import.\<close>

definition answers :: "bool \<Rightarrow> 'a res \<Rightarrow> bool" where
  "answers ok r \<longleftrightarrow> (if ok then \<exists>x. r = Inr x else \<exists>msg. r = Inl (Err msg))"

lemma link_function_answers:
  assumes "i < length (func_sigs m)" "func_sigs m ! i < length (signatures m)"
  shows "answers (function_matches m i (resolve (fst name) (snd name))) (link_function show_sig resolve m i name)"
  using assms
  by (auto simp: answers_def function_matches_def link_function_def link_error_def index_res_def
      split: option.splits export_value.splits)

lemma link_table_answers:
  assumes "i < length (table_plans m)"
  shows "answers (table_matches m i (resolve (fst name) (snd name))) (link_table resolve m i name)"
  using assms
  by (auto simp: answers_def table_matches_def link_table_def link_error_def index_res_def Let_def
      is_table_compatible_def table_element_compatible_iff limits_match_iff
      split: option.splits export_value.splits)

lemma link_memory_answers:
  assumes "i < length (memory_plans m)" "host_plan windows (memory_plans m ! i)"
    and "\<And>p v t. resolve (fst name) (snd name) = Some (EMemory p v t) \<Longrightarrow> host_plan windows t"
  shows "answers (memory_matches m i (resolve (fst name) (snd name))) (link_memory resolve m i name)"
  using assms(1) sanity_check_ok [OF assms(3) assms(2)]
  by (auto simp: answers_def memory_matches_def link_memory_def link_error_def index_res_def Let_def
      is_memory_compatible_def limits_match_iff split: option.splits export_value.splits)

lemma link_global_answers:
  assumes "i < length (globals m)" "glb_initializer (globals m ! i) = Import"
  shows "answers (global_matches m i (resolve (fst name) (snd name))) (link_global resolve m i name)"
  using assms
  by (auto simp: answers_def global_matches_def link_global_def link_error_def index_res_def
      is_global_compatible_def split: option.splits export_value.splits)

lemma resolved_all_answers:
  assumes "\<And>i. i < length names \<Longrightarrow> answers (P i (names ! i)) (link (index + i) (names ! i))"
  shows "answers (\<forall>i < length names. P i (names ! i)) (resolved_all link index names)"
  using assms
proof (induction names arbitrary: index P)
  case Nil
  then show ?case by (simp add: answers_def)
next
  case (Cons name names)
  have hd: "answers (P 0 name) (link index name)" using Cons.prems [of 0] by simp
  have tl: "answers (\<forall>i < length names. P (Suc i) (names ! i)) (resolved_all link (Suc index) names)"
    using Cons.prems [of "Suc _"] by (intro Cons.IH) simp
  show ?case
    using hd tl by (auto simp: answers_def All_less_Suc2 split: if_splits)
qed

lemma resolved_all_Inr:
  assumes "resolved_all link index names = Inr ps"
  shows "length ps = length names \<and> (\<forall>p \<in> set ps. \<exists>i name. link i name = Inr p)"
  using assms
  by (induction names arbitrary: index ps) (auto, metis)

definition module_linkable :: "bool \<Rightarrow> wasm_module \<Rightarrow> bool" where
  "module_linkable windows m \<longleftrightarrow>
     length (imported_funcs m) \<le> length (func_sigs m) \<and>
     (\<forall>s \<in> set (func_sigs m). s < length (signatures m)) \<and>
     length (imported_tables m) \<le> length (table_plans m) \<and>
     length (imported_memories m) \<le> length (memory_plans m) \<and>
     (\<forall>plan \<in> set (memory_plans m). host_plan windows plan) \<and>
     length (imported_globals m) \<le> length (globals m) \<and>
     (\<forall>i < length (imported_globals m). glb_initializer (globals m ! i) = Import)"

definition exports_planned :: "bool \<Rightarrow> resolver \<Rightarrow> bool" where
  "exports_planned windows resolve \<longleftrightarrow>
     (\<forall>mname field p v t. resolve mname field = Some (EMemory p v t) \<longrightarrow> host_plan windows t)"

lemma linked_imports_answers:
  assumes m: "module_linkable windows m" and ex: "exports_planned windows resolve"
  shows "answers (imports_match resolve m) (linked_imports show_sig resolve m)"
proof -
  have f: "answers (all_match (function_matches m) resolve (imported_funcs m))
      (resolved_all (link_function show_sig resolve m) 0 (imported_funcs m))"
    unfolding all_match_def
    by (rule resolved_all_answers) (use m in \<open>simp add: module_linkable_def link_function_answers\<close>)
  have t: "answers (all_match (table_matches m) resolve (imported_tables m))
      (resolved_all (link_table resolve m) 0 (imported_tables m))"
    unfolding all_match_def
    by (rule resolved_all_answers) (use m in \<open>simp add: module_linkable_def link_table_answers\<close>)
  have mm: "answers (all_match (memory_matches m) resolve (imported_memories m))
      (resolved_all (link_memory resolve m) 0 (imported_memories m))"
    unfolding all_match_def
  proof (rule resolved_all_answers)
    fix i assume "i < length (imported_memories m)"
    then have "i < length (memory_plans m)" "host_plan windows (memory_plans m ! i)"
      using m by (simp_all add: module_linkable_def)
    then show "answers (memory_matches m i (resolve (fst (imported_memories m ! i)) (snd (imported_memories m ! i))))
        (link_memory resolve m (0 + i) (imported_memories m ! i))"
      using link_memory_answers [of i m windows] ex unfolding exports_planned_def by simp
  qed
  have g: "answers (all_match (global_matches m) resolve (imported_globals m))
      (resolved_all (link_global resolve m) 0 (imported_globals m))"
    unfolding all_match_def
    by (rule resolved_all_answers) (use m in \<open>simp add: module_linkable_def link_global_answers\<close>)
  show ?thesis
    using f t mm g
    by (auto simp: answers_def imports_match_def linked_imports_def split: if_splits)
qed

lemma linked_imports_ok:
  assumes "linked_imports show_sig resolve m = Inr (fs, ts, ms, gs)" and ex: "exports_live st resolve"
  shows "imports_ok (bump deps st) m
      \<lparr>imp_dependencies = deps, imp_functions = map snd fs, imp_tables = map snd ts,
       imp_memories = map snd ms, imp_globals = map snd gs\<rparr>"
    and "\<forall>imp \<in> set (map snd fs). fi_vmctx imp \<in> fst ` set fs"
    and "\<forall>imp \<in> set (map snd ts). ti_vmctx imp \<in> fst ` set ts"
    and "\<forall>imp \<in> set (map snd ms). mi_vmctx imp \<in> fst ` set ms"
proof -
  have r: "resolved_all (link_function show_sig resolve m) 0 (imported_funcs m) = Inr fs"
    "resolved_all (link_table resolve m) 0 (imported_tables m) = Inr ts"
    "resolved_all (link_memory resolve m) 0 (imported_memories m) = Inr ms"
    "resolved_all (link_global resolve m) 0 (imported_globals m) = Inr gs"
    using assms(1) by (auto simp: linked_imports_def)
  note R = resolved_all_Inr [OF r(1)] resolved_all_Inr [OF r(2)] resolved_all_Inr [OF r(3)]
    resolved_all_Inr [OF r(4)]
  have good: "resolve x y = Some e \<Longrightarrow> export_good st e" for x y e using ex by (simp add: exports_live_def)
  have f: "fi_vmctx imp = v" if "(v, imp) \<in> set fs" for v imp
    using R(1) that by (fastforce dest: link_function_from)
  have t: "ti_vmctx imp = v" "points_to_table st v (ti_from imp)" if "(v, imp) \<in> set ts" for v imp
    using R(2) that by (fastforce dest: link_table_from good)+
  have mm: "mi_vmctx imp = v" "points_to_memory st v (mi_from imp)" if "(v, imp) \<in> set ms" for v imp
    using R(3) that by (fastforce dest: link_memory_from good)+
  have g: "points_to_global st (gi_from imp)" if "(v, imp) \<in> set gs" for v imp
    using R(4) that by (fastforce dest: link_global_from good)
  show "imports_ok (bump deps st) m
      \<lparr>imp_dependencies = deps, imp_functions = map snd fs, imp_tables = map snd ts,
       imp_memories = map snd ms, imp_globals = map snd gs\<rparr>"
    using R t mm g by (auto simp: imports_ok_def bump_points_to)
  show "\<forall>imp \<in> set (map snd fs). fi_vmctx imp \<in> fst ` set fs"
    "\<forall>imp \<in> set (map snd ts). ti_vmctx imp \<in> fst ` set ts"
    "\<forall>imp \<in> set (map snd ms). mi_vmctx imp \<in> fst ` set ms"
    using f t(1) mm(1) by force+
qed

text \<open>C25. Linking a module against a store, with exports that belong to the store and memory plans
  made for the same host. If every import matches an export as the WebAssembly specification asks,
  linking succeeds: the pointers it returns are what \<^verbatim>\<open>InstanceHandle::new\<close> needs, the set of
  dependencies has one handle, counted, for the instance of every imported function, table and
  memory, and the store keeps its invariant. If some import does not match, linking returns a link
  error and the store is as it was, counts included. No assertion of the linker fires.\<close>

theorem link_module_outcome:
  assumes inv: "store_inv st" and rc: "rc_inv st handles" and c: "countable st"
    and ex: "exports_live st resolve" "exports_planned windows resolve"
    and m: "module_linkable windows m" and reloc: "relocate syms m code mem = Inr mem'"
  shows "if imports_match resolve m
    then \<exists>imps st'. link_module syms show_sig m code resolve mem st = Some (Inr (imps, mem'), st') \<and>
      store_inv st' \<and> rc_inv st' (handles + mset (imp_dependencies imps)) \<and> imports_ok st' m imps \<and>
      fi_vmctx ` set (imp_functions imps) \<union> ti_vmctx ` set (imp_tables imps) \<union>
        mi_vmctx ` set (imp_memories imps) \<subseteq> set (imp_dependencies imps)
    else \<exists>msg. link_module syms show_sig m code resolve mem st = Some (Inl (Err msg), st)"
proof (cases "imports_match resolve m")
  case True
  obtain fs ts ms gs where r: "linked_imports show_sig resolve m = Inr (fs, ts, ms, gs)"
    using linked_imports_answers [OF m ex(2), of show_sig] True by (auto simp: answers_def)
  obtain deps where d: "run_ok st [] deps" "link_body syms show_sig m code resolve mem ([], st) =
      Some (Inr (\<lparr>imp_dependencies = [], imp_functions = map snd fs, imp_tables = map snd ts,
                  imp_memories = map snd ms, imp_globals = map snd gs\<rparr>, mem'), deps, bump deps st)"
    "fst ` set fs \<union> fst ` set ts \<union> fst ` set ms \<union> fst ` set gs \<subseteq> set deps"
    using link_body_run [OF c ex(1) reloc, of show_sig] r by auto
  note L = linked_imports_ok [OF r ex(1)]
  have "distinct deps" "set deps \<subseteq> dom (st_instances st)" using d(1) by (auto simp: run_ok_def)
  then have "rc_inv (bump deps st) (handles + mset deps)" by (rule bump_rc_inv [OF rc c])
  moreover have "fi_vmctx ` set (map snd fs) \<union> ti_vmctx ` set (map snd ts) \<union> mi_vmctx ` set (map snd ms) \<subseteq> set deps"
    using L(2-4) d(3) by blast
  ultimately show ?thesis
    using True d(2) L(1) [of deps] bump_store_inv [OF inv] by (simp add: link_module_def)
next
  case False
  obtain msg where r: "linked_imports show_sig resolve m = Inl (Err msg)"
    using linked_imports_answers [OF m ex(2), of show_sig] False by (auto simp: answers_def)
  obtain deps where d: "run_ok st [] deps" "link_body syms show_sig m code resolve mem ([], st) =
      Some (Inl (Err msg), deps, bump deps st)"
    using link_body_run [OF c ex(1) reloc, of show_sig] r by auto
  have "distinct deps" "set deps \<subseteq> dom (st_instances st)" using d(1) by (auto simp: run_ok_def)
  from drop_dependencies [OF c this] show ?thesis using False d(2) by (simp add: link_module_def)
qed

text \<open>A store with the instance of the example, and a module that imports its memory.\<close>

definition example_resolver :: "address \<Rightarrow> resolver" where
  "example_resolver p = (\<lambda>mname field. if mname = ''env'' then Some (EMemory p 0x100100 (hd (memory_plans example_module))) else None)"

definition no_code :: compiled_code where
  "no_code = \<lparr>allocated_functions = [], jt_offsets = [], relocations = []\<rparr>"

definition example_symbols :: runtime_symbols where
  "example_symbols = \<lparr>sym_memory32_grow = 0x1000, sym_memory32_size = 0x1100, sym_imported_memory32_grow = 0x1200,
     sym_imported_memory32_size = 0x1300, sym_libcall = (\<lambda>_. 0x1400)\<rparr>"

lemma example_counted:
  obtains st p where "store_inv st" "rc_inv st {#0x100100#}" "countable st" "points_to_memory st 0x100100 p"
    "0x100100 \<in> dom (st_instances st)"
proof -
  obtain st inst where st: "instance_allocate example_env example_module [] imports_none [] empty_store = Inr (0x100100, st)"
    "store_inv st" "st_instances st = [0x100100 \<mapsto> inst]" "in_module inst = example_module"
    "length (in_memories inst) = 1"
    by (rule example_store)
  have at: "st_instances st 0x100100 = Some inst" using st(3) by simp
  obtain h i where i: "in_refcount i = 1" "in_dependencies i = []"
    "st = empty_store\<lparr>st_heap := h, st_instances := (st_instances empty_store)(0x100100 \<mapsto> i)\<rparr>"
    by (rule allocateD [OF st(1)]) (rule that; simp add: imports_none_def)
  then have inst: "in_refcount inst = 1" "in_dependencies inst = []" using at by simp_all
  have ref: "referrers st x = {}" for x using st(3) inst by (auto simp: referrers_def)
  have "rc_inv st {#0x100100#}" "countable st"
    using st(3) inst by (auto simp: rc_inv_def countable_def ref depends_def acyclic_def split: if_splits)
  moreover obtain p where "memory_mut 0x100100 (in_offsets inst) 0 = Inr p"
    using own_memory_pointer [OF st(2) at, of 0] st(5) by auto
  then have "points_to_memory st 0x100100 p"
    using at st(5) unfolding points_to_memory_def by (intro exI [of _ inst] exI [of _ 0]) simp
  ultimately show ?thesis using that st(2) at by blast
qed

theorem link_module_outcome_witness:
  "\<exists>st p imps st'. link_module example_symbols (\<lambda>_. ''sig'') importing_module no_code (example_resolver p) (\<lambda>_. 0) st =
     Some (Inr (imps, \<lambda>_. 0), st') \<and> imports_ok st' importing_module imps \<and> 0x100100 \<in> dom (st_instances st)"
proof -
  obtain st p where st: "store_inv st" "rc_inv st {#0x100100#}" "countable st" "points_to_memory st 0x100100 p"
    "0x100100 \<in> dom (st_instances st)"
    by (rule example_counted)
  have plan: "host_plan False (hd (memory_plans example_module))"
    by (simp add: host_plan_def example_module_def memory_plan_for_memory_def
        memory_style_for_memory_def target_tunables_def default_tunables_def)
  have "exports_live st (example_resolver p)"
    using st(4,5) by (auto simp: exports_live_def example_resolver_def)
  moreover have "exports_planned False (example_resolver p)"
    using plan by (auto simp: exports_planned_def example_resolver_def)
  moreover have "module_linkable False importing_module"
    using plan by (simp add: module_linkable_def importing_module_def module_new_def example_module_def)
  moreover have "relocate example_symbols importing_module no_code (\<lambda>_. 0) = Inr (\<lambda>_. 0)"
    by (simp add: relocate_def no_code_def)
  moreover have "imports_match (example_resolver p) importing_module"
    by (simp add: imports_match_def all_match_def importing_module_def module_new_def example_module_def
        memory_matches_def example_resolver_def Let_def)
  ultimately have "\<exists>imps st'. link_module example_symbols (\<lambda>_. ''sig'') importing_module no_code (example_resolver p) (\<lambda>_. 0) st =
      Some (Inr (imps, \<lambda>_. 0), st') \<and> imports_ok st' importing_module imps"
    using link_module_outcome [OF st(1-3), of "example_resolver p" False importing_module example_symbols no_code
        "\<lambda>_. 0" "\<lambda>_. 0" "\<lambda>_. ''sig''"]
    by (simp only: if_True simp_thms) blast
  then show ?thesis using st(5) by blast
qed

text \<open>C26. Relocation. When the 8-byte places to patch do not overlap and relocation does not panic,
  each place ends up holding, in little-endian order, the address of its target plus the addend, and
  no other byte of the code changes.\<close>

theorem relocate_patches_exactly:
  assumes "relocate syms m code mem = Inr mem'"
    and "sorted_wrt (\<lambda>x y. is_abs8 x \<and> is_abs8 y \<longrightarrow>
      apart (reloc_address code x) 8 (reloc_address code y) 8) (reloc_list code)"
  shows "(\<forall>ir \<in> set (reloc_list code). is_abs8 ir \<longrightarrow> written syms m code mem' ir) \<and>
    (\<forall>x. (\<forall>ir \<in> set (reloc_list code). is_abs8 ir \<longrightarrow> \<not> unat (x - reloc_address code ir) < 8) \<longrightarrow>
      mem' x = mem x)"
  using relocations_written [OF assms(1) [unfolded relocate_flat] assms(2)] by blast

definition patched_code :: compiled_code where
  "patched_code = \<lparr>allocated_functions = [0x5000, 0x6000], jt_offsets = [],
     relocations = [[\<lparr>rel_reloc = Abs8, rel_target = UserFunc 1, rel_offset = 2, rel_addend = 0\<rparr>],
                    [\<lparr>rel_reloc = Abs8, rel_target = Memory32Grow, rel_offset = 0x10, rel_addend = 8\<rparr>]]\<rparr>"

theorem relocate_patches_exactly_witness:
  "\<exists>mem'. relocate example_symbols module_new patched_code (\<lambda>_. 0) = Inr mem' \<and>
     read_u64 mem' 0x5002 = 0x6000 \<and> read_u64 mem' 0x6010 = 0x1008"
proof -
  have l: "reloc_list patched_code =
      [(0, \<lparr>rel_reloc = Abs8, rel_target = UserFunc 1, rel_offset = 2, rel_addend = 0\<rparr>),
       (1, \<lparr>rel_reloc = Abs8, rel_target = Memory32Grow, rel_offset = 0x10, rel_addend = 8\<rparr>)]"
    by (simp add: reloc_list_def patched_code_def)
  obtain mem' where r: "relocate example_symbols module_new patched_code (\<lambda>_. 0) = Inr mem'"
    by (simp add: relocate_def patched_code_def relocate_one_def target_func_address_def defined_func_index_def
        module_new_def index_res_def example_symbols_def unwrap_res_def checked_add_def Let_def)
  have "apart (0 + ucast (0x5002 :: u32)) 8 (0 + ucast (0x6010 :: u32)) 8" by (rule apart_offsets) simp_all
  then have "sorted_wrt (\<lambda>x y. is_abs8 x \<and> is_abs8 y \<longrightarrow>
      apart (reloc_address patched_code x) 8 (reloc_address patched_code y) 8) (reloc_list patched_code)"
    by (simp add: l) (simp add: reloc_address_def patched_code_def)
  from relocate_patches_exactly [OF r this]
  have "written example_symbols module_new patched_code mem'
      (0, \<lparr>rel_reloc = Abs8, rel_target = UserFunc 1, rel_offset = 2, rel_addend = 0\<rparr>)"
    "written example_symbols module_new patched_code mem'
      (1, \<lparr>rel_reloc = Abs8, rel_target = Memory32Grow, rel_offset = 0x10, rel_addend = 8\<rparr>)"
    by (simp_all add: l)
  then have "unat (read_u64 mem' 0x5002) = unat (0x6000 :: u64)" "unat (read_u64 mem' 0x6010) = unat (0x1008 :: u64)"
    by (simp_all add: written_def target_func_address_def defined_func_index_def module_new_def index_res_def
        patched_code_def example_symbols_def reloc_address_def)
  then show ?thesis using r by (simp only: word_unat_eq_iff [symmetric]) blast
qed

text \<open>A negative addend: the addend is signed, but it is added with a checked addition of
  unsigned numbers. A target at or above the magnitude of a negative addend makes that addition
  overflow, so relocation panics although the address meant is representable.\<close>

theorem negative_addend_panics:
  assumes "rel_reloc r = Abs8" "sint (rel_addend r) < 0" "i < length (allocated_functions code)"
    and "target_func_address syms m code (rel_target r) = Inr target"
    and "0 \<le> int (unat target) + sint (rel_addend r)"
  shows "relocate_one syms m code i r mem = Inl (Panic ''checked_add'')"
proof -
  have "int (unat (rel_addend r)) = sint (rel_addend r) + 2 ^ 64"
    using assms(2) sint_ge [of "rel_addend r"] uint_sint [of "rel_addend r"]
      mod_pos_pos_trivial [of "sint (rel_addend r) + 2 ^ 64" "2 ^ 64"]
    by (simp add: take_bit_eq_mod flip: uint_nat)
  then have "int (2 ^ 64) \<le> int (unat target + unat (rel_addend r))" using assms(5) by simp
  then have "2 ^ 64 \<le> unat target + unat (rel_addend r)" by (simp only: of_nat_le_iff)
  then show ?thesis
    using assms by (simp add: relocate_one_def Let_def index_res_def unwrap_res_def checked_add_def)
qed

theorem negative_addend_panics_witness:
  "relocate_one example_symbols module_new patched_code 0
     \<lparr>rel_reloc = Abs8, rel_target = Memory32Grow, rel_offset = 0, rel_addend = - 4\<rparr> (\<lambda>_. 0) =
   Inl (Panic ''checked_add'')"
  by (rule negative_addend_panics [where target = "0x1000"])
    (simp_all add: patched_code_def target_func_address_def example_symbols_def)

end
