(* ===== verification/Func_Env.thy ===== *)
theory Func_Env
  imports Initialization
begin

text \<open>
  The environment in which Cranelift translates a function body (\<^verbatim>\<open>wasmtime-environ/src/func_environ.rs\<close>): how compiled code
  reaches memories, tables, globals and functions through the context it is called with.

  The function under construction is a record of what the code asks Cranelift to create: global values, signatures,
  heaps, tables, external functions and instructions, each named by its position. An offset that the code converts to \<^verbatim>\<open>i32\<close> and
  unwraps panics from \<open>2^31\<close> on. The types of Cranelift are codes that the target configuration knows.
\<close>

section \<open>The function under construction\<close>

record target_config =
  tc_pointer_bytes :: u8
  tc_pointer_type :: ir_type
  tc_default_call_conv :: nat
  tc_int :: "nat \<Rightarrow> ir_type"
  tc_bytes :: "ir_type \<Rightarrow> nat"

datatype gv_data =
    GvVMContext
  | GvLoad (gv_base: nat) (gv_offset: u32) (gv_type: ir_type) (gv_readonly: bool)

datatype heap_style = HeapDynamic nat | HeapStatic u64

record heap_data =
  hd_base :: nat
  hd_min_size :: u64
  hd_offset_guard_size :: u64
  hd_style :: heap_style
  hd_index_type :: ir_type

record table_data =
  td_base_gv :: nat
  td_min_size :: u64
  td_bound_gv :: nat
  td_element_size :: u64
  td_index_type :: ir_type

type_synonym external_name = "u32 \<times> u32"

record ext_func_data =
  ef_name :: external_name
  ef_signature :: nat
  ef_colocated :: bool

record global_variable =
  gvar_gv :: nat
  gvar_offset :: u32
  gvar_ty :: ir_type

text \<open>A value is a parameter of the function or the result of an instruction.\<close>

datatype ir_value = VParam nat | VInst nat

datatype trap_code = IndirectCallToNull | BadSignature

datatype ir_inst =
    IGlobalValue ir_type nat
  | ILoad ir_type ir_value u32
  | ITableAddr ir_type nat ir_value
  | ITrapz ir_value trap_code
  | IIcmpEqual ir_value ir_value
  | IIconst ir_type u64
  | ICall nat "ir_value list"
  | ICallIndirect nat ir_value "ir_value list"

record ir_function =
  fn_gvs :: "gv_data list"
  fn_sigs :: "ir_signature list"
  fn_heaps :: "heap_data list"
  fn_tables :: "table_data list"
  fn_ext_funcs :: "ext_func_data list"
  fn_insts :: "ir_inst list"
  fn_vmctx_param :: "ir_value option"

definition create_global_value :: "gv_data \<Rightarrow> ir_function \<Rightarrow> nat \<times> ir_function" where
  "create_global_value d f = (length (fn_gvs f), f\<lparr>fn_gvs := fn_gvs f @ [d]\<rparr>)"

definition import_signature :: "ir_signature \<Rightarrow> ir_function \<Rightarrow> nat \<times> ir_function" where
  "import_signature sig f = (length (fn_sigs f), f\<lparr>fn_sigs := fn_sigs f @ [sig]\<rparr>)"

definition import_function :: "ext_func_data \<Rightarrow> ir_function \<Rightarrow> nat \<times> ir_function" where
  "import_function d f = (length (fn_ext_funcs f), f\<lparr>fn_ext_funcs := fn_ext_funcs f @ [d]\<rparr>)"

definition create_heap :: "heap_data \<Rightarrow> ir_function \<Rightarrow> nat \<times> ir_function" where
  "create_heap d f = (length (fn_heaps f), f\<lparr>fn_heaps := fn_heaps f @ [d]\<rparr>)"

definition create_table :: "table_data \<Rightarrow> ir_function \<Rightarrow> nat \<times> ir_function" where
  "create_table d f = (length (fn_tables f), f\<lparr>fn_tables := fn_tables f @ [d]\<rparr>)"

definition ins :: "ir_inst \<Rightarrow> ir_function \<Rightarrow> ir_value \<times> ir_function" where
  "ins i f = (VInst (length (fn_insts f)), f\<lparr>fn_insts := fn_insts f @ [i]\<rparr>)"

section \<open>Names and builtin functions\<close>

definition get_func_name :: "nat \<Rightarrow> external_name" where
  "get_func_name index = (0, of_nat index)"

definition get_memory32_grow_name :: external_name where
  "get_memory32_grow_name = (1, 0)"

definition get_imported_memory32_grow_name :: external_name where
  "get_imported_memory32_grow_name = (1, 1)"

definition get_memory32_size_name :: external_name where
  "get_memory32_size_name = (1, 2)"

definition get_imported_memory32_size_name :: external_name where
  "get_imported_memory32_size_name = (1, 3)"

definition get_memory32_grow_index :: u32 where
  "get_memory32_grow_index = 0"

definition get_imported_memory32_grow_index :: u32 where
  "get_imported_memory32_grow_index = 1"

definition get_memory32_size_index :: u32 where
  "get_memory32_size_index = 2"

definition get_imported_memory32_size_index :: u32 where
  "get_imported_memory32_size_index = 3"

lemmas builtin_indices = get_memory32_grow_index_def get_imported_memory32_grow_index_def
  get_memory32_size_index_def get_imported_memory32_size_index_def

text \<open>\<^verbatim>\<open>VMBuiltinFunctionsArray::initialized\<close> of \<^verbatim>\<open>wasmtime-runtime/src/vmcontext.rs\<close>, which fills the slots of the context; an address
  is the name of the library call it belongs to, and zero is \<open>None\<close>.\<close>

datatype libcall = Memory32Grow | ImportedMemory32Grow | Memory32Size | ImportedMemory32Size

definition builtin_functions_initialized :: "libcall option list" where
  "builtin_functions_initialized =
     (replicate (unat builtin_functions_total_number) None)
       [unat get_memory32_grow_index := Some Memory32Grow,
        unat get_imported_memory32_grow_index := Some ImportedMemory32Grow,
        unat get_memory32_size_index := Some Memory32Size,
        unat get_imported_memory32_size_index := Some ImportedMemory32Size]"

section \<open>The environment\<close>

record func_environment =
  fe_target_config :: target_config
  fe_module :: wasm_module
  fe_vmctx :: "nat option"
  fe_memory32_size_sig :: "nat option"
  fe_memory_grow_sig :: "nat option"
  fe_offsets :: vmoffsets

type_synonym 'a building = "('a \<times> func_environment \<times> ir_function) res"

definition func_environment_new :: "target_config \<Rightarrow> wasm_module \<Rightarrow> func_environment res" where
  "func_environment_new tc m =
     bind_res (unwrap_res (vmoffsets_new (tc_pointer_bytes tc) m) ''overflow in cast from usize to u32'') (\<lambda>offs.
     Inr \<lparr>fe_target_config = tc, fe_module = m, fe_vmctx = None, fe_memory32_size_sig = None, fe_memory_grow_sig = None,
          fe_offsets = offs\<rparr>)"

abbreviation fe_pointer_type :: "func_environment \<Rightarrow> ir_type" where
  "fe_pointer_type env \<equiv> tc_pointer_type (fe_target_config env)"

abbreviation fe_I32 :: "func_environment \<Rightarrow> ir_type" where
  "fe_I32 env \<equiv> tc_int (fe_target_config env) 32"

text \<open>\<^verbatim>\<open>i32::try_from(offset).unwrap()\<close> of an offset whose computation may itself panic.\<close>

definition offset_i32 :: "u32 option \<Rightarrow> u32 res" where
  "offset_i32 offset =
     (case offset of
        None \<Rightarrow> Inl (Panic ''offset'')
      | Some x \<Rightarrow> if unat x < 2 ^ 31 then Inr x else Inl (Panic ''unwrap''))"

definition fe_vmctx_gv :: "func_environment \<Rightarrow> ir_function \<Rightarrow> nat \<times> func_environment \<times> ir_function" where
  "fe_vmctx_gv env f =
     (case fe_vmctx env of
        Some g \<Rightarrow> (g, env, f)
      | None \<Rightarrow>
          let (g, f) = create_global_value GvVMContext f
          in (g, env\<lparr>fe_vmctx := Some g\<rparr>, f))"

definition get_memory_grow_sig :: "func_environment \<Rightarrow> ir_function \<Rightarrow> nat \<times> func_environment \<times> ir_function" where
  "get_memory_grow_sig env f =
     (let (sig, f) =
        (case fe_memory_grow_sig env of
           Some sig \<Rightarrow> (sig, f)
         | None \<Rightarrow>
             import_signature
               \<lparr>sig_params = [\<lparr>value_type = fe_pointer_type env, purpose = VMContext\<rparr>,
                  \<lparr>value_type = fe_I32 env, purpose = Normal\<rparr>, \<lparr>value_type = fe_I32 env, purpose = Normal\<rparr>],
                sig_returns = [\<lparr>value_type = fe_I32 env, purpose = Normal\<rparr>],
                call_conv = tc_default_call_conv (fe_target_config env)\<rparr> f)
      in (sig, env\<lparr>fe_memory_grow_sig := Some sig\<rparr>, f))"

definition get_memory_grow_func :: "nat \<Rightarrow> func_environment \<Rightarrow> ir_function \<Rightarrow> (nat \<times> nat \<times> u32) building" where
  "get_memory_grow_func index env f =
     (if is_imported_memory (fe_module env) index
      then let (sig, env, f) = get_memory_grow_sig env f
           in Inr ((sig, index, get_imported_memory32_grow_index), env, f)
      else let (sig, env, f) = get_memory_grow_sig env f
           in bind_res (unwrap_res (defined_memory_index (fe_module env) index) ''unwrap'') (\<lambda>d.
              Inr ((sig, d, get_memory32_grow_index), env, f)))"

definition get_memory32_size_sig :: "func_environment \<Rightarrow> ir_function \<Rightarrow> nat \<times> func_environment \<times> ir_function" where
  "get_memory32_size_sig env f =
     (let (sig, f) =
        (case fe_memory32_size_sig env of
           Some sig \<Rightarrow> (sig, f)
         | None \<Rightarrow>
             import_signature
               \<lparr>sig_params = [\<lparr>value_type = fe_pointer_type env, purpose = VMContext\<rparr>,
                  \<lparr>value_type = fe_I32 env, purpose = Normal\<rparr>],
                sig_returns = [\<lparr>value_type = fe_I32 env, purpose = Normal\<rparr>],
                call_conv = tc_default_call_conv (fe_target_config env)\<rparr> f)
      in (sig, env\<lparr>fe_memory32_size_sig := Some sig\<rparr>, f))"

definition get_memory_size_func :: "nat \<Rightarrow> func_environment \<Rightarrow> ir_function \<Rightarrow> (nat \<times> nat \<times> u32) building" where
  "get_memory_size_func index env f =
     (if is_imported_memory (fe_module env) index
      then let (sig, env, f) = get_memory32_size_sig env f
           in Inr ((sig, index, get_imported_memory32_size_index), env, f)
      else let (sig, env, f) = get_memory32_size_sig env f
           in bind_res (unwrap_res (defined_memory_index (fe_module env) index) ''unwrap'') (\<lambda>d.
              Inr ((sig, d, get_memory32_size_index), env, f)))"

definition translate_load_builtin_function_address ::
  "u32 \<Rightarrow> func_environment \<Rightarrow> ir_function \<Rightarrow> (ir_value \<times> ir_value) building" where
  "translate_load_builtin_function_address callee_func_idx env f =
     (let (vmctx, env, f) = fe_vmctx_gv env f;
          (base, f) = ins (IGlobalValue (fe_pointer_type env) vmctx) f
      in bind_res (offset_i32 (vmctx_builtin_function (fe_offsets env) callee_func_idx)) (\<lambda>body_offset.
         let (func_addr, f) = ins (ILoad (fe_pointer_type env) base body_offset) f
         in Inr ((base, func_addr), env, f)))"

section \<open>Tables, heaps and globals\<close>

definition type_of_vmtable_definition_current_elements :: "func_environment \<Rightarrow> ir_type" where
  "type_of_vmtable_definition_current_elements env =
     tc_int (fe_target_config env) (unat (size_of_vmtable_definition_current_elements (fe_offsets env)) * 8)"

definition type_of_vmmemory_definition_current_length :: "func_environment \<Rightarrow> ir_type" where
  "type_of_vmmemory_definition_current_length env =
     tc_int (fe_target_config env) (unat (size_of_vmmemory_definition_current_length (fe_offsets env)) * 8)"

text \<open>Where the definition of a table or of a memory is: a global value to start from, and the offsets of its two fields.\<close>

definition table_pointer :: "nat \<Rightarrow> nat \<Rightarrow> func_environment \<Rightarrow> ir_function \<Rightarrow> (nat \<times> u32 \<times> u32 \<times> ir_function) res" where
  "table_pointer index vmctx env f =
     (case defined_table_index (fe_module env) index of
        Some def_index \<Rightarrow>
          bind_res (offset_i32 (vmctx_vmtable_definition_base (fe_offsets env) (of_nat def_index))) (\<lambda>base_offset.
          bind_res (offset_i32 (vmctx_vmtable_definition_current_elements (fe_offsets env) (of_nat def_index))) (\<lambda>elements_offset.
          Inr (vmctx, base_offset, elements_offset, f)))
      | None \<Rightarrow>
          bind_res (offset_i32 (vmctx_vmtable_import_from (fe_offsets env) (of_nat index))) (\<lambda>from_offset.
          let (table, f) = create_global_value (GvLoad vmctx from_offset (fe_pointer_type env) True) f
          in Inr (table, ucast (vmtable_definition_base (fe_offsets env)),
               ucast (vmtable_definition_current_elements (fe_offsets env)), f)))"

definition heap_pointer :: "nat \<Rightarrow> nat \<Rightarrow> func_environment \<Rightarrow> ir_function \<Rightarrow> (nat \<times> u32 \<times> u32 \<times> ir_function) res" where
  "heap_pointer index vmctx env f =
     (case defined_memory_index (fe_module env) index of
        Some def_index \<Rightarrow>
          bind_res (offset_i32 (vmctx_vmmemory_definition_base (fe_offsets env) (of_nat def_index))) (\<lambda>base_offset.
          bind_res (offset_i32 (vmctx_vmmemory_definition_current_length (fe_offsets env) (of_nat def_index))) (\<lambda>length_offset.
          Inr (vmctx, base_offset, length_offset, f)))
      | None \<Rightarrow>
          bind_res (offset_i32 (vmctx_vmmemory_import_from (fe_offsets env) (of_nat index))) (\<lambda>from_offset.
          let (memory, f) = create_global_value (GvLoad vmctx from_offset (fe_pointer_type env) True) f
          in Inr (memory, ucast (vmmemory_definition_base (fe_offsets env)),
               ucast (vmmemory_definition_current_length (fe_offsets env)), f)))"

definition make_table :: "nat \<Rightarrow> func_environment \<Rightarrow> ir_function \<Rightarrow> nat building" where
  "make_table index env f =
     (let (vmctx, env, f) = fe_vmctx_gv env f; offs = fe_offsets env
      in bind_res (table_pointer index vmctx env f) (\<lambda>(ptr, base_offset, elements_offset, f).
      let (base_gv, f) = create_global_value (GvLoad ptr base_offset (fe_pointer_type env) False) f;
          (bound_gv, f) = create_global_value
            (GvLoad ptr elements_offset (type_of_vmtable_definition_current_elements env) False) f
      in bind_res (index_res (table_plans (fe_module env)) index) (\<lambda>_.
         Inr (case create_table \<lparr>td_base_gv = base_gv, td_min_size = 0, td_bound_gv = bound_gv,
                td_element_size = ucast (size_of_vmcaller_checked_anyfunc offs), td_index_type = fe_I32 env\<rparr> f of
                (table, f) \<Rightarrow> (table, env, f)))))"

definition make_heap :: "nat \<Rightarrow> func_environment \<Rightarrow> ir_function \<Rightarrow> nat building" where
  "make_heap index env f =
     (let (vmctx, env, f) = fe_vmctx_gv env f
      in bind_res (heap_pointer index vmctx env f) (\<lambda>(ptr, base_offset, length_offset, f).
      bind_res (index_res (memory_plans (fe_module env)) index) (\<lambda>plan.
      let (heap_style, readonly_base, f) =
            (case mp_style plan of
               Dynamic \<Rightarrow>
                 (case create_global_value
                    (GvLoad ptr length_offset (type_of_vmmemory_definition_current_length env) False) f of
                    (heap_bound, f) \<Rightarrow> (HeapDynamic heap_bound, False, f))
             | Static bound \<Rightarrow> (HeapStatic (ucast bound * ucast WASM_PAGE_SIZE), True, f));
          (heap_base, f) = create_global_value (GvLoad ptr base_offset (fe_pointer_type env) readonly_base) f
      in Inr (case create_heap \<lparr>hd_base = heap_base, hd_min_size = 0, hd_offset_guard_size = mp_offset_guard_size plan,
                hd_style = heap_style, hd_index_type = fe_I32 env\<rparr> f of
                (heap, f) \<Rightarrow> (heap, env, f)))))"

definition make_global :: "nat \<Rightarrow> func_environment \<Rightarrow> ir_function \<Rightarrow> global_variable building" where
  "make_global index env f =
     (let (vmctx, env, f) = fe_vmctx_gv env f; offs = fe_offsets env
      in bind_res
        (case defined_global_index (fe_module env) index of
           Some def_index \<Rightarrow>
             bind_res (offset_i32 (vmctx_vmglobal_definition offs (of_nat def_index))) (\<lambda>offset. Inr (vmctx, offset, f))
         | None \<Rightarrow>
             bind_res (offset_i32 (vmctx_vmglobal_import_from offs (of_nat index))) (\<lambda>from_offset.
             let (global, f) = create_global_value (GvLoad vmctx from_offset (fe_pointer_type env) True) f
             in Inr (global, 0, f)))
        (\<lambda>(ptr, offset, f).
      bind_res (index_res (globals (fe_module env)) index) (\<lambda>g.
      Inr (\<lparr>gvar_gv = ptr, gvar_offset = offset, gvar_ty = glb_ty g\<rparr>, env, f))))"

section \<open>Calls\<close>

definition make_indirect_sig :: "nat \<Rightarrow> func_environment \<Rightarrow> ir_function \<Rightarrow> nat building" where
  "make_indirect_sig index env f =
     bind_res (index_res (signatures (fe_module env)) index) (\<lambda>sig.
     Inr (case import_signature sig f of (sig, f) \<Rightarrow> (sig, env, f)))"

definition make_direct_func :: "nat \<Rightarrow> func_environment \<Rightarrow> ir_function \<Rightarrow> nat building" where
  "make_direct_func index env f =
     bind_res (index_res (func_sigs (fe_module env)) index) (\<lambda>sigidx.
     bind_res (index_res (signatures (fe_module env)) sigidx) (\<lambda>sig.
     let (signature, f) = import_signature sig f
     in Inr (case import_function \<lparr>ef_name = get_func_name index, ef_signature = signature, ef_colocated = False\<rparr> f of
               (func, f) \<Rightarrow> (func, env, f))))"

definition translate_call_indirect ::
  "nat \<Rightarrow> nat \<Rightarrow> nat \<Rightarrow> nat \<Rightarrow> ir_value \<Rightarrow> ir_value list \<Rightarrow> func_environment \<Rightarrow> ir_function \<Rightarrow> ir_value building" where
  "translate_call_indirect tab_index table sig_index sig_ref callee_ref call_args env f =
     (let ptr_ty = fe_pointer_type env; offs = fe_offsets env;
          (table_entry_addr, f) = ins (ITableAddr ptr_ty table callee_ref) f;
          (func_addr, f) = ins (ILoad ptr_ty table_entry_addr (ucast (vmcaller_checked_anyfunc_func_ptr offs))) f;
          (_, f) = ins (ITrapz func_addr IndirectCallToNull) f
      in bind_res (index_res (table_plans (fe_module env)) tab_index) (\<lambda>_.
      let sig_id_type = tc_int (fe_target_config env) (unat (size_of_vmshared_signature_index offs) * 8);
          (vmctx, env, f) = fe_vmctx_gv env f;
          (base, f) = ins (IGlobalValue ptr_ty vmctx) f
      in bind_res (offset_i32 (vmctx_vmshared_signature_id offs (of_nat sig_index))) (\<lambda>offset.
      let (caller_sig_id, f) = ins (ILoad sig_id_type base offset) f;
          (callee_sig_id, f) = ins (ILoad sig_id_type table_entry_addr (ucast (vmcaller_checked_anyfunc_type_index offs))) f;
          (cmp, f) = ins (IIcmpEqual callee_sig_id caller_sig_id) f;
          (_, f) = ins (ITrapz cmp BadSignature) f;
          (vmctx_arg, f) = ins (ILoad ptr_ty table_entry_addr (ucast (vmcaller_checked_anyfunc_vmctx offs))) f;
          (call, f) = ins (ICallIndirect sig_ref func_addr (vmctx_arg # call_args)) f
      in Inr (call, env, f))))"

definition translate_call ::
  "nat \<Rightarrow> nat \<Rightarrow> ir_value list \<Rightarrow> func_environment \<Rightarrow> ir_function \<Rightarrow> ir_value building" where
  "translate_call callee_index callee_ref call_args env f =
     (if \<not> is_imported_function (fe_module env) callee_index
      then bind_res (unwrap_res (fn_vmctx_param f) ''unwrap'') (\<lambda>vmctx_param.
           Inr (case ins (ICall callee_ref (vmctx_param # call_args)) f of (call, f) \<Rightarrow> (call, env, f)))
      else
        bind_res (index_res (fn_ext_funcs f) callee_ref) (\<lambda>ext.
        let sig_ref = ef_signature ext; ptr_ty = fe_pointer_type env;
            (vmctx, env, f) = fe_vmctx_gv env f;
            (base, f) = ins (IGlobalValue ptr_ty vmctx) f
        in bind_res (offset_i32 (vmctx_vmfunction_import_body (fe_offsets env) (of_nat callee_index))) (\<lambda>body_offset.
        let (func_addr, f) = ins (ILoad ptr_ty base body_offset) f
        in bind_res (offset_i32 (vmctx_vmfunction_import_vmctx (fe_offsets env) (of_nat callee_index))) (\<lambda>vmctx_offset.
        let (vmctx_arg, f) = ins (ILoad ptr_ty base vmctx_offset) f;
            (call, f) = ins (ICallIndirect sig_ref func_addr (vmctx_arg # call_args)) f
        in Inr (call, env, f)))))"

definition translate_memory_grow :: "nat \<Rightarrow> ir_value \<Rightarrow> func_environment \<Rightarrow> ir_function \<Rightarrow> ir_value building" where
  "translate_memory_grow index val env f =
     bind_res (get_memory_grow_func index env f) (\<lambda>((func_sig, index_arg, func_idx), env, f).
     let (memory_arg, f) = ins (IIconst (fe_I32 env) (of_nat index_arg)) f
     in bind_res (translate_load_builtin_function_address func_idx env f) (\<lambda>((vmctx, func_addr), env, f).
        Inr (case ins (ICallIndirect func_sig func_addr [vmctx, val, memory_arg]) f of (call, f) \<Rightarrow> (call, env, f))))"

definition translate_memory_size :: "nat \<Rightarrow> func_environment \<Rightarrow> ir_function \<Rightarrow> ir_value building" where
  "translate_memory_size index env f =
     bind_res (get_memory_size_func index env f) (\<lambda>((func_sig, index_arg, func_idx), env, f).
     let (memory_arg, f) = ins (IIconst (fe_I32 env) (of_nat index_arg)) f
     in bind_res (translate_load_builtin_function_address func_idx env f) (\<lambda>((vmctx, func_addr), env, f).
        Inr (case ins (ICallIndirect func_sig func_addr [vmctx, memory_arg]) f of (call, f) \<Rightarrow> (call, env, f))))"

end
