(* ===== verification/Func_Env_Sound.thy ===== *)
theory Func_Env_Sound
  imports Func_Env
begin

text \<open>
  What compiled code reads through the addresses that the function environment gives it, in a store that the runtime keeps:
  the heaps and tables of a function are the memories and tables that the runtime means by the same indices, also when
  another instance owns them, and an indirect call runs only a function of the expected signature.
\<close>

section \<open>Loads\<close>

text \<open>The bytes of the structs of a context, without the padding at the end of a table definition.\<close>

fun cell_bytes :: "cell \<Rightarrow> u8 list" where
  "cell_bytes (CSig x) = to_le 4 x"
| "cell_bytes (CFuncImport imp) = to_le 8 (fi_body imp) @ to_le 8 (fi_vmctx imp)"
| "cell_bytes (CTableImport imp) = to_le 8 (ti_from imp) @ to_le 8 (ti_vmctx imp)"
| "cell_bytes (CMemoryImport imp) = to_le 8 (mi_from imp) @ to_le 8 (mi_vmctx imp)"
| "cell_bytes (CGlobalImport imp) = to_le 8 (gi_from imp)"
| "cell_bytes (CTable d) = to_le 8 (vmt_base d) @ to_le 4 (vmt_current_elements d)"
| "cell_bytes (CMemory d) = to_le 8 (vmm_base d) @ to_le 8 (vmm_current_length d)"
| "cell_bytes (CGlobal g) = g"
| "cell_bytes (CBuiltin a) = to_le 8 a"

definition load_at :: "heap \<Rightarrow> address \<Rightarrow> nat \<Rightarrow> u64 option" where
  "load_at h p n =
     (case h p of
        None \<Rightarrow> None
      | Some (c, k) \<Rightarrow>
          if read_cell (p - of_nat k) h = Some c \<and> k + n \<le> length (cell_bytes c)
          then Some (from_le (take n (drop k (cell_bytes c)))) else None)"

lemma load_field:
  assumes "read_cell p h = Some c" and "k + n \<le> length (cell_bytes c)" and "k < cell_size c"
  shows "load_at h (p + of_nat k) n = Some (from_le (take n (drop k (cell_bytes c))))"
proof -
  have "h (p + of_nat k) = Some (c, k)"
    using assms(1,3) by (auto simp: read_cell_def split: option.splits if_splits prod.splits)
  then show ?thesis using assms(1,2) by (simp add: load_at_def)
qed

lemma from_to_le_wide: "from_le (to_le 4 (x :: u32)) = (ucast x :: u64)" "from_le (to_le 8 (y :: u64)) = y"
proof -
  show "from_le (to_le 8 y) = y" by (simp add: from_to_le)
  show "from_le (to_le 4 x) = (ucast x :: u64)"
  proof (rule bit_word_eqI)
    fix k assume "k < LENGTH(64)"
    then show "bit (from_le (to_le 4 x) :: u64) k = bit (ucast x :: u64) k"
      using bit_imp_le_length [of x k]
      by (auto simp: bit_from_le to_le_def bit_ucast_iff bit_drop_bit_eq less_mult_imp_div_less)
  qed
qed

text \<open>Four bytes of a field of eight: the low half.\<close>

lemma from_le_low: "from_le (take 4 (to_le 8 (y :: u64))) = take_bit 32 y"
proof (rule bit_word_eqI)
  fix k assume "k < LENGTH(64)"
  then show "bit (from_le (take 4 (to_le 8 y)) :: u64) k = bit (take_bit 32 y) k"
    by (auto simp: bit_from_le to_le_def bit_ucast_iff bit_drop_bit_eq bit_take_bit_iff less_mult_imp_div_less
        take_map)
qed

section \<open>Global values\<close>

definition eval_gv :: "(ir_type \<Rightarrow> nat) \<Rightarrow> heap \<Rightarrow> address \<Rightarrow> u64 option list \<Rightarrow> gv_data \<Rightarrow> u64 option" where
  "eval_gv bytes h vmctx vals d =
     (case d of
        GvVMContext \<Rightarrow> Some vmctx
      | GvLoad base offset ty _ \<Rightarrow>
          if base < length vals
          then vals ! base \<bind> (\<lambda>p. load_at h (p + scast offset) (bytes ty)) else None)"

definition eval_gvs :: "(ir_type \<Rightarrow> nat) \<Rightarrow> heap \<Rightarrow> address \<Rightarrow> gv_data list \<Rightarrow> u64 option list" where
  "eval_gvs bytes h vmctx gvs = fold (\<lambda>d vals. vals @ [eval_gv bytes h vmctx vals d]) gvs []"

definition gv_value :: "(ir_type \<Rightarrow> nat) \<Rightarrow> heap \<Rightarrow> address \<Rightarrow> gv_data list \<Rightarrow> nat \<Rightarrow> u64 \<Rightarrow> bool" where
  "gv_value bytes h vmctx gvs g v \<longleftrightarrow> g < length gvs \<and> eval_gvs bytes h vmctx gvs ! g = Some v"

lemma eval_gvs_snoc: "eval_gvs bytes h vmctx (gvs @ [d]) =
    eval_gvs bytes h vmctx gvs @ [eval_gv bytes h vmctx (eval_gvs bytes h vmctx gvs) d]"
  by (simp add: eval_gvs_def)

lemma length_eval_gvs [simp]: "length (eval_gvs bytes h vmctx gvs) = length gvs"
  by (induction gvs rule: rev_induct) (simp_all add: eval_gvs_snoc, simp add: eval_gvs_def)

lemma gv_value_append: "gv_value bytes h vmctx gvs g v \<Longrightarrow> gv_value bytes h vmctx (gvs @ ds) g v"
  by (induction ds rule: rev_induct)
    (simp_all add: gv_value_def eval_gvs_snoc nth_append flip: append_assoc)

lemma gv_value_load:
  assumes "gv_value bytes h vmctx gvs b p" and "load_at h (p + scast offset) (bytes ty) = Some v"
  shows "gv_value bytes h vmctx (gvs @ [GvLoad b offset ty ro]) (length gvs) v"
  using assms by (simp add: gv_value_def eval_gvs_snoc nth_append eval_gv_def)

lemma scast_offset: "unat (x :: u32) < 2 ^ 31 \<Longrightarrow> (scast x :: u64) = ucast x"
proof (rule bit_word_eqI)
  fix n assume small: "unat x < 2 ^ 31" and n: "n < LENGTH(64)"
  have "x = take_bit 31 x" using small by (simp add: word_eq_iff_unat unsigned_take_bit_eq take_bit_nat_eq_self)
  then have "\<not> bit x k" if "31 \<le> k" for k using that by (metis bit_take_bit_iff not_le)
  then show "bit (scast x :: u64) n = bit (ucast x :: u64) n"
    using n by (auto simp: bit_simps min_def)
qed

section \<open>Fields of the context\<close>

lemma slot_field_offset:
  fixes a :: address
  assumes shape: "inst_shape inst" and lay: "lay_size (in_offsets inst) < 2 ^ 31"
    and x: "slot_offset (in_offsets inst) s = Some x" and k: "unat k < slot_size (in_offsets inst) s"
  shows "checked_add x k = Some (x + k)" and "offset_i32 (Some (x + k)) = Inr (x + k)"
    and "a + scast (x + k) = a + ucast x + of_nat (unat k)"
proof -
  have "unat x + slot_size (in_offsets inst) s \<le> lay_size (in_offsets inst)"
    by (rule slot_in_context [OF inst_shapeD(2) [OF shape] x])
  then have sum: "unat x + unat k < 2 ^ 31" using k lay by simp
  then have xk: "unat (x + k) = unat x + unat k" by (simp add: unat_add_small)
  show "checked_add x k = Some (x + k)" using sum by (simp add: checked_add_def)
  show "offset_i32 (Some (x + k)) = Inr (x + k)" using sum xk by (simp add: offset_i32_def)
  have "scast (x + k) = (ucast (x + k) :: u64)" using sum xk by (intro scast_offset) simp
  moreover have "(ucast (x + k) :: u64) = ucast x + of_nat (unat k)"
    using xk sum by (simp add: word_eq_iff_unat unat_of_nat_u64 unat_add_small)
  ultimately show "a + scast (x + k) = a + ucast x + of_nat (unat k)" by simp
qed

lemma context_fields:
  assumes "context_ok offs"
  shows "ucast (vmmemory_definition_base offs) = (0 :: u32)" "ucast (vmmemory_definition_current_length offs) = (8 :: u32)"
    "ucast (vmtable_definition_base offs) = (0 :: u32)" "ucast (vmtable_definition_current_elements offs) = (8 :: u32)"
    "ucast (vmmemory_import_from offs) = (0 :: u32)" "ucast (vmtable_import_from offs) = (0 :: u32)"
    "ucast (vmglobal_import_from offs) = (0 :: u32)"
    "ucast (vmfunction_import_body offs) = (0 :: u32)" "ucast (vmfunction_import_vmctx offs) = (8 :: u32)"
    "ucast (vmcaller_checked_anyfunc_func_ptr offs) = (0 :: u32)"
    "ucast (vmcaller_checked_anyfunc_type_index offs) = (8 :: u32)"
    "ucast (vmcaller_checked_anyfunc_vmctx offs) = (16 :: u32)"
    "ucast (size_of_vmcaller_checked_anyfunc offs) = (24 :: u64)"
  using assms by (simp_all add: context_ok_def struct_field_defs)

text \<open>One field of a slot in use: its offset is computed without panic, and a load there reads the field.\<close>

lemma slot_load:
  assumes inv: "store_inv st" and a: "st_instances st a = Some inst"
    and i: "i < used inst (mk (of_nat i))" and mk: "array_mk mk"
    and lay: "lay_size (in_offsets inst) < 2 ^ 31"
  obtains x c where "slot_offset (in_offsets inst) (mk (of_nat i)) = Some x"
    "read_cell (a + ucast x) (st_heap st) = Some c" "slot_good st inst (mk (of_nat i)) c" "unat (of_nat i :: u32) = i"
    "\<And>k. unat k < cell_size c \<Longrightarrow> checked_add x k = Some (x + k) \<and> offset_i32 (Some (x + k)) = Inr (x + k)"
    "\<And>k n. unat k < cell_size c \<Longrightarrow> unat k + n \<le> length (cell_bytes c) \<Longrightarrow>
       load_at (st_heap st) (a + scast (x + k)) n = Some (from_le (take n (drop (unat k) (cell_bytes c))))"
proof -
  note shape = own_slot(1) [OF inv a]
  obtain x c where x: "slot_offset (in_offsets inst) (mk (of_nat i)) = Some x"
    "read_cell (a + ucast x) (st_heap st) = Some c" "slot_good st inst (mk (of_nat i)) c" "unat (of_nat i :: u32) = i"
    by (rule read_slot [OF inv a i mk])
  have size: "cell_size c = slot_size (in_offsets inst) (mk (of_nat i))"
    by (rule cell_size_slot [OF inst_shapeD(1) [OF shape] slot_good_fits [OF x(3)]])
  have "checked_add x k = Some (x + k) \<and> offset_i32 (Some (x + k)) = Inr (x + k)" if "unat k < cell_size c" for k
    using slot_field_offset(1,2) [OF shape lay x(1), of k] that size by simp
  moreover have "load_at (st_heap st) (a + scast (x + k)) n = Some (from_le (take n (drop (unat k) (cell_bytes c))))"
    if "unat k < cell_size c" "unat k + n \<le> length (cell_bytes c)" for k n
    using slot_field_offset(3) [OF shape lay x(1), of k a] load_field [OF x(2) that(2,1)] that size by (simp add: add.assoc)
  ultimately show ?thesis using that x by blast
qed

section \<open>Environments of an instance\<close>

text \<open>The environment was made for the module of the instance, on a 64-bit target and for a context below 2 GiB.\<close>

definition compiles :: "func_environment \<Rightarrow> ir_function \<Rightarrow> wasm_instance \<Rightarrow> bool" where
  "compiles env f inst \<longleftrightarrow>
     fe_module env = in_module inst \<and> fe_offsets env = in_offsets inst \<and>
     tc_bytes (fe_target_config env) (fe_pointer_type env) = 8 \<and>
     tc_bytes (fe_target_config env) (fe_I32 env) = 4 \<and>
     lay_size (in_offsets inst) < 2 ^ 31 \<and>
     (\<forall>g. fe_vmctx env = Some g \<longrightarrow> g < length (fn_gvs f) \<and> fn_gvs f ! g = GvVMContext)"

abbreviation reads :: "func_environment \<Rightarrow> store \<Rightarrow> address \<Rightarrow> ir_function \<Rightarrow> nat \<Rightarrow> u64 \<Rightarrow> bool" where
  "reads env st a f \<equiv> gv_value (tc_bytes (fe_target_config env)) (st_heap st) a (fn_gvs f)"

lemma gv_value_vmctx: "g < length gvs \<Longrightarrow> gvs ! g = GvVMContext \<Longrightarrow> gv_value bytes h a gvs g a"
proof (induction gvs rule: rev_induct)
  case (snoc d gvs)
  then show ?case by (cases "g < length gvs") (auto simp: gv_value_def eval_gvs_snoc nth_append eval_gv_def)
qed simp

lemma vmctx_gv:
  assumes "compiles env f inst"
  obtains g env' f' where "fe_vmctx_gv env f = (g, env', f')" "compiles env' f' inst"
    "reads env' st a f' g a" "fe_target_config env' = fe_target_config env"
    "fn_insts f' = fn_insts f" "fn_heaps f' = fn_heaps f" "fn_tables f' = fn_tables f" "fn_ext_funcs f' = fn_ext_funcs f"
    "\<exists>ds. fn_gvs f' = fn_gvs f @ ds" "fe_memory_grow_sig env' = fe_memory_grow_sig env"
    "fe_memory32_size_sig env' = fe_memory32_size_sig env"
proof (cases "fe_vmctx env")
  case None
  then show ?thesis using assms
    by (intro that [of "length (fn_gvs f)" "env\<lparr>fe_vmctx := Some (length (fn_gvs f))\<rparr>" "f\<lparr>fn_gvs := fn_gvs f @ [GvVMContext]\<rparr>"])
      (auto simp: fe_vmctx_gv_def create_global_value_def compiles_def intro!: gv_value_vmctx)
next
  case (Some g)
  then show ?thesis using assms
    by (intro that [of g env f]) (auto simp: fe_vmctx_gv_def compiles_def intro!: gv_value_vmctx)
qed

section \<open>Heaps\<close>

text \<open>The memory that the runtime means by an index of an instance: its owner and the index there.\<close>

definition memory_owner :: "store \<Rightarrow> address \<Rightarrow> wasm_instance \<Rightarrow> nat \<Rightarrow> address \<Rightarrow> nat \<Rightarrow> bool" where
  "memory_owner st a inst index owner d \<longleftrightarrow>
     (case defined_memory_index (in_module inst) index of
        Some k \<Rightarrow> owner = a \<and> d = k
      | None \<Rightarrow>
          \<exists>imp oinst. imported_memory (st_heap st) a (in_offsets inst) index = Inr imp \<and> owner = mi_vmctx imp \<and>
            st_instances st owner = Some oinst \<and> inst_memory_index oinst owner (mi_from imp) = Inr d)"

lemma memory_definition_cell:
  assumes "store_inv st" "st_instances st a = Some inst" "d < length (in_memories inst)"
    and "memory_mut a (in_offsets inst) d = Inr p"
  shows "read_cell p (st_heap st) = Some (CMemory (vmmemory (in_memories inst ! d)))"
  using own_memory_definition [OF assms(1-3)] assms(4)
  by (auto simp: vm_memory_def deref_memory_def split: option.splits cell.splits)

lemma memory_cell_loads:
  assumes "read_cell q h = Some (CMemory d)"
  shows "load_at h q 8 = Some (vmm_base d)" and "load_at h (q + 8) 4 = Some (take_bit 32 (vmm_current_length d))"
  using load_field [OF assms, of 0 8] load_field [OF assms, of 8 4]
  by (simp_all add: from_to_le_wide from_le_low)

lemma heap_pointer_reads:
  assumes inv: "store_inv st" and a: "st_instances st a = Some inst" and ok: "compiles env f inst"
    and index: "index < length (memory_plans (in_module inst))" and g: "reads env st a f g a"
  obtains ptr bo lo f' p owner oinst d where "heap_pointer index g env f = Inr (ptr, bo, lo, f')"
    "memory_owner st a inst index owner d" "st_instances st owner = Some oinst" "d < length (in_memories oinst)"
    "reads env st a f' ptr p"
    "load_at (st_heap st) (p + scast bo) 8 = Some (vmm_base (vmmemory (in_memories oinst ! d)))"
    "load_at (st_heap st) (p + scast lo) 4 = Some (take_bit 32 (vmm_current_length (vmmemory (in_memories oinst ! d))))"
    "fn_heaps f' = fn_heaps f" "compiles env f' inst"
proof -
  note shape = own_slot(1) [OF inv a]
  have offs: "fe_module env = in_module inst" "fe_offsets env = in_offsets inst" "context_ok (in_offsets inst)"
    and lay: "lay_size (in_offsets inst) < 2 ^ 31" and ptr: "tc_bytes (fe_target_config env) (fe_pointer_type env) = 8"
    using ok inst_shapeD(1) [OF shape] by (auto simp: compiles_def)
  show ?thesis
  proof (cases "defined_memory_index (in_module inst) index")
    case (Some k)
    have "k < length (in_memories inst)"
      using memory_space.defined_lt [OF Some index] shape by (auto simp: inst_shape_def Let_def)
    then have used: "k < used inst (MemDef (of_nat k))" by simp
    obtain x c where x: "slot_offset (in_offsets inst) (MemDef (of_nat k)) = Some x" "slot_good st inst (MemDef (of_nat k)) c"
      "unat (of_nat k :: u32) = k"
      "\<And>k. unat k < cell_size c \<Longrightarrow> checked_add x k = Some (x + k) \<and> offset_i32 (Some (x + k)) = Inr (x + k)"
      "\<And>k n. unat k < cell_size c \<Longrightarrow> unat k + n \<le> length (cell_bytes c) \<Longrightarrow>
         load_at (st_heap st) (a + scast (x + k)) n = Some (from_le (take n (drop (unat k) (cell_bytes c))))"
      by (rule slot_load [OF inv a used slot_kinds_array(7) lay]) blast
    then have c: "c = CMemory (vmmemory (in_memories inst ! k))" by (cases c) simp_all
    have "heap_pointer index g env f = Inr (g, x, x + 8, f)"
      using x(1) x(4) [of 0] x(4) [of 8] Some offs
      by (simp add: heap_pointer_def vmctx_vmmemory_definition_base_def vmctx_vmmemory_definition_current_length_def
          context_fields c)
    then show ?thesis
      using that [of g x "x + 8" f a k inst a] Some g a ok x(5) [of 0 8] x(5) [of 8 4] \<open>k < length (in_memories inst)\<close>
      by (simp add: memory_owner_def c from_to_le_wide from_le_low)
  next
    case None
    then have imported: "index < length (imported_memories (in_module inst))"
      by (simp add: memory_space.defined_None_iff is_imported_memory_def)
    then have used: "index < used inst (MemImport (of_nat index))" by simp
    obtain x c where x: "slot_offset (in_offsets inst) (MemImport (of_nat index)) = Some x"
      "read_cell (a + ucast x) (st_heap st) = Some c" "slot_good st inst (MemImport (of_nat index)) c"
      "\<And>k. unat k < cell_size c \<Longrightarrow> checked_add x k = Some (x + k) \<and> offset_i32 (Some (x + k)) = Inr (x + k)"
      "\<And>k n. unat k < cell_size c \<Longrightarrow> unat k + n \<le> length (cell_bytes c) \<Longrightarrow>
         load_at (st_heap st) (a + scast (x + k)) n = Some (from_le (take n (drop (unat k) (cell_bytes c))))"
      by (rule slot_load [OF inv a used slot_kinds_array(4) lay]) blast
    then obtain imp where c: "c = CMemoryImport imp" by (cases c) simp_all
    obtain imp' oinst d where o: "imported_memory (st_heap st) a (in_offsets inst) index = Inr imp'"
      "st_instances st (mi_vmctx imp') = Some oinst" "d < length (in_memories oinst)"
      "memory_mut (mi_vmctx imp') (in_offsets oinst) d = Inr (mi_from imp')"
      "inst_memory_index oinst (mi_vmctx imp') (mi_from imp') = Inr d"
      by (rule imported_memory_owner [OF inv a imported])
    have "imp' = imp" using o(1) x(1,2) c by (simp add: imported_memory_def vm_add_def deref_memory_import_def)
    note cell = memory_definition_cell [OF inv o(2,3,4)]
    let ?f = "f\<lparr>fn_gvs := fn_gvs f @ [GvLoad g x (fe_pointer_type env) True]\<rparr>"
    have hp: "heap_pointer index g env f = Inr (length (fn_gvs f), 0, 8, ?f)"
      using x(1) x(4) [of 0] None offs
      by (simp add: heap_pointer_def vmctx_vmmemory_import_from_def context_fields c create_global_value_def)
    have "reads env st a ?f (length (fn_gvs f)) (mi_from imp)"
      using gv_value_load [OF g] x(5) [of 0 8] ptr by (simp add: c from_to_le_wide)
    moreover have "memory_owner st a inst index (mi_vmctx imp) d"
      using None o \<open>imp' = imp\<close> by (simp add: memory_owner_def)
    moreover have "compiles env ?f inst" using ok by (auto simp: compiles_def nth_append)
    ultimately show ?thesis
      using that [OF hp _ _ o(3)] o(2) memory_cell_loads [OF cell] \<open>imp' = imp\<close> by (simp add: scast_offset)
  qed
qed

lemma memory_bound_read:
  assumes "lm_inv mem"
  shows "take_bit 32 (vmm_current_length (vmmemory mem)) =
    (if unat (lm_current mem) < 65536 then vmm_current_length (vmmemory mem) else 0)"
proof -
  have "unat (lm_current mem) \<le> 65536" using assms by (simp add: lm_inv_def)
  moreover have "unat (vmm_current_length (vmmemory mem)) = unat (lm_current mem) * 65536"
    using unat_lt_u32 [of "lm_current mem"] by (simp add: vmmemory_def unat_mult_small)
  moreover have "unat (take_bit 32 w) = unat w mod 2 ^ 32" for w :: u64
    by (simp add: unsigned_take_bit_eq take_bit_nat_def)
  ultimately show ?thesis by (auto simp: word_eq_iff_unat)
qed

lemma make_heap_dynamic:
  assumes v: "fe_vmctx_gv env f = (g, env1, f1)" and hp: "heap_pointer index g env1 f1 = Inr (ptr, bo, lo, f2)"
    and ok: "compiles env1 f2 inst" and index: "index < length (memory_plans (in_module inst))"
    and style: "mp_style (memory_plans (in_module inst) ! index) = Dynamic"
    and p: "reads env1 st a f2 ptr p" and base: "load_at (st_heap st) (p + scast bo) 8 = Some b"
    and len: "load_at (st_heap st) (p + scast lo) 4 = Some n"
  shows "\<exists>heap f' bound. make_heap index env f = Inr (heap, env1, f') \<and> compiles env1 f' inst \<and>
    hd_style (fn_heaps f' ! heap) = HeapDynamic bound \<and> reads env1 st a f' (hd_base (fn_heaps f' ! heap)) b \<and>
    reads env1 st a f' bound n"
proof -
  note types = ok [unfolded compiles_def]
  let ?gv1 = "GvLoad ptr lo (type_of_vmmemory_definition_current_length env1) False"
  let ?gv2 = "GvLoad ptr bo (fe_pointer_type env1) False"
  have one: "gv_value (tc_bytes (fe_target_config env1)) (st_heap st) a (fn_gvs f2 @ [?gv1]) (length (fn_gvs f2)) n"
    using types len by (intro gv_value_load [OF p])
      (simp add: type_of_vmmemory_definition_current_length_def size_of_vmmemory_definition_current_length_def)
  have two: "gv_value (tc_bytes (fe_target_config env1)) (st_heap st) a ((fn_gvs f2 @ [?gv1]) @ [?gv2]) (length (fn_gvs f2 @ [?gv1])) b"
    using types base by (intro gv_value_load [OF gv_value_append [OF p]]) simp
  let ?f = "f2\<lparr>fn_gvs := fn_gvs f2 @ [?gv1, ?gv2], fn_heaps := fn_heaps f2 @
    [\<lparr>hd_base = Suc (length (fn_gvs f2)), hd_min_size = 0,
      hd_offset_guard_size = mp_offset_guard_size (memory_plans (in_module inst) ! index),
      hd_style = HeapDynamic (length (fn_gvs f2)), hd_index_type = fe_I32 env1\<rparr>]\<rparr>"
  have "make_heap index env f = Inr (length (fn_heaps f2), env1, ?f)"
    using v hp index types style by (simp add: make_heap_def create_global_value_def create_heap_def index_res_def)
  moreover have "compiles env1 ?f inst" using types by (auto simp: compiles_def nth_append)
  ultimately show ?thesis using gv_value_append [OF one, of "[?gv2]"] two
    by (intro exI [of _ "length (fn_heaps f2)"] exI [of _ ?f] exI [of _ "length (fn_gvs f2)"]) simp
qed

lemma make_heap_static:
  assumes v: "fe_vmctx_gv env f = (g, env1, f1)" and hp: "heap_pointer index g env1 f1 = Inr (ptr, bo, lo, f2)"
    and ok: "compiles env1 f2 inst" and index: "index < length (memory_plans (in_module inst))"
    and style: "mp_style (memory_plans (in_module inst) ! index) = Static pages"
    and p: "reads env1 st a f2 ptr p" and base: "load_at (st_heap st) (p + scast bo) 8 = Some b"
  shows "\<exists>heap f' bound. make_heap index env f = Inr (heap, env1, f') \<and> compiles env1 f' inst \<and>
    hd_style (fn_heaps f' ! heap) = HeapStatic bound \<and> unat bound = unat pages * 65536 \<and>
    reads env1 st a f' (hd_base (fn_heaps f' ! heap)) b"
proof -
  note types = ok [unfolded compiles_def]
  let ?gv = "GvLoad ptr bo (fe_pointer_type env1) True" and ?bound = "ucast pages * ucast WASM_PAGE_SIZE :: u64"
  have one: "gv_value (tc_bytes (fe_target_config env1)) (st_heap st) a (fn_gvs f2 @ [?gv]) (length (fn_gvs f2)) b"
    using types base by (intro gv_value_load [OF p]) simp
  let ?f = "f2\<lparr>fn_gvs := fn_gvs f2 @ [?gv], fn_heaps := fn_heaps f2 @
    [\<lparr>hd_base = length (fn_gvs f2), hd_min_size = 0,
      hd_offset_guard_size = mp_offset_guard_size (memory_plans (in_module inst) ! index),
      hd_style = HeapStatic ?bound, hd_index_type = fe_I32 env1\<rparr>]\<rparr>"
  have "make_heap index env f = Inr (length (fn_heaps f2), env1, ?f)"
    using v hp index types style by (simp add: make_heap_def create_global_value_def create_heap_def index_res_def)
  moreover have "compiles env1 ?f inst" using types by (auto simp: compiles_def nth_append)
  ultimately show ?thesis using one
    by (intro exI [of _ "length (fn_heaps f2)"] exI [of _ ?f] exI [of _ ?bound]) simp
qed

text \<open>C5. Compiled code addresses the memory that the runtime means: for every memory index of an instance in a store the runtime keeps, the
  heap made for it has as its base what the definition of that memory holds, in the context of the instance that owns it; a dynamic heap
  takes as its bound the low 32 bits of the current length, which is the length for every memory below 65536
  pages and zero for one of 65536; a static heap takes the bytes of its planned bound.\<close>

theorem make_heap_sound:
  assumes inv: "store_inv st" and a: "st_instances st a = Some inst" and ok: "compiles env f inst"
    and index: "index < length (memory_plans (in_module inst))"
  shows "\<exists>heap env' f' owner oinst d. make_heap index env f = Inr (heap, env', f') \<and> compiles env' f' inst \<and>
    memory_owner st a inst index owner d \<and> st_instances st owner = Some oinst \<and> d < length (in_memories oinst) \<and>
    reads env' st a f' (hd_base (fn_heaps f' ! heap)) (vmm_base (vmmemory (in_memories oinst ! d))) \<and>
    (case hd_style (fn_heaps f' ! heap) of
       HeapDynamic bound \<Rightarrow>
         mp_style (memory_plans (in_module inst) ! index) = Dynamic \<and>
         reads env' st a f' bound
           (if unat (lm_current (in_memories oinst ! d)) < 65536
            then vmm_current_length (vmmemory (in_memories oinst ! d)) else 0)
     | HeapStatic bound \<Rightarrow>
         \<exists>pages. mp_style (memory_plans (in_module inst) ! index) = Static pages \<and> unat bound = unat pages * 65536)"
proof -
  let ?plan = "memory_plans (in_module inst) ! index"
  obtain g env1 f1 where v: "fe_vmctx_gv env f = (g, env1, f1)" "compiles env1 f1 inst" "reads env1 st a f1 g a"
    by (rule vmctx_gv [OF ok])
  obtain ptr bo lo f2 p owner oinst d where hp: "heap_pointer index g env1 f1 = Inr (ptr, bo, lo, f2)"
    and owner: "memory_owner st a inst index owner d" "st_instances st owner = Some oinst" "d < length (in_memories oinst)"
    and p: "reads env1 st a f2 ptr p"
    and loads: "load_at (st_heap st) (p + scast bo) 8 = Some (vmm_base (vmmemory (in_memories oinst ! d)))"
      "load_at (st_heap st) (p + scast lo) 4 = Some (take_bit 32 (vmm_current_length (vmmemory (in_memories oinst ! d))))"
    and f2: "compiles env1 f2 inst"
    by (rule heap_pointer_reads [OF inv a v(2) index v(3)])
  have "in_memories oinst ! d \<in> set (in_memories oinst)" using owner(3) by simp
  then have "lm_inv (in_memories oinst ! d)"
    using own_slot(1) [OF inv owner(2)] by (auto simp: inst_shape_def Let_def)
  note bound = memory_bound_read [OF this]
  show ?thesis
  proof (cases "mp_style (memory_plans (in_module inst) ! index)")
    case Dynamic
    from make_heap_dynamic [OF v(1) hp f2 index Dynamic p loads]
    show ?thesis unfolding bound using Dynamic owner by fastforce
  next
    case (Static pages)
    from make_heap_static [OF v(1) hp f2 index Static p loads(1)]
    show ?thesis using Static owner by fastforce
  qed
qed

text \<open>A 64-bit target, and a function whose context is its first parameter.\<close>

definition example_target :: target_config where
  "example_target = \<lparr>tc_pointer_bytes = 8, tc_pointer_type = 1, tc_default_call_conv = 0,
     tc_int = (\<lambda>bits. if bits = 64 then 1 else 0), tc_bytes = (\<lambda>ty. if ty = 1 then 8 else 4)\<rparr>"

definition empty_function :: ir_function where
  "empty_function = \<lparr>fn_gvs = [], fn_sigs = [], fn_heaps = [], fn_tables = [], fn_ext_funcs = [], fn_insts = [],
     fn_vmctx_param = Some (VParam 0)\<rparr>"

lemma new_environment_compiles:
  assumes "vmoffsets_new 8 (in_module inst) = Some (in_offsets inst)" and "lay_size (in_offsets inst) < 2 ^ 31"
  obtains env where "func_environment_new example_target (in_module inst) = Inr env" "compiles env empty_function inst"
  using assms by (auto simp: func_environment_new_def example_target_def unwrap_res_def compiles_def empty_function_def)

theorem make_heap_sound_witness:
  "\<exists>st inst env heap env' f'. store_inv st \<and> st_instances st 0x100100 = Some inst \<and>
     func_environment_new example_target example_module = Inr env \<and> make_heap 0 env empty_function = Inr (heap, env', f') \<and>
     reads env' st 0x100100 f' (hd_base (fn_heaps f' ! heap)) (vmm_base (vmmemory (in_memories inst ! 0))) \<and>
     (\<exists>bound. hd_style (fn_heaps f' ! heap) = HeapDynamic bound)"
proof -
  obtain st inst where st: "instance_allocate example_env example_module [] imports_none [] empty_store = Inr (0x100100, st)"
    "store_inv st" "st_instances st = [0x100100 \<mapsto> inst]" "in_module inst = example_module"
    "length (in_memories inst) = 1" "guard_ok example_os (in_memories inst ! 0)"
    "length (in_tables inst) = 1" "in_offsets inst = example_vmoffsets"
    by (rule example_store)
  have at: "st_instances st 0x100100 = Some inst" using st(3) by simp
  obtain env where env: "func_environment_new example_target (in_module inst) = Inr env" "compiles env empty_function inst"
    by (rule new_environment_compiles [of inst]) (use st(4,8) example_vmoffsets example_fits in simp_all)
  have plans: "0 < length (memory_plans (in_module inst))" "mp_style (memory_plans (in_module inst) ! 0) = Dynamic"
    "defined_memory_index (in_module inst) 0 = Some 0"
    by (simp_all add: st(4) example_module_def module_new_def defined_memory_index_def)
  from make_heap_sound [OF st(2) at env(2) plans(1)]
  show ?thesis using st(2,4) at env(1) plans(2,3) by (fastforce simp: memory_owner_def split: heap_style.split_asm)
qed

section \<open>Tables\<close>

definition table_owner :: "store \<Rightarrow> address \<Rightarrow> wasm_instance \<Rightarrow> nat \<Rightarrow> address \<Rightarrow> nat \<Rightarrow> bool" where
  "table_owner st a inst index owner d \<longleftrightarrow>
     (case defined_table_index (in_module inst) index of
        Some k \<Rightarrow> owner = a \<and> d = k
      | None \<Rightarrow>
          \<exists>imp oinst. imported_table (st_heap st) a (in_offsets inst) index = Inr imp \<and> owner = ti_vmctx imp \<and>
            st_instances st owner = Some oinst \<and> inst_table_index oinst owner (ti_from imp) = Inr d)"

lemma table_cell_loads:
  assumes "read_cell q h = Some (CTable d)"
  shows "load_at h q 8 = Some (vmt_base d)" and "load_at h (q + 8) 4 = Some (ucast (vmt_current_elements d))"
  using load_field [OF assms, of 0 8] load_field [OF assms, of 8 4]
  by (simp_all add: from_to_le_wide)

lemma vmtable_fields:
  assumes "table_inv t" and "vmtable t = Inr def"
  shows "vmt_base def = tb_base t" and "unat (vmt_current_elements def) = length (tb_vec t)"
  using assms table_inv_size [of t] by (auto simp: vmtable_def)

lemma table_definition_cell:
  assumes inv: "store_inv st" and a: "st_instances st a = Some inst" and d: "d < length (in_tables inst)"
    and p: "table_mut a (in_offsets inst) d = Inr p"
  obtains def where "read_cell p (st_heap st) = Some (CTable def)" "vmtable (in_tables inst ! d) = Inr def"
proof -
  have "d < used inst (TableDef (of_nat d))" using d by simp
  then obtain x c where "slot_offset (in_offsets inst) (TableDef (of_nat d)) = Some x"
    "read_cell (a + ucast x) (st_heap st) = Some c" "slot_good st inst (TableDef (of_nat d)) c" "unat (of_nat d :: u32) = d"
    by (rule read_slot [OF inv a _ slot_kinds_array(6)])
  then show ?thesis using that p by (cases c) (auto simp: table_mut_def vm_add_def)
qed

lemma imported_table_owner:
  assumes inv: "store_inv st" and a: "st_instances st a = Some inst"
    and x: "slot_offset (in_offsets inst) (TableImport (of_nat index)) = Some x"
    and c: "read_cell (a + ucast x) (st_heap st) = Some (CTableImport imp)"
    and good: "slot_good st inst (TableImport (of_nat index)) (CTableImport imp)"
  obtains oinst d def where "imported_table (st_heap st) a (in_offsets inst) index = Inr imp"
    "st_instances st (ti_vmctx imp) = Some oinst" "d < length (in_tables oinst)"
    "inst_table_index oinst (ti_vmctx imp) (ti_from imp) = Inr d"
    "read_cell (ti_from imp) (st_heap st) = Some (CTable def)" "vmtable (in_tables oinst ! d) = Inr def"
proof -
  obtain oinst d where o: "st_instances st (ti_vmctx imp) = Some oinst" "d < length (in_tables oinst)"
    "table_mut (ti_vmctx imp) (in_offsets oinst) d = Inr (ti_from imp)"
    using good by (auto simp: points_to_table_def)
  obtain def where "read_cell (ti_from imp) (st_heap st) = Some (CTable def)" "vmtable (in_tables oinst ! d) = Inr def"
    by (rule table_definition_cell [OF inv o])
  moreover have "imported_table (st_heap st) a (in_offsets inst) index = Inr imp"
    using x c by (simp add: imported_table_def vm_add_def deref_table_import_def)
  ultimately show ?thesis using that o table_index_of_pointer [OF own_slot(1) [OF inv o(1)] o(2,3)] by blast
qed

lemma table_pointer_reads:
  assumes inv: "store_inv st" and a: "st_instances st a = Some inst" and ok: "compiles env f inst"
    and index: "index < length (table_plans (in_module inst))" and g: "reads env st a f g a"
  obtains ptr bo eo f' p owner oinst d def where "table_pointer index g env f = Inr (ptr, bo, eo, f')"
    "table_owner st a inst index owner d" "st_instances st owner = Some oinst" "d < length (in_tables oinst)"
    "vmtable (in_tables oinst ! d) = Inr def" "reads env st a f' ptr p"
    "load_at (st_heap st) (p + scast bo) 8 = Some (vmt_base def)"
    "load_at (st_heap st) (p + scast eo) 4 = Some (ucast (vmt_current_elements def))" "compiles env f' inst"
    "fn_insts f' = fn_insts f"
proof -
  note shape = own_slot(1) [OF inv a]
  have offs: "fe_module env = in_module inst" "fe_offsets env = in_offsets inst" "context_ok (in_offsets inst)"
    and lay: "lay_size (in_offsets inst) < 2 ^ 31" and ptr: "tc_bytes (fe_target_config env) (fe_pointer_type env) = 8"
    using ok inst_shapeD(1) [OF shape] by (auto simp: compiles_def)
  show ?thesis
  proof (cases "defined_table_index (in_module inst) index")
    case (Some k)
    have k: "k < length (in_tables inst)"
      using table_space.defined_lt [OF Some index] shape by (auto simp: inst_shape_def Let_def)
    then have used: "k < used inst (TableDef (of_nat k))" by simp
    obtain x c where x: "slot_offset (in_offsets inst) (TableDef (of_nat k)) = Some x" "slot_good st inst (TableDef (of_nat k)) c"
      "unat (of_nat k :: u32) = k"
      "\<And>k. unat k < cell_size c \<Longrightarrow> checked_add x k = Some (x + k) \<and> offset_i32 (Some (x + k)) = Inr (x + k)"
      "\<And>k n. unat k < cell_size c \<Longrightarrow> unat k + n \<le> length (cell_bytes c) \<Longrightarrow>
         load_at (st_heap st) (a + scast (x + k)) n = Some (from_le (take n (drop (unat k) (cell_bytes c))))"
      by (rule slot_load [OF inv a used slot_kinds_array(6) lay]) blast
    then obtain def where c: "c = CTable def" "vmtable (in_tables inst ! k) = Inr def" by (cases c) simp_all
    have "table_pointer index g env f = Inr (g, x, x + 8, f)"
      using x(1) x(4) [of 0] x(4) [of 8] Some offs
      by (simp add: table_pointer_def vmctx_vmtable_definition_base_def vmctx_vmtable_definition_current_elements_def
          context_fields c)
    then show ?thesis
      using that [of g x "x + 8" f a k inst def a] Some g a ok x(5) [of 0 8] x(5) [of 8 4] k
      by (simp add: table_owner_def c from_to_le_wide)
  next
    case None
    then have used: "index < used inst (TableImport (of_nat index))"
      by (simp add: table_space.defined_None_iff is_imported_table_def)
    obtain x c where x: "slot_offset (in_offsets inst) (TableImport (of_nat index)) = Some x"
      "read_cell (a + ucast x) (st_heap st) = Some c" "slot_good st inst (TableImport (of_nat index)) c"
      "\<And>k. unat k < cell_size c \<Longrightarrow> checked_add x k = Some (x + k) \<and> offset_i32 (Some (x + k)) = Inr (x + k)"
      "\<And>k n. unat k < cell_size c \<Longrightarrow> unat k + n \<le> length (cell_bytes c) \<Longrightarrow>
         load_at (st_heap st) (a + scast (x + k)) n = Some (from_le (take n (drop (unat k) (cell_bytes c))))"
      by (rule slot_load [OF inv a used slot_kinds_array(3) lay]) blast
    then obtain imp where c: "c = CTableImport imp" by (cases c) simp_all
    obtain oinst d def where o: "imported_table (st_heap st) a (in_offsets inst) index = Inr imp"
      "st_instances st (ti_vmctx imp) = Some oinst" "d < length (in_tables oinst)"
      "inst_table_index oinst (ti_vmctx imp) (ti_from imp) = Inr d"
      "read_cell (ti_from imp) (st_heap st) = Some (CTable def)" "vmtable (in_tables oinst ! d) = Inr def"
      by (rule imported_table_owner [OF inv a x(1) x(2,3) [unfolded c]])
    let ?f = "f\<lparr>fn_gvs := fn_gvs f @ [GvLoad g x (fe_pointer_type env) True]\<rparr>"
    have tp: "table_pointer index g env f = Inr (length (fn_gvs f), 0, 8, ?f)"
      using x(1) x(4) [of 0] None offs
      by (simp add: table_pointer_def vmctx_vmtable_import_from_def context_fields c create_global_value_def)
    have "reads env st a ?f (length (fn_gvs f)) (ti_from imp)"
      using gv_value_load [OF g] x(5) [of 0 8] ptr by (simp add: c from_to_le_wide)
    moreover have "table_owner st a inst index (ti_vmctx imp) d" using None o by (simp add: table_owner_def)
    moreover have "compiles env ?f inst" using ok by (auto simp: compiles_def nth_append)
    ultimately show ?thesis
      using that [OF tp _ o(2,3,6)] table_cell_loads [OF o(5)] by (simp add: scast_offset)
  qed
qed

text \<open>A table of a function addresses a table of the store: its base, its bound and the size of its elements.\<close>

definition addresses_table :: "func_environment \<Rightarrow> store \<Rightarrow> address \<Rightarrow> ir_function \<Rightarrow> nat \<Rightarrow> table \<Rightarrow> bool" where
  "addresses_table env st a f table t \<longleftrightarrow>
     table < length (fn_tables f) \<and> td_element_size (fn_tables f ! table) = 24 \<and>
     reads env st a f (td_base_gv (fn_tables f ! table)) (tb_base t) \<and>
     reads env st a f (td_bound_gv (fn_tables f ! table)) (of_nat (length (tb_vec t)))"

lemma make_table_addresses:
  assumes inv: "store_inv st" and a: "st_instances st a = Some inst" and ok: "compiles env f inst"
    and index: "index < length (table_plans (in_module inst))"
  obtains table env' f' owner oinst d where "make_table index env f = Inr (table, env', f')" "compiles env' f' inst"
    "table_owner st a inst index owner d" "st_instances st owner = Some oinst" "d < length (in_tables oinst)"
    "addresses_table env' st a f' table (in_tables oinst ! d)" "fn_insts f' = fn_insts f"
proof -
  obtain g env1 f1 where v: "fe_vmctx_gv env f = (g, env1, f1)" "compiles env1 f1 inst" "reads env1 st a f1 g a"
    "fn_insts f1 = fn_insts f"
    by (rule vmctx_gv [OF ok])
  obtain ptr bo eo f2 p owner oinst d def where tp: "table_pointer index g env1 f1 = Inr (ptr, bo, eo, f2)"
    and owner: "table_owner st a inst index owner d" "st_instances st owner = Some oinst" "d < length (in_tables oinst)"
    and def: "vmtable (in_tables oinst ! d) = Inr def" and p: "reads env1 st a f2 ptr p"
    and loads: "load_at (st_heap st) (p + scast bo) 8 = Some (vmt_base def)"
      "load_at (st_heap st) (p + scast eo) 4 = Some (ucast (vmt_current_elements def))"
    and f2: "compiles env1 f2 inst" "fn_insts f2 = fn_insts f1"
    by (rule table_pointer_reads [OF inv a v(2) index v(3)])
  note types = f2(1) [unfolded compiles_def]
  have "table_inv (in_tables oinst ! d)"
    using own_slot(1) [OF inv owner(2)] owner(3) by (auto simp: inst_shape_def Let_def)
  note fields = vmtable_fields [OF this def]
  let ?gv1 = "GvLoad ptr bo (fe_pointer_type env1) False"
  let ?gv2 = "GvLoad ptr eo (type_of_vmtable_definition_current_elements env1) False"
  have one: "gv_value (tc_bytes (fe_target_config env1)) (st_heap st) a (fn_gvs f2 @ [?gv1]) (length (fn_gvs f2)) (vmt_base def)"
    using types loads(1) by (intro gv_value_load [OF p]) simp
  have two: "gv_value (tc_bytes (fe_target_config env1)) (st_heap st) a ((fn_gvs f2 @ [?gv1]) @ [?gv2]) (length (fn_gvs f2 @ [?gv1]))
      (ucast (vmt_current_elements def))"
    using types loads(2) by (intro gv_value_load [OF gv_value_append [OF p]])
      (simp add: type_of_vmtable_definition_current_elements_def size_of_vmtable_definition_current_elements_def)
  let ?f = "f2\<lparr>fn_gvs := fn_gvs f2 @ [?gv1, ?gv2], fn_tables := fn_tables f2 @
    [\<lparr>td_base_gv = length (fn_gvs f2), td_min_size = 0, td_bound_gv = Suc (length (fn_gvs f2)), td_element_size = 24,
      td_index_type = fe_I32 env1\<rparr>]\<rparr>"
  have "make_table index env f = Inr (length (fn_tables f2), env1, ?f)"
    using v(1) tp index types context_fields(13) [OF inst_shapeD(1) [OF own_slot(1) [OF inv a]]]
    by (simp add: make_table_def create_global_value_def create_table_def index_res_def)
  moreover have "compiles env1 ?f inst" using types by (auto simp: compiles_def nth_append)
  moreover have "ucast (vmt_current_elements def) = (of_nat (length (tb_vec (in_tables oinst ! d))) :: u64)"
    using fields(2) by (metis of_nat_unat)
  then have "addresses_table env1 st a ?f (length (fn_tables f2)) (in_tables oinst ! d)"
    using gv_value_append [OF one, of "[?gv2]"] two fields(1) by (simp add: addresses_table_def)
  ultimately show ?thesis using that owner f2(2) v(4) by simp
qed

section \<open>Globals\<close>

text \<open>A global variable of a function is at the address that the runtime uses for the same index.\<close>

lemma make_global_sound:
  assumes inv: "store_inv st" and a: "st_instances st a = Some inst" and ok: "compiles env f inst"
    and index: "index < length (globals (in_module inst))"
  obtains gv env' f' p where "make_global index env f = Inr (gv, env', f')" "compiles env' f' inst"
    "reads env' st a f' (gvar_gv gv) p" "global_pointer st a inst index = Inr (p + scast (gvar_offset gv))"
    "gvar_ty gv = glb_ty (globals (in_module inst) ! index)"
proof -
  obtain g env1 f1 where v: "fe_vmctx_gv env f = (g, env1, f1)" "compiles env1 f1 inst" "reads env1 st a f1 g a"
    by (rule vmctx_gv [OF ok])
  note types = v(2) [unfolded compiles_def]
  have lay: "lay_size (in_offsets inst) < 2 ^ 31" using types by simp
  note cf = context_fields [OF inst_shapeD(1) [OF own_slot(1) [OF inv a]]]
  show ?thesis
  proof (cases "defined_global_index (in_module inst) index")
    case (Some k)
    have used: "k < used inst (GlobDef (of_nat k))" using global_space.defined_lt [OF Some index] by simp
    obtain x c where x: "slot_offset (in_offsets inst) (GlobDef (of_nat k)) = Some x" "slot_good st inst (GlobDef (of_nat k)) c"
      "read_cell (a + ucast x) (st_heap st) = Some c"
      "\<And>k. unat k < cell_size c \<Longrightarrow> checked_add x k = Some (x + k) \<and> offset_i32 (Some (x + k)) = Inr (x + k)"
      by (rule slot_load [OF inv a used slot_kinds_array(8) lay]) blast
    have "0 < cell_size c" by (rule cell_size_bounds)
    then have x31: "offset_i32 (Some x) = Inr x" using x(4) [of 0] by simp
    then have "scast x = (ucast x :: u64)" by (intro scast_offset) (simp add: offset_i32_def split: if_splits)
    then show ?thesis
      using that [of "\<lparr>gvar_gv = g, gvar_offset = x, gvar_ty = glb_ty (globals (in_module inst) ! index)\<rparr>" env1 f1 a]
        v Some x(1) x31 types index
      by (simp add: make_global_def index_res_def global_pointer_def global_mut_def vm_add_def)
  next
    case None
    then have used: "index < used inst (GlobImport (of_nat index))"
      by (simp add: global_space.defined_None_iff is_imported_global_def)
    obtain x c where x: "slot_offset (in_offsets inst) (GlobImport (of_nat index)) = Some x"
      "read_cell (a + ucast x) (st_heap st) = Some c" "slot_good st inst (GlobImport (of_nat index)) c"
      "\<And>k. unat k < cell_size c \<Longrightarrow> checked_add x k = Some (x + k) \<and> offset_i32 (Some (x + k)) = Inr (x + k)"
      "\<And>k n. unat k < cell_size c \<Longrightarrow> unat k + n \<le> length (cell_bytes c) \<Longrightarrow>
         load_at (st_heap st) (a + scast (x + k)) n = Some (from_le (take n (drop (unat k) (cell_bytes c))))"
      by (rule slot_load [OF inv a used slot_kinds_array(5) lay]) blast
    then obtain imp where c: "c = CGlobalImport imp" by (cases c) simp_all
    let ?f = "f1\<lparr>fn_gvs := fn_gvs f1 @ [GvLoad g x (fe_pointer_type env1) True]\<rparr>"
    have "reads env1 st a ?f (length (fn_gvs f1)) (gi_from imp)"
      using gv_value_load [OF v(3)] x(5) [of 0 8] types by (simp add: c from_to_le_wide)
    moreover have "compiles env1 ?f inst" using types by (auto simp: compiles_def nth_append)
    moreover have "global_pointer st a inst index = Inr (gi_from imp)"
      using None x(1,2) c by (simp add: global_pointer_def imported_global_def vm_add_def deref_global_import_def)
    ultimately show ?thesis
      using that [of "\<lparr>gvar_gv = length (fn_gvs f1), gvar_offset = 0, gvar_ty = glb_ty (globals (in_module inst) ! index)\<rparr>"]
        v(1) None x(1) x(4) [of 0] types index cf
      by (simp add: make_global_def index_res_def vmctx_vmglobal_import_from_def create_global_value_def c)
  qed
qed

end
