(* ===== verification/Compiled_Calls.thy ===== *)
theory Compiled_Calls
  imports Func_Env_Sound
begin

text \<open>
  The calls that compiled code makes: a meaning for the straight-line code that the function environment emits, and what that
  code does on a machine whose memory holds the contexts and the tables of a store. An indirect call reaches
  exactly the function that the table holds, and only when its signature is the expected one; a call of an import reaches the
  function that instantiation put into the context; \<^verbatim>\<open>memory.grow\<close> and \<^verbatim>\<open>memory.size\<close> call the builtin of the memory's kind.
\<close>

section \<open>Straight-line code\<close>

datatype trap = TableOutOfBounds | Trapz trap_code

datatype call_target = Direct nat | Indirect nat u64

text \<open>Code runs to its first call, traps, or faults: on a load of memory that holds nothing or a value that does not exist.\<close>

datatype outcome = Falls_through "u64 list" | Traps trap | Calls call_target "u64 list" | Faults

record machine =
  mc_load :: "address \<Rightarrow> nat \<Rightarrow> u64 option"
  mc_params :: "u64 list"
  mc_gvs :: "u64 option list"
  mc_tables :: "table_data list"
  mc_bytes :: "ir_type \<Rightarrow> nat"

definition value_of :: "machine \<Rightarrow> u64 list \<Rightarrow> ir_value \<Rightarrow> u64 option" where
  "value_of mc vals v = (case v of VParam n \<Rightarrow> get (mc_params mc) n | VInst n \<Rightarrow> get vals n)"

definition values_of :: "machine \<Rightarrow> u64 list \<Rightarrow> ir_value list \<Rightarrow> u64 list option" where
  "values_of mc vals vs = those (map (value_of mc vals) vs)"

definition gv_of :: "machine \<Rightarrow> nat \<Rightarrow> u64 option" where
  "gv_of mc g = (if g < length (mc_gvs mc) then mc_gvs mc ! g else None)"

text \<open>\<^verbatim>\<open>table_addr\<close> compares the index with the bound and traps when it is not below.\<close>

definition table_addr :: "machine \<Rightarrow> nat \<Rightarrow> u64 \<Rightarrow> outcome + u64" where
  "table_addr mc table i =
     (if table < length (mc_tables mc)
      then
        (let td = mc_tables mc ! table in
         case (gv_of mc (td_base_gv td), gv_of mc (td_bound_gv td)) of
           (Some base, Some bound) \<Rightarrow>
             if i < bound then Inr (base + i * td_element_size td) else Inl (Traps TableOutOfBounds)
         | _ \<Rightarrow> Inl Faults)
      else Inl Faults)"

definition or_fault :: "'a option \<Rightarrow> outcome + 'a" where
  "or_fault r = (case r of None \<Rightarrow> Inl Faults | Some x \<Rightarrow> Inr x)"

definition or_stop :: "outcome + 'a \<Rightarrow> ('a \<Rightarrow> outcome + 'b) \<Rightarrow> outcome + 'b" where
  "or_stop r k = (case r of Inl e \<Rightarrow> Inl e | Inr x \<Rightarrow> k x)"

text \<open>One instruction: its value, or how the code ends there. An instruction without a result takes a place of the list too.\<close>

fun run_inst :: "machine \<Rightarrow> u64 list \<Rightarrow> ir_inst \<Rightarrow> outcome + u64" where
  "run_inst mc vals (IGlobalValue ty g) = or_fault (gv_of mc g)"
| "run_inst mc vals (ILoad ty p offset) =
     or_stop (or_fault (value_of mc vals p)) (\<lambda>p. or_fault (mc_load mc (p + scast offset) (mc_bytes mc ty)))"
| "run_inst mc vals (ITableAddr ty table i) = or_stop (or_fault (value_of mc vals i)) (table_addr mc table)"
| "run_inst mc vals (ITrapz v code) =
     or_stop (or_fault (value_of mc vals v)) (\<lambda>x. if x = 0 then Inl (Traps (Trapz code)) else Inr 0)"
| "run_inst mc vals (IIcmpEqual v w) =
     or_stop (or_fault (value_of mc vals v)) (\<lambda>x. or_stop (or_fault (value_of mc vals w)) (\<lambda>y.
     Inr (if x = y then 1 else 0)))"
| "run_inst mc vals (IIconst ty n) = Inr n"
| "run_inst mc vals (ICall func args) = or_stop (or_fault (values_of mc vals args)) (\<lambda>xs. Inl (Calls (Direct func) xs))"
| "run_inst mc vals (ICallIndirect sig func args) =
     or_stop (or_fault (value_of mc vals func)) (\<lambda>p. or_stop (or_fault (values_of mc vals args)) (\<lambda>xs.
     Inl (Calls (Indirect sig p) xs)))"

fun run_code :: "machine \<Rightarrow> u64 list \<Rightarrow> ir_inst list \<Rightarrow> outcome" where
  "run_code mc vals [] = Falls_through vals"
| "run_code mc vals (i # rest) =
     (case run_inst mc vals i of Inl e \<Rightarrow> e | Inr x \<Rightarrow> run_code mc (vals @ [x]) rest)"

lemma or_stop_simps [simp]: "or_stop (Inl e) k = Inl e" "or_stop (Inr x) k = k x"
  "or_fault None = Inl Faults" "or_fault (Some x) = Inr x"
  by (simp_all add: or_stop_def or_fault_def)

lemma value_of_older [simp]:
  "value_of mc vals v = Some x \<Longrightarrow> value_of mc (vals @ xs) v = Some x"
  by (cases v) (auto simp: value_of_def get_def nth_append split: if_splits)

lemma value_of_new [simp]: "value_of mc (vals @ x # xs) (VInst (length vals)) = Some x"
  by (simp add: value_of_def get_def)

lemma value_of_next [simp]:
  "value_of mc (vals @ xs) (VInst (length vals + n)) = get xs n"
  "value_of mc (vals @ xs) (VInst (Suc (length vals))) = get xs 1"
  by (simp_all add: value_of_def get_def nth_append)

lemma values_of_older:
  "values_of mc vals vs = Some xs \<Longrightarrow> values_of mc (vals @ ys) vs = Some xs"
  by (induction vs arbitrary: xs) (auto simp: values_of_def split: option.splits)

lemma values_of_Cons: "values_of mc vals (v # vs) =
    value_of mc vals v \<bind> (\<lambda>x. map_option (Cons x) (values_of mc vals vs))"
  by (auto simp: values_of_def split: option.splits)

section \<open>Machines that hold a store\<close>

text \<open>The structs of the contexts, and the elements of the tables where their vectors are.\<close>

definition holds_element :: "(address \<Rightarrow> nat \<Rightarrow> u64 option) \<Rightarrow> address \<Rightarrow> anyfunc \<Rightarrow> bool" where
  "holds_element ld p af \<longleftrightarrow>
     ld p 8 = Some (af_func_ptr af) \<and> ld (p + 8) 4 = Some (ucast (af_type_index af)) \<and>
     ld (p + 16) 8 = Some (af_vmctx af)"

definition holds_store :: "(address \<Rightarrow> nat \<Rightarrow> u64 option) \<Rightarrow> store \<Rightarrow> bool" where
  "holds_store ld st \<longleftrightarrow>
     (\<forall>p n x. load_at (st_heap st) p n = Some x \<longrightarrow> ld p n = Some x) \<and>
     (\<forall>a inst t i. st_instances st a = Some inst \<longrightarrow> t \<in> set (in_tables inst) \<longrightarrow> i < length (tb_vec t) \<longrightarrow>
        holds_element ld (tb_base t + of_nat i * 24) (tb_vec t ! i))"

text \<open>The machine that runs a function with a context: loads from memory, the global values and tables that the function declares.\<close>

definition running :: "(address \<Rightarrow> nat \<Rightarrow> u64 option) \<Rightarrow> u64 list \<Rightarrow> store \<Rightarrow> address \<Rightarrow> func_environment \<Rightarrow> ir_function \<Rightarrow> machine" where
  "running ld params st a env f =
     \<lparr>mc_load = ld, mc_params = params,
      mc_gvs = eval_gvs (tc_bytes (fe_target_config env)) (st_heap st) a (fn_gvs f), mc_tables = fn_tables f,
      mc_bytes = tc_bytes (fe_target_config env)\<rparr>"

lemma running_simps [simp]:
  "mc_load (running ld params st a env f) = ld"
  "mc_params (running ld params st a env f) = params"
  "mc_tables (running ld params st a env f) = fn_tables f"
  "mc_bytes (running ld params st a env f) = tc_bytes (fe_target_config env)"
  by (simp_all add: running_def)

lemma gv_of_reads: "reads env st a f g v \<Longrightarrow> gv_of (running ld params st a env f) g = Some v"
  by (simp add: gv_of_def running_def gv_value_def)

text \<open>What a translation emits behaves as a predicate says of the machine, the values of the earlier instructions and the outcome.\<close>

definition behaves :: "(address \<Rightarrow> nat \<Rightarrow> u64 option) \<Rightarrow> store \<Rightarrow> address \<Rightarrow> ir_function \<Rightarrow> ir_value building \<Rightarrow>
    (machine \<Rightarrow> u64 list \<Rightarrow> outcome \<Rightarrow> bool) \<Rightarrow> bool" where
  "behaves ld st a f r P \<longleftrightarrow>
     (\<exists>res env' f' code. r = Inr (res, env', f') \<and> fn_insts f' = fn_insts f @ code \<and>
        (\<forall>params vals. length vals = length (fn_insts f) \<longrightarrow>
           P (running ld params st a env' f') vals (run_code (running ld params st a env' f') vals code)))"

lemma behavesI:
  assumes "r = Inr (res, env', f')" and "fn_insts f' = fn_insts f @ code"
    and "\<And>params vals. length vals = length (fn_insts f) \<Longrightarrow>
      P (running ld params st a env' f') vals (run_code (running ld params st a env' f') vals code)"
  shows "behaves ld st a f r P"
  using assms unfolding behaves_def by blast

lemma behaves_mono:
  "behaves ld st a f r P \<Longrightarrow> (\<And>mc vals out. P mc vals out \<Longrightarrow> Q mc vals out) \<Longrightarrow> behaves ld st a f r Q"
  unfolding behaves_def by blast

lemma table_addr_addresses:
  assumes "addresses_table env st a f table t" and "table_inv t"
  shows "table_addr (running ld params st a env f) table (ucast (i :: u32)) =
    (if unat i < length (tb_vec t) then Inr (tb_base t + of_nat (unat i) * 24) else Inl (Traps TableOutOfBounds))"
proof -
  have "unat (of_nat (length (tb_vec t)) :: u64) = length (tb_vec t)"
    using assms(2) by (simp add: table_inv_def unat_of_nat_u64)
  then have "(ucast i :: u64) < of_nat (length (tb_vec t)) \<longleftrightarrow> unat i < length (tb_vec t)"
    by (simp add: word_less_nat_alt)
  moreover note gvs = assms(1) [unfolded addresses_table_def]
  moreover note gv_of_reads [of env st a f _ _ ld params, OF conjunct1 [OF conjunct2 [OF conjunct2 [OF gvs]]]]
    gv_of_reads [of env st a f _ _ ld params, OF conjunct2 [OF conjunct2 [OF conjunct2 [OF gvs]]]]
  ultimately show ?thesis by (simp add: table_addr_def Let_def)
qed

section \<open>Indirect calls\<close>

lemma fe_vmctx_gv_insts:
  "fe_vmctx_gv env f = (g, env', f') \<Longrightarrow>
    fe_vmctx_gv env (f\<lparr>fn_insts := is\<rparr>) = (g, env', f'\<lparr>fn_insts := is\<rparr>)"
  by (auto simp: fe_vmctx_gv_def create_global_value_def split: option.splits)

text \<open>The check of the signature happens after that of the pointer and before the call.\<close>

definition indirect_call_code :: "func_environment \<Rightarrow> nat \<Rightarrow> u32 \<Rightarrow> nat \<Rightarrow> nat \<Rightarrow> ir_value \<Rightarrow> ir_value list \<Rightarrow> nat \<Rightarrow> ir_inst list" where
  "indirect_call_code env g offset table sig_ref callee_ref call_args n =
     [ITableAddr (fe_pointer_type env) table callee_ref, ILoad (fe_pointer_type env) (VInst n) 0,
      ITrapz (VInst (n + 1)) IndirectCallToNull, IGlobalValue (fe_pointer_type env) g,
      ILoad (fe_I32 env) (VInst (n + 3)) offset, ILoad (fe_I32 env) (VInst n) 8,
      IIcmpEqual (VInst (n + 5)) (VInst (n + 4)), ITrapz (VInst (n + 6)) BadSignature,
      ILoad (fe_pointer_type env) (VInst n) 16, ICallIndirect sig_ref (VInst (n + 1)) (VInst (n + 8) # call_args)]"

lemma translate_call_indirect_emits:
  assumes ok: "compiles env f inst" and shape: "inst_shape inst"
    and v: "fe_vmctx_gv env f = (g, env', f1)" "fn_insts f1 = fn_insts f" "fe_target_config env' = fe_target_config env"
    and tab: "tab_index < length (table_plans (in_module inst))"
    and off: "offset_i32 (vmctx_vmshared_signature_id (in_offsets inst) (of_nat sig_index)) = Inr offset"
  shows "translate_call_indirect tab_index table sig_index sig_ref callee_ref call_args env f =
    Inr (VInst (length (fn_insts f) + 9), env', f1\<lparr>fn_insts := fn_insts f @
      indirect_call_code env g offset table sig_ref callee_ref call_args (length (fn_insts f))\<rparr>)"
proof -
  note cf = context_fields [OF inst_shapeD(1) [OF shape]]
  have offs: "fe_offsets env = in_offsets inst" "fe_module env = in_module inst" using ok by (simp_all add: compiles_def)
  have "unat (size_of_vmshared_signature_index (in_offsets inst)) * 8 = 32" by (simp add: size_of_vmshared_signature_index_def)
  then show ?thesis
    using tab off v(3)
    by (simp add: translate_call_indirect_def ins_def index_res_def offs cf fe_vmctx_gv_insts [OF v(1)] indirect_call_code_def
        Let_def)
qed

text \<open>What \<^verbatim>\<open>call_indirect\<close> means, in terms of the table that the runtime keeps.\<close>

definition indirect_call :: "table \<Rightarrow> u32 \<Rightarrow> u32 \<Rightarrow> nat \<Rightarrow> u64 list \<Rightarrow> outcome" where
  "indirect_call t i expected sig_ref xs =
     (case table_get t i of
        None \<Rightarrow> Traps TableOutOfBounds
      | Some af \<Rightarrow>
          if af_func_ptr af = 0 then Traps (Trapz IndirectCallToNull)
          else if af_type_index af \<noteq> expected then Traps (Trapz BadSignature)
          else Calls (Indirect sig_ref (af_func_ptr af)) (af_vmctx af # xs))"

lemma ucast_u32_u64_eq: "(ucast (x :: u32) :: u64) = ucast y \<longleftrightarrow> x = y"
  by (simp add: word_eq_iff_unat)

lemma run_indirect_call:
  fixes i expected :: u32
  assumes n: "length vals = n" and callee: "value_of mc vals callee_ref = Some (ucast i)"
    and args: "values_of mc vals call_args = Some xs"
    and bytes: "mc_bytes mc (fe_pointer_type env) = 8" "mc_bytes mc (fe_I32 env) = 4"
    and addr: "table_addr mc table (ucast i) =
      (if unat i < length (tb_vec t) then Inr (tb_base t + of_nat (unat i) * 24) else Inl (Traps TableOutOfBounds))"
    and elem: "unat i < length (tb_vec t) \<Longrightarrow>
      holds_element (mc_load mc) (tb_base t + of_nat (unat i) * 24) (tb_vec t ! unat i)"
    and vmctx: "gv_of mc g = Some a" and sig: "mc_load mc (a + scast offset) 4 = Some (ucast expected)"
  shows "run_code mc vals (indirect_call_code env g offset table sig_ref callee_ref call_args n) =
    indirect_call t i expected sig_ref xs"
proof (cases "unat i < length (tb_vec t)")
  case True
  note loads = elem [OF True, unfolded holds_element_def]
  have offs: "scast (0 :: u32) = (0 :: u64)" "scast (8 :: u32) = (8 :: u64)" "scast (16 :: u32) = (16 :: u64)"
    by (simp_all add: scast_offset)
  show ?thesis
    using True loads
    by (simp add: indirect_call_code_def indirect_call_def table_get_def get_def callee addr bytes vmctx sig offs
        values_of_Cons values_of_older [OF args] ucast_u32_u64_eq flip: n)
next
  case False
  then show ?thesis
    by (simp add: indirect_call_code_def indirect_call_def table_get_def get_def callee addr)
qed

lemma signature_reads:
  assumes inv: "store_inv st" and a: "st_instances st a = Some inst" and lay: "lay_size (in_offsets inst) < 2 ^ 31"
    and i: "i < length (signatures (in_module inst))"
  obtains offset expected where "offset_i32 (vmctx_vmshared_signature_id (in_offsets inst) (of_nat i)) = Inr offset"
    "signature_id (st_heap st) a (in_offsets inst) i = Inr expected"
    "load_at (st_heap st) (a + scast offset) 4 = Some (ucast expected)"
proof -
  have used: "i < used inst (SigId (of_nat i))" using i by simp
  obtain x c where x: "slot_offset (in_offsets inst) (SigId (of_nat i)) = Some x"
    "read_cell (a + ucast x) (st_heap st) = Some c" "slot_good st inst (SigId (of_nat i)) c"
    "\<And>k. unat k < cell_size c \<Longrightarrow> checked_add x k = Some (x + k) \<and> offset_i32 (Some (x + k)) = Inr (x + k)"
    "\<And>k n. unat k < cell_size c \<Longrightarrow> unat k + n \<le> length (cell_bytes c) \<Longrightarrow>
       load_at (st_heap st) (a + scast (x + k)) n = Some (from_le (take n (drop (unat k) (cell_bytes c))))"
    by (rule slot_load [OF inv a used slot_kinds_array(1) lay]) blast
  then obtain expected where c: "c = CSig expected" by (cases c) simp_all
  show ?thesis
    using that [of x expected] x(1,2) x(4) [of 0] x(5) [of 0 4]
    by (simp add: c signature_id_def vm_add_def deref_sig_def from_to_le_wide)
qed

lemma addresses_table_later:
  assumes "addresses_table env st a f table t" and "fn_tables f' = fn_tables f" and "fn_gvs f' = fn_gvs f @ ds"
    and "fe_target_config env' = fe_target_config env"
  shows "addresses_table env' st a f' table t"
  using assms by (auto simp: addresses_table_def intro: gv_value_append)

text \<open>C4. An indirect call that Cranelift compiles is the one that the runtime's table stands for. In an instance of a store that the runtime
  keeps, on a machine whose memory holds that store, the code emitted for \<^verbatim>\<open>call_indirect\<close> traps when the index is not below the
  current size of the table (the owner's, when the table is imported), traps on an element that is null, traps when the signature of the element is not
  the shared signature of the expected type, and otherwise calls exactly the element's function with the element's own context
  before the arguments; it never faults.\<close>

theorem call_indirect_sound:
  assumes inv: "store_inv st" and a: "st_instances st a = Some inst" and ok: "compiles env f inst"
    and tab: "tab_index < length (table_plans (in_module inst))"
    and sig: "sig_index < length (signatures (in_module inst))" and mem: "holds_store ld st"
  shows "\<exists>table env1 f1 owner oinst d expected.
    make_table tab_index env f = Inr (table, env1, f1) \<and> table_owner st a inst tab_index owner d \<and>
    st_instances st owner = Some oinst \<and> d < length (in_tables oinst) \<and>
    signature_id (st_heap st) a (in_offsets inst) sig_index = Inr expected \<and>
    (\<forall>sig_ref callee_ref call_args.
       behaves ld st a f1 (translate_call_indirect tab_index table sig_index sig_ref callee_ref call_args env1 f1)
         (\<lambda>mc vals out. \<forall>i xs. value_of mc vals callee_ref = Some (ucast i) \<longrightarrow> values_of mc vals call_args = Some xs \<longrightarrow>
            out = indirect_call (in_tables oinst ! d) i expected sig_ref xs))"
proof -
  obtain table env1 f1 owner oinst d where t: "make_table tab_index env f = Inr (table, env1, f1)" "compiles env1 f1 inst"
    "table_owner st a inst tab_index owner d" "st_instances st owner = Some oinst" "d < length (in_tables oinst)"
    "addresses_table env1 st a f1 table (in_tables oinst ! d)"
    by (rule make_table_addresses [OF inv a ok tab])
  let ?t = "in_tables oinst ! d"
  have lay: "lay_size (in_offsets inst) < 2 ^ 31" using ok by (simp add: compiles_def)
  obtain offset expected where s: "offset_i32 (vmctx_vmshared_signature_id (in_offsets inst) (of_nat sig_index)) = Inr offset"
    "signature_id (st_heap st) a (in_offsets inst) sig_index = Inr expected"
    "load_at (st_heap st) (a + scast offset) 4 = Some (ucast expected)"
    by (rule signature_reads [OF inv a lay sig])
  obtain g env' f2 ds where v: "fe_vmctx_gv env1 f1 = (g, env', f2)" "compiles env' f2 inst" "reads env' st a f2 g a"
    "fe_target_config env' = fe_target_config env1" "fn_insts f2 = fn_insts f1" "fn_tables f2 = fn_tables f1"
    "fn_gvs f2 = fn_gvs f1 @ ds"
    by (rule vmctx_gv [OF t(2)]) blast
  have inv_t: "table_inv ?t"
    using own_slot(1) [OF inv t(4)] t(5) by (auto simp: inst_shape_def Let_def)
  have "run_code (running ld params st a env' f') vals
      (indirect_call_code env1 g offset table sig_ref callee_ref call_args (length (fn_insts f1))) =
      indirect_call ?t i expected sig_ref xs"
    if "length vals = length (fn_insts f1)" "fn_gvs f' = fn_gvs f2" "fn_tables f' = fn_tables f2"
      "value_of (running ld params st a env' f') vals callee_ref = Some (ucast i)"
      "values_of (running ld params st a env' f') vals call_args = Some xs"
    for vals params i xs sig_ref callee_ref call_args f'
  proof (rule run_indirect_call [OF that(1,4,5)])
    have "addresses_table env' st a f' table ?t" by (rule addresses_table_later [OF t(6), of _ ds]) (simp_all add: v that(2,3))
    then show "table_addr (running ld params st a env' f') table (ucast i) =
      (if unat i < length (tb_vec ?t) then Inr (tb_base ?t + of_nat (unat i) * 24) else Inl (Traps TableOutOfBounds))"
      by (rule table_addr_addresses [OF _ inv_t])
    show "gv_of (running ld params st a env' f') g = Some a" using v(3) that(2) by (simp add: gv_of_reads)
    show "mc_load (running ld params st a env' f') (a + scast offset) 4 = Some (ucast expected)"
      using mem s(3) by (simp add: holds_store_def)
    show "holds_element (mc_load (running ld params st a env' f')) (tb_base ?t + of_nat (unat i) * 24) (tb_vec ?t ! unat i)"
      if "unat i < length (tb_vec ?t)" using mem t(4,5) that nth_mem unfolding holds_store_def running_simps by blast
  qed (use v(2,4) in \<open>simp_all add: compiles_def\<close>)
  note runs = this
  have "behaves ld st a f1 (translate_call_indirect tab_index table sig_index sig_ref callee_ref call_args env1 f1)
      (\<lambda>mc vals out. \<forall>i xs. value_of mc vals callee_ref = Some (ucast i) \<longrightarrow> values_of mc vals call_args = Some xs \<longrightarrow>
         out = indirect_call ?t i expected sig_ref xs)" for sig_ref callee_ref call_args
    by (rule behavesI [OF translate_call_indirect_emits [OF t(2) own_slot(1) [OF inv a] v(1,5,4) tab s(1)]])
      (auto intro: runs)
  then show ?thesis using t s(2) by blast
qed

section \<open>Direct calls\<close>

lemma function_import_reads:
  assumes inv: "store_inv st" and a: "st_instances st a = Some inst" and lay: "lay_size (in_offsets inst) < 2 ^ 31"
    and i: "i < length (imported_funcs (in_module inst))"
  obtains imp bo vo where "imported_function (st_heap st) a (in_offsets inst) i = Inr imp"
    "offset_i32 (vmctx_vmfunction_import_body (in_offsets inst) (of_nat i)) = Inr bo"
    "offset_i32 (vmctx_vmfunction_import_vmctx (in_offsets inst) (of_nat i)) = Inr vo"
    "load_at (st_heap st) (a + scast bo) 8 = Some (fi_body imp)" "load_at (st_heap st) (a + scast vo) 8 = Some (fi_vmctx imp)"
proof -
  have used: "i < used inst (FuncImport (of_nat i))" using i by simp
  obtain x c where x: "slot_offset (in_offsets inst) (FuncImport (of_nat i)) = Some x"
    "read_cell (a + ucast x) (st_heap st) = Some c" "slot_good st inst (FuncImport (of_nat i)) c"
    "\<And>k. unat k < cell_size c \<Longrightarrow> checked_add x k = Some (x + k) \<and> offset_i32 (Some (x + k)) = Inr (x + k)"
    "\<And>k n. unat k < cell_size c \<Longrightarrow> unat k + n \<le> length (cell_bytes c) \<Longrightarrow>
       load_at (st_heap st) (a + scast (x + k)) n = Some (from_le (take n (drop (unat k) (cell_bytes c))))"
    by (rule slot_load [OF inv a used slot_kinds_array(2) lay]) blast
  then obtain imp where c: "c = CFuncImport imp" by (cases c) simp_all
  note cf = context_fields [OF inst_shapeD(1) [OF own_slot(1) [OF inv a]]]
  show ?thesis
    using that [of imp x "x + 8"] x(1,2) x(4) [of 0] x(4) [of 8] x(5) [of 0 8] x(5) [of 8 8]
    by (simp add: c imported_function_def vm_add_def deref_function_import_def from_to_le_wide
        vmctx_vmfunction_import_body_def vmctx_vmfunction_import_vmctx_def cf)
qed

lemma run_import_call:
  assumes n: "length vals = n" and vmctx: "gv_of mc g = Some a" and bytes: "mc_bytes mc ty = 8"
    and loads: "mc_load mc (a + scast bo) 8 = Some body" "mc_load mc (a + scast vo) 8 = Some callee_vmctx"
    and args: "values_of mc vals call_args = Some xs"
  shows "run_code mc vals [IGlobalValue ty g, ILoad ty (VInst n) bo, ILoad ty (VInst n) vo,
      ICallIndirect sig_ref (VInst (Suc n)) (VInst (Suc (Suc n)) # call_args)] =
    Calls (Indirect sig_ref body) (callee_vmctx # xs)"
proof -
  have "value_of mc (vals @ [a, body, callee_vmctx]) (VInst (Suc (Suc (length vals)))) = Some callee_vmctx"
    by (simp add: value_of_def get_def nth_append)
  then show ?thesis
    by (simp add: vmctx bytes loads get_def values_of_Cons values_of_older [OF args] flip: n)
qed

lemma translate_call_imported:
  assumes inv: "store_inv st" and a: "st_instances st a = Some inst" and ok: "compiles env f inst" and mem: "holds_store ld st"
    and imported: "is_imported_function (in_module inst) index" and func: "func < length (fn_ext_funcs f)"
  shows "\<exists>body vmctx. callee st a index = Inr (body, vmctx) \<and>
    (\<forall>call_args. behaves ld st a f (translate_call index func call_args env f) (\<lambda>mc vals out.
       \<forall>xs. values_of mc vals call_args = Some xs \<longrightarrow>
         out = Calls (Indirect (ef_signature (fn_ext_funcs f ! func)) body) (vmctx # xs)))"
proof -
  have index: "index < length (imported_funcs (in_module inst))" using imported by (simp add: is_imported_function_def)
  have lay: "lay_size (in_offsets inst) < 2 ^ 31" using ok by (simp add: compiles_def)
  obtain imp bo vo where imp: "imported_function (st_heap st) a (in_offsets inst) index = Inr imp"
    "offset_i32 (vmctx_vmfunction_import_body (in_offsets inst) (of_nat index)) = Inr bo"
    "offset_i32 (vmctx_vmfunction_import_vmctx (in_offsets inst) (of_nat index)) = Inr vo"
    "load_at (st_heap st) (a + scast bo) 8 = Some (fi_body imp)" "load_at (st_heap st) (a + scast vo) 8 = Some (fi_vmctx imp)"
    by (rule function_import_reads [OF inv a lay index])
  obtain g env' f2 where v: "fe_vmctx_gv env f = (g, env', f2)" "compiles env' f2 inst" "reads env' st a f2 g a"
    "fe_target_config env' = fe_target_config env" "fn_insts f2 = fn_insts f"
    by (rule vmctx_gv [OF ok])
  have offs: "fe_offsets env' = in_offsets inst" "fe_module env = in_module inst"
    and bytes: "tc_bytes (fe_target_config env) (fe_pointer_type env) = 8"
    using v(2) ok by (simp_all add: compiles_def)
  have loads: "ld (a + scast bo) 8 = Some (fi_body imp)" "ld (a + scast vo) 8 = Some (fi_vmctx imp)"
    using mem imp(4,5) by (simp_all add: holds_store_def)
  have "callee st a index = Inr (fi_body imp, fi_vmctx imp)"
    using imp(1) a index imported func_space.defined_None_iff [of "in_module inst" index]
    by (simp add: callee_def instance_of_def assert_res_def is_imported_function_def)
  moreover have "behaves ld st a f (translate_call index func call_args env f) (\<lambda>mc vals out.
      \<forall>xs. values_of mc vals call_args = Some xs \<longrightarrow>
        out = Calls (Indirect (ef_signature (fn_ext_funcs f ! func)) (fi_body imp)) (fi_vmctx imp # xs))" for call_args
  proof (rule behavesI)
    show "translate_call index func call_args env f = Inr (VInst (length (fn_insts f) + 3), env', f2\<lparr>fn_insts :=
      fn_insts f @ [IGlobalValue (fe_pointer_type env) g, ILoad (fe_pointer_type env) (VInst (length (fn_insts f))) bo,
        ILoad (fe_pointer_type env) (VInst (length (fn_insts f))) vo,
        ICallIndirect (ef_signature (fn_ext_funcs f ! func)) (VInst (Suc (length (fn_insts f))))
          (VInst (Suc (Suc (length (fn_insts f)))) # call_args)]\<rparr>)"
      using func imported imp(2,3)
      by (simp add: translate_call_def index_res_def Let_def v ins_def offs numeral_3_eq_3)
  qed (use v(3,4) bytes loads in \<open>auto intro!: run_import_call gv_of_reads\<close>)
  ultimately show ?thesis by blast
qed

lemma translate_call_defined:
  assumes a: "st_instances st a = Some inst" and shape: "inst_shape inst" and ok: "compiles env f inst"
    and index: "index < length (func_sigs (in_module inst))" and own: "\<not> is_imported_function (in_module inst) index"
    and param: "fn_vmctx_param f = Some vmctx_param"
  shows "\<exists>body. callee st a index = Inr (body, a) \<and>
    (\<forall>call_args. behaves ld st a f (translate_call index func call_args env f) (\<lambda>mc vals out.
       \<forall>xs. value_of mc vals vmctx_param = Some a \<longrightarrow> values_of mc vals call_args = Some xs \<longrightarrow>
         out = Calls (Direct func) (a # xs)))"
proof -
  obtain k where k: "defined_func_index (in_module inst) index = Some k"
    using own func_space.defined_None_iff [of "in_module inst" index] by (auto simp: is_imported_function_def)
  then have "k < length (in_finished_functions inst)"
    using func_space.defined_lt [OF k index] shape by (auto simp: inst_shape_def Let_def)
  then have "callee st a index = Inr (in_finished_functions inst ! k, a)"
    using a k by (simp add: callee_def instance_of_def unwrap_res_def get_def)
  moreover have "translate_call index func call_args env f = Inr (VInst (length (fn_insts f)), env,
      f\<lparr>fn_insts := fn_insts f @ [ICall func (vmctx_param # call_args)]\<rparr>)" for call_args
    using own param ok by (simp add: translate_call_def ins_def compiles_def unwrap_res_def)
  from behavesI [OF this] have "behaves ld st a f (translate_call index func call_args env f) (\<lambda>mc vals out.
      \<forall>xs. value_of mc vals vmctx_param = Some a \<longrightarrow> values_of mc vals call_args = Some xs \<longrightarrow>
        out = Calls (Direct func) (a # xs))" for call_args
    by (simp add: values_of_Cons)
  ultimately show ?thesis by blast
qed

text \<open>C6. A direct call that Cranelift compiles reaches the function that the runtime would invoke for the same index: a defined function is
  called by its own name with the context of the caller, and an imported one at the address and with the context that instantiation put into the
  context of the caller; in both cases the context comes before the arguments.\<close>

theorem call_sound:
  assumes inv: "store_inv st" and a: "st_instances st a = Some inst" and ok: "compiles env f inst"
    and index: "index < length (func_sigs (in_module inst))" and sig: "func_sigs (in_module inst) ! index < length (signatures (in_module inst))"
    and param: "fn_vmctx_param f = Some vmctx_param" and mem: "holds_store ld st"
  shows "\<exists>func f1 body vmctx.
    make_direct_func index env f = Inr (func, env, f1) \<and> callee st a index = Inr (body, vmctx) \<and>
    ef_name (fn_ext_funcs f1 ! func) = (0, of_nat index) \<and>
    fn_sigs f1 ! ef_signature (fn_ext_funcs f1 ! func) = signatures (in_module inst) ! (func_sigs (in_module inst) ! index) \<and>
    (\<forall>call_args. behaves ld st a f1 (translate_call index func call_args env f1) (\<lambda>mc vals out.
       \<forall>xs. value_of mc vals vmctx_param = Some a \<longrightarrow> values_of mc vals call_args = Some xs \<longrightarrow>
         out = Calls (if is_imported_function (in_module inst) index then Indirect (ef_signature (fn_ext_funcs f1 ! func)) body
                      else Direct func) (vmctx # xs)))"
proof -
  define sig where "sig = signatures (in_module inst) ! (func_sigs (in_module inst) ! index)"
  define func where "func = length (fn_ext_funcs f)"
  define f1 where "f1 = f\<lparr>fn_sigs := fn_sigs f @ [sig], fn_ext_funcs := fn_ext_funcs f @
    [\<lparr>ef_name = (0, of_nat index), ef_signature = length (fn_sigs f), ef_colocated = False\<rparr>]\<rparr>"
  have made: "make_direct_func index env f = Inr (func, env, f1)"
    using ok index assms(5)
    by (simp add: make_direct_func_def index_res_def import_signature_def import_function_def get_func_name_def func_def
        f1_def sig_def compiles_def)
  have f1: "compiles env f1 inst" "func < length (fn_ext_funcs f1)" "fn_vmctx_param f1 = Some vmctx_param"
    "ef_name (fn_ext_funcs f1 ! func) = (0, of_nat index)" "fn_sigs f1 ! ef_signature (fn_ext_funcs f1 ! func) = sig"
    using ok param by (simp_all add: compiles_def f1_def func_def)
  show ?thesis
  proof (cases "is_imported_function (in_module inst) index")
    case True
    from translate_call_imported [OF inv a f1(1) mem True f1(2)]
    show ?thesis using made f1(4,5) True unfolding sig_def by (fastforce elim: behaves_mono)
  next
    case False
    from translate_call_defined [OF a own_slot(1) [OF inv a] f1(1) index False f1(3)]
    show ?thesis using made f1(4,5) False unfolding sig_def by fastforce
  qed
qed

section \<open>Memory operations\<close>

lemma builtin_reads:
  assumes inv: "store_inv st" and a: "st_instances st a = Some inst" and lay: "lay_size (in_offsets inst) < 2 ^ 31"
    and i: "unat i < 4"
  obtains p offset where "cell_at (st_heap st) a (in_offsets inst) (Builtin i) = Some (CBuiltin p)"
    "offset_i32 (vmctx_builtin_function (in_offsets inst) i) = Inr offset" "load_at (st_heap st) (a + scast offset) 8 = Some p"
proof -
  have used: "unat i < used inst (Builtin (of_nat (unat i)))" using i by simp
  obtain x c where x: "slot_offset (in_offsets inst) (Builtin (of_nat (unat i))) = Some x"
    "read_cell (a + ucast x) (st_heap st) = Some c" "slot_good st inst (Builtin (of_nat (unat i))) c"
    "\<And>k. unat k < cell_size c \<Longrightarrow> checked_add x k = Some (x + k) \<and> offset_i32 (Some (x + k)) = Inr (x + k)"
    "\<And>k n. unat k < cell_size c \<Longrightarrow> unat k + n \<le> length (cell_bytes c) \<Longrightarrow>
       load_at (st_heap st) (a + scast (x + k)) n = Some (from_le (take n (drop (unat k) (cell_bytes c))))"
    by (rule slot_load [OF inv a used slot_kinds_array(9) lay]) blast
  then obtain p where c: "c = CBuiltin p" by (cases c) simp_all
  show ?thesis
    using that [of p x] x(1,2) x(4) [of 0] x(5) [of 0 8]
    by (simp add: c cell_at_def from_to_le_wide split: if_splits)
qed

text \<open>What the library call of a slot does; a slot of another kind is never called.\<close>

definition grow_builtin :: "u32 \<Rightarrow> os \<Rightarrow> store \<Rightarrow> address \<Rightarrow> u32 \<Rightarrow> u32 \<Rightarrow> (u32 \<times> store) res" where
  "grow_builtin slot =
     (case builtin_functions_initialized ! unat slot of
        Some Memory32Grow \<Rightarrow> wasmtime_memory32_grow
      | Some ImportedMemory32Grow \<Rightarrow> wasmtime_imported_memory32_grow
      | _ \<Rightarrow> (\<lambda>_ _ _ _ _. Inl Segfault))"

definition size_builtin :: "u32 \<Rightarrow> store \<Rightarrow> address \<Rightarrow> u32 \<Rightarrow> u32 res" where
  "size_builtin slot =
     (case builtin_functions_initialized ! unat slot of
        Some Memory32Size \<Rightarrow> wasmtime_memory32_size
      | Some ImportedMemory32Size \<Rightarrow> wasmtime_imported_memory32_size
      | _ \<Rightarrow> (\<lambda>_ _ _. Inl Segfault))"

lemma builtin_slots:
  "grow_builtin 0 = wasmtime_memory32_grow" "grow_builtin 1 = wasmtime_imported_memory32_grow"
  "size_builtin 2 = wasmtime_memory32_size" "size_builtin 3 = wasmtime_imported_memory32_size"
  by (simp_all add: grow_builtin_def size_builtin_def builtin_functions_initialized_def builtin_functions_total_number_def
      builtin_indices nth_list_update)

text \<open>The index of a memory as compiled code passes it, and the memory that the library call finds there.\<close>

lemma memory_argument:
  assumes inv: "store_inv st" and a: "st_instances st a = Some inst"
    and index: "index < length (memory_plans (in_module inst))"
  obtains arg owner oinst d where "memory_owner st a inst index owner d" "st_instances st owner = Some oinst"
    "d < length (in_memories oinst)"
    "if is_imported_memory (in_module inst) index then unat (arg :: u32) = index
     else defined_memory_index (in_module inst) index = Some (unat arg)"
    "\<And>os delta. (if is_imported_memory (in_module inst) index then imported_memory_grow else memory_grow) os st a (unat arg) delta =
       memory_grow os st owner d delta"
    "(if is_imported_memory (in_module inst) index then imported_memory_size else memory_size) st a (unat arg) =
       Inr (lm_current (in_memories oinst ! d))"
proof (cases "defined_memory_index (in_module inst) index")
  case (Some k)
  then have own: "\<not> is_imported_memory (in_module inst) index"
    using memory_space.defined_None_iff [of "in_module inst" index] by (auto simp: is_imported_memory_def)
  have k: "k < length (in_memories inst)"
    using memory_space.defined_lt [OF Some index] own_slot(1) [OF inv a] by (auto simp: inst_shape_def Let_def)
  then have "unat (of_nat k :: u32) = k" using unat_index [OF own_slot(1) [OF inv a], of k "MemDef 0"] by simp
  then show ?thesis
    using that [of a k inst "of_nat k"] Some own k a
    by (simp add: memory_owner_def memory_size_def instance_of_def unwrap_res_def get_def linear_memory_size_def)
next
  case None
  then have imported: "index < length (imported_memories (in_module inst))"
    by (simp add: memory_space.defined_None_iff is_imported_memory_def)
  then have "unat (of_nat index :: u32) = index" using unat_index [OF own_slot(1) [OF inv a], of index "MemImport 0"] by simp
  moreover obtain imp oinst d where o: "imported_memory (st_heap st) a (in_offsets inst) index = Inr imp"
    "st_instances st (mi_vmctx imp) = Some oinst" "d < length (in_memories oinst)"
    "inst_memory_index oinst (mi_vmctx imp) (mi_from imp) = Inr d"
    by (rule imported_memory_owner [OF inv a imported])
  ultimately show ?thesis
    using that [of "mi_vmctx imp" d oinst "of_nat index"] None imported a
    by (simp add: memory_owner_def is_imported_memory_def imported_memory_grow_def imported_memory_size_def memory_size_def
        instance_of_def unwrap_res_def get_def linear_memory_size_def)
qed

lemma values_of_append: "values_of mc vals (vs @ ws) =
    values_of mc vals vs \<bind> (\<lambda>xs. map_option (append xs) (values_of mc vals ws))"
  by (induction vs; cases "values_of mc vals ws") (auto simp: values_of_Cons values_of_def split: option.splits bind_splits)

lemma run_builtin_call:
  assumes n: "length vals = n" and vmctx: "gv_of mc g = Some a" and bytes: "mc_bytes mc ty = 8"
    and load: "mc_load mc (a + scast offset) 8 = Some p" and args: "values_of mc vals vs = Some xs"
  shows "run_code mc vals [IIconst ty' arg, IGlobalValue ty g, ILoad ty (VInst (Suc n)) offset,
      ICallIndirect sig (VInst (Suc (Suc n))) (VInst (Suc n) # vs @ [VInst n])] =
    Calls (Indirect sig p) (a # xs @ [arg])"
proof -
  have "value_of mc (vals @ [arg, a, p]) (VInst (Suc (Suc (length vals)))) = Some p"
    by (simp add: value_of_def get_def nth_append)
  moreover have "values_of mc (vals @ [arg, a, p]) [VInst (length vals)] = Some [arg]" by (simp add: values_of_def)
  ultimately show ?thesis
    by (simp add: vmctx bytes load get_def values_of_Cons values_of_append values_of_older [OF args] flip: n)
qed

text \<open>A call of a builtin function after its last argument, as both memory operations make it.\<close>

definition call_builtin :: "nat \<Rightarrow> nat \<Rightarrow> u32 \<Rightarrow> ir_value list \<Rightarrow> func_environment \<Rightarrow> ir_function \<Rightarrow> ir_value building" where
  "call_builtin sig index_arg slot vs env f =
     (let (memory_arg, f) = ins (IIconst (fe_I32 env) (of_nat index_arg)) f
      in bind_res (translate_load_builtin_function_address slot env f) (\<lambda>((vmctx, func_addr), env, f).
         Inr (case ins (ICallIndirect sig func_addr (vmctx # vs @ [memory_arg])) f of (call, f) \<Rightarrow> (call, env, f))))"

lemma call_builtin_behaves:
  assumes inv: "store_inv st" and a: "st_instances st a = Some inst" and ok: "compiles env f inst" and mem: "holds_store ld st"
    and slot: "unat slot < 4" and cell: "cell_at (st_heap st) a (in_offsets inst) (Builtin slot) = Some (CBuiltin p)"
  shows "behaves ld st a f (call_builtin sig index_arg slot vs env f) (\<lambda>mc vals out.
    \<forall>xs. values_of mc vals vs = Some xs \<longrightarrow> out = Calls (Indirect sig p) (a # xs @ [of_nat index_arg]))"
proof -
  have lay: "lay_size (in_offsets inst) < 2 ^ 31" using ok by (simp add: compiles_def)
  obtain offset where p: "offset_i32 (vmctx_builtin_function (in_offsets inst) slot) = Inr offset"
    "load_at (st_heap st) (a + scast offset) 8 = Some p"
    using cell by (auto intro: builtin_reads [OF inv a lay slot])
  obtain g env' f2 where v: "fe_vmctx_gv env f = (g, env', f2)" "compiles env' f2 inst" "reads env' st a f2 g a"
    "fe_target_config env' = fe_target_config env" "fn_insts f2 = fn_insts f"
    by (rule vmctx_gv [OF ok])
  show ?thesis
  proof (rule behavesI)
    show "call_builtin sig index_arg slot vs env f = Inr (VInst (length (fn_insts f) + 3), env', f2\<lparr>fn_insts := fn_insts f @
      [IIconst (fe_I32 env) (of_nat index_arg), IGlobalValue (fe_pointer_type env) g,
       ILoad (fe_pointer_type env) (VInst (Suc (length (fn_insts f)))) offset,
       ICallIndirect sig (VInst (Suc (Suc (length (fn_insts f)))))
         (VInst (Suc (length (fn_insts f))) # vs @ [VInst (length (fn_insts f))])]\<rparr>)"
      using v(2) p(1) by (simp add: call_builtin_def translate_load_builtin_function_address_def Let_def ins_def
          fe_vmctx_gv_insts [OF v(1)] v(4) compiles_def numeral_3_eq_3)
  qed (use v ok p(2) mem in \<open>auto simp: compiles_def holds_store_def intro!: run_builtin_call gv_of_reads\<close>)
qed

lemma memory_sigs:
  assumes "compiles env f inst"
  obtains sig env1 f1 sig' env2 f2 where "get_memory_grow_sig env f = (sig, env1, f1)" "compiles env1 f1 inst" "fn_insts f1 = fn_insts f"
    "get_memory32_size_sig env f = (sig', env2, f2)" "compiles env2 f2 inst" "fn_insts f2 = fn_insts f"
  using assms
  by (cases "fe_memory_grow_sig env"; cases "fe_memory32_size_sig env")
    (auto simp: get_memory_grow_sig_def get_memory32_size_sig_def import_signature_def compiles_def Let_def)

lemma behaves_insts: "fn_insts f1 = fn_insts f \<Longrightarrow> behaves ld st a f1 r P \<Longrightarrow> behaves ld st a f r P"
  by (simp add: behaves_def)

lemma translate_memory_ops_call:
  assumes ok: "compiles env f inst"
    and arg: "if is_imported_memory (in_module inst) index then index_arg = index
      else defined_memory_index (in_module inst) index = Some index_arg"
  obtains sig env1 f1 sig' env2 f2 where "compiles env1 f1 inst" "fn_insts f1 = fn_insts f" "compiles env2 f2 inst" "fn_insts f2 = fn_insts f"
    "\<And>val. translate_memory_grow index val env f =
       call_builtin sig index_arg (if is_imported_memory (in_module inst) index then 1 else 0) [val] env1 f1"
    "translate_memory_size index env f =
       call_builtin sig' index_arg (if is_imported_memory (in_module inst) index then 3 else 2) [] env2 f2"
proof -
  obtain sig env1 f1 sig' env2 f2 where s: "get_memory_grow_sig env f = (sig, env1, f1)" "compiles env1 f1 inst" "fn_insts f1 = fn_insts f"
    "get_memory32_size_sig env f = (sig', env2, f2)" "compiles env2 f2 inst" "fn_insts f2 = fn_insts f"
    by (rule memory_sigs [OF ok])
  have m: "fe_module env = in_module inst" "fe_module env1 = in_module inst" "fe_module env2 = in_module inst"
    using ok s by (simp_all add: compiles_def)
  show ?thesis
    using arg by (intro that [OF s(2,3,5,6), of sig sig'])
      (simp_all add: translate_memory_grow_def translate_memory_size_def get_memory_grow_func_def get_memory_size_func_def
        call_builtin_def s m builtin_indices unwrap_res_def Let_def split: if_splits)
qed

text \<open>C7. Compiled \<^verbatim>\<open>memory.grow\<close> and \<^verbatim>\<open>memory.size\<close> operate on the memory that the runtime means. The code emitted for them
  calls the function that the context holds in the slot of a builtin, with the context of the caller, the operand and an index,
  and the library call of that slot does with that index what \<^verbatim>\<open>Instance::memory_grow\<close> and \<^verbatim>\<open>Instance::memory_size\<close> do with the
  memory in the instance that owns it, imported or not.\<close>

theorem memory_operations_sound:
  assumes inv: "store_inv st" and a: "st_instances st a = Some inst" and ok: "compiles env f inst" and mem: "holds_store ld st"
    and index: "index < length (memory_plans (in_module inst))"
  shows "\<exists>owner oinst d arg grow size p q. memory_owner st a inst index owner d \<and>
    st_instances st owner = Some oinst \<and> d < length (in_memories oinst) \<and>
    cell_at (st_heap st) a (in_offsets inst) (Builtin grow) = Some (CBuiltin p) \<and>
    (\<forall>os delta. grow_builtin grow os st a delta arg =
       bind_res (memory_grow os st owner d delta) (\<lambda>(r, st'). Inr (case r of Some n \<Rightarrow> n | None \<Rightarrow> - 1, st'))) \<and>
    (\<forall>val. behaves ld st a f (translate_memory_grow index val env f) (\<lambda>mc vals out.
       \<forall>x. value_of mc vals val = Some x \<longrightarrow> (\<exists>sig. out = Calls (Indirect sig p) [a, x, ucast arg]))) \<and>
    cell_at (st_heap st) a (in_offsets inst) (Builtin size) = Some (CBuiltin q) \<and>
    size_builtin size st a arg = Inr (lm_current (in_memories oinst ! d)) \<and>
    behaves ld st a f (translate_memory_size index env f) (\<lambda>mc vals out. \<exists>sig. out = Calls (Indirect sig q) [a, ucast arg])"
proof -
  let ?imp = "is_imported_memory (in_module inst) index"
  define grow size :: u32 where "grow = (if ?imp then 1 else 0)" and "size = (if ?imp then 3 else 2)"
  obtain arg :: u32 and owner oinst d where m: "memory_owner st a inst index owner d" "st_instances st owner = Some oinst"
    "d < length (in_memories oinst)"
    "if ?imp then unat arg = index else defined_memory_index (in_module inst) index = Some (unat arg)"
    "\<And>os delta. (if ?imp then imported_memory_grow else memory_grow) os st a (unat arg) delta = memory_grow os st owner d delta"
    "(if ?imp then imported_memory_size else memory_size) st a (unat arg) = Inr (lm_current (in_memories oinst ! d))"
    by (rule memory_argument [OF inv a index]) blast
  obtain sig env1 f1 sig' env2 f2 where t: "compiles env1 f1 inst" "fn_insts f1 = fn_insts f" "compiles env2 f2 inst" "fn_insts f2 = fn_insts f"
    "\<And>val. translate_memory_grow index val env f = call_builtin sig (unat arg) grow [val] env1 f1"
    "translate_memory_size index env f = call_builtin sig' (unat arg) size [] env2 f2"
    unfolding grow_def size_def by (rule translate_memory_ops_call [OF ok m(4)]) blast
  have slots: "unat grow < 4" "unat size < 4" by (simp_all add: grow_def size_def)
  have builtins: "grow_builtin grow os st a delta arg =
      bind_res (memory_grow os st owner d delta) (\<lambda>(r, st'). Inr (case r of Some n \<Rightarrow> n | None \<Rightarrow> - 1, st'))"
    "size_builtin size st a arg = Inr (lm_current (in_memories oinst ! d))" for os delta
    using m(5) [of os delta] m(6)
    by (simp_all add: builtin_slots grow_def size_def wasmtime_memory32_grow_def
        wasmtime_imported_memory32_grow_def wasmtime_memory32_size_def wasmtime_imported_memory32_size_def split: if_splits)
  have lay: "lay_size (in_offsets inst) < 2 ^ 31" using ok by (simp add: compiles_def)
  obtain p q where p: "cell_at (st_heap st) a (in_offsets inst) (Builtin grow) = Some (CBuiltin p)"
    and q: "cell_at (st_heap st) a (in_offsets inst) (Builtin size) = Some (CBuiltin q)"
    using builtin_reads [OF inv a lay slots(1)] builtin_reads [OF inv a lay slots(2)] by metis
  have "behaves ld st a f (translate_memory_grow index val env f) (\<lambda>mc vals out.
      \<forall>x. value_of mc vals val = Some x \<longrightarrow> (\<exists>sig. out = Calls (Indirect sig p) [a, x, ucast arg]))" for val
    unfolding t(5) by (rule behaves_insts [OF t(2)], rule behaves_mono [OF call_builtin_behaves [OF inv a t(1) mem slots(1) p]])
      (simp add: values_of_def)
  moreover have "behaves ld st a f (translate_memory_size index env f) (\<lambda>mc vals out. \<exists>sig. out = Calls (Indirect sig q) [a, ucast arg])"
    unfolding t(6) by (rule behaves_insts [OF t(4)], rule behaves_mono [OF call_builtin_behaves [OF inv a t(3) mem slots(2) q]])
      (simp add: values_of_def)
  ultimately show ?thesis using m(1-3) builtins p q by blast
qed

section \<open>An instance that calls\<close>

text \<open>A module with a memory, a table of one null element, a signature and an imported function.\<close>

definition calling_module :: wasm_module where
  "calling_module = example_module\<lparr>
     signatures := [\<lparr>sig_params = [], sig_returns = [], call_conv = 0\<rparr>],
     imported_funcs := [(''env'', ''f'')], func_sigs := [0]\<rparr>"

definition calling_offsets :: vmoffsets where
  "calling_offsets = example_vmoffsets\<lparr>num_signature_ids := 1, num_imported_functions := 1\<rparr>"

definition calling_imports :: resolved_imports where
  "calling_imports = imports_none\<lparr>imp_functions := [\<lparr>fi_body = 0x5000, fi_vmctx = 0x6000\<rparr>]\<rparr>"

lemma calling_offsets: "vmoffsets_new 8 calling_module = Some calling_offsets"
  by (simp add: vmoffsets_new_def calling_module_def example_module_def module_new_def cast_to_u32_def calling_offsets_def
      example_vmoffsets_def)

lemma calling_fits: "layout_fits calling_offsets" "lay_size calling_offsets = 96"
  by (simp_all add: layout_fits_def supported_pointer_def calling_offsets_def example_vmoffsets_def lay_defs)

text \<open>The heap of the context, with nothing where the table is.\<close>

lemma calling_heap:
  assumes "copy_arrays 0x100100 (context_arrays example_env calling_offsets [7] calling_imports [def] [mdef] []) Map.empty = Inr h"
    and "p \<in> {0x3000, 0x3008, 0x3010}"
  shows "h p = None"
  using assms unfolding context_arrays_begin [OF calling_fits(1)]
  by (auto simp: context_specs_def array_begin_def boundaries_def calling_offsets_def example_vmoffsets_def lay_defs vm_add_def
      calling_imports_def imports_none_def example_env_def write_cell_def)

lemma calling_allocates:
  "\<exists>st. instance_allocate example_env calling_module [] calling_imports [7] empty_store = Inr (0x100100, st)"
proof -
  have begins: "size_of_vmctx calling_offsets = Some 96"
    using begins_fit(9) [OF calling_fits(1)] calling_fits(2) by simp
  have mem: "\<exists>mem. linear_memory_new example_os (hd (memory_plans example_module)) = Inr mem"
    by (simp add: example_module_def linear_memory_new_def accessible_reserved_def make_accessible_def
        example_os_def checked_mul_def checked_add_def WASM_MAX_PAGES_def WASM_PAGE_SIZE_def
        unwrap_res_def assert_res_def Let_def)
  have mm: "with_at_least (example_os\<lparr>os_mmap := Some 0x100000\<rparr>) 352 =
      Inr \<lparr>mm_ptr = 0x100000, mm_len = 4096, mm_accessible = [(0, 4096)], mm_bytes = (\<lambda>_. 0)\<rparr>"
    by (simp add: with_at_least_def round_up_to_page_size_def accessible_reserved_def example_os_def assert_res_def Let_def)
  from mem obtain m where m: "linear_memory_new example_os (hd (memory_plans example_module)) = Inr m" ..
  have "\<exists>h. copy_arrays 0x100100 (context_arrays example_env calling_offsets [7] calling_imports
      [\<lparr>vmt_base = 0x3000, vmt_current_elements = 1\<rparr>] [vmmemory m] []) Map.empty = Inr h"
    unfolding context_arrays_begin [OF calling_fits(1)] by (rule copy_arrays_total)
  then show ?thesis
    using m mm begins calling_offsets
    by (auto simp: instance_allocate_def create_tables_def create_memories_def create_globals_def slice_from_def
        calling_module_def example_module_def module_new_def example_env_def table_new_def unwrap_res_def map_err_def vmtable_def
        table_size_def checked_add_def calling_imports_def imports_none_def empty_store_def Let_def)
qed

lemma calling_args:
  "args_ok example_env calling_module [] calling_imports [7] empty_store" "fresh_context empty_store a calling_offsets"
  using example_args calling_offsets calling_fits(1) example_vmoffsets
  by (simp_all add: args_ok_def plans_ok_def imports_ok_def calling_module_def example_module_def module_new_def imports_none_def
      calling_imports_def fresh_context_def)

lemma calling_store:
  obtains st inst where "store_inv st" "st_instances st = [0x100100 \<mapsto> inst]" "in_module inst = calling_module"
    "in_offsets inst = calling_offsets"
    "in_tables inst = [\<lparr>tb_base = 0x3000, tb_vec = [anyfunc_default], tb_maximum = None\<rparr>]"
    "\<forall>p \<in> {0x3000, 0x3008, 0x3010}. st_heap st p = None"
proof -
  obtain st where st: "instance_allocate example_env calling_module [] calling_imports [7] empty_store = Inr (0x100100, st)"
    using calling_allocates by blast
  have "fresh_context empty_store 0x100100 offs" if "vmoffsets_new 8 calling_module = Some offs" for offs
    using that calling_offsets calling_args(2) by simp
  from allocate_keeps [OF st empty_store_inv calling_args(1) this] have inv: "store_inv st" by simp
  obtain tables memories defs globs offs inst where i: "create_tables example_env calling_module = Inr tables"
    "create_memories example_env calling_module = Inr memories" "map_res vmtable tables = Inr defs"
    "create_globals calling_module = Inr globs" "vmoffsets_new 8 calling_module = Some offs"
    "copy_arrays 0x100100 (context_arrays example_env offs [7] calling_imports defs (map vmmemory memories) globs) Map.empty =
      Inr (st_heap st)"
    and inst: "inst = \<lparr>in_refcount = 1, in_dependencies = imp_dependencies calling_imports, in_module = calling_module,
      in_offsets = offs, in_memories = memories, in_tables = tables, in_finished_functions = []\<rparr>"
    and at: "st_instances st = [0x100100 \<mapsto> inst]"
    by (rule allocateD [OF st]) (simp add: empty_store_def)
  have offs: "offs = calling_offsets" using i(5) calling_offsets by simp
  have tables: "tables = [\<lparr>tb_base = 0x3000, tb_vec = [anyfunc_default], tb_maximum = None\<rparr>]"
    using i(1) by (simp add: create_tables_def slice_from_def calling_module_def example_module_def module_new_def example_env_def
        table_new_def unwrap_res_def)
  then have "defs = [\<lparr>vmt_base = 0x3000, vmt_current_elements = 1\<rparr>]"
    using i(3) by (simp add: vmtable_def table_size_def)
  moreover have "inst_shape inst" using own_slot(1) [OF inv] at by simp
  then have "length memories = 1"
    by (simp add: inst inst_shape_def Let_def calling_module_def example_module_def module_new_def)
  then obtain m where "memories = [m]" by (cases memories) auto
  moreover have "globs = []" using i(4) by (simp add: create_globals_def slice_from_def calling_module_def example_module_def module_new_def)
  ultimately have "st_heap st p = None" if "p \<in> {0x3000, 0x3008, 0x3010}" for p
    using calling_heap [OF _ that] i(6) offs by simp
  then show ?thesis using that [OF inv at] inst offs tables by simp
qed

text \<open>The memory of the machine: the context, and the null element of the table.\<close>

definition calling_load :: "heap \<Rightarrow> address \<Rightarrow> nat \<Rightarrow> u64 option" where
  "calling_load h p n =
     (if (p, n) = (0x3000, 8) \<or> (p, n) = (0x3010, 8) then Some 0
      else if (p, n) = (0x3008, 4) then Some (ucast default_signature_index) else load_at h p n)"

lemma calling_machine:
  obtains st inst env where "store_inv st" "st_instances st 0x100100 = Some inst" "in_module inst = calling_module"
    "in_tables inst = [\<lparr>tb_base = 0x3000, tb_vec = [anyfunc_default], tb_maximum = None\<rparr>]"
    "func_environment_new example_target calling_module = Inr env" "compiles env empty_function inst"
    "holds_store (calling_load (st_heap st)) st"
proof -
  obtain st inst where st: "store_inv st" "st_instances st = [0x100100 \<mapsto> inst]" "in_module inst = calling_module"
    "in_offsets inst = calling_offsets" "in_tables inst = [\<lparr>tb_base = 0x3000, tb_vec = [anyfunc_default], tb_maximum = None\<rparr>]"
    "\<forall>p \<in> {0x3000, 0x3008, 0x3010}. st_heap st p = None"
    by (rule calling_store)
  obtain env where env: "func_environment_new example_target (in_module inst) = Inr env" "compiles env empty_function inst"
    by (rule new_environment_compiles [of inst]) (use st(3,4) calling_offsets calling_fits in simp_all)
  have "holds_store (calling_load (st_heap st)) st"
    using st(2,5,6)
    by (auto simp: holds_store_def calling_load_def load_at_def holds_element_def anyfunc_default_def
        split: if_splits)
  then show ?thesis using that st(1,2,3,5) env by simp
qed

lemma calling_module_indices:
  "length (table_plans calling_module) = 1" "length (signatures calling_module) = 1" "length (memory_plans calling_module) = 1"
  "func_sigs calling_module = [0]" "defined_table_index calling_module 0 = Some 0" "defined_memory_index calling_module 0 = Some 0"
  "is_imported_function calling_module 0"
  by (simp_all add: calling_module_def example_module_def module_new_def defined_table_index_def defined_memory_index_def
      is_imported_function_def)

theorem call_indirect_sound_witness:
  "\<exists>st env table env1 f1. store_inv st \<and> func_environment_new example_target calling_module = Inr env \<and>
     make_table 0 env empty_function = Inr (table, env1, f1) \<and>
     behaves (calling_load (st_heap st)) st 0x100100 f1 (translate_call_indirect 0 table 0 5 (VParam 1) [VParam 2] env1 f1)
       (\<lambda>mc vals out. (mc_params mc = [0x100100, 0, 42] \<longrightarrow> out = Traps (Trapz IndirectCallToNull)) \<and>
          (mc_params mc = [0x100100, 1, 42] \<longrightarrow> out = Traps TableOutOfBounds))"
proof -
  obtain st inst env where m: "store_inv st" "st_instances st 0x100100 = Some inst" "in_module inst = calling_module"
    "in_tables inst = [\<lparr>tb_base = 0x3000, tb_vec = [anyfunc_default], tb_maximum = None\<rparr>]"
    "func_environment_new example_target calling_module = Inr env" "compiles env empty_function inst"
    "holds_store (calling_load (st_heap st)) st"
    by (rule calling_machine)
  obtain table env1 f1 expected where t: "make_table 0 env empty_function = Inr (table, env1, f1)"
    "\<forall>sig_ref callee_ref call_args. behaves (calling_load (st_heap st)) st 0x100100 f1
       (translate_call_indirect 0 table 0 sig_ref callee_ref call_args env1 f1)
       (\<lambda>mc vals out. \<forall>i xs. value_of mc vals callee_ref = Some (ucast i) \<longrightarrow> values_of mc vals call_args = Some xs \<longrightarrow>
          out = indirect_call (in_tables inst ! 0) i expected sig_ref xs)"
    using call_indirect_sound [OF m(1,2,6) _ _ m(7), of 0 0] m(2,3) calling_module_indices by (auto simp: table_owner_def)
  from t(2) [rule_format, of 5 "VParam 1" "[VParam 2]"] have "behaves (calling_load (st_heap st)) st 0x100100 f1
      (translate_call_indirect 0 table 0 5 (VParam 1) [VParam 2] env1 f1)
      (\<lambda>mc vals out. (mc_params mc = [0x100100, 0, 42] \<longrightarrow> out = Traps (Trapz IndirectCallToNull)) \<and>
          (mc_params mc = [0x100100, 1, 42] \<longrightarrow> out = Traps TableOutOfBounds))"
  proof (rule behaves_mono)
    fix mc vals out
    assume "\<forall>i xs. value_of mc vals (VParam 1) = Some (ucast i) \<longrightarrow> values_of mc vals [VParam 2] = Some xs \<longrightarrow>
      out = indirect_call (in_tables inst ! 0) i expected 5 xs"
    from this [rule_format, of 0 "[42]"] this [rule_format, of 1 "[42]"]
    show "(mc_params mc = [0x100100, 0, 42] \<longrightarrow> out = Traps (Trapz IndirectCallToNull)) \<and>
          (mc_params mc = [0x100100, 1, 42] \<longrightarrow> out = Traps TableOutOfBounds)"
      by (auto simp: value_of_def values_of_def get_def m(4) indirect_call_def table_get_def anyfunc_default_def)
  qed
  then show ?thesis using m(1,5) t(1) by blast
qed

theorem call_sound_witness:
  "\<exists>st env func f1. store_inv st \<and> func_environment_new example_target calling_module = Inr env \<and>
     make_direct_func 0 env empty_function = Inr (func, env, f1) \<and>
     (\<exists>body vmctx. callee st 0x100100 0 = Inr (body, vmctx) \<and>
        behaves (calling_load (st_heap st)) st 0x100100 f1 (translate_call 0 func [] env f1)
          (\<lambda>mc vals out. mc_params mc = [0x100100] \<longrightarrow>
             out = Calls (Indirect (ef_signature (fn_ext_funcs f1 ! func)) body) [vmctx]))"
proof -
  obtain st inst env where m: "store_inv st" "st_instances st 0x100100 = Some inst" "in_module inst = calling_module"
    "in_tables inst = [\<lparr>tb_base = 0x3000, tb_vec = [anyfunc_default], tb_maximum = None\<rparr>]"
    "func_environment_new example_target calling_module = Inr env" "compiles env empty_function inst"
    "holds_store (calling_load (st_heap st)) st"
    by (rule calling_machine)
  have param: "fn_vmctx_param empty_function = Some (VParam 0)" by (simp add: empty_function_def)
  obtain func f1 body vmctx where t: "make_direct_func 0 env empty_function = Inr (func, env, f1)" "callee st 0x100100 0 = Inr (body, vmctx)"
    "\<forall>call_args. behaves (calling_load (st_heap st)) st 0x100100 f1 (translate_call 0 func call_args env f1) (\<lambda>mc vals out.
       \<forall>xs. value_of mc vals (VParam 0) = Some 0x100100 \<longrightarrow> values_of mc vals call_args = Some xs \<longrightarrow>
         out = Calls (if is_imported_function (in_module inst) 0 then Indirect (ef_signature (fn_ext_funcs f1 ! func)) body
                      else Direct func) (vmctx # xs))"
    using call_sound [OF m(1,2,6) _ _ param m(7), of 0] m(3) calling_module_indices by auto
  have "behaves (calling_load (st_heap st)) st 0x100100 f1 (translate_call 0 func [] env f1)
      (\<lambda>mc vals out. mc_params mc = [0x100100] \<longrightarrow>
         out = Calls (Indirect (ef_signature (fn_ext_funcs f1 ! func)) body) [vmctx])"
    by (rule behaves_mono [OF t(3) [rule_format]])
      (simp add: m(3) calling_module_indices value_of_def values_of_def get_def)
  then show ?thesis using m(1,5) t(1,2) by blast
qed

theorem memory_operations_sound_witness:
  "\<exists>st inst env q. store_inv st \<and> st_instances st 0x100100 = Some inst \<and>
     func_environment_new example_target calling_module = Inr env \<and>
     (\<exists>size arg. size_builtin size st 0x100100 arg = Inr (lm_current (in_memories inst ! 0)) \<and>
        behaves (calling_load (st_heap st)) st 0x100100 empty_function (translate_memory_size 0 env empty_function)
          (\<lambda>mc vals out. \<exists>sig. out = Calls (Indirect sig q) [0x100100, ucast arg]))"
proof -
  obtain st inst env where m: "store_inv st" "st_instances st 0x100100 = Some inst" "in_module inst = calling_module"
    "in_tables inst = [\<lparr>tb_base = 0x3000, tb_vec = [anyfunc_default], tb_maximum = None\<rparr>]"
    "func_environment_new example_target calling_module = Inr env" "compiles env empty_function inst"
    "holds_store (calling_load (st_heap st)) st"
    by (rule calling_machine)
  have "0 < length (memory_plans (in_module inst))" by (simp add: m(3) calling_module_indices)
  from memory_operations_sound [OF m(1,2,6,7) this]
  obtain owner oinst d arg size q where "memory_owner st 0x100100 inst 0 owner d" "st_instances st owner = Some oinst"
    "size_builtin size st 0x100100 arg = Inr (lm_current (in_memories oinst ! d))"
    "behaves (calling_load (st_heap st)) st 0x100100 empty_function (translate_memory_size 0 env empty_function)
       (\<lambda>mc vals out. \<exists>sig. out = Calls (Indirect sig q) [0x100100, ucast arg])" by blast
  then show ?thesis using m(1,2,3,5) calling_module_indices(6) by (force simp: memory_owner_def)
qed

end
