(* ===== verification/Microwasm.thy ===== *)
theory Microwasm
  imports Prelude
begin

text \<open>
  Microwasm, the intermediate representation of the Lightbeam backend, and its construction from the
  operators of a WebAssembly function body (\<^verbatim>\<open>lightbeam/src/microwasm.rs\<close>).

  Vectors are lists whose top is their last element, as in the code. A value of a floating-point type
  is its bits. The operators of WebAssembly are those of the parser library; \<^verbatim>\<open>I32Add\<close> and \<^verbatim>\<open>I64Add\<close>
  are \<open>WInt S32 IAdd\<close> and \<open>WInt S64 IAdd\<close>, and so on for all operators that exist at two widths. The
  operators reader is the list of the operators still to be read; reading past its end is an error.
\<close>

section \<open>Types and values\<close>

datatype signedness = Signed | Unsigned

datatype bitsize = S32 | S64

datatype signful_int = SignfulInt signedness bitsize

datatype 'i mw_type = IntT 'i | FloatT bitsize

type_synonym signless_type = "bitsize mw_type"
type_synonym signful_type = "signful_int mw_type"

abbreviation I32 :: signless_type where "I32 \<equiv> IntT S32"
abbreviation I64 :: signless_type where "I64 \<equiv> IntT S64"
abbreviation F32 :: signless_type where "F32 \<equiv> FloatT S32"
abbreviation F64 :: signless_type where "F64 \<equiv> FloatT S64"

datatype mw_value = VI32 u32 | VI64 u64 | VF32 u32 | VF64 u64

definition as_i32 :: "mw_value \<Rightarrow> u32 option" where
  "as_i32 v = (case v of VI32 val \<Rightarrow> Some val | _ \<Rightarrow> None)"

definition as_i64 :: "mw_value \<Rightarrow> u64 option" where
  "as_i64 v = (case v of VI64 val \<Rightarrow> Some val | _ \<Rightarrow> None)"

definition as_f32 :: "mw_value \<Rightarrow> u32 option" where
  "as_f32 v = (case v of VF32 val \<Rightarrow> Some val | _ \<Rightarrow> None)"

definition as_f64 :: "mw_value \<Rightarrow> u64 option" where
  "as_f64 v = (case v of VF64 val \<Rightarrow> Some val | _ \<Rightarrow> None)"

definition as_int :: "mw_value \<Rightarrow> u64 option" where
  "as_int v = (case as_i64 v of Some i \<Rightarrow> Some i | None \<Rightarrow> map_option scast (as_i32 v))"

definition as_bytes :: "mw_value \<Rightarrow> u64" where
  "as_bytes v = (case v of VI32 val \<Rightarrow> scast val | VI64 val \<Rightarrow> val | VF32 val \<Rightarrow> ucast val | VF64 val \<Rightarrow> val)"

definition type_of_value :: "mw_value \<Rightarrow> signless_type" where
  "type_of_value v = (case v of VI32 _ \<Rightarrow> I32 | VI64 _ \<Rightarrow> I64 | VF32 _ \<Rightarrow> F32 | VF64 _ \<Rightarrow> F64)"

fun default_for_type :: "signless_type \<Rightarrow> mw_value" where
  "default_for_type (IntT S32) = VI32 0"
| "default_for_type (IntT S64) = VI64 0"
| "default_for_type (FloatT S32) = VF32 0"
| "default_for_type (FloatT S64) = VF64 0"

datatype wasm_type = WI32 | WI64 | WF32 | WF64 | WEmptyBlockType | WOtherType

datatype type_or_func_type = TypeT wasm_type | FuncTypeT u32

definition from_wasm :: "wasm_type \<Rightarrow> signless_type option res" where
  "from_wasm other =
     (case other of
        WI32 \<Rightarrow> Inr (Some I32)
      | WI64 \<Rightarrow> Inr (Some I64)
      | WF32 \<Rightarrow> Inr (Some F32)
      | WF64 \<Rightarrow> Inr (Some F64)
      | WEmptyBlockType \<Rightarrow> Inr None
      | WOtherType \<Rightarrow> Inl (Panic ''not yet implemented''))"

definition create_returns_from_wasm_type :: "type_or_func_type \<Rightarrow> signless_type list res" where
  "create_returns_from_wasm_type ty =
     (case ty of
        TypeT t \<Rightarrow> bind_res (from_wasm t) (\<lambda>r. Inr (case r of Some x \<Rightarrow> [x] | None \<Rightarrow> []))
      | FuncTypeT _ \<Rightarrow> Inl (Panic ''unsupported func type''))"

section \<open>Operators\<close>

datatype name_tag = Header | Else | End

type_synonym wasm_label = "u32 \<times> name_tag"

datatype 'l br_target = TgtReturn | TgtLabel 'l

definition target_label :: "'l br_target \<Rightarrow> 'l option" where
  "target_label t = (case t of TgtReturn \<Rightarrow> None | TgtLabel l \<Rightarrow> Some l)"

text \<open>\<^verbatim>\<open>RangeInclusive<u32>\<close>.\<close>

type_synonym range_incl = "u32 \<times> u32"

datatype 'l br_target_drop = BrTargetDrop (tgt: "'l br_target") (to_drop_of: "range_incl option")

definition br_target_drop_from :: "'l br_target \<Rightarrow> 'l br_target_drop" where
  "br_target_drop_from other = BrTargetDrop other None"

datatype memory_immediate = MemoryImmediate u32 u32

text \<open>The numeric operators of \<^verbatim>\<open>Operator\<close>, from \<^verbatim>\<open>Eq\<close> on, and then the whole of it.\<close>

datatype numeric_operator =
    Eq signless_type
  | Ne signless_type
  | Eqz bitsize
  | Lt signful_type
  | Gt signful_type
  | Le signful_type
  | Ge signful_type
  | Add signless_type
  | Sub signless_type
  | Mul signless_type
  | Clz bitsize
  | Ctz bitsize
  | Popcnt bitsize
  | Div signful_type
  | Rem signful_int
  | And bitsize
  | Or bitsize
  | Xor bitsize
  | Shl bitsize
  | Shr signful_int
  | Rotl bitsize
  | Rotr bitsize
  | Abs bitsize
  | Neg bitsize
  | Ceil bitsize
  | Floor bitsize
  | Trunc bitsize
  | Nearest bitsize
  | Sqrt bitsize
  | Min bitsize
  | Max bitsize
  | Copysign bitsize
  | I32WrapFromI64
  | ITruncFromF bitsize signful_int
  | FConvertFromI signful_int bitsize
  | F32DemoteFromF64
  | F64PromoteFromF32
  | I32ReinterpretFromF32
  | I64ReinterpretFromF64
  | F32ReinterpretFromI32
  | F64ReinterpretFromI64
  | Extend signedness

datatype 'l operator =
    Unreachable
  | Block 'l "signless_type list" bool "u32 option"
  | Label 'l
  | Br "'l br_target"
  | BrIf "'l br_target_drop" "'l br_target_drop"
  | BrTable "'l br_target_drop list" "'l br_target_drop"
  | Call u32
  | CallIndirect u32 u32
  | Drop range_incl
  | Select
  | Pick u32
  | Swap u32
  | GetGlobal u32
  | SetGlobal u32
  | Load signless_type memory_immediate
  | Load8 signful_int memory_immediate
  | Load16 signful_int memory_immediate
  | Load32 signedness memory_immediate
  | Store signless_type memory_immediate
  | Store8 bitsize memory_immediate
  | Store16 bitsize memory_immediate
  | Store32 memory_immediate
  | MemorySize u32
  | MemoryGrow u32
  | Const mw_value
  | Numeric numeric_operator

definition is_label :: "'l operator \<Rightarrow> bool" where
  "is_label op = (case op of Label _ \<Rightarrow> True | _ \<Rightarrow> False)"

definition is_block :: "'l operator \<Rightarrow> bool" where
  "is_block op = (case op of Block _ _ _ _ \<Rightarrow> True | _ \<Rightarrow> False)"

definition operator_end :: "signless_type list \<Rightarrow> 'l \<Rightarrow> 'l operator" where
  "operator_end params label = Block label params False None"

definition operator_block :: "signless_type list \<Rightarrow> 'l \<Rightarrow> 'l operator" where
  "operator_block params label = Block label params False (Some 1)"

definition operator_loop :: "signless_type list \<Rightarrow> 'l \<Rightarrow> 'l operator" where
  "operator_loop params label = Block label params True None"

section \<open>The operators of WebAssembly\<close>

datatype load_op =
    F32Load | F64Load
  | I32Load | I32Load8S | I32Load8U | I32Load16S | I32Load16U
  | I64Load | I64Load8S | I64Load8U | I64Load16S | I64Load16U | I64Load32S | I64Load32U

datatype store_op =
    F32Store | F64Store | I32Store | I32Store8 | I32Store16
  | I64Store | I64Store8 | I64Store16 | I64Store32

datatype int_op =
    IEqz | IEq | INe | ILtS | ILtU | IGtS | IGtU | ILeS | ILeU | IGeS | IGeU
  | IClz | ICtz | IPopcnt | IAdd | ISub | IMul | IDivS | IDivU | IRemS | IRemU
  | IAnd | IOr | IXor | IShl | IShrS | IShrU | IRotl | IRotr

datatype float_op =
    FEq | FNe | FLt | FGt | FLe | FGe
  | FAbs | FNeg | FCeil | FFloor | FTrunc | FNearest | FSqrt
  | FAdd | FSub | FMul | FDiv | FMin | FMax | FCopysign

datatype conv_op =
    I32WrapI64 | I32TruncSF32 | I32TruncUF32 | I32TruncSF64 | I32TruncUF64
  | I64ExtendSI32 | I64ExtendUI32 | I64TruncSF32 | I64TruncUF32 | I64TruncSF64 | I64TruncUF64
  | F32ConvertSI32 | F32ConvertUI32 | F32ConvertSI64 | F32ConvertUI64 | F32DemoteF64
  | F64ConvertSI32 | F64ConvertUI32 | F64ConvertSI64 | F64ConvertUI64 | F64PromoteF32
  | I32ReinterpretF32 | I64ReinterpretF64 | F32ReinterpretI32 | F64ReinterpretI64
  | I32Extend8S | I32Extend16S | I64Extend8S | I64Extend16S | I64Extend32S

text \<open>\<open>WUnsupported\<close> stands for every operator for which the translation is unimplemented; a branch
  table is the result of reading it.\<close>

datatype wasm_operator =
    WUnreachable
  | WNop
  | WBlock type_or_func_type
  | WLoop type_or_func_type
  | WIf type_or_func_type
  | WElse
  | WEnd
  | WBr u32
  | WBrIf u32
  | WBrTable "(u32 list \<times> u32) res"
  | WReturn
  | WCall u32
  | WCallIndirect u32 u32
  | WDrop
  | WSelect
  | WGetLocal u32
  | WSetLocal u32
  | WTeeLocal u32
  | WGetGlobal u32
  | WSetGlobal u32
  | WLoad load_op memory_immediate
  | WStore store_op memory_immediate
  | WMemorySize u32
  | WMemoryGrow u32
  | WI32Const u32
  | WI64Const u64
  | WF32Const u32
  | WF64Const u64
  | WInt bitsize int_op
  | WFloat bitsize float_op
  | WConv conv_op
  | WUnsupported

section \<open>State of the translation\<close>

datatype control_frame_kind = FBlock bool | FFunction | FLoop | FIf bool

record control_frame =
  cf_id :: u32
  cf_arguments :: u32
  cf_returns :: "signless_type list"
  cf_kind :: control_frame_kind

definition needs_end_label :: "control_frame \<Rightarrow> bool" where
  "needs_end_label f =
     (case cf_kind f of
        FBlock needs \<Rightarrow> needs
      | FIf _ \<Rightarrow> True
      | FLoop \<Rightarrow> False
      | FFunction \<Rightarrow> False)"

definition mark_branched_to :: "control_frame \<Rightarrow> control_frame" where
  "mark_branched_to f =
     (case cf_kind f of FBlock _ \<Rightarrow> f\<lparr>cf_kind := FBlock True\<rparr> | _ \<Rightarrow> f)"

definition br_target :: "control_frame \<Rightarrow> wasm_label br_target" where
  "br_target f =
     (case cf_kind f of
        FLoop \<Rightarrow> TgtLabel (cf_id f, Header)
      | FFunction \<Rightarrow> TgtReturn
      | FBlock _ \<Rightarrow> TgtLabel (cf_id f, End)
      | FIf _ \<Rightarrow> TgtLabel (cf_id f, End))"

record conv =
  is_done :: bool
  consts_to_emit :: "mw_value list option"
  stack :: "signless_type list"
  internal :: "wasm_operator list"
  current_id :: u32
  control_frames :: "control_frame list"
  unreachable :: bool

text \<open>The module context: the signatures of functions and the types of globals, as microwasm types.\<close>

record module_context =
  func_type :: "u32 \<Rightarrow> signless_type list \<times> signless_type list"
  signature :: "u32 \<Rightarrow> signless_type list \<times> signless_type list"
  global_type :: "u32 \<Rightarrow> signless_type"

datatype sig_t = T | Concrete signless_type

record op_sig =
  sig_input :: "sig_t list"
  sig_output :: "sig_t list"

definition op_sig_none :: op_sig where
  "op_sig_none = \<lparr>sig_input = [], sig_output = []\<rparr>"

definition op_sig_from :: "signless_type list \<times> signless_type list \<Rightarrow> op_sig" where
  "op_sig_from sig = \<lparr>sig_input = map Concrete (fst sig), sig_output = map Concrete (snd sig)\<rparr>"

definition next_id :: "conv \<Rightarrow> u32 \<times> conv" where
  "next_id c = (current_id c, c\<lparr>current_id := current_id c + 1\<rparr>)"

text \<open>The locals of a function body: each group is a count and a type.\<close>

fun local_types :: "(u32 \<times> wasm_type) list \<Rightarrow> signless_type list res" where
  "local_types [] = Inr []"
| "local_types ((cnt, ty) # locs) =
     bind_res (from_wasm ty) (\<lambda>t.
     bind_res (unwrap_res t ''Invalid local type'') (\<lambda>ty.
     bind_res (local_types locs) (\<lambda>rest. Inr (replicate (unat cnt) ty @ rest))))"

definition conv_new ::
  "signless_type list \<Rightarrow> signless_type list \<Rightarrow> (u32 \<times> wasm_type) list \<Rightarrow> wasm_operator list \<Rightarrow> conv res" where
  "conv_new params returns locs ops =
     bind_res (local_types locs) (\<lambda>tys.
     let locals = params @ tys;
         consts = map default_for_type tys;
         num_locals = of_nat (length locals);
         out = \<lparr>is_done = False, consts_to_emit = Some consts, stack = locals, internal = ops,
                current_id = 0, control_frames = [], unreachable = False\<rparr>;
         (id, out) = next_id out
     in Inr (out\<lparr>control_frames := control_frames out @
              [\<lparr>cf_id = id, cf_arguments = num_locals, cf_returns = returns, cf_kind = FFunction\<rparr>]\<rparr>))"

end
