(* ===== verification/Microwasm_Conv.thy ===== *)
theory Microwasm_Conv
  imports Microwasm
begin

text \<open>
  The translation of WebAssembly operators to microwasm: \<^verbatim>\<open>MicrowasmConv::op_sig\<close>, \<^verbatim>\<open>apply_op\<close> and
  the iterator's \<^verbatim>\<open>next\<close> (\<^verbatim>\<open>lightbeam/src/microwasm.rs\<close>). The release profile has no debug
  assertions, so \<^verbatim>\<open>apply_op\<close> pops without comparing types.
\<close>

section \<open>Signatures of the operators\<close>

abbreviation sig :: "signless_type list \<Rightarrow> signless_type list \<Rightarrow> op_sig" where
  "sig ins outs \<equiv> \<lparr>sig_input = map Concrete ins, sig_output = map Concrete outs\<rparr>"

definition load_sig :: "load_op \<Rightarrow> op_sig" where
  "load_sig op =
     (case op of
        F32Load \<Rightarrow> sig [I32] [F32]
      | F64Load \<Rightarrow> sig [I32] [F64]
      | I32Load \<Rightarrow> sig [I32] [I32]
      | I32Load8S \<Rightarrow> sig [I32] [I32]
      | I32Load8U \<Rightarrow> sig [I32] [I32]
      | I32Load16S \<Rightarrow> sig [I32] [I32]
      | I32Load16U \<Rightarrow> sig [I32] [I32]
      | I64Load \<Rightarrow> sig [I32] [I64]
      | I64Load8S \<Rightarrow> sig [I32] [I64]
      | I64Load8U \<Rightarrow> sig [I32] [I64]
      | I64Load16S \<Rightarrow> sig [I32] [I64]
      | I64Load16U \<Rightarrow> sig [I32] [I64]
      | I64Load32S \<Rightarrow> sig [I32] [I64]
      | I64Load32U \<Rightarrow> sig [I32] [I64])"

definition store_sig :: "store_op \<Rightarrow> op_sig" where
  "store_sig op =
     (case op of
        F32Store \<Rightarrow> sig [I32, F32] []
      | F64Store \<Rightarrow> sig [I32, F64] []
      | I32Store \<Rightarrow> sig [I32, I32] []
      | I32Store8 \<Rightarrow> sig [I32, I32] []
      | I32Store16 \<Rightarrow> sig [I32, I32] []
      | I64Store \<Rightarrow> sig [I32, I64] []
      | I64Store8 \<Rightarrow> sig [I32, I64] []
      | I64Store16 \<Rightarrow> sig [I32, I64] []
      | I64Store32 \<Rightarrow> sig [I32, I64] [])"

definition int_sig :: "bitsize \<Rightarrow> int_op \<Rightarrow> op_sig" where
  "int_sig sz op =
     (let t = IntT sz in
      case op of
        IEqz \<Rightarrow> sig [t] [I32]
      | IEq \<Rightarrow> sig [t, t] [I32]
      | INe \<Rightarrow> sig [t, t] [I32]
      | ILtS \<Rightarrow> sig [t, t] [I32]
      | ILtU \<Rightarrow> sig [t, t] [I32]
      | IGtS \<Rightarrow> sig [t, t] [I32]
      | IGtU \<Rightarrow> sig [t, t] [I32]
      | ILeS \<Rightarrow> sig [t, t] [I32]
      | ILeU \<Rightarrow> sig [t, t] [I32]
      | IGeS \<Rightarrow> sig [t, t] [I32]
      | IGeU \<Rightarrow> sig [t, t] [I32]
      | IClz \<Rightarrow> sig [t] [t]
      | ICtz \<Rightarrow> sig [t] [t]
      | IPopcnt \<Rightarrow> sig [t] [t]
      | IAdd \<Rightarrow> sig [t, t] [t]
      | ISub \<Rightarrow> sig [t, t] [t]
      | IMul \<Rightarrow> sig [t, t] [t]
      | IDivS \<Rightarrow> sig [t, t] [t]
      | IDivU \<Rightarrow> sig [t, t] [t]
      | IRemS \<Rightarrow> sig [t, t] [t]
      | IRemU \<Rightarrow> sig [t, t] [t]
      | IAnd \<Rightarrow> sig [t, t] [t]
      | IOr \<Rightarrow> sig [t, t] [t]
      | IXor \<Rightarrow> sig [t, t] [t]
      | IShl \<Rightarrow> sig [t, t] [t]
      | IShrS \<Rightarrow> sig [t, t] [t]
      | IShrU \<Rightarrow> sig [t, t] [t]
      | IRotl \<Rightarrow> sig [t, t] [t]
      | IRotr \<Rightarrow> sig [t, t] [t])"

definition float_sig :: "bitsize \<Rightarrow> float_op \<Rightarrow> op_sig" where
  "float_sig sz op =
     (let t = FloatT sz in
      case op of
        FEq \<Rightarrow> sig [t, t] [I32]
      | FNe \<Rightarrow> sig [t, t] [I32]
      | FLt \<Rightarrow> sig [t, t] [I32]
      | FGt \<Rightarrow> sig [t, t] [I32]
      | FLe \<Rightarrow> sig [t, t] [I32]
      | FGe \<Rightarrow> sig [t, t] [I32]
      | FAbs \<Rightarrow> sig [t] [t]
      | FNeg \<Rightarrow> sig [t] [t]
      | FCeil \<Rightarrow> sig [t] [t]
      | FFloor \<Rightarrow> sig [t] [t]
      | FTrunc \<Rightarrow> sig [t] [t]
      | FNearest \<Rightarrow> sig [t] [t]
      | FSqrt \<Rightarrow> sig [t] [t]
      | FAdd \<Rightarrow> sig [t, t] [t]
      | FSub \<Rightarrow> sig [t, t] [t]
      | FMul \<Rightarrow> sig [t, t] [t]
      | FDiv \<Rightarrow> sig [t, t] [t]
      | FMin \<Rightarrow> sig [t, t] [t]
      | FMax \<Rightarrow> sig [t, t] [t]
      | FCopysign \<Rightarrow> sig [t, t] [t])"

definition conversion_sig :: "conv_op \<Rightarrow> op_sig" where
  "conversion_sig op =
     (case op of
        I32WrapI64 \<Rightarrow> sig [I64] [I32]
      | I32TruncSF32 \<Rightarrow> sig [F32] [I32]
      | I32TruncUF32 \<Rightarrow> sig [F32] [I32]
      | I32TruncSF64 \<Rightarrow> sig [F64] [I32]
      | I32TruncUF64 \<Rightarrow> sig [F64] [I32]
      | I64ExtendSI32 \<Rightarrow> sig [I32] [I64]
      | I64ExtendUI32 \<Rightarrow> sig [I32] [I64]
      | I64TruncSF32 \<Rightarrow> sig [F32] [I64]
      | I64TruncUF32 \<Rightarrow> sig [F32] [I64]
      | I64TruncSF64 \<Rightarrow> sig [F64] [I64]
      | I64TruncUF64 \<Rightarrow> sig [F64] [I64]
      | F32ConvertSI32 \<Rightarrow> sig [I32] [F32]
      | F32ConvertUI32 \<Rightarrow> sig [I32] [F32]
      | F32ConvertSI64 \<Rightarrow> sig [I64] [F32]
      | F32ConvertUI64 \<Rightarrow> sig [I64] [F32]
      | F32DemoteF64 \<Rightarrow> sig [F64] [F32]
      | F64ConvertSI32 \<Rightarrow> sig [I32] [F64]
      | F64ConvertUI32 \<Rightarrow> sig [I32] [F64]
      | F64ConvertSI64 \<Rightarrow> sig [I64] [F64]
      | F64ConvertUI64 \<Rightarrow> sig [I64] [F64]
      | F64PromoteF32 \<Rightarrow> sig [F32] [F64]
      | I32ReinterpretF32 \<Rightarrow> sig [F32] [I32]
      | I64ReinterpretF64 \<Rightarrow> sig [F64] [I64]
      | F32ReinterpretI32 \<Rightarrow> sig [I32] [F32]
      | F64ReinterpretI64 \<Rightarrow> sig [I64] [F64]
      | I32Extend8S \<Rightarrow> sig [I32] [I32]
      | I32Extend16S \<Rightarrow> sig [I32] [I32]
      | I64Extend8S \<Rightarrow> sig [I32] [I64]
      | I64Extend16S \<Rightarrow> sig [I32] [I64]
      | I64Extend32S \<Rightarrow> sig [I32] [I64])"

definition op_sig_of :: "module_context \<Rightarrow> conv \<Rightarrow> wasm_operator \<Rightarrow> op_sig res" where
  "op_sig_of m c op =
     (case op of
        WUnreachable \<Rightarrow> Inr op_sig_none
      | WNop \<Rightarrow> Inr op_sig_none
      | WBlock _ \<Rightarrow> Inr op_sig_none
      | WLoop _ \<Rightarrow> Inr op_sig_none
      | WIf _ \<Rightarrow> Inr (sig [I32] [])
      | WElse \<Rightarrow> Inr op_sig_none
      | WEnd \<Rightarrow> Inr op_sig_none
      | WBr _ \<Rightarrow> Inr op_sig_none
      | WBrIf _ \<Rightarrow> Inr (sig [I32] [])
      | WBrTable _ \<Rightarrow> Inr (sig [I32] [])
      | WReturn \<Rightarrow> Inr op_sig_none
      | WCall function_index \<Rightarrow> Inr (op_sig_from (func_type m function_index))
      | WCallIndirect index _ \<Rightarrow>
          (let out = op_sig_from (signature m index) in
           Inr (out\<lparr>sig_input := sig_input out @ [Concrete I32]\<rparr>))
      | WDrop \<Rightarrow> Inr \<lparr>sig_input = [T], sig_output = []\<rparr>
      | WSelect \<Rightarrow> Inr \<lparr>sig_input = [T, T, Concrete I32], sig_output = [T]\<rparr>
      | WGetLocal local_index \<Rightarrow>
          bind_res (index_res (stack c) (unat local_index)) (\<lambda>ty. Inr (sig [] [ty]))
      | WSetLocal local_index \<Rightarrow>
          bind_res (index_res (stack c) (unat local_index)) (\<lambda>ty. Inr (sig [ty] []))
      | WTeeLocal local_index \<Rightarrow>
          bind_res (index_res (stack c) (unat local_index)) (\<lambda>ty. Inr (sig [ty] [ty]))
      | WGetGlobal global_index \<Rightarrow> Inr (sig [] [global_type m global_index])
      | WSetGlobal global_index \<Rightarrow> Inr (sig [global_type m global_index] [])
      | WLoad op _ \<Rightarrow> Inr (load_sig op)
      | WStore op _ \<Rightarrow> Inr (store_sig op)
      | WMemorySize _ \<Rightarrow> Inr (sig [] [I32])
      | WMemoryGrow _ \<Rightarrow> Inr (sig [I32] [I32])
      | WI32Const _ \<Rightarrow> Inr (sig [] [I32])
      | WI64Const _ \<Rightarrow> Inr (sig [] [I64])
      | WF32Const _ \<Rightarrow> Inr (sig [] [F32])
      | WF64Const _ \<Rightarrow> Inr (sig [] [F64])
      | WInt sz op \<Rightarrow> Inr (int_sig sz op)
      | WFloat sz op \<Rightarrow> Inr (float_sig sz op)
      | WConv op \<Rightarrow> Inr (conversion_sig op)
      | WUnsupported \<Rightarrow> Inl (Panic ''not yet implemented''))"

text \<open>Inputs are popped from the last one on; the first popped value of a type variable fixes it.
  Outputs are pushed from the last one on, too.\<close>

fun pop_inputs :: "sig_t list \<Rightarrow> signless_type list \<Rightarrow> signless_type option \<Rightarrow>
    (signless_type list \<times> signless_type option) res" where
  "pop_inputs [] st ty_param = Inr (st, ty_param)"
| "pop_inputs (p # ps) st ty_param =
     (if st = [] then Inl (Panic ''Stack is empty'')
      else pop_inputs ps (butlast st)
             (case p of
                T \<Rightarrow> (case ty_param of Some t \<Rightarrow> Some t | None \<Rightarrow> Some (last st))
              | Concrete _ \<Rightarrow> ty_param))"

fun push_outputs :: "sig_t list \<Rightarrow> signless_type list \<Rightarrow> signless_type option \<Rightarrow> signless_type list res" where
  "push_outputs [] st ty_param = Inr st"
| "push_outputs (p # ps) st ty_param =
     bind_res (case p of T \<Rightarrow> unwrap_res ty_param ''Type parameter was not set'' | Concrete ty \<Rightarrow> Inr ty)
       (\<lambda>ty. push_outputs ps (st @ [ty]) ty_param)"

definition apply_op :: "conv \<Rightarrow> op_sig \<Rightarrow> conv res" where
  "apply_op c sg =
     bind_res (pop_inputs (rev (sig_input sg)) (stack c) None) (\<lambda>(st, ty_param).
     bind_res (push_outputs (rev (sig_output sg)) st ty_param) (\<lambda>st'.
     Inr (c\<lparr>stack := st'\<rparr>)))"

section \<open>Operators without control flow\<close>

definition convert_load :: "load_op \<Rightarrow> memory_immediate \<Rightarrow> wasm_label operator" where
  "convert_load op memarg =
     (case op of
        I32Load \<Rightarrow> Load I32 memarg
      | I64Load \<Rightarrow> Load I64 memarg
      | F32Load \<Rightarrow> Load F32 memarg
      | F64Load \<Rightarrow> Load F64 memarg
      | I32Load8S \<Rightarrow> Load8 (SignfulInt Signed S32) memarg
      | I32Load8U \<Rightarrow> Load8 (SignfulInt Unsigned S32) memarg
      | I32Load16S \<Rightarrow> Load16 (SignfulInt Signed S32) memarg
      | I32Load16U \<Rightarrow> Load16 (SignfulInt Unsigned S32) memarg
      | I64Load8S \<Rightarrow> Load8 (SignfulInt Signed S64) memarg
      | I64Load8U \<Rightarrow> Load8 (SignfulInt Unsigned S64) memarg
      | I64Load16S \<Rightarrow> Load16 (SignfulInt Signed S64) memarg
      | I64Load16U \<Rightarrow> Load16 (SignfulInt Unsigned S64) memarg
      | I64Load32S \<Rightarrow> Load32 Signed memarg
      | I64Load32U \<Rightarrow> Load32 Unsigned memarg)"

definition convert_store :: "store_op \<Rightarrow> memory_immediate \<Rightarrow> wasm_label operator" where
  "convert_store op memarg =
     (case op of
        I32Store \<Rightarrow> Store I32 memarg
      | I64Store \<Rightarrow> Store I64 memarg
      | F32Store \<Rightarrow> Store F32 memarg
      | F64Store \<Rightarrow> Store F64 memarg
      | I32Store8 \<Rightarrow> Store8 S32 memarg
      | I32Store16 \<Rightarrow> Store16 S32 memarg
      | I64Store8 \<Rightarrow> Store8 S64 memarg
      | I64Store16 \<Rightarrow> Store16 S64 memarg
      | I64Store32 \<Rightarrow> Store32 memarg)"

definition convert_int :: "bitsize \<Rightarrow> int_op \<Rightarrow> numeric_operator" where
  "convert_int sz op =
     (case op of
        IEqz \<Rightarrow> Eqz sz
      | IEq \<Rightarrow> Eq (IntT sz)
      | INe \<Rightarrow> Ne (IntT sz)
      | ILtS \<Rightarrow> Lt (IntT (SignfulInt Signed sz))
      | ILtU \<Rightarrow> Lt (IntT (SignfulInt Unsigned sz))
      | IGtS \<Rightarrow> Gt (IntT (SignfulInt Signed sz))
      | IGtU \<Rightarrow> Gt (IntT (SignfulInt Unsigned sz))
      | ILeS \<Rightarrow> Le (IntT (SignfulInt Signed sz))
      | ILeU \<Rightarrow> Le (IntT (SignfulInt Unsigned sz))
      | IGeS \<Rightarrow> Ge (IntT (SignfulInt Signed sz))
      | IGeU \<Rightarrow> Ge (IntT (SignfulInt Unsigned sz))
      | IClz \<Rightarrow> Clz sz
      | ICtz \<Rightarrow> Ctz sz
      | IPopcnt \<Rightarrow> Popcnt sz
      | IAdd \<Rightarrow> Add (IntT sz)
      | ISub \<Rightarrow> Sub (IntT sz)
      | IMul \<Rightarrow> Mul (IntT sz)
      | IDivS \<Rightarrow> Div (IntT (SignfulInt Signed sz))
      | IDivU \<Rightarrow> Div (IntT (SignfulInt Unsigned sz))
      | IRemS \<Rightarrow> Rem (SignfulInt Signed sz)
      | IRemU \<Rightarrow> Rem (SignfulInt Unsigned sz)
      | IAnd \<Rightarrow> And sz
      | IOr \<Rightarrow> Or sz
      | IXor \<Rightarrow> Xor sz
      | IShl \<Rightarrow> Shl sz
      | IShrS \<Rightarrow> Shr (SignfulInt Signed sz)
      | IShrU \<Rightarrow> Shr (SignfulInt Unsigned sz)
      | IRotl \<Rightarrow> Rotl sz
      | IRotr \<Rightarrow> Rotr sz)"

definition convert_float :: "bitsize \<Rightarrow> float_op \<Rightarrow> numeric_operator" where
  "convert_float sz op =
     (case op of
        FEq \<Rightarrow> Eq (FloatT sz)
      | FNe \<Rightarrow> Ne (FloatT sz)
      | FLt \<Rightarrow> Lt (FloatT sz)
      | FGt \<Rightarrow> Gt (FloatT sz)
      | FLe \<Rightarrow> Le (FloatT sz)
      | FGe \<Rightarrow> Ge (FloatT sz)
      | FAbs \<Rightarrow> Abs sz
      | FNeg \<Rightarrow> Neg sz
      | FCeil \<Rightarrow> Ceil sz
      | FFloor \<Rightarrow> Floor sz
      | FTrunc \<Rightarrow> Trunc sz
      | FNearest \<Rightarrow> Nearest sz
      | FSqrt \<Rightarrow> Sqrt sz
      | FAdd \<Rightarrow> Add (FloatT sz)
      | FSub \<Rightarrow> Sub (FloatT sz)
      | FMul \<Rightarrow> Mul (FloatT sz)
      | FDiv \<Rightarrow> Div (FloatT sz)
      | FMin \<Rightarrow> Min sz
      | FMax \<Rightarrow> Max sz
      | FCopysign \<Rightarrow> Copysign sz)"

definition convert_conversion :: "conv_op \<Rightarrow> numeric_operator res" where
  "convert_conversion op =
     (let s32 = SignfulInt Signed S32; u32 = SignfulInt Unsigned S32;
          s64 = SignfulInt Signed S64; u64 = SignfulInt Unsigned S64 in
      case op of
        I32WrapI64 \<Rightarrow> Inr I32WrapFromI64
      | I32TruncSF32 \<Rightarrow> Inr (ITruncFromF S32 s32)
      | I32TruncUF32 \<Rightarrow> Inr (ITruncFromF S32 u32)
      | I32TruncSF64 \<Rightarrow> Inr (ITruncFromF S64 s32)
      | I32TruncUF64 \<Rightarrow> Inr (ITruncFromF S64 u32)
      | I64ExtendSI32 \<Rightarrow> Inr (Extend Signed)
      | I64ExtendUI32 \<Rightarrow> Inr (Extend Unsigned)
      | I64TruncSF32 \<Rightarrow> Inr (ITruncFromF S32 s64)
      | I64TruncUF32 \<Rightarrow> Inr (ITruncFromF S32 u64)
      | I64TruncSF64 \<Rightarrow> Inr (ITruncFromF S64 s64)
      | I64TruncUF64 \<Rightarrow> Inr (ITruncFromF S64 u64)
      | F32ConvertSI32 \<Rightarrow> Inr (FConvertFromI s32 S32)
      | F32ConvertUI32 \<Rightarrow> Inr (FConvertFromI u32 S32)
      | F32ConvertSI64 \<Rightarrow> Inr (FConvertFromI s64 S32)
      | F32ConvertUI64 \<Rightarrow> Inr (FConvertFromI u64 S32)
      | F32DemoteF64 \<Rightarrow> Inr F32DemoteFromF64
      | F64ConvertSI32 \<Rightarrow> Inr (FConvertFromI s32 S64)
      | F64ConvertUI32 \<Rightarrow> Inr (FConvertFromI u32 S64)
      | F64ConvertSI64 \<Rightarrow> Inr (FConvertFromI s64 S64)
      | F64ConvertUI64 \<Rightarrow> Inr (FConvertFromI u64 S64)
      | F64PromoteF32 \<Rightarrow> Inr F64PromoteFromF32
      | I32ReinterpretF32 \<Rightarrow> Inr I32ReinterpretFromF32
      | I64ReinterpretF64 \<Rightarrow> Inr I64ReinterpretFromF64
      | F32ReinterpretI32 \<Rightarrow> Inr F32ReinterpretFromI32
      | F64ReinterpretI64 \<Rightarrow> Inr F64ReinterpretFromI64
      | I32Extend8S \<Rightarrow> Inl (Panic ''not yet implemented'')
      | I32Extend16S \<Rightarrow> Inl (Panic ''not yet implemented'')
      | I64Extend8S \<Rightarrow> Inl (Panic ''not yet implemented'')
      | I64Extend16S \<Rightarrow> Inl (Panic ''not yet implemented'')
      | I64Extend32S \<Rightarrow> Inl (Panic ''not yet implemented''))"

section \<open>Control flow\<close>

type_synonym emitted = "wasm_label operator list"

text \<open>\<^verbatim>\<open>control_frames.iter().rev().nth(n).unwrap()\<close>; the mutable variant applies a change.\<close>

definition nth_block :: "conv \<Rightarrow> u32 \<Rightarrow> control_frame res" where
  "nth_block c n = unwrap_res (get (rev (control_frames c)) (unat n)) ''nth_block''"

definition nth_block_mut :: "conv \<Rightarrow> u32 \<Rightarrow> (control_frame \<Rightarrow> control_frame) \<Rightarrow> conv res" where
  "nth_block_mut c n f =
     bind_res (nth_block c n) (\<lambda>b.
     Inr (c\<lparr>control_frames := rev ((rev (control_frames c))[unat n := f b])\<rparr>))"

definition function_block :: "conv \<Rightarrow> control_frame res" where
  "function_block c = (case control_frames c of [] \<Rightarrow> Inl (Panic ''unwrap'') | f # _ \<Rightarrow> Inr f)"

definition last_frame :: "conv \<Rightarrow> control_frame res" where
  "last_frame c = (if control_frames c = [] then Inl (Panic ''Failed'') else Inr (last (control_frames c)))"

definition set_last_frame :: "control_frame \<Rightarrow> conv \<Rightarrow> conv" where
  "set_last_frame f c = c\<lparr>control_frames := butlast (control_frames c) @ [f]\<rparr>"

definition pop_frame :: "conv \<Rightarrow> (control_frame \<times> conv) res" where
  "pop_frame c = bind_res (last_frame c) (\<lambda>f. Inr (f, c\<lparr>control_frames := butlast (control_frames c)\<rparr>))"

definition push_frame :: "control_frame \<Rightarrow> conv \<Rightarrow> conv" where
  "push_frame f c = c\<lparr>control_frames := control_frames c @ [f]\<rparr>"

definition truncate :: "u32 \<Rightarrow> conv \<Rightarrow> conv" where
  "truncate n c = c\<lparr>stack := take (unat n) (stack c)\<rparr>"

definition set_has_else :: "control_frame \<Rightarrow> control_frame" where
  "set_has_else f = (case cf_kind f of FIf _ \<Rightarrow> f\<lparr>cf_kind := FIf True\<rparr> | _ \<Rightarrow> f)"

definition to_drop :: "conv \<Rightarrow> control_frame \<Rightarrow> range_incl option" where
  "to_drop c block =
     (let first_non_local_depth = of_nat (length (cf_returns block)) in
      do { n \<leftarrow> checked_sub (of_nat (length (stack c))) 1;
           last_non_local_depth \<leftarrow> checked_sub n (cf_arguments block);
           if first_non_local_depth \<le> last_non_local_depth
           then Some (first_non_local_depth, last_non_local_depth)
           else None })"

definition drops :: "range_incl option \<Rightarrow> emitted" where
  "drops d = (case d of Some r \<Rightarrow> [Drop r] | None \<Rightarrow> [])"

definition block_params_with_wasm_type :: "conv \<Rightarrow> type_or_func_type \<Rightarrow> signless_type list res" where
  "block_params_with_wasm_type c ty =
     bind_res (create_returns_from_wasm_type ty) (\<lambda>rs. Inr (stack c @ rs))"

definition new_frame :: "conv \<Rightarrow> u32 \<Rightarrow> signless_type list \<Rightarrow> control_frame_kind \<Rightarrow> control_frame" where
  "new_frame c i rs kind =
     \<lparr>cf_id = i, cf_arguments = of_nat (length (stack c)), cf_returns = rs, cf_kind = kind\<rparr>"

definition convert_block :: "conv \<Rightarrow> type_or_func_type \<Rightarrow> (emitted \<times> conv) res" where
  "convert_block c ty =
     (let (i, c) = next_id c in
      bind_res (create_returns_from_wasm_type ty) (\<lambda>rs.
      let c = push_frame (new_frame c i rs (FBlock False)) c in
      bind_res (block_params_with_wasm_type c ty) (\<lambda>params.
      Inr ([operator_end params (i, End)], c))))"

definition convert_loop :: "conv \<Rightarrow> type_or_func_type \<Rightarrow> (emitted \<times> conv) res" where
  "convert_loop c ty =
     (let (i, c) = next_id c in
      bind_res (create_returns_from_wasm_type ty) (\<lambda>rs.
      let c = push_frame (new_frame c i rs FLoop) c; label = (i, Header) in
      bind_res (block_params_with_wasm_type c ty) (\<lambda>params.
      Inr ([operator_loop (stack c) label, operator_end params (i, End), Br (TgtLabel label), Label label], c))))"

definition convert_if :: "conv \<Rightarrow> type_or_func_type \<Rightarrow> (emitted \<times> conv) res" where
  "convert_if c ty =
     (let (i, c) = next_id c in
      bind_res (create_returns_from_wasm_type ty) (\<lambda>rs.
      let c = push_frame (new_frame c i rs (FIf False)) c;
          thn = (i, Header); els = (i, Else); en = (i, End) in
      bind_res (block_params_with_wasm_type c ty) (\<lambda>params.
      Inr ([operator_block (stack c) thn, operator_block (stack c) els, operator_end params en,
            BrIf (br_target_drop_from (TgtLabel thn)) (br_target_drop_from (TgtLabel els)), Label thn], c))))"

definition convert_else :: "conv \<Rightarrow> (emitted \<times> conv) res" where
  "convert_else c =
     bind_res (last_frame c) (\<lambda>block.
     let dr = to_drop c block;
         c = truncate (cf_arguments block) (set_last_frame (set_has_else block) c)
     in Inr (drops dr @ [Br (TgtLabel (cf_id block, End)), Label (cf_id block, Else)], c))"

definition convert_end :: "conv \<Rightarrow> (emitted \<times> conv) res" where
  "convert_end c =
     bind_res (pop_frame c) (\<lambda>(block, c).
     let dr = to_drop c block;
         c = truncate (cf_arguments block) c;
         c = c\<lparr>stack := stack c @ cf_returns block\<rparr>;
         els = (cf_id block, Else); en = (cf_id block, End)
     in if cf_kind block = FIf False
        then Inr (drops dr @ [Br (TgtLabel en), Label els, Br (TgtLabel en), Label en], c)
        else if control_frames c = []
        then Inr ([Br TgtReturn], c\<lparr>is_done := True\<rparr>)
        else if needs_end_label block
        then Inr (drops dr @ [Br (TgtLabel en), Label en], c)
        else Inr (drops dr, c))"

definition convert_br :: "conv \<Rightarrow> u32 \<Rightarrow> (emitted \<times> conv) res" where
  "convert_br c relative_depth =
     (let c = c\<lparr>unreachable := True\<rparr> in
      bind_res (nth_block c relative_depth) (\<lambda>block.
      let dr = to_drop c block in
      bind_res (nth_block_mut c relative_depth mark_branched_to) (\<lambda>c.
      bind_res (nth_block c relative_depth) (\<lambda>block.
      Inr (drops dr @ [Br (br_target block)], c)))))"

definition convert_br_if :: "conv \<Rightarrow> u32 \<Rightarrow> (emitted \<times> conv) res" where
  "convert_br_if c relative_depth =
     bind_res (nth_block c relative_depth) (\<lambda>block.
     let dr = to_drop c block;
         (i, c) = next_id c;
         label = (i, Header);
         params = stack c in
     bind_res (nth_block_mut c relative_depth mark_branched_to) (\<lambda>c.
     bind_res (nth_block c relative_depth) (\<lambda>block.
     Inr ([operator_block params label,
           BrIf (BrTargetDrop (br_target block) dr) (br_target_drop_from (TgtLabel label)),
           Label label], c))))"

definition table_target :: "u32 \<Rightarrow> conv \<Rightarrow> (wasm_label br_target_drop \<times> conv) res" where
  "table_target depth c =
     bind_res (nth_block_mut c depth mark_branched_to) (\<lambda>c.
     bind_res (nth_block c depth) (\<lambda>block.
     Inr (BrTargetDrop (br_target block) (to_drop c block), c)))"

fun table_targets :: "u32 list \<Rightarrow> conv \<Rightarrow> (wasm_label br_target_drop list \<times> conv) res" where
  "table_targets [] c = Inr ([], c)"
| "table_targets (d # ds) c =
     bind_res (table_target d c) (\<lambda>(t, c). bind_res (table_targets ds c) (\<lambda>(ts, c). Inr (t # ts, c)))"

definition convert_br_table :: "conv \<Rightarrow> (u32 list \<times> u32) res \<Rightarrow> (emitted \<times> conv) res" where
  "convert_br_table c table =
     (let c = c\<lparr>unreachable := True\<rparr> in
      bind_res table (\<lambda>(entries, dflt).
      bind_res (table_targets entries c) (\<lambda>(targets, c).
      bind_res (table_target dflt c) (\<lambda>(dflt, c).
      Inr ([BrTable targets dflt], c)))))"

definition convert_return :: "conv \<Rightarrow> (emitted \<times> conv) res" where
  "convert_return c =
     (let c = c\<lparr>unreachable := True\<rparr> in
      bind_res (function_block c) (\<lambda>block.
      Inr (drops (to_drop c block) @ [Br (br_target block)], c)))"

section \<open>Locals\<close>

text \<open>Depths are computed as \<^verbatim>\<open>i32\<close>; a negative one panics when it is converted to \<^verbatim>\<open>u32\<close>.\<close>

definition local_depth :: "conv \<Rightarrow> u32 \<Rightarrow> u32" where
  "local_depth c idx = of_nat (length (stack c)) - 1 - idx"

definition expect_depth :: "u32 \<Rightarrow> u32 res" where
  "expect_depth d = (if 0 \<le> sint d then Inr d else Inl (Panic ''Local out of range''))"

definition convert_get_local :: "conv \<Rightarrow> u32 \<Rightarrow> emitted res" where
  "convert_get_local c local_index =
     bind_res (expect_depth (local_depth c local_index - 1)) (\<lambda>depth. Inr [Pick depth])"

definition convert_set_local :: "conv \<Rightarrow> u32 \<Rightarrow> emitted res" where
  "convert_set_local c local_index =
     bind_res (expect_depth (local_depth c local_index + 1)) (\<lambda>depth. Inr [Swap depth, Drop (0, 0)])"

definition convert_tee_local :: "conv \<Rightarrow> u32 \<Rightarrow> emitted res" where
  "convert_tee_local c local_index =
     bind_res (expect_depth (local_depth c local_index + 1)) (\<lambda>depth.
     Inr [Pick 0, Swap depth, Drop (0, 0)])"

section \<open>The iterator\<close>

definition emit :: "emitted \<Rightarrow> conv \<Rightarrow> (emitted \<times> conv) res" where
  "emit ops c = Inr (ops, c)"

definition convert_op :: "wasm_operator \<Rightarrow> conv \<Rightarrow> (emitted \<times> conv) res" where
  "convert_op op c =
     (case op of
        WUnreachable \<Rightarrow> emit [Unreachable] (c\<lparr>unreachable := True\<rparr>)
      | WNop \<Rightarrow> emit [] c
      | WBlock ty \<Rightarrow> convert_block c ty
      | WLoop ty \<Rightarrow> convert_loop c ty
      | WIf ty \<Rightarrow> convert_if c ty
      | WElse \<Rightarrow> convert_else c
      | WEnd \<Rightarrow> convert_end c
      | WBr relative_depth \<Rightarrow> convert_br c relative_depth
      | WBrIf relative_depth \<Rightarrow> convert_br_if c relative_depth
      | WBrTable table \<Rightarrow> convert_br_table c table
      | WReturn \<Rightarrow> convert_return c
      | WCall function_index \<Rightarrow> emit [Call function_index] c
      | WCallIndirect index table_index \<Rightarrow> emit [CallIndirect index table_index] c
      | WDrop \<Rightarrow> emit [Drop (0, 0)] c
      | WSelect \<Rightarrow> emit [Select] c
      | WGetLocal local_index \<Rightarrow> bind_res (convert_get_local c local_index) (\<lambda>ops. emit ops c)
      | WSetLocal local_index \<Rightarrow> bind_res (convert_set_local c local_index) (\<lambda>ops. emit ops c)
      | WTeeLocal local_index \<Rightarrow> bind_res (convert_tee_local c local_index) (\<lambda>ops. emit ops c)
      | WGetGlobal global_index \<Rightarrow> emit [GetGlobal global_index] c
      | WSetGlobal global_index \<Rightarrow> emit [SetGlobal global_index] c
      | WLoad op memarg \<Rightarrow> emit [convert_load op memarg] c
      | WStore op memarg \<Rightarrow> emit [convert_store op memarg] c
      | WMemorySize reserved \<Rightarrow> emit [MemorySize reserved] c
      | WMemoryGrow reserved \<Rightarrow> emit [MemoryGrow reserved] c
      | WI32Const v \<Rightarrow> emit [Const (VI32 v)] c
      | WI64Const v \<Rightarrow> emit [Const (VI64 v)] c
      | WF32Const v \<Rightarrow> emit [Const (VF32 v)] c
      | WF64Const v \<Rightarrow> emit [Const (VF64 v)] c
      | WInt sz op \<Rightarrow> emit [Numeric (convert_int sz op)] c
      | WFloat sz op \<Rightarrow> emit [Numeric (convert_float sz op)] c
      | WConv op \<Rightarrow> bind_res (convert_conversion op) (\<lambda>n. emit [Numeric n] c)
      | WUnsupported \<Rightarrow> Inl (Panic ''not yet implemented''))"

text \<open>The loop over unreachable code: it stops at the \<^verbatim>\<open>else\<close> (\<open>True\<close>) or \<^verbatim>\<open>end\<close> (\<open>False\<close>) of the
  innermost frame.\<close>

fun skip_dead :: "wasm_operator list \<Rightarrow> nat \<Rightarrow> (bool \<times> wasm_operator list) res" where
  "skip_dead [] depth = Inl (Err ''unexpected end'')"
| "skip_dead (op # ops) depth =
     (case op of
        WBlock _ \<Rightarrow> skip_dead ops (depth + 1)
      | WLoop _ \<Rightarrow> skip_dead ops (depth + 1)
      | WIf _ \<Rightarrow> skip_dead ops (depth + 1)
      | WElse \<Rightarrow> if depth = 0 then Inr (True, ops) else skip_dead ops depth
      | WEnd \<Rightarrow> if depth = 0 then Inr (False, ops) else skip_dead ops (depth - 1)
      | _ \<Rightarrow> skip_dead ops depth)"

definition resume_else :: "conv \<Rightarrow> (emitted \<times> conv) res" where
  "resume_else c =
     bind_res (last_frame c) (\<lambda>block.
     let c = truncate (cf_arguments block) c; c = set_last_frame (set_has_else block) c
     in Inr ([Label (cf_id block, Else)], c))"

text \<open>\<open>None\<close> is the end of the iteration.\<close>

definition resume_end :: "conv \<Rightarrow> (emitted option \<times> conv) res" where
  "resume_end c =
     bind_res (pop_frame c) (\<lambda>(block, c).
     if control_frames c = [] then Inr (None, c\<lparr>is_done := True\<rparr>)
     else let c = truncate (cf_arguments block) c;
              c = c\<lparr>stack := stack c @ cf_returns block\<rparr>;
              end_label = (cf_id block, End)
          in if cf_kind block = FIf False
             then Inr (Some [Label (cf_id block, Else), Br (TgtLabel end_label), Label end_label], c)
             else Inr (Some [Label end_label], c))"

definition conv_next :: "module_context \<Rightarrow> conv \<Rightarrow> (emitted option \<times> conv) res" where
  "conv_next m c =
     (if is_done c then Inr (None, c)
      else case consts_to_emit c of
        Some consts \<Rightarrow> Inr (Some (map Const consts), c\<lparr>consts_to_emit := None\<rparr>)
      | None \<Rightarrow>
          if unreachable c
          then bind_res (skip_dead (internal c) 0) (\<lambda>(at_else, ops).
               let c = c\<lparr>unreachable := False, internal := ops\<rparr> in
               if at_else then bind_res (resume_else c) (\<lambda>(out, c). Inr (Some out, c))
               else resume_end c)
          else case internal c of
            [] \<Rightarrow> Inl (Err ''unexpected end'')
          | op # ops \<Rightarrow>
              let c = c\<lparr>internal := ops\<rparr> in
              bind_res (op_sig_of m c op) (\<lambda>sg.
              bind_res (apply_op c sg) (\<lambda>c.
              bind_res (convert_op op c) (\<lambda>(out, c). Inr (Some out, c)))))"

end
