(* ===== verification/Microwasm_Typing.thy ===== *)
theory Microwasm_Typing
  imports Microwasm_Conv
begin

text \<open>
  What it means for microwasm to be well formed, and for a WebAssembly function body to be valid.

  The rules for microwasm are those of the documentation of \<^verbatim>\<open>Operator\<close>: a block is defined before it
  is branched to and a block starts only when the one before is closed. For a branch to a label they
  are stricter: the documentation discards what is on the stack below the parameters of the target,
  and here nothing may be left there, so what is well formed here is so by the documentation.

  The bodies that are valid here are a fragment of the valid bodies of WebAssembly: blocks have no
  parameters and at most one result, calls have at most one result, there are no sign extensions,
  which are not implemented, and no
  branches back to a loop with a result from a place with operands above those of the loop, which are
  translated wrongly. Code after a branch only has to be well nested.
\<close>

section \<open>Types of microwasm operators\<close>

fun signless :: "signful_type \<Rightarrow> signless_type" where
  "signless (IntT (SignfulInt _ sz)) = IntT sz"
| "signless (FloatT sz) = FloatT sz"

fun int_size :: "signful_int \<Rightarrow> bitsize" where
  "int_size (SignfulInt _ sz) = sz"

type_synonym fun_type = "signless_type list \<times> signless_type list"

definition numeric_type :: "numeric_operator \<Rightarrow> fun_type" where
  "numeric_type op =
     (let cmp = (\<lambda>t. ([t, t], [I32])); bin = (\<lambda>t. ([t, t], [t])); un = (\<lambda>t. ([t], [t])) in
      case op of
        Eq t \<Rightarrow> cmp t | Ne t \<Rightarrow> cmp t | Eqz sz \<Rightarrow> ([IntT sz], [I32])
      | Lt t \<Rightarrow> cmp (signless t) | Gt t \<Rightarrow> cmp (signless t)
      | Le t \<Rightarrow> cmp (signless t) | Ge t \<Rightarrow> cmp (signless t)
      | Add t \<Rightarrow> bin t | Sub t \<Rightarrow> bin t | Mul t \<Rightarrow> bin t
      | Clz sz \<Rightarrow> un (IntT sz) | Ctz sz \<Rightarrow> un (IntT sz) | Popcnt sz \<Rightarrow> un (IntT sz)
      | Div t \<Rightarrow> bin (signless t) | Rem t \<Rightarrow> bin (IntT (int_size t))
      | And sz \<Rightarrow> bin (IntT sz) | Or sz \<Rightarrow> bin (IntT sz) | Xor sz \<Rightarrow> bin (IntT sz)
      | Shl sz \<Rightarrow> bin (IntT sz) | Shr t \<Rightarrow> bin (IntT (int_size t))
      | Rotl sz \<Rightarrow> bin (IntT sz) | Rotr sz \<Rightarrow> bin (IntT sz)
      | Abs sz \<Rightarrow> un (FloatT sz) | Neg sz \<Rightarrow> un (FloatT sz) | Ceil sz \<Rightarrow> un (FloatT sz)
      | Floor sz \<Rightarrow> un (FloatT sz) | Trunc sz \<Rightarrow> un (FloatT sz) | Nearest sz \<Rightarrow> un (FloatT sz)
      | Sqrt sz \<Rightarrow> un (FloatT sz)
      | Min sz \<Rightarrow> bin (FloatT sz) | Max sz \<Rightarrow> bin (FloatT sz) | Copysign sz \<Rightarrow> bin (FloatT sz)
      | I32WrapFromI64 \<Rightarrow> ([I64], [I32])
      | ITruncFromF input_ty output_ty \<Rightarrow> ([FloatT input_ty], [IntT (int_size output_ty)])
      | FConvertFromI input_ty output_ty \<Rightarrow> ([IntT (int_size input_ty)], [FloatT output_ty])
      | F32DemoteFromF64 \<Rightarrow> ([F64], [F32]) | F64PromoteFromF32 \<Rightarrow> ([F32], [F64])
      | I32ReinterpretFromF32 \<Rightarrow> ([F32], [I32]) | I64ReinterpretFromF64 \<Rightarrow> ([F64], [I64])
      | F32ReinterpretFromI32 \<Rightarrow> ([I32], [F32]) | F64ReinterpretFromI64 \<Rightarrow> ([I64], [F64])
      | Extend _ \<Rightarrow> ([I32], [I64]))"

text \<open>The operators that take and give fixed types.\<close>

definition plain_type :: "module_context \<Rightarrow> wasm_label operator \<Rightarrow> fun_type option" where
  "plain_type m op =
     (case op of
        Call f \<Rightarrow> Some (func_type m f)
      | CallIndirect t _ \<Rightarrow> Some (fst (signature m t) @ [I32], snd (signature m t))
      | GetGlobal i \<Rightarrow> Some ([], [global_type m i])
      | SetGlobal i \<Rightarrow> Some ([global_type m i], [])
      | Load t _ \<Rightarrow> Some ([I32], [t])
      | Load8 t _ \<Rightarrow> Some ([I32], [IntT (int_size t)])
      | Load16 t _ \<Rightarrow> Some ([I32], [IntT (int_size t)])
      | Load32 _ _ \<Rightarrow> Some ([I32], [I64])
      | Store t _ \<Rightarrow> Some ([I32, t], [])
      | Store8 sz _ \<Rightarrow> Some ([I32, IntT sz], [])
      | Store16 sz _ \<Rightarrow> Some ([I32, IntT sz], [])
      | Store32 _ \<Rightarrow> Some ([I32, I64], [])
      | MemorySize _ \<Rightarrow> Some ([], [I32])
      | MemoryGrow _ \<Rightarrow> Some ([I32], [I32])
      | Const v \<Rightarrow> Some ([], [type_of_value v])
      | Numeric n \<Rightarrow> Some (numeric_type n)
      | _ \<Rightarrow> None)"

section \<open>Well-formed microwasm\<close>

text \<open>\<open>pops ts s\<close> takes \<open>ts\<close> off the top of \<open>s\<close>; \<open>drop_range\<close> removes a range of depths.\<close>

definition pops :: "'a list \<Rightarrow> 'a list \<Rightarrow> 'a list option" where
  "pops ts s =
     (let n = length s - length ts in
      if length ts \<le> length s \<and> drop n s = ts then Some (take n s) else None)"

definition drop_range :: "range_incl \<Rightarrow> 'a list \<Rightarrow> 'a list option" where
  "drop_range r s =
     (let a = unat (fst r); b = unat (snd r) in
      if a \<le> b \<and> b < length s then Some (take (length s - 1 - b) s @ drop (length s - a) s) else None)"

text \<open>The blocks defined so far with their parameters, the blocks started, the blocks branched to, and
  the types on the stack, unless the current block is closed.\<close>

record check_state =
  cs_blocks :: "wasm_label \<rightharpoonup> signless_type list"
  cs_started :: "wasm_label set"
  cs_targets :: "wasm_label set"
  cs_cur :: "signless_type list option"

definition check_init :: "signless_type list \<Rightarrow> check_state" where
  "check_init params = \<lparr>cs_blocks = Map.empty, cs_started = {}, cs_targets = {}, cs_cur = Some params\<rparr>"

definition target_ok :: "signless_type list \<Rightarrow> check_state \<Rightarrow> signless_type list \<Rightarrow> wasm_label br_target \<Rightarrow> bool" where
  "target_ok rets cs s t =
     (case t of TgtReturn \<Rightarrow> pops rets s \<noteq> None | TgtLabel l \<Rightarrow> cs_blocks cs l = Some s)"

definition target_drop_ok ::
  "signless_type list \<Rightarrow> check_state \<Rightarrow> signless_type list \<Rightarrow> wasm_label br_target_drop \<Rightarrow> bool" where
  "target_drop_ok rets cs s t =
     (case to_drop_of t of
        None \<Rightarrow> target_ok rets cs s (tgt t)
      | Some r \<Rightarrow> (case drop_range r s of None \<Rightarrow> False | Some s' \<Rightarrow> target_ok rets cs s' (tgt t)))"

definition target_labels :: "wasm_label br_target list \<Rightarrow> wasm_label set" where
  "target_labels ts = {l. TgtLabel l \<in> set ts}"

text \<open>A branch to all of \<open>ts\<close> closes the block.\<close>

definition branch :: "wasm_label br_target list \<Rightarrow> check_state \<Rightarrow> check_state" where
  "branch ts cs = cs\<lparr>cs_targets := cs_targets cs \<union> target_labels ts, cs_cur := None\<rparr>"

abbreviation with_stack :: "check_state \<Rightarrow> signless_type list \<Rightarrow> check_state" where
  "with_stack cs s \<equiv> cs\<lparr>cs_cur := Some s\<rparr>"

definition check_stack_op ::
  "module_context \<Rightarrow> signless_type list \<Rightarrow> wasm_label operator \<Rightarrow> signless_type list \<Rightarrow> check_state \<Rightarrow> check_state option" where
  "check_stack_op m rets op s cs =
     (case op of
        Unreachable \<Rightarrow> Some (cs\<lparr>cs_cur := None\<rparr>)
      | Br t \<Rightarrow> if target_ok rets cs s t then Some (branch [t] cs) else None
      | BrIf thn els \<Rightarrow>
          do { s' \<leftarrow> pops [I32] s;
               if target_drop_ok rets cs s' thn \<and> target_drop_ok rets cs s' els
               then Some (branch [tgt thn, tgt els] cs) else None }
      | BrTable ts d \<Rightarrow>
          do { s' \<leftarrow> pops [I32] s;
               if (\<forall>t \<in> set (d # ts). target_drop_ok rets cs s' t)
               then Some (branch (map tgt (d # ts)) cs) else None }
      | Drop r \<Rightarrow> do { s' \<leftarrow> drop_range r s; Some (with_stack cs s') }
      | Select \<Rightarrow>
          do { s' \<leftarrow> pops [I32] s;
               if s' = [] then None
               else do { s'' \<leftarrow> pops [last s', last s'] s'; Some (with_stack cs (s'' @ [last s'])) } }
      | Pick d \<Rightarrow>
          if unat d < length s then Some (with_stack cs (s @ [s ! (length s - 1 - unat d)])) else None
      | Swap d \<Rightarrow>
          if unat d < length s
          then Some (with_stack cs (s[length s - 1 := s ! (length s - 1 - unat d),
                                      length s - 1 - unat d := last s]))
          else None
      | _ \<Rightarrow>
          do { (ins, outs) \<leftarrow> plain_type m op; s' \<leftarrow> pops ins s; Some (with_stack cs (s' @ outs)) })"

definition check_op ::
  "module_context \<Rightarrow> signless_type list \<Rightarrow> wasm_label operator \<Rightarrow> check_state \<Rightarrow> check_state option" where
  "check_op m rets op cs =
     (case op of
        Block l params _ _ \<Rightarrow>
          if cs_blocks cs l = None then Some (cs\<lparr>cs_blocks := (cs_blocks cs)(l \<mapsto> params)\<rparr>) else None
      | Label l \<Rightarrow>
          (case cs_blocks cs l of
             Some params \<Rightarrow>
               if cs_cur cs = None \<and> l \<notin> cs_started cs
               then Some (cs\<lparr>cs_started := insert l (cs_started cs), cs_cur := Some params\<rparr>) else None
           | None \<Rightarrow> None)
      | _ \<Rightarrow> (case cs_cur cs of Some s \<Rightarrow> check_stack_op m rets op s cs | None \<Rightarrow> None))"

fun check_ops ::
  "module_context \<Rightarrow> signless_type list \<Rightarrow> emitted \<Rightarrow> check_state \<Rightarrow> check_state option" where
  "check_ops m rets [] cs = Some cs"
| "check_ops m rets (op # ops) cs = Option.bind (check_op m rets op cs) (check_ops m rets ops)"

text \<open>A whole function: every block that is branched to has a body, and the last block is closed.\<close>

definition well_formed ::
  "module_context \<Rightarrow> signless_type list \<Rightarrow> signless_type list \<Rightarrow> emitted \<Rightarrow> bool" where
  "well_formed m params rets ops \<longleftrightarrow>
     (case check_ops m rets ops (check_init params) of
        Some cs \<Rightarrow> cs_targets cs \<subseteq> cs_started cs \<and> cs_cur cs = None
      | None \<Rightarrow> False)"

section \<open>Valid WebAssembly\<close>

fun load_result :: "load_op \<Rightarrow> signless_type" where
  "load_result F32Load = F32"
| "load_result F64Load = F64"
| "load_result op = (if op \<in> {I32Load, I32Load8S, I32Load8U, I32Load16S, I32Load16U} then I32 else I64)"

fun store_value :: "store_op \<Rightarrow> signless_type" where
  "store_value F32Store = F32"
| "store_value F64Store = F64"
| "store_value op = (if op \<in> {I32Store, I32Store8, I32Store16} then I32 else I64)"

definition int_type :: "bitsize \<Rightarrow> int_op \<Rightarrow> fun_type" where
  "int_type sz op =
     (let t = IntT sz in
      if op = IEqz then ([t], [I32])
      else if op \<in> {IEq, INe, ILtS, ILtU, IGtS, IGtU, ILeS, ILeU, IGeS, IGeU} then ([t, t], [I32])
      else if op \<in> {IClz, ICtz, IPopcnt} then ([t], [t]) else ([t, t], [t]))"

definition float_type :: "bitsize \<Rightarrow> float_op \<Rightarrow> fun_type" where
  "float_type sz op =
     (let t = FloatT sz in
      if op \<in> {FEq, FNe, FLt, FGt, FLe, FGe} then ([t, t], [I32])
      else if op \<in> {FAbs, FNeg, FCeil, FFloor, FTrunc, FNearest, FSqrt} then ([t], [t])
      else ([t, t], [t]))"

text \<open>The sign-extension operators are not supported by the translation.\<close>

definition conversion_type :: "conv_op \<Rightarrow> fun_type option" where
  "conversion_type op =
     (if op = I32WrapI64 then Some ([I64], [I32])
      else if op \<in> {I32TruncSF32, I32TruncUF32, I32ReinterpretF32} then Some ([F32], [I32])
      else if op \<in> {I32TruncSF64, I32TruncUF64} then Some ([F64], [I32])
      else if op \<in> {I64ExtendSI32, I64ExtendUI32} then Some ([I32], [I64])
      else if op \<in> {I64TruncSF32, I64TruncUF32} then Some ([F32], [I64])
      else if op \<in> {I64TruncSF64, I64TruncUF64, I64ReinterpretF64} then Some ([F64], [I64])
      else if op \<in> {F32ConvertSI32, F32ConvertUI32, F32ReinterpretI32} then Some ([I32], [F32])
      else if op \<in> {F32ConvertSI64, F32ConvertUI64} then Some ([I64], [F32])
      else if op = F32DemoteF64 then Some ([F64], [F32])
      else if op \<in> {F64ConvertSI32, F64ConvertUI32} then Some ([I32], [F64])
      else if op \<in> {F64ConvertSI64, F64ConvertUI64, F64ReinterpretI64} then Some ([I64], [F64])
      else if op = F64PromoteF32 then Some ([F32], [F64])
      else None)"

text \<open>Functions have at most one result.\<close>

definition wasm_plain :: "module_context \<Rightarrow> wasm_operator \<Rightarrow> fun_type option" where
  "wasm_plain m op =
     (case op of
        WCall f \<Rightarrow> if length (snd (func_type m f)) \<le> 1 then Some (func_type m f) else None
      | WCallIndirect t _ \<Rightarrow>
          if length (snd (signature m t)) \<le> 1
          then Some (fst (signature m t) @ [I32], snd (signature m t)) else None
      | WGetGlobal i \<Rightarrow> Some ([], [global_type m i])
      | WSetGlobal i \<Rightarrow> Some ([global_type m i], [])
      | WLoad op _ \<Rightarrow> Some ([I32], [load_result op])
      | WStore op _ \<Rightarrow> Some ([I32, store_value op], [])
      | WMemorySize _ \<Rightarrow> Some ([], [I32])
      | WMemoryGrow _ \<Rightarrow> Some ([I32], [I32])
      | WI32Const _ \<Rightarrow> Some ([], [I32])
      | WI64Const _ \<Rightarrow> Some ([], [I64])
      | WF32Const _ \<Rightarrow> Some ([], [F32])
      | WF64Const _ \<Rightarrow> Some ([], [F64])
      | WInt sz op \<Rightarrow> Some (int_type sz op)
      | WFloat sz op \<Rightarrow> Some (float_type sz op)
      | WConv op \<Rightarrow> conversion_type op
      | _ \<Rightarrow> None)"

text \<open>A frame keeps the operands of the block around it; an \<^verbatim>\<open>if\<close> becomes \<open>VElse\<close> at its \<^verbatim>\<open>else\<close>.\<close>

datatype vkind = VBlock | VLoop | VIf | VElse

record vframe =
  vf_kind :: vkind
  vf_results :: "signless_type list"
  vf_outer :: "signless_type list"

record vstate =
  vs_frames :: "vframe list"
  vs_ops :: "signless_type list"

definition block_results :: "type_or_func_type \<Rightarrow> signless_type list option" where
  "block_results ty =
     (case ty of
        TypeT WI32 \<Rightarrow> Some [I32] | TypeT WI64 \<Rightarrow> Some [I64] | TypeT WF32 \<Rightarrow> Some [F32]
      | TypeT WF64 \<Rightarrow> Some [F64] | TypeT WEmptyBlockType \<Rightarrow> Some [] | _ \<Rightarrow> None)"

definition enter :: "vkind \<Rightarrow> type_or_func_type \<Rightarrow> signless_type list \<Rightarrow> vstate \<Rightarrow> vstate option" where
  "enter kind ty ops v =
     do { rs \<leftarrow> block_results ty;
          Some \<lparr>vs_frames = \<lparr>vf_kind = kind, vf_results = rs, vf_outer = ops\<rparr> # vs_frames v, vs_ops = []\<rparr> }"

text \<open>A branch of depth \<open>d\<close>: the operands have the types of the label on top. The last clause leaves
  out branches back to a loop that has a result, from a place with operands above those of the loop.\<close>

definition branch_valid :: "signless_type list \<Rightarrow> vstate \<Rightarrow> signless_type list \<Rightarrow> u32 \<Rightarrow> bool" where
  "branch_valid rets v ops d \<longleftrightarrow>
     (if unat d < length (vs_frames v)
      then let f = vs_frames v ! unat d in
           if vf_kind f = VLoop
           then vf_results f = [] \<or> concat (map vf_outer (take (unat d) (vs_frames v))) @ ops = []
           else pops (vf_results f) ops \<noteq> None
      else unat d = length (vs_frames v) \<and> pops rets ops \<noteq> None)"

text \<open>The step of validation: the state after the operator and whether the code after it is dead.\<close>

definition vstep ::
  "module_context \<Rightarrow> signless_type list \<Rightarrow> signless_type list \<Rightarrow> wasm_operator \<Rightarrow> vstate \<Rightarrow> (bool \<times> vstate) option" where
  "vstep m locals rets op v =
     (let ops = vs_ops v; on = (\<lambda>ops. Some (False, v\<lparr>vs_ops := ops\<rparr>)) in
      case op of
        WUnreachable \<Rightarrow> Some (True, v)
      | WNop \<Rightarrow> Some (False, v)
      | WBlock ty \<Rightarrow> map_option (Pair False) (enter VBlock ty ops v)
      | WLoop ty \<Rightarrow> map_option (Pair False) (enter VLoop ty ops v)
      | WIf ty \<Rightarrow> do { ops' \<leftarrow> pops [I32] ops; map_option (Pair False) (enter VIf ty ops' v) }
      | WElse \<Rightarrow>
          (case vs_frames v of
             f # fs \<Rightarrow>
               if vf_kind f = VIf \<and> ops = vf_results f
               then Some (False, \<lparr>vs_frames = f\<lparr>vf_kind := VElse\<rparr> # fs, vs_ops = []\<rparr>) else None
           | [] \<Rightarrow> None)
      | WEnd \<Rightarrow>
          (case vs_frames v of
             f # fs \<Rightarrow>
               if ops = vf_results f \<and> (vf_kind f = VIf \<longrightarrow> vf_results f = [])
               then Some (False, \<lparr>vs_frames = fs, vs_ops = vf_outer f @ vf_results f\<rparr>) else None
           | [] \<Rightarrow> None)
      | WBr d \<Rightarrow> if branch_valid rets v ops d then Some (True, v) else None
      | WBrIf d \<Rightarrow>
          do { ops' \<leftarrow> pops [I32] ops; if branch_valid rets v ops' d then on ops' else None }
      | WBrTable table \<Rightarrow>
          (case table of
             Inr (ds, d) \<Rightarrow>
               do { ops' \<leftarrow> pops [I32] ops;
                    if (\<forall>d \<in> set (d # ds). branch_valid rets v ops' d)
                    then Some (True, v\<lparr>vs_ops := ops'\<rparr>) else None }
           | Inl _ \<Rightarrow> None)
      | WReturn \<Rightarrow> if pops rets ops \<noteq> None then Some (True, v) else None
      | WDrop \<Rightarrow> if ops \<noteq> [] then on (butlast ops) else None
      | WSelect \<Rightarrow>
          do { ops' \<leftarrow> pops [I32] ops;
               if ops' = [] then None
               else do { ops'' \<leftarrow> pops [last ops', last ops'] ops'; on (ops'' @ [last ops']) } }
      | WGetLocal i \<Rightarrow> if unat i < length locals then on (ops @ [locals ! unat i]) else None
      | WSetLocal i \<Rightarrow>
          if unat i < length locals then do { ops' \<leftarrow> pops [locals ! unat i] ops; on ops' } else None
      | WTeeLocal i \<Rightarrow>
          if unat i < length locals \<and> pops [locals ! unat i] ops \<noteq> None then on ops else None
      | _ \<Rightarrow> do { (ins, outs) \<leftarrow> wasm_plain m op; ops' \<leftarrow> pops ins ops; on (ops' @ outs) })"

text \<open>The whole body, up to the \<^verbatim>\<open>end\<close> of the function. In dead code \<open>Some depth\<close> counts the blocks
  opened since.\<close>

definition leave_dead :: "vstate \<Rightarrow> vstate option" where
  "leave_dead v =
     (case vs_frames v of
        f # fs \<Rightarrow>
          if vf_kind f = VIf \<longrightarrow> vf_results f = []
          then Some \<lparr>vs_frames = fs, vs_ops = vf_outer f @ vf_results f\<rparr> else None
      | [] \<Rightarrow> None)"

definition else_dead :: "vstate \<Rightarrow> vstate option" where
  "else_dead v =
     (case vs_frames v of
        f # fs \<Rightarrow>
          if vf_kind f = VIf then Some \<lparr>vs_frames = f\<lparr>vf_kind := VElse\<rparr> # fs, vs_ops = []\<rparr> else None
      | [] \<Rightarrow> None)"

fun valid_body ::
  "module_context \<Rightarrow> signless_type list \<Rightarrow> signless_type list \<Rightarrow> nat option \<Rightarrow> vstate \<Rightarrow> wasm_operator list \<Rightarrow> bool" where
  "valid_body m locals rets dead v [] = False"
| "valid_body m locals rets None v (op # ops) =
     (if op = WEnd \<and> vs_frames v = [] then vs_ops v = rets \<and> ops = []
      else case vstep m locals rets op v of
        None \<Rightarrow> False
      | Some (dead, v') \<Rightarrow> valid_body m locals rets (if dead then Some 0 else None) v' ops)"
| "valid_body m locals rets (Some depth) v (op # ops) =
     (case op of
        WBlock _ \<Rightarrow> valid_body m locals rets (Some (Suc depth)) v ops
      | WLoop _ \<Rightarrow> valid_body m locals rets (Some (Suc depth)) v ops
      | WIf _ \<Rightarrow> valid_body m locals rets (Some (Suc depth)) v ops
      | WElse \<Rightarrow>
          if depth = 0
          then (case else_dead v of Some v' \<Rightarrow> valid_body m locals rets None v' ops | None \<Rightarrow> False)
          else valid_body m locals rets (Some depth) v ops
      | WEnd \<Rightarrow>
          if depth = 0
          then (if vs_frames v = [] then ops = []
                else case leave_dead v of Some v' \<Rightarrow> valid_body m locals rets None v' ops | None \<Rightarrow> False)
          else valid_body m locals rets (Some (depth - 1)) v ops
      | _ \<Rightarrow> valid_body m locals rets (Some depth) v ops)"

definition valid_function ::
  "module_context \<Rightarrow> signless_type list \<Rightarrow> signless_type list \<Rightarrow> wasm_operator list \<Rightarrow> bool" where
  "valid_function m locals rets ops \<longleftrightarrow> valid_body m locals rets None \<lparr>vs_frames = [], vs_ops = []\<rparr> ops"

end
