(* ===== verification/Microwasm_Sound.thy ===== *)
theory Microwasm_Sound
  imports Microwasm_Typing
begin

text \<open>
  The translation of a valid function body is well-formed microwasm: the translation neither panics
  nor fails, it ends with the body, and every branch finds the block it names with the parameters it
  passes.
\<close>

section \<open>The stack of types\<close>

lemma pops_iff: "pops ts s = Some s' \<longleftrightarrow> s = s' @ ts"
  by (auto simp: pops_def Let_def) (metis append_take_drop_id)

lemma pops_append [simp]: "pops ts (s @ ts) = Some s"
  by (simp add: pops_iff)

lemma pops_nil [simp]: "pops [] s = Some s"
  by (simp add: pops_iff)

lemma pops_one [simp]: "pops [t] (s @ [t]) = Some s"
  by (simp add: pops_iff)

lemma pop_inputs_concrete: "pop_inputs (rev (map Concrete ins)) (s @ ins) ty = Inr (s, ty)"
proof (induction ins arbitrary: s rule: rev_induct)
  case (snoc t ins)
  then show ?case by (simp flip: append_assoc)
qed simp

lemma push_outputs_concrete: "push_outputs (rev (map Concrete outs)) s ty = Inr (s @ rev outs)"
proof (induction outs arbitrary: s rule: rev_induct)
  case (snoc t outs)
  then show ?case by (simp flip: append_assoc)
qed simp

lemma apply_op_concrete:
  assumes "stack c = s @ ins"
  shows "apply_op c (sig ins outs) = Inr (c\<lparr>stack := s @ rev outs\<rparr>)"
  using pop_inputs_concrete [of ins s None] push_outputs_concrete [of outs s None] assms
  by (simp add: apply_op_def)

lemma rev_single [simp]: "length xs \<le> 1 \<Longrightarrow> rev xs = xs"
  by (cases xs) auto

lemma int_op_plain:
  "int_sig sz op = sig (fst (int_type sz op)) (snd (int_type sz op))"
  "numeric_type (convert_int sz op) = int_type sz op" "length (snd (int_type sz op)) \<le> 1"
  by (cases op; simp add: int_sig_def int_type_def numeric_type_def convert_int_def Let_def)+

lemma float_op_plain:
  "float_sig sz op = sig (fst (float_type sz op)) (snd (float_type sz op))"
  "numeric_type (convert_float sz op) = float_type sz op" "length (snd (float_type sz op)) \<le> 1"
  by (cases op; simp add: float_sig_def float_type_def numeric_type_def convert_float_def Let_def)+

lemma conversion_plain:
  assumes "conversion_type op = Some (ins, outs)"
  shows "conversion_sig op = sig ins outs"
    and "\<exists>n. convert_conversion op = Inr n \<and> numeric_type n = (ins, outs)" and "length outs \<le> 1"
  using assms
  by (cases op; auto simp: conversion_sig_def conversion_type_def numeric_type_def convert_conversion_def Let_def)+

lemma load_plain:
  "load_sig op = sig [I32] [load_result op]"
  "plain_type m (convert_load op memarg) = Some ([I32], [load_result op])"
  by (cases op; simp add: load_sig_def convert_load_def plain_type_def)+

lemma store_plain:
  "store_sig op = sig [I32, store_value op] []"
  "plain_type m (convert_store op memarg) = Some ([I32, store_value op], [])"
  by (cases op; simp add: store_sig_def convert_store_def plain_type_def)+

text \<open>The tables of the translation agree with the types of WebAssembly and of microwasm.\<close>

lemma plain_op:
  assumes "wasm_plain m op = Some (ins, outs)"
  shows "op_sig_of m c op = Inr (sig ins outs)" and "length outs \<le> 1"
    and "\<exists>mop. convert_op op c' = Inr ([mop], c') \<and> plain_type m mop = Some (ins, outs)"
proof -
  show "op_sig_of m c op = Inr (sig ins outs)"
    using assms conversion_plain(1) int_op_plain(1) float_op_plain(1)
    by (cases op)
      (auto simp: wasm_plain_def op_sig_of_def op_sig_from_def load_plain store_plain Let_def split: if_splits)
  have "(\<exists>sz iop. op = WInt sz iop) \<or> (\<exists>sz fop. op = WFloat sz fop) \<or> (\<exists>cop. op = WConv cop) \<or> length outs \<le> 1"
    using assms by (cases op) (auto simp: wasm_plain_def split: if_splits)
  then show "length outs \<le> 1"
    using assms conversion_plain(3) int_op_plain(3) float_op_plain(3)
    by (auto simp: wasm_plain_def) (metis snd_conv)+
  show "\<exists>mop. convert_op op c' = Inr ([mop], c') \<and> plain_type m mop = Some (ins, outs)"
  proof (cases "\<exists>lop arg. op = WLoad lop arg \<or> (\<exists>sop. op = WStore sop arg)")
    case True
    then show ?thesis
      using assms by (auto simp: wasm_plain_def convert_op_def emit_def load_plain store_plain)
  next
    case False
    then show ?thesis
      using assms conversion_plain(2) [of _ ins outs] int_op_plain(2) float_op_plain(2)
      by (cases op)
        (fastforce simp: wasm_plain_def convert_op_def emit_def type_of_value_def plain_type_def
          split: if_splits)+
  qed
qed

section \<open>The simulation relation\<close>

text \<open>The frames of validation, innermost first, give the types below the operands of a frame.\<close>

primrec base_of :: "signless_type list \<Rightarrow> vframe list \<Rightarrow> signless_type list" where
  "base_of locals [] = locals"
| "base_of locals (f # fs) = base_of locals fs @ vf_outer f"

fun kind_rel :: "vkind \<Rightarrow> control_frame_kind \<Rightarrow> bool" where
  "kind_rel VBlock (FBlock _) = True"
| "kind_rel VLoop FLoop = True"
| "kind_rel VIf (FIf e) = (\<not> e)"
| "kind_rel VElse (FIf e) = e"
| "kind_rel _ _ = False"

definition frame_ok :: "check_state \<Rightarrow> signless_type list \<Rightarrow> vframe \<Rightarrow> control_frame \<Rightarrow> bool" where
  "frame_ok cs base vf cf \<longleftrightarrow>
     unat (cf_arguments cf) = length base \<and> cf_returns cf = vf_results vf \<and> length (vf_results vf) \<le> 1 \<and>
     kind_rel (vf_kind vf) (cf_kind cf) \<and>
     cs_blocks cs (cf_id cf, End) = Some (base @ vf_results vf) \<and> (cf_id cf, End) \<notin> cs_started cs \<and>
     (vf_kind vf = VLoop \<longrightarrow>
        cs_blocks cs (cf_id cf, Header) = Some base \<and> (cf_id cf, Header) \<in> cs_started cs) \<and>
     (vf_kind vf = VIf \<longrightarrow>
        cs_blocks cs (cf_id cf, Else) = Some base \<and> (cf_id cf, Else) \<notin> cs_started cs)"

fun frames_ok :: "check_state \<Rightarrow> signless_type list \<Rightarrow> vframe list \<Rightarrow> control_frame list \<Rightarrow> bool" where
  "frames_ok cs locals [] [] \<longleftrightarrow> True"
| "frames_ok cs locals (vf # vfs) (cf # cfs) \<longleftrightarrow>
     frame_ok cs (base_of locals (vf # vfs)) vf cf \<and> frames_ok cs locals vfs cfs"
| "frames_ok cs locals _ _ \<longleftrightarrow> False"

text \<open>The labels that will still be started.\<close>

definition pending :: "control_frame list \<Rightarrow> wasm_label set" where
  "pending cfs = {(cf_id cf, End) | cf. cf \<in> set cfs \<and> needs_end_label cf} \<union>
     {(cf_id cf, Else) | cf. cf \<in> set cfs \<and> cf_kind cf = FIf False}"

definition labels_ok :: "u32 \<Rightarrow> control_frame list \<Rightarrow> check_state \<Rightarrow> bool" where
  "labels_ok i cfs cs \<longleftrightarrow>
     distinct (map cf_id cfs) \<and> (\<forall>cf \<in> set cfs. cf_id cf < i) \<and> (\<forall>l \<in> dom (cs_blocks cs). fst l < i) \<and>
     cs_started cs \<subseteq> dom (cs_blocks cs) \<and> cs_targets cs \<subseteq> cs_started cs \<union> pending cfs"

definition conv_inv ::
  "signless_type list \<Rightarrow> signless_type list \<Rightarrow> control_frame \<Rightarrow> control_frame list \<Rightarrow> conv \<Rightarrow> vstate \<Rightarrow> check_state \<Rightarrow> bool" where
  "conv_inv locals rets ff cfs c v cs \<longleftrightarrow>
     control_frames c = ff # rev cfs \<and> cf_kind ff = FFunction \<and>
     unat (cf_arguments ff) = length locals \<and> cf_returns ff = rets \<and>
     frames_ok cs locals (vs_frames v) cfs \<and> labels_ok (current_id c) cfs cs \<and>
     stack c = base_of locals (vs_frames v) @ vs_ops v \<and>
     \<not> is_done c \<and> consts_to_emit c = None \<and>
     length (stack c) + length (internal c) < 2 ^ 31 - 1 \<and> unat (current_id c) + length (internal c) < 2 ^ 31"

lemma frames_ok_length: "frames_ok cs locals vfs cfs \<Longrightarrow> length vfs = length cfs"
  by (induction cs locals vfs cfs rule: frames_ok.induct) auto

lemma frames_ok_nth:
  "frames_ok cs locals vfs cfs \<Longrightarrow> k < length cfs \<Longrightarrow>
     frame_ok cs (base_of locals (drop k vfs)) (vfs ! k) (cfs ! k)"
proof (induction cs locals vfs cfs arbitrary: k rule: frames_ok.induct)
  case (2 cs locals vf vfs cf cfs)
  then show ?case by (cases k) auto
qed auto

lemma frames_ok_update:
  "frames_ok cs locals vfs cfs \<Longrightarrow> k < length cfs \<Longrightarrow>
     (\<And>base vf. frame_ok cs base vf (cfs ! k) \<Longrightarrow> frame_ok cs base vf cf') \<Longrightarrow>
     frames_ok cs locals vfs (cfs[k := cf'])"
proof (induction cs locals vfs cfs arbitrary: k rule: frames_ok.induct)
  case (2 cs locals vf vfs cf cfs)
  then show ?case by (cases k) auto
qed auto

text \<open>A frame only depends on its own labels.\<close>

definition same_labels :: "u32 set \<Rightarrow> check_state \<Rightarrow> check_state \<Rightarrow> bool" where
  "same_labels ids cs cs' \<longleftrightarrow>
     (\<forall>i \<in> ids. \<forall>tag. cs_blocks cs' (i, tag) = cs_blocks cs (i, tag) \<and>
        ((i, tag) \<in> cs_started cs' \<longleftrightarrow> (i, tag) \<in> cs_started cs))"

lemma frames_ok_same:
  "frames_ok cs locals vfs cfs \<Longrightarrow> same_labels (cf_id ` set cfs) cs cs' \<Longrightarrow> frames_ok cs' locals vfs cfs"
  by (induction cs locals vfs cfs rule: frames_ok.induct) (auto simp: frame_ok_def same_labels_def)

lemma base_of_drop:
  "\<exists>rest. base_of locals vfs = base_of locals (drop k vfs) @ rest \<and>
     (rest = [] \<longleftrightarrow> concat (map vf_outer (take k vfs)) = [])"
proof (induction vfs arbitrary: k)
  case (Cons f fs)
  then show ?case
  proof (cases k)
    case (Suc k')
    obtain rest where "base_of locals fs = base_of locals (drop k' fs) @ rest"
      "rest = [] \<longleftrightarrow> concat (map vf_outer (take k' fs)) = []" using Cons.IH [of k'] by blast
    then show ?thesis using Suc by (intro exI [of _ "rest @ vf_outer f"]) auto
  qed simp
qed simp

section \<open>Dropping operands before a branch\<close>

lemma to_drop_eq:
  assumes "stack c = base @ extra" "unat (cf_arguments f) = length base" "length (stack c) < 2 ^ 32"
    and "length (cf_returns f) < 2 ^ 32"
  shows "to_drop c f =
    (if length (cf_returns f) < length extra
     then Some (of_nat (length (cf_returns f)), of_nat (length extra - 1)) else None)"
proof -
  have sum: "length (stack c) = length base + length extra" using assms(1) by simp
  have len: "unat (of_nat (length (stack c)) :: u32) = length base + length extra"
    using unat_of_nat_u32 [OF assms(3)] unfolding sum .
  show ?thesis
  proof (cases "extra = []")
    case True
    have "checked_sub (of_nat (length (stack c)) :: u32) 1 = Some n \<Longrightarrow> checked_sub n (cf_arguments f) = None" for n
      using len True assms(2) by (auto simp: checked_sub_iff) (simp add: checked_sub_def)
    then show ?thesis
      using True by (cases "checked_sub (of_nat (length (stack c)) :: u32) 1") (auto simp: to_drop_def Let_def)
  next
    case False
    then obtain e where e: "length extra = Suc e" by (cases extra) auto
    define n where "n = length base + e"
    have "n < 2 ^ 32" "e < 2 ^ 32" using assms(3) sum e by (simp_all add: n_def)
    note un = unat_of_nat_u32 [OF this(1)] unat_of_nat_u32 [OF this(2)]
    have "checked_sub (of_nat (length (stack c)) :: u32) 1 = Some (of_nat n)"
      using len e un(1) by (simp add: checked_sub_iff) (simp add: n_def)
    moreover have "checked_sub (of_nat n) (cf_arguments f) = Some (of_nat e)"
      using assms(2) un by (simp add: checked_sub_iff) (simp add: n_def)
    moreover have "of_nat (length (cf_returns f)) \<le> (of_nat e :: u32) \<longleftrightarrow> length (cf_returns f) < length extra"
      using un(2) assms(4) e by (auto simp: word_le_nat_alt unat_of_nat_u32)
    ultimately show ?thesis by (simp add: to_drop_def Let_def e)
  qed
qed

text \<open>After the drop, the base of the frame and the operands it keeps are left.\<close>

definition after_drop :: "range_incl option \<Rightarrow> signless_type list \<Rightarrow> signless_type list option" where
  "after_drop d s = (case d of None \<Rightarrow> Some s | Some r \<Rightarrow> drop_range r s)"

lemma to_drop_result:
  assumes st: "stack c = base @ pre @ keep" and a: "unat (cf_arguments f) = length base"
    and lt: "length (stack c) < 2 ^ 31" and k: "length (cf_returns f) = length keep"
  shows "after_drop (to_drop c f) (stack c) = Some (base @ keep)"
proof (cases "pre = []")
  case True
  then show ?thesis using to_drop_eq [of c base "pre @ keep" f] assms by (simp add: after_drop_def)
next
  case False
  have "to_drop c f = Some (of_nat (length keep), of_nat (length (pre @ keep) - 1))"
    using to_drop_eq [of c base "pre @ keep" f] assms False by simp
  moreover have "unat (of_nat (length keep) :: u32) = length keep"
    "unat (of_nat (length (pre @ keep) - 1) :: u32) = length (pre @ keep) - 1"
    using st lt by (auto intro!: unat_of_nat_u32)
  moreover obtain x pre' where "pre = x # pre'" using False by (cases pre) auto
  ultimately show ?thesis
    using st by (auto simp: after_drop_def drop_range_def Let_def simp del: of_nat_add)
qed

lemma to_drop_loop:
  assumes "stack c = base" "unat (cf_arguments f) = length base" "length (stack c) < 2 ^ 31" "length (cf_returns f) \<le> 1"
  shows "after_drop (to_drop c f) (stack c) = Some base"
  using to_drop_eq [of c base "[]" f] assms by (simp add: after_drop_def)

lemma target_drop_ok_iff:
  "target_drop_ok rets cs s (BrTargetDrop t d) \<longleftrightarrow> (\<exists>s'. after_drop d s = Some s' \<and> target_ok rets cs s' t)"
  by (auto simp: target_drop_ok_def after_drop_def split: option.splits)

section \<open>Branches\<close>

definition marked :: "nat \<Rightarrow> control_frame list \<Rightarrow> control_frame list" where
  "marked d cfs = (if d < length cfs then cfs[d := mark_branched_to (cfs ! d)] else cfs)"

lemma mark_simps [simp]:
  "cf_id (mark_branched_to f) = cf_id f" "cf_arguments (mark_branched_to f) = cf_arguments f"
  "cf_returns (mark_branched_to f) = cf_returns f" "br_target (mark_branched_to f) = br_target f"
  "kind_rel k (cf_kind (mark_branched_to f)) = kind_rel k (cf_kind f)"
  "cf_kind (mark_branched_to f) = FIf e \<longleftrightarrow> cf_kind f = FIf e"
  "cf_kind f = FFunction \<Longrightarrow> mark_branched_to f = f"
  "to_drop c (mark_branched_to f) = to_drop c f"
  by (auto simp: mark_branched_to_def br_target_def to_drop_def split: control_frame_kind.splits)
    (cases k; simp)+

lemma to_drop_frames [simp]:
  "to_drop (c\<lparr>control_frames := fs\<rparr>) f = to_drop c f" "to_drop (c\<lparr>unreachable := u\<rparr>) f = to_drop c f"
  "to_drop (c\<lparr>current_id := i\<rparr>) f = to_drop c f" "to_drop (c\<lparr>internal := ops\<rparr>) f = to_drop c f"
  by (simp_all add: to_drop_def)

lemma marked_simps [simp]:
  "length (marked d cfs) = length cfs" "map cf_id (marked d cfs) = map cf_id cfs"
  by (auto simp: marked_def map_update intro!: list_update_same_conv [THEN iffD2])

lemma marked_nth: "k < length cfs \<Longrightarrow> marked d cfs ! k = (if k = d then mark_branched_to (cfs ! k) else cfs ! k)"
  by (simp add: marked_def)

lemma pending_mono: "pending cfs \<subseteq> pending (marked d cfs)"
proof -
  have "needs_end_label f \<Longrightarrow> needs_end_label (mark_branched_to f)" for f
    by (auto simp: needs_end_label_def mark_branched_to_def split: control_frame_kind.splits)
  then have keep: "\<exists>g \<in> set (marked d cfs). cf_id g = cf_id f \<and> (needs_end_label f \<longrightarrow> needs_end_label g) \<and>
      (cf_kind f = FIf False \<longrightarrow> cf_kind g = FIf False)" if f: "f \<in> set cfs" for f
  proof -
    obtain k where "k < length cfs" "f = cfs ! k" using f by (auto simp: in_set_conv_nth)
    then have "marked d cfs ! k \<in> set (marked d cfs)" "marked d cfs ! k = f \<or> marked d cfs ! k = mark_branched_to f"
      using nth_mem [of k "marked d cfs"] by (auto simp: marked_nth)
    then show ?thesis using \<open>needs_end_label f \<Longrightarrow> needs_end_label (mark_branched_to f)\<close> mark_simps(1,6) by metis
  qed
  show ?thesis unfolding pending_def using keep by (auto; metis)
qed

lemma marked_ids [simp]: "cf_id ` set (marked d cfs) = cf_id ` set cfs"
  by (metis list.set_map marked_simps(2))

lemma labels_ok_marked: "labels_ok i cfs cs \<Longrightarrow> labels_ok i (marked d cfs) cs"
proof -
  assume ok: "labels_ok i cfs cs"
  then have "cf_id ` set (marked d cfs) \<subseteq> {..<i}" unfolding marked_ids by (auto simp: labels_ok_def)
  then have "\<forall>cf \<in> set (marked d cfs). cf_id cf < i" by blast
  moreover have "cs_targets cs \<subseteq> cs_started cs \<union> pending (marked d cfs)"
    using ok pending_mono [of cfs d] unfolding labels_ok_def by blast
  ultimately show ?thesis using ok by (simp add: labels_ok_def)
qed

lemma frames_ok_marked: "frames_ok cs locals vfs cfs \<Longrightarrow> frames_ok cs locals vfs (marked d cfs)"
  unfolding marked_def by (auto intro!: frames_ok_update simp: frame_ok_def)

lemma inv_marked:
  assumes "conv_inv locals rets ff cfs c v cs"
  shows "conv_inv locals rets ff (marked d cfs) (c\<lparr>control_frames := ff # rev (marked d cfs)\<rparr>) v cs"
  using assms by (auto simp: conv_inv_def frames_ok_marked labels_ok_marked)

lemma inv_stack:
  assumes "conv_inv locals rets ff cfs c v cs"
  shows "stack c = base_of locals (vs_frames v) @ vs_ops v" "length (stack c) < 2 ^ 31"
    "unat (cf_arguments ff) = length locals" "cf_returns ff = rets" "cf_kind ff = FFunction"
    "control_frames c = ff # rev cfs" "frames_ok cs locals (vs_frames v) cfs"
    "labels_ok (current_id c) cfs cs"
  using assms by (auto simp: conv_inv_def)

lemma nth_block_at:
  assumes "control_frames c = ff # rev cfs" "unat d \<le> length cfs"
  shows "nth_block c d = Inr ((cfs @ [ff]) ! unat d)"
  using assms by (simp add: nth_block_def get_def unwrap_res_def)

lemma nth_block_mark:
  assumes "control_frames c = ff # rev cfs" "unat d \<le> length cfs" "cf_kind ff = FFunction"
  shows "nth_block_mut c d mark_branched_to = Inr (c\<lparr>control_frames := ff # rev (marked (unat d) cfs)\<rparr>)"
proof (cases "unat d < length cfs")
  case True
  then show ?thesis
    using assms(1) nth_block_at [OF assms(1,2)]
    by (simp add: nth_block_mut_def marked_def nth_append list_update_append)
next
  case False
  then have "unat d = length cfs" using assms(2) by simp
  then show ?thesis
    using assms nth_block_at [OF assms(1,2)]
    by (simp add: nth_block_mut_def marked_def list_update_append)
qed

text \<open>A valid branch finds its target with the parameters it has, and the target will be started.\<close>

lemma branch_frame:
  assumes inv: "conv_inv locals rets ff cfs c v cs" and d: "unat d < length cfs"
    and b: "branch_valid rets v (vs_ops v) d"
  shows "target_drop_ok rets cs (stack c) (BrTargetDrop (br_target (cfs ! unat d)) (to_drop c (cfs ! unat d)))"
proof -
  let ?f = "cfs ! unat d" and ?vf = "vs_frames v ! unat d" and ?base = "base_of locals (drop (unat d) (vs_frames v))"
  have ok: "frame_ok cs ?base ?vf ?f" and len: "length (vs_frames v) = length cfs"
    using inv d frames_ok_nth frames_ok_length by (auto simp: conv_inv_def)
  obtain rest where rest: "base_of locals (vs_frames v) = ?base @ rest"
    "rest = [] \<longleftrightarrow> concat (map vf_outer (take (unat d) (vs_frames v))) = []"
    using base_of_drop [of locals "vs_frames v" "unat d"] by blast
  have st: "stack c = ?base @ rest @ vs_ops v" using inv_stack(1) [OF inv] rest(1) by simp
  note lt = inv_stack(2) [OF inv]
  have args: "unat (cf_arguments ?f) = length ?base" "cf_returns ?f = vf_results ?vf" "length (vf_results ?vf) \<le> 1"
    using ok by (auto simp: frame_ok_def)
  show ?thesis
  proof (cases "vf_kind ?vf = VLoop")
    case True
    have "after_drop (to_drop c ?f) (stack c) = Some ?base"
    proof (cases "vf_results ?vf = []")
      case True
      then show ?thesis using to_drop_result [of c ?base "rest @ vs_ops v" "[]" ?f] st lt args by simp
    next
      case False
      then have "rest = []" "vs_ops v = []"
        using b True d len rest(2) by (auto simp: branch_valid_def Let_def)
      then show ?thesis using to_drop_loop [of c ?base ?f] st lt args by simp
    qed
    moreover have "cf_kind ?f = FLoop" using ok True by (cases "cf_kind ?f") (auto simp: frame_ok_def)
    ultimately show ?thesis
      using ok True by (simp add: target_drop_ok_iff target_ok_def br_target_def frame_ok_def)
  next
    case False
    then obtain pre where pre: "vs_ops v = pre @ vf_results ?vf"
      using b d len by (auto simp: branch_valid_def Let_def pops_iff)
    have "after_drop (to_drop c ?f) (stack c) = Some (?base @ vf_results ?vf)"
      using to_drop_result [of c ?base "rest @ pre" "vf_results ?vf" ?f] st lt args pre by simp
    moreover have "br_target ?f = TgtLabel (cf_id ?f, End)"
      using ok False by (cases "vf_kind ?vf"; cases "cf_kind ?f") (auto simp: frame_ok_def br_target_def)
    ultimately show ?thesis using ok by (simp add: target_drop_ok_iff target_ok_def frame_ok_def)
  qed
qed

lemma return_frame:
  assumes inv: "conv_inv locals rets ff cfs c v cs" and p: "pops rets (vs_ops v) \<noteq> None"
    and small: "length rets \<le> 1"
  shows "target_drop_ok rets cs (stack c) (BrTargetDrop (br_target ff) (to_drop c ff))"
proof -
  obtain pre where pre: "vs_ops v = pre @ rets" using p by (auto simp: pops_iff)
  obtain rest where rest: "base_of locals (vs_frames v) = locals @ rest"
    using base_of_drop [of locals "vs_frames v" "length (vs_frames v)"] by auto
  have "after_drop (to_drop c ff) (stack c) = Some (locals @ rets)"
    using to_drop_result [of c locals "rest @ pre" rets ff] inv_stack [OF inv] rest pre by simp
  moreover have "br_target ff = TgtReturn" using inv by (simp add: conv_inv_def br_target_def)
  ultimately show ?thesis by (simp add: target_drop_ok_iff target_ok_def)
qed

lemma branch_found:
  assumes inv: "conv_inv locals rets ff cfs c v cs" and b: "branch_valid rets v (vs_ops v) d" and small: "length rets \<le> 1"
  defines "f \<equiv> (cfs @ [ff]) ! unat d"
  shows "unat d \<le> length cfs"
    and "target_drop_ok rets cs (stack c) (BrTargetDrop (br_target f) (to_drop c f))"
    and "target_labels [br_target f] \<subseteq> cs_started cs \<union> pending (marked (unat d) cfs)"
proof -
  have len: "length (vs_frames v) = length cfs" using inv frames_ok_length by (auto simp: conv_inv_def)
  show le: "unat d \<le> length cfs" using b len by (auto simp: branch_valid_def split: if_splits)
  show "target_drop_ok rets cs (stack c) (BrTargetDrop (br_target f) (to_drop c f))"
    using branch_frame [OF inv _ b] return_frame [OF inv _ small] b le len
    by (cases "unat d < length cfs") (auto simp: f_def nth_append branch_valid_def)
  show "target_labels [br_target f] \<subseteq> cs_started cs \<union> pending (marked (unat d) cfs)"
  proof (cases "unat d < length cfs")
    case True
    let ?vf = "vs_frames v ! unat d"
    have ok: "frame_ok cs (base_of locals (drop (unat d) (vs_frames v))) ?vf f"
      using inv True frames_ok_nth by (auto simp: conv_inv_def f_def nth_append)
    have "mark_branched_to f \<in> set (marked (unat d) cfs)"
      using True by (force simp: in_set_conv_nth marked_nth f_def nth_append)
    moreover have "needs_end_label (mark_branched_to f) \<or> cf_kind f = FLoop \<or> cf_kind f = FFunction"
      by (auto simp: needs_end_label_def mark_branched_to_def split: control_frame_kind.splits)
    moreover have "cf_kind f = FLoop \<Longrightarrow> (cf_id f, Header) \<in> cs_started cs" "cf_kind f \<noteq> FFunction"
      using ok by (cases "vf_kind ?vf"; auto simp: frame_ok_def)+
    moreover have "needs_end_label (mark_branched_to f) \<Longrightarrow> mark_branched_to f \<in> set (marked (unat d) cfs) \<Longrightarrow>
        (cf_id f, End) \<in> pending (marked (unat d) cfs)"
      unfolding pending_def by (rule UnI1) (auto intro!: exI [of _ "mark_branched_to f"])
    ultimately show ?thesis by (cases "cf_kind f") (auto simp: target_labels_def br_target_def)
  next
    case False
    then have "br_target f = TgtReturn" using le inv by (simp add: f_def conv_inv_def br_target_def)
    then show ?thesis by (simp add: target_labels_def)
  qed
qed

section \<open>Steps\<close>

definition simulates ::
  "module_context \<Rightarrow> signless_type list \<Rightarrow> signless_type list \<Rightarrow> bool \<Rightarrow> wasm_operator list \<Rightarrow> vstate \<Rightarrow> check_state \<Rightarrow>
   (emitted \<times> conv) res \<Rightarrow> bool" where
  "simulates m locals rets dead ops v cs r \<longleftrightarrow>
     (\<exists>out c ff cfs cs'. r = Inr (out, c) \<and> internal c = ops \<and> check_ops m rets out cs = Some cs' \<and>
        conv_inv locals rets ff cfs c v cs' \<and> unreachable c = dead \<and>
        cs_cur cs' = (if dead then None else Some (stack c)))"

lemma simulatesI:
  assumes "r = Inr (out, c)" "check_ops m rets out cs = Some cs'" "conv_inv locals rets ff cfs c v cs'"
    "internal c = ops" "unreachable c = dead" "cs_cur cs' = (if dead then None else Some (stack c))"
  shows "simulates m locals rets dead ops v cs r"
  using assms unfolding simulates_def by blast

lemma frames_ok_cur [simp]:
  "frames_ok (cs\<lparr>cs_cur := x\<rparr>) locals vfs cfs = frames_ok cs locals vfs cfs"
  "frames_ok (cs\<lparr>cs_targets := t\<rparr>) locals vfs cfs = frames_ok cs locals vfs cfs"
  by (rule iffI; erule frames_ok_same; simp add: same_labels_def)+

lemma labels_ok_cur [simp]: "labels_ok i cfs (cs\<lparr>cs_cur := x\<rparr>) = labels_ok i cfs cs"
  by (simp add: labels_ok_def)

lemma inv_cur [simp]: "conv_inv locals rets ff cfs c v (cs\<lparr>cs_cur := x\<rparr>) = conv_inv locals rets ff cfs c v cs"
  by (simp add: conv_inv_def)

lemma inv_unreachable [simp]:
  "conv_inv locals rets ff cfs (c\<lparr>unreachable := u\<rparr>) v cs = conv_inv locals rets ff cfs c v cs"
  by (simp add: conv_inv_def)

lemma inv_ops:
  assumes "conv_inv locals rets ff cfs c v cs" "internal c = op # ops"
    and "stack' = base_of locals (vs_frames v) @ os" "length os \<le> Suc (length (vs_ops v))"
  shows "conv_inv locals rets ff cfs (c\<lparr>internal := ops, stack := stack'\<rparr>) (v\<lparr>vs_ops := os\<rparr>) cs"
  using assms by (auto simp: conv_inv_def)

lemma check_plain:
  assumes "plain_type m mop = Some (ins, outs)" "cs_cur cs = Some (s @ ins)"
  shows "check_op m rets mop cs = Some (with_stack cs (s @ outs))"
  using assms by (cases mop) (auto simp: check_op_def check_stack_op_def plain_type_def)

lemma plain_step:
  assumes inv: "conv_inv locals rets ff cfs c v cs" and c: "internal c = op # ops" "\<not> unreachable c"
    and cur: "cs_cur cs = Some (stack c)"
    and p: "wasm_plain m op = Some (ins, outs)" "vs_ops v = os @ ins"
  shows "\<exists>c1. apply_op (c\<lparr>internal := ops\<rparr>) (sig ins outs) = Inr c1 \<and>
    simulates m locals rets False ops (v\<lparr>vs_ops := os @ outs\<rparr>) cs (convert_op op c1)"
proof -
  let ?s = "base_of locals (vs_frames v) @ os"
  let ?c1 = "c\<lparr>internal := ops, stack := ?s @ outs\<rparr>"
  have st: "stack c = ?s @ ins" using inv_stack(1) [OF inv] p(2) by simp
  have one: "length outs \<le> 1" by (rule plain_op(2) [OF p(1)])
  obtain mop where mop: "convert_op op ?c1 = Inr ([mop], ?c1)" "plain_type m mop = Some (ins, outs)"
    using plain_op(3) [OF p(1), of ?c1] by blast
  have "apply_op (c\<lparr>internal := ops\<rparr>) (sig ins outs) = Inr ?c1"
    using apply_op_concrete [of "c\<lparr>internal := ops\<rparr>" ?s ins outs] st one by simp
  moreover have "simulates m locals rets False ops (v\<lparr>vs_ops := os @ outs\<rparr>) cs (convert_op op ?c1)"
  proof (rule simulatesI [OF mop(1)])
    show "check_ops m rets [mop] cs = Some (with_stack cs (?s @ outs))"
      using check_plain [OF mop(2), of cs ?s] cur st by simp
    show "conv_inv locals rets ff cfs ?c1 (v\<lparr>vs_ops := os @ outs\<rparr>) (with_stack cs (?s @ outs))"
      using inv_ops [OF inv c(1), of "?s @ outs" "os @ outs"] one p(2) by simp
  qed (use c(2) in simp_all)
  ultimately show ?thesis by blast
qed

text \<open>A new frame. Its identifier is fresh, so no other label changes.\<close>

definition extends :: "u32 \<Rightarrow> check_state \<Rightarrow> check_state \<Rightarrow> bool" where
  "extends i cs cs' \<longleftrightarrow>
     (\<forall>l. fst l \<noteq> i \<longrightarrow> cs_blocks cs' l = cs_blocks cs l \<and> (l \<in> cs_started cs' \<longleftrightarrow> l \<in> cs_started cs))"

lemma labels_fresh:
  assumes "labels_ok i cfs cs"
  shows "cs_blocks cs (i, tag) = None" "(i, tag) \<notin> cs_started cs" "(i, tag) \<notin> cs_targets cs"
    "\<And>cf. cf \<in> set cfs \<Longrightarrow> cf_id cf \<noteq> i"
proof -
  have dm: "(i, tag) \<notin> dom (cs_blocks cs)" for tag
  proof
    assume "(i, tag) \<in> dom (cs_blocks cs)"
    then have "fst (i, tag) < i" using assms unfolding labels_ok_def by blast
    then show False by simp
  qed
  show "\<And>cf. cf \<in> set cfs \<Longrightarrow> cf_id cf \<noteq> i" using assms by (auto simp: labels_ok_def)
  then have "(i, tag) \<notin> pending cfs" by (auto simp: pending_def)
  then show "cs_blocks cs (i, tag) = None" "(i, tag) \<notin> cs_started cs" "(i, tag) \<notin> cs_targets cs"
    using dm [of tag] assms by (auto simp: labels_ok_def)
qed

lemma extends_frames:
  assumes "labels_ok i cfs cs" "frames_ok cs locals vfs cfs" "extends i cs cs'"
  shows "frames_ok cs' locals vfs cfs"
  by (rule frames_ok_same [OF assms(2)])
    (use labels_fresh(4) [OF assms(1)] assms(3) in \<open>auto simp: same_labels_def extends_def\<close>)

lemma extends_labels:
  assumes "labels_ok i cfs cs" "extends i cs cs'" "i + 1 \<noteq> 0"
    and "\<forall>l \<in> cs_started cs'. fst l = i \<longrightarrow> cs_blocks cs' l \<noteq> None"
    and "cs_targets cs' \<subseteq> cs_targets cs \<union> cs_started cs' \<union> pending cfs'"
    and "pending cfs \<subseteq> pending cfs'" "distinct (map cf_id cfs')" "\<forall>cf \<in> set cfs'. cf_id cf \<le> i"
  shows "labels_ok (i + 1) cfs' cs'"
proof -
  have lt: "j < i + 1 \<longleftrightarrow> j \<le> i" for j :: u32
    using assms(3) unatSuc [of i] by (simp add: add.commute word_less_nat_alt word_le_nat_alt less_Suc_eq_le)
  have dm: "cs_blocks cs' l \<noteq> None \<longleftrightarrow> cs_blocks cs l \<noteq> None" "l \<in> cs_started cs' \<longleftrightarrow> l \<in> cs_started cs" if "fst l \<noteq> i" for l
    using assms(2) that by (cases l; simp add: extends_def)+
  have "fst l \<le> i" if "l \<in> dom (cs_blocks cs')" for l
  proof (cases "fst l = i")
    case False
    then have "l \<in> dom (cs_blocks cs)" using that dm(1) [of l] by auto
    then show ?thesis using assms(1) unfolding labels_ok_def by (blast intro: less_imp_le)
  qed simp
  moreover have "cs_started cs' \<subseteq> dom (cs_blocks cs')"
  proof
    fix l assume l: "l \<in> cs_started cs'"
    show "l \<in> dom (cs_blocks cs')"
      using l dm [of l] assms(1,4) by (cases "fst l = i") (auto simp: labels_ok_def dom_def)
  qed
  moreover have "cs_targets cs' \<subseteq> cs_started cs' \<union> pending cfs'"
  proof
    fix l assume "l \<in> cs_targets cs'"
    then consider "l \<in> cs_targets cs" | "l \<in> cs_started cs' \<union> pending cfs'" using assms(5) by blast
    then show "l \<in> cs_started cs' \<union> pending cfs'"
    proof cases
      case 1
      have "fst l \<noteq> i" using labels_fresh(3) [OF assms(1)] 1 by (metis prod.collapse)
      then show ?thesis using 1 dm(2) [of l] assms(1,6) by (auto simp: labels_ok_def)
    qed
  qed
  ultimately show ?thesis using assms(7,8) lt by (simp add: labels_ok_def)
qed


lemma id_next:
  assumes "unat i + Suc n < 2 ^ 31"
  shows "unat (i + 1 :: u32) = Suc (unat i)" "i + 1 \<noteq> 0"
proof -
  show "unat (i + 1) = Suc (unat i)"
    using assms by (simp add: unat_word_ariths)
  then show "i + 1 \<noteq> 0" by (metis nat.distinct(1) unat_0)
qed

lemma pending_Cons_eq:
  "pending (cf # cfs) =
     (if needs_end_label cf then {(cf_id cf, End)} else {}) \<union>
     (if cf_kind cf = FIf False then {(cf_id cf, Else)} else {}) \<union> pending cfs"
  by (auto simp: pending_def)

lemma pending_Cons: "pending cfs \<subseteq> pending (cf # cfs)"
  by (auto simp: pending_Cons_eq)

lemma inv_enter:
  assumes inv: "conv_inv locals rets ff cfs c v cs" and c: "internal c = op # ops"
    and os: "vs_ops v = os @ popped" and i: "i = current_id c"
    and cf: "cf_id cf = i" "frame_ok cs' (base_of locals (vs_frames v) @ os) vf cf" "vf_outer vf = os"
    and cs': "extends i cs cs'" "\<forall>l \<in> cs_started cs'. fst l = i \<longrightarrow> cs_blocks cs' l \<noteq> None"
      "cs_targets cs' \<subseteq> cs_targets cs \<union> cs_started cs' \<union> pending (cf # cfs)"
  shows "conv_inv locals rets ff (cf # cfs)
    (c\<lparr>internal := ops, stack := base_of locals (vs_frames v) @ os, current_id := i + 1,
       control_frames := ff # rev cfs @ [cf]\<rparr>)
    \<lparr>vs_frames = vf # vs_frames v, vs_ops = []\<rparr> cs'"
proof -
  note [simp] = i [symmetric]
  have lab: "labels_ok i cfs cs" using inv by (simp add: conv_inv_def)
  have lt: "unat i + Suc (length ops) < 2 ^ 31" using inv c by (simp add: conv_inv_def)
  have "frames_ok cs' locals (vf # vs_frames v) (cf # cfs)"
    using extends_frames [OF lab _ cs'(1)] inv cf by (simp add: conv_inv_def)
  moreover have "labels_ok (i + 1) (cf # cfs) cs'"
  proof (rule extends_labels [OF lab cs'(1) id_next(2) [OF lt] cs'(2,3) pending_Cons])
    show "distinct (map cf_id (cf # cfs))" using lab labels_fresh(4) [OF lab] cf(1) by (auto simp: labels_ok_def)
    show "\<forall>cf \<in> set (cf # cfs). cf_id cf \<le> i" using lab cf(1) by (auto simp: labels_ok_def)
  qed
  ultimately show ?thesis
    using inv c cf(3) os id_next(1) [OF lt] by (auto simp: conv_inv_def)
qed

lemma create_returns: "block_results ty = Some rs \<Longrightarrow> create_returns_from_wasm_type ty = Inr rs \<and> length rs \<le> 1"
  by (auto simp: block_results_def create_returns_from_wasm_type_def from_wasm_def
      split: type_or_func_type.splits wasm_type.splits)

lemma enter_frame:
  assumes "enter kind ty os v = Some v'"
  obtains rs where "create_returns_from_wasm_type ty = Inr rs" "length rs \<le> 1"
    "v' = \<lparr>vs_frames = \<lparr>vf_kind = kind, vf_results = rs, vf_outer = os\<rparr> # vs_frames v, vs_ops = []\<rparr>"
  using assms create_returns by (auto simp: enter_def bind_eq_Some_conv)

lemmas emit_defs = next_id_def push_frame_def new_frame_def block_params_with_wasm_type_def operator_end_def
  operator_loop_def operator_block_def

lemma stack_len:
  assumes "conv_inv locals rets ff cfs c v cs" "vs_ops v = os @ popped"
  shows "unat (of_nat (length (base_of locals (vs_frames v) @ os)) :: u32) = length (base_of locals (vs_frames v) @ os)"
  using inv_stack(1,2) [OF assms(1)] assms(2) by (intro unat_of_nat_u32) simp

lemma block_step:
  assumes inv: "conv_inv locals rets ff cfs c v cs" and c: "internal c = op # ops" "\<not> unreachable c"
    and cur: "cs_cur cs = Some (stack c)" and e: "enter VBlock ty (vs_ops v) v = Some v'"
  shows "simulates m locals rets False ops v' cs (convert_block (c\<lparr>internal := ops\<rparr>) ty)"
proof -
  obtain rs where rs: "create_returns_from_wasm_type ty = Inr rs" "length rs \<le> 1"
    "v' = \<lparr>vs_frames = \<lparr>vf_kind = VBlock, vf_results = rs, vf_outer = vs_ops v\<rparr> # vs_frames v, vs_ops = []\<rparr>"
    using e by (rule enter_frame)
  let ?i = "current_id c" and ?s = "base_of locals (vs_frames v) @ vs_ops v"
  let ?cf = "\<lparr>cf_id = ?i, cf_arguments = of_nat (length ?s), cf_returns = rs, cf_kind = FBlock False\<rparr>"
  let ?c = "c\<lparr>internal := ops, stack := ?s, current_id := ?i + 1, control_frames := ff # rev cfs @ [?cf]\<rparr>"
  let ?cs = "cs\<lparr>cs_blocks := (cs_blocks cs)((?i, End) \<mapsto> ?s @ rs)\<rparr>"
  note st = inv_stack [OF inv]
  note fresh = labels_fresh [OF st(8)]
  have "convert_block (c\<lparr>internal := ops\<rparr>) ty = Inr ([Block (?i, End) (?s @ rs) False None], ?c)"
    using rs(1) st by (simp add: convert_block_def emit_defs)
  moreover have "check_ops m rets [Block (?i, End) (?s @ rs) False None] cs = Some ?cs"
    using fresh(1) by (simp add: check_op_def)
  moreover have "conv_inv locals rets ff (?cf # cfs) ?c v' ?cs"
    unfolding rs(3)
    by (rule inv_enter [OF inv c(1), of "vs_ops v" "[]"])
      (use stack_len [OF inv, of "vs_ops v" "[]"] fresh rs(2) in \<open>auto simp: frame_ok_def extends_def\<close>)
  ultimately show ?thesis
    by (rule simulatesI) (use c st(1) cur in simp_all)
qed

lemma target_labels_simps [simp]:
  "target_labels [] = {}" "target_labels (TgtReturn # ts) = target_labels ts"
  "target_labels (TgtLabel l # ts) = insert l (target_labels ts)"
  by (auto simp: target_labels_def)

lemma loop_step:
  assumes inv: "conv_inv locals rets ff cfs c v cs" and c: "internal c = op # ops" "\<not> unreachable c"
    and cur: "cs_cur cs = Some (stack c)" and e: "enter VLoop ty (vs_ops v) v = Some v'"
  shows "simulates m locals rets False ops v' cs (convert_loop (c\<lparr>internal := ops\<rparr>) ty)"
proof -
  obtain rs where rs: "create_returns_from_wasm_type ty = Inr rs" "length rs \<le> 1"
    "v' = \<lparr>vs_frames = \<lparr>vf_kind = VLoop, vf_results = rs, vf_outer = vs_ops v\<rparr> # vs_frames v, vs_ops = []\<rparr>"
    using e by (rule enter_frame)
  let ?i = "current_id c" and ?s = "base_of locals (vs_frames v) @ vs_ops v"
  let ?cf = "\<lparr>cf_id = ?i, cf_arguments = of_nat (length ?s), cf_returns = rs, cf_kind = FLoop\<rparr>"
  let ?c = "c\<lparr>internal := ops, stack := ?s, current_id := ?i + 1, control_frames := ff # rev cfs @ [?cf]\<rparr>"
  let ?h = "(?i, Header)"
  let ?out = "[Block ?h ?s True None, Block (?i, End) (?s @ rs) False None, Br (TgtLabel ?h), Label ?h]"
  let ?cs = "cs\<lparr>cs_blocks := (cs_blocks cs)(?h \<mapsto> ?s, (?i, End) \<mapsto> ?s @ rs),
     cs_started := insert ?h (cs_started cs), cs_targets := cs_targets cs \<union> {?h}, cs_cur := Some ?s\<rparr>"
  note st = inv_stack [OF inv]
  note fresh = labels_fresh [OF st(8)]
  have "convert_loop (c\<lparr>internal := ops\<rparr>) ty = Inr (?out, ?c)"
    using rs(1) st by (simp add: convert_loop_def emit_defs Let_def)
  moreover have "check_ops m rets ?out cs = Some ?cs"
    using fresh(1,2) cur st(1)
    by (simp add: check_op_def check_stack_op_def target_ok_def branch_def)
  moreover have "conv_inv locals rets ff (?cf # cfs) ?c v' ?cs"
    unfolding rs(3)
    by (rule inv_enter [OF inv c(1), of "vs_ops v" "[]"])
      (use stack_len [OF inv, of "vs_ops v" "[]"] fresh rs(2) in \<open>auto simp: frame_ok_def extends_def\<close>)
  ultimately show ?thesis
    by (rule simulatesI) (use c st(1) cur in simp_all)
qed

lemma if_step:
  assumes inv: "conv_inv locals rets ff cfs c v cs" and c: "internal c = op # ops" "\<not> unreachable c"
    and cur: "cs_cur cs = Some (stack c)" and os: "vs_ops v = os @ [I32]" and e: "enter VIf ty os v = Some v'"
  shows "simulates m locals rets False ops v' cs
    (convert_if (c\<lparr>internal := ops, stack := base_of locals (vs_frames v) @ os\<rparr>) ty)"
proof -
  obtain rs where rs: "create_returns_from_wasm_type ty = Inr rs" "length rs \<le> 1"
    "v' = \<lparr>vs_frames = \<lparr>vf_kind = VIf, vf_results = rs, vf_outer = os\<rparr> # vs_frames v, vs_ops = []\<rparr>"
    using e by (rule enter_frame)
  let ?i = "current_id c" and ?s = "base_of locals (vs_frames v) @ os"
  let ?cf = "\<lparr>cf_id = ?i, cf_arguments = of_nat (length ?s), cf_returns = rs, cf_kind = FIf False\<rparr>"
  let ?c = "c\<lparr>internal := ops, stack := ?s, current_id := ?i + 1, control_frames := ff # rev cfs @ [?cf]\<rparr>"
  let ?t = "(?i, Header)" and ?e = "(?i, Else)"
  let ?out = "[Block ?t ?s False (Some 1), Block ?e ?s False (Some 1), Block (?i, End) (?s @ rs) False None,
     BrIf (BrTargetDrop (TgtLabel ?t) None) (BrTargetDrop (TgtLabel ?e) None), Label ?t]"
  let ?cs = "cs\<lparr>cs_blocks := (cs_blocks cs)(?t \<mapsto> ?s, ?e \<mapsto> ?s, (?i, End) \<mapsto> ?s @ rs),
     cs_started := insert ?t (cs_started cs), cs_targets := cs_targets cs \<union> {?t, ?e}, cs_cur := Some ?s\<rparr>"
  note st = inv_stack [OF inv]
  note fresh = labels_fresh [OF st(8)]
  have "convert_if (c\<lparr>internal := ops, stack := ?s\<rparr>) ty = Inr (?out, ?c)"
    using rs(1) st by (simp add: convert_if_def emit_defs br_target_drop_from_def Let_def)
  moreover have "check_ops m rets ?out cs = Some ?cs"
    using fresh(1,2) cur st(1) os pops_one [of I32 ?s]
    by (simp add: check_op_def check_stack_op_def target_ok_def target_drop_ok_def branch_def)
  moreover have "conv_inv locals rets ff (?cf # cfs) ?c v' ?cs"
    unfolding rs(3)
    by (rule inv_enter [OF inv c(1) os])
      (use stack_len [OF inv os] fresh rs(2) in \<open>auto simp: frame_ok_def extends_def pending_Cons_eq\<close>)
  ultimately show ?thesis
    by (rule simulatesI) (use c st(1) cur in simp_all)
qed

section \<open>Leaving a frame\<close>

lemma extends_tail:
  assumes "labels_ok i (cf # cfs) cs" "frames_ok cs locals vfs cfs" "extends (cf_id cf) cs cs'"
  shows "frames_ok cs' locals vfs cfs"
proof (rule frames_ok_same [OF assms(2)])
  have "cf_id cf \<notin> cf_id ` set cfs" using assms(1) by (simp add: labels_ok_def)
  then have "i \<noteq> cf_id cf" if "i \<in> cf_id ` set cfs" for i using that by blast
  then show "same_labels (cf_id ` set cfs) cs cs'"
    using assms(3) by (simp add: same_labels_def extends_def del: ball_simps)
qed

definition starts :: "wasm_label set \<Rightarrow> wasm_label set \<Rightarrow> signless_type list \<Rightarrow> check_state \<Rightarrow> check_state" where
  "starts ts ls s cs = cs\<lparr>cs_started := ls \<union> cs_started cs, cs_targets := cs_targets cs \<union> ts, cs_cur := Some s\<rparr>"

lemma starts_extends: "\<forall>l \<in> ls. fst l = i \<Longrightarrow> extends i cs (starts ts ls s cs)"
  by (auto simp: extends_def starts_def)

lemma inv_top:
  assumes "conv_inv locals rets ff cfs c v cs" "vs_frames v = f # fs"
  obtains cf cfs' where "cfs = cf # cfs'" "frame_ok cs (base_of locals (f # fs)) f cf"
    "frames_ok cs locals fs cfs'" "control_frames c = ff # rev cfs' @ [cf]" "labels_ok (current_id c) (cf # cfs') cs"
  using assms by (cases cfs) (auto simp: conv_inv_def)

lemma inv_leave:
  assumes inv: "conv_inv locals rets ff (cf # cfs) c v cs" and v: "vs_frames v = f # fs"
    and ops: "length ops < length (internal c)" "length (vf_results f) \<le> 1"
    and ls: "\<forall>l \<in> ls. fst l = cf_id cf \<and> cs_blocks cs l \<noteq> None" "ts \<subseteq> ls" "pending [cf] \<subseteq> ls"
  shows "conv_inv locals rets ff cfs
    (c\<lparr>internal := ops, unreachable := u, stack := base_of locals (f # fs) @ vf_results f,
       control_frames := ff # rev cfs\<rparr>)
    \<lparr>vs_frames = fs, vs_ops = vf_outer f @ vf_results f\<rparr> (starts ts ls s cs)"
proof -
  have fr: "frames_ok cs locals fs cfs" and lab: "labels_ok (current_id c) (cf # cfs) cs"
    using inv v by (auto simp: conv_inv_def)
  have "frames_ok (starts ts ls s cs) locals fs cfs"
    by (rule extends_tail [OF lab fr starts_extends]) (use ls(1) in auto)
  moreover have "labels_ok (current_id c) cfs (starts ts ls s cs)"
    using lab ls by (auto simp: labels_ok_def starts_def pending_Cons_eq [of cf cfs] pending_Cons_eq [of cf "[]"] split: if_splits)
  moreover have "length (base_of locals (f # fs)) \<le> length (stack c)"
    using inv v by (auto simp: conv_inv_def)
  ultimately show ?thesis using inv ops by (auto simp: conv_inv_def)
qed

lemma inv_else:
  assumes inv: "conv_inv locals rets ff (cf # cfs) c v cs" and v: "vs_frames v = f # fs" "vf_kind f = VIf"
    and ops: "length ops < length (internal c)" and ts: "ts \<subseteq> {(cf_id cf, End)}"
  shows "conv_inv locals rets ff (set_has_else cf # cfs)
    (c\<lparr>internal := ops, unreachable := u, stack := base_of locals (f # fs),
       control_frames := ff # rev cfs @ [set_has_else cf]\<rparr>)
    \<lparr>vs_frames = f\<lparr>vf_kind := VElse\<rparr> # fs, vs_ops = []\<rparr> (starts ts {(cf_id cf, Else)} s cs)"
proof -
  let ?cs = "starts ts {(cf_id cf, Else)} s cs" and ?cf = "set_has_else cf"
  have ok: "frame_ok cs (base_of locals (f # fs)) f cf" "frames_ok cs locals fs cfs"
    and lab: "labels_ok (current_id c) (cf # cfs) cs"
    using inv v by (auto simp: conv_inv_def)
  have cf: "?cf = cf\<lparr>cf_kind := FIf True\<rparr>" "cf_kind cf = FIf False"
    using ok(1) v(2) by (cases "cf_kind cf"; simp add: frame_ok_def set_has_else_def)+
  have "frames_ok ?cs locals (f\<lparr>vf_kind := VElse\<rparr> # fs) (?cf # cfs)"
    using extends_tail [OF lab ok(2) starts_extends, of "{(cf_id cf, Else)}" ts s] ok(1) cf
    by (simp add: frame_ok_def starts_def)
  moreover have "labels_ok (current_id c) (?cf # cfs) ?cs"
    using lab ok(1) v(2) ts
    by (auto simp: labels_ok_def starts_def cf pending_Cons_eq needs_end_label_def frame_ok_def)
  moreover have "length (base_of locals (f # fs)) \<le> length (stack c)"
    using inv v by (auto simp: conv_inv_def)
  ultimately show ?thesis using inv ops by (auto simp: conv_inv_def)
qed

lemma to_drop_exact:
  assumes "stack c = base @ cf_returns cf" "unat (cf_arguments cf) = length base" "length (stack c) < 2 ^ 31"
  shows "to_drop c cf = None"
  using to_drop_eq [of c base "cf_returns cf" cf] assms by simp

lemma check_br_label:
  assumes "cs_cur cs = Some s" "cs_blocks cs en = Some s" "cs_blocks cs l = Some s'" "l \<notin> cs_started cs"
  shows "check_ops m rets (Br (TgtLabel en) # Label l # ops) cs = check_ops m rets ops (starts {en} {l} s' cs)"
  using assms by (cases cs) (simp add: check_op_def check_stack_op_def target_ok_def branch_def starts_def)

lemma starts_simps [simp]:
  "cs_cur (starts ts ls s cs) = Some s" "cs_blocks (starts ts ls s cs) = cs_blocks cs"
  "cs_started (starts ts ls s cs) = ls \<union> cs_started cs"
  "starts ts ls s (starts ts' ls' s' cs) = starts (ts' \<union> ts) (ls \<union> ls') s cs"
  by (simp_all add: starts_def Un_assoc)

lemma else_step:
  assumes inv: "conv_inv locals rets ff cfs c v cs" and c: "internal c = op # ops" "\<not> unreachable c"
    and cur: "cs_cur cs = Some (stack c)"
    and v: "vs_frames v = f # fs" "vf_kind f = VIf" "vs_ops v = vf_results f"
  shows "simulates m locals rets False ops \<lparr>vs_frames = f\<lparr>vf_kind := VElse\<rparr> # fs, vs_ops = []\<rparr> cs
    (convert_else (c\<lparr>internal := ops\<rparr>))"
proof -
  obtain cf cfs' where cf: "cfs = cf # cfs'" "frame_ok cs (base_of locals (f # fs)) f cf"
    "control_frames c = ff # rev cfs' @ [cf]"
    using inv v(1) by (rule inv_top)
  let ?b = "base_of locals (f # fs)" and ?en = "(cf_id cf, End)" and ?el = "(cf_id cf, Else)"
  let ?c = "c\<lparr>internal := ops, unreachable := False, stack := ?b, control_frames := ff # rev cfs' @ [set_has_else cf]\<rparr>"
  have fr: "unat (cf_arguments cf) = length ?b" "cf_returns cf = vf_results f"
    "cs_blocks cs ?en = Some (?b @ vf_results f)" "cs_blocks cs ?el = Some ?b" "?el \<notin> cs_started cs"
    using cf(2) v(2) by (auto simp: frame_ok_def)
  have st: "stack c = ?b @ vf_results f" using inv_stack(1) [OF inv] v by simp
  have "to_drop c cf = None" using to_drop_exact [of c ?b cf] st fr inv_stack(2) [OF inv] by simp
  then have "convert_else (c\<lparr>internal := ops\<rparr>) = Inr ([Br (TgtLabel ?en), Label ?el], ?c)"
    using cf(3) fr(1) st c(2)
    by (auto simp: convert_else_def last_frame_def Microwasm_Conv.truncate_def set_last_frame_def drops_def
        Let_def butlast_append intro!: conv.equality)
  moreover have "check_ops m rets [Br (TgtLabel ?en), Label ?el] cs = Some (starts {?en} {?el} ?b cs)"
    using check_br_label [of cs "?b @ vf_results f" ?en ?el ?b] fr cur st by simp
  moreover have "conv_inv locals rets ff (set_has_else cf # cfs') ?c
      \<lparr>vs_frames = f\<lparr>vf_kind := VElse\<rparr> # fs, vs_ops = []\<rparr> (starts {?en} {?el} ?b cs)"
    by (rule inv_else [OF inv [unfolded cf(1)] v(1,2)]) (use c in auto)
  ultimately show ?thesis by (rule simulatesI) simp_all
qed

lemma resume_else_step:
  assumes inv: "conv_inv locals rets ff cfs c v cs" and ops: "length ops < length (internal c)"
    and cur: "cs_cur cs = None" and v: "else_dead v = Some v'"
  shows "simulates m locals rets False ops v' cs (resume_else (c\<lparr>unreachable := False, internal := ops\<rparr>))"
proof -
  obtain f fs where v: "vs_frames v = f # fs" "vf_kind f = VIf" "v' = \<lparr>vs_frames = f\<lparr>vf_kind := VElse\<rparr> # fs, vs_ops = []\<rparr>"
    using v by (auto simp: else_dead_def split: list.splits if_splits)
  obtain cf cfs' where cf: "cfs = cf # cfs'" "frame_ok cs (base_of locals (f # fs)) f cf"
    "control_frames c = ff # rev cfs' @ [cf]"
    using inv v(1) by (rule inv_top)
  let ?b = "base_of locals (f # fs)" and ?el = "(cf_id cf, Else)"
  let ?c = "c\<lparr>internal := ops, unreachable := False, stack := ?b, control_frames := ff # rev cfs' @ [set_has_else cf]\<rparr>"
  have fr: "unat (cf_arguments cf) = length ?b" "cs_blocks cs ?el = Some ?b" "?el \<notin> cs_started cs"
    using cf(2) v(2) by (auto simp: frame_ok_def)
  have "stack c = ?b @ vs_ops v" using inv_stack(1) [OF inv] v by simp
  then have "resume_else (c\<lparr>unreachable := False, internal := ops\<rparr>) = Inr ([Label ?el], ?c)"
    using cf(3) fr(1)
    by (auto simp: resume_else_def last_frame_def Microwasm_Conv.truncate_def set_last_frame_def Let_def
        butlast_append intro!: conv.equality)
  moreover have "check_ops m rets [Label ?el] cs = Some (starts {} {?el} ?b cs)"
    using fr cur by (simp add: check_op_def starts_def)
  moreover have "conv_inv locals rets ff (set_has_else cf # cfs') ?c v' (starts {} {?el} ?b cs)"
    unfolding v(3) by (rule inv_else [OF inv [unfolded cf(1)] v(1,2) ops]) simp
  ultimately show ?thesis by (rule simulatesI) simp_all
qed

lemma end_step:
  assumes inv: "conv_inv locals rets ff cfs c v cs" and c: "internal c = op # ops" "\<not> unreachable c"
    and cur: "cs_cur cs = Some (stack c)"
    and v: "vs_frames v = f # fs" "vs_ops v = vf_results f" "vf_kind f = VIf \<longrightarrow> vf_results f = []"
  shows "simulates m locals rets False ops \<lparr>vs_frames = fs, vs_ops = vf_outer f @ vf_results f\<rparr> cs
    (convert_end (c\<lparr>internal := ops\<rparr>))"
proof -
  obtain cf cfs' where cf: "cfs = cf # cfs'" "frame_ok cs (base_of locals (f # fs)) f cf"
    "control_frames c = ff # rev cfs' @ [cf]"
    using inv v(1) by (rule inv_top)
  let ?b = "base_of locals (f # fs)" and ?en = "(cf_id cf, End)" and ?el = "(cf_id cf, Else)"
  let ?s = "?b @ vf_results f"
  let ?c = "c\<lparr>internal := ops, unreachable := False, stack := ?s, control_frames := ff # rev cfs'\<rparr>"
  let ?out = "if cf_kind cf = FIf False then [Br (TgtLabel ?en), Label ?el, Br (TgtLabel ?en), Label ?en]
    else if needs_end_label cf then [Br (TgtLabel ?en), Label ?en] else []"
  let ?ls = "if cf_kind cf = FIf False then {?en, ?el} else if needs_end_label cf then {?en} else {}"
  let ?ts = "if cf_kind cf = FIf False \<or> needs_end_label cf then {?en} else {}"
  have fr: "unat (cf_arguments cf) = length ?b" "cf_returns cf = vf_results f" "length (vf_results f) \<le> 1"
    "cs_blocks cs ?en = Some ?s" "?en \<notin> cs_started cs"
    and el: "cf_kind cf = FIf False \<Longrightarrow> cs_blocks cs ?el = Some ?b \<and> ?el \<notin> cs_started cs \<and> vf_results f = []"
    using cf(2) v(3) by (cases "vf_kind f"; auto simp: frame_ok_def)+
  have st: "stack c = ?s" using inv_stack(1) [OF inv] v by simp
  have "to_drop c cf = None" using to_drop_exact [of c ?b cf] st fr inv_stack(2) [OF inv] by simp
  then have "convert_end (c\<lparr>internal := ops\<rparr>) = Inr (?out, ?c)"
    using cf(3) fr(1,2) st c(2)
    by (auto simp: convert_end_def pop_frame_def last_frame_def Microwasm_Conv.truncate_def drops_def Let_def
        butlast_append needs_end_label_def intro!: conv.equality)
  moreover have "check_ops m rets ?out cs = Some (starts ?ts ?ls ?s cs)"
    using check_br_label [of cs ?s ?en ?en ?s] check_br_label [of cs ?s ?en ?el ?b]
      check_br_label [of "starts {?en} {?el} ?b cs" ?b ?en ?en ?b] fr el cur st
    by (cases cs) (auto simp: starts_def split: if_splits)
  moreover have "conv_inv locals rets ff cfs' ?c \<lparr>vs_frames = fs, vs_ops = vf_outer f @ vf_results f\<rparr>
      (starts ?ts ?ls ?s cs)"
    by (rule inv_leave [OF inv [unfolded cf(1)] v(1)])
      (use c fr el in \<open>auto simp: pending_Cons_eq pending_def split: if_splits\<close>)
  ultimately show ?thesis by (rule simulatesI) simp_all
qed

lemma resume_end_step:
  assumes inv: "conv_inv locals rets ff cfs c v cs" and ops: "length ops < length (internal c)"
    and cur: "cs_cur cs = None" and v: "leave_dead v = Some v'"
  shows "\<exists>r. resume_end (c\<lparr>unreachable := False, internal := ops\<rparr>) = bind_res r (\<lambda>(out, c). Inr (Some out, c)) \<and>
    simulates m locals rets False ops v' cs r"
proof -
  obtain f fs where v: "vs_frames v = f # fs" "vf_kind f = VIf \<longrightarrow> vf_results f = []"
      "v' = \<lparr>vs_frames = fs, vs_ops = vf_outer f @ vf_results f\<rparr>"
    using v by (auto simp: leave_dead_def split: list.splits if_splits)
  obtain cf cfs' where cf: "cfs = cf # cfs'" "frame_ok cs (base_of locals (f # fs)) f cf"
    "control_frames c = ff # rev cfs' @ [cf]"
    using inv v(1) by (rule inv_top)
  let ?b = "base_of locals (f # fs)" and ?en = "(cf_id cf, End)" and ?el = "(cf_id cf, Else)"
  let ?s = "?b @ vf_results f"
  let ?c = "c\<lparr>internal := ops, unreachable := False, stack := ?s, control_frames := ff # rev cfs'\<rparr>"
  let ?out = "if cf_kind cf = FIf False then [Label ?el, Br (TgtLabel ?en), Label ?en] else [Label ?en]"
  let ?ls = "if cf_kind cf = FIf False then {?en, ?el} else {?en}"
  let ?ts = "if cf_kind cf = FIf False then {?en} else {}"
  have fr: "unat (cf_arguments cf) = length ?b" "cf_returns cf = vf_results f" "length (vf_results f) \<le> 1"
    "cs_blocks cs ?en = Some ?s" "?en \<notin> cs_started cs"
    and el: "cf_kind cf = FIf False \<Longrightarrow> cs_blocks cs ?el = Some ?b \<and> ?el \<notin> cs_started cs \<and> vf_results f = []"
    using cf(2) v(2) by (cases "vf_kind f"; auto simp: frame_ok_def)+
  have st: "stack c = ?b @ vs_ops v" using inv_stack(1) [OF inv] v by simp
  then have res: "resume_end (c\<lparr>unreachable := False, internal := ops\<rparr>) = Inr (Some ?out, ?c)"
    using cf(3) fr(1,2)
    by (auto simp: resume_end_def pop_frame_def last_frame_def Microwasm_Conv.truncate_def Let_def
        butlast_append intro!: conv.equality)
  have "check_ops m rets ?out cs = Some (starts ?ts ?ls ?s cs)"
    using check_br_label [of "starts {} {?el} ?b cs" ?b ?en ?en ?b] fr el cur
    by (cases cs) (auto simp: starts_def check_op_def split: if_splits)
  moreover have "conv_inv locals rets ff cfs' ?c v' (starts ?ts ?ls ?s cs)"
    unfolding v(3)
    by (rule inv_leave [OF inv [unfolded cf(1)] v(1) ops])
      (use fr el in \<open>auto simp: pending_Cons_eq pending_def split: if_splits\<close>)
  ultimately have "simulates m locals rets False ops v' cs (Inr (?out, ?c))"
    by (rule simulatesI [OF refl]) simp_all
  then show ?thesis using res by (intro exI [of _ "Inr (?out, ?c)"]) simp
qed

section \<open>Branching\<close>

lemma check_drop_br:
  assumes "cs_cur cs = Some s" "target_drop_ok rets cs s (BrTargetDrop t d)"
  shows "check_ops m rets (drops d @ [Br t]) cs = Some (branch [t] cs)"
  using assms
  by (auto simp: target_drop_ok_def drops_def check_op_def check_stack_op_def branch_def target_ok_def
      split: option.splits br_target.splits)

lemma inv_branch:
  assumes "conv_inv locals rets ff cfs c v cs" "target_labels ts \<subseteq> cs_started cs \<union> pending cfs"
  shows "conv_inv locals rets ff cfs c v (branch ts cs)"
  using assms by (auto simp: conv_inv_def branch_def labels_ok_def)

lemma inv_internal:
  "conv_inv locals rets ff cfs c v cs \<Longrightarrow> internal c = op # ops \<Longrightarrow> conv_inv locals rets ff cfs (c\<lparr>internal := ops\<rparr>) v cs"
  by (auto simp: conv_inv_def)

lemma branch_marked:
  assumes "control_frames c = ff # rev cfs" "cf_kind ff = FFunction" "unat d \<le> length cfs"
  shows "nth_block (c\<lparr>control_frames := ff # rev (marked (unat d) cfs)\<rparr>) d =
    Inr (if unat d < length cfs then mark_branched_to ((cfs @ [ff]) ! unat d) else (cfs @ [ff]) ! unat d)"
  using nth_block_at [of "c\<lparr>control_frames := ff # rev (marked (unat d) cfs)\<rparr>" ff "marked (unat d) cfs" d] assms
  by (simp add: nth_append marked_nth)

lemma table_target_step:
  assumes inv: "conv_inv locals rets ff cfs c v cs" and b: "branch_valid rets v (vs_ops v) d" and small: "length rets \<le> 1"
  defines "f \<equiv> (cfs @ [ff]) ! unat d" and "cfs' \<equiv> marked (unat d) cfs"
  shows "nth_block c d = Inr f" and "nth_block_mut c d mark_branched_to = Inr (c\<lparr>control_frames := ff # rev cfs'\<rparr>)"
    and "\<exists>f'. nth_block (c\<lparr>control_frames := ff # rev cfs'\<rparr>) d = Inr f' \<and> br_target f' = br_target f \<and>
           to_drop c f' = to_drop c f"
proof -
  note fr = inv_stack(6) [OF inv] and k = inv_stack(5) [OF inv] and le = branch_found(1) [OF inv b small]
  show "nth_block c d = Inr f" unfolding f_def by (rule nth_block_at [OF fr le])
  show "nth_block_mut c d mark_branched_to = Inr (c\<lparr>control_frames := ff # rev cfs'\<rparr>)"
    unfolding cfs'_def by (rule nth_block_mark [OF fr le k])
  show "\<exists>f'. nth_block (c\<lparr>control_frames := ff # rev cfs'\<rparr>) d = Inr f' \<and> br_target f' = br_target f \<and>
      to_drop c f' = to_drop c f"
    unfolding cfs'_def f_def branch_marked [OF fr k le] by simp
qed

lemma br_step:
  assumes inv: "conv_inv locals rets ff cfs c v cs" and c: "internal c = op # ops"
    and cur: "cs_cur cs = Some (stack c)" and b: "branch_valid rets v (vs_ops v) d" and small: "length rets \<le> 1"
  shows "simulates m locals rets True ops v cs (convert_br (c\<lparr>internal := ops\<rparr>) d)"
proof -
  let ?c = "c\<lparr>internal := ops, unreachable := True\<rparr>" and ?f = "(cfs @ [ff]) ! unat d"
  let ?c' = "?c\<lparr>control_frames := ff # rev (marked (unat d) cfs)\<rparr>"
  have inv1: "conv_inv locals rets ff cfs ?c v cs" using inv_internal [OF inv c] by simp
  note tt = table_target_step [OF inv1 b small] and bf = branch_found(2,3) [OF inv1 b small]
  have "convert_br (c\<lparr>internal := ops\<rparr>) d = Inr (drops (to_drop ?c ?f) @ [Br (br_target ?f)], ?c')"
    using tt by (auto simp: convert_br_def Let_def)
  moreover have "check_ops m rets (drops (to_drop ?c ?f) @ [Br (br_target ?f)]) cs = Some (branch [br_target ?f] cs)"
    by (rule check_drop_br [of _ "stack c"]) (use cur bf(1) in simp_all)
  moreover have "conv_inv locals rets ff (marked (unat d) cfs) ?c' v (branch [br_target ?f] cs)"
    by (rule inv_branch [OF inv_marked [OF inv1] bf(2)])
  ultimately show ?thesis by (rule simulatesI) (simp_all add: branch_def)
qed

lemma return_step:
  assumes inv: "conv_inv locals rets ff cfs c v cs" and c: "internal c = op # ops"
    and cur: "cs_cur cs = Some (stack c)" and p: "pops rets (vs_ops v) \<noteq> None" and small: "length rets \<le> 1"
  shows "simulates m locals rets True ops v cs (convert_return (c\<lparr>internal := ops\<rparr>))"
proof -
  let ?c = "c\<lparr>internal := ops, unreachable := True\<rparr>"
  have inv1: "conv_inv locals rets ff cfs ?c v cs" using inv_internal [OF inv c] by simp
  have t: "br_target ff = TgtReturn" using inv by (simp add: conv_inv_def br_target_def)
  have "convert_return (c\<lparr>internal := ops\<rparr>) = Inr (drops (to_drop ?c ff) @ [Br (br_target ff)], ?c)"
    using inv_stack(6) [OF inv] by (simp add: convert_return_def function_block_def Let_def)
  moreover have "check_ops m rets (drops (to_drop ?c ff) @ [Br (br_target ff)]) cs = Some (branch [br_target ff] cs)"
    by (rule check_drop_br [of _ "stack c"]) (use cur return_frame [OF inv1 p small] in simp_all)
  moreover have "conv_inv locals rets ff cfs ?c v (branch [br_target ff] cs)"
    by (rule inv_branch [OF inv1]) (simp add: t)
  ultimately show ?thesis by (rule simulatesI) (simp_all add: branch_def)
qed

lemma target_drop_ok_mono:
  "target_drop_ok rets cs s t \<Longrightarrow> (\<And>l ts. cs_blocks cs l = Some ts \<Longrightarrow> cs_blocks cs' l = Some ts) \<Longrightarrow>
     target_drop_ok rets cs' s t"
  by (auto simp: target_drop_ok_def target_ok_def split: option.splits br_target.splits)

lemma br_if_step:
  assumes inv: "conv_inv locals rets ff cfs c v cs" and c: "internal c = op # ops" "\<not> unreachable c"
    and cur: "cs_cur cs = Some (stack c)" and os: "vs_ops v = os @ [I32]"
    and b: "branch_valid rets (v\<lparr>vs_ops := os\<rparr>) os d" and small: "length rets \<le> 1"
  shows "simulates m locals rets False ops (v\<lparr>vs_ops := os\<rparr>) cs
    (convert_br_if (c\<lparr>internal := ops, stack := base_of locals (vs_frames v) @ os\<rparr>) d)"
proof -
  let ?s = "base_of locals (vs_frames v) @ os" and ?v = "v\<lparr>vs_ops := os\<rparr>" and ?i = "current_id c"
  let ?c = "c\<lparr>internal := ops, stack := ?s\<rparr>" and ?f = "(cfs @ [ff]) ! unat d" and ?h = "(?i, Header)"
  let ?cfs = "marked (unat d) cfs"
  let ?c' = "?c\<lparr>current_id := ?i + 1, control_frames := ff # rev ?cfs\<rparr>"
  let ?out = "[Block ?h ?s False (Some 1),
     BrIf (BrTargetDrop (br_target ?f) (to_drop ?c ?f)) (BrTargetDrop (TgtLabel ?h) None), Label ?h]"
  let ?cs = "cs\<lparr>cs_blocks := (cs_blocks cs)(?h \<mapsto> ?s), cs_started := insert ?h (cs_started cs),
     cs_targets := cs_targets cs \<union> target_labels [br_target ?f, TgtLabel ?h], cs_cur := Some ?s\<rparr>"
  have inv1: "conv_inv locals rets ff cfs ?c ?v cs" using inv_ops [OF inv c(1)] os by simp
  have lab: "labels_ok ?i cfs cs" using inv by (simp add: conv_inv_def)
  have b1: "branch_valid rets ?v (vs_ops ?v) d" using b by simp
  note tt = table_target_step [OF inv1 b1 small] and bf = branch_found(2,3) [OF inv1 b1 small]
  note fresh = labels_fresh [OF lab]
  have "nth_block (?c\<lparr>current_id := ?i + 1\<rparr>) d = Inr ?f" "nth_block_mut (?c\<lparr>current_id := ?i + 1\<rparr>) d mark_branched_to = Inr ?c'"
    "\<exists>f'. nth_block ?c' d = Inr f' \<and> br_target f' = br_target ?f"
    using nth_block_at [of "?c\<lparr>current_id := ?i + 1\<rparr>" ff cfs d] nth_block_mark [of "?c\<lparr>current_id := ?i + 1\<rparr>" ff cfs d]
      branch_marked [of "?c\<lparr>current_id := ?i + 1\<rparr>" ff cfs d] inv_stack(5,6) [OF inv1] branch_found(1) [OF inv1 b1 small]
    by simp_all
  then have "convert_br_if ?c d = Inr (?out, ?c')"
    using tt(1) by (auto simp: convert_br_if_def next_id_def operator_block_def br_target_drop_from_def Let_def)
  moreover have "target_drop_ok rets (cs\<lparr>cs_blocks := (cs_blocks cs)(?h \<mapsto> ?s)\<rparr>) ?s (BrTargetDrop (br_target ?f) (to_drop ?c ?f))"
    by (rule target_drop_ok_mono [of _ cs]) (use bf(1) fresh(1) in auto)
  then have "check_ops m rets ?out cs = Some ?cs"
    using fresh cur inv_stack(1) [OF inv] os pops_one [of I32 ?s]
    by (cases cs) (auto simp: check_op_def check_stack_op_def branch_def target_drop_ok_def [of _ _ _ "BrTargetDrop (TgtLabel ?h) None"]
        target_ok_def)
  moreover have "conv_inv locals rets ff ?cfs ?c' ?v ?cs"
  proof -
    have lt: "unat ?i + Suc (length ops) < 2 ^ 31" using inv c by (simp add: conv_inv_def)
    have lab': "labels_ok ?i ?cfs cs" by (rule labels_ok_marked [OF lab])
    have ext: "extends ?i cs ?cs" by (auto simp: extends_def)
    have "frames_ok ?cs locals (vs_frames ?v) ?cfs"
      using extends_frames [OF lab' frames_ok_marked ext] inv by (simp add: conv_inv_def)
    moreover have "labels_ok (?i + 1) ?cfs ?cs"
      by (rule extends_labels [OF lab' ext id_next(2) [OF lt] _ _ subset_refl])
        (use bf(2) lab' in \<open>auto simp: labels_ok_def target_labels_def\<close>)
    ultimately show ?thesis using inv c os id_next(1) [OF lt] by (auto simp: conv_inv_def)
  qed
  ultimately show ?thesis by (rule simulatesI) (use c in simp_all)
qed

text \<open>A branch table marks the frames of its targets one after the other.\<close>

definition targets_ok ::
  "signless_type list \<Rightarrow> check_state \<Rightarrow> signless_type list \<Rightarrow> control_frame list \<Rightarrow> wasm_label br_target_drop list \<Rightarrow> bool" where
  "targets_ok rets cs s cfs ts \<longleftrightarrow>
     (\<forall>t \<in> set ts. target_drop_ok rets cs s t) \<and> target_labels (map tgt ts) \<subseteq> cs_started cs \<union> pending cfs"

lemma targets_ok_simps:
  "targets_ok rets cs s cfs []"
  "targets_ok rets cs s cfs (t # ts) \<longleftrightarrow> targets_ok rets cs s cfs [t] \<and> targets_ok rets cs s cfs ts"
  by (auto simp: targets_ok_def target_labels_def)

lemma targets_ok_mono: "targets_ok rets cs s cfs ts \<Longrightarrow> pending cfs \<subseteq> pending cfs' \<Longrightarrow> targets_ok rets cs s cfs' ts"
  by (auto simp: targets_ok_def)

lemma table_target_ok:
  assumes inv: "conv_inv locals rets ff cfs c v cs" and b: "branch_valid rets v (vs_ops v) d" and small: "length rets \<le> 1"
  obtains t cfs' where "table_target d c = Inr (t, c\<lparr>control_frames := ff # rev cfs'\<rparr>)"
    "conv_inv locals rets ff cfs' (c\<lparr>control_frames := ff # rev cfs'\<rparr>) v cs"
    "targets_ok rets cs (stack c) cfs' [t]" "pending cfs \<subseteq> pending cfs'"
proof (rule that)
  let ?f = "(cfs @ [ff]) ! unat d" and ?cfs = "marked (unat d) cfs"
  let ?t = "BrTargetDrop (br_target ?f) (to_drop c ?f)"
  note tt = table_target_step [OF inv b small] and bf = branch_found(2,3) [OF inv b small]
  show "table_target d c = Inr (?t, c\<lparr>control_frames := ff # rev ?cfs\<rparr>)"
    using tt by (auto simp: table_target_def)
  show "conv_inv locals rets ff ?cfs (c\<lparr>control_frames := ff # rev ?cfs\<rparr>) v cs" by (rule inv_marked [OF inv])
  show "targets_ok rets cs (stack c) ?cfs [?t]" using bf by (simp add: targets_ok_def)
  show "pending cfs \<subseteq> pending ?cfs" by (rule pending_mono)
qed

lemma table_targets_ok:
  assumes "conv_inv locals rets ff cfs c v cs" "\<forall>d \<in> set ds. branch_valid rets v (vs_ops v) d" "length rets \<le> 1"
  shows "\<exists>ts cfs'. table_targets ds c = Inr (ts, c\<lparr>control_frames := ff # rev cfs'\<rparr>) \<and>
    conv_inv locals rets ff cfs' (c\<lparr>control_frames := ff # rev cfs'\<rparr>) v cs \<and>
    targets_ok rets cs (stack c) cfs' ts \<and> pending cfs \<subseteq> pending cfs'"
  using assms
proof (induction ds arbitrary: c cfs)
  case Nil
  then have "c\<lparr>control_frames := ff # rev cfs\<rparr> = c" by (simp add: conv_inv_def)
  then show ?case using Nil by (intro exI [of _ "[]"] exI [of _ cfs]) (simp add: targets_ok_simps)
next
  case (Cons d ds)
  obtain t cfs1 where t: "table_target d c = Inr (t, c\<lparr>control_frames := ff # rev cfs1\<rparr>)"
    "conv_inv locals rets ff cfs1 (c\<lparr>control_frames := ff # rev cfs1\<rparr>) v cs"
    "targets_ok rets cs (stack c) cfs1 [t]" "pending cfs \<subseteq> pending cfs1"
    by (rule table_target_ok [OF Cons.prems(1) _ Cons.prems(3), of d]) (use Cons.prems(2) in auto)
  obtain ts cfs2 where ts:
    "table_targets ds (c\<lparr>control_frames := ff # rev cfs1\<rparr>) = Inr (ts, c\<lparr>control_frames := ff # rev cfs2\<rparr>)"
    "conv_inv locals rets ff cfs2 (c\<lparr>control_frames := ff # rev cfs2\<rparr>) v cs"
    "targets_ok rets cs (stack c) cfs2 ts" "pending cfs1 \<subseteq> pending cfs2"
    using Cons.IH [OF t(2) _ Cons.prems(3)] Cons.prems(2) by auto
  have "targets_ok rets cs (stack c) cfs2 (t # ts)"
    using targets_ok_mono [OF t(3) ts(4)] ts(3) targets_ok_simps(2) by metis
  then show ?case using t(1,4) ts by (intro exI [of _ "t # ts"] exI [of _ cfs2]) auto
qed

lemma br_table_step:
  assumes inv: "conv_inv locals rets ff cfs c v cs" and c: "internal c = op # ops"
    and cur: "cs_cur cs = Some (stack c)" and os: "vs_ops v = os @ [I32]"
    and b: "\<forall>d \<in> set (d # ds). branch_valid rets (v\<lparr>vs_ops := os\<rparr>) os d" and small: "length rets \<le> 1"
  shows "simulates m locals rets True ops (v\<lparr>vs_ops := os\<rparr>) cs
    (convert_br_table (c\<lparr>internal := ops, stack := base_of locals (vs_frames v) @ os\<rparr>) (Inr (ds, d)))"
proof -
  let ?s = "base_of locals (vs_frames v) @ os" and ?v = "v\<lparr>vs_ops := os\<rparr>"
  let ?c = "c\<lparr>internal := ops, stack := ?s, unreachable := True\<rparr>"
  have inv1: "conv_inv locals rets ff cfs ?c ?v cs" using inv_ops [OF inv c] os by simp
  obtain ts cfs1 where ts: "table_targets ds ?c = Inr (ts, ?c\<lparr>control_frames := ff # rev cfs1\<rparr>)"
    "conv_inv locals rets ff cfs1 (?c\<lparr>control_frames := ff # rev cfs1\<rparr>) ?v cs"
    "targets_ok rets cs (stack ?c) cfs1 ts"
    using table_targets_ok [OF inv1 _ small, of ds] b by auto
  obtain t cfs2 where t: "table_target d (?c\<lparr>control_frames := ff # rev cfs1\<rparr>) = Inr (t, ?c\<lparr>control_frames := ff # rev cfs2\<rparr>)"
    "conv_inv locals rets ff cfs2 (?c\<lparr>control_frames := ff # rev cfs2\<rparr>) ?v cs"
    "targets_ok rets cs (stack ?c) cfs2 [t]" "pending cfs1 \<subseteq> pending cfs2"
    by (rule table_target_ok [OF ts(2) _ small, of d]) (use b in auto)
  have ok: "targets_ok rets cs (stack ?c) cfs2 (t # ts)"
    using targets_ok_mono [OF ts(3) t(4)] t(3) targets_ok_simps(2) by metis
  have "convert_br_table (c\<lparr>internal := ops, stack := ?s\<rparr>) (Inr (ds, d)) =
      Inr ([BrTable ts t], ?c\<lparr>control_frames := ff # rev cfs2\<rparr>)"
    using ts(1) t(1) by (simp add: convert_br_table_def Let_def)
  moreover have "check_ops m rets [BrTable ts t] cs = Some (branch (map tgt (t # ts)) cs)"
    using ok cur inv_stack(1) [OF inv] os pops_one [of I32 ?s]
    by (auto simp: check_op_def check_stack_op_def targets_ok_def)
  moreover have "conv_inv locals rets ff cfs2 (?c\<lparr>control_frames := ff # rev cfs2\<rparr>) ?v (branch (map tgt (t # ts)) cs)"
    by (rule inv_branch [OF t(2)]) (use ok in \<open>simp add: targets_ok_def\<close>)
  ultimately show ?thesis by (rule simulatesI) (simp_all add: branch_def)
qed

section \<open>Operands and locals\<close>

text \<open>An operator that only changes the operands.\<close>

lemma stack_step:
  assumes inv: "conv_inv locals rets ff cfs c v cs" and c: "internal c = op # ops" "\<not> unreachable c"
    and cur: "cs_cur cs = Some (stack c)" and len: "length os \<le> Suc (length (vs_ops v))"
    and out: "check_ops m rets out cs = Some (with_stack cs (base_of locals (vs_frames v) @ os))"
  shows "simulates m locals rets False ops (v\<lparr>vs_ops := os\<rparr>) cs
    (Inr (out, c\<lparr>internal := ops, stack := base_of locals (vs_frames v) @ os\<rparr>))"
  by (rule simulatesI [OF refl out]) (use inv_ops [OF inv c(1) refl len] c in simp_all)

lemma drop_top [simp]: "drop_range (0, 0) (s @ [t]) = Some s"
  by (simp add: drop_range_def Let_def)

lemma check_drop:
  "cs_cur cs = Some (s @ [t]) \<Longrightarrow> check_ops m rets [Drop (0, 0)] cs = Some (with_stack cs s)"
  by (simp add: check_op_def check_stack_op_def)

lemma check_select:
  "cs_cur cs = Some (s @ [t, t, I32]) \<Longrightarrow> check_ops m rets [Select] cs = Some (with_stack cs (s @ [t]))"
  using pops_append [of "[I32]" "s @ [t, t]"] by (simp add: check_op_def check_stack_op_def)

lemma apply_drop: "stack c = s @ [t] \<Longrightarrow> apply_op c \<lparr>sig_input = [T], sig_output = []\<rparr> = Inr (c\<lparr>stack := s\<rparr>)"
  by (simp add: apply_op_def)

lemma apply_select:
  "stack c = s @ [t, t, I32] \<Longrightarrow>
     apply_op c \<lparr>sig_input = [T, T, Concrete I32], sig_output = [T]\<rparr> = Inr (c\<lparr>stack := s @ [t]\<rparr>)"
  by (simp add: apply_op_def butlast_append unwrap_res_def)

lemma depth_ok:
  assumes "unat i < n" "n < 2 ^ 31"
  shows "unat ((of_nat n :: u32) - 1 - i) = n - 1 - unat i" "expect_depth ((of_nat n :: u32) - 1 - i) = Inr (of_nat n - 1 - i)"
proof -
  have i: "i = of_nat (unat i)" by simp
  have eq: "(of_nat n :: u32) - 1 - i = of_nat (n - 1 - unat i)"
    using assms(1) by (subst i, simp add: of_nat_diff)
  then show u: "unat ((of_nat n :: u32) - 1 - i) = n - 1 - unat i"
    using assms(2) by (simp only: eq) (rule unat_of_nat_u32, simp)
  have "uint ((of_nat n :: u32) - 1 - i) < 2 ^ 31"
    using u assms(2) unfolding uint_nat by simp
  then have "sint ((of_nat n :: u32) - 1 - i) = uint ((of_nat n :: u32) - 1 - i)"
    unfolding sint_uint by (intro signed_take_bit_int_eq_self) (simp_all add: order_trans [OF _ uint_ge_0])
  then show "expect_depth ((of_nat n :: u32) - 1 - i) = Inr (of_nat n - 1 - i)" by (simp add: expect_depth_def)
qed

lemma local_type:
  assumes inv: "conv_inv locals rets ff cfs c v cs" and i: "unat i < length locals"
  shows "unat i < length (stack c)" "stack c ! unat i = locals ! unat i"
    "index_res (stack c) (unat i) = Inr (locals ! unat i)"
    "length locals \<le> length (base_of locals (vs_frames v))" "base_of locals (vs_frames v) ! unat i = locals ! unat i"
proof -
  obtain rest where "base_of locals (vs_frames v) = locals @ rest"
    using base_of_drop [of locals "vs_frames v" "length (vs_frames v)"] by auto
  then show "unat i < length (stack c)" "stack c ! unat i = locals ! unat i"
    "index_res (stack c) (unat i) = Inr (locals ! unat i)" "length locals \<le> length (base_of locals (vs_frames v))"
    "base_of locals (vs_frames v) ! unat i = locals ! unat i"
    using inv_stack(1) [OF inv] i by (simp_all add: nth_append index_res_def)
qed

lemma get_local_step:
  assumes inv: "conv_inv locals rets ff cfs c v cs" and c: "internal c = op # ops" "\<not> unreachable c"
    and cur: "cs_cur cs = Some (stack c)" and i: "unat i < length locals"
  shows "simulates m locals rets False ops (v\<lparr>vs_ops := vs_ops v @ [locals ! unat i]\<rparr>) cs
    (convert_op (WGetLocal i) (c\<lparr>internal := ops, stack := stack c @ [locals ! unat i]\<rparr>))"
proof -
  let ?n = "length (stack c)" and ?b = "base_of locals (vs_frames v)"
  define d :: u32 where "d = of_nat ?n - 1 - i"
  let ?c = "c\<lparr>internal := ops, stack := ?b @ vs_ops v @ [locals ! unat i]\<rparr>"
  note t = local_type [OF inv i] and st = inv_stack(1) [OF inv]
  note d = depth_ok [OF t(1) inv_stack(2) [OF inv], folded d_def]
  have "local_depth (c\<lparr>internal := ops, stack := stack c @ [locals ! unat i]\<rparr>) i - 1 = d"
    by (simp add: local_depth_def d_def)
  then have "convert_op (WGetLocal i) (c\<lparr>internal := ops, stack := stack c @ [locals ! unat i]\<rparr>) = Inr ([Pick d], ?c)"
    using d(2) st by (simp add: convert_op_def convert_get_local_def emit_def)
  moreover have "?n - 1 - (?n - 1 - unat i) = unat i" using t(1) by simp
  then have "check_ops m rets [Pick d] cs = Some (with_stack cs (?b @ vs_ops v @ [locals ! unat i]))"
    using d(1) t(1,2) cur st by (simp add: check_op_def check_stack_op_def)
  ultimately show ?thesis
    using stack_step [OF inv c cur, of "vs_ops v @ [locals ! unat i]" m "[Pick d]"] by simp
qed

lemma swap_drop:
  assumes "unat d = length s - unat i" "unat i < length s" "s ! unat i = t" "cs_cur cs = Some (s @ [t])"
  shows "check_ops m rets [Swap d, Drop (0, 0)] cs = Some (with_stack cs s)"
proof -
  have "length s - unat d = unat i" using assms(1,2) by simp
  moreover have "(s @ [t])[length s := t, unat i := t] = s @ [t]"
    using assms(2,3) by (simp add: list_update_append list_update_same_conv)
  ultimately show ?thesis
    using assms by (simp add: check_op_def check_stack_op_def nth_append)
qed

lemma set_local_step:
  assumes inv: "conv_inv locals rets ff cfs c v cs" and c: "internal c = op # ops" "\<not> unreachable c"
    and cur: "cs_cur cs = Some (stack c)" and i: "unat i < length locals" and os: "vs_ops v = os @ [locals ! unat i]"
  shows "simulates m locals rets False ops (v\<lparr>vs_ops := os\<rparr>) cs
    (convert_op (WSetLocal i) (c\<lparr>internal := ops, stack := base_of locals (vs_frames v) @ os\<rparr>))"
proof -
  let ?s = "base_of locals (vs_frames v) @ os"
  let ?c = "c\<lparr>internal := ops, stack := ?s\<rparr>"
  define d :: u32 where "d = of_nat (length (stack c)) - 1 - i"
  note t = local_type [OF inv i]
  have st: "stack c = ?s @ [locals ! unat i]" using inv_stack(1) [OF inv] os by simp
  have "local_depth ?c i + 1 = d" using st by (simp add: local_depth_def d_def)
  then have "convert_op (WSetLocal i) ?c = Inr ([Swap d, Drop (0, 0)], ?c)"
    using depth_ok(2) [OF t(1) inv_stack(2) [OF inv], folded d_def]
    by (simp add: convert_op_def convert_set_local_def emit_def)
  moreover have "unat d = length ?s - unat i"
    using depth_ok(1) [OF t(1) inv_stack(2) [OF inv]] st by (simp add: d_def)
  then have "check_ops m rets [Swap d, Drop (0, 0)] cs = Some (with_stack cs ?s)"
    by (rule swap_drop) (use t i cur st in \<open>simp_all add: nth_append\<close>)
  ultimately show ?thesis
    using stack_step [OF inv c cur, of os m "[Swap d, Drop (0, 0)]"] os by simp
qed

lemma tee_local_step:
  assumes inv: "conv_inv locals rets ff cfs c v cs" and c: "internal c = op # ops" "\<not> unreachable c"
    and cur: "cs_cur cs = Some (stack c)" and i: "unat i < length locals" and os: "vs_ops v = os @ [locals ! unat i]"
  shows "simulates m locals rets False ops v cs 
    (convert_op (WTeeLocal i) (c\<lparr>internal := ops, stack := base_of locals (vs_frames v) @ vs_ops v\<rparr>))"
proof -
  let ?s = "base_of locals (vs_frames v) @ vs_ops v" and ?n = "Suc (length (stack c))"
  define d :: u32 where "d = of_nat ?n - 1 - i"
  note t = local_type [OF inv i] and st = inv_stack(1) [OF inv]
  have n: "unat i < ?n" "?n < 2 ^ 31" using t(1) inv by (auto simp: conv_inv_def)
  have "local_depth (c\<lparr>internal := ops, stack := ?s\<rparr>) i + 1 = d" using st by (simp add: local_depth_def d_def)
  then have "convert_op (WTeeLocal i) (c\<lparr>internal := ops, stack := ?s\<rparr>) = Inr ([Pick 0, Swap d, Drop (0, 0)], c\<lparr>internal := ops, stack := ?s\<rparr>)"
    using depth_ok(2) [OF n, folded d_def] st by (simp add: convert_op_def convert_tee_local_def emit_def)
  moreover have "unat d = length ?s - unat i" using depth_ok(1) [OF n] st by (simp add: d_def)
  then have "check_ops m rets [Swap d, Drop (0, 0)] (with_stack cs (?s @ [locals ! unat i])) = Some (with_stack cs ?s)"
    using swap_drop [of d ?s i "locals ! unat i" "with_stack cs (?s @ [locals ! unat i])"] t st by simp
  then have "check_ops m rets [Pick 0, Swap d, Drop (0, 0)] cs = Some (with_stack cs ?s)"
    using cur st os by (simp add: check_op_def [of _ _ "Pick 0"] check_stack_op_def [of _ _ "Pick 0"] nth_append)
  ultimately show ?thesis
    using stack_step [OF inv c cur, of "vs_ops v" m "[Pick 0, Swap d, Drop (0, 0)]"] by simp
qed

end
