(* ===== verification/Microwasm_Translate.thy ===== *)
theory Microwasm_Translate
  imports Microwasm_Sound
begin

text \<open>
  The translation of a whole function body, and what it promises: a body that is valid in the sense of
  \<open>valid_function\<close> becomes well-formed microwasm, and the iterator comes to its end.
\<close>

section \<open>The whole translation\<close>

lemma apply_none [simp]: "apply_op c op_sig_none = Inr c"
  by (simp add: apply_op_def op_sig_none_def)

definition live :: "module_context \<Rightarrow> conv \<Rightarrow> wasm_operator \<Rightarrow> (emitted \<times> conv) res" where
  "live m c op = bind_res (op_sig_of m c op) (\<lambda>sg. bind_res (apply_op c sg) (convert_op op))"

lemma nop_step:
  assumes "conv_inv locals rets ff cfs c v cs" "internal c = op # ops" "\<not> unreachable c" "cs_cur cs = Some (stack c)"
  shows "simulates m locals rets False ops v cs (Inr ([], c\<lparr>internal := ops\<rparr>))"
    and "simulates m locals rets True ops v cs (Inr ([Unreachable], c\<lparr>internal := ops, unreachable := True\<rparr>))"
proof -
  show "simulates m locals rets False ops v cs (Inr ([], c\<lparr>internal := ops\<rparr>))"
    by (rule simulatesI [OF refl, of _ _ _ _ cs]) (use inv_internal [OF assms(1,2)] assms in simp_all)
  show "simulates m locals rets True ops v cs (Inr ([Unreachable], c\<lparr>internal := ops, unreachable := True\<rparr>))"
    by (rule simulatesI [OF refl, of _ _ _ _ "cs\<lparr>cs_cur := None\<rparr>"])
      (use inv_internal [OF assms(1,2)] assms in \<open>simp_all add: check_op_def check_stack_op_def\<close>)
qed

lemma live_plain:
  assumes "conv_inv locals rets ff cfs c v cs" "internal c = op # ops" "\<not> unreachable c" "cs_cur cs = Some (stack c)"
    and "do { (ins, outs) \<leftarrow> wasm_plain m op; ops' \<leftarrow> pops ins (vs_ops v); Some (False, v\<lparr>vs_ops := ops' @ outs\<rparr>) } = Some (dead, v')"
  shows "simulates m locals rets dead ops v' cs (live m (c\<lparr>internal := ops\<rparr>) op)"
proof -
  obtain ins outs os where p: "wasm_plain m op = Some (ins, outs)" "vs_ops v = os @ ins"
    "dead = False" "v' = v\<lparr>vs_ops := os @ outs\<rparr>"
    using assms(5) by (auto simp: bind_eq_Some_conv pops_iff split: prod.splits)
  then show ?thesis
    using plain_step [OF assms(1-4) p(1,2)] plain_op(1) [OF p(1)] by (auto simp: live_def)
qed

lemmas live_defs = live_def op_sig_of_def convert_op_def emit_def vstep_def Let_def

lemma branch_valid_ops [simp]: "branch_valid rets (v\<lparr>vs_ops := os\<rparr>) = branch_valid rets v"
  by (simp add: branch_valid_def fun_eq_iff)

lemma live_step:
  assumes inv: "conv_inv locals rets ff cfs c v cs" and c: "internal c = op # ops" "\<not> unreachable c"
    and cur: "cs_cur cs = Some (stack c)" and st: "vstep m locals rets op v = Some (dead, v')" and small: "length rets \<le> 1"
  shows "simulates m locals rets dead ops v' cs (live m (c\<lparr>internal := ops\<rparr>) op)"
proof -
  let ?s = "base_of locals (vs_frames v)"
  have i32: "apply_op (c\<lparr>internal := ops\<rparr>) (sig [I32] []) = Inr (c\<lparr>internal := ops, stack := ?s @ os\<rparr>)"
    if "vs_ops v = os @ [I32]" for os
    using apply_op_concrete [of "c\<lparr>internal := ops\<rparr>" "?s @ os" "[I32]" "[]"] inv_stack(1) [OF inv] that by simp
  note plain = live_plain [OF inv c cur]
  show ?thesis
  proof (cases op)
    case WUnreachable
    then show ?thesis using st nop_step(2) [OF inv c cur] by (auto simp: live_defs)
  next
    case WNop
    then show ?thesis using st nop_step(1) [OF inv c cur] by (auto simp: live_defs)
  next
    case (WBlock ty)
    then show ?thesis using st block_step [OF inv c cur, of ty v' m] by (auto simp: live_defs)
  next
    case (WLoop ty)
    then show ?thesis using st loop_step [OF inv c cur, of ty v' m] by (auto simp: live_defs)
  next
    case (WIf ty)
    then show ?thesis
      using st i32 if_step [OF inv c cur, of _ ty v' m] by (auto simp: live_defs bind_eq_Some_conv pops_iff)
  next
    case WElse
    then show ?thesis using st else_step [OF inv c cur] by (auto simp: live_defs split: list.splits if_splits)
  next
    case WEnd
    then show ?thesis using st end_step [OF inv c cur] by (auto simp: live_defs split: list.splits if_splits)
  next
    case (WBr d)
    then show ?thesis using st br_step [OF inv c(1) cur _ small] by (auto simp: live_defs split: if_splits)
  next
    case (WBrIf d)
    obtain os where os: "vs_ops v = os @ [I32]" "branch_valid rets v os d" "dead = False" "v' = v\<lparr>vs_ops := os\<rparr>"
      using st WBrIf by (auto simp: vstep_def Let_def bind_eq_Some_conv pops_iff split: if_splits)
    then show ?thesis using i32 [OF os(1)] br_if_step [OF inv c cur os(1) _ small, of d m] WBrIf by (simp add: live_defs)
  next
    case (WBrTable table)
    obtain ds d os where os: "table = Inr (ds, d)" "vs_ops v = os @ [I32]" "\<forall>d \<in> set (d # ds). branch_valid rets v os d"
      "dead = True" "v' = v\<lparr>vs_ops := os\<rparr>"
      using st WBrTable by (auto simp: vstep_def Let_def bind_eq_Some_conv pops_iff split: if_splits sum.splits)
    then show ?thesis
      using i32 [OF os(2)] br_table_step [OF inv c(1) cur os(2) _ small, of d ds m] WBrTable by (simp add: live_defs)
  next
    case WReturn
    then show ?thesis using st return_step [OF inv c(1) cur _ small] by (auto simp: live_defs split: if_splits)
  next
    case WDrop
    then obtain os t where os: "vs_ops v = os @ [t]" "dead = False" "v' = v\<lparr>vs_ops := os\<rparr>"
      using st by (cases "vs_ops v" rule: rev_exhaust) (auto simp: vstep_def Let_def)
    then show ?thesis
      using WDrop apply_drop [of "c\<lparr>internal := ops\<rparr>" "?s @ os" t] stack_step [OF inv c cur, of os m "[Drop (0, 0)]"]
        check_drop [of cs "?s @ os" t] cur inv_stack(1) [OF inv] by (simp add: live_defs)
  next
    case WSelect
    then obtain os t where os: "vs_ops v = os @ [t, t, I32]" "dead = False" "v' = v\<lparr>vs_ops := os @ [t]\<rparr>"
      using st by (auto simp: vstep_def Let_def bind_eq_Some_conv pops_iff split: if_splits)
    then show ?thesis
      using WSelect apply_select [of "c\<lparr>internal := ops\<rparr>" "?s @ os" t] stack_step [OF inv c cur, of "os @ [t]" m "[Select]"]
        check_select [of cs "?s @ os" t] cur inv_stack(1) [OF inv] by (simp add: live_defs)
  next
    case (WGetLocal i)
    then have i: "unat i < length locals" "dead = False" "v' = v\<lparr>vs_ops := vs_ops v @ [locals ! unat i]\<rparr>"
      using st by (auto simp: vstep_def Let_def split: if_splits)
    then show ?thesis
      using WGetLocal get_local_step [OF inv c cur i(1), of m] local_type(3) [OF inv i(1)]
        apply_op_concrete [of "c\<lparr>internal := ops\<rparr>" "stack c" "[]" "[locals ! unat i]"]
      by (simp add: live_def op_sig_of_def del: index_res_iff)
  next
    case (WSetLocal i)
    then obtain os where i: "unat i < length locals" "vs_ops v = os @ [locals ! unat i]" "dead = False" "v' = v\<lparr>vs_ops := os\<rparr>"
      using st by (auto simp: vstep_def Let_def bind_eq_Some_conv pops_iff split: if_splits)
    then show ?thesis
      using WSetLocal set_local_step [OF inv c cur i(1,2), of m] local_type(3) [OF inv i(1)] inv_stack(1) [OF inv]
        apply_op_concrete [of "c\<lparr>internal := ops\<rparr>" "?s @ os" "[locals ! unat i]" "[]"]
      by (simp add: live_def op_sig_of_def del: index_res_iff)
  next
    case (WTeeLocal i)
    then obtain os where i: "unat i < length locals" "vs_ops v = os @ [locals ! unat i]" "dead = False" "v' = v"
      using st by (auto simp: vstep_def Let_def pops_iff split: if_splits)
    then show ?thesis
      using WTeeLocal tee_local_step [OF inv c cur i(1,2), of m] local_type(3) [OF inv i(1)] inv_stack(1) [OF inv]
        apply_op_concrete [of "c\<lparr>internal := ops\<rparr>" "?s @ os" "[locals ! unat i]" "[locals ! unat i]"]
      by (simp add: live_def op_sig_of_def del: index_res_iff)
  qed (rule plain, use st in \<open>simp add: vstep_def Let_def\<close>)+
qed

text \<open>Dead code is skipped to the \<^verbatim>\<open>else\<close> or \<^verbatim>\<open>end\<close> of the innermost live frame.\<close>

lemma skip_dead_valid:
  assumes "valid_body m locals rets (Some depth) v ops"
  obtains ops' where "skip_dead ops depth = Inr (True, ops')" "length ops' < length ops"
      "\<exists>v'. else_dead v = Some v' \<and> valid_body m locals rets None v' ops'"
  | ops' where "skip_dead ops depth = Inr (False, ops')" "length ops' < length ops"
      "if vs_frames v = [] then ops' = [] else \<exists>v'. leave_dead v = Some v' \<and> valid_body m locals rets None v' ops'"
  using assms
proof (induction ops arbitrary: depth thesis)
  case (Cons op ops)
  have skip: thesis if "skip_dead (op # ops) depth = skip_dead ops d" "valid_body m locals rets (Some d) v ops" for d
    by (rule Cons.IH [OF _ _ that(2)]) (use Cons.prems(1,2) that(1) in auto)
  show ?case
  proof (cases op)
    case WElse
    then show ?thesis
      using Cons.prems skip by (cases "depth = 0") (auto split: option.splits)
  next
    case WEnd
    then show ?thesis
      using Cons.prems skip by (cases "depth = 0") (auto split: option.splits if_splits)
  qed (use Cons.prems skip in auto)
qed simp

text \<open>Every call of the iterator that gives operators reads at least one operator of the body, or it
  emits the constants of the locals.\<close>

definition conv_size :: "conv \<Rightarrow> nat" where
  "conv_size c = length (internal c) + (if consts_to_emit c = None then 0 else 1)"

lemma conv_size_simps [simp]:
  "conv_size (c\<lparr>control_frames := fs\<rparr>) = conv_size c" "conv_size (c\<lparr>stack := st\<rparr>) = conv_size c"
  "conv_size (c\<lparr>unreachable := u\<rparr>) = conv_size c" "conv_size (c\<lparr>current_id := i\<rparr>) = conv_size c"
  "conv_size (c\<lparr>is_done := b\<rparr>) = conv_size c"
  by (simp_all add: conv_size_def)

lemma apply_op_size: "apply_op c sg = Inr c' \<Longrightarrow> conv_size c' = conv_size c"
  by (auto simp: apply_op_def)

lemma nth_block_mut_size: "nth_block_mut c d f = Inr c' \<Longrightarrow> conv_size c' = conv_size c"
  by (auto simp: nth_block_mut_def)

lemma table_target_size: "table_target d c = Inr (t, c') \<Longrightarrow> conv_size c' = conv_size c"
  by (auto simp: table_target_def nth_block_mut_size)

lemma table_targets_size: "table_targets ds c = Inr (ts, c') \<Longrightarrow> conv_size c' = conv_size c"
  by (induction ds arbitrary: ts c c') (auto simp: table_target_size)

lemma convert_op_size: "convert_op op c = Inr (out, c') \<Longrightarrow> conv_size c' = conv_size c"
proof (cases op)
  case (WBrTable table)
  moreover assume "convert_op op c = Inr (out, c')"
  ultimately show ?thesis
    using table_targets_size [of _ "c\<lparr>unreachable := True\<rparr>"]
    by (auto simp: convert_op_def convert_br_table_def Let_def table_target_size)
next
  case (WBrIf d)
  moreover assume "convert_op op c = Inr (out, c')"
  ultimately show ?thesis
    by (auto simp: convert_op_def convert_br_if_def next_id_def Let_def nth_block_mut_size)
next
  case (WBr d)
  moreover assume "convert_op op c = Inr (out, c')"
  ultimately show ?thesis
    by (auto simp: convert_op_def convert_br_def Let_def nth_block_mut_size)
next
  case WEnd
  moreover assume "convert_op op c = Inr (out, c')"
  ultimately show ?thesis
    by (auto simp: convert_op_def convert_end_def pop_frame_def Microwasm_Conv.truncate_def Let_def split: if_splits)
qed (auto simp: convert_op_def emit_def convert_block_def convert_loop_def convert_if_def convert_else_def
    convert_return_def next_id_def push_frame_def set_last_frame_def Microwasm_Conv.truncate_def Let_def)

lemma skip_dead_shorter: "skip_dead ops depth = Inr (b, ops') \<Longrightarrow> length ops' < length ops"
  by (induction ops arbitrary: depth) (fastforce split: wasm_operator.splits if_splits)+

lemma conv_next_size:
  assumes "conv_next m c = Inr (Some out, c')"
  shows "conv_size c' < conv_size c"
proof (cases "unreachable c \<and> consts_to_emit c = None")
  case True
  have "conv_size c' = length ops" if "skip_dead (internal c) 0 = Inr (b, ops)" for b ops
    using assms True that
    by (auto simp: conv_next_def resume_else_def resume_end_def pop_frame_def set_last_frame_def Let_def conv_size_def
        Microwasm_Conv.truncate_def split: if_splits)
  then show ?thesis
    using assms True skip_dead_shorter by (auto simp: conv_next_def conv_size_def split: if_splits) 
next
  case False
  show ?thesis
  proof (cases "consts_to_emit c")
    case None
    then obtain op ops c1 where "internal c = op # ops" "conv_size c1 = conv_size (c\<lparr>internal := ops\<rparr>)"
      "conv_size c' = conv_size c1"
      using assms False convert_op_size apply_op_size
      by (auto simp: conv_next_def Let_def split: if_splits list.splits)
    then show ?thesis using None by (simp add: conv_size_def)
  next
    case Some
    then show ?thesis using assms by (auto simp: conv_next_def conv_size_def split: if_splits)
  qed
qed

text \<open>All operators of a function, as \<^verbatim>\<open>translate_wasm\<close> (\<^verbatim>\<open>lightbeam/src/function_body.rs\<close>) collects
  them: a reading error is a panic there.\<close>

function conv_all :: "module_context \<Rightarrow> conv \<Rightarrow> emitted res" where
  "conv_all m c =
     (case conv_next m c of
        Inl (Err e) \<Rightarrow> Inl (Panic ''TODO: Make this not panic'')
      | Inl e \<Rightarrow> Inl e
      | Inr (None, c') \<Rightarrow> Inr []
      | Inr (Some out, c') \<Rightarrow> bind_res (conv_all m c') (\<lambda>rest. Inr (out @ rest)))"
  by pat_completeness auto
termination by (relation "measure (\<lambda>(m, c). conv_size c)") (auto simp: conv_next_size)

declare conv_all.simps [simp del]

definition translate_wasm ::
  "module_context \<Rightarrow> signless_type list \<Rightarrow> signless_type list \<Rightarrow> (u32 \<times> wasm_type) list \<Rightarrow> wasm_operator list \<Rightarrow> emitted res" where
  "translate_wasm m params returns locs body =
     bind_res (conv_new params returns locs body) (conv_all m)"

lemma check_ops_append:
  "check_ops m rets (xs @ ys) cs = Option.bind (check_ops m rets xs cs) (check_ops m rets ys)"
  by (induction xs arbitrary: cs) (auto split: bind_split)

definition closes :: "module_context \<Rightarrow> signless_type list \<Rightarrow> check_state \<Rightarrow> emitted res \<Rightarrow> bool" where
  "closes m rets cs r \<longleftrightarrow>
     (\<exists>out cs'. r = Inr out \<and> check_ops m rets out cs = Some cs' \<and> cs_targets cs' \<subseteq> cs_started cs' \<and> cs_cur cs' = None)"

lemma closes_next:
  assumes "conv_next m c = Inr (Some out, c')" "check_ops m rets out cs = Some cs'" "closes m rets cs' (conv_all m c')"
  shows "closes m rets cs (conv_all m c)"
  using assms by (auto simp: closes_def conv_all.simps [of m c] check_ops_append)

lemma closes_done:
  assumes "conv_next m c = Inr (None, c')" "cs_targets cs \<subseteq> cs_started cs" "cs_cur cs = None"
  shows "closes m rets cs (conv_all m c)"
  using assms by (auto simp: closes_def conv_all.simps [of m c])

lemma function_end:
  assumes inv: "conv_inv locals rets ff cfs c v cs" and v: "vs_frames v = []"
  shows "cfs = []" "control_frames c = [ff]" "cs_targets cs \<subseteq> cs_started cs"
proof -
  show "cfs = []" using inv v frames_ok_length by (fastforce simp: conv_inv_def)
  then show "control_frames c = [ff]" "cs_targets cs \<subseteq> cs_started cs"
    using inv by (auto simp: conv_inv_def labels_ok_def pending_def)
qed

lemma final_end:
  assumes inv: "conv_inv locals rets ff cfs c v cs" and c: "internal c = [WEnd]" "\<not> unreachable c"
    and cur: "cs_cur cs = Some (stack c)" and v: "vs_frames v = []" "vs_ops v = rets"
  shows "closes m rets cs (conv_all m c)"
proof -
  note e = function_end [OF inv v(1)]
  have st: "stack c = locals @ rets" "cf_returns ff = rets" "cf_kind ff = FFunction" "consts_to_emit c = None" "\<not> is_done c"
    using inv v by (simp_all add: conv_inv_def)
  obtain c' where "conv_next m c = Inr (Some [Br TgtReturn], c')" "is_done c'"
    using c e(2) st
    by (auto simp: conv_next_def op_sig_of_def convert_op_def convert_end_def pop_frame_def last_frame_def
        Microwasm_Conv.truncate_def Let_def)
  moreover have "check_ops m rets [Br TgtReturn] cs = Some (branch [TgtReturn] cs)"
    using cur st by (simp add: check_op_def check_stack_op_def target_ok_def)
  moreover have "closes m rets (branch [TgtReturn] cs) (conv_all m c')"
    by (rule closes_done [of _ _ c']) (use \<open>is_done c'\<close> e(3) in \<open>simp_all add: conv_next_def branch_def\<close>)
  ultimately show ?thesis by (blast intro: closes_next)
qed

lemma conv_next_live:
  assumes "conv_inv locals rets ff cfs c v cs" "internal c = op # ops" "\<not> unreachable c"
  shows "conv_next m c = bind_res (live m (c\<lparr>internal := ops\<rparr>) op) (\<lambda>(out, c). Inr (Some out, c))"
proof -
  have "\<not> is_done c" "consts_to_emit c = None" using assms(1) by (simp_all add: conv_inv_def)
  then show ?thesis
    using assms(2,3) by (cases "op_sig_of m (c\<lparr>internal := ops\<rparr>) op") (auto simp: conv_next_def live_def Let_def bind_res_def split: sum.splits)
qed

definition conv_state ::
  "module_context \<Rightarrow> signless_type list \<Rightarrow> signless_type list \<Rightarrow> conv \<Rightarrow> vstate \<Rightarrow> check_state \<Rightarrow> bool" where
  "conv_state m locals rets c v cs \<longleftrightarrow>
     (\<exists>ff cfs. conv_inv locals rets ff cfs c v cs) \<and>
     valid_body m locals rets (if unreachable c then Some 0 else None) v (internal c) \<and>
     cs_cur cs = (if unreachable c then None else Some (stack c))"

definition closable :: "module_context \<Rightarrow> signless_type list \<Rightarrow> signless_type list \<Rightarrow> nat \<Rightarrow> bool" where
  "closable m locals rets n \<longleftrightarrow>
     (\<forall>c v cs. length (internal c) < n \<longrightarrow> conv_state m locals rets c v cs \<longrightarrow> closes m rets cs (conv_all m c))"

lemma closes_step:
  assumes "closable m locals rets n"
    and r: "conv_next m c = bind_res r (\<lambda>(out, c). Inr (Some out, c))" "simulates m locals rets dead ops v' cs r"
    and ops: "length ops < n" "valid_body m locals rets (if dead then Some 0 else None) v' ops"
  shows "closes m rets cs (conv_all m c)"
proof -
  obtain out c' ff cfs cs' where s: "r = Inr (out, c')" "internal c' = ops" "check_ops m rets out cs = Some cs'"
    "conv_inv locals rets ff cfs c' v' cs'" "unreachable c' = dead" "cs_cur cs' = (if dead then None else Some (stack c'))"
    using r(2) unfolding simulates_def by blast
  have "closes m rets cs' (conv_all m c')"
    using assms(1) s ops unfolding closable_def conv_state_def by blast
  then show ?thesis using closes_next [of m c out c' rets cs cs'] r(1) s(1,3) by simp
qed

lemma closes_live:
  assumes IH: "closable m locals rets (length (internal c))" and small: "length rets \<le> 1"
    and inv: "conv_inv locals rets ff cfs c v cs" and live: "\<not> unreachable c"
    and valid: "valid_body m locals rets None v (internal c)" and cur: "cs_cur cs = Some (stack c)"
  shows "closes m rets cs (conv_all m c)"
proof (cases "internal c")
  case (Cons op ops)
  show ?thesis
  proof (cases "op = WEnd \<and> vs_frames v = []")
    case True
    then show ?thesis using valid Cons live cur final_end [OF inv, of m] by simp
  next
    case False
    then obtain dead v' where st: "vstep m locals rets op v = Some (dead, v')"
      "valid_body m locals rets (if dead then Some 0 else None) v' ops"
      using valid Cons by (auto split: option.splits prod.splits)
    show ?thesis
      by (rule closes_step [OF IH conv_next_live [OF inv Cons live] live_step [OF inv Cons live cur st(1) small] _ st(2)])
        (simp add: Cons)
  qed
qed (use valid in simp)

lemma closes_dead:
  assumes IH: "closable m locals rets (length (internal c))" and inv: "conv_inv locals rets ff cfs c v cs"
    and dead: "unreachable c" "valid_body m locals rets (Some 0) v (internal c)" "cs_cur cs = None"
  shows "closes m rets cs (conv_all m c)"
proof (rule skip_dead_valid [OF dead(2)])
  have nd: "\<not> is_done c" "consts_to_emit c = None" using inv by (simp_all add: conv_inv_def)
  fix ops assume sk: "skip_dead (internal c) 0 = Inr (True, ops)" "length ops < length (internal c)"
    "\<exists>v'. else_dead v = Some v' \<and> valid_body m locals rets None v' ops"
  then obtain v' where "else_dead v = Some v'" "valid_body m locals rets None v' ops" by blast
  then show ?thesis
    using closes_step [OF IH, of c "resume_else (c\<lparr>unreachable := False, internal := ops\<rparr>)" False ops v'] sk dead nd
      resume_else_step [OF inv sk(2), of v' m] by (simp add: conv_next_def Let_def)
next
  have nd: "\<not> is_done c" "consts_to_emit c = None" using inv by (simp_all add: conv_inv_def)
  fix ops assume sk: "skip_dead (internal c) 0 = Inr (False, ops)" "length ops < length (internal c)"
    "if vs_frames v = [] then ops = [] else \<exists>v'. leave_dead v = Some v' \<and> valid_body m locals rets None v' ops"
  have nx: "conv_next m c = resume_end (c\<lparr>unreachable := False, internal := ops\<rparr>)"
    using sk(1) dead(1) nd by (simp add: conv_next_def Let_def)
  show ?thesis
  proof (cases "vs_frames v = []")
    case True
    then show ?thesis
      using nx function_end [OF inv True] closes_done [of m c _ cs rets] dead
      by (simp add: resume_end_def pop_frame_def last_frame_def)
  next
    case False
    then obtain v' where v': "leave_dead v = Some v'" "valid_body m locals rets None v' ops" using sk(3) by auto
    obtain r where r: "resume_end (c\<lparr>unreachable := False, internal := ops\<rparr>) = bind_res r (\<lambda>(out, c). Inr (Some out, c))"
      "simulates m locals rets False ops v' cs r"
      using resume_end_step [OF inv sk(2) dead(3) v'(1), of m] by auto
    show ?thesis by (rule closes_step [OF IH nx [unfolded r(1)] r(2) sk(2)]) (use v'(2) in simp)
  qed
qed

lemma conv_all_closes:
  assumes "conv_state m locals rets c v cs" "length rets \<le> 1"
  shows "closes m rets cs (conv_all m c)"
  using assms(1)
proof (induction "length (internal c)" arbitrary: c v cs rule: less_induct)
  case less
  have IH: "closable m locals rets (length (internal c))" using less.hyps by (auto simp: closable_def)
  then show ?case
    using less.prems closes_live [OF IH assms(2)] closes_dead [OF IH]
    by (cases "unreachable c") (auto simp: conv_state_def)
qed

lemma emit_consts:
  "cs_cur cs = Some s \<Longrightarrow> check_ops m rets (map (Const \<circ> default_for_type) tys) cs = Some (with_stack cs (s @ tys))"
proof (induction tys arbitrary: s cs)
  case (Cons t tys)
  have "type_of_value (default_for_type t) = t"
    by (cases t rule: default_for_type.cases) (simp_all add: type_of_value_def)
  then have "check_op m rets (Const (default_for_type t)) cs = Some (with_stack cs (s @ [t]))"
    using check_plain [of m "Const (default_for_type t)" "[]" "[t]" cs s] Cons.prems by (simp add: plain_type_def)
  then show ?case using Cons.IH [of "with_stack cs (s @ [t])" "s @ [t]"] by simp
qed simp

section \<open>Properties of the translation\<close>

lemma conv_new_state:
  assumes tys: "local_types locs = Inr tys" and valid: "valid_function m (params @ tys) rets body"
    and bound: "length (params @ tys) + length body < 2 ^ 31 - 1"
  obtains c where "conv_new params rets locs body = Inr c" "conv_size c = Suc (length body)"
    "conv_next m c = Inr (Some (map (Const \<circ> default_for_type) tys), c\<lparr>consts_to_emit := None\<rparr>)"
    "conv_state m (params @ tys) rets (c\<lparr>consts_to_emit := None\<rparr>) \<lparr>vs_frames = [], vs_ops = []\<rparr>
       (with_stack (check_init params) (params @ tys))"
proof -
  let ?l = "params @ tys"
  let ?ff = "\<lparr>cf_id = 0, cf_arguments = of_nat (length ?l), cf_returns = rets, cf_kind = FFunction\<rparr>"
  let ?c = "\<lparr>is_done = False, consts_to_emit = Some (map default_for_type tys), stack = ?l, internal = body,
     current_id = 1, control_frames = [?ff], unreachable = False\<rparr>"
  have "unat (of_nat (length ?l) :: u32) = length ?l" using bound by (intro unat_of_nat_u32) simp
  then have "conv_inv ?l rets ?ff [] (?c\<lparr>consts_to_emit := None\<rparr>) \<lparr>vs_frames = [], vs_ops = []\<rparr>
      (with_stack (check_init params) ?l)"
    using bound by (auto simp: conv_inv_def labels_ok_def check_init_def)
  then have "conv_state m ?l rets (?c\<lparr>consts_to_emit := None\<rparr>) \<lparr>vs_frames = [], vs_ops = []\<rparr>
      (with_stack (check_init params) ?l)"
    using valid unfolding conv_state_def valid_function_def by auto
  moreover have "conv_new params rets locs body = Inr ?c"
    using tys by (simp add: conv_new_def next_id_def Let_def)
  moreover have "conv_next m ?c = Inr (Some (map (Const \<circ> default_for_type) tys), ?c\<lparr>consts_to_emit := None\<rparr>)"
    by (simp add: conv_next_def)
  ultimately show ?thesis using that [of ?c] by (simp add: conv_size_def)
qed

text \<open>C3. The translation of a function body of the fragment neither panics nor fails, and what it emits is
  well-formed microwasm: every block is defined before it is branched to and has one body, every
  branch passes exactly the parameters of its target, and every operator finds operands of its types.
  The fragment is \<open>valid_function\<close>: valid bodies without sign extensions, without calls or blocks with
  several results and without branches back to a loop with a result from a place with operands above
  those of the loop, of functions with at most one result and fewer than \<open>2^31 - 1\<close> locals and operators.\<close>

theorem translate_wasm_well_formed:
  assumes "local_types locs = Inr tys" "valid_function m (params @ tys) rets body" "length rets \<le> 1"
    and "length (params @ tys) + length body < 2 ^ 31 - 1"
  shows "\<exists>out. translate_wasm m params rets locs body = Inr out \<and> well_formed m params rets out"
proof -
  let ?cs = "with_stack (check_init params) (params @ tys)"
  obtain c where c: "conv_new params rets locs body = Inr c"
    "conv_next m c = Inr (Some (map (Const \<circ> default_for_type) tys), c\<lparr>consts_to_emit := None\<rparr>)"
    "conv_state m (params @ tys) rets (c\<lparr>consts_to_emit := None\<rparr>) \<lparr>vs_frames = [], vs_ops = []\<rparr> ?cs"
    using assms(1,2,4) by (rule conv_new_state)
  have "check_ops m rets (map (Const \<circ> default_for_type) tys) (check_init params) = Some ?cs"
    by (rule emit_consts) (simp add: check_init_def)
  then have "closes m rets (check_init params) (conv_all m c)"
    by (rule closes_next [OF c(2) _ conv_all_closes [OF c(3) assms(3)]])
  then show ?thesis using c(1) by (auto simp: closes_def translate_wasm_def well_formed_def)
qed

text \<open>A function with a parameter, a local, a block with a result, a loop and dead code.\<close>

definition sample_context :: module_context where
  "sample_context = \<lparr>func_type = (\<lambda>_. ([], [])), signature = (\<lambda>_. ([], [])), global_type = (\<lambda>_. I32)\<rparr>"

definition sample_body :: "wasm_operator list" where
  "sample_body =
     [WBlock (TypeT WI32), WGetLocal 0, WGetLocal 0, WBrIf 0, WIf (TypeT WEmptyBlockType), WI64Const 7, WSetLocal 1,
      WElse, WLoop (TypeT WEmptyBlockType), WBr 0, WNop, WEnd, WEnd, WI32Const 1, WEnd, WEnd]"

lemmas sample_simps = sample_body_def sample_context_def valid_function_def vstep_def enter_def block_results_def
  branch_valid_def leave_dead_def else_dead_def wasm_plain_def pops_def Let_def

lemma sample_valid: "valid_function sample_context [I32, I64] [I32] sample_body"
  by (simp add: sample_simps)

lemma sample_locals: "local_types [(1, WI64)] = Inr [I64]"
  by (simp add: from_wasm_def unwrap_res_def)

theorem translate_wasm_well_formed_witness:
  "\<exists>out. translate_wasm sample_context [I32] [I32] [(1, WI64)] sample_body = Inr out \<and>
     well_formed sample_context [I32] [I32] out"
  by (rule translate_wasm_well_formed [OF sample_locals]) (use sample_valid in \<open>simp_all add: sample_body_def\<close>)

text \<open>\<open>advance m n c\<close> calls \<^verbatim>\<open>next\<close> up to \<open>n\<close> times, until it returns \<^verbatim>\<open>None\<close>.\<close>

fun advance :: "module_context \<Rightarrow> nat \<Rightarrow> conv \<Rightarrow> conv option res" where
  "advance m 0 c = Inr (Some c)"
| "advance m (Suc n) c =
     bind_res (conv_next m c) (\<lambda>(out, c'). case out of None \<Rightarrow> Inr None | Some _ \<Rightarrow> advance m n c')"

lemma advance_ends:
  "conv_all m c = Inr out \<Longrightarrow> conv_size c < n \<Longrightarrow> advance m n c = Inr None"
proof (induction n arbitrary: c out)
  case (Suc n)
  show ?case
  proof (cases "conv_next m c")
    case (Inl e)
    then show ?thesis using Suc.prems by (cases e) (auto simp: conv_all.simps [of m c])
  next
    case (Inr r)
    obtain o' c' where r: "r = (o', c')" by (cases r)
    show ?thesis
    proof (cases o')
      case (Some x)
      then have "conv_size c' < conv_size c" using Inr r conv_next_size by simp
      moreover obtain rest where "conv_all m c' = Inr rest"
        using Suc.prems(1) Inr r Some by (cases "conv_all m c'") (auto simp: conv_all.simps [of m c])
      ultimately show ?thesis using Suc.IH [of c' rest] Suc.prems(2) Inr r Some by simp
    qed (use Inr r in simp)
  qed
qed simp

text \<open>C27. The iterator over a body of the fragment of \<open>valid_function\<close> returns \<^verbatim>\<open>None\<close> after at most one call for each operator of the
  body, one for the constants of the locals and the last one.\<close>

theorem conv_next_reaches_end:
  assumes "local_types locs = Inr tys" "valid_function m (params @ tys) rets body" "length rets \<le> 1"
    and "length (params @ tys) + length body < 2 ^ 31 - 1"
  shows "\<exists>c. conv_new params rets locs body = Inr c \<and> advance m (length body + 2) c = Inr None"
proof -
  let ?cs = "with_stack (check_init params) (params @ tys)"
  obtain c where c: "conv_new params rets locs body = Inr c" "conv_size c = Suc (length body)"
    "conv_next m c = Inr (Some (map (Const \<circ> default_for_type) tys), c\<lparr>consts_to_emit := None\<rparr>)"
    "conv_state m (params @ tys) rets (c\<lparr>consts_to_emit := None\<rparr>) \<lparr>vs_frames = [], vs_ops = []\<rparr> ?cs"
    using assms(1,2,4) by (rule conv_new_state)
  obtain out where "conv_all m c = Inr out"
    using conv_all_closes [OF c(4) assms(3)] c(3) by (auto simp: closes_def conv_all.simps [of m c])
  then have "advance m (length body + 2) c = Inr None" by (rule advance_ends) (simp add: c(2))
  then show ?thesis using c(1) by blast
qed

theorem conv_next_reaches_end_witness:
  "\<exists>c. conv_new [I32] [I32] [(1, WI64)] sample_body = Inr c \<and>
     advance sample_context (length sample_body + 2) c = Inr None"
  by (rule conv_next_reaches_end [OF sample_locals]) (use sample_valid in \<open>simp_all add: sample_body_def\<close>)

text \<open>Why the fragment leaves out branches back to a loop with a result: such a branch drops the operands above
  those of the result of the loop, not above its parameters. In this body, which is valid in
  WebAssembly, the branch comes with the constant on top of the parameter of the function, and the
  header takes an \<open>I64\<close> off the top.\<close>

lemma loop_result_branch_ill_formed:
  "\<exists>out. translate_wasm m [I64] [I32] [] [WLoop (TypeT WI32), WI32Const x, WBr 0, WEnd, WEnd] = Inr out \<and>
     \<not> well_formed m [I64] [I32] out"
proof -
  let ?h = "(1, Header) :: wasm_label" and ?e = "(1, End) :: wasm_label"
  let ?out = "[Block ?h [I64] True None, Block ?e [I64, I32] False None, Br (TgtLabel ?h), Label ?h, Const (VI32 x), Br (TgtLabel ?h),
    Label ?e, Br TgtReturn]"
  have "translate_wasm m [I64] [I32] [] [WLoop (TypeT WI32), WI32Const x, WBr 0, WEnd, WEnd] = Inr ?out"
    by (simp add: op_sig_none_def translate_wasm_def conv_new_def next_id_def conv_all.simps conv_next_def op_sig_of_def convert_op_def
        convert_loop_def emit_defs create_returns_from_wasm_type_def from_wasm_def emit_def apply_op_def convert_br_def
        nth_block_def nth_block_mut_def get_def unwrap_res_def mark_branched_to_def br_target_def to_drop_def drops_def
        checked_sub_def resume_end_def pop_frame_def last_frame_def Microwasm_Conv.truncate_def convert_end_def Let_def)
  moreover have "\<not> well_formed m [I64] [I32] ?out"
    by (simp add: well_formed_def check_init_def check_op_def check_stack_op_def target_ok_def branch_def plain_type_def
        pops_def type_of_value_def Let_def)
  ultimately show ?thesis by simp
qed

end
