(* ===== verification/Cache_Files.thy ===== *)
theory Cache_Files
  imports Prelude
begin

text \<open>
  The parts of Rust's standard library that the cache uses: paths, decimal numbers, and a file system.

  A path is the list of its components; the root is the component ''/''. A file system is a list of
  paths with their nodes, so that a directory is listed in an arbitrary order. Every operation may
  fail: whether it does is part of the environment, together with the clock, the process identifier
  and how many bytes a failing write leaves behind. Times are nanoseconds.
\<close>

section \<open>Paths\<close>

type_synonym path = "string list"

definition is_absolute :: "path \<Rightarrow> bool" where
  "is_absolute p = (p \<noteq> [] \<and> hd p = ''/'')"

definition parent :: "path \<Rightarrow> path option" where
  "parent p = (if p = [] \<or> p = [''/''] then None else Some (butlast p))"

definition file_name :: "path \<Rightarrow> string option" where
  "file_name p = (if p = [] \<or> last p \<in> {'''', ''/'', ''..''} then None else Some (last p))"

text \<open>A name is split at its last dot, unless that is its first character.\<close>

definition split_at_dot :: "string \<Rightarrow> (string \<times> string) option" where
  "split_at_dot n =
     (let after = rev (takeWhile (\<lambda>c. c \<noteq> CHR ''.'') (rev n)) in
      case dropWhile (\<lambda>c. c \<noteq> CHR ''.'') (rev n) of
        [] \<Rightarrow> None
      | _ # before \<Rightarrow> if before = [] then None else Some (rev before, after))"

definition name_stem :: "string \<Rightarrow> string" where
  "name_stem n = (case split_at_dot n of None \<Rightarrow> n | Some (before, _) \<Rightarrow> before)"

definition name_extension :: "string \<Rightarrow> string option" where
  "name_extension n = map_option snd (split_at_dot n)"

definition file_stem :: "path \<Rightarrow> string option" where
  "file_stem p = map_option name_stem (file_name p)"

definition extension :: "path \<Rightarrow> string option" where
  "extension p = Option.bind (file_name p) name_extension"

definition with_file_name :: "path \<Rightarrow> string \<Rightarrow> path" where
  "with_file_name p n = (if file_name p = None then p else butlast p) @ [n]"

definition with_extension :: "path \<Rightarrow> string \<Rightarrow> path" where
  "with_extension p ext =
     (case file_stem p of
        None \<Rightarrow> p
      | Some stem \<Rightarrow> with_file_name p (stem @ (if ext = [] then [] else CHR ''.'' # ext)))"

lemma split_at_dot_append:
  assumes "n \<noteq> []" "CHR ''.'' \<notin> set ext"
  shows "split_at_dot (n @ CHR ''.'' # ext) = Some (n, ext)"
proof -
  have "takeWhile (\<lambda>c. c \<noteq> CHR ''.'') (rev ext @ CHR ''.'' # rev n) = rev ext"
    "dropWhile (\<lambda>c. c \<noteq> CHR ''.'') (rev ext @ CHR ''.'' # rev n) = CHR ''.'' # rev n"
    using assms(2) by (auto simp: takeWhile_append dropWhile_append)
  then show ?thesis using assms(1) by (simp add: split_at_dot_def)
qed

lemma split_at_dot_none:
  assumes "CHR ''.'' \<notin> set n"
  shows "split_at_dot n = None"
proof -
  have "dropWhile (\<lambda>c. c \<noteq> CHR ''.'') (rev n) = []" using assms by (auto simp: dropWhile_eq_Nil_conv)
  then show ?thesis unfolding split_at_dot_def Let_def by (simp del: dropWhile_eq_Nil_conv)
qed

section \<open>Numbers in decimal\<close>

fun dec :: "nat \<Rightarrow> string" where
  "dec n = (if n < 10 then [char_of (48 + n)] else dec (n div 10) @ [char_of (48 + n mod 10)])"

declare dec.simps [simp del]

definition is_digit :: "char \<Rightarrow> bool" where
  "is_digit c = (48 \<le> (of_char c :: nat) \<and> (of_char c :: nat) \<le> 57)"

definition digit_value :: "char \<Rightarrow> nat" where
  "digit_value c = of_char c - 48"

fun parse_digits :: "'a::len word \<Rightarrow> string \<Rightarrow> 'a word option" where
  "parse_digits acc [] = Some acc"
| "parse_digits acc (c # cs) =
     (if is_digit c
      then do { a \<leftarrow> checked_mul acc 10; b \<leftarrow> checked_add a (of_nat (digit_value c)); parse_digits b cs }
      else None)"

definition from_str :: "string \<Rightarrow> 'a::len word option" where
  "from_str s =
     (case s of
        [] \<Rightarrow> None
      | c # cs \<Rightarrow> if c = CHR ''+'' then (if cs = [] then None else parse_digits 0 cs) else parse_digits 0 s)"

lemma digit_simps [simp]:
  assumes "k < 10"
  shows "is_digit (char_of (48 + k))" "digit_value (char_of (48 + k)) = k"
  using assms by (simp_all add: is_digit_def digit_value_def of_char_of)

lemma dec_small: "n < 10 \<Longrightarrow> dec n = [char_of (48 + n)]"
  by (subst dec.simps) simp

lemma dec_large: "10 \<le> n \<Longrightarrow> dec n = dec (n div 10) @ [char_of (48 + n mod 10)]"
  by (subst dec.simps) simp

lemma dec_digits: "\<forall>c \<in> set (dec n). is_digit c"
proof (induction n rule: dec.induct)
  case (1 n)
  then show ?case by (cases "n < 10") (simp_all add: dec_small dec_large)
qed

lemma dec_nonempty [simp]: "dec n \<noteq> []"
  by (cases "n < 10") (simp_all add: dec_small dec_large)

lemma parse_digits_snoc:
  "parse_digits acc (cs @ [c]) =
     do { x \<leftarrow> parse_digits acc cs;
          if is_digit c then do { a \<leftarrow> checked_mul x 10; checked_add a (of_nat (digit_value c)) } else None }"
  by (induction cs arbitrary: acc) (auto split: bind_split)

lemma parse_dec:
  assumes "n < 2 ^ 64"
  shows "parse_digits (0 :: u64) (dec n) = Some (of_nat n)"
  using assms
proof (induction n rule: dec.induct)
  case (1 n)
  show ?case
  proof (cases "n < 10")
    case True
    then show ?thesis
      using unat_of_nat_u64 [of n] by (simp add: dec_small checked_mul_def checked_add_def)
  next
    case False
    let ?d = "n div 10"
    have d: "?d < 2 ^ 64" "?d * 10 < 2 ^ 64" "n mod 10 < 2 ^ 64" "?d * 10 + n mod 10 = n" using "1.prems" by auto
    have "parse_digits (0 :: u64) (dec ?d) = Some (of_nat ?d)" using "1.IH" False d(1) by simp
    moreover have "checked_mul (of_nat ?d :: u64) 10 = Some (of_nat (?d * 10))"
      unfolding checked_mul_iff using unat_of_nat_u64 [OF d(1)] unat_of_nat_u64 [OF d(2)] by simp
    moreover have "checked_add (of_nat (?d * 10) :: u64) (of_nat (n mod 10)) = Some (of_nat n)"
      unfolding checked_add_iff using unat_of_nat_u64 [OF d(2)] unat_of_nat_u64 [OF d(3)] unat_of_nat_u64 [OF "1.prems"] d(4)
      by simp
    ultimately show ?thesis using False by (simp add: dec_large parse_digits_snoc)
  qed
qed

section \<open>Text of the settings\<close>

text \<open>Characters are code points below 256; the predicates are those of Unicode there.\<close>

definition is_whitespace :: "char \<Rightarrow> bool" where
  "is_whitespace c = ((of_char c :: nat) \<in> {9, 10, 11, 12, 13, 32, 133, 160})"

definition is_numeric :: "char \<Rightarrow> bool" where
  "is_numeric c = (is_digit c \<or> (of_char c :: nat) \<in> {178, 179, 185, 188, 189, 190})"

definition trim :: "string \<Rightarrow> string" where
  "trim s = rev (dropWhile is_whitespace (rev (dropWhile is_whitespace s)))"

lemma digit_not_whitespace: "is_digit c \<Longrightarrow> \<not> is_whitespace c" "is_digit c \<Longrightarrow> is_numeric c"
  by (auto simp: is_digit_def is_whitespace_def is_numeric_def)

lemma trim_core:
  assumes "\<forall>c \<in> set ws. is_whitespace c" "\<forall>c \<in> set ws'. is_whitespace c"
    and "s \<noteq> [] \<Longrightarrow> \<not> is_whitespace (hd s) \<and> \<not> is_whitespace (last s)"
  shows "trim (ws @ s @ ws') = s"
proof (cases "s = []")
  case True
  then have "dropWhile is_whitespace (ws @ s @ ws') = []" using assms(1,2) by (auto simp: dropWhile_eq_Nil_conv)
  then show ?thesis using True unfolding trim_def by (simp del: dropWhile_eq_Nil_conv)
next
  case False
  then obtain a t where a: "s = a # t" "\<not> is_whitespace a" using assms(3) by (cases s) auto
  obtain u b where b: "s = u @ [b]" "\<not> is_whitespace b" using False assms(3) by (cases s rule: rev_exhaust) auto
  have "dropWhile is_whitespace (ws @ s @ ws') = s @ ws'"
    using assms(1) a by (simp add: dropWhile_append2)
  moreover have "dropWhile is_whitespace (rev ws' @ rev s) = rev s"
    using assms(2) b dropWhile_append2 [of "rev ws'" is_whitespace "rev s"] by simp
  ultimately show ?thesis by (simp add: trim_def)
qed

end
