(* ===== verification/Cache_Config.thy ===== *)
theory Cache_Config
  imports Cache_Files
begin

text \<open>
  The configuration of the cache (\<^verbatim>\<open>wasmtime-environ/src/cache/config.rs\<close>): the formats of its
  settings, their validation and defaults, and the initialization of the system.

  The toml library is a parameter: it gives the values of the section \<^verbatim>\<open>[cache]\<close>, in which the
  settings with a format of their own are still text. So are the directories of the project and the
  file system. A message is its fixed part; a duration is its nanoseconds.
\<close>

section \<open>Formats\<close>

type_synonym duration = int

definition from_secs :: "u64 \<Rightarrow> duration" where
  "from_secs s = uint s * 10 ^ 9"

definition invalid_value :: error where
  "invalid_value = Err ''Invalid value, please refer to the documentation''"

text \<open>\<^verbatim>\<open>generate_deserializer!\<close>: the number and the unit of a text.\<close>

definition deserializer ::
  "('a::len word \<Rightarrow> string \<Rightarrow> 'b option) \<Rightarrow> string option \<Rightarrow> 'b option res" where
  "deserializer body text =
     (case text of
        None \<Rightarrow> Inr None
      | Some text \<Rightarrow>
          let text = trim text;
              num = takeWhile is_numeric text;
              unit = dropWhile is_numeric text
          in case Option.bind (from_str num) (\<lambda>num. body num (trim unit)) of
               Some x \<Rightarrow> Inr (Some x)
             | None \<Rightarrow> Inl invalid_value)"

definition duration_unit :: "u64 \<Rightarrow> string \<Rightarrow> duration option" where
  "duration_unit num unit =
     (if unit = ''s'' then Some (from_secs num)
      else if unit = ''m'' then Some (from_secs (num * 60))
      else if unit = ''h'' then Some (from_secs (num * 60 * 60))
      else if unit = ''d'' then Some (from_secs (num * 60 * 60 * 24))
      else None)"

definition si_prefix_unit :: "u64 \<Rightarrow> string \<Rightarrow> u64 option" where
  "si_prefix_unit num unit =
     (if unit = '''' then Some num
      else if unit = ''K'' then checked_mul num 1000
      else if unit = ''M'' then checked_mul num 1000000
      else if unit = ''G'' then checked_mul num 1000000000
      else if unit = ''T'' then checked_mul num 1000000000000
      else if unit = ''P'' then checked_mul num 1000000000000000
      else None)"

definition disk_space_unit :: "u64 \<Rightarrow> string \<Rightarrow> u64 option" where
  "disk_space_unit num unit =
     (if unit = '''' then Some num
      else if unit = ''K'' then checked_mul num 1000
      else if unit = ''Ki'' then checked_mul num (push_bit 10 1)
      else if unit = ''M'' then checked_mul num 1000000
      else if unit = ''Mi'' then checked_mul num (push_bit 20 1)
      else if unit = ''G'' then checked_mul num 1000000000
      else if unit = ''Gi'' then checked_mul num (push_bit 30 1)
      else if unit = ''T'' then checked_mul num 1000000000000
      else if unit = ''Ti'' then checked_mul num (push_bit 40 1)
      else if unit = ''P'' then checked_mul num 1000000000000000
      else if unit = ''Pi'' then checked_mul num (push_bit 50 1)
      else None)"

definition percent_unit :: "u8 \<Rightarrow> string \<Rightarrow> u8 option" where
  "percent_unit num unit = (if unit = ''%'' then Some num else None)"

definition deserialize_duration :: "string option \<Rightarrow> duration option res" where
  "deserialize_duration = deserializer duration_unit"

definition deserialize_si_prefix :: "string option \<Rightarrow> u64 option res" where
  "deserialize_si_prefix = deserializer si_prefix_unit"

definition deserialize_disk_space :: "string option \<Rightarrow> u64 option res" where
  "deserialize_disk_space = deserializer disk_space_unit"

definition deserialize_percent :: "string option \<Rightarrow> u8 option res" where
  "deserialize_percent = deserializer percent_unit"

section \<open>The configuration\<close>

record cache_config =
  errors :: "string list"
  enabled :: bool
  directory :: "path option"
  worker_event_queue_size :: "u64 option"
  baseline_compression_level :: "int option"
  optimized_compression_level :: "int option"
  optimized_compression_usage_counter_threshold :: "u64 option"
  cleanup_interval :: "duration option"
  optimizing_compression_task_timeout :: "duration option"
  allowed_clock_drift_for_files_from_future :: "duration option"
  file_count_soft_limit :: "u64 option"
  files_total_size_soft_limit :: "u64 option"
  file_count_limit_percent_if_deleting :: "u8 option"
  files_total_size_limit_percent_if_deleting :: "u8 option"

text \<open>The values of the toml file.\<close>

record raw_config =
  raw_enabled :: bool
  raw_directory :: "path option"
  raw_worker_event_queue_size :: "string option"
  raw_baseline_compression_level :: "int option"
  raw_optimized_compression_level :: "int option"
  raw_optimized_compression_usage_counter_threshold :: "string option"
  raw_cleanup_interval :: "string option"
  raw_optimizing_compression_task_timeout :: "string option"
  raw_allowed_clock_drift_for_files_from_future :: "string option"
  raw_file_count_soft_limit :: "string option"
  raw_files_total_size_soft_limit :: "string option"
  raw_file_count_limit_percent_if_deleting :: "string option"
  raw_files_total_size_limit_percent_if_deleting :: "string option"

definition deserialize_config :: "raw_config \<Rightarrow> cache_config res" where
  "deserialize_config r =
     bind_res (deserialize_si_prefix (raw_worker_event_queue_size r)) (\<lambda>queue_size.
     bind_res (deserialize_si_prefix (raw_optimized_compression_usage_counter_threshold r)) (\<lambda>threshold.
     bind_res (deserialize_duration (raw_cleanup_interval r)) (\<lambda>interval.
     bind_res (deserialize_duration (raw_optimizing_compression_task_timeout r)) (\<lambda>timeout.
     bind_res (deserialize_duration (raw_allowed_clock_drift_for_files_from_future r)) (\<lambda>drift.
     bind_res (deserialize_si_prefix (raw_file_count_soft_limit r)) (\<lambda>count_limit.
     bind_res (deserialize_disk_space (raw_files_total_size_soft_limit r)) (\<lambda>size_limit.
     bind_res (deserialize_percent (raw_file_count_limit_percent_if_deleting r)) (\<lambda>count_percent.
     bind_res (deserialize_percent (raw_files_total_size_limit_percent_if_deleting r)) (\<lambda>size_percent.
     Inr \<lparr>errors = [], enabled = raw_enabled r, directory = raw_directory r,
          worker_event_queue_size = queue_size,
          baseline_compression_level = raw_baseline_compression_level r,
          optimized_compression_level = raw_optimized_compression_level r,
          optimized_compression_usage_counter_threshold = threshold,
          cleanup_interval = interval,
          optimizing_compression_task_timeout = timeout,
          allowed_clock_drift_for_files_from_future = drift,
          file_count_soft_limit = count_limit,
          files_total_size_soft_limit = size_limit,
          file_count_limit_percent_if_deleting = count_percent,
          files_total_size_limit_percent_if_deleting = size_percent\<rparr>)))))))))"

text \<open>The getters, \<^verbatim>\<open>generate_setting_getter!\<close> and \<^verbatim>\<open>directory\<close>.\<close>

definition get_setting :: "(cache_config \<Rightarrow> 'a option) \<Rightarrow> cache_config \<Rightarrow> 'a res" where
  "get_setting setting c =
     unwrap_res (setting c) ''Cache system should be enabled and all settings must be validated or defaulted''"

definition new_cache_disabled :: cache_config where
  "new_cache_disabled =
     \<lparr>errors = [], enabled = False, directory = None, worker_event_queue_size = None,
      baseline_compression_level = None, optimized_compression_level = None,
      optimized_compression_usage_counter_threshold = None, cleanup_interval = None,
      optimizing_compression_task_timeout = None, allowed_clock_drift_for_files_from_future = None,
      file_count_soft_limit = None, files_total_size_soft_limit = None,
      file_count_limit_percent_if_deleting = None, files_total_size_limit_percent_if_deleting = None\<rparr>"

definition new_cache_enabled_template :: cache_config where
  "new_cache_enabled_template = new_cache_disabled\<lparr>enabled := True\<rparr>"

definition new_cache_with_errors :: "string list \<Rightarrow> cache_config" where
  "new_cache_with_errors errs = new_cache_disabled\<lparr>errors := errs\<rparr>"

section \<open>Validation\<close>

record config_env =
  project_dirs :: "(path \<times> path) option"  \<comment> \<open>the configuration and the cache directory\<close>
  path_exists :: "path \<Rightarrow> bool"
  read_file :: "path \<Rightarrow> string option"
  parse_toml :: "string \<Rightarrow> raw_config option"
  make_dirs :: "path \<Rightarrow> bool"
  canonicalize :: "path \<Rightarrow> path option"
  zstd_default_level :: int

definition push_error :: "string \<Rightarrow> cache_config \<Rightarrow> cache_config" where
  "push_error msg c = c\<lparr>errors := errors c @ [msg]\<rparr>"

definition default_config_path :: "config_env \<Rightarrow> string + path" where
  "default_config_path env =
     (case project_dirs env of
        Some (config_dir, _) \<Rightarrow> Inr (config_dir @ [''wasmtime-cache-config.toml''])
      | None \<Rightarrow> Inl ''Config file not specified and failed to get the default'')"

definition load_and_parse_file :: "config_env \<Rightarrow> path option \<Rightarrow> string + cache_config" where
  "load_and_parse_file env config_file =
     bind_res (case config_file of None \<Rightarrow> bind_res (default_config_path env) (\<lambda>p. Inr (p, False)) | Some p \<Rightarrow> Inr (p, True))
       (\<lambda>(config_file, user_custom_file).
        if \<not> path_exists env config_file \<and> \<not> user_custom_file then Inr new_cache_enabled_template
        else case read_file env config_file of
          None \<Rightarrow> Inl ''Failed to read config file''
        | Some bytes \<Rightarrow>
            (case parse_toml env bytes of
               None \<Rightarrow> Inl ''Failed to parse config file''
             | Some raw \<Rightarrow>
                 (case deserialize_config raw of
                    Inr c \<Rightarrow> Inr c | Inl _ \<Rightarrow> Inl ''Failed to parse config file'')))"

definition validate_directory_or_default :: "config_env \<Rightarrow> cache_config \<Rightarrow> cache_config" where
  "validate_directory_or_default env c =
     (case (case directory c of Some d \<Rightarrow> Some d | None \<Rightarrow> map_option snd (project_dirs env)) of
        None \<Rightarrow> push_error ''Cache directory not specified and failed to get the default'' c
      | Some cache_dir \<Rightarrow>
          let c = c\<lparr>directory := Some cache_dir\<rparr> in
          if \<not> is_absolute cache_dir then push_error ''Cache directory path has to be absolute'' c
          else if \<not> make_dirs env cache_dir then push_error ''Failed to create the cache directory'' c
          else case canonicalize env cache_dir of
            Some p \<Rightarrow> c\<lparr>directory := Some p\<rparr>
          | None \<Rightarrow> push_error ''Failed to canonicalize the cache directory'' c)"

definition or_default :: "'a option \<Rightarrow> 'a \<Rightarrow> 'a option" where
  "or_default x d = (if x = None then Some d else x)"

definition validate_worker_event_queue_size_or_default :: "cache_config \<Rightarrow> cache_config" where
  "validate_worker_event_queue_size_or_default c =
     c\<lparr>worker_event_queue_size := or_default (worker_event_queue_size c) 0x10\<rparr>"

definition ZSTD_COMPRESSION_LEVELS :: "int set" where
  "ZSTD_COMPRESSION_LEVELS = {0..21}"

definition validate_baseline_compression_level_or_default :: "config_env \<Rightarrow> cache_config \<Rightarrow> cache_config" where
  "validate_baseline_compression_level_or_default env c =
     (let c = c\<lparr>baseline_compression_level := or_default (baseline_compression_level c) (zstd_default_level env)\<rparr> in
      if the (baseline_compression_level c) \<notin> ZSTD_COMPRESSION_LEVELS
      then push_error ''Invalid baseline compression level'' c else c)"

definition validate_optimized_compression_level_or_default :: "cache_config \<Rightarrow> cache_config" where
  "validate_optimized_compression_level_or_default c =
     (let c = c\<lparr>optimized_compression_level := or_default (optimized_compression_level c) 20\<rparr>;
          opt_lvl = the (optimized_compression_level c);
          base_lvl = the (baseline_compression_level c);
          c = (if opt_lvl \<notin> ZSTD_COMPRESSION_LEVELS then push_error ''Invalid optimized compression level'' c else c)
      in if opt_lvl < base_lvl
         then push_error ''Invalid optimized compression level is lower than baseline'' c else c)"

definition validate_optimized_compression_usage_counter_threshold_or_default :: "cache_config \<Rightarrow> cache_config" where
  "validate_optimized_compression_usage_counter_threshold_or_default c =
     c\<lparr>optimized_compression_usage_counter_threshold :=
        or_default (optimized_compression_usage_counter_threshold c) 0x100\<rparr>"

definition validate_cleanup_interval_or_default :: "cache_config \<Rightarrow> cache_config" where
  "validate_cleanup_interval_or_default c =
     c\<lparr>cleanup_interval := or_default (cleanup_interval c) (from_secs (60 * 60))\<rparr>"

definition validate_optimizing_compression_task_timeout_or_default :: "cache_config \<Rightarrow> cache_config" where
  "validate_optimizing_compression_task_timeout_or_default c =
     c\<lparr>optimizing_compression_task_timeout :=
        or_default (optimizing_compression_task_timeout c) (from_secs (30 * 60))\<rparr>"

definition validate_allowed_clock_drift_for_files_from_future_or_default :: "cache_config \<Rightarrow> cache_config" where
  "validate_allowed_clock_drift_for_files_from_future_or_default c =
     c\<lparr>allowed_clock_drift_for_files_from_future :=
        or_default (allowed_clock_drift_for_files_from_future c) (from_secs (60 * 60 * 24))\<rparr>"

definition validate_file_count_soft_limit_or_default :: "cache_config \<Rightarrow> cache_config" where
  "validate_file_count_soft_limit_or_default c =
     c\<lparr>file_count_soft_limit := or_default (file_count_soft_limit c) 0x10000\<rparr>"

definition validate_files_total_size_soft_limit_or_default :: "cache_config \<Rightarrow> cache_config" where
  "validate_files_total_size_soft_limit_or_default c =
     c\<lparr>files_total_size_soft_limit := or_default (files_total_size_soft_limit c) (1024 * 1024 * 512)\<rparr>"

definition validate_file_count_limit_percent_if_deleting_or_default :: "cache_config \<Rightarrow> cache_config" where
  "validate_file_count_limit_percent_if_deleting_or_default c =
     (let c = c\<lparr>file_count_limit_percent_if_deleting := or_default (file_count_limit_percent_if_deleting c) 70\<rparr> in
      if the (file_count_limit_percent_if_deleting c) > 100
      then push_error ''Invalid files count limit percent if deleting'' c else c)"

definition validate_files_total_size_limit_percent_if_deleting_or_default :: "cache_config \<Rightarrow> cache_config" where
  "validate_files_total_size_limit_percent_if_deleting_or_default c =
     (let c = c\<lparr>files_total_size_limit_percent_if_deleting :=
                 or_default (files_total_size_limit_percent_if_deleting c) 70\<rparr> in
      if the (files_total_size_limit_percent_if_deleting c) > 100
      then push_error ''Invalid files total size limit percent if deleting'' c else c)"

definition disable_if_any_error :: "cache_config \<Rightarrow> cache_config" where
  "disable_if_any_error c = (if errors c \<noteq> [] then new_cache_disabled\<lparr>errors := errors c\<rparr> else c)"

definition validate :: "config_env \<Rightarrow> cache_config \<Rightarrow> cache_config" where
  "validate env c =
     (let c = validate_directory_or_default env c;
          c = validate_worker_event_queue_size_or_default c;
          c = validate_baseline_compression_level_or_default env c;
          c = validate_optimized_compression_level_or_default c;
          c = validate_optimized_compression_usage_counter_threshold_or_default c;
          c = validate_cleanup_interval_or_default c;
          c = validate_optimizing_compression_task_timeout_or_default c;
          c = validate_allowed_clock_drift_for_files_from_future_or_default c;
          c = validate_file_count_soft_limit_or_default c;
          c = validate_files_total_size_soft_limit_or_default c;
          c = validate_file_count_limit_percent_if_deleting_or_default c;
          c = validate_files_total_size_limit_percent_if_deleting_or_default c
      in disable_if_any_error c)"

definition from_file :: "config_env \<Rightarrow> bool \<Rightarrow> path option \<Rightarrow> cache_config" where
  "from_file env on config_file =
     (if \<not> on then new_cache_disabled
      else case load_and_parse_file env config_file of
        Inr c \<Rightarrow> validate env c
      | Inl err \<Rightarrow> new_cache_with_errors [err])"

section \<open>Initialization\<close>

text \<open>The statics: the configuration, whether \<^verbatim>\<open>init\<close> was called, and whether the worker was started. A
  panic leaves the statics as they are at that point.\<close>

record cache_system =
  config_once :: "cache_config option"
  init_called :: bool
  worker_init_called :: bool

definition cache_system_new :: cache_system where
  "cache_system_new = \<lparr>config_once = None, init_called = False, worker_init_called = False\<rparr>"

definition cache_config_get :: "cache_system \<Rightarrow> cache_config \<times> cache_system" where
  "cache_config_get s =
     (case config_once s of
        Some c \<Rightarrow> (c, s)
      | None \<Rightarrow> (new_cache_disabled, s\<lparr>config_once := Some new_cache_disabled\<rparr>))"

definition worker_init :: "cache_system \<Rightarrow> unit res \<times> cache_system" where
  "worker_init s =
     (if worker_init_called s then (Inl (Panic ''Cache worker init must be called at most once''), s)
      else (Inr (), s\<lparr>worker_init_called := True\<rparr>))"

text \<open>\<^verbatim>\<open>worker()\<close>.\<close>

definition cache_worker :: "cache_system \<Rightarrow> unit res" where
  "cache_worker s = assert_res (worker_init_called s) ''Cache worker must be initialized before usage''"

definition cache_init :: "config_env \<Rightarrow> bool \<Rightarrow> path option \<Rightarrow> cache_system \<Rightarrow> string list res \<times> cache_system" where
  "cache_init env on config_file s =
     (if init_called s then (Inl (Panic ''Cache system init must be called at most once''), s)
      else
        let s = s\<lparr>init_called := True\<rparr> in
        if config_once s \<noteq> None then (Inl (Panic ''Cache system init must be called before using the system.''), s)
        else
          let conf = from_file env on config_file; s = s\<lparr>config_once := Some conf\<rparr> in
          if errors conf = [] \<and> enabled conf
          then (case worker_init s of
                  (Inr _, s) \<Rightarrow> (Inr (errors conf), s) | (Inl e, s) \<Rightarrow> (Inl e, s))
          else (Inr (errors conf), s))"

text \<open>Any order of calls, from the start of the process on.\<close>

inductive cache_reachable :: "config_env \<Rightarrow> cache_system \<Rightarrow> bool" for env where
  start: "cache_reachable env cache_system_new"
| get: "cache_reachable env s \<Longrightarrow> cache_reachable env (snd (cache_config_get s))"
| init: "cache_reachable env s \<Longrightarrow> cache_reachable env (snd (cache_init env on config_file s))"

section \<open>Properties\<close>

lemma or_default_Some:
  obtains x where "or_default y d = Some x"
  by (cases y) (auto simp: or_default_def)

text \<open>What the rest of the cache relies on.\<close>

definition usable :: "cache_config \<Rightarrow> bool" where
  "usable c \<longleftrightarrow>
     (\<exists>dir queue base opt threshold interval timeout drift count size count_percent size_percent.
        get_setting directory c = Inr dir \<and> get_setting worker_event_queue_size c = Inr queue \<and>
        get_setting baseline_compression_level c = Inr base \<and>
        get_setting optimized_compression_level c = Inr opt \<and>
        get_setting optimized_compression_usage_counter_threshold c = Inr threshold \<and>
        get_setting cleanup_interval c = Inr interval \<and>
        get_setting optimizing_compression_task_timeout c = Inr timeout \<and>
        get_setting allowed_clock_drift_for_files_from_future c = Inr drift \<and>
        get_setting file_count_soft_limit c = Inr count \<and> get_setting files_total_size_soft_limit c = Inr size \<and>
        get_setting file_count_limit_percent_if_deleting c = Inr count_percent \<and>
        get_setting files_total_size_limit_percent_if_deleting c = Inr size_percent \<and>
        0 \<le> base \<and> base \<le> opt \<and> opt \<le> 21 \<and> count_percent \<le> 100 \<and> size_percent \<le> 100)"

text \<open>Each step sets its own setting, and does not report an error only when the setting is valid.\<close>

lemma validate_directory_step:
  assumes "errors (validate_directory_or_default env c) = []"
  obtains x where "validate_directory_or_default env c = c\<lparr>directory := Some x\<rparr>" "errors c = []"
  using assms by (auto simp: validate_directory_or_default_def push_error_def Let_def split: option.splits if_splits)

lemma validate_baseline_step:
  assumes "errors (validate_baseline_compression_level_or_default env c) = []"
  obtains x where "validate_baseline_compression_level_or_default env c = c\<lparr>baseline_compression_level := Some x\<rparr>"
    "0 \<le> x" "errors c = []"
proof -
  obtain x where "or_default (baseline_compression_level c) (zstd_default_level env) = Some x" by (rule or_default_Some)
  then show ?thesis
    using that [of x] assms
    by (auto simp: validate_baseline_compression_level_or_default_def push_error_def Let_def ZSTD_COMPRESSION_LEVELS_def
        split: if_splits)
qed

lemma validate_optimized_step:
  assumes "errors (validate_optimized_compression_level_or_default c) = []" "baseline_compression_level c = Some base"
  obtains x where "validate_optimized_compression_level_or_default c = c\<lparr>optimized_compression_level := Some x\<rparr>"
    "base \<le> x" "x \<le> 21" "errors c = []"
proof -
  obtain x where "or_default (optimized_compression_level c) 20 = Some x" by (rule or_default_Some)
  then show ?thesis
    using that [of x] assms
    by (auto simp: validate_optimized_compression_level_or_default_def push_error_def Let_def ZSTD_COMPRESSION_LEVELS_def
        split: if_splits)
qed

lemma validate_count_percent_step:
  assumes "errors (validate_file_count_limit_percent_if_deleting_or_default c) = []"
  obtains x where "validate_file_count_limit_percent_if_deleting_or_default c = c\<lparr>file_count_limit_percent_if_deleting := Some x\<rparr>"
    "x \<le> 100" "errors c = []"
proof -
  obtain x where "or_default (file_count_limit_percent_if_deleting c) 70 = Some x" by (rule or_default_Some)
  then show ?thesis
    using that [of x] assms
    by (auto simp: validate_file_count_limit_percent_if_deleting_or_default_def push_error_def Let_def split: if_splits)
qed

lemma validate_size_percent_step:
  assumes "errors (validate_files_total_size_limit_percent_if_deleting_or_default c) = []"
  obtains x where "validate_files_total_size_limit_percent_if_deleting_or_default c =
      c\<lparr>files_total_size_limit_percent_if_deleting := Some x\<rparr>" "x \<le> 100" "errors c = []"
proof -
  obtain x where "or_default (files_total_size_limit_percent_if_deleting c) 70 = Some x" by (rule or_default_Some)
  then show ?thesis
    using that [of x] assms
    by (auto simp: validate_files_total_size_limit_percent_if_deleting_or_default_def push_error_def Let_def split: if_splits)
qed

text \<open>The steps that only fill in a default.\<close>

definition validate_defaults :: "cache_config \<Rightarrow> cache_config" where
  "validate_defaults =
     validate_files_total_size_soft_limit_or_default \<circ> validate_file_count_soft_limit_or_default \<circ>
     validate_allowed_clock_drift_for_files_from_future_or_default \<circ>
     validate_optimizing_compression_task_timeout_or_default \<circ> validate_cleanup_interval_or_default \<circ>
     validate_optimized_compression_usage_counter_threshold_or_default"

lemma validate_defaults_step:
  obtains a b c d e f where "validate_defaults x =
    x\<lparr>optimized_compression_usage_counter_threshold := Some a, cleanup_interval := Some b,
      optimizing_compression_task_timeout := Some c, allowed_clock_drift_for_files_from_future := Some d,
      file_count_soft_limit := Some e, files_total_size_soft_limit := Some f\<rparr>"
proof -
  obtain a where a: "or_default (optimized_compression_usage_counter_threshold x) 0x100 = Some a" by (rule or_default_Some)
  obtain b where b: "or_default (cleanup_interval x) (from_secs (60 * 60)) = Some b" by (rule or_default_Some)
  obtain c where c: "or_default (optimizing_compression_task_timeout x) (from_secs (30 * 60)) = Some c"
    by (rule or_default_Some)
  obtain d where d: "or_default (allowed_clock_drift_for_files_from_future x) (from_secs (60 * 60 * 24)) = Some d"
    by (rule or_default_Some)
  obtain e where e: "or_default (file_count_soft_limit x) 0x10000 = Some e" by (rule or_default_Some)
  obtain f where f: "or_default (files_total_size_soft_limit x) (1024 * 1024 * 512) = Some f" by (rule or_default_Some)
  have "validate_defaults x =
    x\<lparr>optimized_compression_usage_counter_threshold := Some a, cleanup_interval := Some b,
      optimizing_compression_task_timeout := Some c, allowed_clock_drift_for_files_from_future := Some d,
      file_count_soft_limit := Some e, files_total_size_soft_limit := Some f\<rparr>"
    using a b c d e f
    by (simp add: validate_defaults_def validate_files_total_size_soft_limit_or_default_def
        validate_file_count_soft_limit_or_default_def validate_allowed_clock_drift_for_files_from_future_or_default_def
        validate_optimizing_compression_task_timeout_or_default_def validate_cleanup_interval_or_default_def
        validate_optimized_compression_usage_counter_threshold_or_default_def)
  then show ?thesis by (rule that)
qed

lemma validate_usable:
  assumes "errors (validate env c0) = []"
  shows "usable (validate env c0)"
proof -
  define c1 where "c1 = validate_directory_or_default env c0"
  define c2 where "c2 = validate_worker_event_queue_size_or_default c1"
  define c3 where "c3 = validate_baseline_compression_level_or_default env c2"
  define c4 where "c4 = validate_optimized_compression_level_or_default c3"
  define c5 where "c5 = validate_defaults c4"
  define c6 where "c6 = validate_file_count_limit_percent_if_deleting_or_default c5"
  define c7 where "c7 = validate_files_total_size_limit_percent_if_deleting_or_default c6"
  have v: "validate env c0 = disable_if_any_error c7"
    by (simp add: validate_def c1_def c2_def c3_def c4_def c5_def c6_def c7_def validate_defaults_def Let_def)
  then have "errors c7 = []" "validate env c0 = c7" using assms by (auto simp: disable_if_any_error_def split: if_splits)
  then obtain size_percent where 7: "c7 = c6\<lparr>files_total_size_limit_percent_if_deleting := Some size_percent\<rparr>"
      "size_percent \<le> 100" "errors c6 = []"
    unfolding c7_def using validate_size_percent_step by blast
  then obtain count_percent where 6: "c6 = c5\<lparr>file_count_limit_percent_if_deleting := Some count_percent\<rparr>"
      "count_percent \<le> 100" "errors c5 = []"
    unfolding c6_def using validate_count_percent_step by blast
  obtain a b c d e f where 5: "c5 =
      c4\<lparr>optimized_compression_usage_counter_threshold := Some a, cleanup_interval := Some b,
        optimizing_compression_task_timeout := Some c, allowed_clock_drift_for_files_from_future := Some d,
        file_count_soft_limit := Some e, files_total_size_soft_limit := Some f\<rparr>"
    unfolding c5_def by (rule validate_defaults_step)
  then have "errors c4 = []" using 6(3) by simp
  moreover have "errors c3 = []"
    using calculation unfolding c4_def
    by (auto simp: validate_optimized_compression_level_or_default_def push_error_def Let_def split: if_splits)
  then obtain base where 3: "c3 = c2\<lparr>baseline_compression_level := Some base\<rparr>" "0 \<le> base" "errors c2 = []"
    unfolding c3_def using validate_baseline_step by blast
  ultimately obtain opt where 4: "c4 = c3\<lparr>optimized_compression_level := Some opt\<rparr>" "base \<le> opt" "opt \<le> 21"
    unfolding c4_def using validate_optimized_step [of c3 base] by auto
  obtain queue where "or_default (worker_event_queue_size c1) 0x10 = Some queue" by (rule or_default_Some)
  then have 2: "c2 = c1\<lparr>worker_event_queue_size := Some queue\<rparr>"
    by (simp add: c2_def validate_worker_event_queue_size_or_default_def)
  then have "errors c1 = []" using 3(3) by simp
  then obtain dir where 1: "c1 = c0\<lparr>directory := Some dir\<rparr>" unfolding c1_def using validate_directory_step by blast
  show ?thesis
    unfolding \<open>validate env c0 = c7\<close> usable_def get_setting_def using 1 2 3 4 5 6 7 by (simp add: unwrap_res_def)
qed

lemma with_errors_simps [simp]:
  "enabled new_cache_disabled = False" "errors new_cache_disabled = []"
  "enabled (new_cache_with_errors errs) = False" "errors (new_cache_with_errors errs) = errs"
  by (simp_all add: new_cache_with_errors_def new_cache_disabled_def)

text \<open>C32. The configuration is either usable, every setting present and in its range, or the cache is
  disabled; it reports errors only when it is disabled and empty.\<close>

theorem from_file_usable:
  "if enabled (from_file env on config_file)
   then errors (from_file env on config_file) = [] \<and> usable (from_file env on config_file)
   else errors (from_file env on config_file) = [] \<or>
     from_file env on config_file = new_cache_with_errors (errors (from_file env on config_file))"
proof (cases "\<exists>c. on \<and> load_and_parse_file env config_file = Inr c")
  case True
  then obtain c where c: "from_file env on config_file = validate env c" by (auto simp: from_file_def)
  show ?thesis
  proof (cases "errors (validate env c) = []")
    case True
    then show ?thesis using validate_usable c by simp
  next
    case False
    then obtain errs where "validate env c = new_cache_with_errors errs"
      by (auto simp: validate_def Let_def disable_if_any_error_def new_cache_with_errors_def split: if_splits)
    then show ?thesis using c by simp
  qed
next
  case False
  then show ?thesis
    by (auto simp: from_file_def split: sum.splits)
qed

lemma from_file_enabled:
  assumes "enabled (from_file env on config_file)"
  shows "errors (from_file env on config_file) = []" "usable (from_file env on config_file)"
proof -
  obtain c where c: "from_file env on config_file = validate env c"
    using assms by (auto simp: from_file_def split: sum.splits if_splits)
  then show e: "errors (from_file env on config_file) = []"
    using assms by (auto simp: validate_def Let_def disable_if_any_error_def split: if_splits)
  show "usable (from_file env on config_file)" using validate_usable c e by simp
qed

text \<open>The worker has been started exactly when the configuration of the process is enabled, and then the
  configuration is usable; a configuration, once set, is never replaced.\<close>

lemma reachable_config:
  assumes "cache_reachable env s"
  shows "if \<exists>c. config_once s = Some c \<and> enabled c
    then worker_init_called s \<and> init_called s \<and> usable (the (config_once s)) \<and> errors (the (config_once s)) = []
    else \<not> worker_init_called s"
  using assms
proof (induction rule: cache_reachable.induct)
  case (get s)
  then show ?case by (auto simp: cache_config_get_def split: option.splits)
next
  case (init s on config_file)
  define conf where "conf = from_file env on config_file"
  have conf: "enabled conf \<Longrightarrow> errors conf = [] \<and> usable conf" unfolding conf_def using from_file_enabled by blast
  let ?s = "snd (cache_init env on config_file s)"
  show ?case
  proof (cases "init_called s \<or> config_once s \<noteq> None")
    case True
    then have "config_once ?s = config_once s" "worker_init_called ?s = worker_init_called s" "init_called ?s"
      by (auto simp: cache_init_def Let_def)
    then show ?thesis using init.IH by (simp split: if_splits)
  next
    case False
    then have "\<not> worker_init_called s" using init.IH by simp
    then have "config_once ?s = Some conf" "worker_init_called ?s = (errors conf = [] \<and> enabled conf)" "init_called ?s"
      using False by (simp_all add: cache_init_def worker_init_def Let_def conf_def)
    then show ?thesis using conf by simp
  qed
qed (simp add: cache_system_new_def)

lemma config_once_kept:
  "config_once s = Some c \<Longrightarrow> config_once (snd (cache_config_get s)) = Some c \<and> fst (cache_config_get s) = c"
  "config_once s = Some c \<Longrightarrow> config_once (snd (cache_init env on config_file s)) = Some c"
  "config_once s = Some c \<Longrightarrow> \<exists>msg. fst (cache_init env on config_file s) = Inl (Panic msg)"
  by (auto simp: cache_config_get_def cache_init_def Let_def)

text \<open>A system with a cache directory and no configuration file.\<close>

definition sample_env :: config_env where
  "sample_env =
     \<lparr>project_dirs = Some ([''/'', ''etc''], [''/'', ''cache'']), path_exists = (\<lambda>_. False), read_file = (\<lambda>_. None),
      parse_toml = (\<lambda>_. None), make_dirs = (\<lambda>_. True), canonicalize = Some, zstd_default_level = 3\<rparr>"

section \<open>The formats of the settings\<close>

lemma from_str_dec: "n < 2 ^ 64 \<Longrightarrow> (from_str (dec n) :: u64 option) = Some (of_nat n)"
proof -
  assume n: "n < 2 ^ 64"
  obtain c cs where c: "dec n = c # cs" by (cases "dec n") auto
  then have "is_digit c" using dec_digits [of n] by simp
  then have "c \<noteq> CHR ''+''" by (auto simp: is_digit_def)
  then show ?thesis using parse_dec [OF n] c by (simp add: from_str_def)
qed

definition unit_chars :: "string \<Rightarrow> bool" where
  "unit_chars u \<longleftrightarrow> (\<forall>c \<in> set u. \<not> is_whitespace c \<and> \<not> is_numeric c)"

lemma whitespace_not_numeric: "is_whitespace c \<Longrightarrow> \<not> is_numeric c"
  by (auto simp: is_whitespace_def is_numeric_def is_digit_def)

lemma deserializer_text:
  assumes ws: "\<forall>c \<in> set (ws @ ws1 @ ws2). is_whitespace c" and u: "unit_chars u" and n: "n < 2 ^ 64"
  shows "deserializer body (Some (ws @ dec n @ ws1 @ u @ ws2)) =
    (case body (of_nat n :: u64) u of Some x \<Rightarrow> Inr (Some x) | None \<Rightarrow> Inl invalid_value)"
proof -
  define rest where "rest = (if u = [] then [] else ws1 @ u)"
  have dg: "\<not> is_whitespace (hd (dec n))" "\<not> is_whitespace (last (dec n))"
    using dec_digits [of n] digit_not_whitespace(1) hd_in_set last_in_set dec_nonempty by blast+
  have "u \<noteq> [] \<Longrightarrow> \<not> is_whitespace (last u)" using u last_in_set by (auto simp: unit_chars_def)
  then have "trim (ws @ (dec n @ rest) @ (if u = [] then ws1 @ ws2 else ws2)) = dec n @ rest"
    using ws dg by (intro trim_core) (auto simp: rest_def)
  then have t: "trim (ws @ dec n @ ws1 @ u @ ws2) = dec n @ rest" by (simp add: rest_def split: if_splits)
  have "rest = [] \<or> \<not> is_numeric (hd rest)"
    using ws u whitespace_not_numeric by (cases ws1; cases u) (auto simp: rest_def unit_chars_def)
  moreover have "\<forall>c \<in> set (dec n). is_numeric c" using dec_digits [of n] digit_not_whitespace(2) by blast
  ultimately have "takeWhile is_numeric (dec n @ rest) = dec n" "dropWhile is_numeric (dec n @ rest) = rest"
    by (cases rest; auto simp: takeWhile_append2 dropWhile_append2)+
  moreover have "trim rest = u"
    using trim_core [of "if u = [] then [] else ws1" "[]" u] ws u hd_in_set last_in_set
    by (auto simp: rest_def unit_chars_def)
  ultimately show ?thesis
    using from_str_dec [OF n] t by (simp add: deserializer_def Let_def)
qed

definition si_units :: "(string \<times> nat) list" where
  "si_units = [('''', 1), (''K'', 10 ^ 3), (''M'', 10 ^ 6), (''G'', 10 ^ 9), (''T'', 10 ^ 12), (''P'', 10 ^ 15)]"

definition disk_units :: "(string \<times> nat) list" where
  "disk_units = si_units @ [(''Ki'', 2 ^ 10), (''Mi'', 2 ^ 20), (''Gi'', 2 ^ 30), (''Ti'', 2 ^ 40), (''Pi'', 2 ^ 50)]"

lemma units_chars: "(u, f) \<in> set disk_units \<Longrightarrow> unit_chars u"
  by (auto simp: disk_units_def si_units_def unit_chars_def is_whitespace_def is_numeric_def is_digit_def)

lemma checked_scale:
  "checked_mul n w = (if unat n * unat w < 2 ^ 64 then Some (of_nat (unat n * unat w)) else None)" for n w :: u64
  by (simp add: checked_mul_def)

lemma si_prefix_scale:
  assumes "(u, f) \<in> set si_units"
  shows "si_prefix_unit n u = (if unat n * f < 2 ^ 64 then Some (of_nat (unat n * f)) else None)"
proof -
  have "(u, f) \<in> {('''', 1), (''K'', 10 ^ 3), (''M'', 10 ^ 6), (''G'', 10 ^ 9), (''T'', 10 ^ 12), (''P'', 10 ^ 15)}"
    using assms by (simp add: si_units_def)
  then show ?thesis
    using unat_lt_u64 [of n] by (elim insertE; simp add: si_prefix_unit_def checked_scale)
qed

lemma disk_space_scale:
  assumes "(u, f) \<in> set disk_units"
  shows "disk_space_unit n u = (if unat n * f < 2 ^ 64 then Some (of_nat (unat n * f)) else None)"
proof -
  have "(u, f) \<in> {('''', 1), (''K'', 10 ^ 3), (''M'', 10 ^ 6), (''G'', 10 ^ 9), (''T'', 10 ^ 12), (''P'', 10 ^ 15),
      (''Ki'', 2 ^ 10), (''Mi'', 2 ^ 20), (''Gi'', 2 ^ 30), (''Ti'', 2 ^ 40), (''Pi'', 2 ^ 50)}"
    using assms by (simp add: disk_units_def si_units_def)
  then show ?thesis
    using unat_lt_u64 [of n] by (elim insertE; simp add: disk_space_unit_def checked_scale push_bit_eq_mult)
qed

text \<open>Reading back what is written: a number in decimal, with white space around it and one of the
  units of its setting, is read as the number times the factor of the unit, and refused exactly when
  that does not fit into 64 bits.\<close>

theorem sizes_read_back:
  assumes "\<forall>c \<in> set (ws @ ws1 @ ws2). is_whitespace c" "(u, f) \<in> set disk_units" "n < 2 ^ 64"
  shows "deserialize_disk_space (Some (ws @ dec n @ ws1 @ u @ ws2)) =
      (if n * f < 2 ^ 64 then Inr (Some (of_nat (n * f))) else Inl invalid_value) \<and>
    ((u, f) \<in> set si_units \<longrightarrow>
      deserialize_si_prefix (Some (ws @ dec n @ ws1 @ u @ ws2)) =
        deserialize_disk_space (Some (ws @ dec n @ ws1 @ u @ ws2)))"
proof -
  note u = units_chars [OF assms(2)] and n = unat_of_nat_u64 [OF assms(3)]
  have "deserialize_disk_space (Some (ws @ dec n @ ws1 @ u @ ws2)) =
      (if n * f < 2 ^ 64 then Inr (Some (of_nat (n * f))) else Inl invalid_value)"
    unfolding deserialize_disk_space_def deserializer_text [OF assms(1) u assms(3)] disk_space_scale [OF assms(2)] n
    by simp
  moreover have "deserialize_si_prefix (Some (ws @ dec n @ ws1 @ u @ ws2)) =
      (if n * f < 2 ^ 64 then Inr (Some (of_nat (n * f))) else Inl invalid_value)" if "(u, f) \<in> set si_units"
    unfolding deserialize_si_prefix_def deserializer_text [OF assms(1) u assms(3)] si_prefix_scale [OF that] n
    by simp
  ultimately show ?thesis by simp
qed

theorem sizes_read_back_witness:
  "deserialize_disk_space (Some ('' '' @ dec 512 @ '' '' @ ''Mi'' @ [])) = Inr (Some (of_nat (512 * 2 ^ 20)))"
proof -
  have "\<forall>c \<in> set ('' '' @ '' '' @ []). is_whitespace c" "(''Mi'', 2 ^ 20) \<in> set disk_units"
    by (simp_all add: is_whitespace_def disk_units_def)
  then show ?thesis using sizes_read_back [of "'' ''" "'' ''" "[]" "''Mi''" "2 ^ 20" 512] by simp
qed

text \<open>The multiplications of a duration are not checked: a text that means more seconds than fit
  into 64 bits is accepted, and the duration wraps around.\<close>

theorem duration_wraps:
  assumes "n < 2 ^ 64"
  shows "deserialize_duration (Some (dec n @ ''m'')) = Inr (Some ((int n * 60) mod 2 ^ 64 * 10 ^ 9))"
proof -
  have "unit_chars ''m''" by (simp add: unit_chars_def is_whitespace_def is_numeric_def is_digit_def)
  then have "deserialize_duration (Some (dec n @ ''m'')) = Inr (Some (from_secs (of_nat n * 60)))"
    using deserializer_text [of "[]" "[]" "[]" "''m''" n duration_unit] assms
    by (simp add: deserialize_duration_def duration_unit_def)
  moreover have "uint (of_nat n * 60 :: u64) = (int n * 60) mod 2 ^ 64"
  proof -
    have "(of_nat n * 60 :: u64) = word_of_int (int n * 60)" by simp
    then have "uint (of_nat n * 60 :: u64) = uint (word_of_int (int n * 60) :: u64)" by (rule arg_cong)
    also have "\<dots> = (int n * 60) mod 2 ^ 64" unfolding uint_word_of_int by simp
    finally show ?thesis .
  qed
  ultimately show ?thesis by (simp add: from_secs_def)
qed

theorem duration_wraps_witness:
  "deserialize_duration (Some (dec 307445734561825861 @ ''m'')) = Inr (Some (44 * 10 ^ 9))"
  using duration_wraps [of 307445734561825861] by simp

end
