(* ===== verification/Cache_Entry.thy ===== *)
theory Cache_Entry
  imports Cache_Config Module_Env
begin

text \<open>
  A file system and the cache entries on it (\<^verbatim>\<open>wasmtime-environ/src/cache.rs\<close>).

  The libraries that serialize and compress are parameters. Errors of the file system are part of the
  environment: an operation on a path either fails or not for the whole of a call, and a failing
  write leaves the first \<open>partial\<close> bytes. There are no symbolic links: a path names its own file or
  directory, where \<^verbatim>\<open>Path::is_dir\<close> and the other functions of the standard library would follow a link.
\<close>

section \<open>The file system\<close>

type_synonym bytes = string

datatype node = File bytes int | Dir

type_synonym fs = "(path \<times> node) list"

datatype fs_op = OpRead | OpReadDir | OpEntry | OpMetadata | OpModified | OpCreate | OpWrite | OpRename | OpRemove | OpMakeDir

record fs_env =
  now :: int
  pid :: nat
  io_error :: "fs_op \<Rightarrow> path \<Rightarrow> bool"
  partial :: nat

abbreviation node_at :: "fs \<Rightarrow> path \<Rightarrow> node option" where
  "node_at \<equiv> map_of"

definition fs_remove :: "path \<Rightarrow> fs \<Rightarrow> fs" where
  "fs_remove p fs = filter (\<lambda>(q, _). q \<noteq> p) fs"

definition fs_set :: "path \<Rightarrow> node \<Rightarrow> fs \<Rightarrow> fs" where
  "fs_set p n fs = (p, n) # fs_remove p fs"

lemma node_at_remove [simp]: "node_at (fs_remove p fs) q = (if q = p then None else node_at fs q)"
  by (induction fs) (auto simp: fs_remove_def)

lemma node_at_set [simp]: "node_at (fs_set p n fs) q = (if q = p then Some n else node_at fs q)"
  by (simp add: fs_set_def)

definition fs_read :: "fs_env \<Rightarrow> fs \<Rightarrow> path \<Rightarrow> bytes option" where
  "fs_read env fs p =
     (if io_error env OpRead p then None
      else case node_at fs p of Some (File b _) \<Rightarrow> Some b | _ \<Rightarrow> None)"

definition fs_len :: "fs_env \<Rightarrow> fs \<Rightarrow> path \<Rightarrow> u64 option" where
  "fs_len env fs p =
     (if io_error env OpMetadata p then None
      else case node_at fs p of Some (File b _) \<Rightarrow> Some (of_nat (length b)) | Some Dir \<Rightarrow> Some 0 | None \<Rightarrow> None)"

definition fs_modified :: "fs_env \<Rightarrow> fs \<Rightarrow> path \<Rightarrow> int option" where
  "fs_modified env fs p =
     (if io_error env OpMetadata p \<or> io_error env OpModified p then None
      else case node_at fs p of Some (File _ t) \<Rightarrow> Some t | Some Dir \<Rightarrow> Some 0 | None \<Rightarrow> None)"

definition is_dir :: "fs \<Rightarrow> path \<Rightarrow> bool" where
  "is_dir fs p = (node_at fs p = Some Dir)"

definition read_dir :: "fs_env \<Rightarrow> fs \<Rightarrow> path \<Rightarrow> path option list option" where
  "read_dir env fs p =
     (if io_error env OpReadDir p \<or> \<not> is_dir fs p then None
      else Some (map (\<lambda>q. if io_error env OpEntry q then None else Some q)
                  (filter (\<lambda>q. parent q = Some p) (map fst fs))))"

text \<open>\<^verbatim>\<open>OpenOptions::new().create_new(true)\<close>.\<close>

definition create_new :: "fs_env \<Rightarrow> path \<Rightarrow> fs \<Rightarrow> bool \<times> fs" where
  "create_new env p fs =
     (if io_error env OpCreate p \<or> node_at fs p \<noteq> None \<or> \<not> (case parent p of Some d \<Rightarrow> is_dir fs d | None \<Rightarrow> False)
      then (False, fs) else (True, fs_set p (File [] (now env)) fs))"

definition write_all :: "fs_env \<Rightarrow> path \<Rightarrow> bytes \<Rightarrow> fs \<Rightarrow> bool \<times> fs" where
  "write_all env p contents fs =
     (if io_error env OpWrite p then (False, fs_set p (File (take (partial env) contents) (now env)) fs)
      else (True, fs_set p (File contents (now env)) fs))"

definition fs_rename :: "fs_env \<Rightarrow> path \<Rightarrow> path \<Rightarrow> fs \<Rightarrow> bool \<times> fs" where
  "fs_rename env a b fs =
     (case node_at fs a of
        Some n \<Rightarrow>
          if io_error env OpRename a \<or> is_dir fs b then (False, fs) else (True, fs_set b n (fs_remove a fs))
      | None \<Rightarrow> (False, fs))"

definition remove_file :: "fs_env \<Rightarrow> path \<Rightarrow> fs \<Rightarrow> bool \<times> fs" where
  "remove_file env p fs =
     (case node_at fs p of
        Some (File _ _) \<Rightarrow> if io_error env OpRemove p then (False, fs) else (True, fs_remove p fs)
      | _ \<Rightarrow> (False, fs))"

definition remove_dir_all :: "fs_env \<Rightarrow> path \<Rightarrow> fs \<Rightarrow> bool \<times> fs" where
  "remove_dir_all env p fs =
     (if io_error env OpRemove p \<or> \<not> is_dir fs p then (False, fs)
      else (True, filter (\<lambda>(q, _). take (length p) q \<noteq> p) fs))"

text \<open>\<open>create_dirs\<close> makes the directories \<open>p @ [d\<^sub>1]\<close>, \<open>p @ [d\<^sub>1, d\<^sub>2]\<close> and so on that are missing.\<close>

fun create_dirs :: "fs_env \<Rightarrow> path \<Rightarrow> path \<Rightarrow> fs \<Rightarrow> bool \<times> fs" where
  "create_dirs env p [] fs = (True, fs)"
| "create_dirs env p (d # ds) fs =
     (case node_at fs (p @ [d]) of
        Some Dir \<Rightarrow> create_dirs env (p @ [d]) ds fs
      | Some (File _ _) \<Rightarrow> (False, fs)
      | None \<Rightarrow>
          if io_error env OpMakeDir (p @ [d]) then (False, fs)
          else create_dirs env (p @ [d]) ds (fs_set (p @ [d]) Dir fs))"

definition create_dir_all :: "fs_env \<Rightarrow> path \<Rightarrow> fs \<Rightarrow> bool \<times> fs" where
  "create_dir_all env p fs = create_dirs env [] p fs"

section \<open>Atomic writes\<close>

definition fs_write_atomic :: "fs_env \<Rightarrow> path \<Rightarrow> string \<Rightarrow> bytes \<Rightarrow> fs \<Rightarrow> bool \<times> fs" where
  "fs_write_atomic env p reason contents fs =
     (let lock_path = with_extension p (''wip-atomic-write-'' @ reason);
          (created, fs) = create_new env lock_path fs in
      if \<not> created then (False, fs)
      else let (written, fs) = write_all env lock_path contents fs in
           if \<not> written then (False, fs) else fs_rename env lock_path p fs)"

section \<open>Cache entries\<close>

record 'd codec =
  serialize :: "'d \<Rightarrow> bytes option"
  deserialize :: "bytes \<Rightarrow> 'd option"
  encode_all :: "bytes \<Rightarrow> int \<Rightarrow> bytes option"
  decode_all :: "bytes \<Rightarrow> bytes option"

text \<open>How the program was built, when its executable was modified if that can be read (nanoseconds from the
  epoch), and the libraries that hash and encode the input of the cache key.\<close>

record build_info =
  debug_assertions :: bool
  git_rev :: string
  exe_mtime :: "int option"
  digest :: "cache_hash_input \<Rightarrow> u8 list"
  base64 :: "u8 list \<Rightarrow> string"

definition self_mtime :: "build_info \<Rightarrow> string" where
  "self_mtime build =
     (case exe_mtime build of
        Some mtime \<Rightarrow> if mtime \<ge> 0 then dec (nat (mtime div 10 ^ 6)) else ''m'' @ dec (nat (- mtime div 10 ^ 6))
      | None \<Rightarrow> ''no-mtime'')"

definition compiler_dir :: "build_info \<Rightarrow> string \<Rightarrow> string" where
  "compiler_dir build compiler_name =
     (if debug_assertions build then compiler_name @ ''-'' @ git_rev build @ ''-'' @ self_mtime build
      else compiler_name @ ''-'' @ git_rev build)"

definition mod_filename :: "build_info \<Rightarrow> wasm_module \<Rightarrow> function_body_data list \<Rightarrow> bool \<Rightarrow> string" where
  "mod_filename build m bodies generate_debug_info =
     ''mod-'' @ base64 build (digest build (hash_for_cache m bodies)) @ (if generate_debug_info then ''.d'' else '''')"

definition cache_entry_inner_new ::
  "build_info \<Rightarrow> cache_config \<Rightarrow> wasm_module \<Rightarrow> function_body_data list \<Rightarrow> string \<Rightarrow> string \<Rightarrow> bool \<Rightarrow> path res" where
  "cache_entry_inner_new build cfg m bodies triple compiler_name generate_debug_info =
     bind_res (get_setting directory cfg) (\<lambda>dir.
     Inr (dir @ [triple, compiler_dir build compiler_name, mod_filename build m bodies generate_debug_info]))"

text \<open>An entry that is not cached is \<open>None\<close>.\<close>

definition cache_entry_new ::
  "build_info \<Rightarrow> cache_system \<Rightarrow> wasm_module \<Rightarrow> function_body_data list \<Rightarrow> string \<Rightarrow> string \<Rightarrow> bool \<Rightarrow>
     path option res \<times> cache_system" where
  "cache_entry_new build s m bodies triple compiler_name generate_debug_info =
     (let (cfg, s) = cache_config_get s in
      (if enabled cfg
       then bind_res (cache_worker s) (\<lambda>_.
            bind_res (cache_entry_inner_new build cfg m bodies triple compiler_name generate_debug_info) (\<lambda>p. Inr (Some p)))
       else Inr None, s))"

definition inner_get_data :: "fs_env \<Rightarrow> 'd codec \<Rightarrow> path \<Rightarrow> fs \<Rightarrow> 'd option" where
  "inner_get_data env lib mod_cache_path fs =
     do { compressed_cache_bytes \<leftarrow> fs_read env fs mod_cache_path;
          cache_bytes \<leftarrow> decode_all lib compressed_cache_bytes;
          deserialize lib cache_bytes }"

definition inner_update_data :: "fs_env \<Rightarrow> 'd codec \<Rightarrow> cache_config \<Rightarrow> path \<Rightarrow> 'd \<Rightarrow> fs \<Rightarrow> (unit option \<times> fs) res" where
  "inner_update_data env lib cfg mod_cache_path data fs =
     (case serialize lib data of
        None \<Rightarrow> Inr (None, fs)
      | Some serialized_data \<Rightarrow>
          bind_res (get_setting baseline_compression_level cfg) (\<lambda>level.
          case encode_all lib serialized_data level of
            None \<Rightarrow> Inr (None, fs)
          | Some compressed_data \<Rightarrow>
              (case fs_write_atomic env mod_cache_path ''mod'' compressed_data fs of
                 (True, fs) \<Rightarrow> Inr (Some (), fs)
               | (False, fs) \<Rightarrow>
                   bind_res (unwrap_res (parent mod_cache_path) ''unwrap'') (\<lambda>cache_dir.
                   case create_dir_all env cache_dir fs of
                     (False, fs) \<Rightarrow> Inr (None, fs)
                   | (True, fs) \<Rightarrow>
                       (case fs_write_atomic env mod_cache_path ''mod'' compressed_data fs of
                          (True, fs) \<Rightarrow> Inr (Some (), fs) | (False, fs) \<Rightarrow> Inr (None, fs))))))"

text \<open>The events for the worker. The channel has a bound; an event that does not fit is dropped. A receiver
  that waits on a channel of capacity zero is not modelled: every event of such a channel is dropped.\<close>

datatype cache_event = OnCacheGet path | OnCacheUpdate path

definition send_cache_event :: "u64 \<Rightarrow> cache_event \<Rightarrow> cache_event list \<Rightarrow> cache_event list" where
  "send_cache_event queue_size event queue = (if length queue < unat queue_size then queue @ [event] else queue)"

definition entry_get_data ::
  "fs_env \<Rightarrow> 'd codec \<Rightarrow> u64 \<Rightarrow> path option \<Rightarrow> fs \<Rightarrow> cache_event list \<Rightarrow> 'd option \<times> cache_event list" where
  "entry_get_data env lib queue_size entry fs queue =
     (case entry of
        None \<Rightarrow> (None, queue)
      | Some p \<Rightarrow>
          (case inner_get_data env lib p fs of
             Some d \<Rightarrow> (Some d, send_cache_event queue_size (OnCacheGet p) queue)
           | None \<Rightarrow> (None, queue)))"

definition entry_update_data ::
  "fs_env \<Rightarrow> 'd codec \<Rightarrow> cache_config \<Rightarrow> u64 \<Rightarrow> path option \<Rightarrow> 'd \<Rightarrow> fs \<Rightarrow> cache_event list \<Rightarrow> (fs \<times> cache_event list) res" where
  "entry_update_data env lib cfg queue_size entry data fs queue =
     (case entry of
        None \<Rightarrow> Inr (fs, queue)
      | Some p \<Rightarrow>
          bind_res (inner_update_data env lib cfg p data fs) (\<lambda>(done, fs).
          Inr (fs, if done = Some () then send_cache_event queue_size (OnCacheUpdate p) queue else queue)))"

section \<open>A new configuration file\<close>

definition config_content :: bytes where
  "config_content = concat (map (\<lambda>line. line @ [CHR 0x0A])
     [''# Comment out certain settings to use default values.'',
      ''# For more settings, please refer to the documentation:'',
      ''# https://github.com/CraneStation/wasmtime/blob/master/CACHE_CONFIGURATION.md'',
      '''', ''[cache]'', ''enabled = true''])"

definition create_new_config :: "config_env \<Rightarrow> fs_env \<Rightarrow> path option \<Rightarrow> fs \<Rightarrow> (string + path) \<times> fs" where
  "create_new_config cenv env config_file fs =
     (case (case config_file of None \<Rightarrow> default_config_path cenv | Some p \<Rightarrow> Inr p) of
        Inl err \<Rightarrow> (Inl err, fs)
      | Inr config_file \<Rightarrow>
          if node_at fs config_file \<noteq> None then (Inl ''Specified config file already exists!'', fs)
          else case parent config_file of
            None \<Rightarrow> (Inl ''Invalid cache config path'', fs)
          | Some parent_dir \<Rightarrow>
              (case create_dir_all env parent_dir fs of
                 (False, fs) \<Rightarrow> (Inl ''Failed to create config directory'', fs)
               | (True, fs) \<Rightarrow>
                   if io_error env OpCreate config_file then (Inl ''Failed to flush config to the disk'', fs)
                   else case write_all env config_file config_content fs of
                     (False, fs) \<Rightarrow> (Inl ''Failed to flush config to the disk'', fs)
                   | (True, fs) \<Rightarrow> (Inr config_file, fs)))"

section \<open>Properties\<close>

abbreviation atomic_lock :: "path \<Rightarrow> string \<Rightarrow> path" where
  "atomic_lock p reason \<equiv> with_extension p (''wip-atomic-write-'' @ reason)"

lemma write_atomic_cases:
  assumes "fs_write_atomic env p reason contents fs = (ok, fs')"
  shows "ok \<Longrightarrow> node_at fs' p = Some (File contents (now env))"
    and "ok \<Longrightarrow> atomic_lock p reason \<noteq> p \<Longrightarrow> node_at fs' (atomic_lock p reason) = None"
    and "\<not> ok \<Longrightarrow> atomic_lock p reason \<noteq> p \<Longrightarrow> node_at fs' p = node_at fs p"
    and "q \<noteq> p \<Longrightarrow> q \<noteq> atomic_lock p reason \<Longrightarrow> node_at fs' q = node_at fs q"
  using assms
  by (auto simp: fs_write_atomic_def create_new_def write_all_def fs_rename_def Let_def split: prod.splits if_splits)

text \<open>Whatever the order of the calls before it, making a cache entry does not panic: the entry is below
  the configured directory when the cache is enabled, and there is none when it is not.\<close>

theorem cache_entry_new_total:
  assumes "cache_reachable env s"
  shows "\<exists>cfg s'. cache_config_get s = (cfg, s') \<and> cache_reachable env s' \<and>
    (if enabled cfg
     then \<exists>dir. directory cfg = Some dir \<and>
       cache_entry_new build s m bodies triple compiler_name generate_debug_info =
         (Inr (Some (dir @ [triple, compiler_dir build compiler_name, mod_filename build m bodies generate_debug_info])), s')
     else cache_entry_new build s m bodies triple compiler_name generate_debug_info = (Inr None, s'))"
proof -
  obtain cfg s' where g: "cache_config_get s = (cfg, s')" by fastforce
  have r: "cache_reachable env s'" using cache_reachable.get [OF assms] g by simp
  have "config_once s' = Some cfg" using g by (auto simp: cache_config_get_def split: option.splits)
  then have "enabled cfg \<Longrightarrow> worker_init_called s' \<and> usable cfg" using reachable_config [OF r] by simp
  then have dir: "enabled cfg \<Longrightarrow> worker_init_called s' \<and> (\<exists>dir. get_setting directory cfg = Inr dir)"
    by (auto simp: usable_def)
  have "get_setting directory cfg = Inr dir \<Longrightarrow> directory cfg = Some dir" for dir
    by (auto simp: get_setting_def unwrap_res_def split: option.splits)
  then show ?thesis
    using g r dir by (auto simp: cache_entry_new_def cache_entry_inner_new_def cache_worker_def assert_res_def)
qed

definition sample_build :: build_info where
  "sample_build = \<lparr>debug_assertions = False, git_rev = ''r'', exe_mtime = None, digest = (\<lambda>_. []), base64 = (\<lambda>_. ''h'')\<rparr>"

text \<open>The first entry after the initialization.\<close>

theorem cache_entry_new_total_witness:
  "\<exists>s'. cache_entry_new sample_build (snd (cache_init sample_env True None cache_system_new)) module_new [] ''t'' ''c'' False =
     (Inr (Some [''/'', ''cache'', ''t'', ''c-r'', ''mod-h'']), s')"
proof -
  let ?s = "snd (cache_init sample_env True None cache_system_new)"
  have r: "cache_reachable sample_env ?s" by (intro cache_reachable.init cache_reachable.start)
  have c: "enabled (fst (cache_config_get ?s)) \<and> directory (fst (cache_config_get ?s)) = Some [''/'', ''cache'']" by code_simp
  show ?thesis
    using cache_entry_new_total [OF r, of sample_build module_new "[]" "''t''" "''c''" False] c
    by (auto simp: compiler_dir_def mod_filename_def sample_build_def)
qed

text \<open>Making directories only adds directories, at prefixes of the path that were free.\<close>

lemma create_dirs_keeps:
  "create_dirs env p ds fs = (ok, fs') \<Longrightarrow>
     node_at fs' q = node_at fs q \<or> node_at fs q = None \<and> node_at fs' q = Some Dir \<and> (\<exists>k>0. q = p @ take k ds)"
proof (induction ds arbitrary: p fs)
  case (Cons d ds)
  have step: "(\<exists>k>0. q = (p @ [d]) @ take k ds) \<Longrightarrow> \<exists>k>0. q = p @ take k (d # ds)"
    by (metis append.assoc append_Cons append_Nil take_Suc_Cons zero_less_Suc)
  have here: "\<exists>k>0. p @ [d] = p @ take k (d # ds)" by (rule exI [of _ 1]) simp
  show ?case
  proof (cases "node_at fs (p @ [d])")
    case None
    then show ?thesis
      using Cons.prems Cons.IH [of "p @ [d]" "fs_set (p @ [d]) Dir fs"] step here by (auto split: if_splits)
  next
    case (Some n)
    then show ?thesis using Cons.prems Cons.IH [of "p @ [d]" fs] step by (cases n) auto
  qed
qed simp

text \<open>No file that exists is overwritten by a new configuration; a file that is created has the template.\<close>

lemma create_new_config_keeps:
  assumes "create_new_config cenv env config_file fs = (r, fs')" "node_at fs q \<noteq> None"
  shows "node_at fs' q = node_at fs q"
proof -
  have "node_at fs2 q = node_at fs q" if "create_dir_all env d fs = (ok, fs2)" for ok fs2 d
    using create_dirs_keeps [OF that [unfolded create_dir_all_def], of q] assms(2) by auto
  then show ?thesis
    using assms by (auto simp: create_new_config_def write_all_def split: sum.splits option.splits prod.splits bool.splits if_splits)
qed

lemma create_new_config_written:
  "create_new_config cenv env config_file fs = (Inr p, fs') \<Longrightarrow> node_at fs' p = Some (File config_content (now env))"
  by (auto simp: create_new_config_def write_all_def split: sum.splits option.splits prod.splits bool.splits if_splits)

text \<open>An atomic write either succeeds, and the file has the whole contents, or fails and leaves the
  file as it was; besides, it only touches its temporary file, which is gone when it succeeds.\<close>

theorem write_atomic:
  assumes "fs_write_atomic env p reason contents fs = (ok, fs')" "atomic_lock p reason \<noteq> p"
  shows "(if ok then node_at fs' p = Some (File contents (now env)) \<and> node_at fs' (atomic_lock p reason) = None
      else node_at fs' p = node_at fs p) \<and>
    (\<forall>q. q \<notin> {p, atomic_lock p reason} \<longrightarrow> node_at fs' q = node_at fs q)"
  using write_atomic_cases [OF assms(1)] assms(2) by simp

text \<open>A failing write: ten bytes, of which three are written.\<close>

definition sample_fs_env :: fs_env where
  "sample_fs_env = \<lparr>now = 7, pid = 1, io_error = (\<lambda>op p. op = OpWrite), partial = 3\<rparr>"

definition sample_fs :: fs where
  "sample_fs = [([''/''], Dir), ([''/'', ''mod-x''], File ''old'' 1)]"

theorem write_atomic_witness:
  "\<exists>fs'. fs_write_atomic sample_fs_env [''/'', ''mod-x''] ''mod'' ''0123456789'' sample_fs = (False, fs') \<and>
     node_at fs' [''/'', ''mod-x''] = Some (File ''old'' 1) \<and>
     node_at fs' [''/'', ''mod-x.wip-atomic-write-mod''] = Some (File ''012'' 7)"
proof -
  let ?p = "[''/'', ''mod-x'']"
  have lock: "with_extension ?p ''wip-atomic-write-mod'' = [''/'', ''mod-x.wip-atomic-write-mod'']" by code_simp
  obtain ok fs' where w: "fs_write_atomic sample_fs_env ?p ''mod'' ''0123456789'' sample_fs = (ok, fs')" by fastforce
  have "\<not> ok" "node_at fs' [''/'', ''mod-x.wip-atomic-write-mod''] = Some (File ''012'' 7)"
    using w
    by (auto simp: fs_write_atomic_def lock Let_def create_new_def write_all_def sample_fs_env_def sample_fs_def
        parent_def is_dir_def)
  then show ?thesis using w write_atomic [OF w] lock by (auto simp: sample_fs_def)
qed

text \<open>C29. An entry that was updated is read back: the laws of the two libraries are all that is needed,
  whichever errors the update ran into before it succeeded, and whether or not the directory
  existed.\<close>

theorem cache_entry_roundtrip:
  assumes "\<forall>d b. serialize lib d = Some b \<longrightarrow> deserialize lib b = Some d"
    and "\<forall>b level e. encode_all lib b level = Some e \<longrightarrow> decode_all lib e = Some b"
    and "inner_update_data env lib cfg p data fs = Inr (Some (), fs')" and "\<not> io_error env' OpRead p"
  shows "entry_get_data env' lib queue_size (Some p) fs' queue =
    (Some data, send_cache_event queue_size (OnCacheGet p) queue)"
proof -
  obtain b level e where b: "serialize lib data = Some b" "encode_all lib b level = Some e"
    and w: "\<exists>fs. fs_write_atomic env p ''mod'' e fs = (True, fs')"
    using assms(3) by (auto simp: inner_update_data_def split: option.splits prod.splits bool.splits) blast+
  have "node_at fs' p = Some (File e (now env))" using w write_atomic_cases(1) by blast
  then have "inner_get_data env' lib p fs' = Some data"
    using assms(1,2,4) b by (simp add: inner_get_data_def fs_read_def)
  then show ?thesis by (simp add: entry_get_data_def)
qed

definition sample_codec :: "string codec" where
  "sample_codec = \<lparr>serialize = Some, deserialize = Some, encode_all = (\<lambda>b _. Some (rev b)), decode_all = (\<lambda>b. Some (rev b))\<rparr>"

theorem cache_entry_roundtrip_witness:
  "\<exists>fs'. inner_update_data (sample_fs_env\<lparr>io_error := (\<lambda>_ _. False)\<rparr>) sample_codec
       (new_cache_enabled_template\<lparr>baseline_compression_level := Some 3\<rparr>) [''/'', ''d'', ''mod-x''] ''code'' sample_fs =
       Inr (Some (), fs') \<and>
     entry_get_data (sample_fs_env\<lparr>io_error := (\<lambda>_ _. False)\<rparr>) sample_codec 1 (Some [''/'', ''d'', ''mod-x'']) fs' [] =
       (Some ''code'', [OnCacheGet [''/'', ''d'', ''mod-x'']])"
proof -
  let ?env = "sample_fs_env\<lparr>io_error := (\<lambda>_ _. False)\<rparr>" and ?p = "[''/'', ''d'', ''mod-x'']"
  let ?cfg = "new_cache_enabled_template\<lparr>baseline_compression_level := Some 3\<rparr>"
  have lock: "with_extension ?p ''wip-atomic-write-mod'' = [''/'', ''d'', ''mod-x.wip-atomic-write-mod'']" by code_simp
  obtain fs' where u: "inner_update_data ?env sample_codec ?cfg ?p ''code'' sample_fs = Inr (Some (), fs')"
    by (simp add: inner_update_data_def sample_codec_def get_setting_def unwrap_res_def fs_write_atomic_def lock
        create_new_def write_all_def fs_rename_def sample_fs_env_def sample_fs_def parent_def is_dir_def create_dir_all_def
        fs_set_def fs_remove_def Let_def)
  have "entry_get_data ?env sample_codec 1 (Some ?p) fs' [] = (Some ''code'', send_cache_event 1 (OnCacheGet ?p) [])"
    by (rule cache_entry_roundtrip [OF _ _ u]) (simp_all add: sample_codec_def)
  then show ?thesis using u by (simp add: send_cache_event_def)
qed

end
