(* ===== verification/Cache_Worker.thy ===== *)
theory Cache_Worker
  imports Cache_Entry "HOL-Library.Multiset" "HOL-Library.Sublist"
begin

text \<open>
  The worker of the cache (\<^verbatim>\<open>wasmtime-environ/src/cache/worker.rs\<close>): the handlers of its two events,
  with the locks, the statistics files, the recompression of an entry and the clean-up of the cache.

  The worker is only started with a usable configuration, so that its settings are read once. The toml
  library is a parameter. The order in which a hash map is traversed is that of the directory, and the
  sort is an insertion sort: what is shown of the deletion holds for every sorted order of the
  entries. A handler that panics leaves the files as they are at the panic, with what it has written.
\<close>

section \<open>Settings and statistics\<close>

record settings =
  s_directory :: path
  s_baseline_compression_level :: int
  s_optimized_compression_level :: int
  s_usage_counter_threshold :: u64
  s_cleanup_interval :: duration
  s_task_timeout :: duration
  s_future_drift :: duration
  s_file_count_soft_limit :: u64
  s_files_total_size_soft_limit :: u64
  s_file_count_limit_percent :: u8
  s_files_total_size_limit_percent :: u8

definition settings_of :: "cache_config \<Rightarrow> settings res" where
  "settings_of c =
     bind_res (get_setting directory c) (\<lambda>dir.
     bind_res (get_setting baseline_compression_level c) (\<lambda>base.
     bind_res (get_setting optimized_compression_level c) (\<lambda>opt.
     bind_res (get_setting optimized_compression_usage_counter_threshold c) (\<lambda>threshold.
     bind_res (get_setting cleanup_interval c) (\<lambda>interval.
     bind_res (get_setting optimizing_compression_task_timeout c) (\<lambda>timeout.
     bind_res (get_setting allowed_clock_drift_for_files_from_future c) (\<lambda>drift.
     bind_res (get_setting file_count_soft_limit c) (\<lambda>count.
     bind_res (get_setting files_total_size_soft_limit c) (\<lambda>size.
     bind_res (get_setting file_count_limit_percent_if_deleting c) (\<lambda>count_percent.
     bind_res (get_setting files_total_size_limit_percent_if_deleting c) (\<lambda>size_percent.
     Inr \<lparr>s_directory = dir, s_baseline_compression_level = base, s_optimized_compression_level = opt,
          s_usage_counter_threshold = threshold, s_cleanup_interval = interval, s_task_timeout = timeout,
          s_future_drift = drift, s_file_count_soft_limit = count, s_files_total_size_soft_limit = size,
          s_file_count_limit_percent = count_percent,
          s_files_total_size_limit_percent = size_percent\<rparr>)))))))))))"

record module_cache_statistics =
  usages :: u64
  compression_level :: int

record toml =
  parse_stats :: "bytes \<Rightarrow> module_cache_statistics option"
  print_stats :: "module_cache_statistics \<Rightarrow> bytes option"

definition statistics_default :: "settings \<Rightarrow> module_cache_statistics" where
  "statistics_default st = \<lparr>usages = 0, compression_level = s_baseline_compression_level st\<rparr>"

definition read_stats_file :: "fs_env \<Rightarrow> toml \<Rightarrow> path \<Rightarrow> fs \<Rightarrow> module_cache_statistics option" where
  "read_stats_file env toml p fs = Option.bind (fs_read env fs p) (parse_stats toml)"

definition write_stats_file :: "fs_env \<Rightarrow> toml \<Rightarrow> path \<Rightarrow> module_cache_statistics \<Rightarrow> fs \<Rightarrow> bool \<times> fs" where
  "write_stats_file env toml p stats fs =
     (case print_stats toml stats of
        None \<Rightarrow> (False, fs)
      | Some serialized \<Rightarrow> fs_write_atomic env p ''stats'' serialized fs)"

section \<open>Locks\<close>

definition is_fs_lock_expired :: "fs_env \<Rightarrow> fs \<Rightarrow> path \<Rightarrow> duration \<Rightarrow> duration \<Rightarrow> bool" where
  "is_fs_lock_expired env fs p threshold allowed_future_drift =
     (case fs_modified env fs p of
        None \<Rightarrow> True
      | Some mtime \<Rightarrow>
          if mtime \<le> now env then now env - mtime \<ge> threshold
          else mtime - now env > allowed_future_drift)"

text \<open>Whether an entry of the directory is a valid lock of the task.\<close>

definition holds_lock :: "fs_env \<Rightarrow> fs \<Rightarrow> path \<Rightarrow> duration \<Rightarrow> duration \<Rightarrow> path \<Rightarrow> bool" where
  "holds_lock env fs task_path timeout allowed_future_drift p =
     (\<not> is_dir fs p \<and> file_stem p = file_stem task_path \<and>
      (case extension p of
         None \<Rightarrow> False
       | Some ext \<Rightarrow> prefix ''wip-'' ext \<and> \<not> is_fs_lock_expired env fs p timeout allowed_future_drift))"

text \<open>The loop over the directory: \<open>False\<close> when an entry cannot be read or is a valid lock.\<close>

fun no_lock :: "fs_env \<Rightarrow> fs \<Rightarrow> path \<Rightarrow> duration \<Rightarrow> duration \<Rightarrow> path option list \<Rightarrow> bool" where
  "no_lock env fs task_path timeout allowed_future_drift [] = True"
| "no_lock env fs task_path timeout allowed_future_drift (entry # it) =
     (case entry of
        None \<Rightarrow> False
      | Some p \<Rightarrow>
          if holds_lock env fs task_path timeout allowed_future_drift p then False
          else no_lock env fs task_path timeout allowed_future_drift it)"

definition acquire_task_fs_lock ::
  "fs_env \<Rightarrow> path \<Rightarrow> duration \<Rightarrow> duration \<Rightarrow> fs \<Rightarrow> path option res \<times> fs" where
  "acquire_task_fs_lock env task_path timeout allowed_future_drift fs =
     bind_st (assert_res (extension task_path = None) ''assertion failed: task_path.extension().is_none()'', fs) (\<lambda>_ fs.
     bind_st (assert_res (file_stem task_path \<noteq> None) ''assertion failed: task_path.file_stem().is_some()'', fs) (\<lambda>_ fs.
     case Option.bind (parent task_path) (read_dir env fs) of
       None \<Rightarrow> (Inr None, fs)
     | Some it \<Rightarrow>
         if \<not> no_lock env fs task_path timeout allowed_future_drift it then (Inr None, fs)
         else let lock_path = with_extension task_path (''wip-'' @ dec (pid env));
                  (created, fs) = create_new env lock_path fs
              in (Inr (if created then Some lock_path else None), fs)))"

section \<open>Recompression\<close>

text \<open>\<^verbatim>\<open>fs::write\<close> to a path whose directory exists.\<close>

definition recompress ::
  "fs_env \<Rightarrow> 'd codec \<Rightarrow> toml \<Rightarrow> int \<Rightarrow> path \<Rightarrow> path \<Rightarrow> path \<Rightarrow> fs \<Rightarrow> fs" where
  "recompress env lib toml opt_compr_lvl p lock_path stats_path fs =
     (case Option.bind (fs_read env fs p) (decode_all lib) of
        None \<Rightarrow> fs
      | Some cache_bytes \<Rightarrow>
          (case encode_all lib cache_bytes opt_compr_lvl of
             None \<Rightarrow> fs
           | Some recompressed_cache_bytes \<Rightarrow>
               (case write_all env lock_path recompressed_cache_bytes fs of
                  (False, fs) \<Rightarrow> fs
                | (True, fs) \<Rightarrow>
                    (case fs_rename env lock_path p fs of
                       (False, fs) \<Rightarrow> snd (remove_file env lock_path fs)
                     | (True, fs) \<Rightarrow>
                         (case read_stats_file env toml stats_path fs of
                            None \<Rightarrow> fs
                          | Some new_stats \<Rightarrow>
                              if compression_level new_stats \<ge> opt_compr_lvl then fs
                              else snd (write_stats_file env toml stats_path
                                     (new_stats\<lparr>compression_level := opt_compr_lvl\<rparr>) fs))))))"

definition stats_path_of :: "string \<Rightarrow> path \<Rightarrow> path res" where
  "stats_path_of msg p = bind_res (unwrap_res (file_name p) msg) (\<lambda>filename.
     Inr (with_file_name p (filename @ ''.stats'')))"

definition load_stats :: "fs_env \<Rightarrow> toml \<Rightarrow> settings \<Rightarrow> path \<Rightarrow> fs \<Rightarrow> module_cache_statistics" where
  "load_stats env toml st stats_path fs =
     (case read_stats_file env toml stats_path fs of Some s \<Rightarrow> s | None \<Rightarrow> statistics_default st)"

definition handle_on_cache_get :: "fs_env \<Rightarrow> 'd codec \<Rightarrow> toml \<Rightarrow> settings \<Rightarrow> path \<Rightarrow> fs \<Rightarrow> unit res \<times> fs" where
  "handle_on_cache_get env lib toml st p fs =
     bind_st (stats_path_of ''unwrap'' p, fs) (\<lambda>stats_path fs.
     let stats = load_stats env toml st stats_path fs;
         stats = stats\<lparr>usages := usages stats + 1\<rparr>;
         (written, fs) = write_stats_file env toml stats_path stats fs;
         opt_compr_lvl = s_optimized_compression_level st in
     if \<not> written then (Inr (), fs)
     else if compression_level stats \<ge> opt_compr_lvl \<or> usages stats < s_usage_counter_threshold st then (Inr (), fs)
     else bind_st (acquire_task_fs_lock env p (s_task_timeout st) (s_future_drift st) fs) (\<lambda>lock fs.
          case lock of
            None \<Rightarrow> (Inr (), fs)
          | Some lock_path \<Rightarrow> (Inr (), recompress env lib toml opt_compr_lvl p lock_path stats_path fs)))"

section \<open>Clean-up\<close>

datatype cache_entry = Recognized path int u64 | Unrecognized path bool

text \<open>A module or a statistics file, among all of them in its directory.\<close>

definition cache_file_entry :: "fs_env \<Rightarrow> fs \<Rightarrow> path list \<Rightarrow> path \<Rightarrow> cache_entry list" where
  "cache_file_entry env fs cache_files p =
     (case extension p of
        Some _ \<Rightarrow> if with_extension p [] \<in> set cache_files then [] else [Unrecognized p False]
      | None \<Rightarrow>
          let stats_path = with_extension p ''stats'' in
          if stats_path \<in> set cache_files
          then (case fs_len env fs p of
                  None \<Rightarrow> [Unrecognized stats_path False, Unrecognized p False]
                | Some sz \<Rightarrow>
                    (case fs_modified env fs stats_path of
                       Some stats_mtime \<Rightarrow> [Recognized p stats_mtime sz]
                     | None \<Rightarrow>
                         Unrecognized stats_path False #
                         (case fs_modified env fs p of
                            Some mtime \<Rightarrow> [Recognized p mtime sz]
                          | None \<Rightarrow> [Unrecognized stats_path False, Unrecognized p False])))
          else (case (fs_len env fs p, fs_modified env fs p) of
                  (Some sz, Some mtime) \<Rightarrow> [Recognized p mtime sz]
                | _ \<Rightarrow> [Unrecognized p False]))"

definition is_cache_file :: "path \<Rightarrow> bool" where
  "is_cache_file p = (extension p = None \<or> extension p = Some ''stats'')"

text \<open>A file in the third level that is neither a module nor a statistics file.\<close>

definition other_file_entry :: "fs_env \<Rightarrow> settings \<Rightarrow> fs \<Rightarrow> path \<Rightarrow> cache_entry list" where
  "other_file_entry env st fs p =
     (case extension p of
        Some ext \<Rightarrow>
          if prefix ''wip-'' ext \<and> \<not> is_fs_lock_expired env fs p (s_task_timeout st) (s_future_drift st)
          then [] else [Unrecognized p False]
      | None \<Rightarrow> [])"

text \<open>A file in one of the first two levels.\<close>

definition upper_file_entry :: "fs_env \<Rightarrow> settings \<Rightarrow> fs \<Rightarrow> nat \<Rightarrow> path \<Rightarrow> cache_entry list" where
  "upper_file_entry env st fs level p =
     (if level = 0 \<and> file_stem p = Some ''.cleanup'' \<and> extension p \<noteq> None \<and>
         \<not> is_fs_lock_expired env fs p (s_cleanup_interval st) (s_future_drift st)
      then [] else [Unrecognized p False])"

function enter_dir :: "fs_env \<Rightarrow> settings \<Rightarrow> fs \<Rightarrow> path \<Rightarrow> nat \<Rightarrow> cache_entry list" where
  "enter_dir env st fs dir_path level =
     (case read_dir env fs dir_path of
        None \<Rightarrow> [Unrecognized dir_path True]
      | Some it \<Rightarrow>
          let entries = List.map_filter id it;
              cache_files = filter (\<lambda>p. level = 2 \<and> \<not> is_dir fs p \<and> is_cache_file p) entries in
          concat (map (\<lambda>p.
            if level \<le> 1
            then if is_dir fs p then enter_dir env st fs p (level + 1) else upper_file_entry env st fs level p
            else if level = 2 \<and> \<not> is_dir fs p
            then if is_cache_file p then [] else other_file_entry env st fs p
            else [Unrecognized p (is_dir fs p)]) entries) @
          concat (map (cache_file_entry env fs cache_files) cache_files))"
  by pat_completeness auto
termination by (relation "measure (\<lambda>(env, st, fs, dir_path, level). 3 - level)") auto

declare enter_dir.simps [simp del]

definition list_cache_contents :: "fs_env \<Rightarrow> settings \<Rightarrow> fs \<Rightarrow> cache_entry list" where
  "list_cache_contents env st fs = enter_dir env st fs (s_directory st) 0"

datatype ordering = Less | Equal | Greater

definition entry_cmp :: "int \<Rightarrow> cache_entry \<Rightarrow> cache_entry \<Rightarrow> ordering" where
  "entry_cmp future_tolerance lhs rhs =
     (case (lhs, rhs) of
        (Recognized _ lhs_mt _, Recognized _ rhs_mt _) \<Rightarrow>
          (case (lhs_mt > future_tolerance, rhs_mt > future_tolerance) of
             (False, False) \<Rightarrow> if rhs_mt < lhs_mt then Less else if rhs_mt = lhs_mt then Equal else Greater
           | (True, False) \<Rightarrow> Greater
           | (False, True) \<Rightarrow> Less
           | (True, True) \<Rightarrow> Equal)
      | (Recognized _ _ _, Unrecognized _ _) \<Rightarrow> Less
      | (Unrecognized _ _, Recognized _ _ _) \<Rightarrow> Greater
      | (Unrecognized _ _, Unrecognized _ _) \<Rightarrow> Equal)"

fun insert_by :: "('a \<Rightarrow> 'a \<Rightarrow> ordering) \<Rightarrow> 'a \<Rightarrow> 'a list \<Rightarrow> 'a list" where
  "insert_by cmp x [] = [x]"
| "insert_by cmp x (y # ys) = (if cmp x y = Greater then y # insert_by cmp x ys else x # y # ys)"

text \<open>\<^verbatim>\<open>sort_unstable_by\<close>; equal elements may come in any order.\<close>

definition sort_unstable_by :: "('a \<Rightarrow> 'a \<Rightarrow> ordering) \<Rightarrow> 'a list \<Rightarrow> 'a list" where
  "sort_unstable_by cmp xs = foldr (insert_by cmp) xs []"

text \<open>The loop that finds where the deletion starts.\<close>

fun cut_loop :: "u64 \<Rightarrow> u64 \<Rightarrow> u64 \<Rightarrow> u64 \<Rightarrow> nat \<Rightarrow> u64 \<Rightarrow> nat option \<Rightarrow> cache_entry list \<Rightarrow> nat option" where
  "cut_loop tsl fcl tsl_del fcl_del idx total_size del_idx [] = None"
| "cut_loop tsl fcl tsl_del fcl_del idx total_size del_idx (item # items) =
     (case item of
        Unrecognized _ _ \<Rightarrow> Some idx
      | Recognized _ _ sz \<Rightarrow>
          let total_size = total_size + sz;
              del_idx = (if del_idx = None \<and> (total_size > tsl_del \<or> of_nat (idx + 1) > fcl_del)
                         then Some idx else del_idx)
          in if total_size > tsl \<or> of_nat (idx + 1) > fcl then del_idx
             else cut_loop tsl fcl tsl_del fcl_del (idx + 1) total_size del_idx items)"

definition percent_of :: "u64 \<Rightarrow> u8 \<Rightarrow> u64 res" where
  "percent_of limit percent = bind_res (unwrap_res (checked_mul limit (ucast percent)) ''unwrap'') (\<lambda>x. Inr (x div 100))"

definition start_delete_idx :: "settings \<Rightarrow> cache_entry list \<Rightarrow> nat option res" where
  "start_delete_idx st cache_index =
     bind_res (percent_of (s_files_total_size_soft_limit st) (s_files_total_size_limit_percent st)) (\<lambda>tsl_if_deleting.
     bind_res (percent_of (s_file_count_soft_limit st) (s_file_count_limit_percent st)) (\<lambda>fcl_if_deleting.
     Inr (cut_loop (s_files_total_size_soft_limit st) (s_file_count_soft_limit st) tsl_if_deleting fcl_if_deleting
            0 0 None cache_index)))"

definition delete_entry :: "fs_env \<Rightarrow> cache_entry \<Rightarrow> fs \<Rightarrow> fs" where
  "delete_entry env item fs =
     (case item of
        Recognized p _ _ \<Rightarrow> snd (remove_file env p fs)
      | Unrecognized p False \<Rightarrow> snd (remove_file env p fs)
      | Unrecognized p True \<Rightarrow> snd (remove_dir_all env p fs))"

definition delete_from :: "fs_env \<Rightarrow> nat option \<Rightarrow> cache_entry list \<Rightarrow> fs \<Rightarrow> fs" where
  "delete_from env idx cache_index fs =
     (case idx of None \<Rightarrow> fs | Some i \<Rightarrow> fold (delete_entry env) (drop i cache_index) fs)"

text \<open>\<^verbatim>\<open>SystemTime::checked_add\<close>: seconds are 64-bit integers.\<close>

definition time_checked_add :: "int \<Rightarrow> duration \<Rightarrow> int option" where
  "time_checked_add t d = (if (t + d) div 10 ^ 9 < 2 ^ 63 then Some (t + d) else None)"

definition cleanup :: "fs_env \<Rightarrow> settings \<Rightarrow> fs \<Rightarrow> unit res \<times> fs" where
  "cleanup env st fs =
     bind_st (unwrap_res (time_checked_add (now env) (s_future_drift st))
         ''Brace your cache, the next Big Bang is coming (time overflow)'', fs) (\<lambda>future_tolerance fs.
     let cache_index = sort_unstable_by (entry_cmp future_tolerance) (list_cache_contents env st fs) in
     bind_st (start_delete_idx st cache_index, fs) (\<lambda>idx fs. (Inr (), delete_from env idx cache_index fs)))"

definition handle_on_cache_update :: "fs_env \<Rightarrow> toml \<Rightarrow> settings \<Rightarrow> path \<Rightarrow> fs \<Rightarrow> unit res \<times> fs" where
  "handle_on_cache_update env toml st p fs =
     bind_st (stats_path_of ''Expected valid cache file name'' p, fs) (\<lambda>stats_path fs.
     let stats = statistics_default st;
         stats = stats\<lparr>usages := usages stats + 1\<rparr>;
         (_, fs) = write_stats_file env toml stats_path stats fs in
     bind_st (acquire_task_fs_lock env (s_directory st @ [''.cleanup'']) (s_cleanup_interval st) (s_future_drift st) fs)
       (\<lambda>lock fs. if lock = None then (Inr (), fs) else cleanup env st fs))"

text \<open>One event of the queue.\<close>

definition worker_step :: "fs_env \<Rightarrow> 'd codec \<Rightarrow> toml \<Rightarrow> settings \<Rightarrow> cache_event \<Rightarrow> fs \<Rightarrow> unit res \<times> fs" where
  "worker_step env lib toml st event fs =
     (case event of
        OnCacheGet p \<Rightarrow> handle_on_cache_get env lib toml st p fs
      | OnCacheUpdate p \<Rightarrow> handle_on_cache_update env toml st p fs)"

text \<open>The loop over the queue. Each event is handled in the environment of its time; a panic ends the thread.\<close>

fun worker_run :: "'d codec \<Rightarrow> toml \<Rightarrow> settings \<Rightarrow> (fs_env \<times> cache_event) list \<Rightarrow> fs \<Rightarrow> unit res \<times> fs" where
  "worker_run lib toml st [] fs = (Inr (), fs)"
| "worker_run lib toml st ((env, event) # events) fs =
     bind_st (worker_step env lib toml st event fs) (\<lambda>_. worker_run lib toml st events)"

end
