(* ===== verification/Cache_Worker_Sound.thy ===== *)
theory Cache_Worker_Sound
  imports Cache_Worker
begin

text \<open>
  What the worker of the cache promises: the clean-up keeps the cache within its limits and removes
  the oldest entries, a lock excludes other workers until it expires, and recompressing an entry keeps
  its data.
\<close>

section \<open>The limits of the cache\<close>

fun recognized :: "cache_entry \<Rightarrow> bool" where
  "recognized (Recognized _ _ _) = True"
| "recognized (Unrecognized _ _) = False"

fun entry_size :: "cache_entry \<Rightarrow> nat" where
  "entry_size (Recognized _ _ sz) = unat sz"
| "entry_size (Unrecognized _ _) = 0"

definition total_bytes :: "cache_entry list \<Rightarrow> nat" where
  "total_bytes xs = sum_list (map entry_size xs)"

definition fits :: "u64 \<Rightarrow> u64 \<Rightarrow> cache_entry list \<Rightarrow> bool" where
  "fits tsl fcl xs \<longleftrightarrow> total_bytes xs \<le> unat tsl \<and> length xs \<le> unat fcl"

lemma total_simps [simp]:
  "total_bytes [] = 0" "total_bytes (x # xs) = entry_size x + total_bytes xs" "total_bytes (xs @ ys) = total_bytes xs + total_bytes ys"
  by (simp_all add: total_bytes_def)

lemma fits_prefix: "fits tsl fcl (xs @ ys) \<Longrightarrow> fits tsl fcl xs"
  by (simp add: fits_def)

text \<open>The first index at which the reduced limits are exceeded.\<close>

definition del_ok :: "u64 \<Rightarrow> u64 \<Rightarrow> cache_entry list \<Rightarrow> nat option \<Rightarrow> bool" where
  "del_ok tsl_del fcl_del xs del \<longleftrightarrow>
     (case del of
        None \<Rightarrow> fits tsl_del fcl_del xs
      | Some k \<Rightarrow> k < length xs \<and> fits tsl_del fcl_del (take k xs) \<and> \<not> fits tsl_del fcl_del (take (Suc k) xs))"

lemma del_ok_append: "del_ok tsl_del fcl_del xs (Some k) \<Longrightarrow> del_ok tsl_del fcl_del (xs @ ys) (Some k)"
  by (auto simp: del_ok_def)

lemma cut_loop_spec:
  assumes "fits tsl fcl pre" "del_ok tsl_del fcl_del pre del" "idx = length pre" "unat acc = total_bytes pre"
    and "total_bytes (pre @ items) < 2 ^ 64" "length (pre @ items) < 2 ^ 64" "tsl_del \<le> tsl" "fcl_del \<le> fcl"
  shows "let rec = pre @ takeWhile recognized items; r = cut_loop tsl fcl tsl_del fcl_del idx acc del items in
    if fits tsl fcl rec then r = (if rec = pre @ items then None else Some (length rec))
    else r \<noteq> None \<and> del_ok tsl_del fcl_del rec r"
  using assms
proof (induction items arbitrary: pre idx acc del)
  case Nil
  then show ?case by simp
next
  case (Cons item items)
  show ?case
  proof (cases item)
    case (Unrecognized p d)
    then show ?thesis using Cons.prems by (simp add: Let_def)
  next
    case (Recognized p t sz)
    let ?pre = "pre @ [item]"
    define acc' where "acc' = acc + sz"
    define del' where "del' = (if del = None \<and> (acc' > tsl_del \<or> of_nat (idx + 1) > fcl_del) then Some idx else del)"
    have tot: "total_bytes ?pre < 2 ^ 64" "length ?pre < 2 ^ 64" using Cons.prems(5,6) by auto
    have "unat acc + unat sz < 2 ^ 64" using tot(1) Cons.prems(4) Recognized by simp
    then have acc: "unat acc' = total_bytes ?pre"
      unfolding acc'_def using Cons.prems(4) Recognized unat_add_small [of acc sz] by simp
    have idx: "unat (of_nat (idx + 1) :: u64) = length ?pre"
      using tot(2) Cons.prems(3) unat_of_nat_u64 [of "idx + 1"] by simp
    have exceeds: "acc' > l \<or> (of_nat (idx + 1) :: u64) > n \<longleftrightarrow> \<not> fits l n ?pre" for l n
      unfolding fits_def word_less_nat_alt acc idx by auto
    have del': "del_ok tsl_del fcl_del ?pre del'"
      using Cons.prems(2,3) del_ok_append [of tsl_del fcl_del pre _ "[item]"]
      unfolding del'_def exceeds by (cases del) (auto simp: del_ok_def)
    have le: "fits tsl_del fcl_del xs \<Longrightarrow> fits tsl fcl xs" for xs
      using Cons.prems(7,8) by (auto simp: fits_def word_le_nat_alt)
    have r: "cut_loop tsl fcl tsl_del fcl_del idx acc del (item # items) =
        (if \<not> fits tsl fcl ?pre then del' else cut_loop tsl fcl tsl_del fcl_del (idx + 1) acc' del' items)"
      unfolding exceeds [symmetric] del'_def acc'_def using Recognized by (simp add: Let_def)
    show ?thesis
    proof (cases "fits tsl fcl ?pre")
      case True
      then show ?thesis
        using Cons.IH [OF True del' _ acc, of "idx + 1"] Cons.prems(3,5-8) Recognized r by (simp add: Let_def)
    next
      case False
      then have "\<not> fits tsl_del fcl_del ?pre" using le by blast
      then obtain k where "del' = Some k" using del' by (cases del') (auto simp: del_ok_def)
      then show ?thesis
        using False r del' del_ok_append [of tsl_del fcl_del ?pre k "takeWhile recognized items"] Recognized
          fits_prefix [of tsl fcl ?pre "takeWhile recognized items"] by (auto simp: Let_def)
    qed
  qed
qed

lemma percent_of_le:
  assumes "percent_of limit percent = Inr x" "percent \<le> 100"
  shows "x \<le> limit"
proof -
  obtain y where y: "unat y = unat limit * unat (ucast percent :: u64)" "x = y div 100"
    using assms(1) by (auto simp: percent_of_def checked_mul_iff)
  have "unat (ucast percent :: u64) \<le> 100"
    using assms(2) by (simp add: word_le_nat_alt unat_ucast_le order_less_trans [OF unsigned_less])
  then have "unat limit * unat (ucast percent :: u64) \<le> unat limit * 100" by simp
  then have "unat limit * unat (ucast percent :: u64) div 100 \<le> unat limit" by linarith
  then show ?thesis using y by (simp add: word_le_nat_alt unat_div)
qed

definition age_sorted :: "int \<Rightarrow> cache_entry list \<Rightarrow> bool" where
  "age_sorted tol xs \<longleftrightarrow> sorted_wrt (\<lambda>a b. entry_cmp tol a b \<noteq> Greater) xs"

lemma age_sorted_split: "age_sorted tol xs \<Longrightarrow> filter recognized xs = takeWhile recognized xs"
proof (induction xs)
  case (Cons x xs)
  show ?case
  proof (cases x)
    case (Unrecognized p d)
    have "\<not> recognized y" if "y \<in> set xs" for y
      using Cons.prems that Unrecognized by (cases y) (auto simp: age_sorted_def entry_cmp_def)
    then show ?thesis using Unrecognized by (simp add: filter_empty_conv)
  next
    case (Recognized p t sz)
    then show ?thesis using Cons by (simp add: age_sorted_def)
  qed
qed simp

text \<open>What the clean-up keeps of an index.\<close>

definition kept :: "nat option \<Rightarrow> cache_entry list \<Rightarrow> cache_entry list" where
  "kept idx xs = (case idx of None \<Rightarrow> xs | Some i \<Rightarrow> take i xs)"

definition removed :: "nat option \<Rightarrow> cache_entry list \<Rightarrow> cache_entry list" where
  "removed idx xs = (case idx of None \<Rightarrow> [] | Some i \<Rightarrow> drop i xs)"

lemma kept_removed: "kept idx xs @ removed idx xs = xs"
  by (simp add: kept_def removed_def split: option.splits)

lemma start_delete_spec:
  assumes "total_bytes index < 2 ^ 64" "length index < 2 ^ 64" "tsl_del \<le> tsl" "fcl_del \<le> fcl"
    and "idx = cut_loop tsl fcl tsl_del fcl_del 0 0 None index"
  shows "if fits tsl fcl (takeWhile recognized index)
    then idx = (if takeWhile recognized index = index then None else Some (length (takeWhile recognized index)))
    else \<exists>k. idx = Some k \<and> del_ok tsl_del fcl_del (takeWhile recognized index) (Some k)"
proof -
  have "fits tsl fcl []" "del_ok tsl_del fcl_del [] None" by (simp_all add: fits_def del_ok_def)
  then show ?thesis
    using cut_loop_spec [of tsl fcl "[]" tsl_del fcl_del None 0 0 index] assms by (auto simp: Let_def)
qed

lemma kept_limits:
  assumes spec: "if fits tsl fcl R then idx = (if R = index then None else Some (length R))
      else \<exists>k. idx = Some k \<and> del_ok tsl_del fcl_del R (Some k)"
    and R: "R = takeWhile recognized index"
  shows "if fits tsl fcl R then kept idx index = R
    else fits tsl_del fcl_del (kept idx index) \<and>
      (\<exists>e es. removed idx index = e # es \<and> \<not> fits tsl_del fcl_del (kept idx index @ [e]))"
    and "set (kept idx index) \<subseteq> set R"
proof -
  have split: "index = R @ dropWhile recognized index" by (simp add: R)
  have "take (length R) index = R" by (subst split) simp
  then have whole: "kept idx index = R" if "fits tsl fcl R"
    using spec that by (cases "R = index") (simp_all add: kept_def)
  have cut: "kept idx index = take k R \<and> take (Suc k) R = take k R @ [index ! k] \<and>
      removed idx index = index ! k # drop (Suc k) index" if k: "idx = Some k" "k < length R" for k
  proof -
    have lt: "k < length index" using k(2) unfolding R using length_takeWhile_le by (rule less_le_trans)
    have "take k index = take k R" using k(2) by (subst split) simp
    moreover have "take (Suc k) R = take k R @ [index ! k]"
      using k(2) takeWhile_nth [of k recognized index] by (simp add: R take_Suc_conv_app_nth)
    ultimately show ?thesis using k(1) lt by (simp add: kept_def removed_def Cons_nth_drop_Suc)
  qed
  show "if fits tsl fcl R then kept idx index = R
    else fits tsl_del fcl_del (kept idx index) \<and>
      (\<exists>e es. removed idx index = e # es \<and> \<not> fits tsl_del fcl_del (kept idx index @ [e]))"
  proof (cases "fits tsl fcl R")
    case True
    then show ?thesis using whole by simp
  next
    case False
    then obtain k where "idx = Some k" "del_ok tsl_del fcl_del R (Some k)" using spec by auto
    then show ?thesis using False cut [of k] by (auto simp: del_ok_def)
  qed
  show "set (kept idx index) \<subseteq> set R"
    using whole cut spec by (cases "fits tsl fcl R") (auto simp: del_ok_def dest: in_set_takeD)
qed

section \<open>The order of the clean-up\<close>

text \<open>What a comparison has to satisfy for a sort with it: not being greater is total and transitive.\<close>

locale comparison =
  fixes cmp :: "'a \<Rightarrow> 'a \<Rightarrow> ordering"
  assumes total: "cmp x y = Greater \<Longrightarrow> cmp y x \<noteq> Greater"
    and trans: "cmp x y \<noteq> Greater \<Longrightarrow> cmp y z \<noteq> Greater \<Longrightarrow> cmp x z \<noteq> Greater"
begin

lemma set_insert_by: "set (insert_by cmp x ys) = insert x (set ys)"
  by (induction ys) auto

lemma mset_sort: "mset (sort_unstable_by cmp xs) = mset xs"
proof -
  have "mset (insert_by cmp x ys) = add_mset x (mset ys)" for x ys by (induction ys) auto
  then show ?thesis by (induction xs) (simp_all add: sort_unstable_by_def)
qed

lemma sorted_insert:
  "sorted_wrt (\<lambda>a b. cmp a b \<noteq> Greater) ys \<Longrightarrow> sorted_wrt (\<lambda>a b. cmp a b \<noteq> Greater) (insert_by cmp x ys)"
  by (induction ys) (auto simp: set_insert_by dest: total trans)

lemma sorted_sort: "sorted_wrt (\<lambda>a b. cmp a b \<noteq> Greater) (sort_unstable_by cmp xs)"
  by (induction xs) (simp_all add: sort_unstable_by_def sorted_insert)

end

interpretation age: comparison "entry_cmp tol" for tol
  by unfold_locales (auto simp: entry_cmp_def split: cache_entry.splits bool.splits if_splits)

text \<open>The index a clean-up works on.\<close>

definition cleanup_index :: "fs_env \<Rightarrow> settings \<Rightarrow> fs \<Rightarrow> cache_entry list" where
  "cleanup_index env st fs =
     sort_unstable_by (entry_cmp (now env + s_future_drift st)) (list_cache_contents env st fs)"

lemma cleanup_eq:
  assumes "(now env + s_future_drift st) div 10 ^ 9 < 2 ^ 63" "start_delete_idx st (cleanup_index env st fs) = Inr idx"
  shows "cleanup env st fs = (Inr (), fold (delete_entry env) (removed idx (cleanup_index env st fs)) fs)"
  using assms
  by (cases idx) (simp_all add: cleanup_def time_checked_add_def cleanup_index_def [symmetric] delete_from_def removed_def unwrap_res_def)

lemma start_delete_limits:
  assumes "age_sorted tol index" "total_bytes index < 2 ^ 64" "length index < 2 ^ 64"
    and "s_files_total_size_limit_percent st \<le> 100" "s_file_count_limit_percent st \<le> 100"
    and "percent_of (s_files_total_size_soft_limit st) (s_files_total_size_limit_percent st) = Inr tsl_del"
    and "percent_of (s_file_count_soft_limit st) (s_file_count_limit_percent st) = Inr fcl_del"
  obtains idx where "start_delete_idx st index = Inr idx" "\<forall>e \<in> set (kept idx index). recognized e"
    "fits (s_files_total_size_soft_limit st) (s_file_count_soft_limit st) (kept idx index)"
    "if fits (s_files_total_size_soft_limit st) (s_file_count_soft_limit st) (filter recognized index)
     then kept idx index = filter recognized index
     else fits tsl_del fcl_del (kept idx index) \<and>
       (\<exists>e es. removed idx index = e # es \<and> \<not> fits tsl_del fcl_del (kept idx index @ [e]))"
    "\<forall>a \<in> set (kept idx index). \<forall>b \<in> set (removed idx index). entry_cmp tol a b \<noteq> Greater"
proof -
  let ?tsl = "s_files_total_size_soft_limit st" and ?fcl = "s_file_count_soft_limit st"
  define idx where "idx = cut_loop ?tsl ?fcl tsl_del fcl_del 0 0 None index"
  have le: "tsl_del \<le> ?tsl" "fcl_del \<le> ?fcl" using percent_of_le assms(4-7) by blast+
  have start: "start_delete_idx st index = Inr idx" using assms(6,7) by (simp add: start_delete_idx_def idx_def)
  note lim = kept_limits [OF start_delete_spec [OF assms(2,3) le idx_def] refl]
  have "\<forall>e \<in> set (kept idx index). recognized e" using lim(2) by (auto dest: set_takeWhileD)
  moreover have "fits ?tsl ?fcl (kept idx index)"
    using lim(1) le by (auto simp: fits_def word_le_nat_alt split: if_splits)
  moreover have "\<forall>a \<in> set (kept idx index). \<forall>b \<in> set (removed idx index). entry_cmp tol a b \<noteq> Greater"
    using assms(1) sorted_wrt_append [of "\<lambda>a b. entry_cmp tol a b \<noteq> Greater" "kept idx index" "removed idx index"]
    by (simp add: age_sorted_def kept_removed)
  ultimately show ?thesis using that start lim(1) unfolding age_sorted_split [OF assms(1)] by blast
qed

text \<open>C28. A clean-up splits the entries of the cache into those it keeps and those it tries to delete. It
  never keeps an entry it does not recognize, keeps the cache within both soft limits, and keeps
  every recognized entry when they are within them already. Otherwise it keeps as many entries as the
  reduced limits allow, and an entry it keeps is at least as young as one it deletes.\<close>

theorem cleanup_keeps_limits:
  assumes "(now env + s_future_drift st) div 10 ^ 9 < 2 ^ 63"
    and "total_bytes (list_cache_contents env st fs) < 2 ^ 64" "length (list_cache_contents env st fs) < 2 ^ 64"
    and "s_files_total_size_limit_percent st \<le> 100" "s_file_count_limit_percent st \<le> 100"
    and "percent_of (s_files_total_size_soft_limit st) (s_files_total_size_limit_percent st) = Inr tsl_del"
    and "percent_of (s_file_count_soft_limit st) (s_file_count_limit_percent st) = Inr fcl_del"
  shows "\<exists>ks ds. mset (ks @ ds) = mset (list_cache_contents env st fs) \<and>
    cleanup env st fs = (Inr (), fold (delete_entry env) ds fs) \<and>
    (\<forall>e \<in> set ks. recognized e) \<and>
    fits (s_files_total_size_soft_limit st) (s_file_count_soft_limit st) ks \<and>
    (if fits (s_files_total_size_soft_limit st) (s_file_count_soft_limit st)
          (filter recognized (list_cache_contents env st fs))
     then mset ks = mset (filter recognized (list_cache_contents env st fs))
     else fits tsl_del fcl_del ks \<and> (\<exists>e es. ds = e # es \<and> \<not> fits tsl_del fcl_del (ks @ [e]))) \<and>
    (\<forall>a \<in> set ks. \<forall>b \<in> set ds. entry_cmp (now env + s_future_drift st) a b \<noteq> Greater)"
proof -
  let ?contents = "list_cache_contents env st fs" and ?index = "cleanup_index env st fs"
  let ?fits = "fits (s_files_total_size_soft_limit st) (s_file_count_soft_limit st)"
  have perm: "mset ?index = mset ?contents" by (simp add: cleanup_index_def age.mset_sort)
  have same: "total_bytes xs = total_bytes ys" "length xs = length ys" "?fits xs = ?fits ys"
    if "mset xs = mset ys" for xs ys
  proof -
    have "mset (map entry_size xs) = mset (map entry_size ys)" using that by simp
    then show "total_bytes xs = total_bytes ys" by (simp only: total_bytes_def sum_mset_sum_list [symmetric])
    then show "length xs = length ys" "?fits xs = ?fits ys" using mset_eq_length [OF that] by (simp_all add: fits_def)
  qed
  have filt: "mset (filter recognized ?index) = mset (filter recognized ?contents)" by (simp add: perm)
  have sorted: "age_sorted (now env + s_future_drift st) ?index"
    unfolding age_sorted_def cleanup_index_def by (rule age.sorted_sort)
  have small: "total_bytes ?index < 2 ^ 64" "length ?index < 2 ^ 64" using assms(2,3) unfolding same(1,2) [OF perm] .
  obtain idx where idx: "start_delete_idx st ?index = Inr idx" "\<forall>e \<in> set (kept idx ?index). recognized e"
    "?fits (kept idx ?index)"
    "if ?fits (filter recognized ?index) then kept idx ?index = filter recognized ?index
     else fits tsl_del fcl_del (kept idx ?index) \<and>
       (\<exists>e es. removed idx ?index = e # es \<and> \<not> fits tsl_del fcl_del (kept idx ?index @ [e]))"
    "\<forall>a \<in> set (kept idx ?index). \<forall>b \<in> set (removed idx ?index). entry_cmp (now env + s_future_drift st) a b \<noteq> Greater"
    by (rule start_delete_limits [OF sorted small assms(4-7)])
  have "cleanup env st fs = (Inr (), fold (delete_entry env) (removed idx ?index) fs)"
    using assms(1) idx(1) by (rule cleanup_eq)
  moreover have "mset (kept idx ?index @ removed idx ?index) = mset ?contents" by (simp only: kept_removed perm)
  moreover have "if ?fits (filter recognized ?contents) then mset (kept idx ?index) = mset (filter recognized ?contents)
     else fits tsl_del fcl_del (kept idx ?index) \<and>
       (\<exists>e es. removed idx ?index = e # es \<and> \<not> fits tsl_del fcl_del (kept idx ?index @ [e]))"
    using idx(4) unfolding same(3) [OF filt] filt [symmetric] by presburger
  ultimately show ?thesis
    using idx(2,3,5) by (intro exI [of _ "kept idx ?index"] exI [of _ "removed idx ?index"] conjI)
qed

text \<open>Three modules of four bytes and a stray file, with a limit of ten bytes, of which seventy percent are
  seven: the youngest module is kept.\<close>

definition sample_settings :: settings where
  "sample_settings =
     \<lparr>s_directory = [''/'', ''cache''], s_baseline_compression_level = 3, s_optimized_compression_level = 20,
      s_usage_counter_threshold = 256, s_cleanup_interval = 3600, s_task_timeout = 1800, s_future_drift = 86400,
      s_file_count_soft_limit = 10, s_files_total_size_soft_limit = 10, s_file_count_limit_percent = 70,
      s_files_total_size_limit_percent = 70\<rparr>"

definition sample_cache :: fs where
  "sample_cache =
     [([''/''], Dir), ([''/'', ''cache''], Dir), ([''/'', ''cache'', ''t''], Dir), ([''/'', ''cache'', ''t'', ''c-r''], Dir),
      ([''/'', ''cache'', ''t'', ''c-r'', ''a''], File ''code'' 10), ([''/'', ''cache'', ''t'', ''c-r'', ''b''], File ''code'' 30),
      ([''/'', ''cache'', ''t'', ''c-r'', ''x''], File ''code'' 20), ([''/'', ''cache'', ''stray''], File ''junk'' 40)]"

theorem cleanup_keeps_limits_witness:
  "\<exists>ks ds. mset (ks @ ds) = mset (list_cache_contents sample_fs_env sample_settings sample_cache) \<and>
     cleanup sample_fs_env sample_settings sample_cache = (Inr (), fold (delete_entry sample_fs_env) ds sample_cache) \<and>
     fits 7 7 ks"
proof -
  let ?c = "list_cache_contents sample_fs_env sample_settings sample_cache"
  have p: "percent_of 10 70 = Inr 7" by (simp add: percent_of_def checked_mul_def unwrap_res_def)
  have c: "?c = [Recognized [''/'', ''cache'', ''t'', ''c-r'', ''a''] 10 4, Recognized [''/'', ''cache'', ''t'', ''c-r'', ''b''] 30 4,
      Recognized [''/'', ''cache'', ''t'', ''c-r'', ''x''] 20 4, Unrecognized [''/'', ''cache'', ''stray''] False]"
    by code_simp
  have "\<not> fits 10 10 (filter recognized ?c)" by (simp add: c fits_def)
  moreover have st: "s_files_total_size_soft_limit sample_settings = 10" "s_file_count_soft_limit sample_settings = 10"
    "s_files_total_size_limit_percent sample_settings = 70" "s_file_count_limit_percent sample_settings = 70"
    "s_future_drift sample_settings = 86400" "now sample_fs_env = 7"
    by (simp_all add: sample_settings_def sample_fs_env_def)
  ultimately show ?thesis
    using cleanup_keeps_limits [of sample_fs_env sample_settings sample_cache 7 7] p unfolding st c by auto
qed

section \<open>Names of files\<close>

text \<open>Everything the worker writes for an entry has the name of the entry with an extension.\<close>

definition suffixed :: "path \<Rightarrow> string \<Rightarrow> path" where
  "suffixed p ext = butlast p @ [last p @ CHR ''.'' # ext]"

lemma file_name_Some: "file_name p = Some n \<Longrightarrow> p = butlast p @ [n] \<and> n = last p \<and> n \<noteq> []"
  by (auto simp: file_name_def split: if_splits)

lemma suffixed_simps:
  assumes "file_name p = Some n" "CHR ''.'' \<notin> set ext" "ext \<noteq> []"
  shows "suffixed p ext \<noteq> p" "file_name (suffixed p ext) = Some (n @ CHR ''.'' # ext)"
    "file_stem (suffixed p ext) = Some n" "extension (suffixed p ext) = Some ext"
    "parent (suffixed p ext) = Some (butlast p)" "with_extension (suffixed p ext) ext' = (if ext' = [] then p else suffixed p ext')"
proof -
  note n = file_name_Some [OF assms(1)]
  have "n \<noteq> []" using n by blast
  then have len: "3 \<le> length (n @ CHR ''.'' # ext)"
    using assms(3) by (cases n; cases ext) simp_all
  have "split_at_dot (n @ CHR ''.'' # ext) = Some (n, ext)" using n assms(2) by (intro split_at_dot_append) auto
  then show "file_name (suffixed p ext) = Some (n @ CHR ''.'' # ext)"
    "file_stem (suffixed p ext) = Some n" "extension (suffixed p ext) = Some ext"
    "with_extension (suffixed p ext) ext' = (if ext' = [] then p else suffixed p ext')"
    using n len assms(2)
    by (auto simp: suffixed_def file_name_def file_stem_def extension_def name_stem_def name_extension_def
        with_extension_def with_file_name_def append_eq_Cons_conv split: if_splits)
  show "suffixed p ext \<noteq> p"
  proof
    assume "suffixed p ext = p"
    then have "last (suffixed p ext) = last p" by simp
    then show False by (simp add: suffixed_def)
  qed
  show "parent (suffixed p ext) = Some (butlast p)"
    using len by (auto simp: parent_def suffixed_def append_eq_Cons_conv)
qed

lemma with_extension_plain:
  assumes "file_name p = Some n" "extension p = None" "ext \<noteq> []"
  shows "with_extension p ext = suffixed p ext" "file_stem p = Some n"
proof -
  have "split_at_dot n = None" using assms(1,2) by (simp add: extension_def name_extension_def)
  then show "file_stem p = Some n" using assms(1) by (simp add: file_stem_def name_stem_def)
  then show "with_extension p ext = suffixed p ext"
    using assms(1,3) file_name_Some [OF assms(1)] by (auto simp: with_extension_def with_file_name_def suffixed_def)
qed

lemma lock_ext: "CHR ''.'' \<notin> set (''wip-'' @ dec k)" "''wip-'' @ dec k \<noteq> []"
  using dec_digits [of k] by (auto simp: is_digit_def)

section \<open>Locks\<close>

lemma no_lock_False:
  "None \<in> set it \<or> (\<exists>p. Some p \<in> set it \<and> holds_lock env fs task timeout drift p) \<Longrightarrow>
     \<not> no_lock env fs task timeout drift it"
  by (induction it) (auto split: option.splits)

lemma read_dir_lists:
  assumes "read_dir env fs d = Some it" "p \<in> set (map fst fs)" "parent p = Some d"
  shows "(if io_error env OpEntry p then None else Some p) \<in> set it"
proof -
  have "it = map (\<lambda>q. if io_error env OpEntry q then None else Some q) (filter (\<lambda>q. parent q = Some d) (map fst fs))"
    using assms(1) by (auto simp: read_dir_def split: if_splits)
  moreover have "p \<in> set (filter (\<lambda>q. parent q = Some d) (map fst fs))" using assms(2,3) by simp
  then have "(\<lambda>q. if io_error env OpEntry q then None else Some q) p \<in>
      set (map (\<lambda>q. if io_error env OpEntry q then None else Some q) (filter (\<lambda>q. parent q = Some d) (map fst fs)))"
    unfolding set_map by (rule imageI)
  ultimately show ?thesis by (simp only:)
qed

lemma acquired:
  assumes "acquire_task_fs_lock env task timeout drift fs = (Inr (Some lock), fs')"
  obtains n where "file_name task = Some n" "extension task = None" "lock = suffixed task (''wip-'' @ dec (pid env))"
    "fs' = fs_set lock (File [] (now env)) fs" "node_at fs lock = None" "parent task = Some (butlast task)"
proof -
  have a: "extension task = None" "file_stem task \<noteq> None" "lock = with_extension task (''wip-'' @ dec (pid env))"
    "create_new env lock fs = (True, fs')" "parent task \<noteq> None"
    using assms
    by (auto simp: acquire_task_fs_lock_def assert_res_def Let_def bind_eq_Some_conv split: option.splits prod.splits if_splits)
  obtain n where n: "file_name task = Some n" using a(2) by (auto simp: file_stem_def)
  moreover have "lock = suffixed task (''wip-'' @ dec (pid env))"
    using with_extension_plain(1) [OF n a(1) lock_ext(2)] a(3) by simp
  moreover have "fs' = fs_set lock (File [] (now env)) fs" "node_at fs lock = None"
    using a(4) by (auto simp: create_new_def split: if_splits)
  moreover have "parent task = Some (butlast task)" using a(5) by (auto simp: parent_def split: if_splits)
  ultimately show ?thesis using that a(1) by blast
qed

text \<open>A lock that a worker holds keeps every worker from taking it: as long as its file is there, no
  call with a clock up to the timeout later, or up to the allowed drift earlier, acquires it,
  whatever happened to the rest of the file system.\<close>

theorem lock_excludes:
  assumes "acquire_task_fs_lock env task timeout drift fs = (Inr (Some lock), fs1)"
    and "node_at fs2 lock = node_at fs1 lock"
    and "if now env \<le> now env' then now env' < now env + timeout else now env \<le> now env' + drift"
    and "\<not> io_error env' OpMetadata lock" "\<not> io_error env' OpModified lock"
  shows "acquire_task_fs_lock env' task timeout drift fs2 = (Inr None, fs2)"
proof -
  obtain n where n: "file_name task = Some n" "extension task = None" and lock: "lock = suffixed task (''wip-'' @ dec (pid env))"
    and fs1: "node_at fs1 lock = Some (File [] (now env))" and d: "parent task = Some (butlast task)"
    by (rule acquired [OF assms(1)]) simp
  note ext = lock_ext [of "pid env"]
  note nm = suffixed_simps [OF n(1) ext] and plain = with_extension_plain [OF n ext(2)]
  have node: "node_at fs2 lock = Some (File [] (now env))" using assms(2) fs1 by simp
  have "holds_lock env' fs2 task timeout drift lock"
    using nm(3,4) plain(2) node assms(3-5) unfolding lock
    by (simp add: holds_lock_def is_dir_def is_fs_lock_expired_def fs_modified_def split: if_splits)
  moreover have "lock \<in> set (map fst fs2)" using node by (force dest: map_of_SomeD)
  ultimately have "\<not> no_lock env' fs2 task timeout drift it" if "read_dir env' fs2 (butlast task) = Some it" for it
    using read_dir_lists [OF that, of lock] nm(5) no_lock_False [of it env' fs2 task timeout drift]
    unfolding lock [symmetric]
    by (cases "io_error env' OpEntry lock") auto
  then show ?thesis
    using n d plain(2) by (auto simp: acquire_task_fs_lock_def assert_res_def split: option.splits)
qed

text \<open>A worker takes the lock of a module, and another one tries a nanosecond later.\<close>

theorem lock_excludes_witness:
  "\<exists>fs1. acquire_task_fs_lock (sample_fs_env\<lparr>io_error := (\<lambda>_ _. False)\<rparr>) [''/'', ''mod-x''] 1800 0 sample_fs =
       (Inr (Some [''/'', ''mod-x.wip-1'']), fs1) \<and>
     acquire_task_fs_lock (sample_fs_env\<lparr>io_error := (\<lambda>_ _. False), pid := 2, now := 8\<rparr>) [''/'', ''mod-x''] 1800 0 fs1 =
       (Inr None, fs1)"
proof -
  let ?env = "sample_fs_env\<lparr>io_error := (\<lambda>_ _. False)\<rparr>" and ?t = "[''/'', ''mod-x'']"
  let ?env' = "sample_fs_env\<lparr>io_error := (\<lambda>_ _. False), pid := 2, now := 8\<rparr>"
  have names: "extension ?t = None" "file_stem ?t = Some ''mod-x''" "with_extension ?t ''wip-1'' = [''/'', ''mod-x.wip-1'']"
    "dec 1 = ''1''" by code_simp+
  then obtain fs1 where a: "acquire_task_fs_lock ?env ?t 1800 0 sample_fs = (Inr (Some [''/'', ''mod-x.wip-1'']), fs1)"
    by (auto simp: acquire_task_fs_lock_def assert_res_def sample_fs_env_def sample_fs_def parent_def read_dir_def is_dir_def
        holds_lock_def create_new_def Let_def)
  have "acquire_task_fs_lock ?env' ?t 1800 0 fs1 = (Inr None, fs1)"
    by (rule lock_excludes [OF a refl]) (simp_all add: sample_fs_env_def)
  then show ?thesis using a by blast
qed

section \<open>Recompression\<close>

lemma stats_path_suffixed:
  assumes "stats_path_of msg p = Inr sp"
  obtains n where "file_name p = Some n" "sp = suffixed p ''stats''" "atomic_lock sp ''stats'' = suffixed p ''wip-atomic-write-stats''"
proof -
  obtain n where n: "file_name p = Some n" "sp = with_file_name p (n @ ''.stats'')"
    using assms by (auto simp: stats_path_of_def)
  then have "sp = suffixed p ''stats''"
    using file_name_Some [OF n(1)] by (auto simp: with_file_name_def suffixed_def)
  then show ?thesis using that n(1) suffixed_simps(6) [OF n(1), of "''stats''" "''wip-atomic-write-stats''"] by simp
qed

text \<open>A module, with or without debug information, is none of the files the worker writes beside it.\<close>

definition is_module :: "path \<Rightarrow> bool" where
  "is_module q \<longleftrightarrow> extension q = None \<or> extension q = Some ''d''"

lemma module_not_suffixed:
  assumes "is_module q" "file_name p = Some n"
  shows "q \<noteq> suffixed p ''stats''" "q \<noteq> suffixed p ''wip-atomic-write-stats''" "q \<noteq> suffixed p (''wip-'' @ dec k)"
  using assms(1) suffixed_simps(4) [OF assms(2), of "''stats''"] suffixed_simps(4) [OF assms(2), of "''wip-atomic-write-stats''"]
    suffixed_simps(4) [OF assms(2) lock_ext [of k]]
  by (auto simp: is_module_def)

lemma write_stats_other:
  assumes "write_stats_file env toml sp stats fs = (ok, fs')" "q \<noteq> sp" "q \<noteq> atomic_lock sp ''stats''"
  shows "node_at fs' q = node_at fs q"
  using assms write_atomic_cases(4) [of env sp "''stats''" _ fs ok fs' q]
  by (auto simp: write_stats_file_def split: option.splits)

text \<open>What is stored at a path, decompressed.\<close>

definition stored :: "'d codec \<Rightarrow> fs \<Rightarrow> path \<Rightarrow> bytes option" where
  "stored lib fs q = (case node_at fs q of Some (File b _) \<Rightarrow> decode_all lib b | _ \<Rightarrow> None)"

lemma get_data_stored:
  "inner_get_data env lib q fs = (if io_error env OpRead q then None else Option.bind (stored lib fs q) (deserialize lib))"
  by (auto simp: inner_get_data_def fs_read_def stored_def split: option.splits node.splits)

lemma recompress_stored:
  assumes law: "\<forall>b level e. encode_all lib b level = Some e \<longrightarrow> decode_all lib e = Some b"
    and q: "is_module q" "q \<noteq> sp" "q \<noteq> atomic_lock sp ''stats''" "q \<noteq> lock" and pl: "p \<noteq> lock"
    and p: "p \<noteq> sp" "p \<noteq> atomic_lock sp ''stats''"
  shows "stored lib (recompress env lib toml lvl p lock sp fs) q = stored lib fs q"
proof (cases "\<exists>bytes rec. Option.bind (fs_read env fs p) (decode_all lib) = Some bytes \<and> encode_all lib bytes lvl = Some rec")
  case False
  then show ?thesis by (auto simp: recompress_def split: option.splits)
next
  case True
  then obtain old bytes rec where b: "fs_read env fs p = Some old" "decode_all lib old = Some bytes" "encode_all lib bytes lvl = Some rec"
    by (auto simp: bind_eq_Some_conv)
  obtain t where old: "node_at fs p = Some (File old t)"
    using b(1) by (auto simp: fs_read_def split: if_splits option.splits node.splits)
  have dec: "decode_all lib rec = Some bytes" using law b(3) by blast
  define fs1 where "fs1 = snd (write_all env lock rec fs)"
  have fs1: "node_at fs1 x = node_at fs x" if "x \<noteq> lock" for x using that by (simp add: fs1_def write_all_def)
  define fs2 where "fs2 = snd (fs_rename env lock p fs1)"
  have fs2: "stored lib fs2 q = stored lib fs q" if "fst (write_all env lock rec fs)"
    using that q(4) pl old b(2) dec fs1
    by (auto simp: fs2_def fs1_def fs_rename_def write_all_def stored_def split: option.splits if_splits)
  have stats: "stored lib (snd (write_stats_file env toml sp s fs)) q = stored lib fs q" for s fs
    using write_stats_other [of env toml sp s fs _ _ q] q(2,3)
    by (cases "write_stats_file env toml sp s fs") (simp add: stored_def)
  have rem: "stored lib (snd (remove_file env lock fs)) q = stored lib fs q" for fs
    using q(4) by (auto simp: remove_file_def stored_def split: option.splits node.splits)
  have "fs_rename env lock p fs1 = (ok, fs2) \<Longrightarrow> fst (write_all env lock rec fs) \<Longrightarrow>
      stored lib (recompress env lib toml lvl p lock sp fs) q = stored lib fs2 q" for ok
    using b stats rem by (cases ok) (auto simp: recompress_def fs1_def split: option.splits prod.splits bool.splits)
  moreover have "\<not> fst (write_all env lock rec fs) \<Longrightarrow> recompress env lib toml lvl p lock sp fs = fs1"
    using b by (auto simp: recompress_def fs1_def split: prod.splits bool.splits)
  ultimately show ?thesis
    using fs2 fs1 [OF q(4)] by (cases "fst (write_all env lock rec fs)"; cases "fs_rename env lock p fs1")
      (auto simp: fs2_def stored_def)
qed

text \<open>Without the lock, no file changes.\<close>

lemma not_acquired:
  assumes "acquire_task_fs_lock env task timeout drift fs = (r, fs')" "\<forall>lock. r \<noteq> Inr (Some lock)"
  shows "fs' = fs"
  using assms
  by (auto simp: acquire_task_fs_lock_def assert_res_def create_new_def Let_def split: option.splits if_splits)

text \<open>However the handling of a use ends, the files are as they were, have new statistics at most, or the
  module was recompressed under its lock.\<close>

lemma get_event_cases:
  assumes "handle_on_cache_get env lib toml st p fs = (r, fs')"
  obtains (none) "fs' = fs"
  | (stats) sp stats ok where "stats_path_of ''unwrap'' p = Inr sp" "write_stats_file env toml sp stats fs = (ok, fs')"
  | (recompress) sp stats ok fs1 lock fs2 where "stats_path_of ''unwrap'' p = Inr sp"
      "write_stats_file env toml sp stats fs = (ok, fs1)"
      "acquire_task_fs_lock env p (s_task_timeout st) (s_future_drift st) fs1 = (Inr (Some lock), fs2)"
      "fs' = recompress env lib toml (s_optimized_compression_level st) p lock sp fs2"
proof (cases "stats_path_of ''unwrap'' p")
  case (Inl e)
  then show ?thesis using assms none by (simp add: handle_on_cache_get_def)
next
  case (Inr sp)
  define stats where "stats = load_stats env toml st sp fs"
  obtain ok fs1 where w: "write_stats_file env toml sp (stats\<lparr>usages := usages stats + 1\<rparr>) fs = (ok, fs1)" by fastforce
  obtain l fs2 where a: "acquire_task_fs_lock env p (s_task_timeout st) (s_future_drift st) fs1 = (l, fs2)" by fastforce
  have "fs' = fs1 \<or> (\<forall>lock. l \<noteq> Inr (Some lock)) \<and> fs' = fs2 \<or> (\<exists>lock. l = Inr (Some lock) \<and>
      fs' = recompress env lib toml (s_optimized_compression_level st) p lock sp fs2)"
    using assms w a Inr
    by (cases l) (auto simp: handle_on_cache_get_def Let_def stats_def split: option.splits if_splits)
  then consider "fs' = fs1" | lock where "l = Inr (Some lock)"
      "fs' = recompress env lib toml (s_optimized_compression_level st) p lock sp fs2"
    using not_acquired [OF a] by blast
  then show ?thesis
  proof cases
    case 1
    then show ?thesis using that(2) [OF Inr] w by blast
  next
    case 2
    then show ?thesis using that(3) [OF Inr w] a by blast
  qed
qed

lemma handle_get_stored:
  assumes law: "\<forall>b level e. encode_all lib b level = Some e \<longrightarrow> decode_all lib e = Some b"
    and h: "handle_on_cache_get env lib toml st p fs = (r, fs')" and q: "is_module q"
  shows "stored lib fs' q = stored lib fs q"
proof -
  have stats: "stored lib fs1 q = stored lib fs q"
    if sp: "stats_path_of ''unwrap'' p = Inr sp" and w: "write_stats_file env toml sp s fs = (ok, fs1)" for sp s ok fs1
  proof -
    obtain n where n: "file_name p = Some n" "sp = suffixed p ''stats''" "atomic_lock sp ''stats'' = suffixed p ''wip-atomic-write-stats''"
      using sp by (rule stats_path_suffixed)
    then show ?thesis using write_stats_other [OF w, of q] module_not_suffixed [OF q n(1)] by (simp add: stored_def)
  qed
  show ?thesis
    using h
  proof (cases rule: get_event_cases)
    case (recompress sp stats ok fs1 lock fs2)
    obtain n where n: "file_name p = Some n" "sp = suffixed p ''stats''" "atomic_lock sp ''stats'' = suffixed p ''wip-atomic-write-stats''"
      using recompress(1) by (rule stats_path_suffixed)
    have l: "extension p = None" "lock = suffixed p (''wip-'' @ dec (pid env))" "fs2 = fs_set lock (File [] (now env)) fs1"
      using acquired [OF recompress(3)] by metis+
    then have "is_module p" by (simp add: is_module_def)
    note np = module_not_suffixed [OF this n(1)] and nq = module_not_suffixed [OF q n(1)]
    have "stored lib fs' q = stored lib fs2 q"
      using recompress_stored [OF law q, of sp lock p] nq np n(2,3) l(2) recompress(4) by simp
    then show ?thesis using stats [OF recompress(1,2)] nq(3) l(2,3) by (simp add: stored_def)
  qed (use stats in auto)
qed

text \<open>C31. Handling a use of an entry, with the recompression it may lead to, whichever of its steps
  fail and whether or not it panics, does not change the data of any module of the cache: every module is read as before.\<close>

theorem get_event_keeps_data:
  assumes "\<forall>b level e. encode_all lib b level = Some e \<longrightarrow> decode_all lib e = Some b"
    and "handle_on_cache_get env lib toml st p fs = (r, fs')" "is_module q"
  shows "inner_get_data env' lib q fs' = inner_get_data env' lib q fs"
  using handle_get_stored [OF assms] by (simp add: get_data_stored)

definition sample_toml :: toml where
  "sample_toml = \<lparr>parse_stats = (\<lambda>b. Some \<lparr>usages = of_nat (length b), compression_level = 3\<rparr>),
     print_stats = (\<lambda>s. Some (replicate (unat (usages s)) CHR ''x''))\<rparr>"

text \<open>The second use of a module whose threshold is two: it is recompressed.\<close>

theorem get_event_keeps_data_witness:
  "\<exists>fs'. handle_on_cache_get (sample_fs_env\<lparr>io_error := (\<lambda>_ _. False)\<rparr>) sample_codec sample_toml
       (sample_settings\<lparr>s_usage_counter_threshold := 1\<rparr>) [''/'', ''mod-x''] sample_fs = (Inr (), fs') \<and>
     inner_get_data (sample_fs_env\<lparr>io_error := (\<lambda>_ _. False)\<rparr>) sample_codec [''/'', ''mod-x''] fs' = Some ''dlo''"
proof -
  let ?env = "sample_fs_env\<lparr>io_error := (\<lambda>_ _. False)\<rparr>" and ?p = "[''/'', ''mod-x'']"
  let ?r = "handle_on_cache_get ?env sample_codec sample_toml (sample_settings\<lparr>s_usage_counter_threshold := 1\<rparr>) ?p sample_fs"
  have "fst ?r = Inr ()" by code_simp
  then obtain fs' where r: "?r = (Inr (), fs')" by (cases ?r) auto
  have "is_module ?p" unfolding is_module_def by code_simp
  then have "inner_get_data ?env sample_codec ?p fs' = inner_get_data ?env sample_codec ?p sample_fs"
    by (intro get_event_keeps_data [OF _ r]) (simp_all add: sample_codec_def)
  moreover have "inner_get_data ?env sample_codec ?p sample_fs = Some ''dlo''"
    by (simp add: inner_get_data_def fs_read_def sample_fs_def sample_fs_env_def sample_codec_def)
  ultimately show ?thesis using r by auto
qed

section \<open>Modules with debug information\<close>

lemma debug_name:
  assumes "cache_entry_inner_new build cfg m bodies triple compiler_name True = Inr p"
  obtains n where "file_name p = Some n" "extension p = Some ''d''"
proof -
  obtain dir where p: "p = dir @ [triple, compiler_dir build compiler_name, mod_filename build m bodies True]"
    using assms by (auto simp: cache_entry_inner_new_def)
  have n: "file_name p = Some (mod_filename build m bodies True)" by (simp add: p file_name_def mod_filename_def)
  moreover have "split_at_dot (mod_filename build m bodies True) =
      Some (''mod-'' @ base64 build (digest build (hash_for_cache m bodies)), ''d'')"
    using split_at_dot_append [of "''mod-'' @ base64 build (digest build (hash_for_cache m bodies))" "''d''"]
    by (simp add: mod_filename_def)
  ultimately show ?thesis using that by (simp add: extension_def name_extension_def)
qed

text \<open>An entry that is not recognized is always behind the cut, whatever the sizes of the entries before it.\<close>

lemma cut_loop_unrecognized:
  assumes "k < length items" "\<not> recognized (items ! k)" "tsl_del \<le> tsl" "fcl_del \<le> fcl" "\<forall>j. del = Some j \<longrightarrow> j \<le> idx"
  shows "\<exists>i \<le> idx + k. cut_loop tsl fcl tsl_del fcl_del idx acc del items = Some i"
  using assms
proof (induction items arbitrary: idx acc del k)
  case (Cons item items)
  show ?case
  proof (cases item)
    case (Recognized p t sz)
    then obtain l where k: "k = Suc l" using Cons.prems(2) by (cases k) simp_all
    define del' where "del' = (if del = None \<and> (acc + sz > tsl_del \<or> of_nat (idx + 1) > fcl_del) then Some idx else del)"
    have j: "\<forall>j. del' = Some j \<longrightarrow> j \<le> idx" using Cons.prems(5) by (auto simp: del'_def)
    show ?thesis
    proof (cases "acc + sz > tsl \<or> of_nat (idx + 1) > fcl")
      case True
      then have "del' \<noteq> None" using Cons.prems(3,4) by (auto simp: del'_def)
      moreover have "cut_loop tsl fcl tsl_del fcl_del idx acc del (item # items) = del'"
        using True Recognized by (simp add: Let_def del'_def)
      ultimately show ?thesis using j by (auto intro: trans_le_add1)
    next
      case False
      have "\<exists>i \<le> idx + 1 + l. cut_loop tsl fcl tsl_del fcl_del (idx + 1) (acc + sz) del' items = Some i"
        using Cons.prems j k by (intro Cons.IH) auto
      moreover have "cut_loop tsl fcl tsl_del fcl_del idx acc del (item # items) =
          cut_loop tsl fcl tsl_del fcl_del (idx + 1) (acc + sz) del' items"
        using False Recognized by (simp add: Let_def del'_def)
      ultimately show ?thesis using k by simp
    qed
  qed simp
qed simp

lemma cleanup_deletes_unrecognized:
  assumes "(now env + s_future_drift st) div 10 ^ 9 < 2 ^ 63"
    and "s_files_total_size_limit_percent st \<le> 100" "s_file_count_limit_percent st \<le> 100"
    and "percent_of (s_files_total_size_soft_limit st) (s_files_total_size_limit_percent st) = Inr tsl_del"
    and "percent_of (s_file_count_soft_limit st) (s_file_count_limit_percent st) = Inr fcl_del"
    and "e \<in> set (list_cache_contents env st fs)" "\<not> recognized e"
  obtains ds where "cleanup env st fs = (Inr (), fold (delete_entry env) ds fs)" "e \<in> set ds"
proof -
  let ?index = "cleanup_index env st fs"
  have "e \<in> set ?index" using assms(6) mset_eq_setD [OF age.mset_sort] by (auto simp: cleanup_index_def)
  then obtain k where k: "k < length ?index" "?index ! k = e" by (auto simp: in_set_conv_nth)
  obtain i where i: "i \<le> k" "start_delete_idx st ?index = Inr (Some i)"
    using cut_loop_unrecognized [OF k(1), of tsl_del "s_files_total_size_soft_limit st" fcl_del "s_file_count_soft_limit st" None 0 0]
      k(2) assms(2-5,7) percent_of_le by (auto simp: start_delete_idx_def)
  have "e \<in> set (removed (Some i) ?index)" using k i(1) by (auto simp: removed_def in_set_conv_nth intro!: exI [of _ "k - i"])
  then show ?thesis using that cleanup_eq [OF assms(1) i(2)] by blast
qed

text \<open>Deleting entries changes no file in another way.\<close>

lemma delete_entry_at: "node_at (delete_entry env e fs) q \<in> {None, node_at fs q}"
proof -
  have "node_at (filter (\<lambda>(x, _). take (length p) x \<noteq> p) fs) q = (if take (length p) q = p then None else node_at fs q)"
    for p :: path by (induction fs) auto
  then have "node_at (snd (remove_dir_all env p fs)) q \<in> {None, node_at fs q}" for p by (simp add: remove_dir_all_def)
  moreover have "node_at (snd (remove_file env p fs)) q \<in> {None, node_at fs q}" for p
    by (auto simp: remove_file_def split: option.splits node.splits)
  ultimately show ?thesis by (auto simp: delete_entry_def split: cache_entry.splits bool.splits)
qed

lemma fold_delete_at: "node_at (fold (delete_entry env) es fs) q \<in> {None, node_at fs q}"
proof (induction es arbitrary: fs)
  case (Cons e es)
  have "node_at (fold (delete_entry env) es (delete_entry env e fs)) q \<in> {None, node_at (delete_entry env e fs) q}"
    by (rule Cons.IH)
  then show ?case using delete_entry_at [of env e fs q] by auto
qed simp

lemma fold_delete_gone:
  assumes "Unrecognized p False \<in> set es" "node_at fs p = Some (File b t)" "\<not> io_error env OpRemove p"
  shows "node_at (fold (delete_entry env) es fs) p = None"
proof -
  obtain xs ys where es: "es = xs @ Unrecognized p False # ys" using assms(1) by (auto simp: in_set_conv_decomp)
  have "node_at (delete_entry env (Unrecognized p False) (fold (delete_entry env) xs fs)) p = None"
    using fold_delete_at [of env xs fs p] assms(2,3) by (auto simp: delete_entry_def remove_file_def)
  then show ?thesis using fold_delete_at [of env ys _ p] by (simp add: es) (metis empty_iff insert_iff)
qed

text \<open>A path is found when the directory it is in can be read, and the path in it.\<close>

definition listed :: "fs_env \<Rightarrow> fs \<Rightarrow> path \<Rightarrow> bool" where
  "listed env fs q \<longleftrightarrow> node_at fs q \<noteq> None \<and> \<not> io_error env OpEntry q \<and>
     (case parent q of None \<Rightarrow> False | Some d \<Rightarrow> is_dir fs d \<and> \<not> io_error env OpReadDir d)"

lemma enter_dir_listed:
  assumes "listed env fs (d @ [n])"
  shows "level \<le> 1 \<Longrightarrow> is_dir fs (d @ [n]) \<Longrightarrow> e \<in> set (enter_dir env st fs (d @ [n]) (level + 1)) \<Longrightarrow>
      e \<in> set (enter_dir env st fs d level)"
    and "\<not> is_dir fs (d @ [n]) \<Longrightarrow> \<not> is_cache_file (d @ [n]) \<Longrightarrow> e \<in> set (other_file_entry env st fs (d @ [n])) \<Longrightarrow>
      e \<in> set (enter_dir env st fs d 2)"
proof -
  have par: "parent (d @ [n]) = Some d" using assms by (auto simp: listed_def parent_def split: option.splits if_splits)
  then obtain it where it: "read_dir env fs d = Some it" using assms by (auto simp: listed_def read_dir_def)
  have "d @ [n] \<in> set (map fst fs)" using assms by (force simp: listed_def dest: map_of_SomeD)
  then have "Some (d @ [n]) \<in> set it" using read_dir_lists [OF it _ par] assms by (simp add: listed_def)
  then have "d @ [n] \<in> set (List.map_filter id it)" by (force simp: List.map_filter_def)
  then show "level \<le> 1 \<Longrightarrow> is_dir fs (d @ [n]) \<Longrightarrow> e \<in> set (enter_dir env st fs (d @ [n]) (level + 1)) \<Longrightarrow>
      e \<in> set (enter_dir env st fs d level)"
    "\<not> is_dir fs (d @ [n]) \<Longrightarrow> \<not> is_cache_file (d @ [n]) \<Longrightarrow> e \<in> set (other_file_entry env st fs (d @ [n])) \<Longrightarrow>
      e \<in> set (enter_dir env st fs d 2)"
    by (auto simp: it Let_def enter_dir.simps [of env st fs d])
qed

text \<open>Any file in the third level with the extension of debug information is listed as not recognized.\<close>

lemma debug_file_listed:
  assumes "p = s_directory st @ [x, y, z]" "extension p = Some ''d''" "node_at fs p = Some (File b t)"
    and "\<forall>q. strict_prefix (s_directory st) q \<and> prefix q p \<longrightarrow> listed env fs q"
  shows "Unrecognized p False \<in> set (list_cache_contents env st fs)"
proof -
  let ?d = "s_directory st"
  have l: "listed env fs (?d @ [x])" "listed env fs ((?d @ [x]) @ [y])" "listed env fs ((?d @ [x, y]) @ [z])"
    using assms(4) by (simp_all add: assms(1) strict_prefix_def)
  have d: "is_dir fs (?d @ [x])" "is_dir fs ((?d @ [x]) @ [y])"
    using l(2,3) by (auto simp: listed_def parent_def butlast_append split: if_splits)
  have "Unrecognized p False \<in> set (enter_dir env st fs (?d @ [x, y]) 2)"
    using assms(1-3) by (intro enter_dir_listed(2) [OF l(3)])
      (simp_all add: is_dir_def is_cache_file_def other_file_entry_def)
  then have "Unrecognized p False \<in> set (enter_dir env st fs (?d @ [x]) 1)"
    using enter_dir_listed(1) [OF l(2) _ d(2), of 1] by (simp add: numeral_2_eq_2)
  then show ?thesis
    using enter_dir_listed(1) [OF l(1) _ d(1), of 0] by (simp add: list_cache_contents_def)
qed

lemma entry_in_directory:
  assumes "cache_entry_inner_new build cfg m bodies triple compiler_name debug = Inr p" "settings_of cfg = Inr st"
  shows "p = s_directory st @ [triple, compiler_dir build compiler_name, mod_filename build m bodies debug]"
  using assms by (auto simp: cache_entry_inner_new_def settings_of_def)

text \<open>C33. The worker does not know the entries of modules compiled with debug information: a clean-up that
  finds and can remove such a file deletes it, whatever the limits are and however young the file is.\<close>

theorem debug_entries_deleted:
  assumes "cache_entry_inner_new build cfg m bodies triple compiler_name True = Inr p" "settings_of cfg = Inr st"
    and "node_at fs p = Some (File b t)" "\<not> io_error env OpRemove p"
    and "\<forall>q. strict_prefix (s_directory st) q \<and> prefix q p \<longrightarrow> listed env fs q"
    and "(now env + s_future_drift st) div 10 ^ 9 < 2 ^ 63"
    and "s_files_total_size_limit_percent st \<le> 100" "s_file_count_limit_percent st \<le> 100"
    and "percent_of (s_files_total_size_soft_limit st) (s_files_total_size_limit_percent st) = Inr tsl_del"
    and "percent_of (s_file_count_soft_limit st) (s_file_count_limit_percent st) = Inr fcl_del"
  shows "\<exists>fs'. cleanup env st fs = (Inr (), fs') \<and> node_at fs' p = None"
proof -
  obtain n where "extension p = Some ''d''" by (rule debug_name [OF assms(1)])
  then have "Unrecognized p False \<in> set (list_cache_contents env st fs)"
    using debug_file_listed [OF entry_in_directory [OF assms(1,2)] _ assms(3,5)] by blast
  then obtain ds where ds: "cleanup env st fs = (Inr (), fold (delete_entry env) ds fs)" "Unrecognized p False \<in> set ds"
    by (rule cleanup_deletes_unrecognized [OF assms(6-10)]) simp
  then show ?thesis using fold_delete_gone [OF ds(2) assms(3,4)] by blast
qed

definition sample_config :: cache_config where
  "sample_config = new_cache_enabled_template
     \<lparr>directory := Some [''/'', ''cache''], baseline_compression_level := Some 3, optimized_compression_level := Some 20,
      optimized_compression_usage_counter_threshold := Some 1, cleanup_interval := Some 3600,
      optimizing_compression_task_timeout := Some 1800, allowed_clock_drift_for_files_from_future := Some 86400,
      file_count_soft_limit := Some 10, files_total_size_soft_limit := Some 10,
      file_count_limit_percent_if_deleting := Some 70, files_total_size_limit_percent_if_deleting := Some 70\<rparr>"

lemma sample_config_settings: "settings_of sample_config = Inr (sample_settings\<lparr>s_usage_counter_threshold := 1\<rparr>)"
  by (simp add: settings_of_def get_setting_def unwrap_res_def sample_config_def new_cache_enabled_template_def sample_settings_def)

text \<open>A cache with one module, which has debug information and fits the limits.\<close>

definition debug_cache :: fs where
  "debug_cache =
     [([''/''], Dir), ([''/'', ''cache''], Dir), ([''/'', ''cache'', ''t''], Dir), ([''/'', ''cache'', ''t'', ''c-r''], Dir),
      ([''/'', ''cache'', ''t'', ''c-r'', ''mod-h.d''], File ''code'' 7)]"

lemma debug_entry:
  "cache_entry_inner_new sample_build sample_config module_new [] ''t'' ''c'' True = Inr [''/'', ''cache'', ''t'', ''c-r'', ''mod-h.d'']"
  by (simp add: cache_entry_inner_new_def new_cache_enabled_template_def get_setting_def
      unwrap_res_def mod_filename_def compiler_dir_def sample_build_def sample_config_def)

theorem debug_entries_deleted_witness:
  "\<exists>fs'. cleanup (sample_fs_env\<lparr>io_error := (\<lambda>_ _. False)\<rparr>) (sample_settings\<lparr>s_usage_counter_threshold := 1\<rparr>) debug_cache = (Inr (), fs') \<and>
     node_at debug_cache [''/'', ''cache'', ''t'', ''c-r'', ''mod-h.d''] = Some (File ''code'' 7) \<and>
     node_at fs' [''/'', ''cache'', ''t'', ''c-r'', ''mod-h.d''] = None"
proof -
  let ?env = "sample_fs_env\<lparr>io_error := (\<lambda>_ _. False)\<rparr>" and ?p = "[''/'', ''cache'', ''t'', ''c-r'', ''mod-h.d'']"
  have l: "\<forall>q. strict_prefix [''/'', ''cache''] q \<and> prefix q ?p \<longrightarrow> listed ?env debug_cache q"
    by (auto simp: prefix_Cons strict_prefix_def listed_def parent_def is_dir_def debug_cache_def)
  have p: "percent_of 10 70 = Inr 7" by (simp add: percent_of_def checked_mul_def unwrap_res_def)
  have "node_at debug_cache ?p = Some (File ''code'' 7)" by (simp add: debug_cache_def)
  then show ?thesis
    using debug_entries_deleted [OF debug_entry sample_config_settings, of debug_cache "''code''" 7 ?env 7 7] l p
    by (simp add: sample_settings_def sample_fs_env_def)
qed

text \<open>C34. Once an entry with debug information has been used often enough to be recompressed, the worker panics
  on its next use, after it has written the new statistics.\<close>

theorem debug_entry_use_panics:
  assumes "cache_entry_inner_new build cfg m bodies triple compiler_name True = Inr p"
    and "stats = load_stats env toml st (suffixed p ''stats'') fs"
    and "write_stats_file env toml (suffixed p ''stats'') (stats\<lparr>usages := usages stats + 1\<rparr>) fs = (True, fs')"
    and "compression_level stats < s_optimized_compression_level st" "s_usage_counter_threshold st \<le> usages stats + 1"
  shows "handle_on_cache_get env lib toml st p fs =
    (Inl (Panic ''assertion failed: task_path.extension().is_none()''), fs')"
proof -
  obtain n where n: "file_name p = Some n" "extension p = Some ''d''" by (rule debug_name [OF assms(1)])
  obtain sp where sp: "stats_path_of ''unwrap'' p = Inr sp" using n(1) by (simp add: stats_path_of_def unwrap_res_def)
  then have "sp = suffixed p ''stats''" by (rule stats_path_suffixed)
  then show ?thesis
    using sp n(2) assms(2-5) by (simp add: handle_on_cache_get_def acquire_task_fs_lock_def assert_res_def)
qed

theorem debug_entry_use_panics_witness:
  "\<exists>fs'. handle_on_cache_get (sample_fs_env\<lparr>io_error := (\<lambda>_ _. False)\<rparr>) sample_codec sample_toml
       (sample_settings\<lparr>s_usage_counter_threshold := 1\<rparr>) [''/'', ''cache'', ''t'', ''c-r'', ''mod-h.d''] debug_cache =
       (Inl (Panic ''assertion failed: task_path.extension().is_none()''), fs') \<and>
     node_at fs' [''/'', ''cache'', ''t'', ''c-r'', ''mod-h.d.stats''] = Some (File ''x'' 7)"
proof -
  let ?env = "sample_fs_env\<lparr>io_error := (\<lambda>_ _. False)\<rparr>" and ?p = "[''/'', ''cache'', ''t'', ''c-r'', ''mod-h.d'']"
  let ?st = "sample_settings\<lparr>s_usage_counter_threshold := 1\<rparr>" and ?sp = "suffixed [''/'', ''cache'', ''t'', ''c-r'', ''mod-h.d''] ''stats''"
  define stats where "stats = load_stats ?env sample_toml ?st ?sp debug_cache"
  have s: "stats = \<lparr>usages = 0, compression_level = 3\<rparr>"
    by (simp add: stats_def load_stats_def read_stats_file_def fs_read_def suffixed_def debug_cache_def statistics_default_def
        sample_settings_def)
  have sp: "?sp = [''/'', ''cache'', ''t'', ''c-r'', ''mod-h.d.stats'']" by (simp add: suffixed_def)
  have lock: "with_extension [''/'', ''cache'', ''t'', ''c-r'', ''mod-h.d.stats''] ''wip-atomic-write-stats'' =
      [''/'', ''cache'', ''t'', ''c-r'', ''mod-h.d.wip-atomic-write-stats'']" by code_simp
  obtain fs' where w: "write_stats_file ?env sample_toml ?sp (stats\<lparr>usages := usages stats + 1\<rparr>) debug_cache = (True, fs')"
    "node_at fs' ?sp = Some (File ''x'' 7)"
    unfolding sp s
    by (simp add: write_stats_file_def sample_toml_def fs_write_atomic_def lock create_new_def write_all_def fs_rename_def
        parent_def is_dir_def debug_cache_def sample_fs_env_def Let_def)
  show ?thesis
    using debug_entry_use_panics [OF debug_entry stats_def w(1), where lib = sample_codec] w(2) unfolding sp
    by (simp add: s sample_settings_def)
qed

text \<open>A size limit that passes the validation can make every clean-up panic: the limit times the
  percentage has to fit into 64 bits.\<close>

theorem large_limit_panics:
  assumes "2 ^ 64 \<le> unat (s_files_total_size_soft_limit st) * unat (s_files_total_size_limit_percent st)"
    and "(now env + s_future_drift st) div 10 ^ 9 < 2 ^ 63"
  shows "cleanup env st fs = (Inl (Panic ''unwrap''), fs)"
proof -
  have "unat (ucast (s_files_total_size_limit_percent st) :: u64) = unat (s_files_total_size_limit_percent st)"
    by (simp add: unat_ucast_le order_less_trans [OF unsigned_less])
  then have "checked_mul (s_files_total_size_soft_limit st) (ucast (s_files_total_size_limit_percent st)) = None"
    using assms(1) by (simp add: checked_mul_None)
  then show ?thesis
    using assms(2) by (simp add: cleanup_def time_checked_add_def start_delete_idx_def percent_of_def unwrap_res_def Let_def)
qed

theorem large_limit_panics_witness:
  "cleanup sample_fs_env (sample_settings\<lparr>s_files_total_size_soft_limit := 18446744073709551615\<rparr>) sample_fs =
     (Inl (Panic ''unwrap''), sample_fs)"
  by (rule large_limit_panics) (simp_all add: sample_settings_def sample_fs_env_def)

end
