(* ===== verification/Cache_Confined.thy ===== *)
theory Cache_Confined
  imports Cache_Worker_Sound
begin

text \<open>
  The worker stays inside the directory of the cache: whatever it lists, writes or deletes lies below
  the configured directory. The file system has no symbolic links: the code follows a link to a
  directory that it finds in the cache, and then lists and deletes what is behind it.
\<close>

named_theorems confined

definition same_outside :: "path \<Rightarrow> fs \<Rightarrow> fs \<Rightarrow> bool" where
  "same_outside d fs fs' \<longleftrightarrow> (\<forall>q. \<not> prefix d q \<longrightarrow> node_at fs' q = node_at fs q)"

lemma same_outside_refl [simp]: "same_outside d fs fs"
  by (simp add: same_outside_def)

lemma same_outside_trans: "same_outside d fs fs' \<Longrightarrow> same_outside d fs' fs'' \<Longrightarrow> same_outside d fs fs''"
  by (simp add: same_outside_def)

section \<open>Operations on one path\<close>

lemma set_outside [confined]: "prefix d p \<Longrightarrow> same_outside d fs (fs_set p n fs)"
  and remove_outside [confined]: "prefix d p \<Longrightarrow> same_outside d fs (fs_remove p fs)"
  by (auto simp: same_outside_def)

lemma create_new_outside [confined]: "prefix d p \<Longrightarrow> same_outside d fs (snd (create_new env p fs))"
  by (simp add: create_new_def set_outside)

lemma write_all_outside [confined]: "prefix d p \<Longrightarrow> same_outside d fs (snd (write_all env p contents fs))"
  by (simp add: write_all_def set_outside)

lemma rename_outside [confined]: "prefix d a \<Longrightarrow> prefix d b \<Longrightarrow> same_outside d fs (snd (fs_rename env a b fs))"
  by (auto simp: fs_rename_def same_outside_def split: option.splits)

lemma remove_file_outside [confined]: "prefix d p \<Longrightarrow> same_outside d fs (snd (remove_file env p fs))"
  by (auto simp: remove_file_def remove_outside split: option.splits node.splits)

lemma remove_dir_all_outside [confined]:
  assumes "prefix d p"
  shows "same_outside d fs (snd (remove_dir_all env p fs))"
proof -
  have "node_at (filter (\<lambda>(q, _). take (length p) q \<noteq> p) fs) q = node_at fs q" if "\<not> prefix d q" for q
  proof -
    have "take (length p) q \<noteq> p" using that assms prefix_order.trans [of d p q] by (metis take_is_prefix)
    then show ?thesis by (induction fs) auto
  qed
  then show ?thesis by (simp add: remove_dir_all_def same_outside_def)
qed

section \<open>Files beside an entry\<close>

lemma strict_prefix_butlast: "strict_prefix d p \<Longrightarrow> prefix d (butlast p)"
  by (cases p rule: rev_cases) (auto simp: strict_prefix_def)

lemma with_file_name_under: "strict_prefix d p \<Longrightarrow> strict_prefix d (with_file_name p n)"
  using strict_prefix_butlast [of d p] by (auto simp: with_file_name_def strict_prefix_def prefix_def)

lemma with_extension_under: "strict_prefix d p \<Longrightarrow> strict_prefix d (with_extension p ext)"
  by (simp add: with_extension_def with_file_name_under split: option.splits)

lemma write_atomic_outside [confined]:
  assumes "strict_prefix d p"
  shows "same_outside d fs (snd (fs_write_atomic env p reason contents fs))"
proof -
  obtain ok fs' where w: "fs_write_atomic env p reason contents fs = (ok, fs')" by fastforce
  have "prefix d p" "prefix d (atomic_lock p reason)" using assms with_extension_under by (auto simp: strict_prefix_def)
  then show ?thesis using write_atomic_cases(4) [OF w] w by (auto simp: same_outside_def)
qed

lemma write_stats_outside [confined]:
  "strict_prefix d p \<Longrightarrow> same_outside d fs (snd (write_stats_file env toml p stats fs))"
  by (simp add: write_stats_file_def confined split: option.splits)

lemma acquire_outside:
  assumes "acquire_task_fs_lock env task timeout drift fs = (r, fs')" "strict_prefix d task"
  shows "same_outside d fs fs' \<and> (\<forall>l. r = Inr (Some l) \<longrightarrow> strict_prefix d l)"
  using assms create_new_outside [of d "with_extension task (''wip-'' @ dec (pid env))" fs env]
    with_extension_under [of d task "''wip-'' @ dec (pid env)"]
  by (auto simp: acquire_task_fs_lock_def assert_res_def Let_def strict_prefix_def split: option.splits prod.splits if_splits)

lemma recompress_outside:
  assumes "prefix d p" "prefix d lock" "strict_prefix d sp"
  shows "same_outside d fs (recompress env lib toml lvl p lock sp fs)"
proof -
  have w: "same_outside d fs (snd (write_all env lock b fs))" for b using assms by (simp add: confined)
  have r: "same_outside d fs (snd (fs_rename env lock p fs))" for fs using assms by (simp add: confined)
  have m: "same_outside d fs (snd (remove_file env lock fs))" for fs using assms by (simp add: confined)
  have s: "same_outside d fs (snd (write_stats_file env toml sp st fs))" for st fs using assms by (simp add: confined)
  show ?thesis
    using w r m s
    by (auto simp: recompress_def split: option.splits prod.splits bool.splits) (metis same_outside_trans snd_conv)+
qed

section \<open>What the clean-up lists\<close>

fun entry_path :: "cache_entry \<Rightarrow> path" where
  "entry_path (Recognized p _ _) = p"
| "entry_path (Unrecognized p _) = p"

lemma read_dir_below:
  assumes "read_dir env fs d = Some it" "Some q \<in> set it"
  shows "strict_prefix d q"
proof -
  have "parent q = Some d" using assms by (auto simp: read_dir_def split: if_splits)
  then show ?thesis by (cases q rule: rev_cases) (auto simp: parent_def strict_prefix_def split: if_splits)
qed

lemma cache_file_entry_below:
  assumes "e \<in> set (cache_file_entry env fs files p)" "strict_prefix d p"
  shows "prefix d (entry_path e)"
  using assms with_extension_under [of d p "''stats''"]
  by (auto simp: cache_file_entry_def strict_prefix_def Let_def split: option.splits if_splits)

lemma enter_dir_below: "e \<in> set (enter_dir env st fs dir level) \<Longrightarrow> prefix dir (entry_path e)"
proof (induction env st fs dir level rule: enter_dir.induct)
  case (1 env st fs dir level)
  show ?case
  proof (cases "read_dir env fs dir")
    case None
    then show ?thesis using "1.prems" by (simp add: enter_dir.simps [of env st fs dir])
  next
    case (Some it)
    let ?files = "filter (\<lambda>p. level = 2 \<and> \<not> is_dir fs p \<and> is_cache_file p) (List.map_filter id it)"
    have below: "strict_prefix dir p" if "p \<in> set (List.map_filter id it)" for p
      using that read_dir_below [OF Some] by (auto simp: List.map_filter_def)
    consider p where "p \<in> set (List.map_filter id it)" "level \<le> 1" "is_dir fs p" "e \<in> set (enter_dir env st fs p (level + 1))"
      | p where "p \<in> set (List.map_filter id it)" "e = Unrecognized p (is_dir fs p)"
      | p where "p \<in> set (List.map_filter id it)" "e \<in> set (upper_file_entry env st fs level p) \<union> set (other_file_entry env st fs p)"
      | p where "p \<in> set (List.map_filter id it)" "e \<in> set (cache_file_entry env fs ?files p)"
      using "1.prems" Some by (auto simp: enter_dir.simps [of env st fs dir] Let_def split: if_splits)
    then show ?thesis
    proof cases
      case 1
      then have "prefix p (entry_path e)" using "1.IH" [OF Some refl refl] by blast
      then show ?thesis using below [OF 1(1)] prefix_order.less_imp_le prefix_order.trans by blast
    next
      case 4
      then show ?thesis using cache_file_entry_below below by blast
    qed (use below in \<open>auto simp: upper_file_entry_def other_file_entry_def strict_prefix_def split: option.splits if_splits\<close>)
  qed
qed

lemma delete_outside [confined]: "prefix d (entry_path e) \<Longrightarrow> same_outside d fs (delete_entry env e fs)"
  by (cases e) (auto simp: delete_entry_def confined split: bool.splits)

lemma fold_delete_outside:
  "\<forall>e \<in> set es. prefix d (entry_path e) \<Longrightarrow> same_outside d fs (fold (delete_entry env) es fs)"
  by (induction es arbitrary: fs) (simp_all, blast intro: same_outside_trans delete_outside)

lemma cleanup_outside:
  assumes "cleanup env st fs = (r, fs')"
  shows "same_outside (s_directory st) fs fs'"
proof -
  have "fs' = fs \<or> (\<exists>tol idx. fs' = delete_from env idx (sort_unstable_by (entry_cmp tol) (list_cache_contents env st fs)) fs)"
    using assms
    by (cases "time_checked_add (now env) (s_future_drift st)";
        cases "start_delete_idx st (sort_unstable_by (entry_cmp (the (time_checked_add (now env) (s_future_drift st)))) (list_cache_contents env st fs))")
      (auto simp: cleanup_def unwrap_res_def Let_def)
  then consider "fs' = fs" | tol idx where
      "fs' = delete_from env idx (sort_unstable_by (entry_cmp tol) (list_cache_contents env st fs)) fs" by blast
  then show ?thesis
  proof cases
    case 2
    have "prefix (s_directory st) (entry_path e)" if "e \<in> set (sort_unstable_by (entry_cmp tol) (list_cache_contents env st fs))" for e
      using that mset_eq_setD [OF age.mset_sort] enter_dir_below by (auto simp: list_cache_contents_def)
    then show ?thesis
      unfolding 2 delete_from_def by (auto intro!: fold_delete_outside dest: in_set_dropD split: option.splits)
  qed simp
qed

section \<open>Events\<close>

lemma stats_path_under: "stats_path_of msg p = Inr sp \<Longrightarrow> strict_prefix d p \<Longrightarrow> strict_prefix d sp"
  by (auto simp: stats_path_of_def with_file_name_under)

lemma stats_written_outside:
  assumes "stats_path_of msg p = Inr sp" "strict_prefix d p" "write_stats_file env toml sp stats fs = (ok, fs')"
  shows "same_outside d fs fs'"
  using write_stats_outside [OF stats_path_under [OF assms(1,2)], of fs env toml stats] assms(3) by simp

lemma get_event_outside:
  assumes "handle_on_cache_get env lib toml st p fs = (r, fs')" "strict_prefix d p"
  shows "same_outside d fs fs'"
  using assms(1)
proof (cases rule: get_event_cases)
  case (recompress sp stats ok fs1 lock fs2)
  have l: "same_outside d fs1 fs2" "strict_prefix d lock" using acquire_outside [OF recompress(3) assms(2)] by simp_all
  have "same_outside d fs2 fs'"
    using recompress_outside [of d p lock sp] assms(2) l(2) stats_path_under [OF recompress(1) assms(2)] recompress(4)
    by (simp add: strict_prefix_def)
  then show ?thesis using stats_written_outside [OF recompress(1) assms(2) recompress(2)] l(1) by (blast intro: same_outside_trans)
qed (use stats_written_outside [OF _ assms(2)] in auto)

lemma update_event_outside:
  assumes "handle_on_cache_update env toml st p fs = (r, fs')" "strict_prefix (s_directory st) p"
  shows "same_outside (s_directory st) fs fs'"
proof (cases "stats_path_of ''Expected valid cache file name'' p")
  case (Inl e)
  then show ?thesis using assms(1) by (simp add: handle_on_cache_update_def)
next
  case (Inr sp)
  let ?d = "s_directory st"
  let ?stats = "statistics_default st\<lparr>usages := usages (statistics_default st) + 1\<rparr>"
  obtain ok fs1 where w: "write_stats_file env toml sp ?stats fs = (ok, fs1)" by fastforce
  obtain l fs2 where
      a: "acquire_task_fs_lock env (?d @ [''.cleanup'']) (s_cleanup_interval st) (s_future_drift st) fs1 = (l, fs2)" by fastforce
  have f: "fs' = fs2 \<or> cleanup env st fs2 = (r, fs')"
    using assms(1) Inr w a by (cases l) (auto simp: handle_on_cache_update_def Let_def split: if_splits)
  have "same_outside ?d fs1 fs2" using acquire_outside [OF a, of ?d] by (simp add: strict_prefix_def)
  then show ?thesis
    using stats_written_outside [OF Inr assms(2) w] f cleanup_outside [of env st fs2 r fs'] by (auto intro: same_outside_trans)
qed

text \<open>The events that the entries of a configuration send.\<close>

definition entry_of :: "cache_config \<Rightarrow> path \<Rightarrow> bool" where
  "entry_of cfg p \<longleftrightarrow> (\<exists>build m bodies triple compiler_name generate_debug_info.
     cache_entry_inner_new build cfg m bodies triple compiler_name generate_debug_info = Inr p)"

fun event_path :: "cache_event \<Rightarrow> path" where
  "event_path (OnCacheGet p) = p"
| "event_path (OnCacheUpdate p) = p"

lemma entry_below:
  assumes "entry_of cfg p" "settings_of cfg = Inr st"
  shows "strict_prefix (s_directory st) p"
proof -
  obtain dir where "get_setting directory cfg = Inr dir" "strict_prefix dir p"
    using assms(1) by (auto simp: entry_of_def cache_entry_inner_new_def strict_prefix_def)
  then show ?thesis using assms(2) by (auto simp: settings_of_def)
qed

lemma step_outside:
  "worker_step env lib toml st event fs = (r, fs') \<Longrightarrow> strict_prefix (s_directory st) (event_path event) \<Longrightarrow>
     same_outside (s_directory st) fs fs'"
  by (cases event) (auto simp: worker_step_def dest: get_event_outside update_event_outside)

lemma run_outside:
  "worker_run lib toml st events fs = (r, fs') \<Longrightarrow>
     \<forall>(env, event) \<in> set events. strict_prefix (s_directory st) (event_path event) \<Longrightarrow> same_outside (s_directory st) fs fs'"
proof (induction events arbitrary: fs)
  case (Cons e events)
  obtain env event where e: "e = (env, event)" by fastforce
  obtain s fs1 where s: "worker_step env lib toml st event fs = (s, fs1)" by fastforce
  have "same_outside (s_directory st) fs fs1" using step_outside [OF s] Cons.prems(2) e by simp
  then show ?case using Cons.IH [of fs1] Cons.prems s e by (cases s) (auto intro: same_outside_trans)
qed simp

text \<open>C30. On a file system without symbolic links, the worker stays inside its directory: handling any
  sequence of events of cache entries, with the recompressions and clean-ups they lead to, whichever
  operations fail and whether or not an event ends the worker with a panic, leaves every path that is
  not below the configured directory as it was.\<close>

theorem worker_confined:
  assumes "settings_of cfg = Inr st" "\<forall>(env, event) \<in> set events. entry_of cfg (event_path event)"
    and "worker_run lib toml st events fs = (r, fs')" "\<not> prefix (s_directory st) q"
  shows "node_at fs' q = node_at fs q"
proof -
  have "\<forall>(env, event) \<in> set events. strict_prefix (s_directory st) (event_path event)"
    using assms(2) entry_below [OF _ assms(1)] by auto
  then show ?thesis using run_outside [OF assms(3)] assms(4) by (simp add: same_outside_def)
qed

text \<open>A module that is recompressed when it is used for the first time, one with debug information, which makes
  the worker panic after it has written the statistics, and a file outside the cache.\<close>

definition sample_used :: fs where
  "sample_used =
     ([''/'', ''home''], File ''text'' 1) # ([''/'', ''cache'', ''t'', ''c-r'', ''mod-h''], File ''code'' 1) # sample_cache"

theorem worker_confined_witness:
  "\<exists>fs'. worker_run sample_codec sample_toml (sample_settings\<lparr>s_usage_counter_threshold := 1\<rparr>)
       [(sample_fs_env\<lparr>io_error := (\<lambda>_ _. False)\<rparr>, OnCacheGet [''/'', ''cache'', ''t'', ''c-r'', ''mod-h'']),
        (sample_fs_env\<lparr>io_error := (\<lambda>_ _. False)\<rparr>, OnCacheGet [''/'', ''cache'', ''t'', ''c-r'', ''mod-h.d''])] sample_used =
       (Inl (Panic ''assertion failed: task_path.extension().is_none()''), fs') \<and>
     node_at fs' [''/'', ''cache'', ''t'', ''c-r'', ''mod-h''] = Some (File ''code'' 7) \<and>
     node_at fs' [''/'', ''cache'', ''t'', ''c-r'', ''mod-h.d.stats''] = Some (File ''x'' 7) \<and>
     node_at fs' [''/'', ''home''] = Some (File ''text'' 1)"
proof -
  let ?p = "[''/'', ''cache'', ''t'', ''c-r'', ''mod-h'']" and ?env = "sample_fs_env\<lparr>io_error := (\<lambda>_ _. False)\<rparr>"
  let ?q = "[''/'', ''cache'', ''t'', ''c-r'', ''mod-h.d'']" and ?st = "sample_settings\<lparr>s_usage_counter_threshold := 1\<rparr>"
  let ?r = "worker_run sample_codec sample_toml ?st [(?env, OnCacheGet ?p), (?env, OnCacheGet ?q)] sample_used"
  have "cache_entry_inner_new sample_build sample_config module_new [] ''t'' ''c'' False = Inr ?p"
    by (simp add: cache_entry_inner_new_def new_cache_enabled_template_def get_setting_def
        unwrap_res_def mod_filename_def compiler_dir_def sample_build_def sample_config_def)
  then have e: "entry_of sample_config ?p" "entry_of sample_config ?q"
    using debug_entry unfolding entry_of_def by blast+
  have r: "fst ?r = Inl (Panic ''assertion failed: task_path.extension().is_none()'')"
    "node_at (snd ?r) ?p = Some (File ''code'' 7)"
    "node_at (snd ?r) [''/'', ''cache'', ''t'', ''c-r'', ''mod-h.d.stats''] = Some (File ''x'' 7)" by code_simp+
  obtain res fs' where fs': "?r = (res, fs')" by fastforce
  have "node_at fs' [''/'', ''home''] = node_at sample_used [''/'', ''home'']"
    by (rule worker_confined [OF sample_config_settings _ fs']) (simp_all add: sample_settings_def e)
  then show ?thesis using r fs' by (auto simp: sample_used_def)
qed

end
