(* ===== verification/Address_Transform.thy ===== *)
theory Address_Transform
  imports Prelude
begin

text \<open>
  The map from offsets in the code section of a module to addresses in the generated code
  (\<^verbatim>\<open>wasmtime-debug/src/transform/address_transform.rs\<close>), over the address maps that the compiler
  leaves (\<^verbatim>\<open>wasmtime-environ/src/address_map.rs\<close>).

  A source location is its 32 bits; which one is the default belongs to the compiler library and is an
  argument \<open>is_default\<close>. A \<^verbatim>\<open>BTreeMap\<close> is a list sorted by distinct keys, a \<^verbatim>\<open>HashMap\<close> the list of its
  entries: where the code goes through one, in an order that is not specified, the definitions take
  the order of the list.
\<close>

section \<open>Ordered maps and binary search\<close>

fun btree_insert :: "'k::linorder \<Rightarrow> 'v \<Rightarrow> ('k \<times> 'v) list \<Rightarrow> ('k \<times> 'v) list" where
  "btree_insert k v [] = [(k, v)]"
| "btree_insert k v ((k', v') # kvs) =
     (if k < k' then (k, v) # (k', v') # kvs
      else if k = k' then (k, v) # kvs
      else (k', v') # btree_insert k v kvs)"

datatype search_result = Found nat | Missing nat

text \<open>\<^verbatim>\<open>binary_search_by\<close> of slices.\<close>

function search_base :: "('a \<Rightarrow> 'k::linorder) \<Rightarrow> 'a list \<Rightarrow> 'k \<Rightarrow> nat \<Rightarrow> nat \<Rightarrow> nat" where
  "search_base key xs a base len =
     (if len \<le> 1 then base
      else let half = len div 2; mid = base + half
           in search_base key xs a (if a < key (xs ! mid) then base else mid) (len - half))"
  by pat_completeness auto
termination by (relation "measure (\<lambda>(_, _, _, _, len). len)") auto

declare search_base.simps [simp del]

definition binary_search :: "('a \<Rightarrow> 'k::linorder) \<Rightarrow> 'a list \<Rightarrow> 'k \<Rightarrow> search_result" where
  "binary_search key xs a =
     (if xs = [] then Missing 0
      else let base = search_base key xs a 0 (length xs)
           in if key (xs ! base) = a then Found base
              else Missing (if key (xs ! base) < a then base + 1 else base))"

section \<open>Address maps of the compiler\<close>

record instruction_address_map =
  srcloc :: u32
  code_offset :: usize
  code_len :: usize

record function_address_map =
  instructions :: "instruction_address_map list"
  start_srcloc :: u32
  end_srcloc :: u32
  body_offset :: usize
  body_len :: usize

section \<open>Data of the transform\<close>

record address_map =
  generated :: usize
  am_wasm :: u64

record function_map =
  fm_offset :: usize
  fm_len :: usize
  fm_wasm_start :: u64
  fm_wasm_end :: u64
  fm_addresses :: "address_map list"

record position =
  wasm_pos :: u64
  pos_gen_start :: usize
  pos_gen_end :: usize

record code_range =
  wasm_start :: u64
  wasm_end :: u64
  gen_start :: usize
  gen_end :: usize
  positions :: "position list"

record func_lookup =
  lk_index :: "(u64 \<times> nat list) list"
  lk_ranges :: "code_range list"

record func_transform =
  ft_start :: u64
  ft_end :: u64
  ft_index :: nat
  ft_lookup :: func_lookup

record address_transform =
  at_map :: "function_map list"
  at_func :: "(u64 \<times> func_transform) list"

definition get_wasm_code_offset :: "u32 \<Rightarrow> u64 \<Rightarrow> u64" where
  "get_wasm_code_offset loc code_section_offset = ucast (loc - ucast code_section_offset)"

section \<open>Ranges of a function\<close>

text \<open>The variables of the loop over the instructions.\<close>

record range_builder =
  range_wasm_start :: u64
  range_gen_start :: usize
  last_wasm_pos :: u64
  built_ranges :: "code_range list"
  ranges_index :: "(u64 \<times> nat) list"
  current_range :: "position list"

definition push_range :: "u64 \<Rightarrow> usize \<Rightarrow> range_builder \<Rightarrow> range_builder" where
  "push_range w_end g_end b =
     b\<lparr>ranges_index := btree_insert (range_wasm_start b) (length (built_ranges b)) (ranges_index b),
       built_ranges := built_ranges b @
         [\<lparr>wasm_start = range_wasm_start b, wasm_end = w_end, gen_start = range_gen_start b, gen_end = g_end,
           positions = current_range b\<rparr>]\<rparr>"

definition lookup_step ::
  "(u32 \<Rightarrow> bool) \<Rightarrow> u64 \<Rightarrow> u64 \<Rightarrow> u64 \<Rightarrow> instruction_address_map \<Rightarrow> range_builder \<Rightarrow> range_builder res" where
  "lookup_step is_default code_section_offset fn_start fn_end t b =
     (if is_default (srcloc t) then Inr b
      else
        let offset = get_wasm_code_offset (srcloc t) code_section_offset in
        bind_res (assert_res (fn_start \<le> offset \<and> offset \<le> fn_end) ''assertion failed: fn_start <= offset && offset <= fn_end'') (\<lambda>_.
        let inst_gen_start = code_offset t;
            inst_gen_end = code_offset t + code_len t;
            b = (if last_wasm_pos b > offset
                 then (push_range (last_wasm_pos b) inst_gen_start b)
                   \<lparr>range_wasm_start := offset, range_gen_start := inst_gen_start, current_range := []\<rparr>
                 else b)
        in Inr (b\<lparr>current_range := current_range b @
                    [\<lparr>wasm_pos = offset, pos_gen_start = inst_gen_start, pos_gen_end = inst_gen_end\<rparr>],
                  last_wasm_pos := offset\<rparr>)))"

text \<open>One step of the second loop, over the starts of the ranges.\<close>

definition index_step ::
  "code_range list \<Rightarrow> u64 \<times> nat \<Rightarrow> nat list \<times> (u64 \<times> nat list) list \<times> u64 option \<Rightarrow>
     nat list \<times> (u64 \<times> nat list) list \<times> u64 option" where
  "index_step ranges entry state =
     (case entry of (start, range_index) \<Rightarrow>
      case state of (active_ranges, index, last_pos) \<Rightarrow>
        if Some start = last_pos then (active_ranges @ [range_index], index, last_pos)
        else
          let index = (case last_pos of Some l \<Rightarrow> btree_insert l active_ranges index | None \<Rightarrow> index);
              active_ranges = filter (\<lambda>r. \<not> wasm_end (ranges ! r) < start) active_ranges
          in (active_ranges @ [range_index], index, Some start))"

definition build_index :: "code_range list \<Rightarrow> (u64 \<times> nat) list \<Rightarrow> (u64 \<times> nat list) list res" where
  "build_index ranges starts =
     (case fold (index_step ranges) starts ([], [], None) of (active_ranges, index, last_pos) \<Rightarrow>
        bind_res (unwrap_res last_pos ''unwrap'') (\<lambda>l. Inr (btree_insert l active_ranges index)))"

definition build_function_lookup ::
  "(u32 \<Rightarrow> bool) \<Rightarrow> function_address_map \<Rightarrow> u64 \<Rightarrow> (u64 \<times> u64 \<times> func_lookup) res" where
  "build_function_lookup is_default ft code_section_offset =
     bind_res (assert_res (code_section_offset \<le> ucast (start_srcloc ft)) ''assertion failed: code_section_offset <= ft.start_srcloc.bits() as u64'') (\<lambda>_.
     let fn_start = get_wasm_code_offset (start_srcloc ft) code_section_offset;
         fn_end = get_wasm_code_offset (end_srcloc ft) code_section_offset in
     bind_res (assert_res (fn_start \<le> fn_end) ''assertion failed: fn_start <= fn_end'') (\<lambda>_.
     bind_res (fold_res (lookup_step is_default code_section_offset fn_start fn_end) (instructions ft)
       \<lparr>range_wasm_start = fn_start, range_gen_start = body_offset ft, last_wasm_pos = fn_start,
        built_ranges = [], ranges_index = [], current_range = []\<rparr>) (\<lambda>b.
     let b = push_range fn_end (body_offset ft + body_len ft) b in
     bind_res (build_index (built_ranges b) (ranges_index b)) (\<lambda>index.
     Inr (fn_start, fn_end, \<lparr>lk_index = index, lk_ranges = built_ranges b\<rparr>)))))"

definition build_function_addr_map ::
  "(u32 \<Rightarrow> bool) \<Rightarrow> function_address_map list \<Rightarrow> u64 \<Rightarrow> function_map list" where
  "build_function_addr_map is_default at code_section_offset =
     map (\<lambda>ft.
       \<lparr>fm_offset = body_offset ft, fm_len = body_len ft,
        fm_wasm_start = get_wasm_code_offset (start_srcloc ft) code_section_offset,
        fm_wasm_end = get_wasm_code_offset (end_srcloc ft) code_section_offset,
        fm_addresses =
          map (\<lambda>t. \<lparr>generated = code_offset t, am_wasm = get_wasm_code_offset (srcloc t) code_section_offset\<rparr>)
            (filter (\<lambda>t. \<not> is_default (srcloc t)) (instructions ft))\<rparr>) at"

section \<open>Iterators over the ranges at an address\<close>

definition range_indices :: "func_transform \<Rightarrow> u64 \<Rightarrow> nat list res" where
  "range_indices func addr =
     (case binary_search fst (lk_index (ft_lookup func)) addr of
        Found i \<Rightarrow> Inr (snd (lk_index (ft_lookup func) ! i))
      | Missing i \<Rightarrow>
          if i > 0 then Inr (snd (lk_index (ft_lookup func) ! (i - 1)))
          else Inl (Panic ''internal error: entered unreachable code''))"

definition start_address :: "u64 \<Rightarrow> code_range \<Rightarrow> usize" where
  "start_address addr rng =
     (case binary_search wasm_pos (positions rng) addr of
        Found i \<Rightarrow> pos_gen_start (positions rng ! i)
      | Missing i \<Rightarrow> if i = 0 then gen_start rng else pos_gen_end (positions rng ! (i - 1)))"

definition range_iter_next ::
  "u64 \<Rightarrow> code_range list \<Rightarrow> nat list \<Rightarrow> ((usize \<times> nat) option \<times> nat list) res" where
  "range_iter_next addr ranges indices =
     (case indices of
        [] \<Rightarrow> Inr (None, [])
      | range_index # tail \<Rightarrow>
          bind_res (index_res ranges range_index) (\<lambda>rng.
          Inr (Some (start_address addr rng, range_index), tail)))"

fun range_iter_all :: "u64 \<Rightarrow> code_range list \<Rightarrow> nat list \<Rightarrow> (usize \<times> nat) list res" where
  "range_iter_all addr ranges [] = Inr []"
| "range_iter_all addr ranges (range_index # tail) =
     bind_res (index_res ranges range_index) (\<lambda>rng.
     bind_res (range_iter_all addr ranges tail) (\<lambda>rest.
     Inr ((start_address addr rng, range_index) # rest)))"

definition end_address :: "u64 \<Rightarrow> code_range \<Rightarrow> usize" where
  "end_address addr rng =
     (case binary_search wasm_pos (positions rng) addr of
        Found i \<Rightarrow> pos_gen_end (positions rng ! i)
      | Missing i \<Rightarrow> if i = length (positions rng) then gen_end rng else pos_gen_start (positions rng ! i))"

text \<open>The \<^verbatim>\<open>continue\<close> comes before the iterator has moved on: not returning is \<open>None\<close>.\<close>

partial_function (option) range_end_iter_next ::
  "u64 \<Rightarrow> code_range list \<Rightarrow> nat list \<Rightarrow> ((usize \<times> nat) option \<times> nat list) res option" where
  [code]: "range_end_iter_next addr ranges indices =
     (case indices of
        [] \<Rightarrow> Some (Inr (None, []))
      | range_index # tail \<Rightarrow>
          (case index_res ranges range_index of
             Inl e \<Rightarrow> Some (Inl e)
           | Inr rng \<Rightarrow>
               if wasm_start rng \<ge> addr then range_end_iter_next addr ranges indices
               else Some (Inr (Some (end_address addr rng, range_index), tail))))"

fun range_end_iter_all :: "u64 \<Rightarrow> code_range list \<Rightarrow> nat list \<Rightarrow> (usize \<times> nat) list res option" where
  "range_end_iter_all addr ranges [] = Some (Inr [])"
| "range_end_iter_all addr ranges (range_index # tail) =
     (case range_end_iter_next addr ranges (range_index # tail) of
        None \<Rightarrow> None
      | Some (Inl e) \<Rightarrow> Some (Inl e)
      | Some (Inr (None, _)) \<Rightarrow> Some (Inr [])
      | Some (Inr (Some item, _)) \<Rightarrow>
          map_option (\<lambda>r. bind_res r (\<lambda>items. Inr (item # items))) (range_end_iter_all addr ranges tail))"

section \<open>The transform of a module\<close>

text \<open>The functions with their indices, in the order of the module.\<close>

definition address_transform_new ::
  "(u32 \<Rightarrow> bool) \<Rightarrow> function_address_map list \<Rightarrow> u64 \<Rightarrow> address_transform res" where
  "address_transform_new is_default at code_section_offset =
     bind_res (fold_res (\<lambda>(i, ft) func.
         bind_res (build_function_lookup is_default ft code_section_offset) (\<lambda>(fn_start, fn_end, lookup).
         Inr (btree_insert fn_start \<lparr>ft_start = fn_start, ft_end = fn_end, ft_index = i, ft_lookup = lookup\<rparr> func)))
       (List.enumerate 0 at) []) (\<lambda>func.
     Inr \<lparr>at_map = build_function_addr_map is_default at code_section_offset, at_func = func\<rparr>)"

definition find_func :: "address_transform \<Rightarrow> u64 \<Rightarrow> func_transform option" where
  "find_func self addr =
     (case (case binary_search fst (at_func self) addr of
              Found i \<Rightarrow> Some (snd (at_func self ! i))
            | Missing i \<Rightarrow> if i > 0 then Some (snd (at_func self ! (i - 1))) else None) of
        None \<Rightarrow> None
      | Some func \<Rightarrow> if addr \<ge> ft_start func then Some func else None)"

definition find_func_index :: "address_transform \<Rightarrow> u64 \<Rightarrow> nat option" where
  "find_func_index self addr = map_option ft_index (find_func self addr)"

definition translate_raw :: "address_transform \<Rightarrow> u64 \<Rightarrow> (nat \<times> usize) option res" where
  "translate_raw self addr =
     (if addr = 0 then Inr None
      else case find_func self addr of
        None \<Rightarrow> Inr None
      | Some func \<Rightarrow>
          if addr = ft_end func
          then bind_res (index_res (at_map self) (ft_index func)) (\<lambda>map. Inr (Some (ft_index func, fm_len map)))
          else bind_res (range_indices func addr) (\<lambda>indices.
               bind_res (range_iter_next addr (lk_ranges (ft_lookup func)) indices) (\<lambda>(first_result, _).
               Inr (map_option (\<lambda>(address, _). (ft_index func, address)) first_result))))"

text \<open>Addresses of the library that writes the debug information.\<close>

datatype write_address = Constant u64 | Symbol nat u64

definition translate :: "address_transform \<Rightarrow> u64 \<Rightarrow> write_address option res" where
  "translate self addr =
     bind_res (translate_raw self addr) (\<lambda>r. Inr (map_option (\<lambda>(func_index, address). Symbol func_index address) r))"

definition can_translate_address :: "address_transform \<Rightarrow> u64 \<Rightarrow> bool res" where
  "can_translate_address self addr = bind_res (translate self addr) (\<lambda>r. Inr (r \<noteq> None))"

text \<open>The ends with their starts: a range that \<open>start\<close> does not lie in is taken from its beginning, and the
  ranges of \<open>starts\<close> that have no end are taken to their end.\<close>

fun pair_ranges ::
  "code_range list \<Rightarrow> (usize \<times> nat) list \<Rightarrow> (nat \<times> usize) list \<Rightarrow> (usize \<times> usize) list res" where
  "pair_ranges ranges [] starts =
     map_res (\<lambda>(r, range_start). bind_res (index_res ranges r) (\<lambda>rng. Inr (range_start, gen_end rng))) starts"
| "pair_ranges ranges ((a, r) # ends) starts =
     (case map_of starts r of
        Some range_start \<Rightarrow>
          bind_res (pair_ranges ranges ends (filter (\<lambda>(r', _). r' \<noteq> r) starts)) (\<lambda>result. Inr ((range_start, a) # result))
      | None \<Rightarrow>
          bind_res (index_res ranges r) (\<lambda>rng.
          bind_res (pair_ranges ranges ends starts) (\<lambda>result. Inr ((gen_start rng, a) # result))))"

definition translate_ranges_raw ::
  "address_transform \<Rightarrow> u64 \<Rightarrow> u64 \<Rightarrow> (nat \<times> (usize \<times> usize) list) option res option" where
  "translate_ranges_raw self start end_addr =
     (if start = 0 then Some (Inr None)
      else case find_func self start of
        None \<Rightarrow> Some (Inr None)
      | Some func \<Rightarrow>
          let ranges = lk_ranges (ft_lookup func) in
          (case bind_res (range_indices func start) (range_iter_all start ranges) of
             Inl e \<Rightarrow> Some (Inl e)
           | Inr starts \<Rightarrow>
               (case range_indices func end_addr of
                  Inl e \<Rightarrow> Some (Inl e)
                | Inr indices \<Rightarrow>
                    map_option (\<lambda>r.
                        bind_res r (\<lambda>ends.
                        bind_res (pair_ranges ranges ends (map (\<lambda>(a, r). (r, a)) starts)) (\<lambda>result.
                        Inr (Some (ft_index func, result)))))
                      (range_end_iter_all end_addr ranges indices))))"

definition translate_ranges :: "address_transform \<Rightarrow> u64 \<Rightarrow> u64 \<Rightarrow> (write_address \<times> u64) list res option" where
  "translate_ranges self start end_addr =
     map_option (\<lambda>r. bind_res r (\<lambda>x.
         Inr (case x of
                None \<Rightarrow> []
              | Some (func_index, ranges) \<Rightarrow> map (\<lambda>(s, e). (Symbol func_index s, e - s)) ranges)))
       (translate_ranges_raw self start end_addr)"

definition func_range :: "address_transform \<Rightarrow> nat \<Rightarrow> (usize \<times> usize) res" where
  "func_range self index = bind_res (index_res (at_map self) index) (\<lambda>map. Inr (fm_offset map, fm_offset map + fm_len map))"

definition func_source_range :: "address_transform \<Rightarrow> nat \<Rightarrow> (u64 \<times> u64) res" where
  "func_source_range self index = bind_res (index_res (at_map self) index) (\<lambda>map. Inr (fm_wasm_start map, fm_wasm_end map))"

definition convert_to_code_range :: "write_address \<Rightarrow> u64 \<Rightarrow> (usize \<times> usize) res" where
  "convert_to_code_range addr len =
     (case addr of
        Symbol _ addend \<Rightarrow> Inr (addend, addend + len)
      | Constant _ \<Rightarrow> Inl (Panic ''internal error: entered unreachable code''))"

end
