(* ===== verification/Address_Transform_Sound.thy ===== *)
theory Address_Transform_Sound
  imports Address_Transform
begin

text \<open>
  What the address transform computes: the ranges of a function partition its instructions, the index
  finds the ranges that hold an address, translated addresses stay in the code of the function, and on
  which addresses the translation of a range returns.
\<close>

section \<open>Binary search\<close>

lemma search_base_spec:
  assumes "sorted (map key xs)" "0 < len" "base + len \<le> length xs" "0 < base \<longrightarrow> key (xs ! base) \<le> a"
    and "\<forall>j. base + len \<le> j \<longrightarrow> j < length xs \<longrightarrow> a < key (xs ! j)"
  shows "search_base key xs a base len < length xs \<and>
    (0 < search_base key xs a base len \<longrightarrow> key (xs ! search_base key xs a base len) \<le> a) \<and>
    (\<forall>j. search_base key xs a base len < j \<longrightarrow> j < length xs \<longrightarrow> a < key (xs ! j))"
  using assms
proof (induction key xs a base len rule: search_base.induct)
  case (1 key xs a base len)
  show ?case
  proof (cases "len \<le> 1")
    case True
    then show ?thesis using "1.prems" by (simp add: search_base.simps [of key xs a base len])
  next
    case False
    define half where "half = len div 2"
    define mid where "mid = base + half"
    have h: "0 < half" "half < len" "mid < length xs" "mid \<le> base + (len - half)"
      using False "1.prems"(3) by (auto simp: half_def mid_def)
    have up: "a < key (xs ! j)" if "a < key (xs ! mid)" "mid \<le> j" "j < length xs" for j
      using that "1.prems"(1) h(3) sorted_nth_mono [of "map key xs" mid j] by (simp add: order_less_le_trans)
    define base' where "base' = (if a < key (xs ! mid) then base else mid)"
    have eq: "search_base key xs a base len = search_base key xs a base' (len - half)"
      using False by (simp add: search_base.simps [of key xs a base len] half_def mid_def base'_def Let_def)
    have "base' + (len - half) \<le> length xs" "0 < base' \<longrightarrow> key (xs ! base') \<le> a"
      using "1.prems"(3,4) h by (auto simp: base'_def mid_def)
    moreover have "\<forall>j. base' + (len - half) \<le> j \<longrightarrow> j < length xs \<longrightarrow> a < key (xs ! j)"
      using "1.prems"(5) h up by (auto simp: base'_def mid_def)
    ultimately show ?thesis
      using "1.IH" [OF False half_def mid_def, folded base'_def] "1.prems"(1) h(2) unfolding eq by simp
  qed
qed

lemma binary_search_spec:
  assumes "sorted (map key xs)"
  shows "case binary_search key xs a of
      Found i \<Rightarrow> i < length xs \<and> key (xs ! i) = a
    | Missing i \<Rightarrow> i \<le> length xs \<and> (\<forall>j < i. key (xs ! j) < a) \<and> (\<forall>j. i \<le> j \<longrightarrow> j < length xs \<longrightarrow> a < key (xs ! j))"
proof (cases "xs = []")
  case True
  then show ?thesis by (simp add: binary_search_def)
next
  case False
  define b where "b = search_base key xs a 0 (length xs)"
  have b: "b < length xs" "0 < b \<longrightarrow> key (xs ! b) \<le> a" "\<forall>j. b < j \<longrightarrow> j < length xs \<longrightarrow> a < key (xs ! j)"
    using search_base_spec [OF assms, of "length xs" 0 a] False by (auto simp: b_def)
  have le: "key (xs ! j) \<le> key (xs ! b)" if "j \<le> b" for j
    using sorted_nth_mono [OF assms that] that b(1) by simp
  have r: "binary_search key xs a = (if key (xs ! b) = a then Found b
      else Missing (if key (xs ! b) < a then b + 1 else b))"
    using False by (simp add: binary_search_def b_def)
  consider "key (xs ! b) = a" | "key (xs ! b) < a" | "a < key (xs ! b)" by fastforce
  then show ?thesis
  proof cases
    case 2
    then show ?thesis using r b le by (force simp: less_Suc_eq_le)
  next
    case 3
    then have "b = 0" using b(2) by auto
    then show ?thesis using r b 3 by (auto simp: le_less)
  qed (use r b in simp)
qed

text \<open>The last entry at or before a key, in an ordered map.\<close>

lemma binary_search_floor:
  assumes "sorted_wrt (<) (map fst m)" "m \<noteq> []" "fst (hd m) \<le> a"
  obtains i where "i < length m" "fst (m ! i) \<le> a" "\<forall>j. i < j \<longrightarrow> j < length m \<longrightarrow> a < fst (m ! j)"
    "(case binary_search fst m a of Found i \<Rightarrow> Some i | Missing i \<Rightarrow> if 0 < i then Some (i - 1) else None) = Some i"
proof (cases "binary_search fst m a")
  case (Found i)
  then have "i < length m" "fst (m ! i) = a"
    using binary_search_spec [OF strict_sorted_imp_sorted [OF assms(1)], of a] by simp_all
  moreover have "\<forall>j. i < j \<longrightarrow> j < length m \<longrightarrow> a < fst (m ! j)"
    using sorted_wrt_nth_less [OF assms(1), of i] calculation by auto
  ultimately show ?thesis using that Found by auto
next
  case (Missing i)
  then have i: "i \<le> length m" "\<forall>j < i. fst (m ! j) < a" "\<forall>j. i \<le> j \<longrightarrow> j < length m \<longrightarrow> a < fst (m ! j)"
    using binary_search_spec [OF strict_sorted_imp_sorted [OF assms(1)], of a] by simp_all
  have "0 < i"
  proof (rule ccontr)
    assume "\<not> 0 < i"
    then have "a < fst (m ! 0)" using i(3) assms(2) by simp
    then show False using assms(2,3) by (simp add: hd_conv_nth)
  qed
  then show ?thesis using that [of "i - 1"] i Missing by (auto simp: less_imp_le)
qed

section \<open>Ordered maps\<close>

definition ordered :: "('k::linorder \<times> 'v) list \<Rightarrow> bool" where
  "ordered m \<longleftrightarrow> sorted_wrt (<) (map fst m)"

lemma ordered_sorted: "ordered m \<Longrightarrow> sorted (map fst m)"
  by (simp add: ordered_def strict_sorted_imp_sorted)

lemma ordered_distinct: "ordered m \<Longrightarrow> distinct (map fst m)"
  by (simp add: ordered_def strict_sorted_iff)

lemma btree_insert_keys: "fst ` set (btree_insert k v m) = insert k (fst ` set m)"
proof (induction m)
  case (Cons x m)
  then show ?case by (cases x) (simp add: insert_commute)
qed simp

lemma btree_insert_ordered: "ordered m \<Longrightarrow> ordered (btree_insert k v m)"
proof (induction m)
  case (Cons x m)
  obtain k' v' where x: "x = (k', v')" by fastforce
  have "\<forall>y \<in> fst ` set (btree_insert k v m). k' < y" if "k' < k"
    using Cons.prems that by (auto simp: btree_insert_keys ordered_def x)
  then show ?case using Cons by (auto simp: ordered_def x)
qed (simp add: ordered_def)

lemma btree_insert_map_of: "ordered m \<Longrightarrow> map_of (btree_insert k v m) = (map_of m)(k \<mapsto> v)"
proof (induction m)
  case (Cons x m)
  obtain k' v' where x: "x = (k', v')" by fastforce
  have "map_of m k = None" if "k \<le> k'"
    using Cons.prems that by (force simp: ordered_def x map_of_eq_None_iff)
  then show ?case using Cons by (auto simp: ordered_def x fun_eq_iff)
qed simp

lemma btree_insert_append: "\<forall>k' \<in> fst ` set m. k' < k \<Longrightarrow> btree_insert k v m = m @ [(k, v)]"
  by (induction m) auto

section \<open>The ranges of a function\<close>

definition position_of :: "u64 \<Rightarrow> instruction_address_map \<Rightarrow> position" where
  "position_of code_section_offset t =
     \<lparr>wasm_pos = get_wasm_code_offset (srcloc t) code_section_offset, pos_gen_start = code_offset t,
      pos_gen_end = code_offset t + code_len t\<rparr>"

text \<open>The instructions that have a source location, with their positions.\<close>

definition positions_of :: "(u32 \<Rightarrow> bool) \<Rightarrow> u64 \<Rightarrow> instruction_address_map list \<Rightarrow> position list" where
  "positions_of is_default code_section_offset ts =
     map (position_of code_section_offset) (filter (\<lambda>t. \<not> is_default (srcloc t)) ts)"

definition range_ok :: "u64 \<Rightarrow> u64 \<Rightarrow> code_range \<Rightarrow> bool" where
  "range_ok fn_start fn_end r \<longleftrightarrow>
     fn_start \<le> wasm_start r \<and> wasm_start r \<le> wasm_end r \<and> wasm_end r \<le> fn_end \<and>
     sorted (map wasm_pos (positions r)) \<and> (\<forall>p \<in> set (positions r). wasm_start r \<le> wasm_pos p \<and> wasm_pos p \<le> wasm_end r)"

text \<open>The generated code of one range begins where the one before it ends.\<close>

fun chained :: "usize \<Rightarrow> code_range list \<Rightarrow> usize \<Rightarrow> bool" where
  "chained g [] g' \<longleftrightarrow> g = g'"
| "chained g (r # rs) g' \<longleftrightarrow> gen_start r = g \<and> chained (gen_end r) rs g'"

lemma chained_append: "chained g (rs @ [r]) g' \<longleftrightarrow> chained g rs (gen_start r) \<and> gen_end r = g'"
  by (induction rs arbitrary: g) auto

text \<open>The last of the ranges that begin at an address.\<close>

definition last_start :: "code_range list \<Rightarrow> u64 \<Rightarrow> nat \<Rightarrow> bool" where
  "last_start rs a i \<longleftrightarrow>
     i < length rs \<and> wasm_start (rs ! i) = a \<and> (\<forall>j. i < j \<longrightarrow> j < length rs \<longrightarrow> wasm_start (rs ! j) \<noteq> a)"

lemma last_start_append:
  "last_start (rs @ [r]) a i \<longleftrightarrow> (if wasm_start r = a then i = length rs else last_start rs a i)"
  by (auto simp: last_start_def nth_append less_Suc_eq)

text \<open>What holds between two instructions.\<close>

definition builder_inv :: "u64 \<Rightarrow> u64 \<Rightarrow> usize \<Rightarrow> position list \<Rightarrow> range_builder \<Rightarrow> bool" where
  "builder_inv fn_start fn_end g ps b \<longleftrightarrow>
     concat (map positions (built_ranges b)) @ current_range b = ps \<and>
     (\<forall>r \<in> set (built_ranges b). range_ok fn_start fn_end r) \<and>
     fn_start \<le> range_wasm_start b \<and> range_wasm_start b \<le> last_wasm_pos b \<and> last_wasm_pos b \<le> fn_end \<and>
     sorted (map wasm_pos (current_range b)) \<and>
     (\<forall>p \<in> set (current_range b). range_wasm_start b \<le> wasm_pos p \<and> wasm_pos p \<le> last_wasm_pos b) \<and>
     chained g (built_ranges b) (range_gen_start b) \<and>
     (case built_ranges b of [] \<Rightarrow> range_wasm_start b | r # _ \<Rightarrow> wasm_start r) = fn_start \<and>
     ordered (ranges_index b) \<and> (\<forall>a i. map_of (ranges_index b) a = Some i \<longleftrightarrow> last_start (built_ranges b) a i)"

definition ranges_spec :: "u64 \<Rightarrow> u64 \<Rightarrow> usize \<Rightarrow> usize \<Rightarrow> position list \<Rightarrow> code_range list \<Rightarrow> bool" where
  "ranges_spec fn_start fn_end g g' ps rs \<longleftrightarrow>
     concat (map positions rs) = ps \<and> (\<forall>r \<in> set rs. range_ok fn_start fn_end r) \<and> chained g rs g' \<and>
     rs \<noteq> [] \<and> wasm_start (hd rs) = fn_start"

definition index_spec :: "code_range list \<Rightarrow> (u64 \<times> nat) list \<Rightarrow> bool" where
  "index_spec rs starts \<longleftrightarrow> ordered starts \<and> (\<forall>a i. map_of starts a = Some i \<longleftrightarrow> last_start rs a i)"

lemma push_range_spec:
  assumes "builder_inv fn_start fn_end g ps b" "last_wasm_pos b \<le> w" "w \<le> fn_end"
  shows "ranges_spec fn_start fn_end g g' ps (built_ranges (push_range w g' b))"
    "index_spec (built_ranges (push_range w g' b)) (ranges_index (push_range w g' b))"
proof -
  have "range_ok fn_start fn_end
      \<lparr>wasm_start = range_wasm_start b, wasm_end = w, gen_start = range_gen_start b, gen_end = g', positions = current_range b\<rparr>"
    using assms by (force simp: builder_inv_def range_ok_def)
  then show "ranges_spec fn_start fn_end g g' ps (built_ranges (push_range w g' b))"
    using assms(1)
    by (cases "built_ranges b") (auto simp: ranges_spec_def builder_inv_def push_range_def chained_append)
  have o: "ordered (ranges_index b)" and m: "map_of (ranges_index b) a = Some i \<longleftrightarrow> last_start (built_ranges b) a i" for a i
    using assms(1) by (simp_all add: builder_inv_def)
  have "map_of (ranges_index (push_range w g' b)) a = Some i \<longleftrightarrow> last_start (built_ranges (push_range w g' b)) a i" for a i
    by (cases "range_wasm_start b = a") (auto simp: push_range_def btree_insert_map_of [OF o] last_start_append m)
  then show "index_spec (built_ranges (push_range w g' b)) (ranges_index (push_range w g' b))"
    by (simp add: index_spec_def push_range_def btree_insert_ordered [OF o])
qed

lemma builder_restart:
  assumes "builder_inv fn_start fn_end g ps b" "fn_start \<le> w" "w < last_wasm_pos b"
  shows "builder_inv fn_start fn_end g ps
    ((push_range (last_wasm_pos b) g' b)\<lparr>range_wasm_start := w, range_gen_start := g', current_range := [], last_wasm_pos := w\<rparr>)"
proof -
  have "last_wasm_pos b \<le> fn_end" using assms(1) by (simp add: builder_inv_def)
  note spec = push_range_spec [OF assms(1) order_refl this, of g']
  show ?thesis
    using spec assms \<open>last_wasm_pos b \<le> fn_end\<close>
    by (cases "built_ranges (push_range (last_wasm_pos b) g' b)")
      (auto simp: builder_inv_def ranges_spec_def index_spec_def)
qed

lemma builder_extend:
  assumes "builder_inv fn_start fn_end g ps b" "last_wasm_pos b \<le> wasm_pos p" "wasm_pos p \<le> fn_end"
  shows "builder_inv fn_start fn_end g (ps @ [p]) (b\<lparr>current_range := current_range b @ [p], last_wasm_pos := wasm_pos p\<rparr>)"
proof -
  have "\<forall>q \<in> set (current_range b). range_wasm_start b \<le> wasm_pos q \<and> wasm_pos q \<le> wasm_pos p"
    "range_wasm_start b \<le> wasm_pos p"
    using assms(1,2) unfolding builder_inv_def by (blast intro: order_trans)+
  then show ?thesis using assms(1,3) unfolding builder_inv_def
    by (cases "built_ranges b") (auto simp: sorted_append)
qed

lemma lookup_step_inv:
  assumes "builder_inv fn_start fn_end g (positions_of is_default cso ts) b"
    and "is_default (srcloc t) \<or> fn_start \<le> get_wasm_code_offset (srcloc t) cso \<and> get_wasm_code_offset (srcloc t) cso \<le> fn_end"
  shows "\<exists>b'. lookup_step is_default cso fn_start fn_end t b = Inr b' \<and>
    builder_inv fn_start fn_end g (positions_of is_default cso (ts @ [t])) b'"
proof (cases "is_default (srcloc t)")
  case True
  then show ?thesis using assms(1) by (simp add: lookup_step_def positions_of_def)
next
  case False
  define w where "w = get_wasm_code_offset (srcloc t) cso"
  have w: "fn_start \<le> w" "w \<le> fn_end" using assms(2) False by (simp_all add: w_def)
  define b1 where "b1 = (if last_wasm_pos b > w
    then (push_range (last_wasm_pos b) (code_offset t) b)\<lparr>range_wasm_start := w, range_gen_start := code_offset t, current_range := [], last_wasm_pos := w\<rparr>
    else b)"
  have b1: "builder_inv fn_start fn_end g (positions_of is_default cso ts) b1" "last_wasm_pos b1 \<le> w"
    using builder_restart [OF assms(1) w(1)] assms(1) by (auto simp: b1_def)
  have p: "wasm_pos (position_of cso t) = w" by (simp add: position_of_def w_def)
  have ps: "positions_of is_default cso (ts @ [t]) = positions_of is_default cso ts @ [position_of cso t]"
    using False by (simp add: positions_of_def)
  have "lookup_step is_default cso fn_start fn_end t b =
      Inr (b1\<lparr>current_range := current_range b1 @ [position_of cso t], last_wasm_pos := w\<rparr>)"
    using False w by (simp add: lookup_step_def b1_def position_of_def w_def Let_def)
  then show ?thesis using builder_extend [OF b1(1), of "position_of cso t"] b1(2) w(2) ps p by auto
qed

lemma lookup_fold_inv:
  assumes "builder_inv fn_start fn_end g (positions_of is_default cso ts0) b"
    and "\<forall>t \<in> set ts. is_default (srcloc t) \<or>
      fn_start \<le> get_wasm_code_offset (srcloc t) cso \<and> get_wasm_code_offset (srcloc t) cso \<le> fn_end"
  shows "\<exists>b'. fold_res (lookup_step is_default cso fn_start fn_end) ts b = Inr b' \<and>
    builder_inv fn_start fn_end g (positions_of is_default cso (ts0 @ ts)) b'"
  using assms
proof (induction ts arbitrary: ts0 b)
  case (Cons t ts)
  obtain b1 where "lookup_step is_default cso fn_start fn_end t b = Inr b1"
    "builder_inv fn_start fn_end g (positions_of is_default cso (ts0 @ [t])) b1"
    using lookup_step_inv [OF Cons.prems(1), of t] Cons.prems(2) by auto
  then show ?case using Cons.IH [of "ts0 @ [t]" b1] Cons.prems(2) by simp
qed simp

section \<open>The index\<close>

text \<open>The ranges of the first \<open>i\<close> entries that reach an address.\<close>

definition active :: "code_range list \<Rightarrow> (u64 \<times> nat) list \<Rightarrow> u64 \<Rightarrow> nat list" where
  "active ranges starts a = map snd (filter (\<lambda>(_, r). a \<le> wasm_end (ranges ! r)) starts)"

definition index_of :: "code_range list \<Rightarrow> (u64 \<times> nat) list \<Rightarrow> (u64 \<times> nat list) list" where
  "index_of ranges starts =
     map (\<lambda>i. (fst (starts ! i), active ranges (take (Suc i) starts) (fst (starts ! i)))) [0..<length starts]"

lemma index_of_snoc:
  "index_of ranges (starts @ [x]) = index_of ranges starts @ [(fst x, active ranges (starts @ [x]) (fst x))]"
  by (auto simp: index_of_def nth_append intro!: map_cong)

lemma index_of_keys: "map fst (index_of ranges starts) = map fst starts"
  by (rule nth_equalityI) (simp_all add: index_of_def)

lemma active_step:
  assumes "a \<le> a'"
  shows "filter (\<lambda>r. \<not> wasm_end (ranges ! r) < a') (active ranges starts a) = active ranges starts a'"
  using assms by (induction starts) (auto simp: active_def)

lemma index_insert_last:
  assumes "ordered starts" "starts \<noteq> []"
  shows "btree_insert (fst (last starts)) (active ranges starts (fst (last starts))) (index_of ranges (butlast starts)) =
    index_of ranges starts"
proof -
  obtain ss x where ss: "starts = ss @ [x]" using assms(2) by (cases starts rule: rev_cases) auto
  have "set (map fst (index_of ranges ss)) = set (map fst ss)" by (simp only: index_of_keys)
  then have "\<forall>k \<in> fst ` set (index_of ranges ss). k < fst x"
    using assms(1) by (simp add: ordered_def sorted_wrt_append ss)
  then show ?thesis by (simp add: ss index_of_snoc btree_insert_append)
qed

lemma index_fold:
  assumes "ordered starts" "\<forall>(a, r) \<in> set starts. a \<le> wasm_end (ranges ! r)" "starts \<noteq> []"
  shows "fold (index_step ranges) starts ([], [], None) =
    (active ranges starts (fst (last starts)), index_of ranges (butlast starts), Some (fst (last starts)))"
  using assms
proof (induction starts rule: rev_induct)
  case (snoc x starts)
  obtain a r where x: "x = (a, r)" by fastforce
  have own: "active ranges (starts @ [x]) a = active ranges starts a @ [r]"
    using snoc.prems(2) by (simp add: active_def x)
  show ?case
  proof (cases "starts = []")
    case True
    then show ?thesis using own by (simp add: index_step_def x active_def index_of_def)
  next
    case False
    have ord: "ordered starts" "\<forall>k \<in> fst ` set starts. k < a"
      using snoc.prems(1) by (auto simp: ordered_def sorted_wrt_append x)
    have lt: "fst (last starts) < a" using ord(2) False by simp
    have IH: "fold (index_step ranges) starts ([], [], None) =
        (active ranges starts (fst (last starts)), index_of ranges (butlast starts), Some (fst (last starts)))"
      using snoc.IH ord(1) snoc.prems(2) False by simp
    note ins = index_insert_last [OF ord(1) False, of ranges]
    have "index_step ranges x (active ranges starts (fst (last starts)), index_of ranges (butlast starts), Some (fst (last starts))) =
        (active ranges starts a @ [r], index_of ranges starts, Some a)"
      using lt ins active_step [of "fst (last starts)" a ranges starts] by (auto simp: index_step_def x Let_def)
    then show ?thesis using own by (simp add: IH x)
  qed
qed simp

lemma build_index_eq:
  assumes "ordered starts" "\<forall>(a, r) \<in> set starts. a \<le> wasm_end (ranges ! r)" "starts \<noteq> []"
  shows "build_index ranges starts = Inr (index_of ranges starts)"
  using index_fold [OF assms] index_insert_last [OF assms(1,3), of ranges] by (simp add: build_index_def unwrap_res_def)

section \<open>The lookup of a function\<close>

abbreviation source_start :: "u64 \<Rightarrow> function_address_map \<Rightarrow> u64" where
  "source_start cso ft \<equiv> get_wasm_code_offset (start_srcloc ft) cso"

abbreviation source_end :: "u64 \<Rightarrow> function_address_map \<Rightarrow> u64" where
  "source_end cso ft \<equiv> get_wasm_code_offset (end_srcloc ft) cso"

text \<open>What the compiler guarantees of an address map: source locations inside the function.\<close>

definition function_ok :: "(u32 \<Rightarrow> bool) \<Rightarrow> u64 \<Rightarrow> function_address_map \<Rightarrow> bool" where
  "function_ok is_default cso ft \<longleftrightarrow>
     cso \<le> ucast (start_srcloc ft) \<and> source_start cso ft \<le> source_end cso ft \<and>
     (\<forall>t \<in> set (instructions ft). is_default (srcloc t) \<or>
        source_start cso ft \<le> get_wasm_code_offset (srcloc t) cso \<and> get_wasm_code_offset (srcloc t) cso \<le> source_end cso ft)"

definition lookup_spec :: "(u32 \<Rightarrow> bool) \<Rightarrow> u64 \<Rightarrow> function_address_map \<Rightarrow> func_lookup \<Rightarrow> bool" where
  "lookup_spec is_default cso ft lookup \<longleftrightarrow>
     ranges_spec (source_start cso ft) (source_end cso ft) (body_offset ft) (body_offset ft + body_len ft)
       (positions_of is_default cso (instructions ft)) (lk_ranges lookup) \<and>
     (\<exists>starts. index_spec (lk_ranges lookup) starts \<and> lk_index lookup = index_of (lk_ranges lookup) starts)"

lemma index_spec_starts:
  assumes "index_spec rs starts"
  shows "(a, i) \<in> set starts \<longleftrightarrow> last_start rs a i"
  using assms map_of_eq_Some_iff [OF ordered_distinct, of starts a i] by (simp add: index_spec_def)

lemma last_start_exists: "r \<in> set rs \<Longrightarrow> \<exists>i. last_start rs (wasm_start r) i"
proof (induction rs rule: rev_induct)
  case (snoc x rs)
  then show ?case by (cases "wasm_start x = wasm_start r") (auto simp: last_start_append)
qed simp

text \<open>The entries at or before an address are a prefix of an ordered map.\<close>

lemma ordered_prefix:
  assumes "ordered m" "i < length m" "fst (m ! i) \<le> a" "\<forall>j. i < j \<longrightarrow> j < length m \<longrightarrow> a < fst (m ! j)" "x \<in> set m"
  shows "fst x \<le> a \<longleftrightarrow> x \<in> set (take (Suc i) m)" "fst x \<le> a \<Longrightarrow> fst x \<le> fst (m ! i)"
proof -
  obtain j where j: "j < length m" "m ! j = x" using assms(5) by (auto simp: in_set_conv_nth)
  have le: "fst (m ! l) \<le> fst (m ! i)" if "l \<le> i" for l
    using that sorted_nth_mono [OF ordered_sorted [OF assms(1)], of l i] assms(2) by simp
  have "\<not> i < j" if "fst x \<le> a" using assms(4) j that by auto
  moreover have "x \<in> set (take (Suc i) m)" if "j \<le> i"
    using that j assms(2) by (auto simp: in_set_conv_nth intro!: exI [of _ j])
  moreover have "fst x \<le> fst (m ! i)" if "x \<in> set (take (Suc i) m)"
    using that le assms(2) by (auto simp: in_set_conv_nth)
  ultimately show "fst x \<le> a \<longleftrightarrow> x \<in> set (take (Suc i) m)" "fst x \<le> a \<Longrightarrow> fst x \<le> fst (m ! i)"
    using assms(3) by (auto intro: order_trans)
qed

lemma build_function_lookup_spec:
  assumes "function_ok is_default cso ft"
  shows "\<exists>lookup. build_function_lookup is_default ft cso = Inr (source_start cso ft, source_end cso ft, lookup) \<and>
    lookup_spec is_default cso ft lookup"
proof -
  let ?s = "source_start cso ft" and ?e = "source_end cso ft" and ?g = "body_offset ft"
  let ?b = "\<lparr>range_wasm_start = ?s, range_gen_start = ?g, last_wasm_pos = ?s, built_ranges = [], ranges_index = [], current_range = []\<rparr>"
  have "builder_inv ?s ?e ?g (positions_of is_default cso []) ?b"
    using assms by (simp add: builder_inv_def function_ok_def positions_of_def ordered_def last_start_def)
  then obtain b where b: "fold_res (lookup_step is_default cso ?s ?e) (instructions ft) ?b = Inr b"
    "builder_inv ?s ?e ?g (positions_of is_default cso (instructions ft)) b"
    using lookup_fold_inv [of ?s ?e ?g is_default cso "[]" ?b "instructions ft"] assms by (auto simp: function_ok_def)
  define b' where "b' = push_range ?e (?g + body_len ft) b"
  have "last_wasm_pos b \<le> ?e" using b(2) by (simp add: builder_inv_def)
  note spec = push_range_spec [OF b(2) this order_refl, of "?g + body_len ft", folded b'_def]
  have "last_start (built_ranges b') a i \<Longrightarrow> a \<le> wasm_end (built_ranges b' ! i)" for a i
    using spec(1) by (force simp: ranges_spec_def range_ok_def last_start_def)
  then have "\<forall>(a, i) \<in> set (ranges_index b'). a \<le> wasm_end (built_ranges b' ! i)"
    using index_spec_starts [OF spec(2)] by auto
  moreover have "ranges_index b' \<noteq> []"
    using last_start_exists [of "hd (built_ranges b')" "built_ranges b'"] index_spec_starts [OF spec(2)] spec(1)
    by (auto simp: ranges_spec_def)
  ultimately have "build_index (built_ranges b') (ranges_index b') = Inr (index_of (built_ranges b') (ranges_index b'))"
    using spec(2) by (intro build_index_eq) (auto simp: index_spec_def)
  then have "build_function_lookup is_default ft cso =
      Inr (?s, ?e, \<lparr>lk_index = index_of (built_ranges b') (ranges_index b'), lk_ranges = built_ranges b'\<rparr>)"
    using assms b(1) by (simp add: build_function_lookup_def function_ok_def b'_def [symmetric] Let_def)
  then show ?thesis using spec by (auto simp: lookup_spec_def)
qed

text \<open>At which addresses a range is found: a range that a later one with the same start hides is found at
  none.\<close>

lemma range_indices_spec:
  assumes "lookup_spec is_default cso ft (ft_lookup func)" "source_start cso ft \<le> addr"
  obtains k indices where "range_indices func addr = Inr indices"
    "k \<in> wasm_start ` set (lk_ranges (ft_lookup func))" "k \<le> addr"
    "\<forall>r \<in> set (lk_ranges (ft_lookup func)). wasm_start r \<le> addr \<longrightarrow> wasm_start r \<le> k"
    "\<forall>i. i \<in> set indices \<longleftrightarrow> (\<exists>a. last_start (lk_ranges (ft_lookup func)) a i \<and> a \<le> addr \<and>
       k \<le> wasm_end (lk_ranges (ft_lookup func) ! i))"
proof -
  let ?rs = "lk_ranges (ft_lookup func)"
  obtain starts where starts: "index_spec ?rs starts" "lk_index (ft_lookup func) = index_of ?rs starts"
    using assms(1) by (auto simp: lookup_spec_def)
  have rs: "?rs \<noteq> []" "wasm_start (hd ?rs) = source_start cso ft" "\<forall>r \<in> set ?rs. source_start cso ft \<le> wasm_start r"
    using assms(1) by (auto simp: lookup_spec_def ranges_spec_def range_ok_def)
  note mem = index_spec_starts [OF starts(1)]
  let ?m = "index_of ?rs starts"
  have keys: "map fst ?m = map fst starts" by (rule index_of_keys)
  have sorted: "sorted_wrt (<) (map fst ?m)" using starts(1) keys by (simp add: index_spec_def ordered_def)
  obtain i0 where i0: "(source_start cso ft, i0) \<in> set starts" using last_start_exists [of "hd ?rs" ?rs] rs mem by auto
  then have ne: "starts \<noteq> []" by auto
  then have len: "length ?m = length starts" "?m \<noteq> []" by (auto simp: index_of_def)
  have "fst (hd ?m) = hd (map fst starts)" using keys len(2) by (metis hd_map)
  also have "\<dots> \<le> source_start cso ft"
    using i0 sorted keys ne by (cases starts) (auto simp: less_imp_le)
  finally have hd: "fst (hd ?m) \<le> addr" using assms(2) by simp
  obtain i where i: "i < length ?m" "fst (?m ! i) \<le> addr" "\<forall>j. i < j \<longrightarrow> j < length ?m \<longrightarrow> addr < fst (?m ! j)"
    "(case binary_search fst ?m addr of Found i \<Rightarrow> Some i | Missing i \<Rightarrow> if 0 < i then Some (i - 1) else None) = Some i"
    by (rule binary_search_floor [OF sorted len(2) hd])
  define k where "k = fst (starts ! i)"
  have nth: "?m ! j = (fst (starts ! j), active ?rs (take (Suc j) starts) (fst (starts ! j)))" if "j < length starts" for j
    using that by (simp add: index_of_def)
  have found: "range_indices func addr = Inr (active ?rs (take (Suc i) starts) k)"
    using i(4) nth [of i] i(1) len(1)
    by (auto simp: range_indices_def starts(2) k_def split: search_result.splits if_splits)
  have after: "\<forall>j. i < j \<longrightarrow> j < length starts \<longrightarrow> addr < fst (starts ! j)" using i(3) nth len(1) by simp
  have at: "fst (starts ! i) \<le> addr" "i < length starts" using i(1,2) nth [of i] len(1) by simp_all
  have "ordered starts" using starts(1) by (simp add: index_spec_def)
  note floor = ordered_prefix [OF this at(2,1) after]
  have "(k, snd (starts ! i)) \<in> set starts" using i(1) len(1) by (simp add: k_def)
  then have k: "k \<in> wasm_start ` set ?rs" using mem by (auto simp: last_start_def)
  have max: "\<forall>r \<in> set ?rs. wasm_start r \<le> addr \<longrightarrow> wasm_start r \<le> k"
  proof clarify
    fix r assume r: "r \<in> set ?rs" "wasm_start r \<le> addr"
    obtain i' where "(wasm_start r, i') \<in> set starts" using last_start_exists [OF r(1)] mem by blast
    then show "wasm_start r \<le> k" using floor(2) [of "(wasm_start r, i')"] r(2) by (simp add: k_def)
  qed
  have "r \<in> set (active ?rs (take (Suc i) starts) k) \<longleftrightarrow>
      (\<exists>a. last_start ?rs a r \<and> a \<le> addr \<and> k \<le> wasm_end (?rs ! r))" for r
  proof -
    have "(a, r) \<in> set (take (Suc i) starts) \<longleftrightarrow> last_start ?rs a r \<and> a \<le> addr" for a
      using mem [of a r] floor(1) [of "(a, r)"] in_set_takeD [of "(a, r)" "Suc i" starts] by auto
    then show ?thesis by (force simp: active_def)
  qed
  then show ?thesis using that [OF found k] max i(2) nth [of i] i(1) len(1) by (simp add: k_def)
qed

section \<open>The iterator over the ends\<close>

text \<open>The iterator does not return from a range that begins at the address or after it.\<close>

definition stuck :: "u64 \<Rightarrow> code_range list \<Rightarrow> nat list \<Rightarrow> bool" where
  "stuck addr ranges indices \<longleftrightarrow>
     (case indices of [] \<Rightarrow> False | r # _ \<Rightarrow> r < length ranges \<and> addr \<le> wasm_start (ranges ! r))"

lemma range_end_iter_next_not_stuck:
  assumes "range_end_iter_next addr ranges indices = Some y"
  shows "\<not> stuck addr ranges indices"
  using _ assms
proof (rule range_end_iter_next.raw_induct [where P = "\<lambda>addr ranges indices _. \<not> stuck addr ranges indices"])
  fix f addr ranges indices y
  assume IH: "\<And>addr ranges indices y. f addr ranges indices = Some y \<Longrightarrow> \<not> stuck addr ranges indices"
    and step: "(case indices of
        [] \<Rightarrow> Some (Inr (None, []))
      | r # tail \<Rightarrow>
          (case index_res ranges r of
             Inl e \<Rightarrow> Some (Inl e)
           | Inr rng \<Rightarrow>
               if addr \<le> wasm_start rng then f addr ranges indices
               else Some (Inr (Some (end_address addr rng, r), tail)))) = Some y"
  show "\<not> stuck addr ranges indices"
    using step IH [of addr ranges indices] by (cases indices) (auto simp: stuck_def index_res_def)
qed

lemma range_end_iter_next_stuck: "stuck addr ranges indices \<Longrightarrow> range_end_iter_next addr ranges indices = None"
  using range_end_iter_next_not_stuck by (cases "range_end_iter_next addr ranges indices") auto

lemma range_end_iter_next_moves:
  "r < length ranges \<Longrightarrow> wasm_start (ranges ! r) < addr \<Longrightarrow>
     range_end_iter_next addr ranges (r # tail) = Some (Inr (Some (end_address addr (ranges ! r), r), tail))"
  by (subst range_end_iter_next.simps) (simp add: index_res_def flip: not_less)

lemma range_end_iter_all_eq:
  assumes "\<forall>r \<in> set indices. r < length ranges"
  shows "range_end_iter_all addr ranges indices =
    (if \<forall>r \<in> set indices. wasm_start (ranges ! r) < addr
     then Some (Inr (map (\<lambda>r. (end_address addr (ranges ! r), r)) indices)) else None)"
  using assms
proof (induction indices)
  case (Cons r tail)
  show ?case
  proof (cases "wasm_start (ranges ! r) < addr")
    case True
    then show ?thesis using Cons by (simp add: range_end_iter_next_moves)
  next
    case False
    then have "stuck addr ranges (r # tail)" using Cons.prems by (simp add: stuck_def)
    then show ?thesis using False by (simp add: range_end_iter_next_stuck)
  qed
qed simp

lemma range_iter_all_eq:
  "\<forall>r \<in> set indices. r < length ranges \<Longrightarrow>
     range_iter_all addr ranges indices = Inr (map (\<lambda>r. (start_address addr (ranges ! r), r)) indices)"
  by (induction indices) (simp_all add: index_res_def)

lemma pair_ranges_total:
  assumes "\<forall>(a, r) \<in> set ends. r < length ranges" "\<forall>(r, a) \<in> set starts. r < length ranges"
  shows "\<exists>result. pair_ranges ranges ends starts = Inr result"
  using assms
proof (induction ends arbitrary: starts)
  case Nil
  then show ?case by (auto intro!: map_res_total simp: index_res_def)
next
  case (Cons x ends)
  obtain a r where x: "x = (a, r)" by fastforce
  have "\<exists>result. pair_ranges ranges ends (filter (\<lambda>(r', _). r' \<noteq> r) starts) = Inr result"
    "\<exists>result. pair_ranges ranges ends starts = Inr result"
    using Cons by (auto intro!: Cons.IH)
  then show ?case using Cons.prems(1) by (cases "map_of starts r") (auto simp: x index_res_def)
qed

text \<open>C39. Translating a range of addresses does not panic, and it returns exactly when no range of the
  function begins at the end address: otherwise the iterator over the ends repeats the same range for
  ever.\<close>

theorem translate_ranges_returns_iff:
  assumes "find_func self start = Some func" "start \<noteq> 0" "function_ok is_default cso ft"
    and "build_function_lookup is_default ft cso = Inr (ft_start func, ft_end func, ft_lookup func)" "ft_start func \<le> end_addr"
  shows "if end_addr \<in> wasm_start ` set (lk_ranges (ft_lookup func))
    then translate_ranges_raw self start end_addr = None
    else \<exists>result. translate_ranges_raw self start end_addr = Some (Inr (Some (ft_index func, result)))"
proof -
  let ?rs = "lk_ranges (ft_lookup func)"
  have spec: "lookup_spec is_default cso ft (ft_lookup func)" and st: "ft_start func = source_start cso ft"
    using build_function_lookup_spec [OF assms(3)] assms(4) by auto
  have "source_start cso ft \<le> start" using assms(1) st by (auto simp: find_func_def split: option.splits if_splits)
  then obtain k1 is1 where is1: "range_indices func start = Inr is1" "\<forall>i \<in> set is1. i < length ?rs"
    using range_indices_spec [OF spec] by (metis last_start_def)
  obtain k indices where ix: "range_indices func end_addr = Inr indices" "k \<in> wasm_start ` set ?rs"
    "\<forall>r \<in> set ?rs. wasm_start r \<le> end_addr \<longrightarrow> wasm_start r \<le> k"
    "\<forall>i. i \<in> set indices \<longleftrightarrow> (\<exists>a. last_start ?rs a i \<and> a \<le> end_addr \<and> k \<le> wasm_end (?rs ! i))" "k \<le> end_addr"
    using range_indices_spec [OF spec, of end_addr] assms(5) st by metis
  have valid: "\<forall>i \<in> set indices. i < length ?rs" using ix(4) by (auto simp: last_start_def)
  have all: "(\<forall>i \<in> set indices. wasm_start (?rs ! i) < end_addr) \<longleftrightarrow> end_addr \<notin> wasm_start ` set ?rs"
  proof
    assume lt: "\<forall>i \<in> set indices. wasm_start (?rs ! i) < end_addr"
    show "end_addr \<notin> wasm_start ` set ?rs"
    proof
      assume "end_addr \<in> wasm_start ` set ?rs"
      then obtain r where r: "r \<in> set ?rs" "end_addr = wasm_start r" by blast
      then have "k = end_addr" using ix(3,5) by auto
      obtain i where i: "last_start ?rs end_addr i" using last_start_exists [OF r(1)] r(2) by auto
      then have "?rs ! i \<in> set ?rs" "wasm_start (?rs ! i) = end_addr" by (auto simp: last_start_def)
      then have "end_addr \<le> wasm_end (?rs ! i)"
        using spec by (auto simp: lookup_spec_def ranges_spec_def range_ok_def)
      then have "i \<in> set indices" using ix(4) i \<open>k = end_addr\<close> by auto
      then show False using lt \<open>wasm_start (?rs ! i) = end_addr\<close> by auto
    qed
  next
    assume no: "end_addr \<notin> wasm_start ` set ?rs"
    show "\<forall>i \<in> set indices. wasm_start (?rs ! i) < end_addr"
      using ix(4) no by (force simp: last_start_def le_less)
  qed
  have "\<exists>result. pair_ranges ?rs (map (\<lambda>r. (end_address end_addr (?rs ! r), r)) indices)
      (map (\<lambda>(a, r). (r, a)) (map (\<lambda>r. (start_address start (?rs ! r), r)) is1)) = Inr result"
    using valid is1(2) by (intro pair_ranges_total) auto
  then show ?thesis
    using assms(1,2) is1 ix(1) valid all
    by (auto simp: translate_ranges_raw_def range_iter_all_eq range_end_iter_all_eq Let_def)
qed

section \<open>Generated addresses\<close>

lemma lookup_fold_gen:
  assumes "fold_res (lookup_step is_default cso fn_start fn_end) ts b = Inr b'" "code_offset ` set ts \<subseteq> G"
    and "range_gen_start b \<in> G" "\<forall>r \<in> set (built_ranges b). gen_start r \<in> G"
  shows "range_gen_start b' \<in> G \<and> (\<forall>r \<in> set (built_ranges b'). gen_start r \<in> G)"
  using assms
proof (induction ts arbitrary: b)
  case (Cons t ts)
  obtain b1 where b1: "lookup_step is_default cso fn_start fn_end t b = Inr b1"
    "fold_res (lookup_step is_default cso fn_start fn_end) ts b1 = Inr b'"
    using Cons.prems(1) by auto
  have "range_gen_start b1 \<in> G \<and> (\<forall>r \<in> set (built_ranges b1). gen_start r \<in> G)"
    using b1(1) Cons.prems(2-4) by (auto simp: lookup_step_def push_range_def Let_def split: if_splits)
  then show ?case using Cons.IH [OF b1(2)] Cons.prems(2) by simp
qed simp

lemma build_function_lookup_gen:
  assumes "build_function_lookup is_default ft cso = Inr (s, e, lookup)" "r \<in> set (lk_ranges lookup)"
  shows "gen_start r \<in> insert (body_offset ft) (code_offset ` set (instructions ft))"
proof -
  obtain b where b: "fold_res (lookup_step is_default cso (source_start cso ft) (source_end cso ft)) (instructions ft)
      \<lparr>range_wasm_start = source_start cso ft, range_gen_start = body_offset ft, last_wasm_pos = source_start cso ft,
       built_ranges = [], ranges_index = [], current_range = []\<rparr> = Inr b"
    "lk_ranges lookup = built_ranges (push_range (source_end cso ft) (body_offset ft + body_len ft) b)"
    using assms(1) by (auto simp: build_function_lookup_def Let_def)
  then show ?thesis
    using lookup_fold_gen [OF b(1) subset_insertI, of "body_offset ft"] assms(2) by (auto simp: push_range_def)
qed

text \<open>The generated instructions lie in the body, which is counted from zero.\<close>

definition code_ok :: "function_address_map \<Rightarrow> bool" where
  "code_ok ft \<longleftrightarrow> body_offset ft = 0 \<and>
     (\<forall>t \<in> set (instructions ft). unat (code_offset t) + unat (code_len t) \<le> unat (body_len ft))"

lemma position_bounded:
  assumes "code_ok ft" "p \<in> set (positions_of is_default cso (instructions ft))"
  shows "pos_gen_start p \<le> body_len ft \<and> pos_gen_end p \<le> body_len ft"
proof -
  obtain t where t: "t \<in> set (instructions ft)" "p = position_of cso t" using assms(2) by (auto simp: positions_of_def)
  then have le: "unat (code_offset t) + unat (code_len t) \<le> unat (body_len ft)" using assms(1) by (simp add: code_ok_def)
  then have "unat (code_offset t + code_len t) = unat (code_offset t) + unat (code_len t)"
    using unat_lt_u64 [of "body_len ft"] by (intro unat_add_small) simp
  then show ?thesis using le t(2) by (simp add: position_of_def word_le_nat_alt)
qed

lemma start_address_in:
  assumes "sorted (map wasm_pos (positions r))"
  shows "start_address addr r = gen_start r \<or>
    (\<exists>p \<in> set (positions r). start_address addr r \<in> {pos_gen_start p, pos_gen_end p})"
proof (cases "binary_search wasm_pos (positions r) addr")
  case (Found i)
  then have "positions r ! i \<in> set (positions r)" using binary_search_spec [OF assms, of addr] by simp
  then show ?thesis using Found by (auto simp: start_address_def)
next
  case (Missing i)
  then have "i \<le> length (positions r)" using binary_search_spec [OF assms, of addr] by simp
  then have "i \<noteq> 0 \<Longrightarrow> positions r ! (i - 1) \<in> set (positions r)" by simp
  then show ?thesis using Missing by (cases "i = 0") (auto simp: start_address_def)
qed

lemma start_address_bounded:
  assumes "function_ok is_default cso ft" "code_ok ft" "build_function_lookup is_default ft cso = Inr (s, e, lookup)"
    and "r \<in> set (lk_ranges lookup)"
  shows "start_address addr r \<le> body_len ft"
proof -
  have spec: "lookup_spec is_default cso ft lookup" using build_function_lookup_spec [OF assms(1)] assms(3) by auto
  have "unat (code_offset t) \<le> unat (body_len ft)" if "t \<in> set (instructions ft)" for t
    using assms(2) that by (auto simp: code_ok_def)
  then have g: "gen_start r \<le> body_len ft"
    using build_function_lookup_gen [OF assms(3,4)] assms(2) by (auto simp: code_ok_def word_le_nat_alt)
  have c: "positions_of is_default cso (instructions ft) = concat (map positions (lk_ranges lookup))"
    using spec by (simp add: lookup_spec_def ranges_spec_def)
  have "set (positions r) \<subseteq> set (positions_of is_default cso (instructions ft))"
    unfolding c using assms(4) by auto
  then have "pos_gen_start p \<le> body_len ft \<and> pos_gen_end p \<le> body_len ft" if "p \<in> set (positions r)" for p
    using position_bounded [OF assms(2)] that by blast
  moreover have "sorted (map wasm_pos (positions r))"
    using spec assms(4) by (auto simp: lookup_spec_def ranges_spec_def range_ok_def)
  ultimately show ?thesis using g start_address_in [of r addr] by auto
qed

section \<open>The functions of a module\<close>

lemma btree_insert_set: "set (btree_insert k v m) \<subseteq> insert (k, v) (set m)"
  by (induction m) (auto split: if_splits)

text \<open>The functions after the first \<open>n\<close> of the module.\<close>

definition funcs_inv ::
  "(u32 \<Rightarrow> bool) \<Rightarrow> u64 \<Rightarrow> function_address_map list \<Rightarrow> nat \<Rightarrow> (u64 \<times> func_transform) list \<Rightarrow> bool" where
  "funcs_inv is_default cso fts n m \<longleftrightarrow>
     ordered m \<and> fst ` set m = source_start cso ` set (take n fts) \<and>
     (\<forall>(a, f) \<in> set m. a = ft_start f \<and> ft_index f < length fts \<and>
        build_function_lookup is_default (fts ! ft_index f) cso = Inr (ft_start f, ft_end f, ft_lookup f))"

lemma funcs_fold:
  assumes "\<forall>ft \<in> set fts. function_ok is_default cso ft" "funcs_inv is_default cso fts n m" "n \<le> length fts"
  shows "\<exists>m'. fold_res (\<lambda>(i, ft) func.
         bind_res (build_function_lookup is_default ft cso) (\<lambda>(fn_start, fn_end, lookup).
         Inr (btree_insert fn_start \<lparr>ft_start = fn_start, ft_end = fn_end, ft_index = i, ft_lookup = lookup\<rparr> func)))
       (List.enumerate n (drop n fts)) m = Inr m' \<and> funcs_inv is_default cso fts (length fts) m'"
  using assms(2,3)
proof (induction "length fts - n" arbitrary: n m)
  case 0
  then show ?case by simp
next
  case (Suc d)
  then have n: "n < length fts" by simp
  let ?s = "source_start cso (fts ! n)" and ?e = "source_end cso (fts ! n)"
  obtain lookup where l: "build_function_lookup is_default (fts ! n) cso = Inr (?s, ?e, lookup)"
    using build_function_lookup_spec assms(1) n nth_mem by blast
  let ?f = "\<lparr>ft_start = ?s, ft_end = ?e, ft_index = n, ft_lookup = lookup\<rparr>"
  have "funcs_inv is_default cso fts (Suc n) (btree_insert ?s ?f m)"
    using Suc.prems(1) n l btree_insert_set [of ?s ?f m]
    by (auto simp: funcs_inv_def btree_insert_ordered btree_insert_keys take_Suc_conv_app_nth)
  then have "\<exists>m'. fold_res (\<lambda>(i, ft) func.
         bind_res (build_function_lookup is_default ft cso) (\<lambda>(fn_start, fn_end, lookup).
         Inr (btree_insert fn_start \<lparr>ft_start = fn_start, ft_end = fn_end, ft_index = i, ft_lookup = lookup\<rparr> func)))
       (List.enumerate (Suc n) (drop (Suc n) fts)) (btree_insert ?s ?f m) = Inr m' \<and> funcs_inv is_default cso fts (length fts) m'"
    using Suc.hyps n by (intro Suc.hyps(1)) auto
  then show ?case using l n by (simp flip: Cons_nth_drop_Suc)
qed

lemma find_func_spec:
  assumes "ordered (at_func self)" "\<forall>(a, f) \<in> set (at_func self). a = ft_start f"
  shows "case find_func self addr of
      None \<Rightarrow> \<forall>a \<in> fst ` set (at_func self). addr < a
    | Some f \<Rightarrow> (ft_start f, f) \<in> set (at_func self) \<and> ft_start f \<le> addr"
proof (cases "\<exists>a \<in> fst ` set (at_func self). a \<le> addr")
  case True
  let ?m = "at_func self"
  have ne: "?m \<noteq> []" using True by auto
  have hd: "fst (hd ?m) \<le> addr"
  proof -
    obtain x m where x: "?m = x # m" using ne by (cases ?m) auto
    obtain a where a: "a \<in> fst ` set ?m" "a \<le> addr" using True by blast
    then have "fst x \<le> a" using assms(1) by (auto simp: ordered_def x)
    then show ?thesis using a(2) x by simp
  qed
  have sorted: "sorted_wrt (<) (map fst ?m)" using assms(1) by (simp add: ordered_def)
  obtain i where i: "i < length ?m" "fst (?m ! i) \<le> addr"
    "(case binary_search fst ?m addr of Found i \<Rightarrow> Some i | Missing i \<Rightarrow> if 0 < i then Some (i - 1) else None) = Some i"
    by (rule binary_search_floor [OF sorted ne hd])
  have "?m ! i \<in> set ?m" using i(1) by simp
  then have "fst (?m ! i) = ft_start (snd (?m ! i))"
    using bspec [OF assms(2), of "?m ! i"] by (simp add: case_prod_unfold)
  then have e: "?m ! i = (ft_start (snd (?m ! i)), snd (?m ! i))" and le: "ft_start (snd (?m ! i)) \<le> addr"
    using i(2) by (simp_all add: prod_eq_iff)
  have "find_func self addr = Some (snd (?m ! i))"
    using i(3) le by (auto simp: find_func_def split: search_result.splits if_splits)
  then show ?thesis using \<open>?m ! i \<in> set ?m\<close> e le by simp
next
  case False
  let ?m = "at_func self"
  have gt: "addr < fst (?m ! i)" if "i < length ?m" for i using False that by (auto simp: not_le)
  have "binary_search fst ?m addr = Missing 0"
  proof (cases "binary_search fst ?m addr")
    case (Found i)
    then show ?thesis using binary_search_spec [OF ordered_sorted [OF assms(1)], of addr] gt [of i] by simp
  next
    case (Missing i)
    have "i = 0"
    proof (rule ccontr)
      assume "i \<noteq> 0"
      then have "0 < length ?m" "fst (?m ! 0) < addr"
        using binary_search_spec [OF ordered_sorted [OF assms(1)], of addr] Missing by auto
      then show False using gt [of 0] by simp
    qed
    then show ?thesis using Missing by simp
  qed
  then show ?thesis using False by (auto simp: find_func_def not_le)
qed

text \<open>The lookup of a function is built without a panic, and its ranges partition the instructions that
  have a source location: in order, each range with ascending positions inside its bounds, and the
  generated code of the ranges adjoining from the beginning of the body to its end.\<close>

theorem lookup_partitions_instructions:
  assumes "function_ok is_default cso ft"
  shows "\<exists>lookup. build_function_lookup is_default ft cso = Inr (source_start cso ft, source_end cso ft, lookup) \<and>
    concat (map positions (lk_ranges lookup)) = positions_of is_default cso (instructions ft) \<and>
    (\<forall>r \<in> set (lk_ranges lookup). range_ok (source_start cso ft) (source_end cso ft) r) \<and>
    chained (body_offset ft) (lk_ranges lookup) (body_offset ft + body_len ft)"
  using build_function_lookup_spec [OF assms] by (auto simp: lookup_spec_def ranges_spec_def)

text \<open>The function of the unit tests, with a second range.\<close>

definition sample_function :: function_address_map where
  "sample_function =
     \<lparr>instructions = [\<lparr>srcloc = 13, code_offset = 5, code_len = 3\<rparr>, \<lparr>srcloc = 18, code_offset = 15, code_len = 8\<rparr>,
        \<lparr>srcloc = 13, code_offset = 23, code_len = 3\<rparr>],
      start_srcloc = 11, end_srcloc = 21, body_offset = 0, body_len = 30\<rparr>"

definition is_unset :: "u32 \<Rightarrow> bool" where
  "is_unset loc \<longleftrightarrow> loc = 0xffffffff"

lemma sample_function_ok: "function_ok is_unset 1 sample_function" "code_ok sample_function"
  by (simp_all add: function_ok_def code_ok_def sample_function_def is_unset_def get_wasm_code_offset_def)

theorem lookup_partitions_instructions_witness:
  "\<exists>lookup. build_function_lookup is_unset sample_function 1 = Inr (10, 20, lookup) \<and>
     map wasm_pos (concat (map positions (lk_ranges lookup))) = [12, 17, 12] \<and> length (lk_ranges lookup) = 2"
proof -
  obtain lookup where l: "build_function_lookup is_unset sample_function 1 = Inr (source_start 1 sample_function, source_end 1 sample_function, lookup)"
    "concat (map positions (lk_ranges lookup)) = positions_of is_unset 1 (instructions sample_function)"
    using lookup_partitions_instructions [OF sample_function_ok(1)] by auto
  have "case build_function_lookup is_unset sample_function 1 of Inr (_, _, lookup) \<Rightarrow> length (lk_ranges lookup) = 2 | Inl _ \<Rightarrow> False"
    by code_simp
  then show ?thesis
    using l by (simp add: positions_of_def position_of_def sample_function_def is_unset_def get_wasm_code_offset_def)
qed

text \<open>C37. Which ranges are found at an address at or after the start of the function. With \<open>k\<close> the last start
  of a range at or before the address, they are the ranges that begin at or before the address and
  end at or after \<open>k\<close>: those that hold the address, but also those that ended between \<open>k\<close> and the
  address. Ranges that have the same start as a later one are never found.\<close>

theorem range_lookup_exact:
  assumes "function_ok is_default cso ft" "source_start cso ft \<le> addr"
    and "build_function_lookup is_default ft cso = Inr (ft_start func, ft_end func, ft_lookup func)"
  shows "\<exists>k indices. range_indices func addr = Inr indices \<and>
    k \<in> wasm_start ` set (lk_ranges (ft_lookup func)) \<and> k \<le> addr \<and>
    (\<forall>r \<in> set (lk_ranges (ft_lookup func)). wasm_start r \<le> addr \<longrightarrow> wasm_start r \<le> k) \<and>
    (\<forall>i. i \<in> set indices \<longleftrightarrow>
       (\<exists>r. get (lk_ranges (ft_lookup func)) i = Some r \<and> wasm_start r \<le> addr \<and> k \<le> wasm_end r \<and>
          (\<forall>j r'. i < j \<longrightarrow> get (lk_ranges (ft_lookup func)) j = Some r' \<longrightarrow> wasm_start r' \<noteq> wasm_start r)))"
proof -
  have spec: "lookup_spec is_default cso ft (ft_lookup func)"
    using build_function_lookup_spec [OF assms(1)] assms(3) by auto
  show ?thesis
    by (rule range_indices_spec [OF spec assms(2)]) (auto simp: last_start_def)
qed

text \<open>The ranges of the sample are 10 to 17 and 12 to 20. At 18 both are found, the first although it ended, since
  it had not at 12; before 12 only the first is.\<close>

theorem range_lookup_exact_witness:
  "\<exists>func k. build_function_lookup is_unset sample_function 1 = Inr (ft_start func, ft_end func, ft_lookup func) \<and>
     map (\<lambda>r. (wasm_start r, wasm_end r)) (lk_ranges (ft_lookup func)) = [(10, 17), (12, 20)] \<and>
     range_indices func 18 = Inr [0, 1] \<and> k = 12 \<and>
     (\<forall>r \<in> set (lk_ranges (ft_lookup func)). wasm_start r \<le> 18 \<longrightarrow> wasm_start r \<le> k) \<and> range_indices func 11 = Inr [0]"
proof -
  let ?func = "\<lambda>s e l. \<lparr>ft_start = s, ft_end = e, ft_index = 0, ft_lookup = l\<rparr>"
  have r: "case build_function_lookup is_unset sample_function 1 of Inl _ \<Rightarrow> False | Inr (s, e, l) \<Rightarrow>
      map (\<lambda>r. (wasm_start r, wasm_end r)) (lk_ranges l) = [(10, 17), (12, 20)] \<and>
      range_indices (?func s e l) 18 = Inr [0, 1] \<and> range_indices (?func s e l) 11 = Inr [0]"
    by code_simp
  then obtain s e l where l: "build_function_lookup is_unset sample_function 1 = Inr (s, e, l)"
    "map (\<lambda>r. (wasm_start r, wasm_end r)) (lk_ranges l) = [(10, 17), (12, 20)]"
    "range_indices (?func s e l) 18 = Inr [0, 1]" "range_indices (?func s e l) 11 = Inr [0]"
    by (auto split: sum.splits)
  obtain r0 r1 where rs: "lk_ranges l = [r0, r1]" "wasm_start r0 = 10" "wasm_start r1 = 12" using l(2) by auto
  have "source_start 1 sample_function \<le> 18" by (simp add: sample_function_def get_wasm_code_offset_def)
  then obtain k where "k \<in> {10, 12}" "\<forall>r \<in> {r0, r1}. wasm_start r \<le> 18 \<longrightarrow> wasm_start r \<le> k"
    using range_lookup_exact [OF sample_function_ok(1), of 18 "?func s e l"] l(1) rs by auto
  then have "k = 12" using rs by auto
  then show ?thesis using l rs by (intro exI [of _ "?func s e l"] exI [of _ k]) simp
qed

text \<open>Both ranges of the sample begin where a translation may end.\<close>

theorem translate_ranges_returns_iff_witness:
  "\<exists>self. address_transform_new is_unset [sample_function] 1 = Inr self \<and> translate_ranges_raw self 10 12 = None"
proof -
  let ?r = "address_transform_new is_unset [sample_function] 1"
  have r: "case ?r of Inl _ \<Rightarrow> False | Inr self \<Rightarrow>
      (case find_func self 10 of None \<Rightarrow> False | Some func \<Rightarrow>
         build_function_lookup is_unset sample_function 1 = Inr (ft_start func, ft_end func, ft_lookup func) \<and>
         ft_start func \<le> 12 \<and> 12 \<in> set (map wasm_start (lk_ranges (ft_lookup func))))"
    by code_simp
  then obtain self func where self: "?r = Inr self" "find_func self 10 = Some func"
    and f: "build_function_lookup is_unset sample_function 1 = Inr (ft_start func, ft_end func, ft_lookup func)"
      "ft_start func \<le> 12" "12 \<in> wasm_start ` set (lk_ranges (ft_lookup func))"
    by (auto split: sum.splits option.splits)
  have "translate_ranges_raw self 10 12 = None"
    using translate_ranges_returns_iff [OF self(2) _ sample_function_ok(1) f(1,2)] f(3) by simp
  then show ?thesis using self(1) by blast
qed

text \<open>At an address of a function the iterator has a first range, and its address is inside the code.\<close>

lemma first_address_bounded:
  assumes ok: "function_ok is_default cso ft" "code_ok ft"
    and b: "build_function_lookup is_default ft cso = Inr (ft_start f, ft_end f, ft_lookup f)"
    and le: "ft_start f \<le> addr"
  shows "\<exists>r tail. range_indices f addr = Inr (r # tail) \<and> r < length (lk_ranges (ft_lookup f)) \<and>
    start_address addr (lk_ranges (ft_lookup f) ! r) \<le> body_len ft"
proof -
  let ?rs = "lk_ranges (ft_lookup f)"
  have spec: "lookup_spec is_default cso ft (ft_lookup f)" and st: "ft_start f = source_start cso ft"
    using build_function_lookup_spec [OF ok(1)] b by auto
  obtain k indices where ix: "range_indices f addr = Inr indices" "k \<in> wasm_start ` set ?rs" "k \<le> addr"
    "\<forall>i. i \<in> set indices \<longleftrightarrow> (\<exists>a. last_start ?rs a i \<and> a \<le> addr \<and> k \<le> wasm_end (?rs ! i))"
    using range_indices_spec [OF spec, of addr] le st by metis
  obtain i0 where i0: "last_start ?rs k i0" using ix(2) last_start_exists by blast
  then have "k \<le> wasm_end (?rs ! i0)"
    using spec by (force simp: last_start_def lookup_spec_def ranges_spec_def range_ok_def)
  then obtain r tail where cons: "indices = r # tail" using ix(3,4) i0 by (cases indices) auto
  then have r: "r < length ?rs" using ix(4) by (auto simp: last_start_def)
  then have "start_address addr (?rs ! r) \<le> body_len ft" by (intro start_address_bounded [OF ok b]) simp
  then show ?thesis using ix(1) cons r by blast
qed

text \<open>C38. The transform of a module is built without a panic, and translating an address never panics: an
  address at or after the start of some function, other than zero, becomes an address in the code of
  a function that begins at or before it, and every other address has no translation.\<close>

theorem translate_in_code:
  assumes "\<forall>ft \<in> set fts. function_ok is_default cso ft \<and> code_ok ft"
  shows "\<exists>self. address_transform_new is_default fts cso = Inr self \<and>
    (\<forall>addr. \<exists>r. translate_raw self addr = Inr r \<and>
       (case r of
          None \<Rightarrow> addr = 0 \<or> (\<forall>ft \<in> set fts. addr < source_start cso ft)
        | Some (i, a) \<Rightarrow> i < length fts \<and> source_start cso (fts ! i) \<le> addr \<and> a \<le> body_len (fts ! i)))"
proof -
  have "funcs_inv is_default cso fts 0 []" by (simp add: funcs_inv_def ordered_def)
  then obtain m where m: "address_transform_new is_default fts cso =
      Inr \<lparr>at_map = build_function_addr_map is_default fts cso, at_func = m\<rparr>" "funcs_inv is_default cso fts (length fts) m"
    using funcs_fold [of fts is_default cso 0 "[]"] assms by (auto simp: address_transform_new_def)
  define self where "self = \<lparr>at_map = build_function_addr_map is_default fts cso, at_func = m\<rparr>"
  have keys: "fst ` set (at_func self) = source_start cso ` set fts" and ord: "ordered (at_func self)"
    and fs: "\<forall>(a, f) \<in> set (at_func self). a = ft_start f \<and> ft_index f < length fts \<and>
        build_function_lookup is_default (fts ! ft_index f) cso = Inr (ft_start f, ft_end f, ft_lookup f)"
    using m(2) by (auto simp: funcs_inv_def self_def)
  have "\<forall>(a, f) \<in> set (at_func self). a = ft_start f" using fs by auto
  note find = find_func_spec [OF ord this]
  have "\<exists>r. translate_raw self addr = Inr r \<and>
       (case r of
          None \<Rightarrow> addr = 0 \<or> (\<forall>ft \<in> set fts. addr < source_start cso ft)
        | Some (i, a) \<Rightarrow> i < length fts \<and> source_start cso (fts ! i) \<le> addr \<and> a \<le> body_len (fts ! i))" for addr
  proof (cases "addr = 0 \<or> find_func self addr = None")
    case True
    then show ?thesis
      using find [of addr] keys by (auto simp: translate_raw_def split: option.splits)
  next
    case False
    then obtain f where f: "find_func self addr = Some f" "addr \<noteq> 0" by auto
    have "(ft_start f, f) \<in> set (at_func self)" and le: "ft_start f \<le> addr"
      using find [of addr] f(1) by auto
    then have i: "ft_index f < length fts"
      and b: "build_function_lookup is_default (fts ! ft_index f) cso = Inr (ft_start f, ft_end f, ft_lookup f)"
      using fs by auto
    have ok: "function_ok is_default cso (fts ! ft_index f)" "code_ok (fts ! ft_index f)" using assms i by auto
    have st: "ft_start f = source_start cso (fts ! ft_index f)"
      using build_function_lookup_spec [OF ok(1)] b by auto
    show ?thesis
    proof (cases "addr = ft_end f")
      case True
      then show ?thesis
        using f i le st by (auto simp: translate_raw_def self_def build_function_addr_map_def index_res_def)
    next
      case False
      then obtain r tail where "range_indices f addr = Inr (r # tail)" "r < length (lk_ranges (ft_lookup f))"
          "start_address addr (lk_ranges (ft_lookup f) ! r) \<le> body_len (fts ! ft_index f)"
        using first_address_bounded [OF ok b] le by blast
      then show ?thesis
        using f False i le st by (simp add: translate_raw_def range_iter_next_def index_res_def)
    qed
  qed
  then show ?thesis using m(1) by (auto simp: self_def)
qed

theorem translate_in_code_witness:
  "\<exists>self. address_transform_new is_unset [sample_function] 1 = Inr self \<and>
     translate_raw self 12 = Inr (Some (0, 5)) \<and> translate_raw self 9 = Inr None"
proof -
  obtain self where self: "address_transform_new is_unset [sample_function] 1 = Inr self"
    using translate_in_code [of "[sample_function]" is_unset 1] sample_function_ok by auto
  have "case address_transform_new is_unset [sample_function] 1 of Inl _ \<Rightarrow> False
    | Inr self \<Rightarrow> translate_raw self 12 = Inr (Some (0, 5)) \<and> translate_raw self 9 = Inr None"
    by code_simp
  then show ?thesis using self by simp
qed

end
