(* ===== verification/Debug_Gc.thy ===== *)
theory Debug_Gc
  imports Address_Transform "HOL-Library.AList"
begin

text \<open>
  Which entries of the debug information are kept (\<^verbatim>\<open>wasmtime-debug/src/gc.rs\<close>): the graph of the dependencies between entries, and
  the entries that are reachable in it from the functions whose code was generated.

  What the gimli library reads is data: an entry has a tag, an offset, the values of its attributes in order, a lookup
  of an attribute by name, and children; each of them may be an error instead. The list that stands for a \<^verbatim>\<open>HashSet\<close> is the
  order in which the set is iterated.
\<close>

section \<open>Dependencies\<close>

datatype unit_section_offset = DebugInfoOffset usize | DebugTypesOffset usize

record dependencies =
  dep_edges :: "(unit_section_offset \<times> unit_section_offset list) list"
  dep_roots :: "unit_section_offset list"

definition dependencies_new :: dependencies where
  "dependencies_new = \<lparr>dep_edges = [], dep_roots = []\<rparr>"

definition add_edge :: "unit_section_offset \<Rightarrow> unit_section_offset \<Rightarrow> dependencies \<Rightarrow> dependencies" where
  "add_edge a b deps =
     deps\<lparr>dep_edges :=
       (case map_of (dep_edges deps) a of
          Some s \<Rightarrow> AList.update a (List.insert b s) (dep_edges deps)
        | None \<Rightarrow> AList.update a [b] (dep_edges deps))\<rparr>"

definition add_root :: "unit_section_offset \<Rightarrow> dependencies \<Rightarrow> dependencies" where
  "add_root root deps = deps\<lparr>dep_roots := List.insert root (dep_roots deps)\<rparr>"

text \<open>The body of both loops of \<^verbatim>\<open>get_reachable\<close>: the top of the stack is the head of the list.\<close>

definition visit ::
  "('a \<times> 'a list) list \<Rightarrow> 'a \<Rightarrow> 'a list \<times> 'a list \<Rightarrow> 'a list \<times> 'a list" where
  "visit edges i state =
     (case map_of edges i of
        None \<Rightarrow> state
      | Some deps \<Rightarrow>
          fold (\<lambda>j (reachable, queue). if j \<in> set reachable then (reachable, queue) else (j # reachable, j # queue))
            deps state)"

definition targets :: "('a \<times> 'a list) list \<Rightarrow> 'a set" where
  "targets edges = (\<Union>(a, s) \<in> set edges. set s)"

lemma visit_fold:
  "\<exists>new. fold (\<lambda>j (r, q). if j \<in> set r then (r, q) else (j # r, j # q)) deps (r, q) = (new @ r, new @ q) \<and>
     set new = set deps - set r \<and> distinct new"
proof (induction deps arbitrary: r q)
  case (Cons j deps)
  show ?case
  proof (cases "j \<in> set r")
    case True
    then show ?thesis using Cons.IH [of r q] by (simp add: insert_Diff_if)
  next
    case False
    obtain new where "fold (\<lambda>j (r, q). if j \<in> set r then (r, q) else (j # r, j # q)) deps (j # r, j # q) =
        (new @ j # r, new @ j # q)" "set new = set deps - set (j # r)" "distinct new"
      using Cons.IH [of "j # r" "j # q"] by (elim exE conjE)
    then show ?thesis using False by (intro exI [of _ "new @ [j]"]) auto
  qed
qed simp

lemma visit_new:
  obtains new where "visit edges i (r, q) = (new @ r, new @ q)" "distinct new" "set new \<subseteq> targets edges - set r"
    "set (new @ r) = set r \<union> {j. \<exists>s. map_of edges i = Some s \<and> j \<in> set s}"
proof (cases "map_of edges i")
  case None
  then show ?thesis using that [of "[]"] by (simp add: visit_def)
next
  case (Some s)
  from visit_fold [of s r q]
  obtain new where "fold (\<lambda>j (r, q). if j \<in> set r then (r, q) else (j # r, j # q)) s (r, q) = (new @ r, new @ q)"
    "set new = set s - set r" "distinct new" by (elim exE conjE)
  moreover have "set s \<subseteq> targets edges" using map_of_SomeD [OF Some] by (auto simp: targets_def)
  ultimately show ?thesis using that [of new] Some by (auto simp: visit_def)
qed

lemma finite_targets [simp]: "finite (targets edges)"
  by (auto simp: targets_def)

function drain :: "('a \<times> 'a list) list \<Rightarrow> 'a list \<times> 'a list \<Rightarrow> 'a list" where
  "drain edges (reachable, []) = reachable"
| "drain edges (reachable, i # queue) = drain edges (visit edges i (reachable, queue))"
  by pat_completeness auto
termination
proof (relation "measure (\<lambda>(edges, r, q). 2 * card (targets edges - set r) + length q)")
  fix edges :: "('a \<times> 'a list) list" and r i q
  obtain new where n: "visit edges i (r, q) = (new @ r, new @ q)" "distinct new" "set new \<subseteq> targets edges - set r"
    by (rule visit_new)
  have "targets edges - set (new @ r) = (targets edges - set r) - set new" by auto
  then have "card (targets edges - set (new @ r)) = card (targets edges - set r) - length new"
    using n(2,3) by (simp add: card_Diff_subset distinct_card)
  moreover have "length new \<le> card (targets edges - set r)"
    using n(2,3) card_mono [of "targets edges - set r" "set new"] by (simp add: distinct_card)
  ultimately show "((edges, visit edges i (r, q)), edges, r, i # q)
      \<in> measure (\<lambda>(edges, r, q). 2 * card (targets edges - set r) + length q)"
    by (simp add: n(1))
qed simp

definition get_reachable :: "dependencies \<Rightarrow> unit_section_offset list" where
  "get_reachable deps = drain (dep_edges deps) (fold (visit (dep_edges deps)) (dep_roots deps) (dep_roots deps, []))"

section \<open>Entries\<close>

type_synonym tag = "16 word"
type_synonym attr_name = "16 word"

datatype attr_value = Addr u64 | Udata u64 | RangeListsRef usize | DebugRngListsIndex usize | UnitRef usize | DebugInfoRef usize
  | OtherValue

datatype raw_rng_list_entry =
    AddressOrOffsetPair u64 u64
  | BaseAddress u64
  | BaseAddressx usize
  | StartxEndx usize usize
  | StartxLength usize u64
  | OffsetPair u64 u64
  | StartEnd u64 u64
  | StartLength u64 u64

datatype die =
  Die (die_tag: tag) (die_offset: usize) (die_attrs: "attr_value res list") (die_attr_value: "attr_name \<Rightarrow> attr_value option res")
    (die_children: "die res list")

text \<open>What is read through the unit and the sections of the file.\<close>

record dwarf_unit =
  du_section_offset :: "usize \<Rightarrow> unit_section_offset"
  du_ranges_offset :: "usize \<Rightarrow> usize res"
  du_raw_ranges :: "usize \<Rightarrow> raw_rng_list_entry res list res"
  du_address :: "usize \<Rightarrow> u64 res"

definition DW_TAG_formal_parameter :: tag where "DW_TAG_formal_parameter = 0x05"
definition DW_TAG_label :: tag where "DW_TAG_label = 0x0a"
definition DW_TAG_lexical_block :: tag where "DW_TAG_lexical_block = 0x0b"
definition DW_TAG_member :: tag where "DW_TAG_member = 0x0d"
definition DW_TAG_inlined_subroutine :: tag where "DW_TAG_inlined_subroutine = 0x1d"
definition DW_TAG_with_stmt :: tag where "DW_TAG_with_stmt = 0x22"
definition DW_TAG_catch_block :: tag where "DW_TAG_catch_block = 0x25"
definition DW_TAG_constant :: tag where "DW_TAG_constant = 0x27"
definition DW_TAG_subprogram :: tag where "DW_TAG_subprogram = 0x2e"
definition DW_TAG_template_type_parameter :: tag where "DW_TAG_template_type_parameter = 0x2f"
definition DW_TAG_try_block :: tag where "DW_TAG_try_block = 0x32"
definition DW_TAG_variable :: tag where "DW_TAG_variable = 0x34"
definition DW_AT_low_pc :: attr_name where "DW_AT_low_pc = 0x11"
definition DW_AT_high_pc :: attr_name where "DW_AT_high_pc = 0x12"
definition DW_AT_ranges :: attr_name where "DW_AT_ranges = 0x55"

definition has_die_back_edge :: "die \<Rightarrow> bool" where
  "has_die_back_edge d \<longleftrightarrow>
     die_tag d \<in> {DW_TAG_variable, DW_TAG_constant, DW_TAG_inlined_subroutine, DW_TAG_lexical_block, DW_TAG_label,
       DW_TAG_with_stmt, DW_TAG_try_block, DW_TAG_catch_block, DW_TAG_template_type_parameter, DW_TAG_member,
       DW_TAG_formal_parameter}"

text \<open>The loop over the entries of a range list, with whether the base address can be translated when there is one.\<close>

fun scan_ranges :: "dwarf_unit \<Rightarrow> address_transform \<Rightarrow> raw_rng_list_entry res list \<Rightarrow> bool option \<Rightarrow> bool res" where
  "scan_ranges u at [] has_valid_base = Inr False"
| "scan_ranges u at (Inl e # rest) has_valid_base = Inl e"
| "scan_ranges u at (Inr entry # rest) has_valid_base =
     (let test = (\<lambda>addr. bind_res (can_translate_address at addr) (\<lambda>b.
            if b then Inr True else scan_ranges u at rest has_valid_base));
          base = (\<lambda>addr. bind_res (can_translate_address at addr) (\<lambda>b. scan_ranges u at rest (Some b)))
      in case entry of
           AddressOrOffsetPair begin _ \<Rightarrow>
             (case has_valid_base of
                Some True \<Rightarrow> Inr True
              | Some False \<Rightarrow> scan_ranges u at rest has_valid_base
              | None \<Rightarrow> test begin)
         | StartEnd begin _ \<Rightarrow> test begin
         | StartLength begin _ \<Rightarrow> test begin
         | StartxEndx begin _ \<Rightarrow> bind_res (du_address u begin) test
         | StartxLength begin _ \<Rightarrow> bind_res (du_address u begin) test
         | BaseAddress addr \<Rightarrow> base addr
         | BaseAddressx addr \<Rightarrow> bind_res (du_address u addr) base
         | OffsetPair _ _ \<Rightarrow> scan_ranges u at rest has_valid_base)"

definition has_valid_code_range :: "dwarf_unit \<Rightarrow> address_transform \<Rightarrow> die \<Rightarrow> bool res" where
  "has_valid_code_range u at d =
     (if die_tag d = DW_TAG_subprogram
      then bind_res (die_attr_value d DW_AT_ranges) (\<lambda>ranges_attr.
        case ranges_attr of
          Some v \<Rightarrow>
            bind_res
              (case v of
                 RangeListsRef val \<Rightarrow> Inr (Some val)
               | DebugRngListsIndex index \<Rightarrow> bind_res (du_ranges_offset u index) (\<lambda>x. Inr (Some x))
               | _ \<Rightarrow> Inr None)
              (\<lambda>offset.
            case offset of
              None \<Rightarrow> Inr False
            | Some off \<Rightarrow>
                bind_res (die_attr_value d DW_AT_low_pc) (\<lambda>low.
                bind_res
                  (case low of
                     Some (Addr low_pc) \<Rightarrow> bind_res (can_translate_address at low_pc) (\<lambda>b. Inr (Some b))
                   | _ \<Rightarrow> Inr None)
                  (\<lambda>has_valid_base.
                bind_res (du_raw_ranges u off) (\<lambda>it. scan_ranges u at it has_valid_base))))
        | None \<Rightarrow>
            bind_res (die_attr_value d DW_AT_low_pc) (\<lambda>low.
            case low of
              Some (Addr a) \<Rightarrow> can_translate_address at a
            | _ \<Rightarrow> Inr False))
      else Inr False)"

definition build_attr_dependencies ::
  "dwarf_unit \<Rightarrow> unit_section_offset \<Rightarrow> attr_value \<Rightarrow> dependencies \<Rightarrow> dependencies" where
  "build_attr_dependencies u offset v deps =
     (case v of
        UnitRef val \<Rightarrow> add_edge offset (du_section_offset u val) deps
      | DebugInfoRef val \<Rightarrow> add_edge offset (DebugInfoOffset val) deps
      | _ \<Rightarrow> deps)"

function build_die_dependencies :: "dwarf_unit \<Rightarrow> address_transform \<Rightarrow> die \<Rightarrow> dependencies \<Rightarrow> dependencies res"
  and build_children :: "dwarf_unit \<Rightarrow> address_transform \<Rightarrow> unit_section_offset \<Rightarrow> die res list \<Rightarrow> dependencies \<Rightarrow> dependencies res"
where
  "build_die_dependencies u at (Die t off attrs av children) deps =
     bind_res (fold_res (\<lambda>attr deps. bind_res attr (\<lambda>v. Inr (build_attr_dependencies u (du_section_offset u off) v deps))) attrs deps)
       (build_children u at (du_section_offset u off) children)"
| "build_children u at offset [] deps = Inr deps"
| "build_children u at offset (Inl e # children) deps = Inl e"
| "build_children u at offset (Inr child # children) deps =
     (let child_offset = du_section_offset u (die_offset child);
          deps = add_edge child_offset offset deps;
          deps = (if has_die_back_edge child then add_edge offset child_offset deps else deps)
      in bind_res (has_valid_code_range u at child) (\<lambda>valid.
         bind_res (build_die_dependencies u at child (if valid then add_root child_offset deps else deps))
           (build_children u at offset children)))"
  by pat_completeness auto
termination
  by (relation "measure (case_sum (\<lambda>(u, at, d, deps). size d)
    (\<lambda>(u, at, offset, children, deps). size_list (size_sum (\<lambda>x. 0) size) children))") auto

text \<open>The units of the file, each with the root of its tree of entries, which may fail to be read.\<close>

definition build_dependencies :: "address_transform \<Rightarrow> (dwarf_unit \<times> die) res list \<Rightarrow> dependencies res" where
  "build_dependencies at units =
     fold_res (\<lambda>unit deps. bind_res unit (\<lambda>(u, root). build_die_dependencies u at root deps)) units dependencies_new"

section \<open>What is reachable\<close>

definition edge_rel :: "('a \<times> 'a list) list \<Rightarrow> ('a \<times> 'a) set" where
  "edge_rel edges = {(a, b). \<exists>s. map_of edges a = Some s \<and> b \<in> set s}"

lemma reach_more: "i \<in> A \<Longrightarrow> E\<^sup>* `` (A \<union> E `` {i}) = E\<^sup>* `` A"
  by (auto intro: converse_rtrancl_into_rtrancl)

lemma visit_reach:
  obtains new where "visit edges i (r, q) = (new @ r, new @ q)" "set (new @ r) = set r \<union> edge_rel edges `` {i}"
  by (rule visit_new [of edges i r q]) (auto simp: edge_rel_def)

text \<open>Everything found has its successors found or waits for its turn, in \<open>todo\<close> or on the stack.\<close>

definition explored :: "('a \<times> 'a list) list \<Rightarrow> 'a list \<Rightarrow> 'a list \<Rightarrow> bool" where
  "explored edges todo r \<longleftrightarrow> set todo \<subseteq> set r \<and> (\<forall>x \<in> set r. x \<in> set todo \<or> edge_rel edges `` {x} \<subseteq> set r)"

lemma explored_visit:
  assumes "explored edges (i # todo @ q) r" and "set (new @ r) = set r \<union> edge_rel edges `` {i}"
  shows "explored edges (todo @ new @ q) (new @ r)"
  using assms unfolding explored_def by (auto 0 3)

lemma drain_reaches: "explored edges q r \<Longrightarrow> set (drain edges (r, q)) = (edge_rel edges)\<^sup>* `` set r"
proof (induction edges "(r, q)" arbitrary: r q rule: drain.induct)
  case (1 edges r)
  then have "edge_rel edges `` set r \<subseteq> set r" by (auto simp: explored_def)
  then show ?case by (auto simp: Image_closed_trancl)
next
  case (2 edges r i q)
  obtain new where n: "visit edges i (r, q) = (new @ r, new @ q)" "set (new @ r) = set r \<union> edge_rel edges `` {i}"
    by (rule visit_reach)
  have "explored edges (new @ q) (new @ r)" using explored_visit [OF _ n(2), of "[]"] 2(2) by simp
  moreover have "i \<in> set r" using 2(2) by (simp add: explored_def)
  ultimately show ?case using 2(1) [OF n(1)] n by (simp add: reach_more)
qed

lemma roots_explored:
  assumes "explored edges (todo @ q) r"
  shows "\<exists>r' q'. fold (visit edges) todo (r, q) = (r', q') \<and> explored edges q' r' \<and>
    (edge_rel edges)\<^sup>* `` set r' = (edge_rel edges)\<^sup>* `` set r"
  using assms
proof (induction todo arbitrary: r q)
  case (Cons i todo)
  obtain new where n: "visit edges i (r, q) = (new @ r, new @ q)" "set (new @ r) = set r \<union> edge_rel edges `` {i}"
    by (rule visit_reach)
  have "i \<in> set r" using Cons.prems by (simp add: explored_def)
  then show ?case using Cons.IH [of "new @ q" "new @ r"] explored_visit [OF _ n(2)] Cons.prems n by (simp add: reach_more)
qed simp

lemma get_reachable_exact: "set (get_reachable deps) = (edge_rel (dep_edges deps))\<^sup>* `` set (dep_roots deps)"
proof -
  have "explored (dep_edges deps) (dep_roots deps @ []) (dep_roots deps)" by (simp add: explored_def)
  from roots_explored [OF this] show ?thesis by (auto simp: get_reachable_def drain_reaches)
qed

section \<open>The graph of a file\<close>

inductive in_tree :: "die \<Rightarrow> die \<Rightarrow> bool" where
  here: "in_tree d d"
| below: "Inr c \<in> set (die_children d) \<Longrightarrow> in_tree p c \<Longrightarrow> in_tree p d"

inductive_cases in_treeE: "in_tree p d"

abbreviation offset_of :: "dwarf_unit \<Rightarrow> die \<Rightarrow> unit_section_offset" where
  "offset_of u d \<equiv> du_section_offset u (die_offset d)"

text \<open>The references of an entry, the edge from each child to it, and the one back to a child that cannot be without it.\<close>

definition attr_targets :: "dwarf_unit \<Rightarrow> attr_value \<Rightarrow> unit_section_offset set" where
  "attr_targets u v = (case v of UnitRef x \<Rightarrow> {du_section_offset u x} | DebugInfoRef x \<Rightarrow> {DebugInfoOffset x} | _ \<Rightarrow> {})"

definition child_edges :: "dwarf_unit \<Rightarrow> unit_section_offset \<Rightarrow> die \<Rightarrow> (unit_section_offset \<times> unit_section_offset) set" where
  "child_edges u p c = insert (offset_of u c, p) (if has_die_back_edge c then {(p, offset_of u c)} else {})"

definition own_edges :: "dwarf_unit \<Rightarrow> die \<Rightarrow> (unit_section_offset \<times> unit_section_offset) set" where
  "own_edges u d = {offset_of u d} \<times> (\<Union>v \<in> {v. Inr v \<in> set (die_attrs d)}. attr_targets u v) \<union>
     (\<Union>c \<in> {c. Inr c \<in> set (die_children d)}. child_edges u (offset_of u d) c)"

definition tree_edges :: "dwarf_unit \<Rightarrow> die \<Rightarrow> (unit_section_offset \<times> unit_section_offset) set" where
  "tree_edges u d = (\<Union>p \<in> {p. in_tree p d}. own_edges u p)"

definition own_roots :: "dwarf_unit \<Rightarrow> address_transform \<Rightarrow> die \<Rightarrow> unit_section_offset set" where
  "own_roots u at d = {offset_of u c | c. Inr c \<in> set (die_children d) \<and> has_valid_code_range u at c = Inr True}"

definition tree_roots :: "dwarf_unit \<Rightarrow> address_transform \<Rightarrow> die \<Rightarrow> unit_section_offset set" where
  "tree_roots u at d = (\<Union>p \<in> {p. in_tree p d}. own_roots u at p)"

lemma in_tree_rec: "{p. in_tree p d} = insert d (\<Union>c \<in> {c. Inr c \<in> set (die_children d)}. {p. in_tree p c})"
  by (auto intro: in_tree.intros elim: in_treeE)

lemma tree_edges_rec: "tree_edges u d = own_edges u d \<union> (\<Union>c \<in> {c. Inr c \<in> set (die_children d)}. tree_edges u c)"
  unfolding tree_edges_def by (subst in_tree_rec) blast

lemma tree_roots_rec: "tree_roots u at d = own_roots u at d \<union> (\<Union>c \<in> {c. Inr c \<in> set (die_children d)}. tree_roots u at c)"
  unfolding tree_roots_def by (subst in_tree_rec) blast

abbreviation edges_of :: "dependencies \<Rightarrow> (unit_section_offset \<times> unit_section_offset) set" where
  "edges_of deps \<equiv> edge_rel (dep_edges deps)"

lemma add_edge_graph [simp]: "edges_of (add_edge a b deps) = insert (a, b) (edges_of deps)"
  "dep_roots (add_edge a b deps) = dep_roots deps"
  by (auto simp: add_edge_def edge_rel_def update_conv' split: option.splits if_splits)

lemma add_root_graph [simp]: "edges_of (add_root a deps) = edges_of deps" "set (dep_roots (add_root a deps)) = insert a (set (dep_roots deps))"
  by (simp_all add: add_root_def)

lemma attr_graph:
  assumes "fold_res (\<lambda>attr deps. bind_res attr (\<lambda>v. Inr (build_attr_dependencies u a v deps))) attrs deps = Inr deps'"
  shows "edges_of deps' = edges_of deps \<union> {a} \<times> (\<Union>v \<in> {v. Inr v \<in> set attrs}. attr_targets u v) \<and> dep_roots deps' = dep_roots deps"
  using assms
proof (induction attrs arbitrary: deps)
  case (Cons x attrs)
  then obtain v where v: "x = Inr v" by (cases x) (auto simp: bind_res_def)
  have "edges_of (build_attr_dependencies u a v deps) = edges_of deps \<union> {a} \<times> attr_targets u v \<and>
      dep_roots (build_attr_dependencies u a v deps) = dep_roots deps"
    by (cases v) (auto simp: build_attr_dependencies_def attr_targets_def)
  then show ?case using Cons.IH [of "build_attr_dependencies u a v deps"] Cons.prems v by (auto simp: bind_res_def)
qed auto

lemma tree_graph:
  "build_die_dependencies u at d deps = Inr deps' \<Longrightarrow>
     edges_of deps' = edges_of deps \<union> tree_edges u d \<and> set (dep_roots deps') = set (dep_roots deps) \<union> tree_roots u at d"
  "build_children u at a children deps = Inr deps' \<Longrightarrow>
     edges_of deps' = edges_of deps \<union> (\<Union>c \<in> {c. Inr c \<in> set children}. child_edges u a c \<union> tree_edges u c) \<and>
     set (dep_roots deps') = set (dep_roots deps) \<union>
       (\<Union>c \<in> {c. Inr c \<in> set children}. {offset_of u c | x. has_valid_code_range u at c = Inr True} \<union> tree_roots u at c)"
proof (induction u at d deps and u at a children deps arbitrary: deps' and deps' rule: build_die_dependencies_build_children.induct)
  case (1 u at t off attrs av children deps)
  let ?d = "Die t off attrs av children"
  obtain deps1 where d: "fold_res (\<lambda>attr deps. bind_res attr (\<lambda>v. Inr (build_attr_dependencies u (du_section_offset u off) v deps)))
      attrs deps = Inr deps1" "build_children u at (du_section_offset u off) children deps1 = Inr deps'"
    using 1(2) by (auto simp: bind_res_Inr_iff)
  note IH = 1(1) [OF d] and attr = attr_graph [OF d(1)]
  have "edges_of deps' = edges_of deps \<union> tree_edges u ?d"
    unfolding tree_edges_rec [of u ?d] own_edges_def using IH attr by auto
  moreover have "set (dep_roots deps') = set (dep_roots deps) \<union> tree_roots u at ?d"
    unfolding tree_roots_rec [of u at ?d] own_roots_def using IH attr by auto
  ultimately show ?case by blast
next
  case (4 u at a c children deps)
  let ?deps = "if has_die_back_edge c then add_edge a (offset_of u c) (add_edge (offset_of u c) a deps)
    else add_edge (offset_of u c) a deps"
  obtain valid deps1 where d: "has_valid_code_range u at c = Inr valid"
    "build_die_dependencies u at c (if valid then add_root (offset_of u c) ?deps else ?deps) = Inr deps1"
    "build_children u at a children deps1 = Inr deps'"
    using 4(3) by (auto simp: bind_res_Inr_iff Let_def)
  have "edges_of ?deps = edges_of deps \<union> child_edges u a c" "dep_roots ?deps = dep_roots deps"
    by (auto simp: child_edges_def Let_def)
  then show ?case using 4(1) [OF refl refl refl d(1,2)] 4(2) [OF refl refl refl d] d(1) by auto
qed auto

text \<open>C35. What the transformation keeps of the debug information of a file that is read without error is exactly what is needed: the entries
  reachable from the functions whose code can be translated, over the references of an entry, the edge from a child to its parent,
  and the edge back to a child without which the parent would be incomplete.\<close>

theorem kept_entries_exact:
  assumes "build_dependencies at units = Inr deps"
  shows "set (get_reachable deps) =
    (\<Union>(u, d) \<in> {x. Inr x \<in> set units}. tree_edges u d)\<^sup>* `` (\<Union>(u, d) \<in> {x. Inr x \<in> set units}. tree_roots u at d)"
proof -
  have "edges_of deps = edges_of deps0 \<union> (\<Union>(u, d) \<in> {x. Inr x \<in> set units}. tree_edges u d) \<and>
      set (dep_roots deps) = set (dep_roots deps0) \<union> (\<Union>(u, d) \<in> {x. Inr x \<in> set units}. tree_roots u at d)"
    if "fold_res (\<lambda>unit deps. bind_res unit (\<lambda>(u, root). build_die_dependencies u at root deps)) units deps0 = Inr deps" for deps0
    using that
  proof (induction units arbitrary: deps0)
    case (Cons x units)
    then obtain u d deps1 where x: "x = Inr (u, d)" "build_die_dependencies u at d deps0 = Inr deps1"
      "fold_res (\<lambda>unit deps. bind_res unit (\<lambda>(u, root). build_die_dependencies u at root deps)) units deps1 = Inr deps"
      by (cases x) (auto simp: bind_res_Inr_iff)
    from Cons.IH [OF x(3)] tree_graph(1) [OF x(2)] show ?case by (auto simp: x(1))
  qed auto
  from this [OF assms [unfolded build_dependencies_def]]
  have "edges_of deps = (\<Union>(u, d) \<in> {x. Inr x \<in> set units}. tree_edges u d)"
    "set (dep_roots deps) = (\<Union>(u, d) \<in> {x. Inr x \<in> set units}. tree_roots u at d)"
    by (auto simp: dependencies_new_def edge_rel_def)
  then show ?thesis by (simp add: get_reachable_exact)
qed

text \<open>A function with a type it refers to, and a type that nothing refers to.\<close>

definition example_transform :: address_transform where
  "example_transform =
     \<lparr>at_map = [\<lparr>fm_offset = 0, fm_len = 16, fm_wasm_start = 1, fm_wasm_end = 5, fm_addresses = []\<rparr>],
      at_func = [(1, \<lparr>ft_start = 1, ft_end = 5, ft_index = 0, ft_lookup = \<lparr>lk_index = [], lk_ranges = []\<rparr>\<rparr>)]\<rparr>"

definition example_unit :: dwarf_unit where
  "example_unit = \<lparr>du_section_offset = DebugInfoOffset, du_ranges_offset = (\<lambda>_. Inl (Err ''index'')),
     du_raw_ranges = (\<lambda>_. Inr []), du_address = (\<lambda>_. Inl (Err ''address''))\<rparr>"

definition example_die :: die where
  "example_die = Die 0x11 0 [] (\<lambda>_. Inr None)
     [Inr (Die DW_TAG_subprogram 10 [Inr (UnitRef 30)] (\<lambda>n. Inr (if n = DW_AT_low_pc then Some (Addr 5) else None)) []),
      Inr (Die 0x24 20 [] (\<lambda>_. Inr None) []), Inr (Die 0x24 30 [] (\<lambda>_. Inr None) [])]"

lemma address_translates: "can_translate_address example_transform 5 = Inr True"
  by (simp add: can_translate_address_def translate_def translate_raw_def find_func_def example_transform_def binary_search_def
      search_base.simps index_res_def)

lemma example_dependencies:
  "build_dependencies example_transform [Inr (example_unit, example_die)] =
     Inr \<lparr>dep_edges = [(DebugInfoOffset 10, [DebugInfoOffset 30, DebugInfoOffset 0]), (DebugInfoOffset 20, [DebugInfoOffset 0]),
       (DebugInfoOffset 30, [DebugInfoOffset 0])], dep_roots = [DebugInfoOffset 10]\<rparr>"
  by (simp add: build_dependencies_def example_die_def example_unit_def has_valid_code_range_def has_die_back_edge_def
      add_edge_def add_root_def dependencies_new_def build_attr_dependencies_def address_translates Let_def
      DW_TAG_subprogram_def DW_TAG_formal_parameter_def DW_TAG_label_def DW_TAG_lexical_block_def DW_TAG_member_def
      DW_TAG_inlined_subroutine_def DW_TAG_with_stmt_def DW_TAG_catch_block_def DW_TAG_constant_def
      DW_TAG_template_type_parameter_def DW_TAG_try_block_def DW_TAG_variable_def DW_AT_low_pc_def DW_AT_ranges_def)

theorem kept_entries_exact_witness:
  "\<exists>deps. build_dependencies example_transform [Inr (example_unit, example_die)] = Inr deps \<and>
     set (get_reachable deps) = {DebugInfoOffset 0, DebugInfoOffset 10, DebugInfoOffset 30} \<and>
     (tree_edges example_unit example_die)\<^sup>* `` tree_roots example_unit example_transform example_die =
       {DebugInfoOffset 0, DebugInfoOffset 10, DebugInfoOffset 30}"
proof -
  let ?deps = "\<lparr>dep_edges = [(DebugInfoOffset 10, [DebugInfoOffset 30, DebugInfoOffset 0]), (DebugInfoOffset 20, [DebugInfoOffset 0]),
    (DebugInfoOffset 30, [DebugInfoOffset 0])], dep_roots = [DebugInfoOffset 10]\<rparr>"
  have "set (get_reachable ?deps) = {DebugInfoOffset 0, DebugInfoOffset 10, DebugInfoOffset 30}"
    by (simp add: get_reachable_def visit_def insert_commute)
  then show ?thesis
    using kept_entries_exact [OF example_dependencies] example_dependencies by (intro exI [of _ ?deps]) simp
qed

end
