(* ===== verification/Range_Info.thy ===== *)
theory Range_Info
  imports Debug_Gc
begin

text \<open>
  The addresses of an entry of the debug information (\<^verbatim>\<open>wasmtime-debug/src/transform/range_info_builder.rs\<close>): where they come from in the
  module and what is written for the generated code. The entries of a range list that the gimli library reads are
  data that may end in an error; a range list that is written is the list itself instead of its identifier. What translates a
  range may not return, so neither may what is built on it.
\<close>

section \<open>Definitions\<close>

record debug_input_context =
  dc_ranges :: "usize \<Rightarrow> u64 \<Rightarrow> (u64 \<times> u64) res list res"

datatype range_info_builder = RUndefined | RPosition u64 | RRanges "(u64 \<times> u64) list" | RFunction nat

datatype out_attr = LowPc write_address | HighPc u64 | Ranges "(write_address \<times> u64) list"

definition from_ranges_ref :: "usize \<Rightarrow> debug_input_context \<Rightarrow> u64 \<Rightarrow> range_info_builder res" where
  "from_ranges_ref r ctx cu_low_pc =
     bind_res (dc_ranges ctx r cu_low_pc) (\<lambda>ranges.
     bind_res (map_res (\<lambda>rng. rng) ranges) (\<lambda>result.
     Inr (if length result > 0 then RRanges result else RUndefined)))"

definition range_info_from :: "die \<Rightarrow> debug_input_context \<Rightarrow> u64 \<Rightarrow> range_info_builder res" where
  "range_info_from entry ctx cu_low_pc =
     bind_res (die_attr_value entry DW_AT_ranges) (\<lambda>ranges.
       case ranges of
         Some (RangeListsRef r) \<Rightarrow> from_ranges_ref r ctx cu_low_pc
       | _ \<Rightarrow>
           bind_res (die_attr_value entry DW_AT_low_pc) (\<lambda>low.
             case low of
               Some (Addr low_pc) \<Rightarrow>
                 bind_res (die_attr_value entry DW_AT_high_pc) (\<lambda>high.
                   case high of
                     Some (Udata u) \<Rightarrow> Inr (RRanges [(low_pc, low_pc + u)])
                   | _ \<Rightarrow> Inr (RPosition low_pc))
             | _ \<Rightarrow> Inr RUndefined))"

definition from_subprogram_die ::
  "die \<Rightarrow> debug_input_context \<Rightarrow> address_transform \<Rightarrow> u64 \<Rightarrow> range_info_builder res" where
  "from_subprogram_die entry ctx addr_tr cu_low_pc =
     bind_res (die_attr_value entry DW_AT_low_pc) (\<lambda>low.
     bind_res
       (case low of
          Some (Addr addr) \<Rightarrow> Inr (Some addr)
        | _ \<Rightarrow>
            bind_res (die_attr_value entry DW_AT_ranges) (\<lambda>ranges.
              case ranges of
                Some (RangeListsRef r) \<Rightarrow>
                  bind_res (dc_ranges ctx r cu_low_pc) (\<lambda>ranges.
                    case ranges of
                      [] \<Rightarrow> Inr None
                    | rng # _ \<Rightarrow> bind_res rng (\<lambda>(begin_at, _). Inr (Some begin_at)))
              | _ \<Rightarrow> Inr None))
       (\<lambda>addr.
     Inr (case addr of
            None \<Rightarrow> RUndefined
          | Some a \<Rightarrow> (case find_func_index addr_tr a of None \<Rightarrow> RUndefined | Some index \<Rightarrow> RFunction index))))"

text \<open>The loops of \<^verbatim>\<open>build\<close> and \<^verbatim>\<open>build_ranges\<close>; only the second asserts that its ranges are not empty.\<close>

fun translated :: "bool \<Rightarrow> address_transform \<Rightarrow> (u64 \<times> u64) list \<Rightarrow> (write_address \<times> u64) list res option" where
  "translated check addr_tr [] = Some (Inr [])"
| "translated check addr_tr ((begin_at, end_at) # ranges) =
     (if check \<and> \<not> begin_at < end_at then Some (Inl (Panic ''assertion failed: begin < end''))
      else case translate_ranges addr_tr begin_at end_at of
        None \<Rightarrow> None
      | Some (Inl e) \<Rightarrow> Some (Inl e)
      | Some (Inr trs) \<Rightarrow>
          map_option (\<lambda>r. bind_res r (\<lambda>result. Inr ([tr \<leftarrow> trs. snd tr \<noteq> 0] @ result))) (translated check addr_tr ranges))"

definition range_info_build :: "range_info_builder \<Rightarrow> address_transform \<Rightarrow> out_attr list res option" where
  "range_info_build self addr_tr =
     (case self of
        RUndefined \<Rightarrow> Some (Inr [])
      | RPosition pc \<Rightarrow>
          Some (bind_res (translate addr_tr pc) (\<lambda>addr. Inr [LowPc (case addr of Some a \<Rightarrow> a | None \<Rightarrow> Constant 0)]))
      | RRanges ranges \<Rightarrow>
          map_option (\<lambda>r. bind_res r (\<lambda>result.
              Inr (if length result \<noteq> 1 then [Ranges result] else [LowPc (fst (result ! 0)), HighPc (snd (result ! 0))])))
            (translated False addr_tr ranges)
      | RFunction index \<Rightarrow>
          Some (bind_res (func_range addr_tr index) (\<lambda>rng.
            Inr [LowPc (Symbol index (fst rng)), HighPc (snd rng - fst rng)])))"

definition get_ranges :: "range_info_builder \<Rightarrow> address_transform \<Rightarrow> (u64 \<times> u64) list res" where
  "get_ranges self addr_tr =
     (case self of
        RUndefined \<Rightarrow> Inr []
      | RPosition _ \<Rightarrow> Inr []
      | RRanges ranges \<Rightarrow> Inr ranges
      | RFunction index \<Rightarrow> bind_res (func_source_range addr_tr index) (\<lambda>rng. Inr [rng]))"

definition build_ranges :: "range_info_builder \<Rightarrow> address_transform \<Rightarrow> (write_address \<times> u64) list res option" where
  "build_ranges self addr_tr =
     (case self of
        RRanges ranges \<Rightarrow> translated True addr_tr ranges
      | _ \<Rightarrow> Some (Inl (Panic ''internal error: entered unreachable code'')))"

section \<open>Range lists\<close>

lemma translated_iff:
  "translated check addr_tr ranges = Some (Inr result) \<longleftrightarrow>
     (\<forall>(b, e) \<in> set ranges. (check \<longrightarrow> b < e) \<and> (\<exists>trs. translate_ranges addr_tr b e = Some (Inr trs))) \<and>
     result = concat (map (\<lambda>(b, e). [tr \<leftarrow> projr (the (translate_ranges addr_tr b e)). snd tr \<noteq> 0]) ranges)"
proof (induction ranges arbitrary: result)
  case (Cons x ranges)
  obtain b e where x: "x = (b, e)" by (cases x)
  show ?case
  proof (cases "(check \<longrightarrow> b < e) \<and> (\<exists>trs. translate_ranges addr_tr b e = Some (Inr trs))")
    case True
    then obtain trs where trs: "translate_ranges addr_tr b e = Some (Inr trs)" by blast
    have "translated check addr_tr (x # ranges) = Some (Inr result) \<longleftrightarrow>
        (\<exists>l. translated check addr_tr ranges = Some (Inr l) \<and> result = [tr \<leftarrow> trs. snd tr \<noteq> 0] @ l)"
      using True trs by (auto simp: x bind_res_Inr_iff)
    then show ?thesis unfolding Cons.IH using True trs by (simp add: x)
  next
    case False
    then show ?thesis by (auto simp: x split: option.splits sum.splits)
  qed
qed auto

text \<open>C36. A range list of the debug information is carried over exactly when every range in it is usable. When reading the list gives ranges
  without an error, \<^verbatim>\<open>build_ranges\<close> returns if and only if there is a range, none of them is empty and each has a translation that
  returns; then it writes the translations in order, without the empty ones. The empty ranges that \<^verbatim>\<open>from_ranges_ref\<close> is said to
  ignore make it panic, and so does a list without ranges.\<close>

theorem build_ranges_returns_iff:
  assumes "dc_ranges ctx r cu_low_pc = Inr (map Inr ranges)"
  shows "\<exists>info. from_ranges_ref r ctx cu_low_pc = Inr info \<and>
    (\<forall>result. build_ranges info addr_tr = Some (Inr result) \<longleftrightarrow>
       ranges \<noteq> [] \<and> (\<forall>(b, e) \<in> set ranges. b < e \<and> (\<exists>trs. translate_ranges addr_tr b e = Some (Inr trs))) \<and>
       result = concat (map (\<lambda>(b, e). [tr \<leftarrow> projr (the (translate_ranges addr_tr b e)). snd tr \<noteq> 0]) ranges)) \<and>
    (ranges = [] \<longrightarrow> build_ranges info addr_tr = Some (Inl (Panic ''internal error: entered unreachable code''))) \<and>
    (\<forall>b e rest. ranges = (b, e) # rest \<and> e \<le> b \<longrightarrow>
       build_ranges info addr_tr = Some (Inl (Panic ''assertion failed: begin < end'')))"
proof -
  have "map_res (\<lambda>rng. rng) (map Inr ranges :: (u64 \<times> u64) res list) = Inr ranges" by (induction ranges) simp_all
  then have "from_ranges_ref r ctx cu_low_pc = Inr (if ranges = [] then RUndefined else RRanges ranges)"
    using assms by (simp add: from_ranges_ref_def)
  moreover have "build_ranges (if ranges = [] then RUndefined else RRanges ranges) addr_tr = Some (Inr result) \<longleftrightarrow>
      ranges \<noteq> [] \<and> (\<forall>(b, e) \<in> set ranges. b < e \<and> (\<exists>trs. translate_ranges addr_tr b e = Some (Inr trs))) \<and>
      result = concat (map (\<lambda>(b, e). [tr \<leftarrow> projr (the (translate_ranges addr_tr b e)). snd tr \<noteq> 0]) ranges)" for result
    by (simp add: build_ranges_def translated_iff)
  ultimately show ?thesis
    by (intro exI [of _ "if ranges = [] then RUndefined else RRanges ranges"]) (auto simp: build_ranges_def)
qed

theorem build_ranges_returns_iff_witness:
  "\<exists>info. from_ranges_ref 0 \<lparr>dc_ranges = \<lambda>_ _. Inr [Inr (7, 7)]\<rparr> 0 = Inr info \<and>
     build_ranges info example_transform = Some (Inl (Panic ''assertion failed: begin < end''))"
  using build_ranges_returns_iff [of "\<lparr>dc_ranges = \<lambda>_ _. Inr [Inr (7, 7)]\<rparr>" 0 0 "[(7, 7)]" example_transform] by auto

end
