(* ===== verification/Code_Memory.thy ===== *)
theory Code_Memory
  imports Runtime_Memory Registries
begin

text \<open>
  The memory that holds compiled code (\<^verbatim>\<open>wasmtime-jit/src/code_memory.rs\<close>).

  The mappings of a code memory are numbered in the order in which they were made, the current one last; a
  block of code is the number of its mapping, its offset there and its length. \<open>cm_executable\<close> holds the numbers of the mappings
  that the operating system was told to make executable and no longer writable.
\<close>

section \<open>Code memory\<close>

record code_memory =
  cm_current :: mmap
  cm_mmaps :: "mmap list"
  cm_position :: usize
  cm_published :: nat
  cm_executable :: "nat list"

definition code_memory_new :: code_memory where
  "code_memory_new = \<lparr>cm_current = mmap_new, cm_mmaps = [], cm_position = 0, cm_published = 0, cm_executable = []\<rparr>"

text \<open>The offset of the new slice of the current mapping.\<close>

definition cm_allocate :: "os \<Rightarrow> usize \<Rightarrow> code_memory \<Rightarrow> (usize \<times> code_memory) res" where
  "cm_allocate os sz self =
     bind_res
       (if mm_len (cm_current self) - cm_position self < sz
        then bind_res (with_at_least os (max 0x10000 sz)) (\<lambda>m.
          Inr (self\<lparr>cm_mmaps := cm_mmaps self @ [cm_current self], cm_current := m, cm_position := 0\<rparr>))
        else Inr self)
       (\<lambda>self.
     let old_position = cm_position self; position = old_position + sz
     in if old_position \<le> position \<and> position \<le> mm_len (cm_current self)
        then Inr (old_position, self\<lparr>cm_position := position\<rparr>) else Inl (Panic ''slice index''))"

text \<open>\<^verbatim>\<open>copy_from_slice\<close> into the current mapping.\<close>

definition copy_code :: "nat \<Rightarrow> u8 list \<Rightarrow> code_memory \<Rightarrow> code_memory res" where
  "copy_code off code self =
     (if length (cm_mmaps self) \<in> set (cm_executable self) \<or> \<not> (\<forall>i < length code. accessible (cm_current self) (off + i))
      then (if code = [] then Inr self else Inl Segfault)
      else Inr (self\<lparr>cm_current := (cm_current self)\<lparr>mm_bytes := (\<lambda>i.
             if off \<le> i \<and> i < off + length code then code ! (i - off) else mm_bytes (cm_current self) i)\<rparr>\<rparr>))"

type_synonym block = "nat \<times> nat \<times> nat"

definition allocate_copy_of_byte_slice :: "os \<Rightarrow> u8 list \<Rightarrow> code_memory \<Rightarrow> (block \<times> code_memory) res" where
  "allocate_copy_of_byte_slice os code self =
     bind_res (cm_allocate os (of_nat (length code)) self) (\<lambda>(off, self).
     bind_res (copy_code (unat off) code self) (\<lambda>self.
     Inr ((length (cm_mmaps self), unat off, length code), self)))"

fun copy_slices :: "nat \<Rightarrow> nat \<Rightarrow> u8 list list \<Rightarrow> code_memory \<Rightarrow> (block list \<times> code_memory) res" where
  "copy_slices off tail [] self = Inr ([], self)"
| "copy_slices off tail (code # slices) self =
     bind_res (assert_res (length code \<le> tail) ''mid <= len'') (\<lambda>_.
     bind_res (copy_code off code self) (\<lambda>self.
     bind_res (copy_slices (off + length code) (tail - length code) slices self) (\<lambda>(blocks, self).
     Inr ((length (cm_mmaps self), off, length code) # blocks, self))))"

definition allocate_copy_of_byte_slices :: "os \<Rightarrow> u8 list list \<Rightarrow> code_memory \<Rightarrow> (block list \<times> code_memory) res" where
  "allocate_copy_of_byte_slices os slices self =
     (let total_len = fold (\<lambda>code acc. acc + of_nat (length code)) slices 0
      in bind_res (cm_allocate os total_len self) (\<lambda>(off, self).
         copy_slices (unat off) (unat total_len) slices self))"

definition cm_publish :: "os \<Rightarrow> code_memory \<Rightarrow> code_memory res" where
  "cm_publish os self =
     (let mmaps = cm_mmaps self @ [cm_current self];
          fresh = [i \<leftarrow> [cm_published self..<length mmaps]. mm_len (mmaps ! i) \<noteq> 0]
      in bind_res (assert_res (os_protect os \<or> fresh = []) ''unable to make memory readonly and executable'') (\<lambda>_.
         Inr (self\<lparr>cm_mmaps := mmaps, cm_current := mmap_new, cm_position := 0, cm_published := length mmaps,
                   cm_executable := cm_executable self @ fresh\<rparr>)))"

section \<open>Rounding\<close>

lemma round_up_ge:
  assumes "page_ok os" and "unat sz < 2 ^ 63"
  shows "unat sz \<le> unat (round_up_to_page_size sz (os_page_size os))"
    and "round_up_to_page_size sz (os_page_size os) AND (os_page_size os - 1) = 0"
proof -
  obtain k where k: "k \<le> 16" "os_page_size os = 2 ^ k" using assms(1) by (auto simp: page_ok_def)
  let ?x = "sz + (2 ^ k - 1)"
  have m: "(2 ^ k - 1 :: usize) = mask k" by (simp add: mask_eq_exp_minus_1)
  have "?x AND NOT (mask k) = push_bit k (drop_bit k ?x)"
    by (rule bit_word_eqI) (auto simp: bit_simps)
  then have eq: "round_up_to_page_size sz (os_page_size os) = push_bit k (drop_bit k ?x)"
    by (simp add: round_up_to_page_size_def k(2) m)
  have le: "(2 :: nat) ^ k \<le> 2 ^ 16" using k(1) by (intro power_increasing) simp_all
  have "unat (of_nat (2 ^ k - 1) :: usize) = 2 ^ k - 1" using le by (intro unat_of_nat_u64) simp
  moreover have "(of_nat (2 ^ k - 1) :: usize) = 2 ^ k - 1" by (simp add: of_nat_diff)
  ultimately have p: "unat (2 ^ k - 1 :: usize) = 2 ^ k - 1" by simp
  then have x: "unat ?x = unat sz + (2 ^ k - 1)" using assms(2) p le by (simp add: unat_add_small)
  have "push_bit k (drop_bit k ?x) + take_bit k ?x = ?x" by (rule bits_ident)
  moreover have "unat (take_bit k ?x) < 2 ^ k" by (simp add: unsigned_take_bit_eq take_bit_nat_def)
  ultimately have "unat ?x \<le> unat (push_bit k (drop_bit k ?x)) + unat (take_bit k ?x)"
    by (metis unat_plus_if' le_add2 le_refl less_imp_le not_less trans_le_add1 diff_le_self)
  then show "unat sz \<le> unat (round_up_to_page_size sz (os_page_size os))"
    using x \<open>unat (take_bit k ?x) < 2 ^ k\<close> by (simp add: eq)
  show "round_up_to_page_size sz (os_page_size os) AND (os_page_size os - 1) = 0"
    unfolding eq unfolding k(2) m by (rule bit_word_eqI) (auto simp: bit_simps)
qed

lemma with_at_least_ok:
  assumes "page_ok os" and "unat sz < 2 ^ 63" and "0 < sz"
  shows "(\<exists>e. with_at_least os sz = Inl (Err e)) \<or>
    (\<exists>m. with_at_least os sz = Inr m \<and> sz \<le> mm_len m \<and> mm_accessible m = [(0, unat (mm_len m))])"
proof -
  let ?r = "round_up_to_page_size sz (os_page_size os)"
  have r: "?r AND (os_page_size os - 1) = 0" "sz \<le> ?r"
    using round_up_ge [OF assms(1,2)] by (simp_all add: word_le_nat_alt)
  then have "?r \<noteq> 0" using assms(3) by auto
  then show ?thesis using r
    by (cases "os_mmap os") (simp_all add: with_at_least_def accessible_reserved_def assert_res_def Let_def)
qed

section \<open>Invariant\<close>

definition mapping :: "code_memory \<Rightarrow> nat \<Rightarrow> mmap" where
  "mapping cm k = (cm_mmaps cm @ [cm_current cm]) ! k"

definition cm_inv :: "code_memory \<Rightarrow> bool" where
  "cm_inv cm \<longleftrightarrow>
     cm_position cm \<le> mm_len (cm_current cm) \<and> (\<forall>i < unat (mm_len (cm_current cm)). accessible (cm_current cm) i) \<and>
     cm_published cm \<le> length (cm_mmaps cm) \<and> (\<forall>k \<in> set (cm_executable cm). k < cm_published cm) \<and>
     (\<forall>k < cm_published cm. mm_len (mapping cm k) \<noteq> 0 \<longrightarrow> k \<in> set (cm_executable cm))"

text \<open>A block lies in what is allocated of its mapping, and holds the code.\<close>

fun code_at :: "code_memory \<Rightarrow> block \<Rightarrow> u8 list \<Rightarrow> bool" where
  "code_at cm (k, off, n) code \<longleftrightarrow>
     k \<le> length (cm_mmaps cm) \<and> n = length code \<and> off + n \<le> unat (mm_len (mapping cm k)) \<and>
     (k = length (cm_mmaps cm) \<longrightarrow> off + n \<le> unat (cm_position cm)) \<and>
     (\<forall>i < n. mm_bytes (mapping cm k) (off + i) = code ! i)"

declare code_at.simps [simp del]

fun blocks_apart :: "block \<Rightarrow> block \<Rightarrow> bool" where
  "blocks_apart (k, off, n) (k', off', n') \<longleftrightarrow> k \<noteq> k' \<or> off + n \<le> off' \<or> off' + n' \<le> off"

definition pairwise_apart :: "block list \<Rightarrow> bool" where
  "pairwise_apart blocks \<longleftrightarrow> sorted_wrt blocks_apart blocks"

text \<open>What the current mapping holds from an offset on is new: every block of the past is elsewhere.\<close>

definition keeps_code :: "code_memory \<Rightarrow> code_memory \<Rightarrow> nat \<Rightarrow> bool" where
  "keeps_code cm cm' off \<longleftrightarrow>
     (\<forall>b code. code_at cm b code \<longrightarrow> code_at cm' b code \<and> (fst b = length (cm_mmaps cm') \<longrightarrow> fst (snd b) + length code \<le> off))"

lemma cm_inv_new: "cm_inv code_memory_new"
  by (simp add: cm_inv_def code_memory_new_def mmap_new_def)

lemma mapping_simps:
  "k < length (cm_mmaps cm) \<Longrightarrow> mapping cm k = cm_mmaps cm ! k" "mapping cm (length (cm_mmaps cm)) = cm_current cm"
  by (simp_all add: mapping_def nth_append)

lemma cm_allocate_ok:
  assumes inv: "cm_inv cm" and os: "page_ok os" and sz: "unat sz < 2 ^ 63"
  shows "(\<exists>e. cm_allocate os sz cm = Inl (Err e)) \<or>
    (\<exists>off cm'. cm_allocate os sz cm = Inr (off, cm') \<and> cm_inv cm' \<and> unat (cm_position cm') = unat off + unat sz \<and>
       keeps_code cm cm' (unat off))"
proof (cases "mm_len (cm_current cm) - cm_position cm < sz")
  case False
  have pos: "cm_position cm \<le> mm_len (cm_current cm)" using inv by (simp add: cm_inv_def)
  then have le: "unat (cm_position cm) + unat sz \<le> unat (mm_len (cm_current cm))"
    using False by (simp add: word_less_nat_alt word_le_nat_alt unat_sub)
  then have add: "unat (cm_position cm + sz) = unat (cm_position cm) + unat sz"
    using unat_lt_u64 [of "mm_len (cm_current cm)"] by (intro unat_add_small) simp
  let ?cm = "cm\<lparr>cm_position := cm_position cm + sz\<rparr>"
  have "cm_allocate os sz cm = Inr (cm_position cm, ?cm)"
    using False le add by (simp add: cm_allocate_def Let_def word_le_nat_alt)
  moreover have "cm_inv ?cm" using inv le add by (simp add: cm_inv_def word_le_nat_alt mapping_def)
  moreover have "keeps_code cm ?cm (unat (cm_position cm))" using add by (auto simp: keeps_code_def mapping_def code_at.simps)
  ultimately show ?thesis using add by (intro disjI2 exI [of _ "cm_position cm"] exI [of _ ?cm]) simp
next
  case True
  have "0 < max 0x10000 sz" by (rule less_le_trans [OF _ max.cobounded1]) simp
  moreover have "unat (max 0x10000 sz) < 2 ^ 63" using sz by (simp add: max_def)
  ultimately have "unat (max 0x10000 sz) < 2 ^ 63" "0 < max 0x10000 sz" by simp_all
  from with_at_least_ok [OF os this] consider e where "with_at_least os (max 0x10000 sz) = Inl (Err e)"
    | m where "with_at_least os (max 0x10000 sz) = Inr m" "sz \<le> mm_len m" "mm_accessible m = [(0, unat (mm_len m))]"
    by auto
  then show ?thesis
  proof cases
    case 1
    then show ?thesis using True by (simp add: cm_allocate_def)
  next
    case (2 m)
    let ?cm = "cm\<lparr>cm_mmaps := cm_mmaps cm @ [cm_current cm], cm_current := m, cm_position := sz\<rparr>"
    have same: "mapping ?cm k = mapping cm k" if "k \<le> length (cm_mmaps cm)" for k
      using that by (simp add: mapping_def nth_append)
    have "cm_allocate os sz cm = Inr (0, ?cm)" using True 2 by (simp add: cm_allocate_def Let_def)
    moreover have "cm_inv ?cm" using inv 2 same by (auto simp: cm_inv_def accessible_def)
    moreover have "keeps_code cm ?cm 0" using same by (auto simp: keeps_code_def code_at.simps)
    ultimately show ?thesis by (intro disjI2 exI [of _ 0] exI [of _ ?cm]) simp
  qed
qed

lemma copy_code_ok:
  assumes inv: "cm_inv cm" and off: "off + length code \<le> unat (cm_position cm)" and keeps: "keeps_code cm0 cm off"
  shows "\<exists>cm'. copy_code off code cm = Inr cm' \<and> cm_inv cm' \<and> cm_position cm' = cm_position cm \<and>
    length (cm_mmaps cm') = length (cm_mmaps cm) \<and> code_at cm' (length (cm_mmaps cm), off, length code) code \<and>
    keeps_code cm0 cm' (off + length code) \<and>
    (\<forall>o' code'. o' + length code' \<le> off \<and> code_at cm (length (cm_mmaps cm), o', length code') code' \<longrightarrow>
       code_at cm' (length (cm_mmaps cm), o', length code') code')"
proof -
  let ?m = "(cm_current cm)\<lparr>mm_bytes := (\<lambda>i. if off \<le> i \<and> i < off + length code then code ! (i - off) else mm_bytes (cm_current cm) i)\<rparr>"
  let ?cm = "cm\<lparr>cm_current := ?m\<rparr>"
  have acc: "\<forall>i < length code. accessible (cm_current cm) (off + i)" and len: "off + length code \<le> unat (mm_len (cm_current cm))"
    and exe: "length (cm_mmaps cm) \<notin> set (cm_executable cm)"
    using inv off by (auto simp: cm_inv_def word_le_nat_alt)
  have old: "mapping ?cm k = mapping cm k" if "k < length (cm_mmaps cm)" for k using that by (simp add: mapping_def nth_append)
  have new: "mapping ?cm (length (cm_mmaps cm)) = ?m" by (simp add: mapping_def)
  have "copy_code off code cm = Inr ?cm" using acc exe by (simp add: copy_code_def)
  moreover have "cm_inv ?cm" using inv old by (auto simp: cm_inv_def accessible_def)
  moreover have "code_at ?cm (length (cm_mmaps cm), off, length code) code" using off len by (simp add: new code_at.simps)
  moreover have kept: "code_at ?cm (k, o', n) code'"
    if "code_at cm (k, o', n) code'" "k = length (cm_mmaps cm) \<longrightarrow> o' + n \<le> off" for k o' n code'
    using that by (cases "k = length (cm_mmaps cm)") (auto simp: new old mapping_simps code_at.simps)
  have "keeps_code cm0 ?cm (off + length code)"
    unfolding keeps_code_def
  proof (intro allI impI)
    fix b code' assume at: "code_at cm0 b code'"
    obtain k o' n where b: "b = (k, o', n)" by (cases b)
    have "code_at cm (k, o', n) code'" "k = length (cm_mmaps cm) \<longrightarrow> o' + n \<le> off" "n = length code'"
      using keeps at by (auto simp: keeps_code_def b code_at.simps)
    with kept show "code_at ?cm b code' \<and> (fst b = length (cm_mmaps ?cm) \<longrightarrow> fst (snd b) + length code' \<le> off + length code)"
      by (auto simp: b)
  qed
  ultimately show ?thesis using kept by (intro exI [of _ ?cm]) auto
qed

lemma copy_slices_ok:
  assumes "cm_inv cm" "off + tail \<le> unat (cm_position cm)" "sum_list (map length slices) \<le> tail" "keeps_code cm0 cm off"
  shows "\<exists>blocks cm'. copy_slices off tail slices cm = Inr (blocks, cm') \<and> cm_inv cm' \<and>
    length (cm_mmaps cm') = length (cm_mmaps cm) \<and> list_all2 (code_at cm') blocks slices \<and>
    keeps_code cm0 cm' (off + sum_list (map length slices)) \<and>
    (\<forall>b \<in> set blocks. fst b = length (cm_mmaps cm) \<and> off \<le> fst (snd b)) \<and> pairwise_apart blocks \<and>
    (\<forall>o' code'. o' + length code' \<le> off \<and> code_at cm (length (cm_mmaps cm), o', length code') code' \<longrightarrow>
       code_at cm' (length (cm_mmaps cm), o', length code') code')"
  using assms
proof (induction slices arbitrary: off tail cm)
  case Nil
  then show ?case by (simp add: pairwise_apart_def)
next
  case (Cons code slices)
  have "off + length code \<le> unat (cm_position cm)" using Cons.prems(2,3) by simp
  from copy_code_ok [OF Cons.prems(1) this Cons.prems(4)]
  obtain cm1 where one: "copy_code off code cm = Inr cm1" "cm_inv cm1" "cm_position cm1 = cm_position cm"
    "length (cm_mmaps cm1) = length (cm_mmaps cm)" "code_at cm1 (length (cm_mmaps cm), off, length code) code"
    "keeps_code cm0 cm1 (off + length code)"
    "\<forall>o' code'. o' + length code' \<le> off \<and> code_at cm (length (cm_mmaps cm), o', length code') code' \<longrightarrow>
       code_at cm1 (length (cm_mmaps cm), o', length code') code'" by blast
  have "off + length code + (tail - length code) \<le> unat (cm_position cm1)" "sum_list (map length slices) \<le> tail - length code"
    using Cons.prems(2,3) one(3) by simp_all
  from Cons.IH [OF one(2) this one(6)]
  obtain blocks cm2 where two: "copy_slices (off + length code) (tail - length code) slices cm1 = Inr (blocks, cm2)" "cm_inv cm2"
    "length (cm_mmaps cm2) = length (cm_mmaps cm1)" "list_all2 (code_at cm2) blocks slices"
    "keeps_code cm0 cm2 (off + length code + sum_list (map length slices))"
    "\<forall>b \<in> set blocks. fst b = length (cm_mmaps cm1) \<and> off + length code \<le> fst (snd b)" "pairwise_apart blocks"
    "\<forall>o' code'. o' + length code' \<le> off + length code \<and> code_at cm1 (length (cm_mmaps cm1), o', length code') code' \<longrightarrow>
       code_at cm2 (length (cm_mmaps cm1), o', length code') code'" by blast
  let ?b = "(length (cm_mmaps cm), off, length code)"
  have "copy_slices off tail (code # slices) cm = Inr (?b # blocks, cm2)"
    using one(1,4) two(1,3) Cons.prems(3) by (simp add: assert_res_def)
  moreover have "code_at cm2 ?b code" using two(8) one(4,5) by simp
  moreover have "\<forall>b \<in> set blocks. blocks_apart ?b b" using two(6) by auto
  moreover have "\<forall>o' code'. o' + length code' \<le> off \<and> code_at cm (length (cm_mmaps cm), o', length code') code' \<longrightarrow>
       code_at cm2 (length (cm_mmaps cm), o', length code') code'"
    using one(7) two(8) one(4) by (metis trans_le_add1)
  ultimately show ?case
    using two(2-7) one(4) by (intro exI [of _ "?b # blocks"] exI [of _ cm2]) (auto simp: add.assoc pairwise_apart_def)
qed

definition separate :: "code_memory \<Rightarrow> block list \<Rightarrow> code_memory \<Rightarrow> bool" where
  "separate cm blocks cm' \<longleftrightarrow> (\<forall>b code. code_at cm b code \<longrightarrow> code_at cm' b code \<and> (\<forall>b' \<in> set blocks. blocks_apart b b'))"

lemma keeps_separate:
  assumes "keeps_code cm cm1 off" and "keeps_code cm cm' off'" and "length (cm_mmaps cm') = length (cm_mmaps cm1)"
    and "\<forall>b' \<in> set blocks. fst b' = length (cm_mmaps cm1) \<and> off \<le> fst (snd b')"
  shows "separate cm blocks cm'"
  unfolding separate_def
proof (intro allI impI conjI ballI)
  fix b code b' assume at: "code_at cm b code" and b': "b' \<in> set blocks"
  obtain k o1 n k' o' n' where b: "b = (k, o1, n)" "b' = (k', o', n')" by (cases b, cases b')
  have "n = length code" using at b by (simp add: code_at.simps)
  moreover have "k = length (cm_mmaps cm1) \<Longrightarrow> o1 + length code \<le> off" using assms(1) at unfolding keeps_code_def b by fastforce
  ultimately show "blocks_apart b b'" using assms(4) b' by (auto simp: b)
qed (use assms(2) in \<open>auto simp: keeps_code_def\<close>)

lemma fold_lengths:
  assumes "n + sum_list (map length slices) < 2 ^ 64"
  shows "unat (fold (\<lambda>code acc. acc + of_nat (length code)) slices (of_nat n :: usize)) = n + sum_list (map length slices)"
  using assms
proof (induction slices arbitrary: n)
  case Nil
  then show ?case by (simp add: unat_of_nat_u64)
next
  case (Cons code slices)
  have "of_nat n + of_nat (length code) = (of_nat (n + length code) :: usize)" by simp
  then show ?case using Cons.IH [of "n + length code"] Cons.prems by (simp del: of_nat_add)
qed

lemma allocate_copies_ok:
  assumes inv: "cm_inv cm" and os: "page_ok os" and sz: "sum_list (map length slices) < 2 ^ 63"
  shows "(\<exists>e. allocate_copy_of_byte_slices os slices cm = Inl (Err e)) \<or>
    (\<exists>blocks cm'. allocate_copy_of_byte_slices os slices cm = Inr (blocks, cm') \<and> cm_inv cm' \<and>
       list_all2 (code_at cm') blocks slices \<and> pairwise_apart blocks \<and> separate cm blocks cm')"
proof -
  let ?total = "fold (\<lambda>code acc. acc + of_nat (length code)) slices 0 :: usize"
  have total: "unat ?total = sum_list (map length slices)" using fold_lengths [of 0 slices] sz by simp
  then have "unat ?total < 2 ^ 63" using sz by simp
  from cm_allocate_ok [OF inv os this] consider e where "cm_allocate os ?total cm = Inl (Err e)"
    | off cm1 where "cm_allocate os ?total cm = Inr (off, cm1)" "cm_inv cm1" "unat (cm_position cm1) = unat off + unat ?total"
      "keeps_code cm cm1 (unat off)" by blast
  then show ?thesis
  proof cases
    case 1
    then show ?thesis by (simp add: allocate_copy_of_byte_slices_def Let_def)
  next
    case (2 off cm1)
    have "unat off + unat ?total \<le> unat (cm_position cm1)" "sum_list (map length slices) \<le> unat ?total" using 2(3) total by simp_all
    from copy_slices_ok [OF 2(2) this 2(4)]
    obtain blocks cm' where c: "copy_slices (unat off) (unat ?total) slices cm1 = Inr (blocks, cm')" "cm_inv cm'"
      "length (cm_mmaps cm') = length (cm_mmaps cm1)" "list_all2 (code_at cm') blocks slices"
      "keeps_code cm cm' (unat off + sum_list (map length slices))"
      "\<forall>b \<in> set blocks. fst b = length (cm_mmaps cm1) \<and> unat off \<le> fst (snd b)" "pairwise_apart blocks" by blast
    have "separate cm blocks cm'" by (rule keeps_separate [OF 2(4) c(5,3,6)])
    then show ?thesis using 2(1) c by (simp add: allocate_copy_of_byte_slices_def Let_def)
  qed
qed

lemma allocate_copy_ok:
  assumes inv: "cm_inv cm" and os: "page_ok os" and sz: "length code < 2 ^ 63"
  shows "(\<exists>e. allocate_copy_of_byte_slice os code cm = Inl (Err e)) \<or>
    (\<exists>b cm'. allocate_copy_of_byte_slice os code cm = Inr (b, cm') \<and> cm_inv cm' \<and> code_at cm' b code \<and> separate cm [b] cm')"
proof -
  have len: "unat (of_nat (length code) :: usize) = length code" using sz by (intro unat_of_nat_u64) simp
  then have "unat (of_nat (length code) :: usize) < 2 ^ 63" using sz by simp
  from cm_allocate_ok [OF inv os this] consider e where "cm_allocate os (of_nat (length code)) cm = Inl (Err e)"
    | off cm1 where "cm_allocate os (of_nat (length code)) cm = Inr (off, cm1)" "cm_inv cm1"
      "unat (cm_position cm1) = unat off + length code" "keeps_code cm cm1 (unat off)"
    unfolding len by blast
  then show ?thesis
  proof cases
    case 1
    then show ?thesis by (simp add: allocate_copy_of_byte_slice_def)
  next
    case (2 off cm1)
    have "unat off + length code \<le> unat (cm_position cm1)" using 2(3) by simp
    from copy_code_ok [OF 2(2) this 2(4)]
    obtain cm' where c: "copy_code (unat off) code cm1 = Inr cm'" "cm_inv cm'" "length (cm_mmaps cm') = length (cm_mmaps cm1)"
      "code_at cm' (length (cm_mmaps cm1), unat off, length code) code" "keeps_code cm cm' (unat off + length code)" by blast
    have "separate cm [(length (cm_mmaps cm1), unat off, length code)] cm'" by (rule keeps_separate [OF 2(4) c(5,3)]) simp
    then show ?thesis using 2(1) c by (simp add: allocate_copy_of_byte_slice_def)
  qed
qed

lemma publish_ok:
  assumes inv: "cm_inv cm" and os: "os_protect os"
  shows "\<exists>cm'. cm_publish os cm = Inr cm' \<and> cm_inv cm' \<and> separate cm [] cm' \<and>
    (\<forall>b code. code_at cm b code \<and> code \<noteq> [] \<longrightarrow> fst b \<in> set (cm_executable cm'))"
proof -
  let ?n = "Suc (length (cm_mmaps cm))"
  let ?fresh = "[i \<leftarrow> [cm_published cm..<?n]. mm_len (mapping cm i) \<noteq> 0]"
  let ?cm = "cm\<lparr>cm_mmaps := cm_mmaps cm @ [cm_current cm], cm_current := mmap_new, cm_position := 0, cm_published := ?n,
    cm_executable := cm_executable cm @ ?fresh\<rparr>"
  have same: "mapping ?cm k = mapping cm k" if "k \<le> length (cm_mmaps cm)" for k using that by (simp add: mapping_def nth_append)
  have "cm_publish os cm = Inr ?cm" using os by (simp add: cm_publish_def Let_def assert_res_def mapping_def)
  moreover have exe: "k \<in> set (cm_executable ?cm)" if "k < ?n" "mm_len (mapping cm k) \<noteq> 0" for k
    using inv that by (cases "k < cm_published cm") (auto simp: cm_inv_def less_Suc_eq)
  moreover have "cm_inv ?cm" using inv exe same by (auto simp: cm_inv_def mmap_new_def)
  moreover have code: "code_at ?cm b code \<and> (code \<noteq> [] \<longrightarrow> fst b \<in> set (cm_executable ?cm))" if "code_at cm b code" for b code
  proof -
    obtain k off n where b: "b = (k, off, n)" by (cases b)
    have "mm_len (mapping cm k) \<noteq> 0" if "code \<noteq> []" using \<open>code_at cm b code\<close> that by (auto simp: b code_at.simps)
    then show ?thesis using that same exe [of k] by (auto simp: b code_at.simps)
  qed
  moreover have "separate cm [] ?cm" unfolding separate_def using code by (simp del: upt_Suc)
  ultimately show ?thesis by blast
qed

section \<open>The life of a code memory\<close>

text \<open>The operations that the compiler makes, with the answers of the operating system to each. What was given out is kept beside
  the memory; an error that \<^verbatim>\<open>mmap\<close> reports is returned and leaves the memory as it was.\<close>

datatype code_op = Copy os "u8 list" | Copies os "u8 list list" | Publish os

type_synonym given = "(block \<times> u8 list) list"

definition on_error :: "'a res \<Rightarrow> 's \<Rightarrow> ('a \<Rightarrow> 's) \<Rightarrow> 's res" where
  "on_error r s f = (case r of Inl (Err _) \<Rightarrow> Inr s | Inl e \<Rightarrow> Inl e | Inr x \<Rightarrow> Inr (f x))"

fun code_step :: "code_op \<Rightarrow> code_memory \<times> given \<Rightarrow> (code_memory \<times> given) res" where
  "code_step (Copy os code) (cm, given) =
     on_error (allocate_copy_of_byte_slice os code cm) (cm, given) (\<lambda>(b, cm'). (cm', given @ [(b, code)]))"
| "code_step (Copies os slices) (cm, given) =
     on_error (allocate_copy_of_byte_slices os slices cm) (cm, given) (\<lambda>(bs, cm'). (cm', given @ zip bs slices))"
| "code_step (Publish os) (cm, given) = bind_res (cm_publish os cm) (\<lambda>cm'. Inr (cm', given))"

fun op_ok :: "code_op \<Rightarrow> bool" where
  "op_ok (Copy os code) \<longleftrightarrow> page_ok os \<and> length code < 2 ^ 63"
| "op_ok (Copies os slices) \<longleftrightarrow> page_ok os \<and> sum_list (map length slices) < 2 ^ 63"
| "op_ok (Publish os) \<longleftrightarrow> os_protect os"

definition given_ok :: "code_memory \<times> given \<Rightarrow> bool" where
  "given_ok s \<longleftrightarrow> cm_inv (fst s) \<and> (\<forall>(b, code) \<in> set (snd s). code_at (fst s) b code) \<and> pairwise_apart (map fst (snd s))"

lemma given_okD: "given_ok (cm, given) \<Longrightarrow> (b, code) \<in> set given \<Longrightarrow> code_at cm b code"
  by (auto simp: given_ok_def)

lemma given_ok_more:
  assumes "given_ok (cm, given)" and "cm_inv cm'" and "list_all2 (code_at cm') bs slices" and "pairwise_apart bs" and "separate cm bs cm'"
  shows "given_ok (cm', given @ zip bs slices)"
proof -
  have "map fst (zip bs slices) = bs" using list_all2_lengthD [OF assms(3)] by simp
  moreover have "code_at cm' b code" if "(b, code) \<in> set (zip bs slices)" for b code
    using assms(3) that by (auto simp: list_all2_iff)
  moreover have "code_at cm' b code \<and> (\<forall>b' \<in> set bs. blocks_apart b b')" if "(b, code) \<in> set given" for b code
    using given_okD [OF assms(1) that] assms(5) unfolding separate_def by blast
  ultimately show ?thesis
    using assms(1,2,4) by (auto simp: given_ok_def pairwise_apart_def sorted_wrt_append simp del: blocks_apart.simps)
qed

lemma code_step_ok:
  assumes ok: "given_ok s" and op: "op_ok op"
  shows "\<exists>s'. code_step op s = Inr s' \<and> given_ok s' \<and>
    (\<forall>os. op = Publish os \<longrightarrow> (\<forall>(b, code) \<in> set (snd s'). code \<noteq> [] \<longrightarrow> fst b \<in> set (cm_executable (fst s'))))"
proof -
  obtain cm given where s: "s = (cm, given)" by (cases s)
  have inv: "cm_inv cm" using ok by (simp add: s given_ok_def)
  show ?thesis
  proof (cases op)
    case (Copy os code)
    then have "page_ok os" "length code < 2 ^ 63" using op by simp_all
    from allocate_copy_ok [OF inv this] show ?thesis
      using ok given_ok_more [OF ok [unfolded s], of _ "[_]" "[code]"]
      by (auto simp: Copy s on_error_def pairwise_apart_def)
  next
    case (Copies os slices)
    then have "page_ok os" "sum_list (map length slices) < 2 ^ 63" using op by simp_all
    from allocate_copies_ok [OF inv this] show ?thesis
      using ok given_ok_more [OF ok [unfolded s]] by (auto simp: Copies s on_error_def)
  next
    case (Publish os)
    then have "os_protect os" using op by simp
    from publish_ok [OF inv this]
    obtain cm' where p: "cm_publish os cm = Inr cm'" "cm_inv cm'" "separate cm [] cm'"
      "\<forall>b code. code_at cm b code \<and> code \<noteq> [] \<longrightarrow> fst b \<in> set (cm_executable cm')" by blast
    have "given_ok (cm', given)"
      using given_ok_more [OF ok [unfolded s] p(2), of "[]" "[]"] p(3) by (simp add: pairwise_apart_def)
    moreover have "fst b \<in> set (cm_executable cm')" if "(b, code) \<in> set given" "code \<noteq> []" for b code
      using given_okD [OF ok [unfolded s] that(1)] p(4) that(2) by blast
    ultimately show ?thesis using p(1) by (auto simp: Publish s)
  qed
qed

text \<open>C14. Compiled code stays where it was put and as it was put there. Whatever sequence of allocations and publications the compiler makes, and
  whichever mappings the operating system refuses, none of them panics or writes to a mapping that is executable; the blocks given out
  do not overlap and hold the bytes that were copied into them; and after a publication every block that was given out is executable.\<close>

theorem code_memory_safe:
  assumes "list_all op_ok ops"
  shows "\<exists>cm given. fold_res code_step ops (code_memory_new, []) = Inr (cm, given) \<and>
    (\<forall>(b, code) \<in> set given. code_at cm b code) \<and> pairwise_apart (map fst given) \<and>
    (\<forall>os. ops \<noteq> [] \<and> last ops = Publish os \<longrightarrow>
       (\<forall>(b, code) \<in> set given. code \<noteq> [] \<longrightarrow> fst b \<in> set (cm_executable cm)))"
proof -
  have run: "\<exists>s'. fold_res code_step ops s = Inr s' \<and> given_ok s' \<and>
      (\<forall>os. ops \<noteq> [] \<and> last ops = Publish os \<longrightarrow>
         (\<forall>(b, code) \<in> set (snd s'). code \<noteq> [] \<longrightarrow> fst b \<in> set (cm_executable (fst s'))))"
    if "given_ok s" for s
    using assms that
  proof (induction ops arbitrary: s)
    case (Cons op ops)
    obtain s1 where s1: "code_step op s = Inr s1" "given_ok s1"
      "\<forall>os. op = Publish os \<longrightarrow> (\<forall>(b, code) \<in> set (snd s1). code \<noteq> [] \<longrightarrow> fst b \<in> set (cm_executable (fst s1)))"
      using code_step_ok [OF Cons.prems(2), of op] Cons.prems(1) by auto
    then show ?case using Cons.IH [OF _ s1(2)] Cons.prems(1) by (cases "ops = []") auto
  qed simp
  have "given_ok (code_memory_new, [])" by (simp add: given_ok_def cm_inv_new pairwise_apart_def)
  from run [OF this] show ?thesis by (fastforce simp: given_ok_def)
qed

theorem code_memory_safe_witness:
  "\<exists>cm given. fold_res code_step [Copies example_os [[1, 2], [3]], Copy example_os [4], Publish example_os] (code_memory_new, []) =
      Inr (cm, given) \<and>
    (\<forall>(b, code) \<in> set given. code_at cm b code) \<and>
    (\<forall>(b, code) \<in> set given. code \<noteq> [] \<longrightarrow> fst b \<in> set (cm_executable cm))"
proof -
  have "list_all op_ok [Copies example_os [[1, 2], [3]], Copy example_os [4], Publish example_os]"
    using example_page_ok by (simp add: example_os_def)
  from code_memory_safe [OF this] show ?thesis by auto
qed

end
