(* ===== verification/Jit_Compiler.thy ===== *)
theory Jit_Compiler
  imports Instance Code_Memory
begin

text \<open>
  The compiler of a process (\<^verbatim>\<open>wasmtime-jit/src/compiler.rs\<close>) and the calls from the outside through it
  (\<^verbatim>\<open>wasmtime-jit/src/action.rs\<close>). What Cranelift makes of a module or of a trampoline is a parameter: bytes or an error. A trampoline is
  known by what it was made for; running it does what its instructions say, and the function it calls is a
  parameter that takes the bytes of its arguments. The types of Cranelift are the parameter \<open>ct\<close>, with the sizes \<open>tyb\<close>.
\<close>

section \<open>The compiler\<close>

record trampoline =
  tr_block :: block
  tr_callee :: address
  tr_sig :: ir_signature
  tr_value_size :: nat

record jit_compiler =
  jc_code_memory :: code_memory
  jc_trap_registration_guards :: "usize list"
  jc_trampoline_park :: "(address \<times> trampoline) list"
  jc_signatures :: signature_registry

definition jit_compiler_new :: jit_compiler where
  "jit_compiler_new = \<lparr>jc_code_memory = code_memory_new, jc_trap_registration_guards = [], jc_trampoline_park = [],
     jc_signatures = signature_registry_new\<rparr>"

definition block_address :: "code_memory \<Rightarrow> block \<Rightarrow> address" where
  "block_address cm b = mm_ptr (mapping cm (fst b)) + of_nat (fst (snd b))"

definition allocate_functions :: "os \<Rightarrow> u8 list list \<Rightarrow> code_memory \<Rightarrow> (block list \<times> code_memory) res" where
  "allocate_functions os bodies cm = allocate_copy_of_byte_slices os bodies cm"

record trap_information =
  tin_code_offset :: u32
  tin_source_loc :: source_loc
  tin_trap_code :: trap_code

fun register_each :: "(address \<times> trap_information) list \<Rightarrow> usize list \<Rightarrow> trap_registry \<Rightarrow> usize list res \<times> trap_registry" where
  "register_each [] guards reg = (Inr guards, reg)"
| "register_each ((func_addr, t) # rest) guards reg =
     (case register_trap (func_addr + ucast (tin_code_offset t)) (tin_source_loc t) (tin_trap_code t) reg of
        (Inl e, reg') \<Rightarrow> (Inl e, reg')
      | (Inr guard, reg') \<Rightarrow> register_each rest (guards @ [guard]) reg')"

definition register_traps ::
  "address list \<Rightarrow> trap_information list list \<Rightarrow> usize list \<Rightarrow> registry_lock \<Rightarrow> usize list res \<times> registry_lock" where
  "register_traps funcs func_traps guards =
     get_mut_trap_registry (register_each (concat (map (\<lambda>(a, ts). map (Pair a) ts) (zip funcs func_traps))) guards)"

text \<open>What the compilers make of a module: the bodies, the traps of each, and what is only passed on (jump tables and relocations).\<close>

record 'r compilation =
  comp_bodies :: "u8 list list"
  comp_traps :: "trap_information list list"
  comp_rest :: 'r

text \<open>\<^verbatim>\<open>Compiler::compile\<close>: the functions, what is passed on, and the image with debug information when it was asked for; then the compiler and
  the registry of traps as they are left. \<open>debug_data\<close> is the writer of that image, given the offset of the first memory and the
  functions with their lengths.\<close>

definition jit_compile ::
  "os \<Rightarrow> wasm_module \<Rightarrow> 'r compilation res \<Rightarrow> (int \<Rightarrow> (address \<times> nat) list \<Rightarrow> u8 list res) option \<Rightarrow> jit_compiler \<Rightarrow> registry_lock \<Rightarrow>
   (address list \<times> 'r \<times> u8 list option) res \<times> jit_compiler \<times> registry_lock" where
  "jit_compile os m compiled debug_data self l =
     (case compiled of
        Inl e \<Rightarrow> (Inl e, self, l)
      | Inr c \<Rightarrow>
          (case allocate_functions os (comp_bodies c) (jc_code_memory self) of
             Inl e \<Rightarrow> (Inl e, self, l)
           | Inr (blocks, cm) \<Rightarrow>
               let allocated_functions = map (block_address cm) blocks;
                   self = self\<lparr>jc_code_memory := cm\<rparr>
               in case register_traps allocated_functions (comp_traps c) (jc_trap_registration_guards self) l of
                    (Inl e, l) \<Rightarrow> (Inl e, self, l)
                  | (Inr guards, l) \<Rightarrow>
                      (bind_res
                         (case debug_data of
                            Some emit \<Rightarrow>
                              bind_res (unwrap_res (vmoffsets_new 8 m) ''overflow in cast from usize to u32'') (\<lambda>ofs.
                              bind_res (unwrap_res (vmctx_vmmemory_definition_base ofs 0) ''unwrap'') (\<lambda>memory_offset.
                              bind_res (emit (uint memory_offset) (zip allocated_functions (map length (comp_bodies c)))) (\<lambda>bytes.
                              Inr (Some bytes))))
                          | None \<Rightarrow> Inr None)
                         (\<lambda>dbg. Inr (allocated_functions, comp_rest c, dbg)),
                       self\<lparr>jc_trap_registration_guards := guards\<rparr>, l)))"

fun drop_guards :: "usize list \<Rightarrow> registry_lock \<Rightarrow> unit res \<times> registry_lock" where
  "drop_guards [] l = (Inr (), l)"
| "drop_guards (g # gs) l = (case drop_guard g l of (Inl e, l') \<Rightarrow> (Inl e, l') | (Inr _, l') \<Rightarrow> drop_guards gs l')"

definition jit_compiler_drop :: "jit_compiler \<Rightarrow> registry_lock \<Rightarrow> unit res \<times> registry_lock" where
  "jit_compiler_drop self = drop_guards (jc_trap_registration_guards self)"

type_synonym trampoline_code = "address \<Rightarrow> ir_signature \<Rightarrow> nat \<Rightarrow> u8 list res"

definition make_trampoline ::
  "trampoline_code \<Rightarrow> os \<Rightarrow> address \<Rightarrow> ir_signature \<Rightarrow> nat \<Rightarrow> code_memory \<Rightarrow> (trampoline \<times> code_memory) res" where
  "make_trampoline gen os callee_address signature value_size cm =
     bind_res (gen callee_address signature value_size) (\<lambda>code_buf.
     bind_res (allocate_copy_of_byte_slice os code_buf cm) (\<lambda>(b, cm).
     Inr (\<lparr>tr_block = b, tr_callee = callee_address, tr_sig = signature, tr_value_size = value_size\<rparr>, cm)))"

definition get_trampoline ::
  "trampoline_code \<Rightarrow> os \<Rightarrow> address \<Rightarrow> ir_signature \<Rightarrow> nat \<Rightarrow> jit_compiler \<Rightarrow> (trampoline \<times> jit_compiler) res" where
  "get_trampoline gen os callee_address signature value_size self =
     (case map_of (jc_trampoline_park self) callee_address of
        Some body \<Rightarrow> Inr (body, self)
      | None \<Rightarrow>
          bind_res (make_trampoline gen os callee_address signature value_size (jc_code_memory self)) (\<lambda>(body, cm).
          Inr (body, self\<lparr>jc_code_memory := cm, jc_trampoline_park := (callee_address, body) # jc_trampoline_park self\<rparr>)))"

definition publish_compiled_code :: "os \<Rightarrow> jit_compiler \<Rightarrow> jit_compiler res" where
  "publish_compiled_code os self = bind_res (cm_publish os (jc_code_memory self)) (\<lambda>cm. Inr (self\<lparr>jc_code_memory := cm\<rparr>))"

definition get_published_trampoline ::
  "trampoline_code \<Rightarrow> os \<Rightarrow> address \<Rightarrow> ir_signature \<Rightarrow> nat \<Rightarrow> jit_compiler \<Rightarrow> (trampoline \<times> jit_compiler) res" where
  "get_published_trampoline gen os callee_address signature value_size self =
     bind_res (get_trampoline gen os callee_address signature value_size self) (\<lambda>(body, self).
     bind_res (publish_compiled_code os self) (\<lambda>self. Inr (body, self)))"

section \<open>Trampolines\<close>

text \<open>Compiled code at an address: from the bytes of its arguments to a trap or the bytes of its results.\<close>

type_synonym exec = "address \<Rightarrow> u8 list list \<Rightarrow> store \<Rightarrow> (string + u8 list list) \<times> store"

text \<open>\<^verbatim>\<open>(i * value_size) as i32\<close>\<close>

definition trampoline_offset :: "usize \<Rightarrow> nat \<Rightarrow> int" where
  "trampoline_offset i value_size = sint (ucast (i * of_nat value_size) :: 32 word)"

definition trampoline_arg ::
  "(ir_type \<Rightarrow> nat) \<Rightarrow> address \<Rightarrow> u8 list \<Rightarrow> nat \<Rightarrow> nat \<times> abi_param \<Rightarrow> u8 list res" where
  "trampoline_arg tyb vmctx values_vec value_size p =
     (case purpose (snd p) of
        VMContext \<Rightarrow> Inr (to_le 8 vmctx)
      | Normal \<Rightarrow>
          let off = trampoline_offset (of_nat (fst p) - 1) value_size; n = tyb (value_type (snd p))
          in if 0 \<le> off \<and> nat off + n \<le> length values_vec then Inr (take n (drop (nat off) values_vec)) else Inl Segfault)"

fun store_results :: "nat \<Rightarrow> nat \<Rightarrow> u8 list list \<Rightarrow> u8 list \<Rightarrow> u8 list res" where
  "store_results value_size i [] values_vec = Inr values_vec"
| "store_results value_size i (r # rs) values_vec =
     (let off = trampoline_offset (of_nat i) value_size
      in if 0 \<le> off \<and> nat off + length r \<le> length values_vec
         then store_results value_size (i + 1) rs (overwrite values_vec (nat off) r) else Inl Segfault)"

text \<open>The processor refuses code of a mapping that is not executable.\<close>

definition run_trampoline ::
  "(ir_type \<Rightarrow> nat) \<Rightarrow> exec \<Rightarrow> code_memory \<Rightarrow> trampoline \<Rightarrow> address \<Rightarrow> u8 list \<Rightarrow> store \<Rightarrow> ((string + u8 list) \<times> store) res" where
  "run_trampoline tyb exec cm t vmctx values_vec st =
     bind_res (if fst (tr_block t) \<in> set (cm_executable cm) then Inr () else Inl Segfault) (\<lambda>_.
     bind_res (map_res (trampoline_arg tyb vmctx values_vec (tr_value_size t)) (List.enumerate 0 (sig_params (tr_sig t)))) (\<lambda>callee_args.
       case exec (tr_callee t) callee_args st of
         (Inl message, st') \<Rightarrow> Inr (Inl message, st')
       | (Inr results, st') \<Rightarrow>
           bind_res (store_results (tr_value_size t) 0 results values_vec) (\<lambda>values_vec. Inr (Inr values_vec, st'))))"

section \<open>Invocation\<close>

datatype runtime_value = RvI32 u32 | RvI64 u64 | RvF32 u32 | RvF64 u64 | RvV128 "u8 list"

datatype val_kind = KI32 | KI64 | KF32 | KF64 | KV128

fun rv_kind :: "runtime_value \<Rightarrow> val_kind" where
  "rv_kind (RvI32 _) = KI32"
| "rv_kind (RvI64 _) = KI64"
| "rv_kind (RvF32 _) = KF32"
| "rv_kind (RvF64 _) = KF64"
| "rv_kind (RvV128 _) = KV128"

fun kind_size :: "val_kind \<Rightarrow> nat" where
  "kind_size KI32 = 4"
| "kind_size KI64 = 8"
| "kind_size KF32 = 4"
| "kind_size KF64 = 8"
| "kind_size KV128 = 16"

definition rv_value_type :: "(val_kind \<Rightarrow> ir_type) \<Rightarrow> runtime_value \<Rightarrow> ir_type" where
  "rv_value_type ct v = ct (rv_kind v)"

fun rv_bytes :: "runtime_value \<Rightarrow> u8 list" where
  "rv_bytes (RvI32 x) = to_le 4 x"
| "rv_bytes (RvI64 x) = to_le 8 x"
| "rv_bytes (RvF32 x) = to_le 4 x"
| "rv_bytes (RvF64 x) = to_le 8 x"
| "rv_bytes (RvV128 x) = x"

fun rv_read :: "val_kind \<Rightarrow> u8 list \<Rightarrow> runtime_value" where
  "rv_read KI32 bs = RvI32 (from_le (take 4 bs))"
| "rv_read KI64 bs = RvI64 (from_le (take 8 bs))"
| "rv_read KF32 bs = RvF32 (from_le (take 4 bs))"
| "rv_read KF64 bs = RvF64 (from_le (take 8 bs))"
| "rv_read KV128 bs = RvV128 (take 16 bs)"

definition kind_of_type :: "(val_kind \<Rightarrow> ir_type) \<Rightarrow> ir_type \<Rightarrow> val_kind option" where
  "kind_of_type ct ty = find (\<lambda>k. ct k = ty) [KI32, KI64, KF32, KF64, KV128]"

datatype action_outcome = Returned "runtime_value list" | Trapped string

text \<open>A panic or fault of the caller is the last constructor.\<close>

datatype action_error = ASetup error | AField string | AKind string | AType ir_type | AAbort error

definition aborting :: "'a res \<Rightarrow> action_error + 'a" where
  "aborting r = (case r of Inl e \<Rightarrow> Inl (AAbort e) | Inr x \<Rightarrow> Inr x)"

text \<open>\<^verbatim>\<open>map_err(ActionError::Setup)\<close>: a panic stays one.\<close>

definition setting_up :: "'a res \<Rightarrow> action_error + 'a" where
  "setting_up r = (case r of Inl (Err m) \<Rightarrow> Inl (ASetup (Err m)) | Inl e \<Rightarrow> Inl (AAbort e) | Inr x \<Rightarrow> Inr x)"

definition check_args :: "(val_kind \<Rightarrow> ir_type) \<Rightarrow> runtime_value list \<Rightarrow> ir_signature \<Rightarrow> unit list res" where
  "check_args ct args signature =
     map_res (\<lambda>(index, v). bind_res (index_res (sig_params signature) (index + 1)) (\<lambda>p.
       assert_res (rv_value_type ct v = value_type p) ''assertion failed: (left == right)'')) (List.enumerate 0 args)"

definition write_args :: "runtime_value list \<Rightarrow> u8 list \<Rightarrow> u8 list" where
  "write_args args values_vec = fold (\<lambda>(index, v) vec. overwrite vec (16 * index) (rv_bytes v)) (List.enumerate 0 args) values_vec"

definition read_results :: "(val_kind \<Rightarrow> ir_type) \<Rightarrow> ir_signature \<Rightarrow> u8 list \<Rightarrow> runtime_value list res" where
  "read_results ct signature values_vec =
     map_res (\<lambda>(index, p).
       bind_res (unwrap_res (kind_of_type ct (value_type p)) ''unsupported value type'') (\<lambda>k.
       Inr (rv_read k (drop (16 * index) values_vec)))) (List.enumerate 0 (sig_returns signature))"

definition invoke ::
  "(val_kind \<Rightarrow> ir_type) \<Rightarrow> (ir_type \<Rightarrow> nat) \<Rightarrow> trampoline_code \<Rightarrow> exec \<Rightarrow> os \<Rightarrow> address \<Rightarrow> string \<Rightarrow> runtime_value list \<Rightarrow>
   jit_compiler \<Rightarrow> store \<Rightarrow> action_error + action_outcome \<times> jit_compiler \<times> store" where
  "invoke ct tyb gen exec os a function_name args compiler st =
     bind_res (aborting (lookup st a function_name)) (\<lambda>found.
       case found of
         None \<Rightarrow> Inl (AField (''no export named \"'' @ function_name @ ''\"''))
       | Some (EFunction addr callee_vmctx signature) \<Rightarrow>
           bind_res (aborting (check_args ct args signature)) (\<lambda>_.
           bind_res (aborting (assert_res (sig_params signature \<noteq> []) ''capacity overflow'')) (\<lambda>_.
           let values_vec = write_args args
                 (replicate (16 * max (length (sig_params signature) - 1) (length (sig_returns signature))) 0)
           in bind_res (setting_up (get_trampoline gen os addr signature 16 compiler)) (\<lambda>(exec_code_buf, compiler).
              bind_res (aborting (publish_compiled_code os compiler)) (\<lambda>compiler.
              bind_res (aborting (run_trampoline tyb exec (jc_code_memory compiler) exec_code_buf callee_vmctx values_vec st)) (\<lambda>(r, st).
                case r of
                  Inl message \<Rightarrow> Inr (Trapped message, compiler, st)
                | Inr values_vec \<Rightarrow>
                    bind_res (aborting (read_results ct signature values_vec)) (\<lambda>values.
                    Inr (Returned values, compiler, st)))))))
       | Some _ \<Rightarrow> Inl (AKind (''exported item \"'' @ function_name @ ''\" is not a function'')))"

text \<open>A slice of the memory that an export names, and the value of a global.\<close>

definition inspect_memory :: "store \<Rightarrow> address \<Rightarrow> string \<Rightarrow> usize \<Rightarrow> usize \<Rightarrow> action_error + address \<times> nat" where
  "inspect_memory st a memory_name start len =
     bind_res (aborting (lookup st a memory_name)) (\<lambda>found.
       case found of
         None \<Rightarrow> Inl (AField (''no export named \"'' @ memory_name @ ''\"''))
       | Some (EMemory definition _ _) \<Rightarrow>
           bind_res (aborting (deref_memory (st_heap st) definition)) (\<lambda>def.
           bind_res (aborting (assert_res (start \<le> start + len \<and> start + len \<le> vmm_current_length def) ''slice index'')) (\<lambda>_.
           Inr (vmm_base def + start, unat len)))
       | Some _ \<Rightarrow> Inl (AKind (''exported item \"'' @ memory_name @ ''\" is not a linear memory'')))"

definition get_global :: "(val_kind \<Rightarrow> ir_type) \<Rightarrow> store \<Rightarrow> address \<Rightarrow> string \<Rightarrow> action_error + runtime_value" where
  "get_global ct st a global_name =
     bind_res (aborting (lookup st a global_name)) (\<lambda>found.
       case found of
         None \<Rightarrow> Inl (AField (''no export named \"'' @ global_name @ ''\"''))
       | Some (EGlobal definition _ g) \<Rightarrow>
           bind_res (aborting (deref_global (st_heap st) definition)) (\<lambda>def.
             case kind_of_type ct (glb_ty g) of
               Some KI32 \<Rightarrow> Inr (rv_read KI32 def)
             | Some KI64 \<Rightarrow> Inr (rv_read KI64 def)
             | Some KF32 \<Rightarrow> Inr (rv_read KF32 def)
             | Some KF64 \<Rightarrow> Inr (rv_read KF64 def)
             | _ \<Rightarrow> Inl (AType (glb_ty g)))
       | Some _ \<Rightarrow> Inl (AKind (''exported item \"'' @ global_name @ ''\" is not a global variable'')))"

section \<open>Slots\<close>

text \<open>Both the arguments and the results are written to consecutive slots of 16 bytes.\<close>

fun write_slots :: "nat \<Rightarrow> u8 list list \<Rightarrow> u8 list \<Rightarrow> u8 list" where
  "write_slots k [] vec = vec"
| "write_slots k (bs # bss) vec = write_slots (Suc k) bss (overwrite vec (16 * k) bs)"

lemma overwrite_slot:
  assumes "16 * k + 16 \<le> length vec" and "length bs \<le> 16" and "n \<le> 16"
  shows "j \<noteq> k \<Longrightarrow> take n (drop (16 * j) (overwrite vec (16 * k) bs)) = take n (drop (16 * j) vec)"
    and "take (length bs) (drop (16 * k) (overwrite vec (16 * k) bs)) = bs"
proof -
  show "take n (drop (16 * j) (overwrite vec (16 * k) bs)) = take n (drop (16 * j) vec)" if "j \<noteq> k"
  proof (rule nth_equalityI)
    fix i assume i: "i < length (take n (drop (16 * j) (overwrite vec (16 * k) bs)))"
    have "\<not> (16 * k \<le> 16 * j + i \<and> 16 * j + i < 16 * k + length bs)" using i that assms by auto
    moreover have "16 * j \<le> length vec" "16 * j + i < length vec" using i assms by auto
    ultimately show "take n (drop (16 * j) (overwrite vec (16 * k) bs)) ! i = take n (drop (16 * j) vec) ! i"
      using i assms by (auto simp: nth_overwrite)
  qed (use assms in simp)
  show "take (length bs) (drop (16 * k) (overwrite vec (16 * k) bs)) = bs" using assms by (simp add: overwrite_def)
qed

lemma write_slots_length:
  "16 * (k + length bss) \<le> length vec \<Longrightarrow> list_all (\<lambda>bs. length bs \<le> 16) bss \<Longrightarrow> length (write_slots k bss vec) = length vec"
  by (induction k bss vec rule: write_slots.induct) auto

lemma write_slots_outside:
  assumes "16 * (k + length bss) \<le> length vec" and "list_all (\<lambda>bs. length bs \<le> 16) bss" and "n \<le> 16"
    and "j < k \<or> k + length bss \<le> j"
  shows "take n (drop (16 * j) (write_slots k bss vec)) = take n (drop (16 * j) vec)"
  using assms
proof (induction k bss vec rule: write_slots.induct)
  case (2 k bs bss vec)
  then have "j \<noteq> k" by auto
  then show ?case using 2 overwrite_slot(1) [of k vec bs n j] by auto
qed simp

lemma write_slots_inside:
  assumes "16 * (k + length bss) \<le> length vec" and "list_all (\<lambda>bs. length bs \<le> 16) bss" and "j < length bss"
  shows "take (length (bss ! j)) (drop (16 * (k + j)) (write_slots k bss vec)) = bss ! j"
  using assms
proof (induction k bss vec arbitrary: j rule: write_slots.induct)
  case (2 k bs bss vec)
  show ?case
  proof (cases j)
    case 0
    then show ?thesis
      using 2 write_slots_outside [of "Suc k" bss "overwrite vec (16 * k) bs" "length bs" k] overwrite_slot(2) [of k vec bs 0] by simp
  next
    case (Suc i)
    then show ?thesis using 2(1) [of i] 2(2-) by simp
  qed
qed simp

lemma write_args_slots: "write_args args vec = write_slots 0 (map rv_bytes args) vec"
proof -
  have "fold (\<lambda>(index, v) vec. overwrite vec (16 * index) (rv_bytes v)) (List.enumerate k args) vec = write_slots k (map rv_bytes args) vec" for k
    by (induction args arbitrary: k vec) simp_all
  then show ?thesis by (simp add: write_args_def)
qed

lemma trampoline_offset_small: "i < 2 ^ 26 \<Longrightarrow> trampoline_offset (of_nat i) 16 = 16 * int i"
proof -
  assume i: "i < 2 ^ 26"
  have "(of_nat i * of_nat 16 :: usize) = of_nat (16 * i)" by simp
  moreover have "ucast (of_nat (16 * i) :: usize) = (of_nat (16 * i) :: u32)"
    by (rule word_unat_eq_iff [THEN iffD2])
      (use i in \<open>simp add: unat_of_nat unsigned_ucast_eq take_bit_nat_eq_self del: of_nat_mult\<close>)
  moreover have "sint (of_nat (16 * i) :: u32) = int (16 * i)"
    using i by (simp add: signed_of_nat signed_take_bit_int_eq_self del: of_nat_mult)
  ultimately show ?thesis by (simp add: trampoline_offset_def del: of_nat_mult)
qed

lemma store_results_slots:
  assumes "16 * (k + length rs) \<le> length vec" and "list_all (\<lambda>bs. length bs \<le> 16) rs" and "k + length rs \<le> 2 ^ 26"
  shows "store_results 16 k rs vec = Inr (write_slots k rs vec)"
  using assms
proof (induction rs arbitrary: k vec)
  case (Cons r rs)
  have "nat (trampoline_offset (of_nat k) 16) = 16 * k" "0 \<le> trampoline_offset (of_nat k) 16"
    using trampoline_offset_small [of k] Cons.prems(3) by simp_all
  then show ?case using Cons by (simp add: Let_def)
qed simp

section \<open>Arguments and results\<close>

text \<open>The types of Cranelift: five different ones for the values of WebAssembly, with their sizes.\<close>

definition types_ok :: "(val_kind \<Rightarrow> ir_type) \<Rightarrow> (ir_type \<Rightarrow> nat) \<Rightarrow> bool" where
  "types_ok ct tyb \<longleftrightarrow> inj ct \<and> (\<forall>k. tyb (ct k) = kind_size k)"

text \<open>The signature of a function of WebAssembly: a context, then parameters and results of these kinds.\<close>

definition signature_of :: "(val_kind \<Rightarrow> ir_type) \<Rightarrow> ir_signature \<Rightarrow> val_kind list \<Rightarrow> val_kind list \<Rightarrow> bool" where
  "signature_of ct sig ks rs \<longleftrightarrow>
     (case sig_params sig of
        [] \<Rightarrow> False
      | ctx # params \<Rightarrow> purpose ctx = VMContext \<and> list_all (\<lambda>p. purpose p = Normal) params \<and> map value_type params = map ct ks) \<and>
     map value_type (sig_returns sig) = map ct rs \<and> length ks \<le> 2 ^ 26 \<and> length rs \<le> 2 ^ 26"

fun rv_ok :: "runtime_value \<Rightarrow> bool" where
  "rv_ok (RvV128 bs) \<longleftrightarrow> length bs = 16"
| "rv_ok _ \<longleftrightarrow> True"

lemma kind_size_le: "kind_size k \<le> 16"
  by (cases k) simp_all

lemma length_rv_bytes: "rv_ok v \<Longrightarrow> length (rv_bytes v) = kind_size (rv_kind v)"
  by (cases v) simp_all

lemma rv_read_take: "rv_read k (take (kind_size k) bs) = rv_read k bs"
  by (cases k) simp_all

lemma rv_read_bytes: "rv_ok v \<Longrightarrow> rv_read (rv_kind v) (rv_bytes v) = v"
  by (cases v) (simp_all add: from_to_le)

lemma kind_of_type_ok: "types_ok ct tyb \<Longrightarrow> kind_of_type ct (ct k) = Some k"
  by (cases k) (auto simp: types_ok_def kind_of_type_def inj_eq)

lemma signature_ofE:
  assumes "signature_of ct sig ks rs"
  obtains ctx params where "sig_params sig = ctx # params" "purpose ctx = VMContext" "list_all (\<lambda>p. purpose p = Normal) params"
    "length params = length ks" "\<forall>i < length ks. value_type (params ! i) = ct (ks ! i)"
    "length (sig_returns sig) = length rs" "\<forall>i < length rs. value_type (sig_returns sig ! i) = ct (rs ! i)"
    "length ks \<le> 2 ^ 26" "length rs \<le> 2 ^ 26"
proof -
  have nth: "length xs = length ys \<and> (\<forall>i < length ys. value_type (xs ! i) = ct (ys ! i))" if "map value_type xs = map ct ys" for xs ys
    using that by (auto simp: list_eq_iff_nth_eq)
  obtain ctx params where "sig_params sig = ctx # params" using assms by (cases "sig_params sig") (auto simp: signature_of_def)
  then show thesis using assms nth by (intro that [of ctx params]) (auto simp: signature_of_def)
qed

lemma check_args_ok:
  assumes "signature_of ct sig ks rs" and "map rv_kind args = take (length args) ks"
  shows "\<exists>us. check_args ct args sig = Inr us"
proof -
  obtain ctx params where sig: "sig_params sig = ctx # params" "length params = length ks"
    "\<forall>i < length ks. value_type (params ! i) = ct (ks ! i)" using assms(1) by (rule signature_ofE)
  have len: "length args \<le> length ks" using arg_cong [OF assms(2), of length] by simp
  have "rv_kind (args ! i) = ks ! i" if "i < length args" for i
    using arg_cong [OF assms(2), of "\<lambda>xs. xs ! i"] that len by simp
  then show ?thesis unfolding check_args_def
    by (intro map_res_total) (use len sig in \<open>auto simp: in_set_conv_nth nth_enumerate_eq rv_value_type_def index_res_def\<close>)
qed

lemma load_arguments:
  assumes sig: "signature_of ct sig ks rs" and types: "types_ok ct tyb" and vec: "16 * length ks \<le> length vec"
  shows "map_res (trampoline_arg tyb vmctx vec 16) (List.enumerate 0 (sig_params sig)) =
    Inr (to_le 8 vmctx # map (\<lambda>i. take (kind_size (ks ! i)) (drop (16 * i) vec)) [0..<length ks])"
proof -
  obtain ctx params where p: "sig_params sig = ctx # params" "purpose ctx = VMContext" "list_all (\<lambda>p. purpose p = Normal) params"
    "length params = length ks" "\<forall>i < length ks. value_type (params ! i) = ct (ks ! i)" "length ks \<le> 2 ^ 26"
    using sig by (rule signature_ofE)
  have arg: "trampoline_arg tyb vmctx vec 16 (Suc i, params ! i) = Inr (take (kind_size (ks ! i)) (drop (16 * i) vec))"
    if i: "i < length ks" for i
  proof -
    have "trampoline_offset (of_nat i) 16 = 16 * int i" using trampoline_offset_small [of i] i p(6) by simp
    moreover have "16 * i + kind_size (ks ! i) \<le> length vec" using i vec kind_size_le [of "ks ! i"] by linarith
    moreover have "purpose (params ! i) = Normal" using p(3,4) i by (simp add: list_all_length)
    ultimately show ?thesis using i p(5) types by (simp add: trampoline_arg_def types_ok_def nat_mult_distrib Let_def)
  qed
  have "trampoline_arg tyb vmctx vec 16 (0, ctx) = Inr (to_le 8 vmctx)" using p(2) by (simp add: trampoline_arg_def)
  moreover have "map_res (trampoline_arg tyb vmctx vec 16) (List.enumerate 1 params) =
      Inr (map (\<lambda>i. take (kind_size (ks ! i)) (drop (16 * i) vec)) [0..<length ks])"
    unfolding map_res_Inr_iff using p(4) arg by (auto simp: list_all2_conv_all_nth nth_enumerate_eq)
  ultimately show ?thesis by (simp add: p(1))
qed

text \<open>Slots that no argument was given for are zero.\<close>

definition passed :: "val_kind list \<Rightarrow> runtime_value list \<Rightarrow> u8 list list" where
  "passed ks args = map rv_bytes args @ map (\<lambda>k. replicate (kind_size k) 0) (drop (length args) ks)"

lemma arguments_passed:
  assumes kinds: "map rv_kind args = take (length args) ks" and ok: "list_all rv_ok args" and n: "length ks \<le> n"
  shows "map (\<lambda>i. take (kind_size (ks ! i)) (drop (16 * i) (write_args args (replicate (16 * n) 0)))) [0..<length ks] = passed ks args"
    and "length (write_args args (replicate (16 * n) 0)) = 16 * n"
proof -
  have len: "length args \<le> length ks" using arg_cong [OF kinds, of length] by simp
  have small: "list_all (\<lambda>bs. length bs \<le> 16) (map rv_bytes args)"
    using ok kind_size_le by (auto simp: list_all_iff length_rv_bytes)
  have fits: "16 * (0 + length (map rv_bytes args)) \<le> length (replicate (16 * n) (0 :: u8))" using len n by simp
  show "length (write_args args (replicate (16 * n) 0)) = 16 * n"
    unfolding write_args_slots using write_slots_length [OF fits small] by simp
  have slot: "take (kind_size (ks ! i)) (drop (16 * i) (write_args args (replicate (16 * n) 0))) = passed ks args ! i"
    if i: "i < length ks" for i
  proof (cases "i < length args")
    case True
    have "rv_kind (args ! i) = ks ! i" using arg_cong [OF kinds, of "\<lambda>xs. xs ! i"] True len by simp
    then have "kind_size (ks ! i) = length (rv_bytes (args ! i))" using ok True by (simp add: length_rv_bytes list_all_length)
    then show ?thesis
      using write_slots_inside [OF fits small, of i] True by (simp add: write_args_slots passed_def nth_append)
  next
    case False
    have "kind_size (ks ! i) \<le> 16 * n - 16 * i" using i n kind_size_le [of "ks ! i"] by linarith
    then show ?thesis
      using write_slots_outside [OF fits small kind_size_le, of i "ks ! i"] False i len
      by (simp add: write_args_slots passed_def nth_append take_replicate drop_replicate min_def)
  qed
  show "map (\<lambda>i. take (kind_size (ks ! i)) (drop (16 * i) (write_args args (replicate (16 * n) 0)))) [0..<length ks] = passed ks args"
    by (rule nth_equalityI) (use slot len in \<open>simp_all add: passed_def\<close>)
qed

lemma results_read:
  assumes sig: "signature_of ct sig ks rs" and types: "types_ok ct tyb"
    and sizes: "map length results = map kind_size rs" and vec: "16 * length rs \<le> length vec"
  shows "\<exists>vec'. store_results 16 0 results vec = Inr vec' \<and> read_results ct sig vec' = Inr (map2 rv_read rs results)"
proof -
  obtain ret: "length (sig_returns sig) = length rs" "\<forall>i < length rs. value_type (sig_returns sig ! i) = ct (rs ! i)"
    and rs: "length rs \<le> 2 ^ 26" using sig by (rule signature_ofE)
  have len: "length results = length rs" using arg_cong [OF sizes, of length] by simp
  have size: "length (results ! i) = kind_size (rs ! i)" if "i < length rs" for i
    using arg_cong [OF sizes, of "\<lambda>xs. xs ! i"] that len by simp
  have small: "list_all (\<lambda>bs. length bs \<le> 16) results" using size len kind_size_le by (simp add: list_all_length)
  have fits: "16 * (0 + length results) \<le> length vec" using vec len by simp
  have "rv_read (rs ! i) (drop (16 * i) (write_slots 0 results vec)) = rv_read (rs ! i) (results ! i)" if "i < length rs" for i
    using write_slots_inside [OF fits small, of i] that len size [OF that] by (metis rv_read_take add_0)
  then have "read_results ct sig (write_slots 0 results vec) = Inr (map2 rv_read rs results)"
    unfolding read_results_def map_res_Inr_iff using ret len kind_of_type_ok [OF types]
    by (auto simp: list_all2_conv_all_nth nth_enumerate_eq unwrap_res_def)
  then show ?thesis using store_results_slots [OF fits small] rs len by simp
qed

section \<open>The compiler keeps its trampolines\<close>

text \<open>What the code generator is known to do: it fails with an error, or emits some code.\<close>

definition emits :: "trampoline_code \<Rightarrow> bool" where
  "emits gen \<longleftrightarrow> (\<forall>a sig n. case gen a sig n of Inl e \<Rightarrow> \<exists>m. e = Err m | Inr code \<Rightarrow> code \<noteq> [] \<and> length code < 2 ^ 63)"

lemma emitsD:
  assumes "emits gen"
  shows "gen a sig n = Inl e \<Longrightarrow> \<exists>m. e = Err m" and "gen a sig n = Inr code \<Longrightarrow> code \<noteq> [] \<and> length code < 2 ^ 63"
proof -
  have "case gen a sig n of Inl e \<Rightarrow> \<exists>m. e = Err m | Inr code \<Rightarrow> code \<noteq> [] \<and> length code < 2 ^ 63"
    using assms unfolding emits_def by blast
  then show "gen a sig n = Inl e \<Longrightarrow> \<exists>m. e = Err m" "gen a sig n = Inr code \<Longrightarrow> code \<noteq> [] \<and> length code < 2 ^ 63" by simp_all
qed

text \<open>Every trampoline was made for the function it is kept under, whose signature is that of its address, and its code is in the memory.\<close>

definition trampoline_ok :: "trampoline_code \<Rightarrow> (address \<Rightarrow> ir_signature) \<Rightarrow> code_memory \<Rightarrow> address \<times> trampoline \<Rightarrow> bool" where
  "trampoline_ok gen sigs cm = (\<lambda>(a, t). tr_callee t = a \<and> tr_sig t = sigs a \<and> tr_value_size t = 16 \<and>
     (\<exists>code. gen a (sigs a) 16 = Inr code \<and> code_at cm (tr_block t) code))"

definition jit_inv :: "trampoline_code \<Rightarrow> (address \<Rightarrow> ir_signature) \<Rightarrow> jit_compiler \<Rightarrow> bool" where
  "jit_inv gen sigs c \<longleftrightarrow> cm_inv (jc_code_memory c) \<and>
     (\<forall>entry \<in> set (jc_trampoline_park c). trampoline_ok gen sigs (jc_code_memory c) entry)"

lemma jit_inv_new: "jit_inv gen sigs jit_compiler_new"
  by (simp add: jit_inv_def jit_compiler_new_def cm_inv_new)

lemma trampoline_ok_separate: "trampoline_ok gen sigs cm entry \<Longrightarrow> separate cm bs cm' \<Longrightarrow> trampoline_ok gen sigs cm' entry"
  unfolding trampoline_ok_def case_prod_beta separate_def by blast

lemma jit_inv_separate:
  "jit_inv gen sigs c \<Longrightarrow> separate (jc_code_memory c) bs cm' \<Longrightarrow> cm_inv cm' \<Longrightarrow>
   jit_inv gen sigs (c\<lparr>jc_code_memory := cm'\<rparr>)"
  using trampoline_ok_separate by (fastforce simp: jit_inv_def)

lemma get_trampoline_ok:
  assumes inv: "jit_inv gen sigs c" and gen: "emits gen" and os: "page_ok os"
  shows "(\<exists>e. get_trampoline gen os a (sigs a) 16 c = Inl (Err e)) \<or>
    (\<exists>t c'. get_trampoline gen os a (sigs a) 16 c = Inr (t, c') \<and> jit_inv gen sigs c' \<and> (a, t) \<in> set (jc_trampoline_park c'))"
proof (cases "map_of (jc_trampoline_park c) a")
  case (Some t)
  then show ?thesis using inv map_of_SomeD [OF Some] by (simp add: get_trampoline_def)
next
  case None
  show ?thesis
  proof (cases "gen a (sigs a) 16")
    case (Inl e)
    from emitsD(1) [OF gen this] show ?thesis using None Inl by (auto simp: get_trampoline_def make_trampoline_def)
  next
    case (Inr code)
    from emitsD(2) [OF gen this] consider e where "allocate_copy_of_byte_slice os code (jc_code_memory c) = Inl (Err e)"
      | b cm' where "allocate_copy_of_byte_slice os code (jc_code_memory c) = Inr (b, cm')" "cm_inv cm'" "code_at cm' b code"
        "separate (jc_code_memory c) [b] cm'"
      using allocate_copy_ok [of "jc_code_memory c" os code] inv os by (auto simp: jit_inv_def)
    then show ?thesis
    proof cases
      case 1
      then show ?thesis using None Inr by (simp add: get_trampoline_def make_trampoline_def)
    next
      case (2 b cm')
      have "jit_inv gen sigs (c\<lparr>jc_code_memory := cm'\<rparr>)" by (rule jit_inv_separate [OF inv 2(4,2)])
      then show ?thesis
        using None Inr 2(1,3) by (simp add: get_trampoline_def make_trampoline_def jit_inv_def trampoline_ok_def)
    qed
  qed
qed

lemma publish_compiled_code_ok:
  assumes inv: "jit_inv gen sigs c" and gen: "emits gen" and os: "os_protect os"
  shows "\<exists>c'. publish_compiled_code os c = Inr c' \<and> jit_inv gen sigs c' \<and> jc_trampoline_park c' = jc_trampoline_park c \<and>
    (\<forall>(a, t) \<in> set (jc_trampoline_park c). fst (tr_block t) \<in> set (cm_executable (jc_code_memory c')))"
proof -
  have cm: "cm_inv (jc_code_memory c)" using inv by (simp add: jit_inv_def)
  obtain cm' where p: "cm_publish os (jc_code_memory c) = Inr cm'" "cm_inv cm'" "separate (jc_code_memory c) [] cm'"
    "\<forall>b code. code_at (jc_code_memory c) b code \<and> code \<noteq> [] \<longrightarrow> fst b \<in> set (cm_executable cm')"
    using publish_ok [OF cm os] by blast
  have "fst (tr_block t) \<in> set (cm_executable cm')" if park: "(a, t) \<in> set (jc_trampoline_park c)" for a t
  proof -
    obtain code where code: "gen a (sigs a) 16 = Inr code" "code_at (jc_code_memory c) (tr_block t) code"
      using inv park by (auto simp: jit_inv_def trampoline_ok_def)
    then show ?thesis using p(4) emitsD(2) [OF gen code(1)] by blast
  qed
  then show ?thesis using p(1) jit_inv_separate [OF inv p(3,2)] by (auto simp: publish_compiled_code_def)
qed

text \<open>Compiling another module leaves the trampolines as they are, whatever comes of it.\<close>

lemma jit_compile_keeps:
  assumes inv: "jit_inv gen sigs c" and os: "page_ok os"
    and size: "\<And>cp. compiled = Inr cp \<Longrightarrow> sum_list (map length (comp_bodies cp)) < 2 ^ 63"
  shows "jit_inv gen sigs (fst (snd (jit_compile os m compiled debug_data c l)))"
proof (cases compiled)
  case (Inr cp)
  have cm: "cm_inv (jc_code_memory c)" using inv by (simp add: jit_inv_def)
  consider e where "allocate_copy_of_byte_slices os (comp_bodies cp) (jc_code_memory c) = Inl e"
    | bs cm' where "allocate_copy_of_byte_slices os (comp_bodies cp) (jc_code_memory c) = Inr (bs, cm')" "cm_inv cm'"
      "separate (jc_code_memory c) bs cm'"
    using allocate_copies_ok [OF cm os size [OF Inr]] by blast
  then show ?thesis
  proof cases
    case (2 bs cm')
    have "jit_inv gen sigs (c\<lparr>jc_code_memory := cm'\<rparr>)" by (rule jit_inv_separate [OF inv 2(3,2)])
    then show ?thesis using Inr 2(1)
      by (auto simp: jit_compile_def allocate_functions_def Let_def jit_inv_def split: sum.splits prod.splits)
  qed (use Inr inv in \<open>simp add: jit_compile_def allocate_functions_def\<close>)
qed (use inv in \<open>simp add: jit_compile_def\<close>)

section \<open>Calls from the outside\<close>

text \<open>What the caller sees of a call that returned or trapped.\<close>

definition outcome_of :: "val_kind list \<Rightarrow> (string + u8 list list) \<times> store \<Rightarrow> action_outcome \<times> store" where
  "outcome_of rs r = (case r of (Inl message, st) \<Rightarrow> (Trapped message, st) | (Inr results, st) \<Rightarrow> (Returned (map2 rv_read rs results), st))"

lemma run_trampoline_ok:
  assumes sig: "signature_of ct sig ks rs" and types: "types_ok ct tyb"
    and t: "tr_callee t = f" "tr_sig t = sig" "tr_value_size t = 16" and exe: "fst (tr_block t) \<in> set (cm_executable cm)"
    and kinds: "map rv_kind args = take (length args) ks" and ok: "list_all rv_ok args" and n: "length ks \<le> n" "length rs \<le> n"
    and sizes: "\<And>results st'. exec f (to_le 8 vmctx # passed ks args) st = (Inr results, st') \<Longrightarrow> map length results = map kind_size rs"
  shows "\<exists>r. run_trampoline tyb exec cm t vmctx (write_args args (replicate (16 * n) 0)) st =
      Inr (r, snd (outcome_of rs (exec f (to_le 8 vmctx # passed ks args) st))) \<and>
    (case r of Inl message \<Rightarrow> fst (outcome_of rs (exec f (to_le 8 vmctx # passed ks args) st)) = Trapped message
     | Inr vec \<Rightarrow> \<exists>values. read_results ct sig vec = Inr values \<and>
         fst (outcome_of rs (exec f (to_le 8 vmctx # passed ks args) st)) = Returned values)"
proof -
  let ?vec = "write_args args (replicate (16 * n) 0)"
  have vec: "length ?vec = 16 * n" by (rule arguments_passed(2) [OF kinds ok n(1)])
  then have args: "map_res (trampoline_arg tyb vmctx ?vec 16) (List.enumerate 0 (sig_params sig)) = Inr (to_le 8 vmctx # passed ks args)"
    using load_arguments [OF sig types, of ?vec] n(1) arguments_passed(1) [OF kinds ok n(1)] by simp
  show ?thesis
  proof (cases "exec f (to_le 8 vmctx # passed ks args) st")
    case (Pair r st')
    show ?thesis
    proof (cases r)
      case (Inl message)
      then show ?thesis using Pair t exe args by (auto simp: run_trampoline_def outcome_of_def)
    next
      case (Inr results)
      have "16 * length rs \<le> length ?vec" using vec n(2) by simp
      from results_read [OF sig types sizes this] Pair Inr
      obtain vec' where "store_results 16 0 results ?vec = Inr vec'" "read_results ct sig vec' = Inr (map2 rv_read rs results)"
        by blast
      then show ?thesis using Pair Inr t exe args by (auto simp: run_trampoline_def outcome_of_def)
    qed
  qed
qed

text \<open>C13. A call from the outside reaches the function that the export names. When the arguments have the types of the first parameters, \<^verbatim>\<open>invoke\<close> either
  reports that no trampoline could be made, or runs the function once, with its own context, the bytes of the arguments, and
  zero for every parameter that no argument was given for; its trap is the trap that the caller sees, and its results are
  read back at their types. This holds for the first call, which makes the trampoline, and for every later one, which finds it.\<close>

theorem invoke_calls_export:
  assumes inv: "jit_inv gen sigs compiler" and gen: "emits gen" and os: "page_ok os" "os_protect os" and types: "types_ok ct tyb"
    and found: "lookup st a name = Inr (Some (EFunction f vmctx (sigs f)))" and sig: "signature_of ct (sigs f) ks rs"
    and kinds: "map rv_kind args = take (length args) ks" and ok: "list_all rv_ok args"
    and sizes: "\<And>results st'. exec f (to_le 8 vmctx # passed ks args) st = (Inr results, st') \<Longrightarrow> map length results = map kind_size rs"
  shows "(\<exists>e. get_trampoline gen os f (sigs f) 16 compiler = Inl (Err e) \<and>
       invoke ct tyb gen exec os a name args compiler st = Inl (ASetup (Err e))) \<or>
    (\<exists>outcome compiler' st'. invoke ct tyb gen exec os a name args compiler st = Inr (outcome, compiler', st') \<and>
       outcome_of rs (exec f (to_le 8 vmctx # passed ks args) st) = (outcome, st') \<and> jit_inv gen sigs compiler')"
proof -
  obtain ctx params where sp: "sig_params (sigs f) = ctx # params" "length params = length ks" "length (sig_returns (sigs f)) = length rs"
    using sig by (rule signature_ofE)
  obtain us where checked: "check_args ct args (sigs f) = Inr us" using check_args_ok [OF sig kinds] by blast
  let ?n = "max (length ks) (length rs)"
  from get_trampoline_ok [OF inv gen os(1), of f] show ?thesis
  proof (elim disjE exE conjE)
    fix e assume "get_trampoline gen os f (sigs f) 16 compiler = Inl (Err e)"
    then show ?thesis using found checked sp by (simp add: invoke_def aborting_def setting_up_def Let_def)
  next
    fix t c1 assume c1: "get_trampoline gen os f (sigs f) 16 compiler = Inr (t, c1)" "jit_inv gen sigs c1" "(f, t) \<in> set (jc_trampoline_park c1)"
    obtain c2 where c2: "publish_compiled_code os c1 = Inr c2" "jit_inv gen sigs c2" "jc_trampoline_park c2 = jc_trampoline_park c1"
      "fst (tr_block t) \<in> set (cm_executable (jc_code_memory c2))"
      using publish_compiled_code_ok [OF c1(2) gen os(2)] c1(3) by blast
    have t: "tr_callee t = f" "tr_sig t = sigs f" "tr_value_size t = 16"
      using c1(2,3) by (auto simp: jit_inv_def trampoline_ok_def)
    have n: "length ks \<le> ?n" "length rs \<le> ?n" by simp_all
    obtain outcome st' where o: "outcome_of rs (exec f (to_le 8 vmctx # passed ks args) st) = (outcome, st')" by fastforce
    from run_trampoline_ok [where exec = exec and st = st and vmctx = vmctx, OF sig types t c2(4) kinds ok n] sizes
    obtain r where r: "run_trampoline tyb exec (jc_code_memory c2) t vmctx (write_args args (replicate (16 * ?n) 0)) st = Inr (r, st')"
      "case r of Inl message \<Rightarrow> outcome = Trapped message
       | Inr vec \<Rightarrow> \<exists>values. read_results ct (sigs f) vec = Inr values \<and> outcome = Returned values"
      unfolding o fst_conv snd_conv by blast
    show ?thesis using found checked sp c1(1) c2(1,2) o r
      by (cases r) (auto simp: invoke_def aborting_def setting_up_def Let_def)
  qed
qed

definition second_sig :: ir_signature where
  "second_sig = \<lparr>sig_params = [\<lparr>value_type = 9, purpose = VMContext\<rparr>, \<lparr>value_type = 1, purpose = Normal\<rparr>, \<lparr>value_type = 1, purpose = Normal\<rparr>],
     sig_returns = [\<lparr>value_type = 1, purpose = Normal\<rparr>], call_conv = 0\<rparr>"

definition second_store :: store where
  "second_store = \<lparr>st_heap = undefined, st_instances = [0x1000 \<mapsto> \<lparr>in_refcount = 1, in_dependencies = [],
     in_module = module_new\<lparr>signatures := [second_sig], func_sigs := [0], exports := [(''second'', ExportFunction 0)]\<rparr>,
     in_offsets = undefined, in_memories = [], in_tables = [], in_finished_functions = [7]\<rparr>], st_global_exports = Map.empty\<rparr>"

fun example_type :: "val_kind \<Rightarrow> ir_type" where
  "example_type KI32 = 1"
| "example_type KI64 = 2"
| "example_type KF32 = 3"
| "example_type KF64 = 4"
| "example_type KV128 = 5"

definition example_type_bytes :: "ir_type \<Rightarrow> nat" where
  "example_type_bytes ty = (if ty = 1 \<or> ty = 3 then 4 else if ty = 2 \<or> ty = 4 then 8 else 16)"

definition example_gen :: trampoline_code where
  "example_gen a sig n = Inr [0xC3]"

definition second_exec :: exec where
  "second_exec f args st = (Inr [args ! 2], st)"

lemma example_types_ok: "types_ok example_type example_type_bytes"
proof -
  have "k = k'" if "example_type k = example_type k'" for k k' using that by (cases k; cases k') simp_all
  moreover have "example_type_bytes (example_type k) = kind_size k" for k by (cases k) (simp_all add: example_type_bytes_def)
  ultimately show ?thesis by (auto simp: types_ok_def inj_def)
qed

lemma example_trampoline: "\<exists>t c. get_trampoline example_gen example_os f sig 16 jit_compiler_new = Inr (t, c)"
proof -
  have "\<exists>off cm. cm_allocate example_os 1 code_memory_new = Inr (off, cm) \<and> cm_inv cm \<and> unat (cm_position cm) = unat off + 1 \<and>
      keeps_code code_memory_new cm (unat off)"
    using cm_allocate_ok [OF cm_inv_new example_page_ok, of 1]
    by (auto simp: cm_allocate_def code_memory_new_def mmap_new_def with_at_least_def accessible_reserved_def example_os_def
        round_up_to_page_size_def Let_def)
  then show ?thesis using copy_code_ok [of _ _ "[0xC3]"]
    by (fastforce simp: get_trampoline_def make_trampoline_def example_gen_def allocate_copy_of_byte_slice_def jit_compiler_new_def)
qed

text \<open>A call with one argument too few runs with zero in its place.\<close>

theorem invoke_calls_export_witness:
  "\<exists>compiler'. invoke example_type example_type_bytes example_gen second_exec example_os 0x1000 ''second'' [RvI32 5] jit_compiler_new second_store =
     Inr (Returned [RvI32 0], compiler', second_store)"
proof -
  have found: "lookup second_store 0x1000 ''second'' = Inr (Some (EFunction 7 0x1000 ((\<lambda>_. second_sig) 7)))"
    by (simp add: lookup_def instance_of_def second_store_def lookup_by_declaration_def module_new_def index_res_def
        defined_func_index_def)
  have sig: "signature_of example_type ((\<lambda>_. second_sig) 7) [KI32, KI32] [KI32]" by (simp add: signature_of_def second_sig_def)
  have run: "second_exec 7 (to_le 8 (0x1000 :: address) # passed [KI32, KI32] [RvI32 5]) second_store = (Inr [[0, 0, 0, 0]], second_store)"
    by (simp add: second_exec_def passed_def numeral_eq_Suc)
  have emits: "emits example_gen" by (simp add: emits_def example_gen_def)
  have os: "os_protect example_os" by (simp add: example_os_def)
  from invoke_calls_export [OF jit_inv_new emits example_page_ok os example_types_ok found sig, of "[RvI32 5]" second_exec]
  show ?thesis using run example_trampoline [of 7 second_sig] by (auto simp: outcome_of_def)
qed

end
