(* ===== verification/Wasi_Translate.thy ===== *)
theory Wasi_Translate
  imports Runtime_Memory
begin

text \<open>
  Arguments of the WASI calls between the linear memory of a guest and the host
  (\<^verbatim>\<open>wasmtime-wasi-c/src/translate.rs\<close>, with the types and layouts of \<^verbatim>\<open>wasm32.rs\<close>).

  The memory of the process is a function from addresses to bytes, since the calls write through raw
  pointers. A struct is written field by field; bytes of padding that no field covers are left alone.
  What the context looks up under the name \<^verbatim>\<open>memory\<close> is an argument: the definition of a memory, or
  \<open>None\<close> when there is no such export or it is not a memory.
\<close>

unbundle bit_operations_syntax

type_synonym u16 = "16 word"

section \<open>Memory of the process\<close>

type_synonym process_memory = "u64 \<Rightarrow> u8"

definition store_bytes :: "u64 \<Rightarrow> u8 list \<Rightarrow> process_memory \<Rightarrow> process_memory" where
  "store_bytes p bs m = (\<lambda>a. let i = unat (a - p) in if i < length bs then bs ! i else m a)"

definition load_bytes :: "u64 \<Rightarrow> nat \<Rightarrow> process_memory \<Rightarrow> u8 list" where
  "load_bytes p n m = map (\<lambda>i. m (p + of_nat i)) [0..<n]"

text \<open>Little-endian integers, in as many bytes as the type has.\<close>

definition to_bytes :: "'a::len word \<Rightarrow> u8 list" where
  "to_bytes x = map (\<lambda>i. ucast (drop_bit (8 * i) x)) [0..<LENGTH('a) div 8]"

fun from_bytes :: "u8 list \<Rightarrow> 'a::len word" where
  "from_bytes [] = 0"
| "from_bytes (b # bs) = ucast b OR push_bit 8 (from_bytes bs)"

text \<open>A struct as the offsets and the bytes of its fields.\<close>

type_synonym fields = "(nat \<times> u8 list) list"

definition store_fields :: "u64 \<Rightarrow> fields \<Rightarrow> process_memory \<Rightarrow> process_memory" where
  "store_fields p fs m = fold (\<lambda>(offset, bs). store_bytes (p + of_nat offset) bs) fs m"

section \<open>Types of the guest\<close>

definition WASI_ESUCCESS :: u16 where "WASI_ESUCCESS = 0"
definition WASI_EFAULT :: u16 where "WASI_EFAULT = 21"
definition WASI_EINVAL :: u16 where "WASI_EINVAL = 28"
definition WASI_ENOMEM :: u16 where "WASI_ENOMEM = 48"
definition WASI_ENOTCAPABLE :: u16 where "WASI_ENOTCAPABLE = 76"
definition WASI_EVENTTYPE_CLOCK :: u8 where "WASI_EVENTTYPE_CLOCK = 0"
definition WASI_EVENTTYPE_FD_READ :: u8 where "WASI_EVENTTYPE_FD_READ = 1"
definition WASI_EVENTTYPE_FD_WRITE :: u8 where "WASI_EVENTTYPE_FD_WRITE = 2"

lemmas wasi_constants = WASI_ESUCCESS_def WASI_EFAULT_def WASI_EINVAL_def WASI_ENOMEM_def WASI_ENOTCAPABLE_def
  WASI_EVENTTYPE_CLOCK_def WASI_EVENTTYPE_FD_READ_def WASI_EVENTTYPE_FD_WRITE_def

text \<open>Size and alignment.\<close>

type_synonym layout = "u64 \<times> u64"

definition char_layout :: layout where "char_layout = (1, 1)"
definition uintptr_layout :: layout where "uintptr_layout = (4, 4)"
definition size_layout :: layout where "size_layout = (4, 4)"
definition fd_layout :: layout where "fd_layout = (4, 4)"
definition timestamp_layout :: layout where "timestamp_layout = (8, 8)"
definition filesize_layout :: layout where "filesize_layout = (8, 8)"
definition roflags_layout :: layout where "roflags_layout = (2, 2)"
definition iovec_layout :: layout where "iovec_layout = (8, 4)"
definition prestat_layout :: layout where "prestat_layout = (8, 4)"
definition fdstat_layout :: layout where "fdstat_layout = (24, 8)"
definition filestat_layout :: layout where "filestat_layout = (56, 8)"
definition event_layout :: layout where "event_layout = (32, 8)"
definition subscription_layout :: layout where "subscription_layout = (56, 8)"

lemmas layouts = char_layout_def uintptr_layout_def size_layout_def fd_layout_def timestamp_layout_def filesize_layout_def
  roflags_layout_def iovec_layout_def prestat_layout_def fdstat_layout_def filestat_layout_def event_layout_def
  subscription_layout_def

section \<open>Types of the host\<close>

type_synonym host_iovec = "u64 \<times> u64"

record host_prestat =
  pr_type :: u8
  pr_name_len :: usize

record host_fdstat =
  fs_filetype :: u8
  fs_flags :: u16
  fs_rights_base :: u64
  fs_rights_inheriting :: u64

record host_filestat =
  st_dev :: u64
  st_ino :: u64
  st_filetype :: u8
  st_nlink :: u32
  st_size :: u64
  st_atim :: u64
  st_mtim :: u64
  st_ctim :: u64

datatype subscription_u =
    SubClock u64 u32 u64 u64 u16
  | SubFdReadwrite u32

record host_subscription =
  sub_userdata :: u64
  sub_type :: u8
  sub_u :: subscription_u

record host_event =
  ev_userdata :: u64
  ev_error :: u16
  ev_type :: u8
  ev_nbytes :: u64
  ev_flags :: u16

section \<open>Pointers\<close>

datatype wasi_error = Errno u16 | WasiPanic string

type_synonym 'a wasi = "wasi_error + 'a"

definition unwrap_wasi :: "'a wasi \<Rightarrow> 'a wasi" where
  "unwrap_wasi r = (case r of Inl (Errno _) \<Rightarrow> Inl (WasiPanic ''unwrap'') | _ \<Rightarrow> r)"

definition unwrap_option :: "'a option \<Rightarrow> 'a wasi" where
  "unwrap_option x = (case x of None \<Rightarrow> Inl (WasiPanic ''unwrap'') | Some y \<Rightarrow> Inr y)"

definition decode_ptr :: "vm_memory_definition option \<Rightarrow> u32 \<Rightarrow> usize \<Rightarrow> usize \<Rightarrow> u64 wasi" where
  "decode_ptr mem ptr len alignment =
     (case mem of
        None \<Rightarrow> Inl (Errno WASI_EINVAL)
      | Some definition_ \<Rightarrow>
          bind_res
            (if len > 0
             then (case checked_add (ucast ptr) (len - 1) of
                     None \<Rightarrow> Inl (Errno WASI_EFAULT)
                   | Some last_byte \<Rightarrow>
                       if last_byte \<ge> vmm_current_length definition_ then Inl (Errno WASI_EFAULT) else Inr ())
             else Inr ()) (\<lambda>_.
          if (ucast ptr :: usize) mod alignment \<noteq> 0 then Inl (Errno WASI_EINVAL)
          else Inr (vmm_base definition_ + ucast ptr)))"

definition decode_ptr_to :: "layout \<Rightarrow> vm_memory_definition option \<Rightarrow> u32 \<Rightarrow> u64 wasi" where
  "decode_ptr_to t mem ptr = decode_ptr mem ptr (fst t) (snd t)"

definition decode_pointee :: "layout \<Rightarrow> vm_memory_definition option \<Rightarrow> u32 \<Rightarrow> unit wasi" where
  "decode_pointee t mem ptr = bind_res (decode_ptr_to t mem ptr) (\<lambda>_. Inr ())"

definition encode_pointee ::
  "layout \<Rightarrow> vm_memory_definition option \<Rightarrow> u32 \<Rightarrow> fields \<Rightarrow> process_memory \<Rightarrow> process_memory wasi" where
  "encode_pointee t mem ptr fs m = bind_res (unwrap_wasi (decode_ptr_to t mem ptr)) (\<lambda>p. Inr (store_fields p fs m))"

definition decode_slice_of :: "layout \<Rightarrow> vm_memory_definition option \<Rightarrow> u32 \<Rightarrow> u32 \<Rightarrow> (u64 \<times> usize) wasi" where
  "decode_slice_of t mem ptr len =
     bind_res (unwrap_option (try_from len :: usize option)) (\<lambda>len.
     bind_res (unwrap_option (checked_mul (fst t) len)) (\<lambda>bytes.
     bind_res (decode_ptr mem ptr bytes (snd t)) (\<lambda>p. Inr (p, len))))"

section \<open>Values\<close>

definition encode_usize :: "usize \<Rightarrow> u32 wasi" where
  "encode_usize len = unwrap_option (try_from len)"

definition encode_device :: "u64 \<Rightarrow> u64" where
  "encode_device device = device"

definition encode_inode :: "u64 \<Rightarrow> u64" where
  "encode_inode inode = inode"

definition encode_linkcount :: "u32 \<Rightarrow> u32" where
  "encode_linkcount linkcount = linkcount"

definition decode_userdata :: "u64 \<Rightarrow> u64" where
  "decode_userdata userdata = userdata"

definition encode_userdata :: "u64 \<Rightarrow> u64" where
  "encode_userdata userdata = userdata"

definition decode_eventtype :: "u8 \<Rightarrow> u8" where
  "decode_eventtype eventtype = eventtype"

definition encode_eventtype :: "u8 \<Rightarrow> u8" where
  "encode_eventtype eventtype = eventtype"

definition decode_filesize :: "u64 \<Rightarrow> u64" where
  "decode_filesize filesize = filesize"

definition encode_filesize :: "u64 \<Rightarrow> u64" where
  "encode_filesize filesize = filesize"

definition encode_eventrwflags :: "u16 \<Rightarrow> u16" where
  "encode_eventrwflags eventrwflags = eventrwflags"

definition decode_subclockflags :: "u16 \<Rightarrow> u16" where
  "decode_subclockflags subclockflags = subclockflags"

definition decode_fd :: "u32 \<Rightarrow> u32" where
  "decode_fd fd = fd"

definition decode_filedelta :: "u64 \<Rightarrow> u64" where
  "decode_filedelta filedelta = filedelta"

definition decode_whence :: "u8 \<Rightarrow> u8" where
  "decode_whence whence = whence"

definition decode_clockid :: "u32 \<Rightarrow> u32" where
  "decode_clockid clockid = clockid"

definition decode_timestamp :: "u64 \<Rightarrow> u64" where
  "decode_timestamp timestamp = timestamp"

definition encode_timestamp :: "u64 \<Rightarrow> u64" where
  "encode_timestamp timestamp = timestamp"

definition decode_exitcode :: "u32 \<Rightarrow> u32" where
  "decode_exitcode exitcode = exitcode"

definition decode_lookupflags :: "u32 \<Rightarrow> u32" where
  "decode_lookupflags lookupflags = lookupflags"

definition decode_oflags :: "u16 \<Rightarrow> u16" where
  "decode_oflags oflags = oflags"

definition decode_advice :: "u8 \<Rightarrow> u8" where
  "decode_advice advice = advice"

definition decode_dircookie :: "u64 \<Rightarrow> u64" where
  "decode_dircookie dircookie = dircookie"

definition encode_preopentype :: "u8 \<Rightarrow> u8" where
  "encode_preopentype preopentype = preopentype"

definition encode_filetype :: "u8 \<Rightarrow> u8" where
  "encode_filetype filetype = filetype"

definition decode_fstflags :: "u16 \<Rightarrow> u16" where
  "decode_fstflags fstflags = fstflags"

definition encode_fstflags :: "u16 \<Rightarrow> u16" where
  "encode_fstflags fstflags = fstflags"

definition decode_fdflags :: "u16 \<Rightarrow> u16" where
  "decode_fdflags fdflags = fdflags"

definition encode_fdflags :: "u16 \<Rightarrow> u16" where
  "encode_fdflags fdflags = fdflags"

definition decode_sdflags :: "u8 \<Rightarrow> u8" where
  "decode_sdflags sdflags = sdflags"

definition decode_rights :: "u64 \<Rightarrow> u64" where
  "decode_rights rights = rights"

definition encode_rights :: "u64 \<Rightarrow> u64" where
  "encode_rights rights = rights"

definition decode_riflags :: "u16 \<Rightarrow> u16" where
  "decode_riflags riflags = riflags"

definition decode_siflags :: "u16 \<Rightarrow> u16" where
  "decode_siflags siflags = siflags"

definition encode_errno :: "u16 \<Rightarrow> u16 wasi" where
  "encode_errno e =
     (if e \<le> WASI_ENOTCAPABLE then Inr e else Inl (WasiPanic ''assertion failed: e <= wasm32::__WASI_ENOTCAPABLE''))"

section \<open>Slices\<close>

definition decode_char_slice :: "vm_memory_definition option \<Rightarrow> u32 \<Rightarrow> u32 \<Rightarrow> (u64 \<times> usize) wasi" where
  "decode_char_slice = decode_slice_of char_layout"

definition decode_charstar_slice :: "vm_memory_definition option \<Rightarrow> u32 \<Rightarrow> u32 \<Rightarrow> (u64 \<times> usize) wasi" where
  "decode_charstar_slice = decode_slice_of uintptr_layout"

definition charstar :: "u32 \<Rightarrow> u64 \<Rightarrow> u64 \<Rightarrow> u32" where
  "charstar guest_base host_base host = (if host = 0 then 0 else guest_base + ucast (host - host_base))"

definition encode_charstar_slice :: "u64 \<Rightarrow> u64 list \<Rightarrow> u32 \<Rightarrow> u64 \<Rightarrow> process_memory \<Rightarrow> process_memory" where
  "encode_charstar_slice ptr host_vec guest_base host_base m =
     fold (\<lambda>(i, host). store_bytes (ptr + of_nat i * fst uintptr_layout) (to_bytes (charstar guest_base host_base host)))
       (List.enumerate 0 host_vec) m"

text \<open>A pair of a guest pointer and a length; \<^verbatim>\<open>decode_ciovec\<close> and \<^verbatim>\<open>decode_iovec\<close> differ only in the mutability of
  the host pointer.\<close>

definition decode_ciovec :: "vm_memory_definition option \<Rightarrow> u32 \<times> u32 \<Rightarrow> host_iovec wasi" where
  "decode_ciovec mem ciovec =
     bind_res (unwrap_option (try_from (snd ciovec) :: usize option)) (\<lambda>len.
     bind_res (decode_ptr mem (fst ciovec) len 1) (\<lambda>buf. Inr (buf, len)))"

definition decode_iovec :: "vm_memory_definition option \<Rightarrow> u32 \<times> u32 \<Rightarrow> host_iovec wasi" where
  "decode_iovec mem iovec =
     bind_res (unwrap_option (try_from (snd iovec) :: usize option)) (\<lambda>len.
     bind_res (decode_ptr mem (fst iovec) len 1) (\<lambda>buf. Inr (buf, len)))"

text \<open>\<^verbatim>\<open>slice::from_raw_parts\<close>: the elements of a slice of the guest.\<close>

definition load_slice :: "nat \<Rightarrow> (u64 \<Rightarrow> process_memory \<Rightarrow> 'a) \<Rightarrow> u64 \<Rightarrow> usize \<Rightarrow> process_memory \<Rightarrow> 'a list" where
  "load_slice elem_size load p len m = map (\<lambda>i. load (p + of_nat (i * elem_size)) m) [0..<unat len]"

definition load_iovec :: "u64 \<Rightarrow> process_memory \<Rightarrow> u32 \<times> u32" where
  "load_iovec p m = (from_bytes (load_bytes p 4 m), from_bytes (load_bytes (p + 4) 4 m))"

definition decode_ciovec_slice ::
  "vm_memory_definition option \<Rightarrow> u32 \<Rightarrow> u32 \<Rightarrow> process_memory \<Rightarrow> host_iovec list wasi" where
  "decode_ciovec_slice mem ptr len m =
     bind_res (decode_slice_of iovec_layout mem ptr len) (\<lambda>(p, n).
     map_res (decode_ciovec mem) (load_slice 8 load_iovec p n m))"

definition decode_iovec_slice ::
  "vm_memory_definition option \<Rightarrow> u32 \<Rightarrow> u32 \<Rightarrow> process_memory \<Rightarrow> host_iovec list wasi" where
  "decode_iovec_slice mem ptr len m =
     bind_res (decode_slice_of iovec_layout mem ptr len) (\<lambda>(p, n).
     map_res (decode_iovec mem) (load_slice 8 load_iovec p n m))"

section \<open>Subscriptions and events\<close>

text \<open>The fields of a subscription of the guest that its type selects.\<close>

record guest_subscription =
  gs_userdata :: u64
  gs_type :: u8
  gs_identifier :: u64
  gs_clock_id :: u32
  gs_timeout :: u64
  gs_precision :: u64
  gs_flags :: u16
  gs_fd :: u32

definition load_subscription :: "u64 \<Rightarrow> process_memory \<Rightarrow> guest_subscription" where
  "load_subscription p m =
     \<lparr>gs_userdata = from_bytes (load_bytes p 8 m), gs_type = from_bytes (load_bytes (p + 8) 1 m),
      gs_identifier = from_bytes (load_bytes (p + 16) 8 m), gs_clock_id = from_bytes (load_bytes (p + 24) 4 m),
      gs_timeout = from_bytes (load_bytes (p + 32) 8 m), gs_precision = from_bytes (load_bytes (p + 40) 8 m),
      gs_flags = from_bytes (load_bytes (p + 48) 2 m), gs_fd = from_bytes (load_bytes (p + 16) 4 m)\<rparr>"

definition decode_subscription :: "guest_subscription \<Rightarrow> host_subscription wasi" where
  "decode_subscription guest =
     (if gs_type guest = WASI_EVENTTYPE_CLOCK
      then Inr \<lparr>sub_userdata = decode_userdata (gs_userdata guest), sub_type = decode_eventtype (gs_type guest),
        sub_u = SubClock (decode_userdata (gs_identifier guest)) (decode_clockid (gs_clock_id guest))
          (decode_timestamp (gs_timeout guest)) (decode_timestamp (gs_precision guest)) (decode_subclockflags (gs_flags guest))\<rparr>
      else if gs_type guest = WASI_EVENTTYPE_FD_READ \<or> gs_type guest = WASI_EVENTTYPE_FD_WRITE
      then Inr \<lparr>sub_userdata = decode_userdata (gs_userdata guest), sub_type = decode_eventtype (gs_type guest),
        sub_u = SubFdReadwrite (decode_fd (gs_fd guest))\<rparr>
      else Inl (Errno WASI_EINVAL))"

definition decode_subscription_slice ::
  "vm_memory_definition option \<Rightarrow> u32 \<Rightarrow> u32 \<Rightarrow> process_memory \<Rightarrow> host_subscription list wasi" where
  "decode_subscription_slice mem ptr len m =
     bind_res (decode_slice_of subscription_layout mem ptr len) (\<lambda>(p, n).
     map_res decode_subscription (load_slice 56 load_subscription p n m))"

definition encode_event :: "host_event \<Rightarrow> fields wasi" where
  "encode_event ev =
     bind_res (encode_errno (ev_error ev)) (\<lambda>err.
     bind_res
       (if ev_type ev = WASI_EVENTTYPE_CLOCK then Inr (replicate 16 0)
        else if ev_type ev = WASI_EVENTTYPE_FD_READ \<or> ev_type ev = WASI_EVENTTYPE_FD_WRITE
        then Inr (to_bytes (encode_filesize (ev_nbytes ev)) @ to_bytes (encode_eventrwflags (ev_flags ev)) @ replicate 6 0)
        else Inl (WasiPanic ''unrecognized event type'')) (\<lambda>u.
     Inr [(0, to_bytes (encode_userdata (ev_userdata ev))), (8, to_bytes err), (10, to_bytes (encode_eventtype (ev_type ev))),
       (12, replicate 4 0), (16, u)]))"

definition decode_event_slice :: "vm_memory_definition option \<Rightarrow> u32 \<Rightarrow> u32 \<Rightarrow> (u64 \<times> usize) wasi" where
  "decode_event_slice = decode_slice_of event_layout"

text \<open>\<^verbatim>\<open>ptr.add(i * size_of::<T>())\<close> on a pointer to \<^verbatim>\<open>T\<close> advances by that many elements.\<close>

fun encode_events :: "u64 \<Rightarrow> nat \<Rightarrow> host_event list \<Rightarrow> process_memory \<Rightarrow> process_memory wasi" where
  "encode_events ptr i [] m = Inr m"
| "encode_events ptr i (host # host_vec) m =
     bind_res (encode_event host) (\<lambda>guest.
     encode_events ptr (i + 1) host_vec
       (store_fields (ptr + (of_nat i * fst event_layout) * fst event_layout) guest m))"

definition encode_event_slice :: "u64 \<Rightarrow> host_event list \<Rightarrow> process_memory \<Rightarrow> process_memory wasi" where
  "encode_event_slice ptr host_vec m = encode_events ptr 0 host_vec m"

section \<open>Results by reference\<close>

definition decode_fd_byref :: "vm_memory_definition option \<Rightarrow> u32 \<Rightarrow> unit wasi" where
  "decode_fd_byref = decode_pointee fd_layout"

definition encode_fd_byref :: "vm_memory_definition option \<Rightarrow> u32 \<Rightarrow> u32 \<Rightarrow> process_memory \<Rightarrow> process_memory wasi" where
  "encode_fd_byref mem fd_ptr fd m =
     bind_res (unwrap_option (try_from fd :: u32 option)) (\<lambda>fd. encode_pointee fd_layout mem fd_ptr [(0, to_bytes fd)] m)"

definition decode_timestamp_byref :: "vm_memory_definition option \<Rightarrow> u32 \<Rightarrow> unit wasi" where
  "decode_timestamp_byref = decode_pointee timestamp_layout"

definition encode_timestamp_byref :: "vm_memory_definition option \<Rightarrow> u32 \<Rightarrow> u64 \<Rightarrow> process_memory \<Rightarrow> process_memory wasi" where
  "encode_timestamp_byref mem timestamp_ptr host_timestamp m =
     bind_res (unwrap_option (try_from host_timestamp :: u64 option)) (\<lambda>t.
     encode_pointee timestamp_layout mem timestamp_ptr [(0, to_bytes t)] m)"

definition decode_filesize_byref :: "vm_memory_definition option \<Rightarrow> u32 \<Rightarrow> unit wasi" where
  "decode_filesize_byref = decode_pointee filesize_layout"

definition encode_filesize_byref :: "vm_memory_definition option \<Rightarrow> u32 \<Rightarrow> u64 \<Rightarrow> process_memory \<Rightarrow> process_memory wasi" where
  "encode_filesize_byref mem filesize_ptr host_filesize m =
     bind_res (unwrap_option (try_from host_filesize :: u64 option)) (\<lambda>s.
     encode_pointee filesize_layout mem filesize_ptr [(0, to_bytes s)] m)"

definition decode_roflags_byref :: "vm_memory_definition option \<Rightarrow> u32 \<Rightarrow> unit wasi" where
  "decode_roflags_byref = decode_pointee roflags_layout"

definition encode_roflags_byref :: "vm_memory_definition option \<Rightarrow> u32 \<Rightarrow> u16 \<Rightarrow> process_memory \<Rightarrow> process_memory wasi" where
  "encode_roflags_byref mem roflags_ptr host_roflags m =
     bind_res (unwrap_option (try_from host_roflags :: u16 option)) (\<lambda>f.
     encode_pointee roflags_layout mem roflags_ptr [(0, to_bytes f)] m)"

definition decode_usize_byref :: "vm_memory_definition option \<Rightarrow> u32 \<Rightarrow> unit wasi" where
  "decode_usize_byref = decode_pointee size_layout"

definition encode_usize_byref :: "vm_memory_definition option \<Rightarrow> u32 \<Rightarrow> usize \<Rightarrow> process_memory \<Rightarrow> process_memory wasi" where
  "encode_usize_byref mem usize_ptr host_usize m =
     bind_res (unwrap_option (try_from host_usize :: u32 option)) (\<lambda>s.
     encode_pointee size_layout mem usize_ptr [(0, to_bytes s)] m)"

definition decode_prestat_byref :: "vm_memory_definition option \<Rightarrow> u32 \<Rightarrow> unit wasi" where
  "decode_prestat_byref = decode_pointee prestat_layout"

definition encode_prestat_byref ::
  "vm_memory_definition option \<Rightarrow> u32 \<Rightarrow> host_prestat \<Rightarrow> process_memory \<Rightarrow> process_memory wasi" where
  "encode_prestat_byref mem prestat_ptr host m =
     bind_res (encode_usize (pr_name_len host)) (\<lambda>name_len.
     encode_pointee prestat_layout mem prestat_ptr
       [(0, to_bytes (encode_preopentype (pr_type host))), (4, to_bytes name_len)] m)"

definition decode_fdstat_byref :: "vm_memory_definition option \<Rightarrow> u32 \<Rightarrow> unit wasi" where
  "decode_fdstat_byref = decode_pointee fdstat_layout"

definition encode_fdstat_byref ::
  "vm_memory_definition option \<Rightarrow> u32 \<Rightarrow> host_fdstat \<Rightarrow> process_memory \<Rightarrow> process_memory wasi" where
  "encode_fdstat_byref mem fdstat_ptr host m =
     encode_pointee fdstat_layout mem fdstat_ptr
       [(0, to_bytes (encode_filetype (fs_filetype host))), (2, to_bytes (encode_fdflags (fs_flags host))),
        (4, to_bytes (0 :: u32)), (8, to_bytes (encode_rights (fs_rights_base host))),
        (16, to_bytes (encode_rights (fs_rights_inheriting host)))] m"

definition decode_filestat_byref :: "vm_memory_definition option \<Rightarrow> u32 \<Rightarrow> unit wasi" where
  "decode_filestat_byref = decode_pointee filestat_layout"

definition encode_filestat_byref ::
  "vm_memory_definition option \<Rightarrow> u32 \<Rightarrow> host_filestat \<Rightarrow> process_memory \<Rightarrow> process_memory wasi" where
  "encode_filestat_byref mem filestat_ptr host m =
     encode_pointee filestat_layout mem filestat_ptr
       [(0, to_bytes (encode_device (st_dev host))), (8, to_bytes (encode_inode (st_ino host))),
        (16, to_bytes (encode_filetype (st_filetype host))), (20, to_bytes (encode_linkcount (st_nlink host))),
        (24, to_bytes (encode_filesize (st_size host))), (32, to_bytes (encode_timestamp (st_atim host))),
        (40, to_bytes (encode_timestamp (st_mtim host))), (48, to_bytes (encode_timestamp (st_ctim host)))] m"

end
