(* ===== verification/Wasi_Syscalls.thy ===== *)
theory Wasi_Syscalls
  imports Wasi_Translate
begin

text \<open>
  The WASI calls (\<^verbatim>\<open>wasmtime-wasi-c/src/syscalls.rs\<close>): each decodes the arguments of the guest, calls the
  function \<^verbatim>\<open>wasmtime_ssp_*\<close> of the host, writes the results into the memory of the guest and returns the error
  number.

  The functions of the host are generated bindings to C code. They are one argument of every call,
  \<open>host\<close>, which receives the call with its arguments and the state, and answers with what it wrote through the
  pointers to local variables and with the new state: it may write the memory of the process and change its own
  tables. The pointer to the context becomes \<open>mem\<close>, the definition of the memory it looks up, and \<open>w\<close>, the state. Messages
  for the log are left out. Additions on \<^verbatim>\<open>u32\<close> wrap, as in a release build.
\<close>

section \<open>State\<close>

text \<open>The arguments and the environment as the C code keeps them; \<open>ae_argv\<close> and \<open>ae_environ\<close> hold the distances
  of the pointers from the start of the buffer, which is private to the C code.\<close>

record argv_environ_values =
  ae_argc :: usize
  ae_argv :: "usize list"
  ae_argv_buf_size :: usize
  ae_argv_buf :: "u8 list"
  ae_environ_count :: usize
  ae_environ :: "usize list"
  ae_environ_buf_size :: usize
  ae_environ_buf :: "u8 list"

text \<open>The state of the module beside the memory of the process; \<open>'h\<close> is what the C code keeps in the table
  of descriptors and in the table of preopened directories.\<close>

record 'h wasi_state =
  w_memory :: process_memory
  w_argv_environ :: argv_environ_values
  w_tables :: 'h

definition get_argv_environ :: "'h wasi_state \<Rightarrow> argv_environ_values" where
  "get_argv_environ w = w_argv_environ w"

section \<open>The host\<close>

datatype (plugins only: code) host_call =
    Ssp_args_get "u64 list" u64
  | Ssp_args_sizes_get
  | Ssp_clock_res_get u32
  | Ssp_clock_time_get u32 u64
  | Ssp_environ_get "u64 list" u64
  | Ssp_environ_sizes_get
  | Ssp_fd_prestat_get u32
  | Ssp_fd_prestat_dir_name u32 u64 usize
  | Ssp_fd_close u32
  | Ssp_fd_datasync u32
  | Ssp_fd_pread u32 "host_iovec list" u64
  | Ssp_fd_pwrite u32 "host_iovec list" u64
  | Ssp_fd_read u32 "host_iovec list"
  | Ssp_fd_renumber u32 u32
  | Ssp_fd_seek u32 u64 u8
  | Ssp_fd_tell u32
  | Ssp_fd_fdstat_get u32
  | Ssp_fd_fdstat_set_flags u32 u16
  | Ssp_fd_fdstat_set_rights u32 u64 u64
  | Ssp_fd_sync u32
  | Ssp_fd_write u32 "host_iovec list"
  | Ssp_fd_advise u32 u64 u64 u8
  | Ssp_fd_allocate u32 u64 u64
  | Ssp_path_create_directory u32 u64 usize
  | Ssp_path_link u32 u32 u64 usize u32 u64 usize
  | Ssp_path_open u32 u32 u64 usize u16 u64 u64 u16
  | Ssp_fd_readdir u32 u64 usize u64
  | Ssp_path_readlink u32 u64 usize u64 usize
  | Ssp_path_rename u32 u64 usize u32 u64 usize
  | Ssp_fd_filestat_get u32
  | Ssp_fd_filestat_set_times u32 u64 u64 u16
  | Ssp_fd_filestat_set_size u32 u64
  | Ssp_path_filestat_get u32 u32 u64 usize
  | Ssp_path_filestat_set_times u32 u32 u64 usize u64 u64 u16
  | Ssp_path_symlink u64 usize u32 u64 usize
  | Ssp_path_unlink_file u32 u64 usize
  | Ssp_path_remove_directory u32 u64 usize
  | Ssp_poll_oneoff "host_subscription list" "host_event list"
  | Ssp_proc_exit u32
  | Ssp_random_get u64 usize
  | Ssp_sched_yield
  | Ssp_sock_recv u32 "host_iovec list" u16
  | Ssp_sock_send u32 "host_iovec list" u16
  | Ssp_sock_shutdown u32 u8

text \<open>What a function of the host returned and wrote through the pointers to local variables: \<open>None\<close> when it
  left the variable alone, and the elements it wrote from the start of a vector.\<close>

record host_out =
  out_errno :: u16
  out_size :: "usize option"
  out_size2 :: "usize option"
  out_timestamp :: "u64 option"
  out_filesize :: "u64 option"
  out_fd :: "u32 option"
  out_roflags :: "u16 option"
  out_prestat :: "host_prestat option"
  out_fdstat :: "host_fdstat option"
  out_filestat :: "host_filestat option"
  out_pointers :: "u64 list"
  out_events :: "host_event list"

type_synonym 'h host = "host_call \<Rightarrow> 'h wasi_state \<Rightarrow> host_out \<times> 'h wasi_state"

definition written :: "'a \<Rightarrow> 'a option \<Rightarrow> 'a" where
  "written initial out = (case out of None \<Rightarrow> initial | Some x \<Rightarrow> x)"

definition written_vec :: "'a list \<Rightarrow> 'a list \<Rightarrow> 'a list" where
  "written_vec initial out = take (length initial) out @ drop (length out) initial"

definition zeroed_prestat :: host_prestat where
  "zeroed_prestat = \<lparr>pr_type = 0, pr_name_len = 0\<rparr>"

definition zeroed_fdstat :: host_fdstat where
  "zeroed_fdstat = \<lparr>fs_filetype = 0, fs_flags = 0, fs_rights_base = 0, fs_rights_inheriting = 0\<rparr>"

definition zeroed_filestat :: host_filestat where
  "zeroed_filestat =
     \<lparr>st_dev = 0, st_ino = 0, st_filetype = 0, st_nlink = 0, st_size = 0, st_atim = 0, st_mtim = 0, st_ctim = 0\<rparr>"

definition zeroed_event :: host_event where
  "zeroed_event = \<lparr>ev_userdata = 0, ev_error = 0, ev_type = 0, ev_nbytes = 0, ev_flags = 0\<rparr>"

section \<open>Control flow of the calls\<close>

type_synonym 'h outcome = "(u16 \<times> 'h wasi_state) wasi"

definition return_encoded_errno :: "u16 \<Rightarrow> 'h wasi_state \<Rightarrow> 'h outcome" where
  "return_encoded_errno e w = bind_res (encode_errno e) (\<lambda>errno. Inr (errno, w))"

text \<open>\<^verbatim>\<open>match ... { Ok(x) => x, Err(e) => return return_encoded_errno(e) }\<close>.\<close>

definition or_return :: "'a wasi \<Rightarrow> 'h wasi_state \<Rightarrow> ('a \<Rightarrow> 'h outcome) \<Rightarrow> 'h outcome" where
  "or_return r w k =
     (case r of
        Inl (Errno e) \<Rightarrow> return_encoded_errno e w
      | Inl (WasiPanic s) \<Rightarrow> Inl (WasiPanic s)
      | Inr x \<Rightarrow> k x)"

text \<open>\<^verbatim>\<open>match u32::try_from(n) { Ok(n) => n, Err(_) => return wasm32::__WASI_ENOMEM }\<close>.\<close>

definition or_nomem :: "usize \<Rightarrow> 'h wasi_state \<Rightarrow> (u32 \<Rightarrow> 'h outcome) \<Rightarrow> 'h outcome" where
  "or_nomem n w k = (case try_from n of None \<Rightarrow> Inr (WASI_ENOMEM, w) | Some n' \<Rightarrow> k n')"

text \<open>A write into the memory of the guest.\<close>

definition encoding :: "(process_memory \<Rightarrow> process_memory wasi) \<Rightarrow> 'h wasi_state \<Rightarrow> 'h wasi_state wasi" where
  "encoding f w = bind_res (f (w_memory w)) (\<lambda>m. Inr (w\<lparr>w_memory := m\<rparr>))"

text \<open>\<^verbatim>\<open>if e == ESUCCESS { ... } return_encoded_errno(e)\<close>.\<close>

definition on_success :: "host_out \<Rightarrow> ('h wasi_state \<Rightarrow> 'h wasi_state wasi) \<Rightarrow> 'h wasi_state \<Rightarrow> 'h outcome" where
  "on_success out f w =
     bind_res (if out_errno out = WASI_ESUCCESS then f w else Inr w) (return_encoded_errno (out_errno out))"

definition always :: "host_out \<Rightarrow> ('h wasi_state \<Rightarrow> 'h wasi_state wasi) \<Rightarrow> 'h wasi_state \<Rightarrow> 'h outcome" where
  "always out f w = bind_res (f w) (return_encoded_errno (out_errno out))"

definition only_errno :: "host_out \<Rightarrow> 'h wasi_state \<Rightarrow> 'h outcome" where
  "only_errno out w = return_encoded_errno (out_errno out) w"

section \<open>Calls\<close>

definition args_get ::
  "'h host \<Rightarrow> vm_memory_definition option \<Rightarrow> u32 \<Rightarrow> u32 \<Rightarrow> 'h wasi_state \<Rightarrow> 'h outcome" where
  "args_get host mem argv argv_buf w =
     or_nomem (ae_argc (get_argv_environ w)) w (\<lambda>count.
     or_nomem (ae_argv_buf_size (get_argv_environ w)) w (\<lambda>buf_size.
     or_return (decode_char_slice mem argv_buf buf_size) w (\<lambda>(host_buf, _).
     or_return (decode_charstar_slice mem argv (count + 1)) w (\<lambda>(argv, _).
     let host_vec = replicate (unat (ae_argc (get_argv_environ w) + 1)) 0 in
     let (out, w) = host (Ssp_args_get host_vec host_buf) w in
     always out (encoding (\<lambda>m.
       Inr (encode_charstar_slice argv (written_vec host_vec (out_pointers out)) argv_buf host_buf m))) w))))"

definition args_sizes_get ::
  "'h host \<Rightarrow> vm_memory_definition option \<Rightarrow> u32 \<Rightarrow> u32 \<Rightarrow> 'h wasi_state \<Rightarrow> 'h outcome" where
  "args_sizes_get host mem argc argv_buf_size w =
     or_return (decode_usize_byref mem argc) w (\<lambda>_.
     or_return (decode_usize_byref mem argv_buf_size) w (\<lambda>_.
     let (out, w) = host Ssp_args_sizes_get w in
     on_success out (\<lambda>w.
       bind_res (encoding (encode_usize_byref mem argc (written 0 (out_size out))) w)
         (encoding (encode_usize_byref mem argv_buf_size (written 0 (out_size2 out))))) w))"

definition clock_res_get ::
  "'h host \<Rightarrow> vm_memory_definition option \<Rightarrow> u32 \<Rightarrow> u32 \<Rightarrow> 'h wasi_state \<Rightarrow> 'h outcome" where
  "clock_res_get host mem clock_id resolution w =
     (let clock_id = decode_clockid clock_id in
     or_return (decode_timestamp_byref mem resolution) w (\<lambda>_.
     let (out, w) = host (Ssp_clock_res_get clock_id) w in
     on_success out (encoding (encode_timestamp_byref mem resolution (written 0 (out_timestamp out)))) w))"

definition clock_time_get ::
  "'h host \<Rightarrow> vm_memory_definition option \<Rightarrow> u32 \<Rightarrow> u64 \<Rightarrow> u32 \<Rightarrow> 'h wasi_state \<Rightarrow> 'h outcome" where
  "clock_time_get host mem clock_id precision time w =
     (let clock_id = decode_clockid clock_id in
     let precision = decode_timestamp precision in
     or_return (decode_timestamp_byref mem time) w (\<lambda>_.
     let (out, w) = host (Ssp_clock_time_get clock_id precision) w in
     on_success out (encoding (encode_timestamp_byref mem time (written 0 (out_timestamp out)))) w))"

definition environ_get ::
  "'h host \<Rightarrow> vm_memory_definition option \<Rightarrow> u32 \<Rightarrow> u32 \<Rightarrow> 'h wasi_state \<Rightarrow> 'h outcome" where
  "environ_get host mem environ environ_buf w =
     or_nomem (ae_environ_count (get_argv_environ w)) w (\<lambda>count.
     or_nomem (ae_environ_buf_size (get_argv_environ w)) w (\<lambda>buf_size.
     or_return (decode_char_slice mem environ_buf buf_size) w (\<lambda>(host_buf, _).
     or_return (decode_charstar_slice mem environ (count + 1)) w (\<lambda>(environ, _).
     let host_vec = replicate (unat (ae_environ_count (get_argv_environ w) + 1)) 0 in
     let (out, w) = host (Ssp_environ_get host_vec host_buf) w in
     always out (encoding (\<lambda>m.
       Inr (encode_charstar_slice environ (written_vec host_vec (out_pointers out)) environ_buf host_buf m))) w))))"

definition environ_sizes_get ::
  "'h host \<Rightarrow> vm_memory_definition option \<Rightarrow> u32 \<Rightarrow> u32 \<Rightarrow> 'h wasi_state \<Rightarrow> 'h outcome" where
  "environ_sizes_get host mem environ_count environ_buf_size w =
     or_return (decode_usize_byref mem environ_count) w (\<lambda>_.
     or_return (decode_usize_byref mem environ_buf_size) w (\<lambda>_.
     let (out, w) = host Ssp_environ_sizes_get w in
     on_success out (\<lambda>w.
       bind_res (encoding (encode_usize_byref mem environ_count (written 0 (out_size out))) w)
         (encoding (encode_usize_byref mem environ_buf_size (written 0 (out_size2 out))))) w))"

definition fd_prestat_get ::
  "'h host \<Rightarrow> vm_memory_definition option \<Rightarrow> u32 \<Rightarrow> u32 \<Rightarrow> 'h wasi_state \<Rightarrow> 'h outcome" where
  "fd_prestat_get host mem fd buf w =
     (let fd = decode_fd fd in
     or_return (decode_prestat_byref mem buf) w (\<lambda>_.
     let (out, w) = host (Ssp_fd_prestat_get fd) w in
     always out (encoding (encode_prestat_byref mem buf (written zeroed_prestat (out_prestat out)))) w))"

definition fd_prestat_dir_name ::
  "'h host \<Rightarrow> vm_memory_definition option \<Rightarrow> u32 \<Rightarrow> u32 \<Rightarrow> u32 \<Rightarrow> 'h wasi_state \<Rightarrow> 'h outcome" where
  "fd_prestat_dir_name host mem fd path path_len w =
     or_return (decode_char_slice mem path path_len) w (\<lambda>(path, path_len).
     let (out, w) = host (Ssp_fd_prestat_dir_name fd path path_len) w in
     only_errno out w)"

definition fd_close ::
  "'h host \<Rightarrow> vm_memory_definition option \<Rightarrow> u32 \<Rightarrow> 'h wasi_state \<Rightarrow> 'h outcome" where
  "fd_close host mem fd w =
     (let fd = decode_fd fd in
     let (out, w) = host (Ssp_fd_close fd) w in
     only_errno out w)"

definition fd_datasync ::
  "'h host \<Rightarrow> vm_memory_definition option \<Rightarrow> u32 \<Rightarrow> 'h wasi_state \<Rightarrow> 'h outcome" where
  "fd_datasync host mem fd w =
     (let fd = decode_fd fd in
     let (out, w) = host (Ssp_fd_datasync fd) w in
     only_errno out w)"

definition fd_pread ::
  "'h host \<Rightarrow> vm_memory_definition option \<Rightarrow> u32 \<Rightarrow> u32 \<Rightarrow> u32 \<Rightarrow> u64 \<Rightarrow> u32 \<Rightarrow> 'h wasi_state \<Rightarrow> 'h outcome" where
  "fd_pread host mem fd iovs iovs_len offset nread w =
     (let fd = decode_fd fd in
     or_return (decode_iovec_slice mem iovs iovs_len (w_memory w)) w (\<lambda>iovs.
     let offset = decode_filesize offset in
     or_return (decode_usize_byref mem nread) w (\<lambda>_.
     let (out, w) = host (Ssp_fd_pread fd iovs offset) w in
     on_success out (encoding (encode_usize_byref mem nread (written 0 (out_size out)))) w)))"

definition fd_pwrite ::
  "'h host \<Rightarrow> vm_memory_definition option \<Rightarrow> u32 \<Rightarrow> u32 \<Rightarrow> u32 \<Rightarrow> u64 \<Rightarrow> u32 \<Rightarrow> 'h wasi_state \<Rightarrow> 'h outcome" where
  "fd_pwrite host mem fd iovs iovs_len offset nwritten w =
     (let fd = decode_fd fd in
     or_return (decode_ciovec_slice mem iovs iovs_len (w_memory w)) w (\<lambda>iovs.
     let offset = decode_filesize offset in
     or_return (decode_usize_byref mem nwritten) w (\<lambda>_.
     let (out, w) = host (Ssp_fd_pwrite fd iovs offset) w in
     on_success out (encoding (encode_usize_byref mem nwritten (written 0 (out_size out)))) w)))"

definition fd_read ::
  "'h host \<Rightarrow> vm_memory_definition option \<Rightarrow> u32 \<Rightarrow> u32 \<Rightarrow> u32 \<Rightarrow> u32 \<Rightarrow> 'h wasi_state \<Rightarrow> 'h outcome" where
  "fd_read host mem fd iovs iovs_len nread w =
     (let fd = decode_fd fd in
     or_return (decode_iovec_slice mem iovs iovs_len (w_memory w)) w (\<lambda>iovs.
     or_return (decode_usize_byref mem nread) w (\<lambda>_.
     let (out, w) = host (Ssp_fd_read fd iovs) w in
     on_success out (encoding (encode_usize_byref mem nread (written 0 (out_size out)))) w)))"

definition fd_renumber ::
  "'h host \<Rightarrow> vm_memory_definition option \<Rightarrow> u32 \<Rightarrow> u32 \<Rightarrow> 'h wasi_state \<Rightarrow> 'h outcome" where
  "fd_renumber host mem from_fd to_fd w =
     (let from_fd = decode_fd from_fd in
     let to_fd = decode_fd to_fd in
     let (out, w) = host (Ssp_fd_renumber from_fd to_fd) w in
     only_errno out w)"

definition fd_seek ::
  "'h host \<Rightarrow> vm_memory_definition option \<Rightarrow> u32 \<Rightarrow> u64 \<Rightarrow> u8 \<Rightarrow> u32 \<Rightarrow> 'h wasi_state \<Rightarrow> 'h outcome" where
  "fd_seek host mem fd offset whence newoffset w =
     (let fd = decode_fd fd in
     let offset = decode_filedelta offset in
     let whence = decode_whence whence in
     or_return (decode_filesize_byref mem newoffset) w (\<lambda>_.
     let (out, w) = host (Ssp_fd_seek fd offset whence) w in
     on_success out (encoding (encode_filesize_byref mem newoffset (written 0 (out_filesize out)))) w))"

definition fd_tell ::
  "'h host \<Rightarrow> vm_memory_definition option \<Rightarrow> u32 \<Rightarrow> u32 \<Rightarrow> 'h wasi_state \<Rightarrow> 'h outcome" where
  "fd_tell host mem fd newoffset w =
     (let fd = decode_fd fd in
     or_return (decode_filesize_byref mem newoffset) w (\<lambda>_.
     let (out, w) = host (Ssp_fd_tell fd) w in
     on_success out (encoding (encode_filesize_byref mem newoffset (written 0 (out_filesize out)))) w))"

definition fd_fdstat_get ::
  "'h host \<Rightarrow> vm_memory_definition option \<Rightarrow> u32 \<Rightarrow> u32 \<Rightarrow> 'h wasi_state \<Rightarrow> 'h outcome" where
  "fd_fdstat_get host mem fd buf w =
     (let fd = decode_fd fd in
     or_return (decode_fdstat_byref mem buf) w (\<lambda>_.
     let (out, w) = host (Ssp_fd_fdstat_get fd) w in
     on_success out (encoding (encode_fdstat_byref mem buf (written zeroed_fdstat (out_fdstat out)))) w))"

definition fd_fdstat_set_flags ::
  "'h host \<Rightarrow> vm_memory_definition option \<Rightarrow> u32 \<Rightarrow> u16 \<Rightarrow> 'h wasi_state \<Rightarrow> 'h outcome" where
  "fd_fdstat_set_flags host mem fd flags w =
     (let fd = decode_fd fd in
     let flags = decode_fdflags flags in
     let (out, w) = host (Ssp_fd_fdstat_set_flags fd flags) w in
     only_errno out w)"

definition fd_fdstat_set_rights ::
  "'h host \<Rightarrow> vm_memory_definition option \<Rightarrow> u32 \<Rightarrow> u64 \<Rightarrow> u64 \<Rightarrow> 'h wasi_state \<Rightarrow> 'h outcome" where
  "fd_fdstat_set_rights host mem fd rights_base rights_inheriting w =
     (let fd = decode_fd fd in
     let rights_base = decode_rights rights_base in
     let rights_inheriting = decode_rights rights_inheriting in
     let (out, w) = host (Ssp_fd_fdstat_set_rights fd rights_base rights_inheriting) w in
     only_errno out w)"

definition fd_sync ::
  "'h host \<Rightarrow> vm_memory_definition option \<Rightarrow> u32 \<Rightarrow> 'h wasi_state \<Rightarrow> 'h outcome" where
  "fd_sync host mem fd w =
     (let fd = decode_fd fd in
     let (out, w) = host (Ssp_fd_sync fd) w in
     only_errno out w)"

definition fd_write ::
  "'h host \<Rightarrow> vm_memory_definition option \<Rightarrow> u32 \<Rightarrow> u32 \<Rightarrow> u32 \<Rightarrow> u32 \<Rightarrow> 'h wasi_state \<Rightarrow> 'h outcome" where
  "fd_write host mem fd iovs iovs_len nwritten w =
     (let fd = decode_fd fd in
     or_return (decode_ciovec_slice mem iovs iovs_len (w_memory w)) w (\<lambda>iovs.
     or_return (decode_usize_byref mem nwritten) w (\<lambda>_.
     let (out, w) = host (Ssp_fd_write fd iovs) w in
     on_success out (encoding (encode_usize_byref mem nwritten (written 0 (out_size out)))) w)))"

definition fd_advise ::
  "'h host \<Rightarrow> vm_memory_definition option \<Rightarrow> u32 \<Rightarrow> u64 \<Rightarrow> u64 \<Rightarrow> u8 \<Rightarrow> 'h wasi_state \<Rightarrow> 'h outcome" where
  "fd_advise host mem fd offset len advice w =
     (let fd = decode_fd fd in
     let offset = decode_filesize offset in
     let len = decode_filesize len in
     let advice = decode_advice advice in
     let (out, w) = host (Ssp_fd_advise fd offset len advice) w in
     only_errno out w)"

definition fd_allocate ::
  "'h host \<Rightarrow> vm_memory_definition option \<Rightarrow> u32 \<Rightarrow> u64 \<Rightarrow> u64 \<Rightarrow> 'h wasi_state \<Rightarrow> 'h outcome" where
  "fd_allocate host mem fd offset len w =
     (let fd = decode_fd fd in
     let offset = decode_filesize offset in
     let len = decode_filesize len in
     let (out, w) = host (Ssp_fd_allocate fd offset len) w in
     only_errno out w)"

definition path_create_directory ::
  "'h host \<Rightarrow> vm_memory_definition option \<Rightarrow> u32 \<Rightarrow> u32 \<Rightarrow> u32 \<Rightarrow> 'h wasi_state \<Rightarrow> 'h outcome" where
  "path_create_directory host mem fd path path_len w =
     (let fd = decode_fd fd in
     or_return (decode_char_slice mem path path_len) w (\<lambda>(path, path_len).
     let (out, w) = host (Ssp_path_create_directory fd path path_len) w in
     only_errno out w))"

definition path_link ::
  "'h host \<Rightarrow> vm_memory_definition option \<Rightarrow> u32 \<Rightarrow> u32 \<Rightarrow> u32 \<Rightarrow> u32 \<Rightarrow> u32 \<Rightarrow> u32 \<Rightarrow> u32 \<Rightarrow> 'h wasi_state \<Rightarrow> 'h outcome" where
  "path_link host mem fd0 flags0 path0 path_len0 fd1 path1 path_len1 w =
     (let fd0 = decode_fd fd0 in
     let flags0 = decode_lookupflags flags0 in
     or_return (decode_char_slice mem path0 path_len0) w (\<lambda>(path0, path_len0).
     let fd1 = decode_fd fd1 in
     or_return (decode_char_slice mem path1 path_len1) w (\<lambda>(path1, path_len1).
     let (out, w) = host (Ssp_path_link fd0 flags0 path0 path_len0 fd1 path1 path_len1) w in
     only_errno out w)))"

definition path_open ::
  "'h host \<Rightarrow> vm_memory_definition option \<Rightarrow> u32 \<Rightarrow> u32 \<Rightarrow> u32 \<Rightarrow> u32 \<Rightarrow> u16 \<Rightarrow> u64 \<Rightarrow> u64 \<Rightarrow> u16 \<Rightarrow> u32 \<Rightarrow> 'h wasi_state \<Rightarrow> 'h outcome" where
  "path_open host mem dirfd dirflags path path_len oflags rights_base rights_inheriting flags fd w =
     (let dirfd = decode_fd dirfd in
     let dirflags = decode_lookupflags dirflags in
     or_return (decode_char_slice mem path path_len) w (\<lambda>(path, path_len).
     let oflags = decode_oflags oflags in
     let rights_base = decode_rights rights_base in
     let rights_inheriting = decode_rights rights_inheriting in
     let flags = decode_fdflags flags in
     or_return (decode_fd_byref mem fd) w (\<lambda>_.
     let (out, w) = host (Ssp_path_open dirfd dirflags path path_len oflags rights_base rights_inheriting flags) w in
     always out (encoding (encode_fd_byref mem fd (written (- 1) (out_fd out)))) w)))"

definition fd_readdir ::
  "'h host \<Rightarrow> vm_memory_definition option \<Rightarrow> u32 \<Rightarrow> u32 \<Rightarrow> u32 \<Rightarrow> u64 \<Rightarrow> u32 \<Rightarrow> 'h wasi_state \<Rightarrow> 'h outcome" where
  "fd_readdir host mem fd buf buf_len cookie buf_used w =
     (let fd = decode_fd fd in
     or_return (decode_char_slice mem buf buf_len) w (\<lambda>(buf, buf_len).
     let cookie = decode_dircookie cookie in
     or_return (decode_usize_byref mem buf_used) w (\<lambda>_.
     let (out, w) = host (Ssp_fd_readdir fd buf buf_len cookie) w in
     on_success out (encoding (encode_usize_byref mem buf_used (written 0 (out_size out)))) w)))"

definition path_readlink ::
  "'h host \<Rightarrow> vm_memory_definition option \<Rightarrow> u32 \<Rightarrow> u32 \<Rightarrow> u32 \<Rightarrow> u32 \<Rightarrow> u32 \<Rightarrow> u32 \<Rightarrow> 'h wasi_state \<Rightarrow> 'h outcome" where
  "path_readlink host mem fd path path_len buf buf_len buf_used w =
     (let fd = decode_fd fd in
     or_return (decode_char_slice mem path path_len) w (\<lambda>(path, path_len).
     or_return (decode_char_slice mem buf buf_len) w (\<lambda>(buf, buf_len).
     or_return (decode_usize_byref mem buf_used) w (\<lambda>_.
     let (out, w) = host (Ssp_path_readlink fd path path_len buf buf_len) w in
     on_success out (encoding (encode_usize_byref mem buf_used (written 0 (out_size out)))) w))))"

definition path_rename ::
  "'h host \<Rightarrow> vm_memory_definition option \<Rightarrow> u32 \<Rightarrow> u32 \<Rightarrow> u32 \<Rightarrow> u32 \<Rightarrow> u32 \<Rightarrow> u32 \<Rightarrow> 'h wasi_state \<Rightarrow> 'h outcome" where
  "path_rename host mem fd0 path0 path_len0 fd1 path1 path_len1 w =
     (let fd0 = decode_fd fd0 in
     or_return (decode_char_slice mem path0 path_len0) w (\<lambda>(path0, path_len0).
     let fd1 = decode_fd fd1 in
     or_return (decode_char_slice mem path1 path_len1) w (\<lambda>(path1, path_len1).
     let (out, w) = host (Ssp_path_rename fd0 path0 path_len0 fd1 path1 path_len1) w in
     only_errno out w)))"

definition fd_filestat_get ::
  "'h host \<Rightarrow> vm_memory_definition option \<Rightarrow> u32 \<Rightarrow> u32 \<Rightarrow> 'h wasi_state \<Rightarrow> 'h outcome" where
  "fd_filestat_get host mem fd buf w =
     (let fd = decode_fd fd in
     or_return (decode_filestat_byref mem buf) w (\<lambda>_.
     let (out, w) = host (Ssp_fd_filestat_get fd) w in
     on_success out (encoding (encode_filestat_byref mem buf (written zeroed_filestat (out_filestat out)))) w))"

definition fd_filestat_set_times ::
  "'h host \<Rightarrow> vm_memory_definition option \<Rightarrow> u32 \<Rightarrow> u64 \<Rightarrow> u64 \<Rightarrow> u16 \<Rightarrow> 'h wasi_state \<Rightarrow> 'h outcome" where
  "fd_filestat_set_times host mem fd atim mtim fstflags w =
     (let fd = decode_fd fd in
     let atim = decode_timestamp atim in
     let mtim = decode_timestamp mtim in
     let fstflags = decode_fstflags fstflags in
     let (out, w) = host (Ssp_fd_filestat_set_times fd atim mtim fstflags) w in
     only_errno out w)"

definition fd_filestat_set_size ::
  "'h host \<Rightarrow> vm_memory_definition option \<Rightarrow> u32 \<Rightarrow> u64 \<Rightarrow> 'h wasi_state \<Rightarrow> 'h outcome" where
  "fd_filestat_set_size host mem fd new_size w =
     (let fd = decode_fd fd in
     let new_size = decode_filesize new_size in
     let (out, w) = host (Ssp_fd_filestat_set_size fd new_size) w in
     only_errno out w)"

definition path_filestat_get ::
  "'h host \<Rightarrow> vm_memory_definition option \<Rightarrow> u32 \<Rightarrow> u32 \<Rightarrow> u32 \<Rightarrow> u32 \<Rightarrow> u32 \<Rightarrow> 'h wasi_state \<Rightarrow> 'h outcome" where
  "path_filestat_get host mem fd flags path path_len buf w =
     (let fd = decode_fd fd in
     let flags = decode_lookupflags flags in
     or_return (decode_char_slice mem path path_len) w (\<lambda>(path, path_len).
     or_return (decode_filestat_byref mem buf) w (\<lambda>_.
     let (out, w) = host (Ssp_path_filestat_get fd flags path path_len) w in
     on_success out (encoding (encode_filestat_byref mem buf (written zeroed_filestat (out_filestat out)))) w)))"

definition path_filestat_set_times ::
  "'h host \<Rightarrow> vm_memory_definition option \<Rightarrow> u32 \<Rightarrow> u32 \<Rightarrow> u32 \<Rightarrow> u32 \<Rightarrow> u64 \<Rightarrow> u64 \<Rightarrow> u16 \<Rightarrow> 'h wasi_state \<Rightarrow> 'h outcome" where
  "path_filestat_set_times host mem fd flags path path_len atim mtim fstflags w =
     (let fd = decode_fd fd in
     let flags = decode_lookupflags flags in
     or_return (decode_char_slice mem path path_len) w (\<lambda>(path, path_len).
     let atim = decode_timestamp atim in
     let mtim = decode_timestamp mtim in
     let fstflags = decode_fstflags fstflags in
     let (out, w) = host (Ssp_path_filestat_set_times fd flags path path_len atim mtim fstflags) w in
     only_errno out w))"

definition path_symlink ::
  "'h host \<Rightarrow> vm_memory_definition option \<Rightarrow> u32 \<Rightarrow> u32 \<Rightarrow> u32 \<Rightarrow> u32 \<Rightarrow> u32 \<Rightarrow> 'h wasi_state \<Rightarrow> 'h outcome" where
  "path_symlink host mem path0 path_len0 fd path1 path_len1 w =
     or_return (decode_char_slice mem path0 path_len0) w (\<lambda>(path0, path_len0).
     let fd = decode_fd fd in
     or_return (decode_char_slice mem path1 path_len1) w (\<lambda>(path1, path_len1).
     let (out, w) = host (Ssp_path_symlink path0 path_len0 fd path1 path_len1) w in
     only_errno out w))"

definition path_unlink_file ::
  "'h host \<Rightarrow> vm_memory_definition option \<Rightarrow> u32 \<Rightarrow> u32 \<Rightarrow> u32 \<Rightarrow> 'h wasi_state \<Rightarrow> 'h outcome" where
  "path_unlink_file host mem fd path path_len w =
     (let fd = decode_fd fd in
     or_return (decode_char_slice mem path path_len) w (\<lambda>(path, path_len).
     let (out, w) = host (Ssp_path_unlink_file fd path path_len) w in
     only_errno out w))"

definition path_remove_directory ::
  "'h host \<Rightarrow> vm_memory_definition option \<Rightarrow> u32 \<Rightarrow> u32 \<Rightarrow> u32 \<Rightarrow> 'h wasi_state \<Rightarrow> 'h outcome" where
  "path_remove_directory host mem fd path path_len w =
     (let fd = decode_fd fd in
     or_return (decode_char_slice mem path path_len) w (\<lambda>(path, path_len).
     let (out, w) = host (Ssp_path_remove_directory fd path path_len) w in
     only_errno out w))"

definition poll_oneoff ::
  "'h host \<Rightarrow> vm_memory_definition option \<Rightarrow> u32 \<Rightarrow> u32 \<Rightarrow> u32 \<Rightarrow> u32 \<Rightarrow> 'h wasi_state \<Rightarrow> 'h outcome" where
  "poll_oneoff host mem subs outs nsubscriptions nevents w =
     or_return (decode_subscription_slice mem subs nsubscriptions (w_memory w)) w (\<lambda>subs.
     or_return (decode_event_slice mem outs nsubscriptions) w (\<lambda>(outs, out_len).
     let host_out = replicate (unat out_len) zeroed_event in
     or_return (decode_usize_byref mem nevents) w (\<lambda>_.
     if length subs \<noteq> length host_out then Inl (WasiPanic ''assertion failed: in_.len() == host_out.len()'')
     else
     let (out, w) = host (Ssp_poll_oneoff subs host_out) w in
     on_success out (\<lambda>w.
       bind_res (encoding (encode_usize_byref mem nevents (written 0 (out_size out))) w)
         (encoding (encode_event_slice outs (take (unat (written 0 (out_size out))) (written_vec host_out (out_events out)))))) w)))"

definition proc_exit :: "'h host \<Rightarrow> u32 \<Rightarrow> 'h wasi_state \<Rightarrow> 'h wasi_state" where
  "proc_exit host rval w =
     (let rval = decode_exitcode rval in
     let (_, w) = host (Ssp_proc_exit rval) w in w)"

definition proc_raise :: "u8 \<Rightarrow> 'h wasi_state \<Rightarrow> 'h outcome" where
  "proc_raise sig w = Inl (WasiPanic ''not yet implemented: __wasi_proc_raise'')"

definition random_get ::
  "'h host \<Rightarrow> vm_memory_definition option \<Rightarrow> u32 \<Rightarrow> u32 \<Rightarrow> 'h wasi_state \<Rightarrow> 'h outcome" where
  "random_get host mem buf buf_len w =
     or_return (decode_char_slice mem buf buf_len) w (\<lambda>(buf, buf_len).
     let (out, w) = host (Ssp_random_get buf buf_len) w in
     only_errno out w)"

definition sched_yield :: "'h host \<Rightarrow> 'h wasi_state \<Rightarrow> 'h outcome" where
  "sched_yield host w =
     (let (out, w) = host Ssp_sched_yield w in
     only_errno out w)"

definition sock_recv ::
  "'h host \<Rightarrow> vm_memory_definition option \<Rightarrow> u32 \<Rightarrow> u32 \<Rightarrow> u32 \<Rightarrow> u16 \<Rightarrow> u32 \<Rightarrow> u32 \<Rightarrow> 'h wasi_state \<Rightarrow> 'h outcome" where
  "sock_recv host mem sock ri_data ri_data_len ri_flags ro_datalen ro_flags w =
     (let sock = decode_fd sock in
     or_return (decode_iovec_slice mem ri_data ri_data_len (w_memory w)) w (\<lambda>ri_data.
     let ri_flags = decode_riflags ri_flags in
     or_return (decode_usize_byref mem ro_datalen) w (\<lambda>_.
     or_return (decode_roflags_byref mem ro_flags) w (\<lambda>_.
     let (out, w) = host (Ssp_sock_recv sock ri_data ri_flags) w in
     on_success out (\<lambda>w.
       bind_res (encoding (encode_usize_byref mem ro_datalen (written 0 (out_size out))) w)
         (encoding (encode_roflags_byref mem ro_flags (written 0 (out_roflags out))))) w))))"

definition sock_send ::
  "'h host \<Rightarrow> vm_memory_definition option \<Rightarrow> u32 \<Rightarrow> u32 \<Rightarrow> u32 \<Rightarrow> u16 \<Rightarrow> u32 \<Rightarrow> 'h wasi_state \<Rightarrow> 'h outcome" where
  "sock_send host mem sock si_data si_data_len si_flags so_datalen w =
     (let sock = decode_fd sock in
     or_return (decode_ciovec_slice mem si_data si_data_len (w_memory w)) w (\<lambda>si_data.
     let si_flags = decode_siflags si_flags in
     or_return (decode_usize_byref mem so_datalen) w (\<lambda>_.
     let (out, w) = host (Ssp_sock_send sock si_data si_flags) w in
     on_success out (encoding (encode_usize_byref mem so_datalen (written 0 (out_size out)))) w)))"

definition sock_shutdown ::
  "'h host \<Rightarrow> vm_memory_definition option \<Rightarrow> u32 \<Rightarrow> u8 \<Rightarrow> 'h wasi_state \<Rightarrow> 'h outcome" where
  "sock_shutdown host mem sock how w =
     (let sock = decode_fd sock in
     let how = decode_sdflags how in
     let (out, w) = host (Ssp_sock_shutdown sock how) w in
     only_errno out w)"

end
