(* ===== verification/Wasi_Instantiate.thy ===== *)
theory Wasi_Instantiate
  imports Wasi_Syscalls Instantiation
begin

text \<open>
  The instance that implements the WASI interface (\<^verbatim>\<open>wasmtime-wasi-c/src/instantiate.rs\<close>): a module without memories and tables
  that exports one function per call, each with the signature of its shim (the macros \<^verbatim>\<open>cast32\<close>, \<^verbatim>\<open>cast64\<close> and \<^verbatim>\<open>syscalls\<close> of
  \<^verbatim>\<open>syscalls.rs\<close>), and the arguments, environment and descriptors of the program.
  The types of the code generator, the addresses of the shims and the functions of the C library are arguments.
\<close>

section \<open>Signatures of the shims\<close>

datatype abi_int = AI8 | AI16 | AI32 | AU8 | AU16 | AU32 | AI64 | AU64

record codegen =
  cg_i32 :: ir_type
  cg_i64 :: ir_type
  cg_pointer_type :: ir_type
  cg_call_conv :: nat

definition codegen_ty :: "codegen \<Rightarrow> abi_int \<Rightarrow> ir_type" where
  "codegen_ty cg t = (case t of AI64 \<Rightarrow> cg_i64 cg | AU64 \<Rightarrow> cg_i64 cg | _ \<Rightarrow> cg_i32 cg)"

definition codegen_tys :: "codegen \<Rightarrow> abi_int option \<Rightarrow> ir_type list" where
  "codegen_tys cg ret = (case ret of None \<Rightarrow> [] | Some t \<Rightarrow> [codegen_ty cg t])"

text \<open>The calls with the types of their arguments and results, in the order in which they are exported.\<close>

type_synonym wasi_function = "string \<times> abi_int list \<times> abi_int option"

definition wasi_functions :: "wasi_function list" where
  "wasi_functions =
     [(''args_get'', [AU32, AU32], Some AU16),
      (''args_sizes_get'', [AU32, AU32], Some AU16),
      (''clock_res_get'', [AU32, AU32], Some AU16),
      (''clock_time_get'', [AU32, AU64, AU32], Some AU16),
      (''environ_get'', [AU32, AU32], Some AU16),
      (''environ_sizes_get'', [AU32, AU32], Some AU16),
      (''fd_prestat_get'', [AU32, AU32], Some AU16),
      (''fd_prestat_dir_name'', [AU32, AU32, AU32], Some AU16),
      (''fd_close'', [AU32], Some AU16),
      (''fd_datasync'', [AU32], Some AU16),
      (''fd_pread'', [AU32, AU32, AU32, AU64, AU32], Some AU16),
      (''fd_pwrite'', [AU32, AU32, AU32, AU64, AU32], Some AU16),
      (''fd_read'', [AU32, AU32, AU32, AU32], Some AU16),
      (''fd_renumber'', [AU32, AU32], Some AU16),
      (''fd_seek'', [AU32, AI64, AU8, AU32], Some AU16),
      (''fd_tell'', [AU32, AU32], Some AU16),
      (''fd_fdstat_get'', [AU32, AU32], Some AU16),
      (''fd_fdstat_set_flags'', [AU32, AU16], Some AU16),
      (''fd_fdstat_set_rights'', [AU32, AU64, AU64], Some AU16),
      (''fd_sync'', [AU32], Some AU16),
      (''fd_write'', [AU32, AU32, AU32, AU32], Some AU16),
      (''fd_advise'', [AU32, AU64, AU64, AU8], Some AU16),
      (''fd_allocate'', [AU32, AU64, AU64], Some AU16),
      (''path_create_directory'', [AU32, AU32, AU32], Some AU16),
      (''path_link'', [AU32, AU32, AU32, AU32, AU32, AU32, AU32], Some AU16),
      (''path_open'', [AU32, AU32, AU32, AU32, AU16, AU64, AU64, AU16, AU32], Some AU16),
      (''fd_readdir'', [AU32, AU32, AU32, AU64, AU32], Some AU16),
      (''path_readlink'', [AU32, AU32, AU32, AU32, AU32, AU32], Some AU16),
      (''path_rename'', [AU32, AU32, AU32, AU32, AU32, AU32], Some AU16),
      (''fd_filestat_get'', [AU32, AU32], Some AU16),
      (''fd_filestat_set_times'', [AU32, AU64, AU64, AU16], Some AU16),
      (''fd_filestat_set_size'', [AU32, AU64], Some AU16),
      (''path_filestat_get'', [AU32, AU32, AU32, AU32, AU32], Some AU16),
      (''path_filestat_set_times'', [AU32, AU32, AU32, AU32, AU64, AU64, AU16], Some AU16),
      (''path_symlink'', [AU32, AU32, AU32, AU32, AU32], Some AU16),
      (''path_unlink_file'', [AU32, AU32, AU32], Some AU16),
      (''path_remove_directory'', [AU32, AU32, AU32], Some AU16),
      (''poll_oneoff'', [AU32, AU32, AU32, AU32], Some AU16),
      (''proc_exit'', [AU32], None),
      (''proc_raise'', [AU8], Some AU16),
      (''random_get'', [AU32, AU32], Some AU16),
      (''sched_yield'', [], Some AU16),
      (''sock_recv'', [AU32, AU32, AU32, AU16, AU32, AU32], Some AU16),
      (''sock_send'', [AU32, AU32, AU32, AU16, AU32], Some AU16),
      (''sock_shutdown'', [AU32, AU8], Some AU16)]"

section \<open>The module\<close>

definition abi_param_new :: "ir_type \<Rightarrow> abi_param" where
  "abi_param_new ty = \<lparr>value_type = ty, purpose = Normal\<rparr>"

definition shim_signature :: "codegen \<Rightarrow> abi_int list \<Rightarrow> abi_int option \<Rightarrow> ir_signature" where
  "shim_signature cg params ret =
     translate_signature
       \<lparr>sig_params = map (abi_param_new \<circ> codegen_ty cg) params, sig_returns = map abi_param_new (codegen_tys cg ret),
        call_conv = cg_call_conv cg\<rparr>
       (cg_pointer_type cg)"

text \<open>The macro \<^verbatim>\<open>signature\<close>.\<close>

definition push_wasi_function ::
  "codegen \<Rightarrow> string \<Rightarrow> (string \<Rightarrow> address) \<Rightarrow> wasi_function \<Rightarrow> wasm_module \<times> address list \<Rightarrow> wasm_module \<times> address list" where
  "push_wasi_function cg prefix shim f s =
     (case (f, s) of ((name, params, ret), (m, finished_functions)) \<Rightarrow>
        let sig = length (signatures m);
            m = m\<lparr>signatures := signatures m @ [shim_signature cg params ret]\<rparr>;
            func = length (func_sigs m);
            m = m\<lparr>func_sigs := func_sigs m @ [sig]\<rparr>;
            m = m\<lparr>exports := AList.update (prefix @ name) (ExportFunction func) (exports m)\<rparr>
        in (m, finished_functions @ [shim name]))"

definition wasi_module :: "codegen \<Rightarrow> string \<Rightarrow> (string \<Rightarrow> address) \<Rightarrow> wasm_module \<times> address list" where
  "wasi_module cg prefix shim = fold (push_wasi_function cg prefix shim) wasi_functions (module_new, [])"

section \<open>Arguments and environment\<close>

text \<open>One string, with its terminating zero.\<close>

definition push_string :: "u8 list \<Rightarrow> usize list \<times> u8 list \<Rightarrow> usize list \<times> u8 list" where
  "push_string s acc = (case acc of (offsets, buf) \<Rightarrow> (offsets @ [of_nat (length buf)], buf @ s @ [0]))"

definition allocate_argv_environ ::
  "u8 list list \<Rightarrow> (u8 list \<times> u8 list) list \<Rightarrow> (usize list \<times> u8 list) \<times> (usize list \<times> u8 list)" where
  "allocate_argv_environ argv environ =
     (fold push_string argv ([], []),
      fold (\<lambda>(key, val). push_string (key @ [61] @ val)) environ ([], []))"

text \<open>\<^verbatim>\<open>argv_environ_init\<close> and the functions that read the arguments, from \<^verbatim>\<open>sandboxed-system-primitives/src/posix.c\<close>.\<close>

definition argv_environ_init :: "(usize list \<times> u8 list) \<times> (usize list \<times> u8 list) \<Rightarrow> argv_environ_values" where
  "argv_environ_init strings =
     (case strings of ((argv_offsets, argv_buf), (environ_offsets, environ_buf)) \<Rightarrow>
        \<lparr>ae_argc = of_nat (length argv_offsets), ae_argv = argv_offsets,
         ae_argv_buf_size = of_nat (length argv_buf), ae_argv_buf = argv_buf,
         ae_environ_count = of_nat (length environ_offsets), ae_environ = environ_offsets,
         ae_environ_buf_size = of_nat (length environ_buf), ae_environ_buf = environ_buf\<rparr>)"

definition no_out :: host_out where
  "no_out = \<lparr>out_errno = WASI_ESUCCESS, out_size = None, out_size2 = None, out_timestamp = None, out_filesize = None,
     out_fd = None, out_roflags = None, out_prestat = None, out_fdstat = None, out_filestat = None, out_pointers = [], out_events = []\<rparr>"

definition ssp_args_get :: "u64 \<Rightarrow> 'h wasi_state \<Rightarrow> host_out \<times> 'h wasi_state" where
  "ssp_args_get argv_buf w =
     (let ae = w_argv_environ w in
     (no_out\<lparr>out_pointers := map (\<lambda>offset. argv_buf + offset) (ae_argv ae) @ [0]\<rparr>,
      w\<lparr>w_memory := store_bytes argv_buf (ae_argv_buf ae) (w_memory w)\<rparr>))"

definition ssp_args_sizes_get :: "'h wasi_state \<Rightarrow> host_out \<times> 'h wasi_state" where
  "ssp_args_sizes_get w =
     (let ae = w_argv_environ w in
     (no_out\<lparr>out_size := Some (ae_argc ae), out_size2 := Some (ae_argv_buf_size ae)\<rparr>, w))"

definition ssp_environ_get :: "u64 \<Rightarrow> 'h wasi_state \<Rightarrow> host_out \<times> 'h wasi_state" where
  "ssp_environ_get environ_buf w =
     (let ae = w_argv_environ w in
     (no_out\<lparr>out_pointers := map (\<lambda>offset. environ_buf + offset) (ae_environ ae) @ [0]\<rparr>,
      w\<lparr>w_memory := store_bytes environ_buf (ae_environ_buf ae) (w_memory w)\<rparr>))"

definition ssp_environ_sizes_get :: "'h wasi_state \<Rightarrow> host_out \<times> 'h wasi_state" where
  "ssp_environ_sizes_get w =
     (let ae = w_argv_environ w in
     (no_out\<lparr>out_size := Some (ae_environ_count ae), out_size2 := Some (ae_environ_buf_size ae)\<rparr>, w))"

section \<open>The instance\<close>

text \<open>The tables of the C library: freshly initialised, and the two insertions.\<close>

record 'h c_tables =
  ct_init :: 'h
  ct_fd_table_insert_existing :: "u32 \<Rightarrow> u32 \<Rightarrow> 'h \<Rightarrow> bool \<times> 'h"
  ct_fd_prestats_insert :: "string \<Rightarrow> u32 \<Rightarrow> 'h \<Rightarrow> bool \<times> 'h"

definition assert_inserted :: "bool \<times> 'h \<Rightarrow> 'h wasi" where
  "assert_inserted r = (if fst r then Inr (snd r) else Inl (WasiPanic ''assertion failed''))"

definition cstring_new :: "string \<Rightarrow> string wasi" where
  "cstring_new s = (if CHR 0x00 \<in> set s then Inl (WasiPanic ''unwrap'') else Inr s)"

fun preopen_dirs :: "'h c_tables \<Rightarrow> (string \<times> u32) list \<Rightarrow> u32 \<Rightarrow> 'h \<Rightarrow> 'h wasi" where
  "preopen_dirs ct [] wasm_fd t = Inr t"
| "preopen_dirs ct ((dir, file) # preopened_dirs) wasm_fd t =
     bind_res (assert_inserted (ct_fd_table_insert_existing ct wasm_fd file t)) (\<lambda>t.
     bind_res (cstring_new dir) (\<lambda>dir.
     bind_res (assert_inserted (ct_fd_prestats_insert ct dir wasm_fd t)) (\<lambda>t.
     preopen_dirs ct preopened_dirs (wasm_fd + 1) t)))"

definition wasi_tables :: "'h c_tables \<Rightarrow> (string \<times> u32) list \<Rightarrow> 'h wasi" where
  "wasi_tables ct preopened_dirs =
     bind_res (assert_inserted (ct_fd_table_insert_existing ct 0 0 (ct_init ct))) (\<lambda>t.
     bind_res (assert_inserted (ct_fd_table_insert_existing ct 1 1 t)) (\<lambda>t.
     bind_res (assert_inserted (ct_fd_table_insert_existing ct 2 2 t)) (\<lambda>t.
     preopen_dirs ct preopened_dirs 3 t)))"

text \<open>The state of the calls beside the memory of the process, and the outcome of the instantiation.\<close>

definition instantiate_wasi_c ::
  "codegen \<Rightarrow> (string \<Rightarrow> address) \<Rightarrow> 'h c_tables \<Rightarrow> call \<Rightarrow> instance_env \<Rightarrow>
   string \<Rightarrow> (string \<times> u32) list \<Rightarrow> u8 list list \<Rightarrow> (u8 list \<times> u8 list) list \<Rightarrow> store \<Rightarrow>
   ((argv_environ_values \<times> 'h) \<times> (instantiation_error + address) \<times> store) wasi" where
  "instantiate_wasi_c cg shim ct wasmtime_call env prefix preopened_dirs argv environ st =
     (let (m, finished_functions) = wasi_module cg prefix shim;
          argv_environ = argv_environ_init (allocate_argv_environ argv environ)
      in bind_res (wasi_tables ct preopened_dirs) (\<lambda>tables.
         Inr ((argv_environ, tables), instance_new wasmtime_call env m finished_functions imports_none [] [] st)))"

section \<open>What the module exports\<close>

lemma update_fresh: "k \<notin> fst ` set al \<Longrightarrow> AList.update k v al = al @ [(k, v)]"
  by (induction al) auto

lemma push_wasi_functions:
  assumes "distinct (map fst fs)" and "fst ` set (exports m) \<inter> (\<lambda>f. prefix @ fst f) ` set fs = {}"
  shows "fold (push_wasi_function cg prefix shim) fs (m, fin) =
    (m\<lparr>signatures := signatures m @ map (\<lambda>(name, params, ret). shim_signature cg params ret) fs,
       func_sigs := func_sigs m @ [length (signatures m)..<length (signatures m) + length fs],
       exports := exports m @ map (\<lambda>(i, name, _). (prefix @ name, ExportFunction i)) (List.enumerate (length (func_sigs m)) fs)\<rparr>,
     fin @ map (\<lambda>(name, _). shim name) fs)"
  using assms
proof (induction fs arbitrary: m fin)
  case (Cons f fs)
  obtain name params ret where f: "f = (name, params, ret)" by (cases f) auto
  have fresh: "prefix @ name \<notin> fst ` set (exports m)" using Cons.prems(2) f by auto
  define m1 where "m1 = m\<lparr>signatures := signatures m @ [shim_signature cg params ret],
    func_sigs := func_sigs m @ [length (signatures m)],
    exports := exports m @ [(prefix @ name, ExportFunction (length (func_sigs m)))]\<rparr>"
  have step: "push_wasi_function cg prefix shim f (m, fin) = (m1, fin @ [shim name])"
    using fresh by (simp add: push_wasi_function_def f Let_def update_fresh m1_def)
  have "fst ` set (exports m1) \<inter> (\<lambda>f. prefix @ fst f) ` set fs = {}"
    using Cons.prems by (force simp: f m1_def)
  then have "fold (push_wasi_function cg prefix shim) fs (m1, fin @ [shim name]) =
      (m1\<lparr>signatures := signatures m1 @ map (\<lambda>(name, params, ret). shim_signature cg params ret) fs,
         func_sigs := func_sigs m1 @ [length (signatures m1)..<length (signatures m1) + length fs],
         exports := exports m1 @ map (\<lambda>(i, name, _). (prefix @ name, ExportFunction i)) (List.enumerate (length (func_sigs m1)) fs)\<rparr>,
       (fin @ [shim name]) @ map (\<lambda>(name, _). shim name) fs)"
    using Cons.IH Cons.prems(1) by simp
  then show ?case by (simp add: step del: upt_Suc) (simp add: m1_def f upt_conv_Cons del: upt_Suc)
qed simp

lemma wasi_functions_distinct: "distinct (map fst wasi_functions)"
  by (simp add: wasi_functions_def)

lemma wasi_module_eq:
  "wasi_module cg prefix shim =
     (module_new\<lparr>signatures := map (\<lambda>(name, params, ret). shim_signature cg params ret) wasi_functions,
       func_sigs := [0..<length wasi_functions],
       exports := map (\<lambda>(i, name, _). (prefix @ name, ExportFunction i)) (List.enumerate 0 wasi_functions)\<rparr>,
      map (\<lambda>(name, _). shim name) wasi_functions)"
  using push_wasi_functions [OF wasi_functions_distinct, of module_new prefix cg shim "[]"]
  by (simp add: wasi_module_def module_new_def)

text \<open>The instance offers every call under its name: the function exported as the prefix followed by the name of a call has the
  signature of that call, with the context as its first parameter, and its code is the shim of that call; there
  is one export, one function and one signature per call and nothing is imported.\<close>

theorem wasi_module_exports:
  assumes "i < length wasi_functions" and "wasi_functions ! i = (name, params, ret)"
    and "wasi_module cg prefix shim = (m, finished_functions)"
  shows "map_of (exports m) (prefix @ name) = Some (ExportFunction i) \<and>
    signatures m ! (func_sigs m ! i) = shim_signature cg params ret \<and>
    sig_params (shim_signature cg params ret) =
      \<lparr>value_type = cg_pointer_type cg, purpose = VMContext\<rparr> #
      map (\<lambda>t. \<lparr>value_type = (if t = AI64 \<or> t = AU64 then cg_i64 cg else cg_i32 cg), purpose = Normal\<rparr>) params \<and>
    finished_functions ! i = shim name \<and>
    length (exports m) = 45 \<and> length (func_sigs m) = 45 \<and> length (signatures m) = 45 \<and> imported_funcs m = []"
proof -
  have m: "m = module_new\<lparr>signatures := map (\<lambda>(name, params, ret). shim_signature cg params ret) wasi_functions,
      func_sigs := [0..<length wasi_functions],
      exports := map (\<lambda>(i, name, _). (prefix @ name, ExportFunction i)) (List.enumerate 0 wasi_functions)\<rparr>"
    and fin: "finished_functions = map (\<lambda>(name, _). shim name) wasi_functions"
    using assms(3) by (simp_all add: wasi_module_eq)
  have "map fst (exports m) = map (\<lambda>f. prefix @ fst f) wasi_functions"
    unfolding m by (simp add: comp_def split_def) (metis (no_types, lifting) map_map comp_apply map_cong map_snd_enumerate)
  then have "distinct (map fst (exports m))"
    using wasi_functions_distinct by (simp add: distinct_map inj_on_def)
  moreover have "(i, name, params, ret) \<in> set (List.enumerate 0 wasi_functions)"
    using assms(1,2) by (simp add: in_set_enumerate_eq)
  then have "(prefix @ name, ExportFunction i) \<in> set (exports m)"
    unfolding m by (auto intro!: rev_image_eqI [where x = "(i, name, params, ret)"])
  ultimately have "map_of (exports m) (prefix @ name) = Some (ExportFunction i)" by simp
  moreover have "length wasi_functions = 45" by (simp add: wasi_functions_def)
  moreover have "codegen_ty cg t = (if t = AI64 \<or> t = AU64 then cg_i64 cg else cg_i32 cg)" for t
    by (cases t) (simp_all add: codegen_ty_def)
  ultimately show ?thesis using assms(1,2)
    by (simp add: m fin module_new_def shim_signature_def translate_signature_def abi_param_new_def comp_def)
qed

theorem wasi_module_exports_witness:
  "map_of (exports (fst (wasi_module \<lparr>cg_i32 = 1, cg_i64 = 2, cg_pointer_type = 2, cg_call_conv = 0\<rparr> ''wasi_'' (\<lambda>_. 16)))) ''wasi_fd_close'' =
     Some (ExportFunction 8)"
  using wasi_module_exports [of 8 "''fd_close''" "[AU32]" "Some AU16"
      "\<lparr>cg_i32 = 1, cg_i64 = 2, cg_pointer_type = 2, cg_call_conv = 0\<rparr>" "''wasi_''" "\<lambda>_. 16"]
  by (simp add: wasi_functions_def split: prod.splits) (metis prod.collapse)

end
