(* ===== verification/Wasi_Bounds.thy ===== *)
theory Wasi_Bounds
  imports Wasi_Translate
begin

text \<open>
  What the translation of arguments guarantees: a pointer of the guest is accepted exactly when the bytes it names lie
  inside the memory of the guest, writes through an accepted pointer stay there, and no error number of
  the translation is one the guest does not know.
\<close>

section \<open>Addresses of the guest\<close>

definition guest_addr :: "vm_memory_definition option \<Rightarrow> u64 \<Rightarrow> bool" where
  "guest_addr mem a = (case mem of None \<Rightarrow> False | Some d \<Rightarrow> a - vmm_base d < vmm_current_length d)"

definition guest_range :: "vm_memory_definition option \<Rightarrow> u64 \<Rightarrow> nat \<Rightarrow> bool" where
  "guest_range mem p n = (\<forall>i<n. guest_addr mem (p + of_nat i))"

definition outside_same :: "vm_memory_definition option \<Rightarrow> process_memory \<Rightarrow> process_memory \<Rightarrow> bool" where
  "outside_same mem m m' = (\<forall>a. \<not> guest_addr mem a \<longrightarrow> m' a = m a)"

lemma outside_same_refl [simp]: "outside_same mem m m"
  by (simp add: outside_same_def)

lemma outside_same_trans [trans]: "outside_same mem m m' \<Longrightarrow> outside_same mem m' m'' \<Longrightarrow> outside_same mem m m''"
  by (simp add: outside_same_def)

lemma guest_range_shrink: "guest_range mem p n \<Longrightarrow> k + j \<le> n \<Longrightarrow> guest_range mem (p + of_nat k) j"
  unfolding guest_range_def
proof (intro allI impI)
  fix i assume all: "\<forall>i<n. guest_addr mem (p + of_nat i)" and "k + j \<le> n" "i < j"
  then show "guest_addr mem (p + of_nat k + of_nat i)" using spec [OF all, of "k + i"] by (simp add: add.assoc)
qed

lemma store_bytes_outside: "guest_range mem p (length bs) \<Longrightarrow> outside_same mem m (store_bytes p bs m)"
  by (auto simp: outside_same_def store_bytes_def Let_def guest_range_def
      dest: spec [of _ "unat (_ - p)"])

lemma store_fields_outside:
  assumes "guest_range mem p n" and "\<forall>(offset, bs) \<in> set fs. offset + length bs \<le> n"
  shows "outside_same mem m (store_fields p fs m)"
  using assms(2)
proof (induction fs arbitrary: m)
  case (Cons f fs)
  obtain offset bs where f: "f = (offset, bs)" by fastforce
  have "outside_same mem m (store_bytes (p + of_nat offset) bs m)"
    using Cons.prems guest_range_shrink [OF assms(1)] by (auto simp: f intro!: store_bytes_outside)
  then show ?case using Cons.IH [of "store_bytes (p + of_nat offset) bs m"] Cons.prems
    by (auto simp: f store_fields_def intro: outside_same_trans)
qed (simp add: store_fields_def)

section \<open>Pointers\<close>

lemma decode_ptr_cases:
  "decode_ptr (Some d) ptr len alignment =
     (if len > 0 \<and> unat (vmm_current_length d) < unat ptr + unat len then Inl (Errno WASI_EFAULT)
      else if unat ptr mod unat alignment \<noteq> 0 then Inl (Errno WASI_EINVAL)
      else Inr (vmm_base d + ucast ptr))"
proof (cases "len > 0")
  case True
  have ptr: "unat (ucast ptr :: usize) = unat ptr" by (rule unat_ucast_u32_usize)
  have len: "unat (len - 1) = unat len - 1" "0 < unat len"
    using True unat_minus_one [of len] by (auto simp: word_less_nat_alt unat_gt_0)
  show ?thesis
  proof (cases "checked_add (ucast ptr) (len - 1)")
    case None
    then have "2 ^ 64 \<le> unat ptr + unat (len - 1)" by (simp add: checked_add_None ptr)
    then show ?thesis using True None len unat_lt_u64 [of "vmm_current_length d"]
      by (simp add: decode_ptr_def)
  next
    case (Some last_byte)
    then have "unat last_byte = unat ptr + (unat len - 1)" by (simp add: checked_add_iff ptr len)
    then show ?thesis using True Some len ptr
      by (auto simp: decode_ptr_def word_le_nat_alt word_less_nat_alt unat_mod word_eq_iff_unat)
  qed
qed (auto simp: decode_ptr_def word_eq_iff_unat unat_mod unat_ucast_u32_usize)

lemma decode_ptr_None [simp]: "decode_ptr None ptr len alignment = Inl (Errno WASI_EINVAL)"
  by (simp add: decode_ptr_def)

lemma decode_ptr_range:
  assumes "decode_ptr mem ptr len alignment = Inr p"
  shows "guest_range mem p (unat len)"
proof (cases mem)
  case (Some d)
  have bound: "len > 0 \<Longrightarrow> unat ptr + unat len \<le> unat (vmm_current_length d)" and p: "p = vmm_base d + ucast ptr"
    using assms unfolding Some decode_ptr_cases by (auto split: if_splits)
  show ?thesis unfolding guest_range_def
  proof (intro allI impI)
    fix i assume i: "i < unat len"
    then have "unat ptr + unat len \<le> unat (vmm_current_length d)" using bound by (auto simp: word_less_nat_alt)
    moreover have "unat (ucast ptr + of_nat i :: u64) = unat ptr + i"
      using i \<open>unat ptr + unat len \<le> _\<close> unat_lt_u64 [of "vmm_current_length d"]
      by (simp add: unat_ucast_u32_usize unat_of_nat_u64 unat_add_small)
    ultimately show "guest_addr mem (p + of_nat i)"
      using i by (simp add: guest_addr_def Some p word_less_nat_alt)
  qed
qed (use assms in simp)

text \<open>No decoding function panics, and every error number it gives is a known one.\<close>

definition decodes :: "'a wasi \<Rightarrow> ('a \<Rightarrow> bool) \<Rightarrow> bool" where
  "decodes r P =
     (case r of Inr x \<Rightarrow> P x | Inl (Errno e) \<Rightarrow> e \<le> WASI_ENOTCAPABLE | Inl (WasiPanic _) \<Rightarrow> False)"

lemma decodes_simps [simp]:
  "decodes (Inr x) P = P x" "decodes (Inl (Errno e)) P = (e \<le> WASI_ENOTCAPABLE)" "\<not> decodes (Inl (WasiPanic s)) P"
  by (simp_all add: decodes_def)

lemma decodes_bind: "decodes r P \<Longrightarrow> (\<And>x. r = Inr x \<Longrightarrow> P x \<Longrightarrow> decodes (f x) Q) \<Longrightarrow> decodes (bind_res r f) Q"
  by (cases r) (auto simp: decodes_def split: wasi_error.splits)

lemma decodes_weaken: "decodes r P \<Longrightarrow> (\<And>x. r = Inr x \<Longrightarrow> P x \<Longrightarrow> Q x) \<Longrightarrow> decodes r Q"
  by (auto simp: decodes_def split: sum.splits wasi_error.splits)

lemma decodes_map_res:
  "(\<And>x. x \<in> set xs \<Longrightarrow> decodes (f x) P) \<Longrightarrow> decodes (map_res f xs) (\<lambda>ys. length ys = length xs \<and> (\<forall>y\<in>set ys. P y))"
proof (induction xs)
  case (Cons x xs)
  show ?case unfolding map_res.simps
  proof (rule decodes_bind [of _ P])
    fix y assume "P y"
    show "decodes (bind_res (map_res f xs) (\<lambda>ys. Inr (y # ys))) (\<lambda>ys. length ys = length (x # xs) \<and> (\<forall>y\<in>set ys. P y))"
      by (rule decodes_bind [OF Cons.IH]) (use Cons.prems \<open>P y\<close> in auto)
  qed (use Cons.prems in simp)
qed simp

lemma decode_ptr_decodes: "decodes (decode_ptr mem ptr len alignment) (\<lambda>p. guest_range mem p (unat len))"
proof (cases mem)
  case (Some d)
  then show ?thesis using decode_ptr_range [of mem ptr len alignment]
    by (cases "decode_ptr mem ptr len alignment") (auto simp: decode_ptr_cases wasi_constants split: if_splits)
qed (simp add: wasi_constants)

lemma decode_pointee_decodes: "decodes (decode_pointee t mem ptr) (\<lambda>_. True)"
  unfolding decode_pointee_def decode_ptr_to_def by (rule decodes_bind [OF decode_ptr_decodes]) simp

lemma unwrap_try_from_up:
  "unwrap_option (try_from (x :: u32) :: usize option) = Inr (ucast x)"
  using unat_lt_u32 [of x] by (simp add: unwrap_option_def try_from_def)

lemma decode_slice_decodes:
  assumes "unat (fst t) \<le> 56"
  shows "decodes (decode_slice_of t mem ptr len) (\<lambda>(p, n). n = ucast len \<and> guest_range mem p (unat (fst t) * unat len))"
proof -
  have "unat (fst t) * unat len < 2 ^ 64"
    using mult_le_mono [OF assms, of "unat len" "2 ^ 32 - 1"] unat_lt_u32 [of len] by simp
  then have "checked_mul (fst t) (ucast len :: usize) = Some (fst t * ucast len)"
    and "unat (fst t * ucast len) = unat (fst t) * unat len"
    by (simp_all add: checked_mul_def unat_ucast_u32_usize unat_mult_small)
  then show ?thesis unfolding decode_slice_of_def unwrap_try_from_up
    by (auto simp: unwrap_option_def intro!: decodes_bind [OF decode_ptr_decodes])
qed

section \<open>Decoding\<close>

named_theorems decode_rules

lemma decode_byref_decodes [decode_rules]:
  "decodes (decode_fd_byref mem p) (\<lambda>_. True)" "decodes (decode_timestamp_byref mem p) (\<lambda>_. True)"
  "decodes (decode_filesize_byref mem p) (\<lambda>_. True)" "decodes (decode_roflags_byref mem p) (\<lambda>_. True)"
  "decodes (decode_usize_byref mem p) (\<lambda>_. True)" "decodes (decode_prestat_byref mem p) (\<lambda>_. True)"
  "decodes (decode_fdstat_byref mem p) (\<lambda>_. True)" "decodes (decode_filestat_byref mem p) (\<lambda>_. True)"
  by (simp_all add: decode_fd_byref_def decode_timestamp_byref_def decode_filesize_byref_def decode_roflags_byref_def
      decode_usize_byref_def decode_prestat_byref_def decode_fdstat_byref_def decode_filestat_byref_def
      decode_pointee_decodes)

lemma decode_char_slice_decodes [decode_rules]:
  "decodes (decode_char_slice mem p n) (\<lambda>(q, k). k = ucast n \<and> guest_range mem q (unat k))"
  unfolding decode_char_slice_def
  by (rule decodes_weaken [OF decode_slice_decodes]) (auto simp: layouts)

lemma decode_charstar_slice_decodes [decode_rules]:
  "decodes (decode_charstar_slice mem p n) (\<lambda>(q, k). k = ucast n \<and> guest_range mem q (4 * unat n))"
  unfolding decode_charstar_slice_def
  by (rule decodes_weaken [OF decode_slice_decodes]) (auto simp: layouts)

lemma decode_event_slice_decodes [decode_rules]:
  "decodes (decode_event_slice mem p n) (\<lambda>(q, k). k = ucast n \<and> guest_range mem q (32 * unat n))"
  unfolding decode_event_slice_def
  by (rule decodes_weaken [OF decode_slice_decodes]) (auto simp: layouts)

lemma decode_ciovec_eq: "decode_ciovec = decode_iovec"
  by (simp add: decode_ciovec_def decode_iovec_def fun_eq_iff)

lemma decode_ciovec_slice_eq: "decode_ciovec_slice = decode_iovec_slice"
  by (simp add: decode_ciovec_slice_def decode_iovec_slice_def decode_ciovec_eq fun_eq_iff)

lemma decode_iovec_decodes: "decodes (decode_iovec mem v) (\<lambda>(b, l). guest_range mem b (unat l))"
  unfolding decode_iovec_def unwrap_try_from_up
  by (auto intro!: decodes_bind [OF decode_ptr_decodes])

lemma decode_iovec_slice_decodes [decode_rules]:
  "decodes (decode_iovec_slice mem p n m) (\<lambda>vs. \<forall>(b, l) \<in> set vs. guest_range mem b (unat l))"
  unfolding decode_iovec_slice_def
proof (rule decodes_bind [OF decode_slice_decodes])
  fix x :: "u64 \<times> usize"
  show "decodes (case x of (p, n) \<Rightarrow> map_res (decode_iovec mem) (load_slice 8 load_iovec p n m))
      (\<lambda>vs. \<forall>(b, l) \<in> set vs. guest_range mem b (unat l))"
    by (cases x) (auto intro!: decodes_weaken [OF decodes_map_res] decode_iovec_decodes)
qed (simp add: layouts)

lemmas decode_ciovec_slice_decodes [decode_rules] = decode_iovec_slice_decodes [folded decode_ciovec_slice_eq]

lemma decode_subscription_slice_decodes [decode_rules]:
  "decodes (decode_subscription_slice mem p n m) (\<lambda>subs. length subs = unat n)"
  unfolding decode_subscription_slice_def
proof (rule decodes_bind [OF decode_slice_decodes])
  fix x :: "u64 \<times> usize"
  assume "case x of (q, k) \<Rightarrow> k = ucast n \<and> guest_range mem q (unat (fst subscription_layout) * unat n)"
  then show "decodes (case x of (p, n) \<Rightarrow> map_res decode_subscription (load_slice 56 load_subscription p n m))
      (\<lambda>subs. length subs = unat n)"
    by (cases x) (auto simp: load_slice_def decode_subscription_def wasi_constants
        intro!: decodes_weaken [OF decodes_map_res [where P = "\<lambda>_. True"]])
qed (simp add: layouts)

section \<open>Encoding\<close>

definition encodes :: "vm_memory_definition option \<Rightarrow> process_memory \<Rightarrow> process_memory wasi \<Rightarrow> bool" where
  "encodes mem m r = (\<exists>m'. r = Inr m' \<and> outside_same mem m m')"

named_theorems encode_rules

lemma encode_pointee_encodes:
  assumes "decode_pointee t mem ptr = Inr u" and "\<forall>(offset, bs) \<in> set fs. offset + length bs \<le> unat (fst t)"
  shows "encodes mem m (encode_pointee t mem ptr fs m)"
proof -
  obtain p where p: "decode_ptr_to t mem ptr = Inr p" using assms(1) by (auto simp: decode_pointee_def)
  then have "guest_range mem p (unat (fst t))" by (auto simp: decode_ptr_to_def dest: decode_ptr_range)
  then show ?thesis using store_fields_outside [OF _ assms(2)]
    by (simp add: encodes_def encode_pointee_def p unwrap_wasi_def)
qed

lemma length_to_bytes [simp]: "length (to_bytes (x :: 'a::len word)) = LENGTH('a) div 8"
  by (simp add: to_bytes_def)

lemma try_from_same [simp]: "try_from x = Some x"
  using unsigned_less [of x] by (simp add: try_from_def)

lemma encode_byref_encodes [encode_rules]:
  "decode_fd_byref mem p = Inr u \<Longrightarrow> encodes mem m (encode_fd_byref mem p fd m)"
  "decode_timestamp_byref mem p = Inr u \<Longrightarrow> encodes mem m (encode_timestamp_byref mem p time m)"
  "decode_filesize_byref mem p = Inr u \<Longrightarrow> encodes mem m (encode_filesize_byref mem p sz m)"
  "decode_roflags_byref mem p = Inr u \<Longrightarrow> encodes mem m (encode_roflags_byref mem p flags m)"
  "decode_fdstat_byref mem p = Inr u \<Longrightarrow> encodes mem m (encode_fdstat_byref mem p fdstat m)"
  "decode_filestat_byref mem p = Inr u \<Longrightarrow> encodes mem m (encode_filestat_byref mem p filestat m)"
  unfolding decode_fd_byref_def decode_timestamp_byref_def decode_filesize_byref_def decode_roflags_byref_def
    decode_fdstat_byref_def decode_filestat_byref_def encode_fd_byref_def encode_timestamp_byref_def
    encode_filesize_byref_def encode_roflags_byref_def encode_fdstat_byref_def encode_filestat_byref_def
  by (simp_all add: unwrap_option_def encode_pointee_encodes layouts)

lemma encode_usize_byref_encodes [encode_rules]:
  "decode_usize_byref mem p = Inr u \<Longrightarrow> unat n < 2 ^ 32 \<Longrightarrow> encodes mem m (encode_usize_byref mem p n m)"
  by (simp add: encode_usize_byref_def decode_usize_byref_def unwrap_option_def try_from_def encode_pointee_encodes layouts)

lemma encode_prestat_byref_encodes [encode_rules]:
  "decode_prestat_byref mem p = Inr u \<Longrightarrow> unat (pr_name_len st) < 2 ^ 32 \<Longrightarrow> encodes mem m (encode_prestat_byref mem p st m)"
  by (simp add: encode_prestat_byref_def decode_prestat_byref_def encode_usize_def unwrap_option_def try_from_def
      encode_pointee_encodes layouts)

lemma encode_charstar_slice_outside:
  assumes "guest_range mem p (4 * length vec)"
  shows "outside_same mem m (encode_charstar_slice p vec guest_base host_base m)"
proof -
  have eq: "encode_charstar_slice p vec guest_base host_base m =
      store_fields p (map (\<lambda>(i, host). (4 * i, to_bytes (charstar guest_base host_base host))) (List.enumerate 0 vec)) m"
    by (simp add: encode_charstar_slice_def store_fields_def fold_map comp_def split_def layouts mult.commute)
  show ?thesis unfolding eq
    by (rule store_fields_outside [OF assms]) (auto simp: in_set_enumerate_eq)
qed

definition known_event :: "host_event \<Rightarrow> bool" where
  "known_event ev = (ev_error ev \<le> WASI_ENOTCAPABLE \<and> ev_type ev \<le> WASI_EVENTTYPE_FD_WRITE)"

lemma encode_event_fields:
  assumes "known_event ev"
  shows "\<exists>fs. encode_event ev = Inr fs \<and> (\<forall>(offset, bs) \<in> set fs. offset + length bs \<le> 32)"
proof -
  have "unat (ev_type ev) \<le> 2" using assms by (simp add: known_event_def wasi_constants word_le_nat_alt)
  then have "unat (ev_type ev) = 0 \<or> unat (ev_type ev) = 1 \<or> unat (ev_type ev) = 2" by arith
  then have "ev_type ev = 0 \<or> ev_type ev = 1 \<or> ev_type ev = 2" by (simp add: word_eq_iff_unat)
  then show ?thesis using assms
    by (auto simp: known_event_def encode_event_def encode_errno_def wasi_constants)
qed

lemma encode_one_event_encodes:
  assumes "guest_range mem p (32 * n)" and "length evs \<le> n" and "length evs \<le> 1" and "\<forall>ev\<in>set evs. known_event ev"
  shows "encodes mem m (encode_event_slice p evs m)"
proof (cases evs)
  case (Cons ev rest)
  then have rest: "rest = []" and "guest_range mem p 32"
    using assms(1-3) guest_range_shrink [of mem p "32 * n" 0 32] by auto
  moreover obtain fs where "encode_event ev = Inr fs" "\<forall>(offset, bs) \<in> set fs. offset + length bs \<le> 32"
    using encode_event_fields [of ev] assms(4) Cons by auto
  ultimately show ?thesis using Cons store_fields_outside
    by (auto simp: encodes_def encode_event_slice_def)
qed (simp add: encodes_def encode_event_slice_def)

section \<open>Exactness of the check\<close>

text \<open>C11. The check of a pointer is exact: it is accepted just when every byte it names is below the length of the memory and it
  is a multiple of the alignment, it is then the address of the memory plus the pointer, with all the bytes
  inside the memory of the guest; a byte past the end is a fault, a misaligned pointer
  or a missing memory an invalid argument, and nothing panics whatever the pointer and the length are.\<close>

theorem decode_ptr_exact:
  assumes "0 < alignment"
  shows "case decode_ptr mem ptr len alignment of
      Inr p \<Rightarrow> (\<exists>d. mem = Some d \<and> p = vmm_base d + ucast ptr \<and> unat ptr mod unat alignment = 0 \<and>
        (\<forall>i<unat len. unat ptr + i < unat (vmm_current_length d)) \<and> guest_range mem p (unat len))
    | Inl (Errno e) \<Rightarrow>
        (e = WASI_EFAULT \<and> (\<exists>d. mem = Some d \<and> (\<exists>i<unat len. unat (vmm_current_length d) \<le> unat ptr + i))) \<or>
        (e = WASI_EINVAL \<and> (mem = None \<or> unat ptr mod unat alignment \<noteq> 0))
    | Inl (WasiPanic _) \<Rightarrow> False"
proof (cases mem)
  case (Some d)
  show ?thesis
  proof (cases "len > 0 \<and> unat (vmm_current_length d) < unat ptr + unat len")
    case True
    then have "\<exists>i<unat len. unat (vmm_current_length d) \<le> unat ptr + i"
      by (intro exI [of _ "unat len - 1"]) (auto simp: word_less_nat_alt)
    then show ?thesis using True Some by (simp add: decode_ptr_cases)
  next
    case False
    then show ?thesis using Some decode_ptr_range [of mem ptr len alignment]
      by (auto simp: decode_ptr_cases word_less_nat_alt split: if_splits)
  qed
qed simp

theorem decode_ptr_exact_witness:
  "decode_ptr (Some \<lparr>vmm_base = 4096, vmm_current_length = 65536\<rparr>) 65532 4 4 = Inr 69628 \<and>
   guest_range (Some \<lparr>vmm_base = 4096, vmm_current_length = 65536\<rparr>) 69628 4"
proof -
  have "decode_ptr (Some \<lparr>vmm_base = 4096, vmm_current_length = 65536\<rparr>) 65532 4 4 = Inr 69628"
    by (simp add: decode_ptr_cases)
  then show ?thesis
    using decode_ptr_exact [where alignment = 4 and ptr = 65532 and len = 4
      and mem = "Some \<lparr>vmm_base = 4096, vmm_current_length = 65536\<rparr>"] by simp
qed

end
