(* ===== verification/Wasi_Confined.thy ===== *)
theory Wasi_Confined
  imports Wasi_Syscalls Wasi_Bounds
begin

text \<open>
  The WASI calls keep to the memory of the guest: over a host that writes only the buffers it is given, every call changes
  no byte of the process outside the memory of the guest, whatever the guest passes, and returns a known error number.
  The one exception to the first is \<^verbatim>\<open>poll_oneoff\<close> with two or more events; \<^verbatim>\<open>proc_exit\<close> and \<^verbatim>\<open>proc_raise\<close> do not return.
\<close>

section \<open>What the host promises\<close>

text \<open>The buffers of the guest that a function of the host gets to write.\<close>

fun host_buffers :: "host_call \<Rightarrow> 'h wasi_state \<Rightarrow> (u64 \<times> nat) list" where
  "host_buffers (Ssp_args_get _ buf) w = [(buf, unat (ae_argv_buf_size (w_argv_environ w)))]"
| "host_buffers (Ssp_environ_get _ buf) w = [(buf, unat (ae_environ_buf_size (w_argv_environ w)))]"
| "host_buffers (Ssp_fd_prestat_dir_name _ path len) w = [(path, unat len)]"
| "host_buffers (Ssp_fd_pread _ iovs _) w = map (\<lambda>(b, l). (b, unat l)) iovs"
| "host_buffers (Ssp_fd_read _ iovs) w = map (\<lambda>(b, l). (b, unat l)) iovs"
| "host_buffers (Ssp_fd_readdir _ buf len _) w = [(buf, unat len)]"
| "host_buffers (Ssp_path_readlink _ _ _ buf len) w = [(buf, unat len)]"
| "host_buffers (Ssp_random_get buf len) w = [(buf, unat len)]"
| "host_buffers (Ssp_sock_recv _ iovs _) w = map (\<lambda>(b, l). (b, unat l)) iovs"
| "host_buffers _ w = []"

text \<open>Counts that fit the types of the guest.\<close>

definition small :: "usize option \<Rightarrow> bool" where
  "small n = (case n of None \<Rightarrow> True | Some n \<Rightarrow> unat n < 2 ^ 32)"

definition argv_fits :: "argv_environ_values \<Rightarrow> bool" where
  "argv_fits ae =
     (unat (ae_argc ae) < 2 ^ 32 - 1 \<and> unat (ae_argv_buf_size ae) < 2 ^ 32 \<and>
      unat (ae_environ_count ae) < 2 ^ 32 - 1 \<and> unat (ae_environ_buf_size ae) < 2 ^ 32)"

definition proper_answer :: "host_out \<Rightarrow> bool" where
  "proper_answer out =
     (out_errno out \<le> WASI_ENOTCAPABLE \<and> small (out_size out) \<and> small (out_size2 out) \<and>
      (case out_prestat out of None \<Rightarrow> True | Some st \<Rightarrow> unat (pr_name_len st) < 2 ^ 32) \<and>
      (\<forall>ev \<in> set (out_events out). known_event ev))"

text \<open>The host answers with known error numbers, counts and events, leaves the arguments and the environment as
  they are, and writes no memory but the buffers of the call.\<close>

definition proper_host :: "'h host \<Rightarrow> bool" where
  "proper_host host \<longleftrightarrow>
     (\<forall>call w. argv_fits (w_argv_environ w) \<longrightarrow>
        (case host call w of (out, w') \<Rightarrow>
           proper_answer out \<and> w_argv_environ w' = w_argv_environ w \<and>
           (\<forall>a. (\<forall>(p, n) \<in> set (host_buffers call w). n \<le> unat (a - p)) \<longrightarrow> w_memory w' a = w_memory w a)))"

section \<open>Calls that answer\<close>

definition confined :: "vm_memory_definition option \<Rightarrow> 'h wasi_state \<Rightarrow> 'h wasi_state \<Rightarrow> bool" where
  "confined mem w w' = (outside_same mem (w_memory w) (w_memory w') \<and> w_argv_environ w' = w_argv_environ w)"

definition answers :: "vm_memory_definition option \<Rightarrow> 'h wasi_state \<Rightarrow> 'h outcome \<Rightarrow> bool" where
  "answers mem w r = (\<exists>e w'. r = Inr (e, w') \<and> e \<le> WASI_ENOTCAPABLE \<and> confined mem w w')"

lemma confined_refl [simp]: "confined mem w w"
  by (simp add: confined_def)

lemma confined_trans [trans]: "confined mem w w' \<Longrightarrow> confined mem w' w'' \<Longrightarrow> confined mem w w''"
  by (auto simp: confined_def intro: outside_same_trans)

lemma answers_after: "confined mem w w' \<Longrightarrow> answers mem w' r \<Longrightarrow> answers mem w r"
  by (auto simp: answers_def intro: confined_trans)

named_theorems answer_rules

lemma answers_errno: "e \<le> WASI_ENOTCAPABLE \<Longrightarrow> answers mem w (return_encoded_errno e w)"
  by (simp add: answers_def return_encoded_errno_def encode_errno_def)

lemma answers_or_return:
  "decodes r P \<Longrightarrow> (\<And>x. r = Inr x \<Longrightarrow> P x \<Longrightarrow> answers mem w (k x)) \<Longrightarrow> answers mem w (or_return r w k)"
  by (auto simp: or_return_def decodes_def intro: answers_errno split: sum.splits wasi_error.splits)

text \<open>One rule for each decoding function.\<close>

lemmas or_return_rules [answer_rules] = decode_rules [THEN answers_or_return]

lemma answers_or_nomem [answer_rules]:
  "(\<And>k. unat k = unat n \<Longrightarrow> answers mem w (f k)) \<Longrightarrow> answers mem w (or_nomem n w f)"
proof (cases "try_from n :: u32 option")
  case None
  then show ?thesis by (simp add: or_nomem_def answers_def wasi_constants)
next
  case (Some k)
  then have "unat k = unat n" by (simp add: try_from_iff)
  moreover assume "\<And>k. unat k = unat n \<Longrightarrow> answers mem w (f k)"
  ultimately show ?thesis using Some by (simp add: or_nomem_def)
qed

lemma answers_host:
  assumes "proper_host host" and "argv_fits (w_argv_environ w)"
    and buffers: "\<forall>(p, n) \<in> set (host_buffers call w). guest_range mem p n"
    and rest: "\<And>out w'. proper_answer out \<Longrightarrow> confined mem w w' \<Longrightarrow> answers mem w' (k out w')"
  shows "answers mem w (case host call w of (out, w') \<Rightarrow> k out w')"
proof -
  obtain out w' where h: "host call w = (out, w')" by fastforce
  have ok: "proper_answer out" "w_argv_environ w' = w_argv_environ w"
    and mem: "\<And>a. \<forall>(p, n) \<in> set (host_buffers call w). n \<le> unat (a - p) \<Longrightarrow> w_memory w' a = w_memory w a"
    using assms(1) [unfolded proper_host_def, rule_format, OF assms(2), of call] h by auto
  have "n \<le> unat (a - p)" if "\<not> guest_addr mem a" "(p, n) \<in> set (host_buffers call w)" for a p n
    using that buffers by (force simp: guest_range_def not_le dest: spec [of _ "unat (a - p)"])
  then have "confined mem w w'" using mem ok by (fastforce simp: confined_def outside_same_def)
  then show ?thesis using rest ok h by (auto intro: answers_after)
qed

lemma answers_only_errno [answer_rules]: "proper_answer out \<Longrightarrow> answers mem w (only_errno out w)"
  by (simp add: only_errno_def proper_answer_def answers_errno)

text \<open>Writes after the call.\<close>

definition writes :: "vm_memory_definition option \<Rightarrow> ('h wasi_state \<Rightarrow> 'h wasi_state wasi) \<Rightarrow> bool" where
  "writes mem f = (\<forall>w. \<exists>w'. f w = Inr w' \<and> confined mem w w')"

lemma answers_on_success [answer_rules]: "proper_answer out \<Longrightarrow> writes mem f \<Longrightarrow> answers mem w (on_success out f w)"
proof -
  assume out: "proper_answer out" and "writes mem f"
  then obtain w' where w': "f w = Inr w'" "confined mem w w'" by (auto simp: writes_def)
  show ?thesis
  proof (cases "out_errno out = WASI_ESUCCESS")
    case True
    then show ?thesis using w' out by (auto simp: on_success_def proper_answer_def intro: answers_after answers_errno)
  qed (use out in \<open>simp add: on_success_def proper_answer_def answers_errno\<close>)
qed

lemma answers_always [answer_rules]: "proper_answer out \<Longrightarrow> writes mem f \<Longrightarrow> answers mem w (always out f w)"
proof -
  assume out: "proper_answer out" and "writes mem f"
  then obtain w' where "f w = Inr w'" "confined mem w w'" by (auto simp: writes_def)
  then show ?thesis using out by (auto simp: always_def proper_answer_def intro: answers_after answers_errno)
qed

lemma writes_encoding [answer_rules]: "(\<And>m. encodes mem m (f m)) \<Longrightarrow> writes mem (encoding f :: 'h wasi_state \<Rightarrow> 'h wasi_state wasi)"
proof -
  assume f: "\<And>m. encodes mem m (f m)"
  have "\<exists>w'. encoding f w = Inr w' \<and> confined mem w w'" for w :: "'h wasi_state"
    using f [of "w_memory w"] by (auto simp: encoding_def encodes_def confined_def)
  then show ?thesis by (simp add: writes_def)
qed

lemma writes_bind [answer_rules]: "writes mem f \<Longrightarrow> writes mem g \<Longrightarrow> writes mem (\<lambda>w. bind_res (f w) g)"
  unfolding writes_def by (metis bind_res_simps(2) confined_trans)

lemma proper_sizes:
  "proper_answer out \<Longrightarrow> unat (written 0 (out_size out)) < 2 ^ 32"
  "proper_answer out \<Longrightarrow> unat (written 0 (out_size2 out)) < 2 ^ 32"
  "proper_answer out \<Longrightarrow> unat (pr_name_len (written zeroed_prestat (out_prestat out))) < 2 ^ 32"
  by (auto simp: proper_answer_def small_def written_def zeroed_prestat_def split: option.splits)

declare encode_rules [answer_rules] proper_sizes [answer_rules]

section \<open>The calls\<close>

text \<open>The calls that return: all that \<^verbatim>\<open>syscalls.rs\<close> exports but \<^verbatim>\<open>proc_exit\<close> and \<^verbatim>\<open>proc_raise\<close>, with any arguments.
  Left out is \<^verbatim>\<open>poll_oneoff\<close> with more than one subscription, which is not confined.\<close>

inductive wasi_call :: "'h host \<Rightarrow> vm_memory_definition option \<Rightarrow> ('h wasi_state \<Rightarrow> 'h outcome) \<Rightarrow> bool"
  for host :: "'h host" and mem :: "vm_memory_definition option" where
  "wasi_call host mem (args_get host mem argv argv_buf)"
| "wasi_call host mem (args_sizes_get host mem argc argv_buf_size)"
| "wasi_call host mem (clock_res_get host mem clock_id resolution)"
| "wasi_call host mem (clock_time_get host mem clock_id precision time)"
| "wasi_call host mem (environ_get host mem environ environ_buf)"
| "wasi_call host mem (environ_sizes_get host mem environ_count environ_buf_size)"
| "wasi_call host mem (fd_prestat_get host mem fd buf)"
| "wasi_call host mem (fd_prestat_dir_name host mem fd path path_len)"
| "wasi_call host mem (fd_close host mem fd)"
| "wasi_call host mem (fd_datasync host mem fd)"
| "wasi_call host mem (fd_pread host mem fd iovs iovs_len offset nread)"
| "wasi_call host mem (fd_pwrite host mem fd iovs iovs_len offset nwritten)"
| "wasi_call host mem (fd_read host mem fd iovs iovs_len nread)"
| "wasi_call host mem (fd_renumber host mem from_fd to_fd)"
| "wasi_call host mem (fd_seek host mem fd offset whence newoffset)"
| "wasi_call host mem (fd_tell host mem fd newoffset)"
| "wasi_call host mem (fd_fdstat_get host mem fd buf)"
| "wasi_call host mem (fd_fdstat_set_flags host mem fd flags)"
| "wasi_call host mem (fd_fdstat_set_rights host mem fd rights_base rights_inheriting)"
| "wasi_call host mem (fd_sync host mem fd)"
| "wasi_call host mem (fd_write host mem fd iovs iovs_len nwritten)"
| "wasi_call host mem (fd_advise host mem fd offset len advice)"
| "wasi_call host mem (fd_allocate host mem fd offset len)"
| "wasi_call host mem (path_create_directory host mem fd path path_len)"
| "wasi_call host mem (path_link host mem fd0 flags0 path0 path_len0 fd1 path1 path_len1)"
| "wasi_call host mem (path_open host mem dirfd dirflags path path_len oflags rights_base rights_inheriting flags fd)"
| "wasi_call host mem (fd_readdir host mem fd buf buf_len cookie buf_used)"
| "wasi_call host mem (path_readlink host mem fd path path_len buf buf_len buf_used)"
| "wasi_call host mem (path_rename host mem fd0 path0 path_len0 fd1 path1 path_len1)"
| "wasi_call host mem (fd_filestat_get host mem fd buf)"
| "wasi_call host mem (fd_filestat_set_times host mem fd atim mtim fstflags)"
| "wasi_call host mem (fd_filestat_set_size host mem fd new_size)"
| "wasi_call host mem (path_filestat_get host mem fd flags path path_len buf)"
| "wasi_call host mem (path_filestat_set_times host mem fd flags path path_len atim mtim fstflags)"
| "wasi_call host mem (path_symlink host mem path0 path_len0 fd path1 path_len1)"
| "wasi_call host mem (path_unlink_file host mem fd path path_len)"
| "wasi_call host mem (path_remove_directory host mem fd path path_len)"
| "wasi_call host mem (random_get host mem buf buf_len)"
| "wasi_call host mem (sock_recv host mem sock ri_data ri_data_len ri_flags ro_datalen ro_flags)"
| "wasi_call host mem (sock_send host mem sock si_data si_data_len si_flags so_datalen)"
| "wasi_call host mem (sock_shutdown host mem sock how)"
| "wasi_call host mem (sched_yield host)"
| "unat nsubscriptions \<le> 1 \<Longrightarrow> wasi_call host mem (poll_oneoff host mem subs outs nsubscriptions nevents)"

lemmas plain_call_defs = args_sizes_get_def clock_res_get_def clock_time_get_def environ_sizes_get_def
  fd_prestat_get_def fd_prestat_dir_name_def fd_close_def fd_datasync_def fd_pread_def fd_pwrite_def fd_read_def
  fd_renumber_def fd_seek_def fd_tell_def fd_fdstat_get_def fd_fdstat_set_flags_def fd_fdstat_set_rights_def
  fd_sync_def fd_write_def fd_advise_def fd_allocate_def path_create_directory_def path_link_def path_open_def
  fd_readdir_def path_readlink_def path_rename_def fd_filestat_get_def fd_filestat_set_times_def
  fd_filestat_set_size_def path_filestat_get_def path_filestat_set_times_def path_symlink_def path_unlink_file_def
  path_remove_directory_def random_get_def sock_recv_def sock_send_def sock_shutdown_def sched_yield_def

lemma written_vec_length [simp]: "length (written_vec xs ys) = length xs"
  by (simp add: written_vec_def)

lemma unat_plus_one: "unat (x :: 'a::len word) + 1 < 2 ^ LENGTH('a) \<Longrightarrow> unat (x + 1) = unat x + 1"
  by (subst unat_add_small) auto

text \<open>The pointers to arguments: one more than there are arguments.\<close>

lemma encodes_charstars:
  fixes n :: usize and cnt :: u32
  assumes "guest_range mem p (4 * unat (cnt + 1))" and "unat cnt = unat n" and "unat n < 2 ^ 32 - 1"
  shows "encodes mem m
    (Inr (encode_charstar_slice p (written_vec (replicate (unat (n + 1)) 0) ptrs) base host_base m))"
proof -
  have "unat (n + 1) = unat (cnt + 1)"
    using assms(2,3) unat_plus_one [of n] unat_plus_one [of cnt] by simp
  then show ?thesis using assms(1) by (simp add: encodes_def encode_charstar_slice_outside)
qed

lemma args_get_answers:
  assumes "proper_host host" and fits: "argv_fits (w_argv_environ w)"
  shows "answers mem w (args_get host mem argv argv_buf w)"
  using fits unfolding args_get_def Let_def get_argv_environ_def
  by (auto simp: argv_fits_def intro!: answer_rules answers_host [OF assms] encodes_charstars)

lemma environ_get_answers:
  assumes "proper_host host" and fits: "argv_fits (w_argv_environ w)"
  shows "answers mem w (environ_get host mem environ environ_buf w)"
  using fits unfolding environ_get_def Let_def get_argv_environ_def
  by (auto simp: argv_fits_def intro!: answer_rules answers_host [OF assms] encodes_charstars)

lemma events_known:
  assumes "proper_answer out"
  shows "\<forall>ev \<in> set (take k (written_vec (replicate n zeroed_event) (out_events out))). known_event ev"
  using assms by (auto simp: proper_answer_def written_vec_def known_event_def zeroed_event_def wasi_constants
      dest!: in_set_takeD in_set_dropD)

lemma poll_events_encodes:
  assumes "proper_answer out" and "guest_range mem p (32 * n)" and "n \<le> 1"
  shows "encodes mem m (encode_event_slice p (take k (written_vec (replicate n zeroed_event) (out_events out))) m)"
  using assms(3) by (intro encode_one_event_encodes [OF assms(2)] events_known [OF assms(1)]) auto

lemma poll_oneoff_answers:
  assumes "proper_host host" and "argv_fits (w_argv_environ w)" and "unat nsubscriptions \<le> 1"
  shows "answers mem w (poll_oneoff host mem subs outs nsubscriptions nevents w)"
  unfolding poll_oneoff_def Let_def using assms(3)
  by (auto intro!: answer_rules answers_host [OF assms(1,2)] poll_events_encodes)

lemma wasi_call_answers:
  assumes "wasi_call host mem f" and "proper_host host" and "argv_fits (w_argv_environ w)"
  shows "answers mem w (f w)"
  using assms(1)
  by cases (simp_all only: args_get_answers environ_get_answers poll_oneoff_answers assms(2,3),
    unfold plain_call_defs Let_def, auto intro!: answer_rules answers_host [OF assms(2,3)])

section \<open>Runs of a guest\<close>

text \<open>Between the calls a guest writes its own memory.\<close>

inductive guest_step :: "'h host \<Rightarrow> vm_memory_definition option \<Rightarrow> 'h wasi_state \<Rightarrow> 'h wasi_state \<Rightarrow> bool"
  for host :: "'h host" and mem :: "vm_memory_definition option" where
  store: "guest_range mem p (length bs) \<Longrightarrow> guest_step host mem w (w\<lparr>w_memory := store_bytes p bs (w_memory w)\<rparr>)"
| call: "wasi_call host mem f \<Longrightarrow> f w = Inr (e, w') \<Longrightarrow> guest_step host mem w w'"

lemma guest_step_confined:
  assumes "guest_step host mem w w'" and "proper_host host" and "argv_fits (w_argv_environ w)"
  shows "confined mem w w'"
  using assms(1)
proof cases
  case (store p bs)
  then show ?thesis by (simp add: confined_def store_bytes_outside)
next
  case (call f e)
  then show ?thesis using wasi_call_answers [OF call(1) assms(2,3)] by (auto simp: answers_def)
qed

lemma guest_run_confined:
  assumes "(guest_step host mem)\<^sup>*\<^sup>* w w'" and "proper_host host" and "argv_fits (w_argv_environ w)"
  shows "confined mem w w'"
  using assms(1)
proof induction
  case (step w1 w2)
  then have "argv_fits (w_argv_environ w1)" using assms(3) by (simp add: confined_def)
  then have "confined mem w1 w2" using guest_step_confined [OF step.hyps(2) assms(2)] by simp
  with step.IH show ?case by (rule confined_trans)
qed simp

lemma proc_exit_keeps:
  assumes "proper_host host" "argv_fits (w_argv_environ w)"
  shows "w_memory (proc_exit host rval w) a = w_memory w a"
proof -
  obtain out w1 where "host (Ssp_proc_exit (decode_exitcode rval)) w = (out, w1)" by fastforce
  then show ?thesis
    using assms(1) [unfolded proper_host_def, rule_format, OF assms(2), of "Ssp_proc_exit (decode_exitcode rval)"]
    by (simp add: proc_exit_def)
qed

text \<open>C10. WASI does not break the sandbox, except through \<^verbatim>\<open>poll_oneoff\<close> with more than one subscription: over a host that writes
  only the buffers it is given and answers with known error numbers and counts of 32 bits, a guest that stores into its own memory
  and makes any of the other calls with any arguments never changes a byte of the process outside its memory. In every state it can
  reach, each such call returns a known error number, without panic, but \<^verbatim>\<open>proc_raise\<close>, which is not implemented and panics, and
  \<^verbatim>\<open>proc_exit\<close>, which changes no byte outside the memory before the host ends the process.\<close>

theorem wasi_calls_confined:
  assumes "proper_host host" and "argv_fits (w_argv_environ w)" and "(guest_step host mem)\<^sup>*\<^sup>* w w'"
  shows "(\<forall>a. \<not> guest_addr mem a \<longrightarrow> w_memory w' a = w_memory w a) \<and>
    (\<forall>f. wasi_call host mem f \<longrightarrow>
       (\<exists>e w''. f w' = Inr (e, w'') \<and> e \<le> WASI_ENOTCAPABLE \<and> (\<forall>a. \<not> guest_addr mem a \<longrightarrow> w_memory w'' a = w_memory w a))) \<and>
    (\<forall>rval a. \<not> guest_addr mem a \<longrightarrow> w_memory (proc_exit host rval w') a = w_memory w a) \<and>
    (\<forall>sig. proc_raise sig w' = Inl (WasiPanic ''not yet implemented: __wasi_proc_raise''))"
proof -
  have run: "confined mem w w'" using assms guest_run_confined by blast
  have "answers mem w' (f w')" if "wasi_call host mem f" for f
    using wasi_call_answers [OF that assms(1), of w'] run assms(2) by (simp add: confined_def)
  moreover have "w_memory (proc_exit host rval w') a = w_memory w' a" for rval a
    using proc_exit_keeps [OF assms(1)] assms(2) run by (simp add: confined_def)
  ultimately show ?thesis using run by (fastforce simp: answers_def confined_def outside_same_def proc_raise_def)
qed

text \<open>A host that reads zeros: it fills the buffers it is given with zeros and reports the bytes as read.\<close>

definition zero_out :: host_out where
  "zero_out = \<lparr>out_errno = WASI_ESUCCESS, out_size = Some 0, out_size2 = None, out_timestamp = Some 7, out_filesize = None,
     out_fd = None, out_roflags = None, out_prestat = None, out_fdstat = None, out_filestat = None, out_pointers = [], out_events = []\<rparr>"

definition zero_host :: "'h host" where
  "zero_host call w =
     (zero_out, w\<lparr>w_memory := (\<lambda>a. if \<exists>(p, n) \<in> set (host_buffers call w). unat (a - p) < n then 0 else w_memory w a)\<rparr>)"

lemma zero_host_proper: "proper_host (zero_host :: 'h host)"
proof -
  have "case zero_host call w of (out, w') \<Rightarrow>
      proper_answer out \<and> w_argv_environ w' = w_argv_environ w \<and>
      (\<forall>a. (\<forall>(p, n) \<in> set (host_buffers call w). n \<le> unat (a - p)) \<longrightarrow> w_memory w' a = w_memory w a)" for call and w :: "'h wasi_state"
    by (fastforce simp: zero_host_def zero_out_def proper_answer_def small_def wasi_constants)
  then show ?thesis by (simp add: proper_host_def)
qed

definition no_argv :: argv_environ_values where
  "no_argv = \<lparr>ae_argc = 0, ae_argv = [], ae_argv_buf_size = 0, ae_argv_buf = [],
     ae_environ_count = 0, ae_environ = [], ae_environ_buf_size = 0, ae_environ_buf = []\<rparr>"

definition sample_state :: "unit wasi_state" where
  "sample_state = \<lparr>w_memory = (\<lambda>_. 0), w_argv_environ = no_argv, w_tables = ()\<rparr>"

definition sample_memory :: vm_memory_definition where
  "sample_memory = \<lparr>vmm_base = 4096, vmm_current_length = 65536\<rparr>"

theorem wasi_calls_confined_witness:
  "\<exists>e w''. random_get zero_host (Some sample_memory) 8 16 sample_state = Inr (e, w'') \<and> e \<le> WASI_ENOTCAPABLE \<and>
     w_memory w'' 4095 = 0"
proof -
  have "argv_fits (w_argv_environ sample_state)" by (simp add: argv_fits_def sample_state_def no_argv_def)
  then have "\<exists>e w''. random_get zero_host (Some sample_memory) 8 16 sample_state = Inr (e, w'') \<and> e \<le> WASI_ENOTCAPABLE \<and>
      (\<forall>a. \<not> guest_addr (Some sample_memory) a \<longrightarrow> w_memory w'' a = w_memory sample_state a)"
    using wasi_calls_confined [OF zero_host_proper, of sample_state "Some sample_memory" sample_state]
    by (auto intro: wasi_call.intros)
  moreover have "\<not> guest_addr (Some sample_memory) 4095" by (simp add: guest_addr_def sample_memory_def)
  ultimately show ?thesis by (fastforce simp: sample_state_def)
qed

section \<open>Polling for more than one event\<close>

lemma store_bytes_first: "bs \<noteq> [] \<Longrightarrow> store_bytes p bs m p = hd bs"
  by (simp add: store_bytes_def hd_conv_nth)

lemma store_fields_other:
  "\<forall>(offset, bs) \<in> set fs. length bs \<le> unat (a - (p + of_nat offset)) \<Longrightarrow> store_fields p fs m a = m a"
  by (induction fs arbitrary: m) (auto simp: store_fields_def store_bytes_def Let_def)

text \<open>The first byte of an event is the first byte of its user data.\<close>

lemma store_event_first:
  assumes "encode_event ev = Inr fs"
  shows "store_fields p fs m p = hd (to_bytes (ev_userdata ev))"
proof -
  obtain rest where fs: "fs = (0, to_bytes (ev_userdata ev)) # rest"
    and rest: "\<forall>(offset, bs) \<in> set rest. offset \<in> {8, 10, 12, 16} \<and> length bs \<le> 16"
    using assms by (auto simp: encode_event_def encode_userdata_def split: if_splits)
  have "16 \<le> unat (p - (p + of_nat offset))" if "offset \<in> {8, 10, 12, 16}" for offset
    using that by auto
  then have "\<forall>(offset, bs) \<in> set rest. length bs \<le> unat (p - (p + of_nat offset))"
    using rest by fastforce
  then have "store_fields p fs m p = store_bytes p (to_bytes (ev_userdata ev)) m p"
    by (simp add: fs store_fields_other [unfolded store_fields_def] store_fields_def)
  moreover have "length (to_bytes (ev_userdata ev)) = 8" by simp
  ultimately show ?thesis by (metis list.size(3) store_bytes_first zero_neq_numeral)
qed

text \<open>C40. With two events \<^verbatim>\<open>poll_oneoff\<close> writes outside the slice it checked: the offset of an event is scaled by the
  size of an event twice, so the second one lands 1024 bytes after the start of the slice instead of 32. Whenever that address is not
  in the memory of the guest, a byte of the process there takes a value the guest chose.\<close>

theorem poll_oneoff_escapes:
  assumes "decode_subscription_slice mem subs 2 (w_memory w) = Inr [sub0, sub1]"
    and "decode_event_slice mem outs 2 = Inr (p, 2)"
    and "decode_usize_byref mem nevents = Inr ()"
    and "host (Ssp_poll_oneoff [sub0, sub1] [zeroed_event, zeroed_event]) w = (out, w1)"
    and "out_errno out = WASI_ESUCCESS" and "out_size out = Some 2" and "out_events out = [ev0, ev1]"
    and "known_event ev0" and "known_event ev1"
    and "\<not> guest_addr mem (p + 1024)" and "w_memory w (p + 1024) \<noteq> hd (to_bytes (ev_userdata ev1))"
  shows "\<exists>w'. poll_oneoff host mem subs outs 2 nevents w = Inr (WASI_ESUCCESS, w') \<and>
    w_memory w' (p + 1024) = hd (to_bytes (ev_userdata ev1)) \<and> \<not> outside_same mem (w_memory w) (w_memory w')"
proof -
  obtain m1 where m1: "encode_usize_byref mem nevents 2 (w_memory w1) = Inr m1"
    using encode_usize_byref_encodes [OF assms(3), of 2 "w_memory w1"] by (auto simp: encodes_def)
  obtain fs0 fs1 where fs: "encode_event ev0 = Inr fs0" "encode_event ev1 = Inr fs1"
    using encode_event_fields assms(8,9) by meson
  define m2 where "m2 = store_fields (p + 1024) fs1 (store_fields p fs0 m1)"
  have "encode_event_slice p [ev0, ev1] m1 = Inr m2"
    by (simp add: encode_event_slice_def fs m2_def layouts)
  moreover have "replicate 2 zeroed_event = [zeroed_event, zeroed_event]" by (simp add: numeral_2_eq_2)
  ultimately have "poll_oneoff host mem subs outs 2 nevents w = Inr (WASI_ESUCCESS, w1\<lparr>w_memory := m2\<rparr>)"
    using assms(1-7) m1
    by (simp add: poll_oneoff_def or_return_def on_success_def encoding_def written_def written_vec_def
        return_encoded_errno_def encode_errno_def wasi_constants)
  moreover have "m2 (p + 1024) = hd (to_bytes (ev_userdata ev1))" by (simp add: m2_def store_event_first [OF fs(2)])
  ultimately show ?thesis using assms(10,11) by (auto simp: outside_same_def)
qed

text \<open>A guest whose memory ends 64 bytes after the start of the slice, and two expired clocks.\<close>

definition clock_sub :: host_subscription where
  "clock_sub = \<lparr>sub_userdata = 0, sub_type = 0, sub_u = SubClock 0 0 0 0 0\<rparr>"

definition clock_host :: "unit host" where
  "clock_host call w =
     (zero_out\<lparr>out_size := Some 2, out_events := [zeroed_event, zeroed_event\<lparr>ev_userdata := 255\<rparr>]\<rparr>, w)"

lemma sample_subscriptions:
  "decode_subscription_slice (Some sample_memory) 0 2 (\<lambda>_. 0) = Inr [clock_sub, clock_sub]"
proof -
  have zeros: "from_bytes (load_bytes q n (\<lambda>_. 0)) = (0 :: 'a::len word)" for q n
    unfolding load_bytes_def by (induction n) (simp_all add: map_replicate_const)
  have upt: "[0..<2] = [0, 1]" by (simp add: upt_rec)
  have "decode_slice_of subscription_layout (Some sample_memory) 0 2 = Inr (4096, 2)"
    by (simp add: decode_slice_of_def layouts unwrap_option_def try_from_def checked_mul_def decode_ptr_cases sample_memory_def)
  then show ?thesis
    by (simp add: decode_subscription_slice_def load_slice_def upt load_subscription_def zeros decode_subscription_def
        wasi_constants clock_sub_def decode_userdata_def decode_eventtype_def decode_clockid_def decode_timestamp_def
        decode_subclockflags_def)
qed

theorem poll_oneoff_escapes_witness:
  "\<exists>w'. poll_oneoff clock_host (Some sample_memory) 0 65472 2 128 sample_state = Inr (WASI_ESUCCESS, w') \<and>
     \<not> outside_same (Some sample_memory) (w_memory sample_state) (w_memory w')"
proof -
  have hd: "hd (to_bytes (255 :: u64)) = 255"
    by (simp add: to_bytes_def hd_map upt_rec)
  have "decode_event_slice (Some sample_memory) 65472 2 = Inr (69568, 2)"
    by (simp add: decode_event_slice_def decode_slice_of_def layouts unwrap_option_def try_from_def checked_mul_def
        decode_ptr_cases sample_memory_def)
  moreover have "decode_usize_byref (Some sample_memory) 128 = Inr ()"
    by (simp add: decode_usize_byref_def decode_pointee_def decode_ptr_to_def layouts decode_ptr_cases sample_memory_def)
  moreover have "\<not> guest_addr (Some sample_memory) (69568 + 1024)"
    by (simp add: guest_addr_def sample_memory_def)
  ultimately show ?thesis
    using poll_oneoff_escapes [of "Some sample_memory" 0 sample_state clock_sub clock_sub 65472 69568 128 clock_host
        "zero_out\<lparr>out_size := Some 2, out_events := [zeroed_event, zeroed_event\<lparr>ev_userdata := 255\<rparr>]\<rparr>" sample_state
        zeroed_event "zeroed_event\<lparr>ev_userdata := 255\<rparr>"] sample_subscriptions
    by (auto simp: clock_host_def zero_out_def sample_state_def known_event_def zeroed_event_def wasi_constants hd)
qed

end
