(* ===== verification/Wasi_Args.thy ===== *)
theory Wasi_Args
  imports Wasi_Instantiate Wasi_Confined
begin

text \<open>
  The arguments of a program reach the guest: what \<^verbatim>\<open>allocate_argv_environ\<close> lays out, the C library copies and \<^verbatim>\<open>args_get\<close>
  rebases is, in the memory of the guest, an array of pointers to the arguments, each ended by a zero, and a null pointer.
\<close>

section \<open>Reading back what was written\<close>

lemma store_bytes_append:
  assumes "length xs + length ys \<le> 2 ^ 64"
  shows "store_bytes (p + of_nat (length xs)) ys (store_bytes p xs m) = store_bytes p (xs @ ys) m"
proof
  fix a
  have diff: "unat (a - (p + of_nat (length xs))) =
      (if length xs \<le> unat (a - p) then unat (a - p) - length xs else unat (a - p) + 2 ^ 64 - length xs)"
    if "ys \<noteq> []"
  proof -
    have "length xs < 2 ^ 64" using assms that by (cases ys) auto
    then have "unat (of_nat (length xs) :: u64) = length xs" by (rule unat_of_nat_u64)
    then show ?thesis
      using unat_sub_if' [of "a - p" "of_nat (length xs)"] by (simp add: diff_diff_eq word_le_nat_alt)
  qed
  show "store_bytes (p + of_nat (length xs)) ys (store_bytes p xs m) a = store_bytes p (xs @ ys) m a"
  proof (cases "ys = []")
    case False
    then show ?thesis using assms diff unat_lt_u64 [of "a - p"]
      by (auto simp: store_bytes_def Let_def nth_append)
  qed (simp add: store_bytes_def)
qed

lemma store_bytes_nth:
  assumes "i < length bs" and "length bs \<le> 2 ^ 64"
  shows "store_bytes p bs m (p + of_nat i) = bs ! i"
  using assms unat_of_nat_u64 [of i] by (simp add: store_bytes_def)

lemma load_stored:
  assumes "i + n \<le> length bs" and "length bs \<le> 2 ^ 64"
  shows "load_bytes (p + of_nat i) n (store_bytes p bs m) = take n (drop i bs)"
proof (rule nth_equalityI)
  fix j assume "j < length (load_bytes (p + of_nat i) n (store_bytes p bs m))"
  then have j: "j < n" by (simp add: load_bytes_def)
  then show "load_bytes (p + of_nat i) n (store_bytes p bs m) ! j = take n (drop i bs) ! j"
    using store_bytes_nth [of "i + j" bs p m] assms by (simp add: load_bytes_def add.assoc)
qed (use assms in \<open>simp add: load_bytes_def\<close>)

lemma from_bytes_to_bytes: "from_bytes (to_bytes (x :: u32)) = x"
proof (rule bit_word_eqI)
  fix n assume "n < LENGTH(32)"
  then consider "n < 8" | "8 \<le> n" "n < 16" | "16 \<le> n" "n < 24" | "24 \<le> n" "n < 32" by fastforce
  then show "bit (from_bytes (to_bytes x) :: u32) n = bit x n"
    by cases (auto simp: to_bytes_def upt_rec bit_simps)
qed

section \<open>The strings\<close>

definition nul_terminated :: "u8 list \<Rightarrow> u8 list" where
  "nul_terminated s = s @ [0]"

definition string_offset :: "u8 list list \<Rightarrow> nat \<Rightarrow> nat" where
  "string_offset strings i = length (concat (map nul_terminated (take i strings)))"

lemma push_strings:
  "fold push_string strings (offsets, buf) =
     (offsets @ map (\<lambda>i. of_nat (length buf + string_offset strings i)) [0..<length strings],
      buf @ concat (map nul_terminated strings))"
proof (induction strings arbitrary: offsets buf)
  case (Cons s strings)
  have "[0..<length (s # strings)] = 0 # map Suc [0..<length strings]"
    by (simp add: map_Suc_upt upt_conv_Cons del: upt_Suc)
  moreover have "fold push_string (s # strings) (offsets, buf) =
      fold push_string strings (offsets @ [of_nat (length buf)], buf @ s @ [0])"
    by (simp add: push_string_def)
  ultimately show ?case
    by (simp add: Cons.IH string_offset_def comp_def del: upt_Suc) (simp add: nul_terminated_def add.assoc)
qed simp

lemma string_at_offset:
  assumes "i < length strings"
  shows "take (length (strings ! i) + 1) (drop (string_offset strings i) (concat (map nul_terminated strings))) =
      nul_terminated (strings ! i)"
    and "string_offset strings i + length (strings ! i) + 1 \<le> length (concat (map nul_terminated strings))"
proof -
  have split: "concat (map nul_terminated strings) =
      concat (map nul_terminated (take i strings)) @ nul_terminated (strings ! i) @ concat (map nul_terminated (drop (Suc i) strings))"
    using assms by (subst id_take_nth_drop [OF assms]) simp
  show "take (length (strings ! i) + 1) (drop (string_offset strings i) (concat (map nul_terminated strings))) =
      nul_terminated (strings ! i)"
    unfolding split string_offset_def by (simp add: nul_terminated_def)
  show "string_offset strings i + length (strings ! i) + 1 \<le> length (concat (map nul_terminated strings))"
    unfolding split string_offset_def by (simp add: nul_terminated_def)
qed

section \<open>The pointers\<close>

lemma charstars_stored:
  assumes "4 * length vec \<le> 2 ^ 64"
  shows "encode_charstar_slice p vec guest_base host_base m =
    store_bytes p (concat (map (\<lambda>host. to_bytes (charstar guest_base host_base host)) vec)) m"
  using assms
proof (induction vec rule: rev_induct)
  case (snoc x vec)
  have len: "length (concat (map (\<lambda>host. to_bytes (charstar guest_base host_base host)) vec)) = 4 * length vec"
    by (induction vec) auto
  show ?case using snoc len store_bytes_append [of "concat (map (\<lambda>host. to_bytes (charstar guest_base host_base host)) vec)"]
    by (simp add: encode_charstar_slice_def enumerate_append_eq layouts mult.commute)
qed (simp add: encode_charstar_slice_def store_bytes_def)

lemma concat_fixed_slice:
  assumes "i < length xs" and "\<And>x. length (f x) = k"
  shows "take k (drop (k * i) (concat (map f xs))) = f (xs ! i)" and "length (concat (map f xs)) = k * length xs"
proof -
  have len: "length (concat (map f ys)) = k * length ys" for ys by (induction ys) (auto simp: assms(2))
  have "concat (map f xs) = concat (map f (take i xs)) @ f (xs ! i) @ concat (map f (drop (Suc i) xs))"
    by (subst id_take_nth_drop [OF assms(1)]) simp
  moreover have "length (concat (map f (take i xs))) = k * i" using assms(1) by (simp add: len)
  ultimately show "take k (drop (k * i) (concat (map f xs))) = f (xs ! i)" using assms(2) by simp
  show "length (concat (map f xs)) = k * length xs" by (rule len)
qed

lemma load_charstar:
  assumes "i < length vec" and "4 * length vec \<le> 2 ^ 64"
  shows "from_bytes (load_bytes (p + 4 * of_nat i) 4 (encode_charstar_slice p vec guest_base host_base m)) =
    charstar guest_base host_base (vec ! i)"
proof -
  let ?f = "\<lambda>host. to_bytes (charstar guest_base host_base host)"
  have "length (?f x) = 4" for x by simp
  from concat_fixed_slice [of i vec ?f, OF assms(1) this]
  show ?thesis using assms load_stored [of "4 * i" 4 "concat (map ?f vec)" p]
    by (simp add: charstars_stored from_bytes_to_bytes)
qed

section \<open>Delivery\<close>

text \<open>A guest whose memory is not at the start and not past the end of the address space and has at most 4 GiB.\<close>

definition proper_memory :: "vm_memory_definition \<Rightarrow> bool" where
  "proper_memory d \<longleftrightarrow>
     0 < vmm_base d \<and> unat (vmm_base d) + unat (vmm_current_length d) \<le> 2 ^ 64 \<and> unat (vmm_current_length d) \<le> 2 ^ 32"

text \<open>What the guest reads: the string at a pointer it finds in an array.\<close>

definition guest_string :: "vm_memory_definition \<Rightarrow> process_memory \<Rightarrow> u32 \<Rightarrow> nat \<Rightarrow> u8 list" where
  "guest_string d m q n = load_bytes (vmm_base d + ucast q) n m"

definition guest_pointer :: "vm_memory_definition \<Rightarrow> process_memory \<Rightarrow> u32 \<Rightarrow> nat \<Rightarrow> u32" where
  "guest_pointer d m vec i = from_bytes (load_bytes (vmm_base d + ucast vec + 4 * of_nat i) 4 m)"

text \<open>The strings start at \<open>buf\<close> and the pointers at \<open>vec\<close>.\<close>

definition string_area :: "vm_memory_definition \<Rightarrow> u32 \<Rightarrow> u32 \<Rightarrow> u8 list list \<Rightarrow> bool" where
  "string_area d buf vec strings \<longleftrightarrow>
     proper_memory d \<and>
     unat buf + length (concat (map nul_terminated strings)) \<le> unat (vmm_current_length d) \<and>
     unat vec + 4 * (length strings + 1) \<le> unat (vmm_current_length d) \<and>
     (unat buf + length (concat (map nul_terminated strings)) \<le> unat vec \<or>
      unat vec + 4 * (length strings + 1) \<le> unat buf)"

abbreviation host_addr :: "vm_memory_definition \<Rightarrow> u32 \<Rightarrow> u64" where
  "host_addr d p \<equiv> vmm_base d + ucast p"

definition delivered ::
  "vm_memory_definition \<Rightarrow> u32 \<Rightarrow> u32 \<Rightarrow> u8 list list \<Rightarrow> process_memory \<Rightarrow> process_memory" where
  "delivered d buf vec strings m = encode_charstar_slice (host_addr d vec)
     (map (\<lambda>offset. (host_addr d buf) + offset) (fst (fold push_string strings ([], []))) @ [0]) buf (host_addr d buf)
     (store_bytes (host_addr d buf) (snd (fold push_string strings ([], []))) m)"

lemma string_areaD:
  assumes "string_area d buf vec strings"
  shows "proper_memory d"
    and "unat buf + length (concat (map nul_terminated strings)) \<le> unat (vmm_current_length d)"
    and "unat vec + 4 * (length strings + 1) \<le> unat (vmm_current_length d)"
    and "unat buf + length (concat (map nul_terminated strings)) \<le> unat vec \<or>
      unat vec + 4 * (length strings + 1) \<le> unat buf"
    and "length (concat (map nul_terminated strings)) \<le> 2 ^ 32" "4 * (length strings + 1) \<le> 2 ^ 32"
  using assms by (auto simp: string_area_def proper_memory_def)

lemma unat_in_memory:
  assumes "proper_memory d" and "unat x + i < unat (vmm_current_length d)"
  shows "unat (vmm_base d + ucast (x :: u32) + of_nat i) = unat (vmm_base d) + unat x + i"
proof -
  have "unat (vmm_base d) + (unat x + i) < 2 ^ 64" using assms by (auto simp: proper_memory_def)
  then show ?thesis by (simp add: unat_of_nat_u64 unat_add_small add.assoc)
qed

text \<open>Writing the pointers does not touch the strings.\<close>

lemma vec_keeps_string:
  assumes area: "string_area d buf vec strings" and "j < length (concat (map nul_terminated strings))" and "length bs = 4 * (length strings + 1)"
  shows "store_bytes (host_addr d vec) bs m ((host_addr d buf) + of_nat j) = m ((host_addr d buf) + of_nat j)"
proof -
  have buf_at: "unat ((host_addr d buf) + of_nat j) = unat (vmm_base d) + unat buf + j"
    using assms(2) string_areaD [OF area] by (intro unat_in_memory) simp_all
  have vec_at: "unat (host_addr d vec) = unat (vmm_base d) + unat vec"
    using unat_in_memory [of d vec 0] string_areaD [OF area] by simp
  have "length bs \<le> unat ((host_addr d buf) + of_nat j - (host_addr d vec))"
    using assms(2,3) string_areaD(1-4) [OF area]
    unfolding unat_sub_if' buf_at vec_at word_le_nat_alt proper_memory_def by auto
  then show ?thesis by (simp add: store_bytes_def Let_def)
qed

lemma delivered_byte:
  assumes area: "string_area d buf vec strings" and "j < length (concat (map nul_terminated strings))"
  shows "delivered d buf vec strings m ((host_addr d buf) + of_nat j) = concat (map nul_terminated strings) ! j"
proof -
  let ?vec = "map (\<lambda>offset. (host_addr d buf) + offset) (map (\<lambda>i. of_nat (string_offset strings i)) [0..<length strings]) @ [0]"
  define bs where "bs = concat (map (\<lambda>host. to_bytes (charstar buf (host_addr d buf) host)) ?vec)"
  have "length bs = 4 * (length strings + 1)"
    unfolding bs_def by (subst concat_fixed_slice(2) [of 0 _ _ 4]) simp_all
  moreover have "delivered d buf vec strings m = store_bytes (host_addr d vec) bs (store_bytes (host_addr d buf) (concat (map nul_terminated strings)) m)"
    using string_areaD(5,6) [OF area] by (simp only: delivered_def push_strings bs_def fst_conv snd_conv append_Nil list.size(3) add_0)
      (subst charstars_stored, simp_all)
  ultimately show ?thesis
    using assms string_areaD(5,6) [OF area] by (simp add: vec_keeps_string [OF area] store_bytes_nth)
qed

lemma pointer_at:
  assumes area: "string_area d buf vec strings" and "i < length strings"
  shows "guest_pointer d (delivered d buf vec strings m) vec i = buf + of_nat (string_offset strings i)"
proof -
  have off: "string_offset strings i < length (concat (map nul_terminated strings))"
    using string_at_offset(2) [OF assms(2)] by simp
  have "unat ((host_addr d buf) + of_nat (string_offset strings i)) = unat (vmm_base d) + unat buf + string_offset strings i"
    using off string_areaD [OF area] by (intro unat_in_memory) simp_all
  then have "(host_addr d buf) + of_nat (string_offset strings i) \<noteq> 0"
    using string_areaD(1) [OF area] by (auto simp: proper_memory_def word_less_nat_alt)
  moreover have "ucast (of_nat (string_offset strings i) :: u64) = (of_nat (string_offset strings i) :: u32)"
    using off string_areaD(5,6) [OF area] by (simp add: unsigned_of_nat take_bit_nat_eq_self)
  ultimately show ?thesis using assms string_areaD(5,6) [OF area]
    by (simp add: guest_pointer_def delivered_def load_charstar push_strings charstar_def nth_append)
qed

lemma last_pointer:
  assumes area: "string_area d buf vec strings"
  shows "guest_pointer d (delivered d buf vec strings m) vec (length strings) = 0"
  using string_areaD(5,6) [OF area] by (simp add: guest_pointer_def delivered_def load_charstar push_strings charstar_def nth_append)

lemma string_at:
  assumes area: "string_area d buf vec strings" and "i < length strings"
  shows "guest_string d (delivered d buf vec strings m) (guest_pointer d (delivered d buf vec strings m) vec i) (length (strings ! i) + 1) = strings ! i @ [0]"
proof -
  let ?bytes = "concat (map nul_terminated strings)" and ?off = "string_offset strings i"
  have off: "?off + length (strings ! i) + 1 \<le> length ?bytes" by (rule string_at_offset(2) [OF assms(2)])
  have "unat (buf + of_nat ?off) = unat buf + ?off"
    using off string_areaD(1,2) [OF area] by (auto simp: proper_memory_def unat_add_small take_bit_nat_eq_self unat_of_nat)
  then have base: "vmm_base d + ucast (buf + of_nat ?off) = (host_addr d buf) + of_nat ?off"
    using unat_in_memory [of d buf ?off] unat_in_memory [of d "buf + of_nat ?off" 0] off string_areaD(1,2) [OF area]
    by (simp add: word_eq_iff_unat)
  have "load_bytes ((host_addr d buf) + of_nat ?off) (length (strings ! i) + 1) (delivered d buf vec strings m) =
      take (length (strings ! i) + 1) (drop ?off ?bytes)"
  proof (rule nth_equalityI)
    fix k assume "k < length (load_bytes ((host_addr d buf) + of_nat ?off) (length (strings ! i) + 1) (delivered d buf vec strings m))"
    then have k: "k < length (strings ! i) + 1" by (simp add: load_bytes_def)
    then have "delivered d buf vec strings m ((host_addr d buf) + of_nat (?off + k)) = ?bytes ! (?off + k)" using off by (intro delivered_byte [OF area]) simp
    with k off show "load_bytes ((host_addr d buf) + of_nat ?off) (length (strings ! i) + 1) (delivered d buf vec strings m) ! k =
        take (length (strings ! i) + 1) (drop ?off ?bytes) ! k"
      by (simp add: load_bytes_def nth_append add.assoc del: upt_Suc)
  qed (use off in \<open>simp add: load_bytes_def\<close>)
  also have "\<dots> = strings ! i @ [0]"
    using string_at_offset(1) [OF assms(2)] by (simp add: nul_terminated_def)
  finally show ?thesis by (simp add: guest_string_def pointer_at [OF assms] base)
qed

section \<open>The call\<close>

text \<open>How \<^verbatim>\<open>args_get\<close> and \<^verbatim>\<open>environ_get\<close> check their two slices.\<close>

lemma decode_slice_accepts:
  assumes "unat ptr + unat (fst t) * unat len \<le> unat (vmm_current_length d)" and "unat ptr mod unat (snd t) = 0"
  shows "decode_slice_of t (Some d) ptr len = Inr (host_addr d ptr, ucast len)"
proof -
  have "unat (fst t) * unat len < 2 ^ 64" using assms(1) unat_lt_u64 [of "vmm_current_length d"] by simp
  then have "checked_mul (fst t) (ucast len :: usize) = Some (fst t * ucast len)"
    and "unat (fst t * ucast len) = unat (fst t) * unat len"
    by (simp_all add: checked_mul_def unat_mult_small)
  then show ?thesis using assms unfolding decode_slice_of_def unwrap_try_from_up
    by (simp add: unwrap_option_def decode_ptr_cases)
qed

lemma string_area_counts:
  assumes "string_area d buf vec strings"
  shows "length (concat (map nul_terminated strings)) < 2 ^ 32" and "length strings + 1 < 2 ^ 32"
  using assms unat_lt_u32 [of vec] by (auto simp: string_area_def proper_memory_def)

lemma area_decodes:
  assumes area: "string_area d buf vec strings" and "unat vec mod 4 = 0"
    and "unat n = length (concat (map nul_terminated strings))" and "unat k = length strings + 1"
  shows "decode_char_slice (Some d) buf n = Inr (host_addr d buf, ucast n)"
    and "decode_charstar_slice (Some d) vec k = Inr (host_addr d vec, ucast k)"
  using assms string_areaD [OF area]
  by (simp_all add: decode_char_slice_def decode_charstar_slice_def decode_slice_accepts layouts)

lemma try_from_count: "n < 2 ^ 32 \<Longrightarrow> try_from (of_nat n :: usize) = Some (of_nat n :: u32)"
  by (simp add: try_from_def unat_of_nat_u64 unsigned_of_nat take_bit_nat_eq_self)

lemma unat_count: "n < 2 ^ 32 \<Longrightarrow> unat (of_nat n :: u32) = n"
  by (simp add: unat_of_nat take_bit_nat_eq_self)

lemma written_vec_all: "length ys = length xs \<Longrightarrow> written_vec xs ys = ys"
  by (simp add: written_vec_def)

lemma args_get_delivers:
  assumes area: "string_area d argv_buf argv args" and "unat argv mod 4 = 0"
    and "w_argv_environ w = argv_environ_init (fold push_string args ([], []), env)"
    and "\<And>v b. host (Ssp_args_get v b) w = ssp_args_get b w"
  shows "args_get host (Some d) argv argv_buf w =
    Inr (WASI_ESUCCESS, w\<lparr>w_memory := delivered d argv_buf argv args (w_memory w)\<rparr>)"
proof -
  note small = string_area_counts [OF area]
  have k: "unat (of_nat (length args) + 1 :: u32) = length args + 1"
    using unat_count [OF small(2)] by (simp add: add.commute)
  have n: "unat (of_nat (length args) + 1 :: usize) = length args + 1"
    using unat_of_nat_u64 [of "length args + 1"] small(2) by (simp add: add.commute)
  obtain environ_offsets environ_buf where env: "env = (environ_offsets, environ_buf)" by fastforce
  show ?thesis
    using small area_decodes [OF area assms(2) unat_count [OF small(1)] k] assms(3,4) k n
    by (simp add: args_get_def get_argv_environ_def or_nomem_def try_from_count argv_environ_init_def push_strings env
        or_return_def ssp_args_get_def written_vec_all always_def encoding_def no_out_def delivered_def
        return_encoded_errno_def encode_errno_def wasi_constants del: length_concat)
qed

lemma environ_get_delivers:
  assumes area: "string_area d environ_buf environ strings" and "unat environ mod 4 = 0"
    and "w_argv_environ w = argv_environ_init (argv, fold push_string strings ([], []))"
    and "\<And>v b. host (Ssp_environ_get v b) w = ssp_environ_get b w"
  shows "environ_get host (Some d) environ environ_buf w =
    Inr (WASI_ESUCCESS, w\<lparr>w_memory := delivered d environ_buf environ strings (w_memory w)\<rparr>)"
proof -
  note small = string_area_counts [OF area]
  have k: "unat (of_nat (length strings) + 1 :: u32) = length strings + 1"
    using unat_count [OF small(2)] by (simp add: add.commute)
  have n: "unat (of_nat (length strings) + 1 :: usize) = length strings + 1"
    using unat_of_nat_u64 [of "length strings + 1"] small(2) by (simp add: add.commute)
  obtain argv_offsets argv_buf where argv: "argv = (argv_offsets, argv_buf)" by fastforce
  show ?thesis
    using small area_decodes [OF area assms(2) unat_count [OF small(1)] k] assms(3,4) k n
    by (simp add: environ_get_def get_argv_environ_def or_nomem_def try_from_count argv_environ_init_def push_strings argv
        or_return_def ssp_environ_get_def written_vec_all always_def encoding_def no_out_def delivered_def
        return_encoded_errno_def encode_errno_def wasi_constants del: length_concat)
qed

definition reads_strings :: "vm_memory_definition \<Rightarrow> process_memory \<Rightarrow> u32 \<Rightarrow> u8 list list \<Rightarrow> bool" where
  "reads_strings d m vec strings \<longleftrightarrow>
     (\<forall>i<length strings. guest_string d m (guest_pointer d m vec i) (length (strings ! i) + 1) = strings ! i @ [0]) \<and>
     guest_pointer d m vec (length strings) = 0"

lemma delivered_reads: "string_area d buf vec strings \<Longrightarrow> reads_strings d (delivered d buf vec strings m) vec strings"
  using string_at [of d buf vec strings] by (simp add: reads_strings_def last_pointer)

text \<open>C12. The program finds its arguments and its environment: once the host was given a list of arguments and of variables,
  \<^verbatim>\<open>args_get\<close> and \<^verbatim>\<open>environ_get\<close> succeed on any two separate areas of the memory that are large enough, and the guest then reads at
  its pointer \<open>i\<close> the bytes of argument \<open>i\<close> (or of name, \<open>=\<close> and value of variable \<open>i\<close>) and a zero, and after the last
  pointer a null pointer.\<close>

theorem args_reach_guest:
  fixes host :: "'h host"
  assumes "w_argv_environ w = argv_environ_init (allocate_argv_environ args env)"
    and "\<And>v b. host (Ssp_args_get v b) w = ssp_args_get b w"
    and "\<And>v b. host (Ssp_environ_get v b) w = ssp_environ_get b w"
    and "string_area d argv_buf argv args" and "unat argv mod 4 = 0"
    and "string_area d environ_buf environ (map (\<lambda>(key, val). key @ [61] @ val) env)" and "unat environ mod 4 = 0"
  shows "(\<exists>w'. args_get host (Some d) argv argv_buf w = Inr (WASI_ESUCCESS, w') \<and>
      reads_strings d (w_memory w') argv args) \<and>
    (\<exists>w'. environ_get host (Some d) environ environ_buf w = Inr (WASI_ESUCCESS, w') \<and>
      reads_strings d (w_memory w') environ (map (\<lambda>(key, val). key @ [61] @ val) env))"
proof
  let ?vars = "map (\<lambda>(key, val). key @ [61] @ val) env"
  have env: "fold (\<lambda>(key, val). push_string (key @ [61] @ val)) env ([], []) = fold push_string ?vars ([], [])"
    by (simp add: fold_map comp_def split_def)
  note state = assms(1) [unfolded allocate_argv_environ_def env]
  show "\<exists>w'. args_get host (Some d) argv argv_buf w = Inr (WASI_ESUCCESS, w') \<and> reads_strings d (w_memory w') argv args"
    using args_get_delivers [OF assms(4,5) state, of host] assms(2) delivered_reads [OF assms(4)] by simp
  show "\<exists>w'. environ_get host (Some d) environ environ_buf w = Inr (WASI_ESUCCESS, w') \<and> reads_strings d (w_memory w') environ ?vars"
    using environ_get_delivers [OF assms(6,7) state, of host] assms(3) delivered_reads [OF assms(6)] by simp
qed

fun argv_host :: "'h host" where
  "argv_host (Ssp_args_get _ b) w = ssp_args_get b w"
| "argv_host (Ssp_environ_get _ b) w = ssp_environ_get b w"
| "argv_host Ssp_args_sizes_get w = ssp_args_sizes_get w"
| "argv_host Ssp_environ_sizes_get w = ssp_environ_sizes_get w"
| "argv_host _ w = (no_out\<lparr>out_errno := WASI_EINVAL\<rparr>, w)"

text \<open>\<open>ls -l\<close> with \<open>A=B\<close> in its environment.\<close>

definition argv_state :: "unit wasi_state" where
  "argv_state = \<lparr>w_memory = (\<lambda>_. 0),
     w_argv_environ = argv_environ_init (allocate_argv_environ [[108, 115], [45, 108]] [([65], [66])]), w_tables = ()\<rparr>"

theorem args_reach_guest_witness:
  "\<exists>w'. args_get argv_host (Some sample_memory) 64 128 argv_state = Inr (WASI_ESUCCESS, w') \<and>
     reads_strings sample_memory (w_memory w') 64 [[108, 115], [45, 108]]"
proof -
  have "string_area sample_memory 128 64 [[108, 115], [45, 108]]" "string_area sample_memory 128 64 [[65, 61, 66]]"
    by (simp_all add: string_area_def proper_memory_def sample_memory_def nul_terminated_def)
  then show ?thesis
    using args_reach_guest [where host = argv_host and w = argv_state and args = "[[108, 115], [45, 108]]" and env = "[([65], [66])]"
        and d = sample_memory and argv = 64 and argv_buf = 128 and environ = 64 and environ_buf = 128]
    by (simp add: argv_state_def)
qed

end
