(* ===== verification/Spec2Isabelle.thy ===== *)
theory Spec2Isabelle
  imports Linker Compiled_Calls Microwasm_Translate Cache_Confined Address_Transform_Sound Range_Info Jit_Compiler Wasi_Args
begin

text \<open>
  A verification of wasmtime, a WebAssembly runtime: the description of a decoded module, the layout
  and contents of the VM contexts that compiled code works on, linear memories and tables,
  instantiation and linking, the lifetime of instances, the translation of function bodies to
  microwasm, the accesses and calls that Cranelift compiles, the memory that holds the code and the calls into it, the cache of compiled modules,
  the addresses and the selection of debug information, and the WASI calls.

  \<^bold>\<open>The program.\<close> A decoder declares the parts of a module to a \<^verbatim>\<open>ModuleEnvironment\<close>, which builds a
  \<^verbatim>\<open>Module\<close> with plans for its memories and tables. A compiler turns each body into machine code that
  addresses a \<^verbatim>\<open>VMContext\<close> at the offsets of \<^verbatim>\<open>VMOffsets\<close>; Lightbeam does so by way of microwasm. The
  cache stores what was compiled under a name made from the module. The linker resolves the imports
  and relocates the code, \<^verbatim>\<open>InstanceHandle::new\<close> makes the memories, tables and the context, checks
  and writes the segments and runs the start function. From then on compiled code grows memories and
  tables through library calls, and instances live as long as a handle reaches them. A caller outside reaches an export through a
  trampoline, which moves arguments and results between an array of values and the registers of the function. An instance made by
  \<^verbatim>\<open>instantiate_wasi_c\<close> exports the WASI calls, which translate pointers of the guest into addresses of the
  process. With the addresses that the compiler records, debug information of the module is carried over to the
  generated code.

  \<^bold>\<open>Theories and sources.\<close> Paths are below \<^verbatim>\<open>src/\<close>; definitions have the names of the functions and
  types they model, with the name of the type in front where two would clash.

    \<^item> \<open>Prelude\<close>: machine integers of a 64-bit target, checked arithmetic, results with panics and
      faults as values, alone and with the state at the failure.
    \<^item> \<open>Module_Env\<close>: \<^verbatim>\<open>wasmtime-environ/src/module.rs\<close>, \<^verbatim>\<open>module_environ.rs\<close>, \<^verbatim>\<open>tunables.rs\<close>. The
      record \<open>wasm_module\<close> is the struct; entity maps are lists. The locales \<open>index_space\<close> and
      \<open>declared_space\<close> are the contract of the four index spaces. Shown: every declared index is
      classified as it was declared, what the cache key depends on and what it forgets.
    \<^item> \<open>VMOffsets\<close>: \<^verbatim>\<open>vmoffsets.rs\<close> at the widths u8 and u32. The locale \<open>vm_array\<close> is an array of the
      context. Shown: the size in every case, with the one where its computation wraps; slots are disjoint
      and inside; alignment.
    \<^item> \<open>Growable\<close>, \<open>Runtime_Memory\<close>, \<open>Runtime_Table\<close>: \<^verbatim>\<open>wasmtime-runtime/src/mmap.rs\<close>, \<^verbatim>\<open>memory.rs\<close>,
      \<^verbatim>\<open>table.rs\<close>. The locale \<open>growable\<close> is what memories and tables share. Shown: growth on every
      branch, and bounds that any sequence of growths keeps.
    \<^item> \<open>Registries\<close>: \<^verbatim>\<open>sig_registry.rs\<close> (the locale \<open>interner\<close>) and \<^verbatim>\<open>trap_registry.rs\<close> with the poisoning
      of its lock.
    \<^item> \<open>VMContext\<close>, \<open>Instance\<close>: \<^verbatim>\<open>vmcontext.rs\<close>, \<^verbatim>\<open>instance.rs\<close>, \<^verbatim>\<open>export.rs\<close>, \<^verbatim>\<open>imports.rs\<close>, \<^verbatim>\<open>libcalls.rs\<close>.
      Contexts are bytes in a raw memory, a store maps their addresses to instances, so that imports
      alias the context of the exporting instance.
    \<^item> \<open>Instantiation\<close>, \<open>Initialization\<close>: creation and initialization of an instance. A step that fails
      leaves in the store what was written before it. Shown: which segment error is reported and that
      nothing is initialized then, and why no initializer panics or faults once the bounds are checked.
    \<^item> \<open>Handles\<close>: reference counts, with the recursion of \<^verbatim>\<open>drop\<close> as an explicit stack. Shown: what a drop frees,
      and that what the remaining instances import, functions included, remains.
    \<^item> \<open>Linker\<close>: \<^verbatim>\<open>wasmtime-jit/src/link.rs\<close> and \<^verbatim>\<open>resolver.rs\<close>.
    \<^item> \<open>Func_Env\<close>: \<^verbatim>\<open>wasmtime-environ/src/func_environ.rs\<close>, the environment in which Cranelift translates a body. The function under
      construction is a record of the global values, heaps, tables, signatures and instructions that the code
      asks for. \<open>Func_Env_Sound\<close>: loads from a context, and that the heaps, tables and globals of a function are the objects
      the runtime means by their indices. \<open>Compiled_Calls\<close>: a meaning for the straight-line code, and what the code of
      direct and indirect calls and of the memory operations does on a machine that holds a store.
    \<^item> \<open>Microwasm\<close>, \<open>Microwasm_Conv\<close>: \<^verbatim>\<open>lightbeam/src/microwasm.rs\<close>, the operators and the iterator that
      makes them. \<open>Microwasm_Typing\<close> says what well-formed microwasm is and which valid bodies are
      considered (a fragment: no sign extensions, no several results, no branches back to a loop with a
      result from a place with operands above those of the loop),
      \<open>Microwasm_Sound\<close> and \<open>Microwasm_Translate\<close> that the latter become the former.
    \<^item> \<open>Cache_Files\<close>: paths and numbers of the standard library. \<open>Cache_Config\<close>:
      \<^verbatim>\<open>wasmtime-environ/src/cache/config.rs\<close> and the initialization of the process. \<open>Cache_Entry\<close>:
      a file system whose operations may fail, and \<^verbatim>\<open>cache.rs\<close>. \<open>Cache_Worker\<close>: \<^verbatim>\<open>cache/worker.rs\<close>.
      \<open>Cache_Worker_Sound\<close> and \<open>Cache_Confined\<close>: the limits a clean-up keeps (over the locale
      \<open>comparison\<close>, the contract of a sort), locks, that recompression keeps the data, what becomes of
      entries with debug information, and that the worker stays in its directory. The file system has no
      symbolic links, which the worker follows; with a link in the cache it does not stay there.
    \<^item> \<open>Address_Transform\<close>: \<^verbatim>\<open>wasmtime-debug/src/transform/address_transform.rs\<close> over the records of
      \<^verbatim>\<open>wasmtime-environ/src/address_map.rs\<close>, with the binary search and the ordered map of the standard library.
      \<open>Address_Transform_Sound\<close>: the ranges of a function hold its instructions, which ranges a lookup finds, that a
      translated address is inside the code, and when the translation of a range returns.
      \<open>Debug_Gc\<close>: \<^verbatim>\<open>wasmtime-debug/src/gc.rs\<close>, the entries that are kept, which are exactly the reachable ones.
      \<open>Range_Info\<close>: \<^verbatim>\<open>transform/range_info_builder.rs\<close>, and when it builds ranges without a panic. What gimli reads is data there.
    \<^item> \<open>Code_Memory\<close>: \<^verbatim>\<open>wasmtime-jit/src/code_memory.rs\<close>: blocks of code stay apart and unchanged, and publication makes them executable.
      \<open>Jit_Compiler\<close>: \<^verbatim>\<open>compiler.rs\<close> and \<^verbatim>\<open>action.rs\<close>. A trampoline is known by what it was made for, and running it does what
      the instructions of \<^verbatim>\<open>make_trampoline\<close> say. Shown: the compiler keeps its trampolines, and \<^verbatim>\<open>invoke\<close> calls the exported function
      with the given arguments and returns its results.
    \<^item> \<open>Wasi_Translate\<close>: \<^verbatim>\<open>wasmtime-wasi-c/src/translate.rs\<close> and the layouts of \<^verbatim>\<open>wasm32.rs\<close>, on the bytes of the process.
      \<open>Wasi_Syscalls\<close>: the 45 calls of \<^verbatim>\<open>syscalls.rs\<close>. \<open>Wasi_Instantiate\<close>: \<^verbatim>\<open>instantiate.rs\<close>, the shims, and the
      C functions that hold the arguments. \<open>Wasi_Bounds\<close>: which pointers are accepted, and that writes through
      them stay in the memory of the guest. \<open>Wasi_Confined\<close>: by one rule per control structure and per
      function of the translation, every call stays in that memory, except \<^verbatim>\<open>poll_oneoff\<close> with several
      events, and answers, except \<^verbatim>\<open>proc_exit\<close> and \<^verbatim>\<open>proc_raise\<close>. \<open>Wasi_Args\<close>: the arguments and the environment arrive in the guest as they were given.

  \<^bold>\<open>Effects and errors.\<close> State is passed explicitly. A result is \<open>Inl\<close> an error, where a panic, a memory
  fault and each error of the code are separate constructors, or \<open>Inr\<close> a value; where the state at an error
  matters, in instantiation and in the cache, it comes beside the result. Offsets that the code
  computes with checked arithmetic and unwraps are options. The operating system, allocators, the
  compiled code, the clock, the libraries for hashing, compression and toml and the C functions behind the WASI calls
  are arguments of the definitions that use them, and what is needed of them is a hypothesis of the theorem
  (\<open>proper_host\<close> for the WASI calls, \<open>holds_store\<close> for the memory that compiled code reads).

  \<^bold>\<open>Termination.\<close> Loops are structural recursion or have a measure (the levels of a directory, the operators
  of a body, the entries not yet reached); nothing uses fuel. The recursion of \<^verbatim>\<open>drop\<close> through the dependencies of an instance may not end on a
  cyclic store, so it is a partial function into option; that it ends on every store the runtime can
  build is the theorem on it. The iterator over the ends of address ranges is one too, since it may loop for ever: the
  theorem on it says exactly when. The iterator over a body is total, and that it reaches the end of the
  body is a theorem.

  \<^bold>\<open>Not modelled.\<close> What Cranelift makes of the instructions it is given is its own, the x86-64 code of Lightbeam goes through an assembler macro
  of another crate, signal handlers and long jumps through C++ and
  the operating system, the rest of debug information through the gimli library,
  the contexts of the JIT pass modules from one modelled part to the next, the second WASI
  implementation through wasi-common,
  and the object files, interface types, bindings and command lines are glue around these. Windows
  variants, logging, counters of tests, thread priority and concurrency inside one call are left out.
  Of an instance, the host state, the registration with a debugger and the library calls on
  floating-point numbers are left out.
\<close>

end
